(* ===== verification/Prelude.thy ===== *)
theory Prelude
  imports Main "HOL-Library.Word" "HOL-Library.Monad_Syntax"
begin

text \<open>
  Shared vocabulary of the development: the machine integers of the firmware, lemmas on
  masked updates of a register, the two interfaces that the driver components implement
  (a field inside a register, an on/off switch) and the loop that polls a status flag.
\<close>

unbundle bit_operations_syntax

section \<open>Machine integers\<close>

type_synonym u8 = "8 word"
type_synonym u16 = "16 word"
type_synonym u32 = "32 word"

text \<open>
  \<open>reg_simps\<close>: projections of the register updates of the drivers.
  \<open>eval_bits\<close>: what the simplifier needs to evaluate closed bit expressions.
\<close>

named_theorems reg_simps
named_theorems eval_bits

declare mask_numeral [eval_bits]

section \<open>Masked updates of a register\<close>

text \<open>
  \<open>reg &= ~m; reg |= v;\<close> is how the drivers replace the bits of a mask \<open>m\<close>.
  The lemmas below hold for a value \<open>v\<close> that lies inside the mask.
\<close>

definition field_put :: "'a::len word \<Rightarrow> 'a word \<Rightarrow> 'a word \<Rightarrow> 'a word" where
  "field_put m v r = (r AND NOT m) OR v"

lemma bit_field_put: "bit (field_put m v r) n \<longleftrightarrow> (bit r n \<and> \<not> bit m n) \<or> bit v n"
  by (cases "n < LENGTH('a)")
    (auto simp: field_put_def bit_simps dest: bit_imp_le_length)

text \<open>The sources spell the complement out as a constant of its own.\<close>

lemma masked_update: "c = NOT m \<Longrightarrow> (r AND c) OR v = field_put m v r"
  by (simp add: field_put_def)

lemma inside_maskD:
  assumes "v AND NOT m = 0" and "bit v n"
  shows "bit (m :: 'a::len word) n"
proof -
  have "\<not> bit (v AND NOT m) n" by (simp add: assms(1))
  with assms(2) show ?thesis
    by (auto simp: bit_and_iff bit_not_iff dest: bit_imp_le_length)
qed

lemma disjoint_maskD:
  assumes "m AND k = 0" and "bit m n"
  shows "\<not> bit (k :: 'a::len word) n"
proof -
  have "\<not> bit (m AND k) n" by (simp add: assms(1))
  with assms(2) show ?thesis by (simp add: bit_and_iff)
qed

lemma split_mask: "(r AND m) OR (r AND NOT m) = (r :: 'a::len word)"
  by (rule bit_word_eqI) (auto simp: bit_or_iff bit_and_iff bit_not_iff)

lemma field_put_get:
  fixes m :: "'a::len word"
  assumes "v AND NOT m = 0"
  shows "field_put m v r AND m = v"
  by (rule bit_word_eqI) (use inside_maskD [OF assms] in \<open>auto simp: bit_field_put bit_and_iff\<close>)

lemma field_put_outside:
  fixes m :: "'a::len word"
  assumes "v AND NOT m = 0"
  shows "field_put m v r AND NOT m = r AND NOT m"
  by (rule bit_word_eqI)
    (use inside_maskD [OF assms] in \<open>auto simp: bit_field_put bit_and_iff bit_not_iff\<close>)

lemma field_put_other:
  fixes m :: "'a::len word"
  assumes "v AND NOT m = 0" and "m AND k = 0"
  shows "field_put m v r AND k = r AND k"
  by (rule bit_word_eqI)
    (use inside_maskD [OF assms(1)] disjoint_maskD [OF assms(2)]
      in \<open>auto simp: bit_field_put bit_and_iff\<close>)

lemma field_put_put:
  fixes m :: "'a::len word"
  assumes "w AND NOT m = 0"
  shows "field_put m v (field_put m w r) = field_put m v r"
  by (rule bit_word_eqI) (use inside_maskD [OF assms] in \<open>auto simp: bit_field_put\<close>)

lemma field_put_same: "field_put m (r AND m) r = (r :: 'a::len word)"
  by (rule bit_word_eqI) (auto simp: bit_field_put bit_and_iff)

lemma field_put_commute:
  fixes m :: "'a::len word"
  assumes "v AND NOT m = 0" and "w AND NOT k = 0" and "m AND k = 0"
  shows "field_put m v (field_put k w r) = field_put k w (field_put m v r)"
  by (rule bit_word_eqI)
    (use inside_maskD [OF assms(1)] inside_maskD [OF assms(2)] disjoint_maskD [OF assms(3)]
      in \<open>auto simp: bit_field_put\<close>)

section \<open>Shifts by a computed count\<close>

text \<open>\<open>x << n\<close> on \<open>uint32_t\<close> is undefined in C when \<open>n\<close> is 32 or more.\<close>

definition shl_u32 :: "u32 \<Rightarrow> u32 \<Rightarrow> u32 option" where
  "shl_u32 x n = (if n < 32 then Some (push_bit (unat n) x) else None)"

text \<open>\<open>x << n\<close> on a \<open>uint16_t\<close> is done on \<open>int\<close>, where it must not overflow, and cut
  back to 16 bits.\<close>

definition shl_u16 :: "u16 \<Rightarrow> u16 \<Rightarrow> u16 option" where
  "shl_u16 x n = (if n < 32 \<and> unat x * 2 ^ unat n < 2 ^ 31 then Some (push_bit (unat n) x) else None)"

section \<open>Words bit by bit\<close>

text \<open>
  Closed masks of the device are decided bit by bit: \<open>simp add: bits32 bit_simps\<close> (or
  \<open>bits16\<close>) expands an equation of words into its bits.
\<close>

lemma word32_eq_iff: "a = b \<longleftrightarrow> (\<forall>n<32. bit (a :: u32) n = bit b n)"
  by (auto intro: bit_word_eqI)

lemma word16_eq_iff: "a = b \<longleftrightarrow> (\<forall>n<16. bit (a :: u16) n = bit b n)"
  by (auto intro: bit_word_eqI)

lemma all_less_32: "(\<forall>n<32. P n) \<longleftrightarrow>
    P 0 \<and> P 1 \<and> P 2 \<and> P 3 \<and> P 4 \<and> P 5 \<and> P 6 \<and> P 7 \<and>
    P 8 \<and> P 9 \<and> P 10 \<and> P 11 \<and> P 12 \<and> P 13 \<and> P 14 \<and> P 15 \<and>
    P 16 \<and> P 17 \<and> P 18 \<and> P 19 \<and> P 20 \<and> P 21 \<and> P 22 \<and> P 23 \<and>
    P 24 \<and> P 25 \<and> P 26 \<and> P 27 \<and> P 28 \<and> P 29 \<and> P 30 \<and> P (31::nat)"
  by (simp add: numeral_eq_Suc All_less_Suc) blast

lemma all_less_16: "(\<forall>n<16. P n) \<longleftrightarrow>
    P 0 \<and> P 1 \<and> P 2 \<and> P 3 \<and> P 4 \<and> P 5 \<and> P 6 \<and> P 7 \<and>
    P 8 \<and> P 9 \<and> P 10 \<and> P 11 \<and> P 12 \<and> P 13 \<and> P 14 \<and> P (15::nat)"
  by (simp add: numeral_eq_Suc All_less_Suc) blast

lemma all_less_8: "(\<forall>n<8. P n) \<longleftrightarrow> P 0 \<and> P 1 \<and> P 2 \<and> P 3 \<and> P 4 \<and> P 5 \<and> P 6 \<and> P (7::nat)"
  by (simp add: numeral_eq_Suc All_less_Suc) blast

lemma all_less_4: "(\<forall>n<4. P n) \<longleftrightarrow> P 0 \<and> P 1 \<and> P 2 \<and> P (3::nat)"
  by (simp add: numeral_eq_Suc All_less_Suc) blast

lemma word8_eq_iff: "a = b \<longleftrightarrow> (\<forall>n<8. bit (a :: u8) n = bit b n)"
  by (auto intro: bit_word_eqI)

lemmas bits32 = word32_eq_iff all_less_32
lemmas bits16 = word16_eq_iff all_less_16
lemmas bits8 = word8_eq_iff all_less_8

section \<open>Polling a volatile register\<close>

text \<open>
  \<open>while (busy) {}\<close> over a register that the hardware changes: \<open>tick\<close> is what the
  peripherals do between two reads. The loop may never end, so its result is an option:
  \<open>None\<close> is a loop that does not return.
\<close>

partial_function (option) wait_while :: "('s \<Rightarrow> 's) \<Rightarrow> ('s \<Rightarrow> bool) \<Rightarrow> 's \<Rightarrow> 's option" where
  "wait_while tick busy s = (if busy s then wait_while tick busy (tick s) else Some s)"

lemma wait_while_idle: "\<not> busy s \<Longrightarrow> wait_while tick busy s = Some s"
  by (simp add: wait_while.simps)

lemma wait_while_busy: "busy s \<Longrightarrow> wait_while tick busy s = wait_while tick busy (tick s)"
  by (simp add: wait_while.simps [of tick busy s])

text \<open>If the flag is up after \<open>n\<close> ticks, the loop returns, at the first such moment.\<close>

lemma wait_while_returns:
  assumes "\<not> busy ((tick ^^ n) s)"
  shows "\<exists>k \<le> n. wait_while tick busy s = Some ((tick ^^ k) s) \<and> \<not> busy ((tick ^^ k) s)
    \<and> (\<forall>j < k. busy ((tick ^^ j) s))"
  using assms
proof (induction n arbitrary: s)
  case 0
  then show ?case by (auto simp: wait_while_idle intro: exI [of _ 0])
next
  case (Suc n)
  show ?case
  proof (cases "busy s")
    case False
    then show ?thesis by (auto simp: wait_while_idle intro: exI [of _ 0])
  next
    case True
    from Suc.prems have "\<not> busy ((tick ^^ n) (tick s))"
      by (simp add: funpow_swap1)
    from Suc.IH [OF this] obtain k where k: "k \<le> n"
        "wait_while tick busy (tick s) = Some ((tick ^^ k) (tick s))"
        "\<not> busy ((tick ^^ k) (tick s))" "\<forall>j < k. busy ((tick ^^ j) (tick s))"
      by blast
    have "\<forall>j < Suc k. busy ((tick ^^ j) s)"
      using k(4) True by (auto simp: less_Suc_eq_0_disj funpow_swap1)
    with k True show ?thesis
      by (auto simp: wait_while_busy funpow_swap1 intro!: exI [of _ "Suc k"])
  qed
qed

text \<open>Whatever it returns is a moment at which the flag is up.\<close>

lemma wait_while_SomeD:
  assumes ret: "wait_while tick busy s = Some t"
  shows "\<exists>k. t = (tick ^^ k) s \<and> \<not> busy t"
proof (rule wait_while.raw_induct
    [where P = "\<lambda>tick busy s t. \<exists>k. t = (tick ^^ k) s \<and> \<not> busy t", OF _ ret])
  fix f :: "('a \<Rightarrow> 'a) \<Rightarrow> ('a \<Rightarrow> bool) \<Rightarrow> 'a \<Rightarrow> 'a option" and tick busy s t
  assume IH: "\<And>tick busy s t. f tick busy s = Some t \<Longrightarrow> \<exists>k. t = (tick ^^ k) s \<and> \<not> busy t"
    and eq: "(if busy s then f tick busy (tick s) else Some s) = Some t"
  show "\<exists>k. t = (tick ^^ k) s \<and> \<not> busy t"
  proof (cases "busy s")
    case True
    with eq IH [of tick busy "tick s" t] obtain k where "t = (tick ^^ k) (tick s)" "\<not> busy t"
      by auto
    then show ?thesis by (auto simp: funpow_swap1 intro!: exI [of _ "Suc k"])
  next
    case False
    with eq show ?thesis by (auto intro: exI [of _ 0])
  qed
qed

lemma wait_while_None_iff:
  "wait_while tick busy s = None \<longleftrightarrow> (\<forall>n. busy ((tick ^^ n) s))"
proof
  assume none: "wait_while tick busy s = None"
  show "\<forall>n. busy ((tick ^^ n) s)"
  proof (rule ccontr)
    assume "\<not> (\<forall>n. busy ((tick ^^ n) s))"
    then obtain n where "\<not> busy ((tick ^^ n) s)" by blast
    from wait_while_returns [of busy n tick s, OF this] none show False by auto
  qed
next
  assume "\<forall>n. busy ((tick ^^ n) s)"
  then show "wait_while tick busy s = None"
    by (cases "wait_while tick busy s") (auto dest!: wait_while_SomeD)
qed

section \<open>Numbers of words\<close>

lemma unat_lt_max: "unat (w :: 'a::len word) < 2 ^ LENGTH('a)"
  by (metis unsigned_less)

lemma unat_ucast_up:
  assumes "LENGTH('a) \<le> LENGTH('b)"
  shows "unat (ucast (x :: 'a::len word) :: 'b::len word) = unat x"
proof -
  have "unat x < 2 ^ LENGTH('a)" by (rule unat_lt_max)
  also have "\<dots> \<le> 2 ^ LENGTH('b)" using assms by (simp add: power_increasing)
  finally show ?thesis by (simp add: unsigned_ucast_eq take_bit_nat_eq_self_iff)
qed

lemma unat_drop: "unat (drop_bit n w) = unat w div 2 ^ n" for w :: "'a::len word"
proof -
  have "take_bit LENGTH('a) (unat w) = unat w" by (simp add: take_bit_nat_eq_self_iff)
  then show ?thesis unfolding unsigned_drop_bit_eq by (simp add: drop_bit_eq_div)
qed

section \<open>Polling with a time-out\<close>

text \<open>
  \<open>do { r = up(); c++; } while (!r && c != limit)\<close>: a poll with a time-out. It always
  returns; the state is the one after the last tick.
\<close>

function poll_count :: "('s \<Rightarrow> 's) \<Rightarrow> ('s \<Rightarrow> bool) \<Rightarrow> u32 \<Rightarrow> u32 \<Rightarrow> 's \<Rightarrow> 's" where
  "poll_count tick up limit c s =
     (let r = up s; c' = c + 1; s' = tick s
      in if \<not> r \<and> c' \<noteq> limit then poll_count tick up limit c' s' else s')"
  by pat_completeness auto
termination
proof (relation "measure (\<lambda>(tick, up, limit, c, s). unat (limit - 1 - c))", goal_cases)
  case 1
  show ?case by simp
next
  case (2 tick up limit c s r c' s')
  define d where "d = limit - 1 - c"
  have "d \<noteq> 0" using 2 by (auto simp: d_def algebra_simps)
  then have "unat (d - 1) < unat d"
    by (simp add: unat_minus_one unat_gt_0)
  moreover have "limit - 1 - c' = d - 1" using 2(2) by (simp add: d_def algebra_simps)
  ultimately have "unat (limit - 1 - c') < unat (limit - 1 - c)" unfolding d_def by metis
  then show ?case by simp
qed

declare poll_count.simps [simp del]

lemma poll_count_stop:
  "up s \<or> c + 1 = limit \<Longrightarrow> poll_count tick up limit c s = tick s"
  by (auto simp: poll_count.simps [of tick up limit c s] Let_def)

lemma poll_count_step:
  "\<not> up s \<Longrightarrow> c + 1 \<noteq> limit \<Longrightarrow>
   poll_count tick up limit c s = poll_count tick up limit (c + 1) (tick s)"
  by (simp add: poll_count.simps [of tick up limit c s] Let_def)

text \<open>The loop makes at most \<open>limit\<close> reads and stops at the first one that is up.\<close>

lemma poll_count_reads:
  assumes "unat limit = unat c + Suc n"
  shows "\<exists>k \<le> n. poll_count tick up limit c s = (tick ^^ Suc k) s
    \<and> (\<forall>j < k. \<not> up ((tick ^^ j) s)) \<and> (up ((tick ^^ k) s) \<or> k = n)"
  using assms
proof (induction n arbitrary: c s)
  case 0
  then have "unat limit = unat c + 1" by simp
  also have "\<dots> = unat (c + 1)"
    using 0 unat_lt_max [of limit] by (simp add: unat_word_ariths)
  finally have "limit = c + 1" by (simp only: word_unat_eq_iff)
  then show ?case by (simp add: poll_count_stop)
next
  case (Suc n)
  show ?case
  proof (cases "up s")
    case True
    then show ?thesis by (auto simp: poll_count_stop intro: exI [of _ 0])
  next
    case False
    have c1: "unat (c + 1) = unat c + 1"
      using Suc.prems unat_lt_max [of limit] by (simp add: unat_word_ariths)
    then have neq: "c + 1 \<noteq> limit" using Suc.prems by auto
    have "unat limit = unat (c + 1) + Suc n" using Suc.prems c1 by simp
    from Suc.IH [OF this, of "tick s"] obtain k where k: "k \<le> n"
      "poll_count tick up limit (c + 1) (tick s) = (tick ^^ Suc k) (tick s)"
      "\<forall>j < k. \<not> up ((tick ^^ j) (tick s))" "up ((tick ^^ k) (tick s)) \<or> k = n"
      by blast
    have "\<forall>j < Suc k. \<not> up ((tick ^^ j) s)"
      using k(3) False by (auto simp: less_Suc_eq_0_disj funpow_swap1)
    with k False neq show ?thesis
      by (auto simp: poll_count_step funpow_swap1 intro!: exI [of _ "Suc k"])
  qed
qed

end
