(* ===== verification/Stm32f10x.thy ===== *)
theory Stm32f10x
  imports Prelude
begin

text \<open>
  The device as the firmware sees it (\<open>USER/stm32f10x.h\<close>, \<open>CORE/core_cm3.h\<close>): one record
  per register block, one enumeration per family of base pointers, and the state \<open>mcu\<close> of
  all blocks. A register is a word that holds what was stored last. Three kinds of register are not
  memory, and the model keeps what C guarantees of a volatile object, the sequence of accesses:
  \<^item> write-only triggers (\<open>EGR\<close>, \<open>BSRR\<close>, \<open>BRR\<close>, \<open>LCKR\<close>, \<open>ISER\<close>, \<open>ICER\<close>, the transmit
    side of \<open>DR\<close>) are the list of the values stored, oldest first;
  \<^item> the peripheral reset registers are memory and a list of the values stored, since a reset
    is a pulse (set, then clear) of which memory alone keeps nothing;
  \<^item> the status registers \<open>SR\<close> of the timers and of the USARTs, where a store does not
    overwrite: what a store leaves is a parameter \<open>sr_store\<close> of the functions that store.
\<close>

section \<open>Enumerations\<close>

datatype FunctionalState = DISABLE | ENABLE
datatype FlagStatus = RESET | SET
datatype ErrorStatus = ERROR | SUCCESS
datatype BitAction = Bit_RESET | Bit_SET

text \<open>\<open>(uint32_t)NewState\<close>: \<open>DISABLE = 0\<close>, \<open>ENABLE = !DISABLE\<close>.\<close>

fun state_u32 :: "FunctionalState \<Rightarrow> u32" where
  "state_u32 DISABLE = 0"
| "state_u32 ENABLE = 1"

datatype TIM_ptr = TIM1 | TIM2 | TIM3 | TIM4 | TIM5 | TIM6 | TIM7 | TIM8 | TIM9
  | TIM10 | TIM11 | TIM12 | TIM13 | TIM14 | TIM15 | TIM16 | TIM17

datatype GPIO_ptr = GPIOA | GPIOB | GPIOC | GPIOD | GPIOE | GPIOF | GPIOG

datatype USART_ptr = USART1 | USART2 | USART3 | UART4 | UART5

section \<open>Register blocks\<close>

record TIM_TypeDef =
  TIM_CR1 :: u16
  TIM_CR2 :: u16
  TIM_SMCR :: u16
  TIM_DIER :: u16
  TIM_SR :: u16
  TIM_EGR_stores :: "u16 list"
  TIM_CCMR1 :: u16
  TIM_CCMR2 :: u16
  TIM_CCER :: u16
  TIM_CNT :: u16
  TIM_PSC :: u16
  TIM_ARR :: u16
  TIM_RCR :: u16
  TIM_CCR1 :: u16
  TIM_CCR2 :: u16
  TIM_CCR3 :: u16
  TIM_CCR4 :: u16
  TIM_BDTR :: u16
  TIM_DCR :: u16
  TIM_DMAR :: u16

datatype gpio_access = BSRR_store u32 | BRR_store u32 | LCKR_store u32 | LCKR_load

record GPIO_TypeDef =
  GPIO_CRL :: u32
  GPIO_CRH :: u32
  GPIO_IDR :: u32
  GPIO_ODR :: u32
  GPIO_accesses :: "gpio_access list"

record AFIO_TypeDef =
  AFIO_EVCR :: u32
  AFIO_MAPR :: u32
  AFIO_EXTICR :: "u32 list"
  AFIO_MAPR2 :: u32

record USART_TypeDef =
  USART_SR :: u16
  USART_DR :: u16
  USART_DR_stores :: "u16 list"
  USART_BRR :: u16
  USART_CR1 :: u16
  USART_CR2 :: u16
  USART_CR3 :: u16
  USART_GTPR :: u16

datatype rcc_reset_store = APB1RSTR_store u32 | APB2RSTR_store u32

record RCC_TypeDef =
  RCC_CR :: u32
  RCC_CFGR :: u32
  RCC_CIR :: u32
  RCC_APB2RSTR :: u32
  RCC_APB1RSTR :: u32
  RCC_reset_stores :: "rcc_reset_store list"
  RCC_AHBENR :: u32
  RCC_APB2ENR :: u32
  RCC_APB1ENR :: u32
  RCC_BDCR :: u32
  RCC_CSR :: u32

text \<open>Of the flash interface, the system control block and the interrupt controller, the
  registers that the firmware uses.\<close>

record FLASH_TypeDef =
  FLASH_ACR :: u32

datatype nvic_store = ISER_store nat u32 | ICER_store nat u32

record NVIC_Type =
  NVIC_IP :: "u8 list"
  NVIC_stores :: "nvic_store list"

record SCB_Type =
  SCB_VTOR :: u32
  SCB_AIRCR :: u32
  SCB_SCR :: u32

record SysTick_Type =
  SysTick_CTRL :: u32
  SysTick_LOAD :: u32
  SysTick_VAL :: u32
  SysTick_CALIB :: u32

section \<open>The microcontroller\<close>

record mcu =
  TIM :: "TIM_ptr \<Rightarrow> TIM_TypeDef"
  GPIO :: "GPIO_ptr \<Rightarrow> GPIO_TypeDef"
  USART :: "USART_ptr \<Rightarrow> USART_TypeDef"
  AFIO :: AFIO_TypeDef
  RCC :: RCC_TypeDef
  FLASH :: FLASH_TypeDef
  NVIC :: NVIC_Type
  SCB :: SCB_Type
  SysTick :: SysTick_Type

text \<open>
  Access through a base pointer. The driver functions are stated on any extension of \<open>mcu\<close>,
  so that they apply to the firmware's state, which adds the C globals.
\<close>

definition upd_TIM :: "TIM_ptr \<Rightarrow> (TIM_TypeDef \<Rightarrow> TIM_TypeDef) \<Rightarrow> 'a mcu_scheme \<Rightarrow> 'a mcu_scheme" where
  "upd_TIM p f m = m\<lparr>TIM := (TIM m)(p := f (TIM m p))\<rparr>"

definition upd_GPIO :: "GPIO_ptr \<Rightarrow> (GPIO_TypeDef \<Rightarrow> GPIO_TypeDef) \<Rightarrow> 'a mcu_scheme \<Rightarrow> 'a mcu_scheme" where
  "upd_GPIO p f m = m\<lparr>GPIO := (GPIO m)(p := f (GPIO m p))\<rparr>"

definition upd_USART :: "USART_ptr \<Rightarrow> (USART_TypeDef \<Rightarrow> USART_TypeDef) \<Rightarrow> 'a mcu_scheme \<Rightarrow> 'a mcu_scheme" where
  "upd_USART p f m = m\<lparr>USART := (USART m)(p := f (USART m p))\<rparr>"

definition upd_RCC :: "(RCC_TypeDef \<Rightarrow> RCC_TypeDef) \<Rightarrow> 'a mcu_scheme \<Rightarrow> 'a mcu_scheme" where
  "upd_RCC f m = m\<lparr>RCC := f (RCC m)\<rparr>"

definition upd_AFIO :: "(AFIO_TypeDef \<Rightarrow> AFIO_TypeDef) \<Rightarrow> 'a mcu_scheme \<Rightarrow> 'a mcu_scheme" where
  "upd_AFIO f m = m\<lparr>AFIO := f (AFIO m)\<rparr>"

definition upd_FLASH :: "(FLASH_TypeDef \<Rightarrow> FLASH_TypeDef) \<Rightarrow> 'a mcu_scheme \<Rightarrow> 'a mcu_scheme" where
  "upd_FLASH f m = m\<lparr>FLASH := f (FLASH m)\<rparr>"

definition upd_SCB :: "(SCB_Type \<Rightarrow> SCB_Type) \<Rightarrow> 'a mcu_scheme \<Rightarrow> 'a mcu_scheme" where
  "upd_SCB f m = m\<lparr>SCB := f (SCB m)\<rparr>"

definition upd_NVIC :: "(NVIC_Type \<Rightarrow> NVIC_Type) \<Rightarrow> 'a mcu_scheme \<Rightarrow> 'a mcu_scheme" where
  "upd_NVIC f m = m\<lparr>NVIC := f (NVIC m)\<rparr>"

definition upd_SysTick :: "(SysTick_Type \<Rightarrow> SysTick_Type) \<Rightarrow> 'a mcu_scheme \<Rightarrow> 'a mcu_scheme" where
  "upd_SysTick f m = m\<lparr>SysTick := f (SysTick m)\<rparr>"

lemmas upd_defs = upd_TIM_def upd_GPIO_def upd_USART_def upd_RCC_def upd_AFIO_def
  upd_FLASH_def upd_SCB_def upd_NVIC_def upd_SysTick_def

text \<open>Reading after an access through a pointer, block by block.\<close>

lemma upd_TIM_sel [simp, reg_simps]:
  "TIM (upd_TIM p f m) q = (if q = p then f (TIM m p) else TIM m q)"
  "GPIO (upd_TIM p f m) = GPIO m" "USART (upd_TIM p f m) = USART m"
  "AFIO (upd_TIM p f m) = AFIO m" "RCC (upd_TIM p f m) = RCC m"
  "FLASH (upd_TIM p f m) = FLASH m" "NVIC (upd_TIM p f m) = NVIC m"
  "SCB (upd_TIM p f m) = SCB m" "SysTick (upd_TIM p f m) = SysTick m"
  "mcu.more (upd_TIM p f m) = mcu.more m"
  by (simp_all add: upd_TIM_def)

lemma upd_GPIO_sel [simp, reg_simps]:
  "GPIO (upd_GPIO p f m) q = (if q = p then f (GPIO m p) else GPIO m q)"
  "TIM (upd_GPIO p f m) = TIM m" "USART (upd_GPIO p f m) = USART m"
  "AFIO (upd_GPIO p f m) = AFIO m" "RCC (upd_GPIO p f m) = RCC m"
  "FLASH (upd_GPIO p f m) = FLASH m" "NVIC (upd_GPIO p f m) = NVIC m"
  "SCB (upd_GPIO p f m) = SCB m" "SysTick (upd_GPIO p f m) = SysTick m"
  "mcu.more (upd_GPIO p f m) = mcu.more m"
  by (simp_all add: upd_GPIO_def)

lemma upd_USART_sel [simp, reg_simps]:
  "USART (upd_USART p f m) q = (if q = p then f (USART m p) else USART m q)"
  "TIM (upd_USART p f m) = TIM m" "GPIO (upd_USART p f m) = GPIO m"
  "AFIO (upd_USART p f m) = AFIO m" "RCC (upd_USART p f m) = RCC m"
  "FLASH (upd_USART p f m) = FLASH m" "NVIC (upd_USART p f m) = NVIC m"
  "SCB (upd_USART p f m) = SCB m" "SysTick (upd_USART p f m) = SysTick m"
  "mcu.more (upd_USART p f m) = mcu.more m"
  by (simp_all add: upd_USART_def)

lemma upd_RCC_sel [simp, reg_simps]:
  "RCC (upd_RCC f m) = f (RCC m)"
  "TIM (upd_RCC f m) = TIM m" "GPIO (upd_RCC f m) = GPIO m" "USART (upd_RCC f m) = USART m"
  "AFIO (upd_RCC f m) = AFIO m" "FLASH (upd_RCC f m) = FLASH m" "NVIC (upd_RCC f m) = NVIC m"
  "SCB (upd_RCC f m) = SCB m" "SysTick (upd_RCC f m) = SysTick m"
  "mcu.more (upd_RCC f m) = mcu.more m"
  by (simp_all add: upd_RCC_def)

lemma upd_AFIO_sel [simp, reg_simps]:
  "AFIO (upd_AFIO f m) = f (AFIO m)"
  "TIM (upd_AFIO f m) = TIM m" "GPIO (upd_AFIO f m) = GPIO m" "USART (upd_AFIO f m) = USART m"
  "RCC (upd_AFIO f m) = RCC m" "FLASH (upd_AFIO f m) = FLASH m" "NVIC (upd_AFIO f m) = NVIC m"
  "SCB (upd_AFIO f m) = SCB m" "SysTick (upd_AFIO f m) = SysTick m"
  "mcu.more (upd_AFIO f m) = mcu.more m"
  by (simp_all add: upd_AFIO_def)

lemma upd_FLASH_sel [simp, reg_simps]:
  "FLASH (upd_FLASH f m) = f (FLASH m)"
  "TIM (upd_FLASH f m) = TIM m" "GPIO (upd_FLASH f m) = GPIO m" "USART (upd_FLASH f m) = USART m"
  "AFIO (upd_FLASH f m) = AFIO m" "RCC (upd_FLASH f m) = RCC m" "NVIC (upd_FLASH f m) = NVIC m"
  "SCB (upd_FLASH f m) = SCB m" "SysTick (upd_FLASH f m) = SysTick m"
  "mcu.more (upd_FLASH f m) = mcu.more m"
  by (simp_all add: upd_FLASH_def)

lemma upd_SCB_sel [simp, reg_simps]:
  "SCB (upd_SCB f m) = f (SCB m)"
  "TIM (upd_SCB f m) = TIM m" "GPIO (upd_SCB f m) = GPIO m" "USART (upd_SCB f m) = USART m"
  "AFIO (upd_SCB f m) = AFIO m" "RCC (upd_SCB f m) = RCC m" "NVIC (upd_SCB f m) = NVIC m"
  "FLASH (upd_SCB f m) = FLASH m" "SysTick (upd_SCB f m) = SysTick m"
  "mcu.more (upd_SCB f m) = mcu.more m"
  by (simp_all add: upd_SCB_def)

lemma upd_NVIC_sel [simp, reg_simps]:
  "NVIC (upd_NVIC f m) = f (NVIC m)"
  "TIM (upd_NVIC f m) = TIM m" "GPIO (upd_NVIC f m) = GPIO m" "USART (upd_NVIC f m) = USART m"
  "AFIO (upd_NVIC f m) = AFIO m" "RCC (upd_NVIC f m) = RCC m" "SCB (upd_NVIC f m) = SCB m"
  "FLASH (upd_NVIC f m) = FLASH m" "SysTick (upd_NVIC f m) = SysTick m"
  "mcu.more (upd_NVIC f m) = mcu.more m"
  by (simp_all add: upd_NVIC_def)

lemma upd_SysTick_sel [simp, reg_simps]:
  "SysTick (upd_SysTick f m) = f (SysTick m)"
  "TIM (upd_SysTick f m) = TIM m" "GPIO (upd_SysTick f m) = GPIO m"
  "USART (upd_SysTick f m) = USART m" "AFIO (upd_SysTick f m) = AFIO m"
  "RCC (upd_SysTick f m) = RCC m" "SCB (upd_SysTick f m) = SCB m"
  "FLASH (upd_SysTick f m) = FLASH m" "NVIC (upd_SysTick f m) = NVIC m"
  "mcu.more (upd_SysTick f m) = mcu.more m"
  by (simp_all add: upd_SysTick_def)

section \<open>Stores that are not plain memory stores\<close>

text \<open>
  A store to the bit-band alias word of bit \<open>n\<close> of a register: the bus replaces that bit by
  bit 0 of the value stored (the \<open>*(__IO uint32_t *) CR_HSION_BB = v\<close> of the drivers and the
  \<open>PBout(n)\<close> of \<open>SYSTEM/sys/sys.h\<close>).
\<close>

definition bitband_store :: "nat \<Rightarrow> u32 \<Rightarrow> u32 \<Rightarrow> u32" where
  "bitband_store n v r = (if bit v 0 then set_bit n r else unset_bit n r)"

text \<open>A byte store to byte lane \<open>n\<close> of a 32-bit register.\<close>

definition byte_load :: "nat \<Rightarrow> u32 \<Rightarrow> u8" where
  "byte_load n r = ucast (drop_bit (8 * n) r)"

definition byte_store :: "nat \<Rightarrow> u8 \<Rightarrow> u32 \<Rightarrow> u32" where
  "byte_store n v r = (r AND NOT (push_bit (8 * n) 0xFF)) OR push_bit (8 * n) (ucast v)"

section \<open>Reset\<close>

text \<open>
  The registers after a reset, as the device's reference manual gives them: the state in which
  \<open>SystemInit\<close> finds the microcontroller, and a concrete state for examples.
\<close>

definition reset_TIM :: TIM_TypeDef where
  "reset_TIM = \<lparr>TIM_CR1 = 0, TIM_CR2 = 0, TIM_SMCR = 0, TIM_DIER = 0, TIM_SR = 0, TIM_EGR_stores = [],
     TIM_CCMR1 = 0, TIM_CCMR2 = 0, TIM_CCER = 0, TIM_CNT = 0, TIM_PSC = 0, TIM_ARR = 0xFFFF, TIM_RCR = 0,
     TIM_CCR1 = 0, TIM_CCR2 = 0, TIM_CCR3 = 0, TIM_CCR4 = 0, TIM_BDTR = 0, TIM_DCR = 0, TIM_DMAR = 0\<rparr>"

definition reset_GPIO :: GPIO_TypeDef where
  "reset_GPIO = \<lparr>GPIO_CRL = 0x44444444, GPIO_CRH = 0x44444444, GPIO_IDR = 0, GPIO_ODR = 0,
     GPIO_accesses = []\<rparr>"

definition reset_USART :: USART_TypeDef where
  "reset_USART = \<lparr>USART_SR = 0xC0, USART_DR = 0, USART_DR_stores = [], USART_BRR = 0, USART_CR1 = 0,
     USART_CR2 = 0, USART_CR3 = 0, USART_GTPR = 0\<rparr>"

definition reset_RCC :: RCC_TypeDef where
  "reset_RCC = \<lparr>RCC_CR = 0x83, RCC_CFGR = 0, RCC_CIR = 0, RCC_APB2RSTR = 0, RCC_APB1RSTR = 0,
     RCC_reset_stores = [], RCC_AHBENR = 0x14, RCC_APB2ENR = 0, RCC_APB1ENR = 0, RCC_BDCR = 0,
     RCC_CSR = 0x0C000000\<rparr>"

definition reset_mcu :: mcu where
  "reset_mcu = \<lparr>TIM = \<lambda>_. reset_TIM, GPIO = \<lambda>_. reset_GPIO, USART = \<lambda>_. reset_USART,
     AFIO = \<lparr>AFIO_EVCR = 0, AFIO_MAPR = 0, AFIO_EXTICR = replicate 4 0, AFIO_MAPR2 = 0\<rparr>,
     RCC = reset_RCC, FLASH = \<lparr>FLASH_ACR = 0x30\<rparr>,
     NVIC = \<lparr>NVIC_IP = replicate 240 0, NVIC_stores = []\<rparr>,
     SCB = \<lparr>SCB_VTOR = 0, SCB_AIRCR = 0xFA050000, SCB_SCR = 0\<rparr>,
     SysTick = \<lparr>SysTick_CTRL = 0, SysTick_LOAD = 0, SysTick_VAL = 0, SysTick_CALIB = 0\<rparr>\<rparr>"

lemma reset_mcu_sel [simp]:
  "TIM reset_mcu p = reset_TIM" "GPIO reset_mcu q = reset_GPIO" "USART reset_mcu u = reset_USART"
  "RCC reset_mcu = reset_RCC" "NVIC_IP (NVIC reset_mcu) = replicate 240 0"
  "NVIC_stores (NVIC reset_mcu) = []" "SCB_AIRCR (SCB reset_mcu) = 0xFA050000"
  "AFIO_MAPR (AFIO reset_mcu) = 0" "AFIO_EXTICR (AFIO reset_mcu) = replicate 4 0"
  by (simp_all add: reset_mcu_def)

lemmas reset_defs = reset_mcu_def reset_TIM_def reset_GPIO_def reset_USART_def reset_RCC_def

end
