(* ===== verification/Interfaces.thy ===== *)
theory Interfaces
  imports Stm32f10x
begin

text \<open>
  The contracts that the driver operations share: a configuration field of a register
  (\<open>reg_field\<close>), two fields that do not interfere (\<open>field_pair\<close>), an on/off switch
  (\<open>enable_switch\<close>). The clients' lemmas are proved here once; the driver theories interpret
  the locales on their own operations.
\<close>

section \<open>A configuration field\<close>

text \<open>
  \<open>get\<close> reads the field, \<open>put\<close> replaces it, \<open>legal\<close> says which values fit, \<open>rest\<close> is
  everything of the state that is not the field.
\<close>

locale reg_field =
  fixes get :: "'s \<Rightarrow> 'v"
    and put :: "'v \<Rightarrow> 's \<Rightarrow> 's"
    and legal :: "'v \<Rightarrow> bool"
    and rest :: "'s \<Rightarrow> 'r"
  assumes get_put: "legal v \<Longrightarrow> get (put v s) = v"
    and rest_put: "legal v \<Longrightarrow> rest (put v s) = rest s"
    and determined: "get s = get t \<Longrightarrow> rest s = rest t \<Longrightarrow> s = t"
begin

lemma put_put:
  assumes "legal v" and "legal w"
  shows "put v (put w s) = put v s"
  by (rule determined) (simp_all add: get_put rest_put assms)

lemma put_idle:
  assumes "legal v" and "get s = v"
  shows "put v s = s"
  by (rule determined) (simp_all add: get_put rest_put assms)

lemma put_inject:
  assumes "legal v" and "legal w" and "put v s = put w s"
  shows "v = w"
  using assms by (metis get_put)

text \<open>Of a sequence of configurations only the last one counts.\<close>

lemma put_last:
  assumes "\<forall>v \<in> set vs. legal v" and "legal v"
  shows "fold put (vs @ [v]) s = put v s"
  using assms(1)
proof (induction vs arbitrary: s)
  case Nil
  then show ?case by simp
next
  case (Cons w vs)
  then have "fold put ((w # vs) @ [v]) s = put v (put w s)" by simp
  then show ?case using Cons.prems assms(2) by (simp add: put_put)
qed

end

section \<open>Two fields that do not interfere\<close>

locale field_pair =
  f: reg_field getf putf legalf restf + g: reg_field getg putg legalg restg
  for getf :: "'s \<Rightarrow> 'v" and putf legalf and restf :: "'s \<Rightarrow> 'r"
    and getg :: "'s \<Rightarrow> 'w" and putg legalg and restg :: "'s \<Rightarrow> 'q" +
  assumes commute: "legalf v \<Longrightarrow> legalg w \<Longrightarrow> putf v (putg w s) = putg w (putf v s)"
begin

lemma getf_putg:
  assumes "legalf (getf s)" and "legalg w"
  shows "getf (putg w s) = getf s"
proof -
  have "putf (getf s) (putg w s) = putg w (putf (getf s) s)"
    by (simp add: commute assms)
  also have "\<dots> = putg w s" by (simp add: f.put_idle assms)
  finally show ?thesis by (metis assms(1) f.get_put)
qed

lemma getg_putf:
  assumes "legalg (getg s)" and "legalf v"
  shows "getg (putf v s) = getg s"
proof -
  have "putg (getg s) (putf v s) = putf v (putg (getg s) s)"
    by (simp add: commute assms)
  also have "\<dots> = putf v s" by (simp add: g.put_idle assms)
  finally show ?thesis by (metis assms(1) g.get_put)
qed

text \<open>Both settings are read back, in whichever order they were made.\<close>

lemma both_set:
  assumes "legalf v" and "legalg w"
  shows "getf (putf v (putg w s)) = v" "getg (putf v (putg w s)) = w"
    "getf (putg w (putf v s)) = v" "getg (putg w (putf v s)) = w"
  using assms by (simp_all add: f.get_put g.get_put commute, simp_all add: commute [symmetric] f.get_put g.get_put)

end

section \<open>An on/off switch\<close>

locale enable_switch =
  fixes cmd :: "FunctionalState \<Rightarrow> 's \<Rightarrow> 's"
    and is_on :: "'s \<Rightarrow> bool"
    and others :: "'s \<Rightarrow> 'o"
  assumes on: "is_on (cmd ENABLE s)"
    and off: "\<not> is_on (cmd DISABLE s)"
    and others_cmd: "others (cmd st s) = others s"
    and determined: "is_on s = is_on t \<Longrightarrow> others s = others t \<Longrightarrow> s = t"
begin

lemma is_on_cmd: "is_on (cmd st s) \<longleftrightarrow> st = ENABLE"
  by (cases st) (simp_all add: on off)

lemma cmd_cmd: "cmd a (cmd b s) = cmd a s"
  by (rule determined) (simp_all add: is_on_cmd others_cmd)

lemma enable_idle: "is_on s \<Longrightarrow> cmd ENABLE s = s"
  by (rule determined) (simp_all add: is_on_cmd others_cmd)

lemma disable_idle: "\<not> is_on s \<Longrightarrow> cmd DISABLE s = s"
  by (rule determined) (simp_all add: is_on_cmd others_cmd)

text \<open>A whole history of commands leaves what its last command asks for.\<close>

lemma cmds_last: "cs \<noteq> [] \<Longrightarrow> fold cmd cs s = cmd (last cs) s"
proof (induction cs arbitrary: s)
  case Nil
  then show ?case by simp
next
  case (Cons c cs)
  then show ?case by (cases "cs = []") (simp_all add: cmd_cmd)
qed

end

section \<open>A register of the state\<close>

text \<open>
  Where one register lives in the state: read it, store it. Every configuration field and
  every switch of that register comes from this contract, for any mask.
\<close>

locale register =
  fixes rd :: "'s \<Rightarrow> 'a::len word"
    and wr :: "'a word \<Rightarrow> 's \<Rightarrow> 's"
  assumes rd_wr: "rd (wr v s) = v"
    and wr_wr: "wr v (wr w s) = wr v s"
    and wr_rd: "wr (rd s) s = s"
begin

lemma wr_eqI:
  assumes "rd s = rd t" and "wr v s = wr v t"
  shows "s = t"
proof -
  have "s = wr (rd s) (wr v s)" by (simp add: wr_wr wr_rd)
  also have "\<dots> = wr (rd t) (wr v t)" by (simp add: assms)
  also have "\<dots> = t" by (simp add: wr_wr wr_rd)
  finally show ?thesis .
qed

lemma fieldI:
  assumes put: "\<And>v s. put v s = wr (field_put M (enc v) (rd s)) s"
    and legal: "\<And>v. legal v \<Longrightarrow> enc v AND NOT M = 0"
    and dec: "\<And>v. legal v \<Longrightarrow> dec (enc v) = v"
    and inj: "\<And>a b. dec (a AND M) = dec (b AND M) \<Longrightarrow> a AND M = b AND M"
  shows "reg_field (\<lambda>s. dec (rd s AND M)) put legal (\<lambda>s. wr (rd s AND NOT M) s)"
proof
  fix v s assume "legal v"
  then show "dec (rd (put v s) AND M) = v"
    by (simp add: put rd_wr field_put_get legal dec)
next
  fix v s assume "legal v"
  then show "wr (rd (put v s) AND NOT M) (put v s) = wr (rd s AND NOT M) s"
    by (simp add: put rd_wr wr_wr field_put_outside legal)
next
  fix s t
  assume g: "dec (rd s AND M) = dec (rd t AND M)"
    and r: "wr (rd s AND NOT M) s = wr (rd t AND NOT M) t"
  from r have out: "rd s AND NOT M = rd t AND NOT M" by (metis rd_wr)
  from inj [OF g] out have "rd s = rd t"
    by (metis split_mask)
  with r out show "s = t" by (auto intro: wr_eqI)
qed

lemma pairI:
  assumes f: "\<And>v s. putf v s = wr (field_put M (encf v) (rd s)) s"
    and g: "\<And>v s. putg v s = wr (field_put K (encg v) (rd s)) s"
    and lf: "\<And>v. legalf v \<Longrightarrow> encf v AND NOT M = 0"
    and lg: "\<And>v. legalg v \<Longrightarrow> encg v AND NOT K = 0"
    and MK: "M AND K = 0"
    and ff: "reg_field getf putf legalf restf" and gg: "reg_field getg putg legalg restg"
  shows "field_pair getf putf legalf restf getg putg legalg restg"
  using ff gg
proof (intro field_pair.intro field_pair_axioms.intro)
  fix v w s
  assume "legalf v" and "legalg w"
  with lf lg MK show "putf v (putg w s) = putg w (putf v s)"
    by (simp add: f g rd_wr wr_wr field_put_commute)
qed

lemma switchI:
  assumes cmd: "\<And>st s. cmd st s = wr (upd st (rd s)) s"
    and on: "\<And>r. bit (upd ENABLE r) n" and off: "\<And>r. \<not> bit (upd DISABLE r) n"
    and other: "\<And>st r k. k \<noteq> n \<Longrightarrow> bit (upd st r) k = bit r k"
  shows "enable_switch cmd (\<lambda>s. bit (rd s) n) (\<lambda>s. wr (unset_bit n (rd s)) s)"
proof
  fix s st
  show "bit (rd (cmd ENABLE s)) n" "\<not> bit (rd (cmd DISABLE s)) n"
    by (simp_all add: cmd rd_wr on off)
  have "unset_bit n (upd st (rd s)) = unset_bit n (rd s)"
    by (rule bit_word_eqI) (auto simp: bit_unset_bit_iff other)
  then show "wr (unset_bit n (rd (cmd st s))) (cmd st s) = wr (unset_bit n (rd s)) s"
    by (simp add: cmd rd_wr wr_wr)
next
  fix s t
  assume b: "bit (rd s) n = bit (rd t) n"
    and r: "wr (unset_bit n (rd s)) s = wr (unset_bit n (rd t)) t"
  from r have u: "unset_bit n (rd s) = unset_bit n (rd t)" by (metis rd_wr)
  have "rd s = rd t"
  proof (rule bit_word_eqI)
    fix k
    have "bit (unset_bit n (rd s)) k = bit (unset_bit n (rd t)) k" by (simp add: u)
    with b show "bit (rd s) k = bit (rd t) k"
      by (cases "k = n") (auto simp: bit_unset_bit_iff)
  qed
  with r u show "s = t" by (auto intro: wr_eqI)
qed

end

section \<open>A system that implements an abstract machine\<close>

text \<open>The runs of a step relation, with the events that happened.\<close>

inductive steps :: "('s \<Rightarrow> 'e \<Rightarrow> 's \<Rightarrow> bool) \<Rightarrow> 's \<Rightarrow> 'e list \<Rightarrow> 's \<Rightarrow> bool" for step where
  start: "steps step s [] s"
| more: "steps step s es t \<Longrightarrow> step t e u \<Longrightarrow> steps step s (es @ [e]) u"

text \<open>
  \<open>step\<close> is enabled for every event and implements \<open>astep\<close> on the abstraction, as long as the
  invariant holds, which it keeps.
\<close>

locale simulation =
  fixes step :: "'s \<Rightarrow> 'e \<Rightarrow> 's \<Rightarrow> bool"
    and astep :: "'e \<Rightarrow> 'a \<Rightarrow> 'a"
    and abs :: "'s \<Rightarrow> 'a"
    and inv :: "'s \<Rightarrow> bool"
  assumes enabled: "inv s \<Longrightarrow> \<exists>t. step s e t"
    and keeps: "inv s \<Longrightarrow> step s e t \<Longrightarrow> inv t"
    and simulates: "inv s \<Longrightarrow> step s e t \<Longrightarrow> abs t = astep e (abs s)"
begin

lemma run_inv: "steps step s es t \<Longrightarrow> inv s \<Longrightarrow> inv t"
  by (induction rule: steps.induct) (auto intro: keeps)

lemma run_abs: "steps step s es t \<Longrightarrow> inv s \<Longrightarrow> abs t = fold astep es (abs s)"
proof (induction rule: steps.induct)
  case (start s)
  then show ?case by simp
next
  case (more s es t e u)
  then show ?case using simulates [OF run_inv [OF more.hyps(1)]] by simp
qed

text \<open>No sequence of events gets stuck.\<close>

lemma run_exists: "inv s \<Longrightarrow> \<exists>t. steps step s es t"
proof (induction es rule: rev_induct)
  case Nil
  then show ?case by (blast intro: steps.start)
next
  case (snoc e es)
  then obtain t where t: "steps step s es t" by blast
  then obtain u where "step t e u" using enabled run_inv snoc.prems by blast
  with t show ?case by (blast intro: steps.more)
qed

end

end
