(* ===== verification/Stm32_Constants.thy ===== *)
theory Stm32_Constants
  imports Stm32f10x
begin

text \<open>
  The object-like macros and enumerators that the modelled functions use, at the width of their
  casts, from \<open>USER/stm32f10x.h\<close>, \<open>CORE/core_cm3.h\<close>, the driver headers under
  \<open>STM32F10x_FWLib/inc\<close> and the private macros of the driver sources. Macros that the
  sources write without a cast have the width of the register they are combined with.
\<close>


subsection \<open>enumerations\<close>

abbreviation (input) GPIO_Mode_AF_PP :: u32 where "GPIO_Mode_AF_PP \<equiv> 0x00000018"
abbreviation (input) USART1_IRQn :: u8 where "USART1_IRQn \<equiv> 37"
abbreviation (input) GPIO_Mode_AIN :: u32 where "GPIO_Mode_AIN \<equiv> 0x00000000"
abbreviation (input) GPIO_Mode_Out_OD :: u32 where "GPIO_Mode_Out_OD \<equiv> 0x00000014"
abbreviation (input) GPIO_Speed_2MHz :: u32 where "GPIO_Speed_2MHz \<equiv> 0x00000002"
abbreviation (input) GPIO_Speed_50MHz :: u32 where "GPIO_Speed_50MHz \<equiv> 0x00000003"
abbreviation (input) GPIO_Mode_IPU :: u32 where "GPIO_Mode_IPU \<equiv> 0x00000048"
abbreviation (input) GPIO_Mode_IN_FLOATING :: u32 where "GPIO_Mode_IN_FLOATING \<equiv> 0x00000004"
abbreviation (input) GPIO_Mode_IPD :: u32 where "GPIO_Mode_IPD \<equiv> 0x00000028"
abbreviation (input) GPIO_Mode_AF_OD :: u32 where "GPIO_Mode_AF_OD \<equiv> 0x0000001C"
abbreviation (input) GPIO_Mode_Out_PP :: u32 where "GPIO_Mode_Out_PP \<equiv> 0x00000010"
abbreviation (input) TIM3_IRQn :: u8 where "TIM3_IRQn \<equiv> 29"

subsection \<open>stm32f10x.h\<close>

abbreviation (input) HSE_VALUE :: u32 where "HSE_VALUE \<equiv> 8000000"
abbreviation (input) HSE_STARTUP_TIMEOUT :: u16 where "HSE_STARTUP_TIMEOUT \<equiv> 0x0500"
abbreviation (input) HSI_VALUE :: u32 where "HSI_VALUE \<equiv> 8000000"
abbreviation (input) FLASH_BASE :: u32 where "FLASH_BASE \<equiv> 0x08000000"
abbreviation (input) GPIOA_BASE :: u32 where "GPIOA_BASE \<equiv> 0x40010800"
abbreviation (input) GPIOB_BASE :: u32 where "GPIOB_BASE \<equiv> 0x40010C00"
abbreviation (input) GPIOC_BASE :: u32 where "GPIOC_BASE \<equiv> 0x40011000"
abbreviation (input) GPIOD_BASE :: u32 where "GPIOD_BASE \<equiv> 0x40011400"
abbreviation (input) GPIOE_BASE :: u32 where "GPIOE_BASE \<equiv> 0x40011800"
abbreviation (input) GPIOF_BASE :: u32 where "GPIOF_BASE \<equiv> 0x40011C00"
abbreviation (input) GPIOG_BASE :: u32 where "GPIOG_BASE \<equiv> 0x40012000"
abbreviation (input) RCC_CR_HSEON :: u32 where "RCC_CR_HSEON \<equiv> 0x00010000"
abbreviation (input) RCC_CR_HSERDY :: u32 where "RCC_CR_HSERDY \<equiv> 0x00020000"
abbreviation (input) RCC_CR_PLLON :: u32 where "RCC_CR_PLLON \<equiv> 0x01000000"
abbreviation (input) RCC_CR_PLLRDY :: u32 where "RCC_CR_PLLRDY \<equiv> 0x02000000"
abbreviation (input) RCC_CFGR_SW :: u32 where "RCC_CFGR_SW \<equiv> 0x00000003"
abbreviation (input) RCC_CFGR_SW_PLL :: u32 where "RCC_CFGR_SW_PLL \<equiv> 0x00000002"
abbreviation (input) RCC_CFGR_SWS :: u32 where "RCC_CFGR_SWS \<equiv> 0x0000000C"
abbreviation (input) RCC_CFGR_HPRE :: u32 where "RCC_CFGR_HPRE \<equiv> 0x000000F0"
abbreviation (input) RCC_CFGR_HPRE_DIV1 :: u32 where "RCC_CFGR_HPRE_DIV1 \<equiv> 0x00000000"
abbreviation (input) RCC_CFGR_PPRE1_DIV2 :: u32 where "RCC_CFGR_PPRE1_DIV2 \<equiv> 0x00000400"
abbreviation (input) RCC_CFGR_PPRE2_DIV1 :: u32 where "RCC_CFGR_PPRE2_DIV1 \<equiv> 0x00000000"
abbreviation (input) RCC_CFGR_PLLSRC :: u32 where "RCC_CFGR_PLLSRC \<equiv> 0x00010000"
abbreviation (input) RCC_CFGR_PLLXTPRE :: u32 where "RCC_CFGR_PLLXTPRE \<equiv> 0x00020000"
abbreviation (input) RCC_CFGR_PLLMULL :: u32 where "RCC_CFGR_PLLMULL \<equiv> 0x003C0000"
abbreviation (input) RCC_CFGR_PLLSRC_HSE :: u32 where "RCC_CFGR_PLLSRC_HSE \<equiv> 0x00010000"
abbreviation (input) RCC_CFGR_PLLMULL9 :: u32 where "RCC_CFGR_PLLMULL9 \<equiv> 0x001C0000"
abbreviation (input) TIM_CR1_CEN :: u16 where "TIM_CR1_CEN \<equiv> 0x0001"
abbreviation (input) TIM_CR1_UDIS :: u16 where "TIM_CR1_UDIS \<equiv> 0x0002"
abbreviation (input) TIM_CR1_URS :: u16 where "TIM_CR1_URS \<equiv> 0x0004"
abbreviation (input) TIM_CR1_OPM :: u16 where "TIM_CR1_OPM \<equiv> 0x0008"
abbreviation (input) TIM_CR1_DIR :: u16 where "TIM_CR1_DIR \<equiv> 0x0010"
abbreviation (input) TIM_CR1_CMS :: u16 where "TIM_CR1_CMS \<equiv> 0x0060"
abbreviation (input) TIM_CR1_ARPE :: u16 where "TIM_CR1_ARPE \<equiv> 0x0080"
abbreviation (input) TIM_CR1_CKD :: u16 where "TIM_CR1_CKD \<equiv> 0x0300"
abbreviation (input) TIM_CR2_CCPC :: u16 where "TIM_CR2_CCPC \<equiv> 0x0001"
abbreviation (input) TIM_CR2_CCUS :: u16 where "TIM_CR2_CCUS \<equiv> 0x0004"
abbreviation (input) TIM_CR2_CCDS :: u16 where "TIM_CR2_CCDS \<equiv> 0x0008"
abbreviation (input) TIM_CR2_MMS :: u16 where "TIM_CR2_MMS \<equiv> 0x0070"
abbreviation (input) TIM_CR2_TI1S :: u16 where "TIM_CR2_TI1S \<equiv> 0x0080"
abbreviation (input) TIM_CR2_OIS1 :: u16 where "TIM_CR2_OIS1 \<equiv> 0x0100"
abbreviation (input) TIM_CR2_OIS1N :: u16 where "TIM_CR2_OIS1N \<equiv> 0x0200"
abbreviation (input) TIM_CR2_OIS2 :: u16 where "TIM_CR2_OIS2 \<equiv> 0x0400"
abbreviation (input) TIM_CR2_OIS2N :: u16 where "TIM_CR2_OIS2N \<equiv> 0x0800"
abbreviation (input) TIM_CR2_OIS3 :: u16 where "TIM_CR2_OIS3 \<equiv> 0x1000"
abbreviation (input) TIM_CR2_OIS3N :: u16 where "TIM_CR2_OIS3N \<equiv> 0x2000"
abbreviation (input) TIM_CR2_OIS4 :: u16 where "TIM_CR2_OIS4 \<equiv> 0x4000"
abbreviation (input) TIM_SMCR_SMS :: u16 where "TIM_SMCR_SMS \<equiv> 0x0007"
abbreviation (input) TIM_SMCR_TS :: u16 where "TIM_SMCR_TS \<equiv> 0x0070"
abbreviation (input) TIM_SMCR_MSM :: u16 where "TIM_SMCR_MSM \<equiv> 0x0080"
abbreviation (input) TIM_SMCR_ECE :: u16 where "TIM_SMCR_ECE \<equiv> 0x4000"
abbreviation (input) TIM_CCMR1_CC1S :: u16 where "TIM_CCMR1_CC1S \<equiv> 0x0003"
abbreviation (input) TIM_CCMR1_CC1S_0 :: u16 where "TIM_CCMR1_CC1S_0 \<equiv> 0x0001"
abbreviation (input) TIM_CCMR1_OC1FE :: u16 where "TIM_CCMR1_OC1FE \<equiv> 0x0004"
abbreviation (input) TIM_CCMR1_OC1PE :: u16 where "TIM_CCMR1_OC1PE \<equiv> 0x0008"
abbreviation (input) TIM_CCMR1_OC1M :: u16 where "TIM_CCMR1_OC1M \<equiv> 0x0070"
abbreviation (input) TIM_CCMR1_OC1CE :: u16 where "TIM_CCMR1_OC1CE \<equiv> 0x0080"
abbreviation (input) TIM_CCMR1_CC2S :: u16 where "TIM_CCMR1_CC2S \<equiv> 0x0300"
abbreviation (input) TIM_CCMR1_CC2S_0 :: u16 where "TIM_CCMR1_CC2S_0 \<equiv> 0x0100"
abbreviation (input) TIM_CCMR1_OC2FE :: u16 where "TIM_CCMR1_OC2FE \<equiv> 0x0400"
abbreviation (input) TIM_CCMR1_OC2PE :: u16 where "TIM_CCMR1_OC2PE \<equiv> 0x0800"
abbreviation (input) TIM_CCMR1_OC2M :: u16 where "TIM_CCMR1_OC2M \<equiv> 0x7000"
abbreviation (input) TIM_CCMR1_OC2CE :: u16 where "TIM_CCMR1_OC2CE \<equiv> 0x8000"
abbreviation (input) TIM_CCMR1_IC1PSC :: u16 where "TIM_CCMR1_IC1PSC \<equiv> 0x000C"
abbreviation (input) TIM_CCMR1_IC1F :: u16 where "TIM_CCMR1_IC1F \<equiv> 0x00F0"
abbreviation (input) TIM_CCMR1_IC2PSC :: u16 where "TIM_CCMR1_IC2PSC \<equiv> 0x0C00"
abbreviation (input) TIM_CCMR1_IC2F :: u16 where "TIM_CCMR1_IC2F \<equiv> 0xF000"
abbreviation (input) TIM_CCMR2_CC3S :: u16 where "TIM_CCMR2_CC3S \<equiv> 0x0003"
abbreviation (input) TIM_CCMR2_OC3FE :: u16 where "TIM_CCMR2_OC3FE \<equiv> 0x0004"
abbreviation (input) TIM_CCMR2_OC3PE :: u16 where "TIM_CCMR2_OC3PE \<equiv> 0x0008"
abbreviation (input) TIM_CCMR2_OC3M :: u16 where "TIM_CCMR2_OC3M \<equiv> 0x0070"
abbreviation (input) TIM_CCMR2_OC3CE :: u16 where "TIM_CCMR2_OC3CE \<equiv> 0x0080"
abbreviation (input) TIM_CCMR2_CC4S :: u16 where "TIM_CCMR2_CC4S \<equiv> 0x0300"
abbreviation (input) TIM_CCMR2_OC4FE :: u16 where "TIM_CCMR2_OC4FE \<equiv> 0x0400"
abbreviation (input) TIM_CCMR2_OC4PE :: u16 where "TIM_CCMR2_OC4PE \<equiv> 0x0800"
abbreviation (input) TIM_CCMR2_OC4M :: u16 where "TIM_CCMR2_OC4M \<equiv> 0x7000"
abbreviation (input) TIM_CCMR2_OC4CE :: u16 where "TIM_CCMR2_OC4CE \<equiv> 0x8000"
abbreviation (input) TIM_CCMR2_IC3PSC :: u16 where "TIM_CCMR2_IC3PSC \<equiv> 0x000C"
abbreviation (input) TIM_CCMR2_IC3F :: u16 where "TIM_CCMR2_IC3F \<equiv> 0x00F0"
abbreviation (input) TIM_CCMR2_IC4PSC :: u16 where "TIM_CCMR2_IC4PSC \<equiv> 0x0C00"
abbreviation (input) TIM_CCMR2_IC4F :: u16 where "TIM_CCMR2_IC4F \<equiv> 0xF000"
abbreviation (input) TIM_CCER_CC1E :: u16 where "TIM_CCER_CC1E \<equiv> 0x0001"
abbreviation (input) TIM_CCER_CC1P :: u16 where "TIM_CCER_CC1P \<equiv> 0x0002"
abbreviation (input) TIM_CCER_CC1NE :: u16 where "TIM_CCER_CC1NE \<equiv> 0x0004"
abbreviation (input) TIM_CCER_CC1NP :: u16 where "TIM_CCER_CC1NP \<equiv> 0x0008"
abbreviation (input) TIM_CCER_CC2E :: u16 where "TIM_CCER_CC2E \<equiv> 0x0010"
abbreviation (input) TIM_CCER_CC2P :: u16 where "TIM_CCER_CC2P \<equiv> 0x0020"
abbreviation (input) TIM_CCER_CC2NE :: u16 where "TIM_CCER_CC2NE \<equiv> 0x0040"
abbreviation (input) TIM_CCER_CC2NP :: u16 where "TIM_CCER_CC2NP \<equiv> 0x0080"
abbreviation (input) TIM_CCER_CC3E :: u16 where "TIM_CCER_CC3E \<equiv> 0x0100"
abbreviation (input) TIM_CCER_CC3P :: u16 where "TIM_CCER_CC3P \<equiv> 0x0200"
abbreviation (input) TIM_CCER_CC3NE :: u16 where "TIM_CCER_CC3NE \<equiv> 0x0400"
abbreviation (input) TIM_CCER_CC3NP :: u16 where "TIM_CCER_CC3NP \<equiv> 0x0800"
abbreviation (input) TIM_CCER_CC4E :: u16 where "TIM_CCER_CC4E \<equiv> 0x1000"
abbreviation (input) TIM_CCER_CC4P :: u16 where "TIM_CCER_CC4P \<equiv> 0x2000"
abbreviation (input) TIM_CCER_CC4NP :: u16 where "TIM_CCER_CC4NP \<equiv> 0x8000"
abbreviation (input) TIM_BDTR_MOE :: u16 where "TIM_BDTR_MOE \<equiv> 0x8000"
abbreviation (input) FLASH_ACR_LATENCY :: u32 where "FLASH_ACR_LATENCY \<equiv> 0x00000003"
abbreviation (input) FLASH_ACR_LATENCY_2 :: u32 where "FLASH_ACR_LATENCY_2 \<equiv> 0x00000002"
abbreviation (input) FLASH_ACR_PRFTBE :: u32 where "FLASH_ACR_PRFTBE \<equiv> 0x00000010"

subsection \<open>core_cm3.h\<close>

abbreviation (input) SysTick_CTRL_ENABLE_Msk :: u32 where "SysTick_CTRL_ENABLE_Msk \<equiv> 0x00000001"

subsection \<open>misc.h\<close>

abbreviation (input) NVIC_PriorityGroup_2 :: u32 where "NVIC_PriorityGroup_2 \<equiv> 0x00000500"
abbreviation (input) SysTick_CLKSource_HCLK_Div8 :: u32 where "SysTick_CLKSource_HCLK_Div8 \<equiv> 0xFFFFFFFB"
abbreviation (input) SysTick_CLKSource_HCLK :: u32 where "SysTick_CLKSource_HCLK \<equiv> 0x00000004"

subsection \<open>stm32f10x_gpio.h\<close>

abbreviation (input) GPIO_Pin_0 :: u16 where "GPIO_Pin_0 \<equiv> 0x0001"
abbreviation (input) GPIO_Pin_1 :: u16 where "GPIO_Pin_1 \<equiv> 0x0002"
abbreviation (input) GPIO_Pin_4 :: u16 where "GPIO_Pin_4 \<equiv> 0x0010"
abbreviation (input) GPIO_Pin_5 :: u16 where "GPIO_Pin_5 \<equiv> 0x0020"
abbreviation (input) GPIO_Pin_9 :: u16 where "GPIO_Pin_9 \<equiv> 0x0200"
abbreviation (input) GPIO_Pin_10 :: u16 where "GPIO_Pin_10 \<equiv> 0x0400"
abbreviation (input) GPIO_Pin_13 :: u16 where "GPIO_Pin_13 \<equiv> 0x2000"
abbreviation (input) GPIO_Pin_All :: u16 where "GPIO_Pin_All \<equiv> 0xFFFF"
abbreviation (input) GPIO_PartialRemap_TIM3 :: u32 where "GPIO_PartialRemap_TIM3 \<equiv> 0x001A0800"

subsection \<open>stm32f10x_rcc.h\<close>

abbreviation (input) RCC_HSE_ON :: u32 where "RCC_HSE_ON \<equiv> 0x00010000"
abbreviation (input) RCC_HSE_Bypass :: u32 where "RCC_HSE_Bypass \<equiv> 0x00040000"
abbreviation (input) RCC_SYSCLKSource_PLLCLK :: u32 where "RCC_SYSCLKSource_PLLCLK \<equiv> 0x00000002"
abbreviation (input) RCC_SYSCLK_Div2 :: u32 where "RCC_SYSCLK_Div2 \<equiv> 0x00000080"
abbreviation (input) RCC_HCLK_Div4 :: u32 where "RCC_HCLK_Div4 \<equiv> 0x00000500"
abbreviation (input) RCC_LSE_OFF :: u8 where "RCC_LSE_OFF \<equiv> 0x00"
abbreviation (input) RCC_LSE_ON :: u8 where "RCC_LSE_ON \<equiv> 0x01"
abbreviation (input) RCC_LSE_Bypass :: u8 where "RCC_LSE_Bypass \<equiv> 0x04"
abbreviation (input) RCC_APB2Periph_AFIO :: u32 where "RCC_APB2Periph_AFIO \<equiv> 0x00000001"
abbreviation (input) RCC_APB2Periph_GPIOA :: u32 where "RCC_APB2Periph_GPIOA \<equiv> 0x00000004"
abbreviation (input) RCC_APB2Periph_GPIOB :: u32 where "RCC_APB2Periph_GPIOB \<equiv> 0x00000008"
abbreviation (input) RCC_APB2Periph_GPIOC :: u32 where "RCC_APB2Periph_GPIOC \<equiv> 0x00000010"
abbreviation (input) RCC_APB2Periph_GPIOD :: u32 where "RCC_APB2Periph_GPIOD \<equiv> 0x00000020"
abbreviation (input) RCC_APB2Periph_GPIOE :: u32 where "RCC_APB2Periph_GPIOE \<equiv> 0x00000040"
abbreviation (input) RCC_APB2Periph_GPIOF :: u32 where "RCC_APB2Periph_GPIOF \<equiv> 0x00000080"
abbreviation (input) RCC_APB2Periph_GPIOG :: u32 where "RCC_APB2Periph_GPIOG \<equiv> 0x00000100"
abbreviation (input) RCC_APB2Periph_TIM1 :: u32 where "RCC_APB2Periph_TIM1 \<equiv> 0x00000800"
abbreviation (input) RCC_APB2Periph_TIM8 :: u32 where "RCC_APB2Periph_TIM8 \<equiv> 0x00002000"
abbreviation (input) RCC_APB2Periph_USART1 :: u32 where "RCC_APB2Periph_USART1 \<equiv> 0x00004000"
abbreviation (input) RCC_APB2Periph_TIM15 :: u32 where "RCC_APB2Periph_TIM15 \<equiv> 0x00010000"
abbreviation (input) RCC_APB2Periph_TIM16 :: u32 where "RCC_APB2Periph_TIM16 \<equiv> 0x00020000"
abbreviation (input) RCC_APB2Periph_TIM17 :: u32 where "RCC_APB2Periph_TIM17 \<equiv> 0x00040000"
abbreviation (input) RCC_APB2Periph_TIM9 :: u32 where "RCC_APB2Periph_TIM9 \<equiv> 0x00080000"
abbreviation (input) RCC_APB2Periph_TIM10 :: u32 where "RCC_APB2Periph_TIM10 \<equiv> 0x00100000"
abbreviation (input) RCC_APB2Periph_TIM11 :: u32 where "RCC_APB2Periph_TIM11 \<equiv> 0x00200000"
abbreviation (input) RCC_APB1Periph_TIM2 :: u32 where "RCC_APB1Periph_TIM2 \<equiv> 0x00000001"
abbreviation (input) RCC_APB1Periph_TIM3 :: u32 where "RCC_APB1Periph_TIM3 \<equiv> 0x00000002"
abbreviation (input) RCC_APB1Periph_TIM4 :: u32 where "RCC_APB1Periph_TIM4 \<equiv> 0x00000004"
abbreviation (input) RCC_APB1Periph_TIM5 :: u32 where "RCC_APB1Periph_TIM5 \<equiv> 0x00000008"
abbreviation (input) RCC_APB1Periph_TIM6 :: u32 where "RCC_APB1Periph_TIM6 \<equiv> 0x00000010"
abbreviation (input) RCC_APB1Periph_TIM7 :: u32 where "RCC_APB1Periph_TIM7 \<equiv> 0x00000020"
abbreviation (input) RCC_APB1Periph_TIM12 :: u32 where "RCC_APB1Periph_TIM12 \<equiv> 0x00000040"
abbreviation (input) RCC_APB1Periph_TIM13 :: u32 where "RCC_APB1Periph_TIM13 \<equiv> 0x00000080"
abbreviation (input) RCC_APB1Periph_TIM14 :: u32 where "RCC_APB1Periph_TIM14 \<equiv> 0x00000100"
abbreviation (input) RCC_APB1Periph_USART2 :: u32 where "RCC_APB1Periph_USART2 \<equiv> 0x00020000"
abbreviation (input) RCC_APB1Periph_USART3 :: u32 where "RCC_APB1Periph_USART3 \<equiv> 0x00040000"
abbreviation (input) RCC_APB1Periph_UART4 :: u32 where "RCC_APB1Periph_UART4 \<equiv> 0x00080000"
abbreviation (input) RCC_APB1Periph_UART5 :: u32 where "RCC_APB1Periph_UART5 \<equiv> 0x00100000"
abbreviation (input) RCC_FLAG_HSERDY :: u8 where "RCC_FLAG_HSERDY \<equiv> 0x31"

subsection \<open>stm32f10x_tim.h\<close>

abbreviation (input) TIM_OCMode_Timing :: u16 where "TIM_OCMode_Timing \<equiv> 0x0000"
abbreviation (input) TIM_OCMode_Toggle :: u16 where "TIM_OCMode_Toggle \<equiv> 0x0030"
abbreviation (input) TIM_OCMode_PWM2 :: u16 where "TIM_OCMode_PWM2 \<equiv> 0x0070"
abbreviation (input) TIM_Channel_1 :: u16 where "TIM_Channel_1 \<equiv> 0x0000"
abbreviation (input) TIM_Channel_2 :: u16 where "TIM_Channel_2 \<equiv> 0x0004"
abbreviation (input) TIM_Channel_3 :: u16 where "TIM_Channel_3 \<equiv> 0x0008"
abbreviation (input) TIM_Channel_4 :: u16 where "TIM_Channel_4 \<equiv> 0x000C"
abbreviation (input) TIM_CKD_DIV1 :: u16 where "TIM_CKD_DIV1 \<equiv> 0x0000"
abbreviation (input) TIM_CounterMode_Up :: u16 where "TIM_CounterMode_Up \<equiv> 0x0000"
abbreviation (input) TIM_OCPolarity_High :: u16 where "TIM_OCPolarity_High \<equiv> 0x0000"
abbreviation (input) TIM_OutputState_Disable :: u16 where "TIM_OutputState_Disable \<equiv> 0x0000"
abbreviation (input) TIM_OutputState_Enable :: u16 where "TIM_OutputState_Enable \<equiv> 0x0001"
abbreviation (input) TIM_OutputNState_Disable :: u16 where "TIM_OutputNState_Disable \<equiv> 0x0000"
abbreviation (input) TIM_Break_Disable :: u16 where "TIM_Break_Disable \<equiv> 0x0000"
abbreviation (input) TIM_BreakPolarity_Low :: u16 where "TIM_BreakPolarity_Low \<equiv> 0x0000"
abbreviation (input) TIM_AutomaticOutput_Disable :: u16 where "TIM_AutomaticOutput_Disable \<equiv> 0x0000"
abbreviation (input) TIM_LOCKLevel_OFF :: u16 where "TIM_LOCKLevel_OFF \<equiv> 0x0000"
abbreviation (input) TIM_OSSIState_Disable :: u16 where "TIM_OSSIState_Disable \<equiv> 0x0000"
abbreviation (input) TIM_OSSRState_Disable :: u16 where "TIM_OSSRState_Disable \<equiv> 0x0000"
abbreviation (input) TIM_OCIdleState_Reset :: u16 where "TIM_OCIdleState_Reset \<equiv> 0x0000"
abbreviation (input) TIM_OCNIdleState_Reset :: u16 where "TIM_OCNIdleState_Reset \<equiv> 0x0000"
abbreviation (input) TIM_ICPolarity_Rising :: u16 where "TIM_ICPolarity_Rising \<equiv> 0x0000"
abbreviation (input) TIM_ICPolarity_Falling :: u16 where "TIM_ICPolarity_Falling \<equiv> 0x0002"
abbreviation (input) TIM_ICSelection_DirectTI :: u16 where "TIM_ICSelection_DirectTI \<equiv> 0x0001"
abbreviation (input) TIM_ICSelection_IndirectTI :: u16 where "TIM_ICSelection_IndirectTI \<equiv> 0x0002"
abbreviation (input) TIM_ICPSC_DIV1 :: u16 where "TIM_ICPSC_DIV1 \<equiv> 0x0000"
abbreviation (input) TIM_IT_Update :: u16 where "TIM_IT_Update \<equiv> 0x0001"
abbreviation (input) TIM_TS_ETRF :: u16 where "TIM_TS_ETRF \<equiv> 0x0070"
abbreviation (input) TIM_TIxExternalCLK1Source_TI2 :: u16 where "TIM_TIxExternalCLK1Source_TI2 \<equiv> 0x0060"
abbreviation (input) TIM_PSCReloadMode_Immediate :: u16 where "TIM_PSCReloadMode_Immediate \<equiv> 0x0001"
abbreviation (input) TIM_UpdateSource_Global :: u16 where "TIM_UpdateSource_Global \<equiv> 0x0000"
abbreviation (input) TIM_OCPreload_Enable :: u16 where "TIM_OCPreload_Enable \<equiv> 0x0008"
abbreviation (input) TIM_SlaveMode_External1 :: u16 where "TIM_SlaveMode_External1 \<equiv> 0x0007"

subsection \<open>stm32f10x_usart.h\<close>

abbreviation (input) USART_WordLength_8b :: u16 where "USART_WordLength_8b \<equiv> 0x0000"
abbreviation (input) USART_StopBits_1 :: u16 where "USART_StopBits_1 \<equiv> 0x0000"
abbreviation (input) USART_Parity_No :: u16 where "USART_Parity_No \<equiv> 0x0000"
abbreviation (input) USART_Mode_Rx :: u16 where "USART_Mode_Rx \<equiv> 0x0004"
abbreviation (input) USART_Mode_Tx :: u16 where "USART_Mode_Tx \<equiv> 0x0008"
abbreviation (input) USART_HardwareFlowControl_None :: u16 where "USART_HardwareFlowControl_None \<equiv> 0x0000"
abbreviation (input) USART_Clock_Disable :: u16 where "USART_Clock_Disable \<equiv> 0x0000"
abbreviation (input) USART_CPOL_Low :: u16 where "USART_CPOL_Low \<equiv> 0x0000"
abbreviation (input) USART_CPHA_1Edge :: u16 where "USART_CPHA_1Edge \<equiv> 0x0000"
abbreviation (input) USART_LastBit_Disable :: u16 where "USART_LastBit_Disable \<equiv> 0x0000"
abbreviation (input) USART_IT_PE :: u16 where "USART_IT_PE \<equiv> 0x0028"
abbreviation (input) USART_IT_TXE :: u16 where "USART_IT_TXE \<equiv> 0x0727"
abbreviation (input) USART_IT_TC :: u16 where "USART_IT_TC \<equiv> 0x0626"
abbreviation (input) USART_IT_RXNE :: u16 where "USART_IT_RXNE \<equiv> 0x0525"
abbreviation (input) USART_IT_IDLE :: u16 where "USART_IT_IDLE \<equiv> 0x0424"
abbreviation (input) USART_IT_LBD :: u16 where "USART_IT_LBD \<equiv> 0x0846"
abbreviation (input) USART_IT_CTS :: u16 where "USART_IT_CTS \<equiv> 0x096A"
abbreviation (input) USART_IT_ORE :: u16 where "USART_IT_ORE \<equiv> 0x0360"
abbreviation (input) USART_IT_NE :: u16 where "USART_IT_NE \<equiv> 0x0260"
abbreviation (input) USART_IT_FE :: u16 where "USART_IT_FE \<equiv> 0x0160"
abbreviation (input) USART_FLAG_RXNE :: u16 where "USART_FLAG_RXNE \<equiv> 0x0020"

subsection \<open>misc.c\<close>

abbreviation (input) AIRCR_VECTKEY_MASK :: u32 where "AIRCR_VECTKEY_MASK \<equiv> 0x05FA0000"

subsection \<open>stm32f10x_gpio.c\<close>

abbreviation (input) EVOE_BitNumber :: nat where "EVOE_BitNumber \<equiv> 7"
abbreviation (input) MII_RMII_SEL_BitNumber :: nat where "MII_RMII_SEL_BitNumber \<equiv> 23"
abbreviation (input) EVCR_PORTPINCONFIG_MASK :: u16 where "EVCR_PORTPINCONFIG_MASK \<equiv> 0xFF80"
abbreviation (input) LSB_MASK :: u16 where "LSB_MASK \<equiv> 0xFFFF"
abbreviation (input) DBGAFR_POSITION_MASK :: u32 where "DBGAFR_POSITION_MASK \<equiv> 0x000F0000"
abbreviation (input) DBGAFR_SWJCFG_MASK :: u32 where "DBGAFR_SWJCFG_MASK \<equiv> 0xF0FFFFFF"
abbreviation (input) DBGAFR_LOCATION_MASK :: u32 where "DBGAFR_LOCATION_MASK \<equiv> 0x00200000"
abbreviation (input) DBGAFR_NUMBITS_MASK :: u32 where "DBGAFR_NUMBITS_MASK \<equiv> 0x00100000"

subsection \<open>stm32f10x_rcc.c\<close>

abbreviation (input) HSION_BitNumber :: nat where "HSION_BitNumber \<equiv> 0"
abbreviation (input) PLLON_BitNumber :: nat where "PLLON_BitNumber \<equiv> 24"
abbreviation (input) CSSON_BitNumber :: nat where "CSSON_BitNumber \<equiv> 19"
abbreviation (input) USBPRE_BitNumber :: nat where "USBPRE_BitNumber \<equiv> 22"
abbreviation (input) RTCEN_BitNumber :: nat where "RTCEN_BitNumber \<equiv> 15"
abbreviation (input) BDRST_BitNumber :: nat where "BDRST_BitNumber \<equiv> 16"
abbreviation (input) LSION_BitNumber :: nat where "LSION_BitNumber \<equiv> 0"
abbreviation (input) CR_HSEBYP_Reset :: u32 where "CR_HSEBYP_Reset \<equiv> 0xFFFBFFFF"
abbreviation (input) CR_HSEBYP_Set :: u32 where "CR_HSEBYP_Set \<equiv> 0x00040000"
abbreviation (input) CR_HSEON_Reset :: u32 where "CR_HSEON_Reset \<equiv> 0xFFFEFFFF"
abbreviation (input) CR_HSEON_Set :: u32 where "CR_HSEON_Set \<equiv> 0x00010000"
abbreviation (input) CR_HSITRIM_Mask :: u32 where "CR_HSITRIM_Mask \<equiv> 0xFFFFFF07"
abbreviation (input) CFGR_PLL_Mask :: u32 where "CFGR_PLL_Mask \<equiv> 0xFFC0FFFF"
abbreviation (input) CFGR_PLLMull_Mask :: u32 where "CFGR_PLLMull_Mask \<equiv> 0x003C0000"
abbreviation (input) CFGR_PLLSRC_Mask :: u32 where "CFGR_PLLSRC_Mask \<equiv> 0x00010000"
abbreviation (input) CFGR_PLLXTPRE_Mask :: u32 where "CFGR_PLLXTPRE_Mask \<equiv> 0x00020000"
abbreviation (input) CFGR_SWS_Mask :: u32 where "CFGR_SWS_Mask \<equiv> 0x0000000C"
abbreviation (input) CFGR_SW_Mask :: u32 where "CFGR_SW_Mask \<equiv> 0xFFFFFFFC"
abbreviation (input) CFGR_HPRE_Reset_Mask :: u32 where "CFGR_HPRE_Reset_Mask \<equiv> 0xFFFFFF0F"
abbreviation (input) CFGR_HPRE_Set_Mask :: u32 where "CFGR_HPRE_Set_Mask \<equiv> 0x000000F0"
abbreviation (input) CFGR_PPRE1_Reset_Mask :: u32 where "CFGR_PPRE1_Reset_Mask \<equiv> 0xFFFFF8FF"
abbreviation (input) CFGR_PPRE1_Set_Mask :: u32 where "CFGR_PPRE1_Set_Mask \<equiv> 0x00000700"
abbreviation (input) CFGR_PPRE2_Reset_Mask :: u32 where "CFGR_PPRE2_Reset_Mask \<equiv> 0xFFFFC7FF"
abbreviation (input) CFGR_PPRE2_Set_Mask :: u32 where "CFGR_PPRE2_Set_Mask \<equiv> 0x00003800"
abbreviation (input) CFGR_ADCPRE_Reset_Mask :: u32 where "CFGR_ADCPRE_Reset_Mask \<equiv> 0xFFFF3FFF"
abbreviation (input) CFGR_ADCPRE_Set_Mask :: u32 where "CFGR_ADCPRE_Set_Mask \<equiv> 0x0000C000"
abbreviation (input) CSR_RMVF_Set :: u32 where "CSR_RMVF_Set \<equiv> 0x01000000"
abbreviation (input) FLAG_Mask :: u8 where "FLAG_Mask \<equiv> 0x1F"

subsection \<open>stm32f10x_tim.c\<close>

abbreviation (input) SMCR_ETR_Mask :: u16 where "SMCR_ETR_Mask \<equiv> 0x00FF"
abbreviation (input) CCMR_Offset :: u16 where "CCMR_Offset \<equiv> 0x0018"
abbreviation (input) CCER_CCE_Set :: u16 where "CCER_CCE_Set \<equiv> 0x0001"
abbreviation (input) CCER_CCNE_Set :: u16 where "CCER_CCNE_Set \<equiv> 0x0004"

subsection \<open>stm32f10x_usart.c\<close>

abbreviation (input) CR1_UE_Set :: u16 where "CR1_UE_Set \<equiv> 0x2000"
abbreviation (input) CR1_UE_Reset :: u16 where "CR1_UE_Reset \<equiv> 0xDFFF"
abbreviation (input) CR1_WAKE_Mask :: u16 where "CR1_WAKE_Mask \<equiv> 0xF7FF"
abbreviation (input) CR1_RWU_Set :: u16 where "CR1_RWU_Set \<equiv> 0x0002"
abbreviation (input) CR1_RWU_Reset :: u16 where "CR1_RWU_Reset \<equiv> 0xFFFD"
abbreviation (input) CR1_SBK_Set :: u16 where "CR1_SBK_Set \<equiv> 0x0001"
abbreviation (input) CR1_CLEAR_Mask :: u16 where "CR1_CLEAR_Mask \<equiv> 0xE9F3"
abbreviation (input) CR2_Address_Mask :: u16 where "CR2_Address_Mask \<equiv> 0xFFF0"
abbreviation (input) CR2_LINEN_Set :: u16 where "CR2_LINEN_Set \<equiv> 0x4000"
abbreviation (input) CR2_LINEN_Reset :: u16 where "CR2_LINEN_Reset \<equiv> 0xBFFF"
abbreviation (input) CR2_LBDL_Mask :: u16 where "CR2_LBDL_Mask \<equiv> 0xFFDF"
abbreviation (input) CR2_STOP_CLEAR_Mask :: u16 where "CR2_STOP_CLEAR_Mask \<equiv> 0xCFFF"
abbreviation (input) CR2_CLOCK_CLEAR_Mask :: u16 where "CR2_CLOCK_CLEAR_Mask \<equiv> 0xF0FF"
abbreviation (input) CR3_SCEN_Set :: u16 where "CR3_SCEN_Set \<equiv> 0x0020"
abbreviation (input) CR3_SCEN_Reset :: u16 where "CR3_SCEN_Reset \<equiv> 0xFFDF"
abbreviation (input) CR3_NACK_Set :: u16 where "CR3_NACK_Set \<equiv> 0x0010"
abbreviation (input) CR3_NACK_Reset :: u16 where "CR3_NACK_Reset \<equiv> 0xFFEF"
abbreviation (input) CR3_HDSEL_Set :: u16 where "CR3_HDSEL_Set \<equiv> 0x0008"
abbreviation (input) CR3_HDSEL_Reset :: u16 where "CR3_HDSEL_Reset \<equiv> 0xFFF7"
abbreviation (input) CR3_IRLP_Mask :: u16 where "CR3_IRLP_Mask \<equiv> 0xFFFB"
abbreviation (input) CR3_CLEAR_Mask :: u16 where "CR3_CLEAR_Mask \<equiv> 0xFCFF"
abbreviation (input) CR3_IREN_Set :: u16 where "CR3_IREN_Set \<equiv> 0x0002"
abbreviation (input) CR3_IREN_Reset :: u16 where "CR3_IREN_Reset \<equiv> 0xFFFD"
abbreviation (input) GTPR_LSB_Mask :: u16 where "GTPR_LSB_Mask \<equiv> 0x00FF"
abbreviation (input) GTPR_MSB_Mask :: u16 where "GTPR_MSB_Mask \<equiv> 0xFF00"
abbreviation (input) IT_Mask :: u16 where "IT_Mask \<equiv> 0x001F"
abbreviation (input) CR1_OVER8_Set :: u16 where "CR1_OVER8_Set \<equiv> 0x8000"
abbreviation (input) CR1_OVER8_Reset :: u16 where "CR1_OVER8_Reset \<equiv> 0x7FFF"
abbreviation (input) CR3_ONEBITE_Set :: u16 where "CR3_ONEBITE_Set \<equiv> 0x0800"
abbreviation (input) CR3_ONEBITE_Reset :: u16 where "CR3_ONEBITE_Reset \<equiv> 0xF7FF"

subsection \<open>system_stm32f10x.c\<close>

abbreviation (input) VECT_TAB_OFFSET :: u32 where "VECT_TAB_OFFSET \<equiv> 0x00000000"

subsection \<open>usart.h\<close>

abbreviation (input) USART_REC_LEN :: nat where "USART_REC_LEN \<equiv> 200"

subsection \<open>key.h\<close>

abbreviation (input) KEY0_PRES :: u8 where "KEY0_PRES \<equiv> 0x01"
abbreviation (input) WKUP_PRES :: u8 where "WKUP_PRES \<equiv> 0x04"

end
