(* ===== verification/Cstring.thy ===== *)
theory Cstring
  imports Prelude
begin

text \<open>
  Character arrays and the conversions of the standard library that the firmware uses:
  NUL-terminated strings in byte buffers, \<open>%s\<close>, \<open>%02d\<close>, \<open>%02X\<close>. Reading a string that has
  no terminator in its buffer, and storing one that does not fit, are \<open>None\<close>.
\<close>

section \<open>Operations\<close>

definition ascii :: "string \<Rightarrow> u8 list" where
  "ascii = List.map of_char"

definition cstring :: "u8 list \<Rightarrow> u8 list option" where
  "cstring buf = (if 0 \<in> set buf then Some (takeWhile (\<lambda>c. c \<noteq> 0) buf) else None)"

definition store_cstring :: "u8 list \<Rightarrow> u8 list \<Rightarrow> u8 list option" where
  "store_cstring str buf =
     (if length str < length buf then Some (str @ [0] @ drop (Suc (length str)) buf) else None)"

fun dec_digits :: "nat \<Rightarrow> u8 list" where
  "dec_digits n = (if n < 10 then [48 + of_nat n] else dec_digits (n div 10) @ [48 + of_nat (n mod 10)])"

declare dec_digits.simps [simp del]

text \<open>\<open>%02d\<close>: at least two characters, zeros after the sign.\<close>

definition fmt_02d :: "int \<Rightarrow> u8 list" where
  "fmt_02d n =
     (let sign = (if n < 0 then [45] else []); ds = dec_digits (nat \<bar>n\<bar>)
      in sign @ replicate (2 - length sign - length ds) 48 @ ds)"

definition hex_digit :: "nat \<Rightarrow> u8" where
  "hex_digit d = (if d < 10 then 48 + of_nat d else 55 + of_nat d)"

fun hex_digits :: "nat \<Rightarrow> u8 list" where
  "hex_digits n = (if n < 16 then [hex_digit n] else hex_digits (n div 16) @ [hex_digit (n mod 16)])"

declare hex_digits.simps [simp del]

text \<open>\<open>%02X\<close> of an \<open>int\<close>, which it takes as an \<open>unsigned\<close>.\<close>

definition fmt_02X :: "int \<Rightarrow> u8 list" where
  "fmt_02X n = (let ds = hex_digits (nat (n mod 2 ^ 32)) in replicate (2 - length ds) 48 @ ds)"

text \<open>The checksum of an NMEA sentence: the exclusive or of its bytes.\<close>

definition xor_all :: "u8 list \<Rightarrow> u8" where
  "xor_all cs = fold (\<lambda>c r. r XOR c) cs 0"

text \<open>Two decimal digits.\<close>

definition two_digits :: "int \<Rightarrow> u8 list" where
  "two_digits n = [48 + of_nat (nat n div 10), 48 + of_nat (nat n mod 10)]"

section \<open>Strings in buffers\<close>

lemma cstring_store:
  assumes "store_cstring str buf = Some buf'" and "0 \<notin> set str"
  shows "cstring buf' = Some str"
proof -
  have "buf' = str @ [0] @ drop (Suc (length str)) buf"
    using assms(1) by (auto simp: store_cstring_def split: if_splits)
  moreover have "takeWhile (\<lambda>c. c \<noteq> 0) (str @ 0 # xs) = str" for xs
    using assms(2) by (induction str) auto
  ultimately show ?thesis by (simp add: cstring_def)
qed

lemma length_store_cstring:
  "store_cstring str buf = Some buf' \<Longrightarrow> length buf' = length buf"
  by (auto simp: store_cstring_def split: if_splits)

lemma store_cstring_fits:
  "length str < length buf \<Longrightarrow> store_cstring str buf = Some (str @ [0] @ drop (Suc (length str)) buf)"
  by (simp add: store_cstring_def)

lemma cstring_append:
  "0 \<notin> set str \<Longrightarrow> cstring (str @ 0 # rest) = Some str"
  by (induction str) (auto simp: cstring_def)

section \<open>Two-digit conversions\<close>

lemma fmt_02d_digits:
  assumes "0 \<le> n" and "n < 100"
  shows "fmt_02d n = [48 + of_nat (nat n div 10), 48 + of_nat (nat n mod 10)]"
proof -
  have lt: "nat n < 100" using assms by simp
  show ?thesis
  proof (cases "nat n < 10")
    case True
    then show ?thesis
      using assms by (simp add: fmt_02d_def dec_digits.simps Let_def)
  next
    case False
    moreover from lt have "nat n div 10 < 10" by simp
    ultimately show ?thesis
      using assms by (simp add: fmt_02d_def dec_digits.simps [of "nat n"] dec_digits.simps [of "nat n div 10"] Let_def)
  qed
qed

lemma fmt_02X_digits:
  assumes "0 \<le> n" and "n < 256"
  shows "fmt_02X n = [hex_digit (nat n div 16), hex_digit (nat n mod 16)]"
proof -
  have n: "n mod 2 ^ 32 = n" using assms by simp
  have lt: "nat n < 256" using assms by simp
  show ?thesis
  proof (cases "nat n < 16")
    case True
    then show ?thesis
      using n by (simp add: fmt_02X_def hex_digits.simps Let_def hex_digit_def del: power_numeral)
  next
    case False
    moreover from lt have "nat n div 16 < 16" by simp
    ultimately show ?thesis
      using n by (simp add: fmt_02X_def hex_digits.simps [of "nat n"] hex_digits.simps [of "nat n div 16"] Let_def del: power_numeral)
  qed
qed

lemma unat_digit: "n < 10 \<Longrightarrow> unat ((48 :: u8) + of_nat n) = 48 + n"
  by (simp add: unat_word_ariths unat_of_nat)

lemma digit_bytes:
  assumes "n < 10"
  shows "(48 :: u8) + of_nat n \<noteq> 0" "(48 :: u8) + of_nat n \<noteq> 42"
proof -
  have u: "unat ((48 :: u8) + of_nat n) = 48 + n" using assms by (rule unat_digit)
  have "unat ((48 :: u8) + of_nat n) \<noteq> unat (0 :: u8)" "unat ((48 :: u8) + of_nat n) \<noteq> unat (42 :: u8)"
    unfolding u by simp_all
  then show "(48 :: u8) + of_nat n \<noteq> 0" "(48 :: u8) + of_nat n \<noteq> 42" by metis+
qed

lemma two_digits_plain:
  assumes "0 \<le> n" and "n < 100"
  shows "0 \<notin> set (two_digits n)" "42 \<notin> set (two_digits n)" "length (two_digits n) = 2"
proof -
  have "nat n div 10 < 10" "nat n mod 10 < 10" using assms by auto
  note d = this [THEN digit_bytes(1)] this [THEN digit_bytes(2)]
  show "0 \<notin> set (two_digits n)" "42 \<notin> set (two_digits n)" "length (two_digits n) = 2"
    using d by (auto simp: two_digits_def)
qed

end
