(* ===== verification/Globals.thy ===== *)
theory Globals
  imports Stm32f10x Cstring
begin

text \<open>
  The state of the whole firmware: the microcontroller and the C objects with static storage of
  \<open>system_stm32f10x.c\<close>, \<open>delay.c\<close>, \<open>key.c\<close>, \<open>usart.c\<close> and \<open>timer.c\<close>. Two arrays of
  \<open>timer.c\<close> are used past their end: \<open>sprintf\<close> reads \<open>gprmcStr[7]\<close>, which has no room for
  a terminator, and writes three bytes to \<open>chckNumChar[2]\<close>. For these two the state keeps the
  padding bytes that the linker leaves behind the array; running past the padding as well is
  \<open>None\<close> in the operations. \<open>result\<close> and \<open>i\<close> are \<open>g_result\<close> and \<open>g_i\<close> here.
\<close>

record firmware = mcu +
  SystemCoreClock :: u32
  fac_us :: u8
  fac_ms :: u16
  key_up :: u8
  USART_RX_BUF :: "u8 list"
  USART_RX_STA :: u16
  gprmcStr :: "u8 list"
  gprmcStr_padding :: "u8 list"
  chckNum :: int
  chckNumChar :: "u8 list"
  chckNumChar_padding :: "u8 list"
  ss :: int
  mm :: int
  hh :: int
  g_result :: u8
  g_i :: int
  value_1 :: "u8 list"
  value_2 :: "u8 list"

text \<open>
  The state in which \<open>main\<close> would find the device after a reset, were the clock not yet switched:
  the registers of the reset and the initial values of the C objects. The arguments are the two
  paddings.
\<close>

definition reset_firmware :: "u8 list \<Rightarrow> u8 list \<Rightarrow> firmware" where
  "reset_firmware pad1 pad2 = mcu.extend reset_mcu
     \<lparr>SystemCoreClock = 72000000, fac_us = 0, fac_ms = 0, key_up = 1,
      USART_RX_BUF = replicate 200 0, USART_RX_STA = 0,
      gprmcStr = ascii ''$GPRMC,'', gprmcStr_padding = pad1, chckNum = 0,
      chckNumChar = replicate 2 0, chckNumChar_padding = pad2, ss = 0, mm = 0, hh = 0,
      g_result = 0, g_i = 0, value_1 = replicate 100 0, value_2 = replicate 100 0\<rparr>"

lemma reset_firmware_sel [simp]:
  "SystemCoreClock (reset_firmware p q) = 72000000" "fac_us (reset_firmware p q) = 0"
  "fac_ms (reset_firmware p q) = 0" "key_up (reset_firmware p q) = 1"
  "USART_RX_BUF (reset_firmware p q) = replicate 200 0" "USART_RX_STA (reset_firmware p q) = 0"
  "gprmcStr (reset_firmware p q) = ascii ''$GPRMC,''" "gprmcStr_padding (reset_firmware p q) = p"
  "chckNum (reset_firmware p q) = 0" "chckNumChar (reset_firmware p q) = replicate 2 0"
  "chckNumChar_padding (reset_firmware p q) = q" "ss (reset_firmware p q) = 0"
  "mm (reset_firmware p q) = 0" "hh (reset_firmware p q) = 0" "g_result (reset_firmware p q) = 0"
  "g_i (reset_firmware p q) = 0" "value_1 (reset_firmware p q) = replicate 100 0"
  "value_2 (reset_firmware p q) = replicate 100 0"
  "RCC (reset_firmware p q) = reset_RCC" "TIM (reset_firmware p q) = (\<lambda>_. reset_TIM)"
  "GPIO (reset_firmware p q) = (\<lambda>_. reset_GPIO)" "USART (reset_firmware p q) = (\<lambda>_. reset_USART)"
  "SysTick (reset_firmware p q) = SysTick reset_mcu" "AFIO (reset_firmware p q) = AFIO reset_mcu"
  "NVIC (reset_firmware p q) = NVIC reset_mcu" "SCB (reset_firmware p q) = SCB reset_mcu"
  "FLASH (reset_firmware p q) = FLASH reset_mcu"
  by (simp_all add: reset_firmware_def mcu.extend_def reset_mcu_def)

text \<open>An access through a pointer leaves the globals alone.\<close>

lemma upd_TIM_globals [simp, reg_simps]:
  "SystemCoreClock (upd_TIM p f m) = SystemCoreClock m" "fac_us (upd_TIM p f m) = fac_us m"
  "fac_ms (upd_TIM p f m) = fac_ms m" "key_up (upd_TIM p f m) = key_up m"
  "USART_RX_BUF (upd_TIM p f m) = USART_RX_BUF m" "USART_RX_STA (upd_TIM p f m) = USART_RX_STA m"
  by (simp_all add: upd_TIM_def)

end
