(* ===== verification/Rcc.thy ===== *)
theory Rcc
  imports Stm32_Constants Interfaces "HOL-Library.Multiset"
begin

text \<open>
  Reset and clock control, \<open>STM32F10x_FWLib/src/stm32f10x_rcc.c\<close>, in the medium-density
  configuration (\<open>STM32F10X_MD\<close>) that \<open>CMakeLists.txt\<close> selects. First the operations in the
  order of the source, then the clock setters as fields of \<open>CFGR\<close>, the peripheral clocks as
  switches, and the frequency computation against a clock tree over natural numbers.
\<close>

section \<open>Operations\<close>

definition APBAHBPrescTable :: "u8 list" where
  "APBAHBPrescTable = [0, 0, 0, 0, 1, 2, 3, 4, 1, 2, 3, 4, 6, 7, 8, 9]"

definition ADCPrescTable :: "u8 list" where
  "ADCPrescTable = [2, 4, 6, 8]"

definition RCC_DeInit :: "'a mcu_scheme \<Rightarrow> 'a mcu_scheme" where
  "RCC_DeInit = upd_RCC (\<lambda>r.
     let r = r\<lparr>RCC_CR := RCC_CR r OR 0x00000001\<rparr>;
         r = r\<lparr>RCC_CFGR := RCC_CFGR r AND 0xF8FF0000\<rparr>;
         r = r\<lparr>RCC_CR := RCC_CR r AND 0xFEF6FFFF\<rparr>;
         r = r\<lparr>RCC_CR := RCC_CR r AND 0xFFFBFFFF\<rparr>;
         r = r\<lparr>RCC_CFGR := RCC_CFGR r AND 0xFF80FFFF\<rparr>
     in r\<lparr>RCC_CIR := 0x009F0000\<rparr>)"

definition RCC_HSEConfig :: "u32 \<Rightarrow> 'a mcu_scheme \<Rightarrow> 'a mcu_scheme" where
  "RCC_HSEConfig hse = upd_RCC (\<lambda>r.
     let r = r\<lparr>RCC_CR := RCC_CR r AND CR_HSEON_Reset\<rparr>;
         r = r\<lparr>RCC_CR := RCC_CR r AND CR_HSEBYP_Reset\<rparr>
     in if hse = RCC_HSE_ON then r\<lparr>RCC_CR := RCC_CR r OR CR_HSEON_Set\<rparr>
        else if hse = RCC_HSE_Bypass then r\<lparr>RCC_CR := RCC_CR r OR (CR_HSEBYP_Set OR CR_HSEON_Set)\<rparr>
        else r)"

definition RCC_GetFlagStatus :: "u8 \<Rightarrow> 'a mcu_scheme \<Rightarrow> FlagStatus" where
  "RCC_GetFlagStatus flag m =
     (let tmp = drop_bit 5 flag;
          statusreg = (if tmp = 1 then RCC_CR (RCC m)
                       else if tmp = 2 then RCC_BDCR (RCC m)
                       else RCC_CSR (RCC m));
          tmp = flag AND FLAG_Mask
      in if statusreg AND push_bit (unat tmp) 1 \<noteq> 0 then SET else RESET)"

text \<open>\<open>tick\<close>: what the hardware does between two reads of the status flag.\<close>

definition RCC_WaitForHSEStartUp ::
  "('a mcu_scheme \<Rightarrow> 'a mcu_scheme) \<Rightarrow> 'a mcu_scheme \<Rightarrow> ErrorStatus \<times> 'a mcu_scheme" where
  "RCC_WaitForHSEStartUp tick m =
     (let m = poll_count tick (\<lambda>m. RCC_GetFlagStatus RCC_FLAG_HSERDY m \<noteq> RESET)
                (ucast HSE_STARTUP_TIMEOUT) 0 m
      in (if RCC_GetFlagStatus RCC_FLAG_HSERDY m \<noteq> RESET then SUCCESS else ERROR, m))"

definition RCC_AdjustHSICalibrationValue :: "u8 \<Rightarrow> 'a mcu_scheme \<Rightarrow> 'a mcu_scheme" where
  "RCC_AdjustHSICalibrationValue v = upd_RCC (\<lambda>r.
     let tmpreg = RCC_CR r;
         tmpreg = tmpreg AND CR_HSITRIM_Mask;
         tmpreg = tmpreg OR push_bit 3 (ucast v)
     in r\<lparr>RCC_CR := tmpreg\<rparr>)"

definition RCC_HSICmd :: "FunctionalState \<Rightarrow> 'a mcu_scheme \<Rightarrow> 'a mcu_scheme" where
  "RCC_HSICmd st = upd_RCC (\<lambda>r. r\<lparr>RCC_CR := bitband_store HSION_BitNumber (state_u32 st) (RCC_CR r)\<rparr>)"

definition RCC_PLLConfig :: "u32 \<Rightarrow> u32 \<Rightarrow> 'a mcu_scheme \<Rightarrow> 'a mcu_scheme" where
  "RCC_PLLConfig source mul = upd_RCC (\<lambda>r.
     let tmpreg = RCC_CFGR r;
         tmpreg = tmpreg AND CFGR_PLL_Mask;
         tmpreg = tmpreg OR (source OR mul)
     in r\<lparr>RCC_CFGR := tmpreg\<rparr>)"

definition RCC_PLLCmd :: "FunctionalState \<Rightarrow> 'a mcu_scheme \<Rightarrow> 'a mcu_scheme" where
  "RCC_PLLCmd st = upd_RCC (\<lambda>r. r\<lparr>RCC_CR := bitband_store PLLON_BitNumber (state_u32 st) (RCC_CR r)\<rparr>)"

definition RCC_SYSCLKConfig :: "u32 \<Rightarrow> 'a mcu_scheme \<Rightarrow> 'a mcu_scheme" where
  "RCC_SYSCLKConfig source = upd_RCC (\<lambda>r.
     let tmpreg = RCC_CFGR r;
         tmpreg = tmpreg AND CFGR_SW_Mask;
         tmpreg = tmpreg OR source
     in r\<lparr>RCC_CFGR := tmpreg\<rparr>)"

definition RCC_GetSYSCLKSource :: "'a mcu_scheme \<Rightarrow> u8" where
  "RCC_GetSYSCLKSource m = ucast (RCC_CFGR (RCC m) AND CFGR_SWS_Mask)"

definition RCC_HCLKConfig :: "u32 \<Rightarrow> 'a mcu_scheme \<Rightarrow> 'a mcu_scheme" where
  "RCC_HCLKConfig sysclk = upd_RCC (\<lambda>r.
     let tmpreg = RCC_CFGR r;
         tmpreg = tmpreg AND CFGR_HPRE_Reset_Mask;
         tmpreg = tmpreg OR sysclk
     in r\<lparr>RCC_CFGR := tmpreg\<rparr>)"

definition RCC_PCLK1Config :: "u32 \<Rightarrow> 'a mcu_scheme \<Rightarrow> 'a mcu_scheme" where
  "RCC_PCLK1Config hclk = upd_RCC (\<lambda>r.
     let tmpreg = RCC_CFGR r;
         tmpreg = tmpreg AND CFGR_PPRE1_Reset_Mask;
         tmpreg = tmpreg OR hclk
     in r\<lparr>RCC_CFGR := tmpreg\<rparr>)"

definition RCC_PCLK2Config :: "u32 \<Rightarrow> 'a mcu_scheme \<Rightarrow> 'a mcu_scheme" where
  "RCC_PCLK2Config hclk = upd_RCC (\<lambda>r.
     let tmpreg = RCC_CFGR r;
         tmpreg = tmpreg AND CFGR_PPRE2_Reset_Mask;
         tmpreg = tmpreg OR push_bit 3 hclk
     in r\<lparr>RCC_CFGR := tmpreg\<rparr>)"

text \<open>\<open>CIR_BYTE2_ADDRESS\<close>, \<open>CIR_BYTE3_ADDRESS\<close>, \<open>CFGR_BYTE4_ADDRESS\<close> and
  \<open>BDCR_ADDRESS\<close> are byte lanes 1 and 2 of \<open>CIR\<close>, 3 of \<open>CFGR\<close> and 0 of \<open>BDCR\<close>.\<close>

definition RCC_ITConfig :: "u8 \<Rightarrow> FunctionalState \<Rightarrow> 'a mcu_scheme \<Rightarrow> 'a mcu_scheme" where
  "RCC_ITConfig it st = upd_RCC (\<lambda>r.
     if st \<noteq> DISABLE
     then r\<lparr>RCC_CIR := byte_store 1 (byte_load 1 (RCC_CIR r) OR it) (RCC_CIR r)\<rparr>
     else r\<lparr>RCC_CIR := byte_store 1 (byte_load 1 (RCC_CIR r) AND NOT it) (RCC_CIR r)\<rparr>)"

definition RCC_USBCLKConfig :: "u32 \<Rightarrow> 'a mcu_scheme \<Rightarrow> 'a mcu_scheme" where
  "RCC_USBCLKConfig source = upd_RCC (\<lambda>r.
     r\<lparr>RCC_CFGR := bitband_store USBPRE_BitNumber source (RCC_CFGR r)\<rparr>)"

definition RCC_ADCCLKConfig :: "u32 \<Rightarrow> 'a mcu_scheme \<Rightarrow> 'a mcu_scheme" where
  "RCC_ADCCLKConfig pclk2 = upd_RCC (\<lambda>r.
     let tmpreg = RCC_CFGR r;
         tmpreg = tmpreg AND CFGR_ADCPRE_Reset_Mask;
         tmpreg = tmpreg OR pclk2
     in r\<lparr>RCC_CFGR := tmpreg\<rparr>)"

definition RCC_LSEConfig :: "u8 \<Rightarrow> 'a mcu_scheme \<Rightarrow> 'a mcu_scheme" where
  "RCC_LSEConfig lse = upd_RCC (\<lambda>r.
     let r = r\<lparr>RCC_BDCR := byte_store 0 RCC_LSE_OFF (RCC_BDCR r)\<rparr>;
         r = r\<lparr>RCC_BDCR := byte_store 0 RCC_LSE_OFF (RCC_BDCR r)\<rparr>
     in if lse = RCC_LSE_ON then r\<lparr>RCC_BDCR := byte_store 0 RCC_LSE_ON (RCC_BDCR r)\<rparr>
        else if lse = RCC_LSE_Bypass
          then r\<lparr>RCC_BDCR := byte_store 0 (RCC_LSE_Bypass OR RCC_LSE_ON) (RCC_BDCR r)\<rparr>
        else r)"

definition RCC_LSICmd :: "FunctionalState \<Rightarrow> 'a mcu_scheme \<Rightarrow> 'a mcu_scheme" where
  "RCC_LSICmd st = upd_RCC (\<lambda>r. r\<lparr>RCC_CSR := bitband_store LSION_BitNumber (state_u32 st) (RCC_CSR r)\<rparr>)"

definition RCC_RTCCLKConfig :: "u32 \<Rightarrow> 'a mcu_scheme \<Rightarrow> 'a mcu_scheme" where
  "RCC_RTCCLKConfig source = upd_RCC (\<lambda>r. r\<lparr>RCC_BDCR := RCC_BDCR r OR source\<rparr>)"

definition RCC_RTCCLKCmd :: "FunctionalState \<Rightarrow> 'a mcu_scheme \<Rightarrow> 'a mcu_scheme" where
  "RCC_RTCCLKCmd st = upd_RCC (\<lambda>r. r\<lparr>RCC_BDCR := bitband_store RTCEN_BitNumber (state_u32 st) (RCC_BDCR r)\<rparr>)"

record RCC_ClocksTypeDef =
  SYSCLK_Frequency :: u32
  HCLK_Frequency :: u32
  PCLK1_Frequency :: u32
  PCLK2_Frequency :: u32
  ADCCLK_Frequency :: u32

definition RCC_GetClocksFreq :: "'a mcu_scheme \<Rightarrow> RCC_ClocksTypeDef" where
  "RCC_GetClocksFreq m =
     (let cfgr = RCC_CFGR (RCC m);
          tmp = cfgr AND CFGR_SWS_Mask;
          sysclk =
            (if tmp = 0x00 then HSI_VALUE
             else if tmp = 0x04 then HSE_VALUE
             else if tmp = 0x08 then
               (let pllmull = cfgr AND CFGR_PLLMull_Mask;
                    pllsource = cfgr AND CFGR_PLLSRC_Mask;
                    pllmull = drop_bit 18 pllmull + 2
                in if pllsource = 0x00 then drop_bit 1 HSI_VALUE * pllmull
                   else if cfgr AND CFGR_PLLXTPRE_Mask \<noteq> 0 then drop_bit 1 HSE_VALUE * pllmull
                   else HSE_VALUE * pllmull)
             else HSI_VALUE);
          tmp = cfgr AND CFGR_HPRE_Set_Mask;
          tmp = drop_bit 4 tmp;
          presc = APBAHBPrescTable ! unat tmp;
          hclk = drop_bit (unat presc) sysclk;
          tmp = cfgr AND CFGR_PPRE1_Set_Mask;
          tmp = drop_bit 8 tmp;
          presc = APBAHBPrescTable ! unat tmp;
          pclk1 = drop_bit (unat presc) hclk;
          tmp = cfgr AND CFGR_PPRE2_Set_Mask;
          tmp = drop_bit 11 tmp;
          presc = APBAHBPrescTable ! unat tmp;
          pclk2 = drop_bit (unat presc) hclk;
          tmp = cfgr AND CFGR_ADCPRE_Set_Mask;
          tmp = drop_bit 14 tmp;
          presc = ADCPrescTable ! unat tmp
      in \<lparr>SYSCLK_Frequency = sysclk, HCLK_Frequency = hclk, PCLK1_Frequency = pclk1,
          PCLK2_Frequency = pclk2, ADCCLK_Frequency = pclk2 div ucast presc\<rparr>)"

definition RCC_AHBPeriphClockCmd :: "u32 \<Rightarrow> FunctionalState \<Rightarrow> 'a mcu_scheme \<Rightarrow> 'a mcu_scheme" where
  "RCC_AHBPeriphClockCmd periph st = upd_RCC (\<lambda>r.
     if st \<noteq> DISABLE then r\<lparr>RCC_AHBENR := RCC_AHBENR r OR periph\<rparr>
     else r\<lparr>RCC_AHBENR := RCC_AHBENR r AND NOT periph\<rparr>)"

definition RCC_APB2PeriphClockCmd :: "u32 \<Rightarrow> FunctionalState \<Rightarrow> 'a mcu_scheme \<Rightarrow> 'a mcu_scheme" where
  "RCC_APB2PeriphClockCmd periph st = upd_RCC (\<lambda>r.
     if st \<noteq> DISABLE then r\<lparr>RCC_APB2ENR := RCC_APB2ENR r OR periph\<rparr>
     else r\<lparr>RCC_APB2ENR := RCC_APB2ENR r AND NOT periph\<rparr>)"

definition RCC_APB1PeriphClockCmd :: "u32 \<Rightarrow> FunctionalState \<Rightarrow> 'a mcu_scheme \<Rightarrow> 'a mcu_scheme" where
  "RCC_APB1PeriphClockCmd periph st = upd_RCC (\<lambda>r.
     if st \<noteq> DISABLE then r\<lparr>RCC_APB1ENR := RCC_APB1ENR r OR periph\<rparr>
     else r\<lparr>RCC_APB1ENR := RCC_APB1ENR r AND NOT periph\<rparr>)"

definition RCC_APB2PeriphResetCmd :: "u32 \<Rightarrow> FunctionalState \<Rightarrow> 'a mcu_scheme \<Rightarrow> 'a mcu_scheme" where
  "RCC_APB2PeriphResetCmd periph st = upd_RCC (\<lambda>r.
     let v = (if st \<noteq> DISABLE then RCC_APB2RSTR r OR periph else RCC_APB2RSTR r AND NOT periph)
     in r\<lparr>RCC_APB2RSTR := v, RCC_reset_stores := RCC_reset_stores r @ [APB2RSTR_store v]\<rparr>)"

definition RCC_APB1PeriphResetCmd :: "u32 \<Rightarrow> FunctionalState \<Rightarrow> 'a mcu_scheme \<Rightarrow> 'a mcu_scheme" where
  "RCC_APB1PeriphResetCmd periph st = upd_RCC (\<lambda>r.
     let v = (if st \<noteq> DISABLE then RCC_APB1RSTR r OR periph else RCC_APB1RSTR r AND NOT periph)
     in r\<lparr>RCC_APB1RSTR := v, RCC_reset_stores := RCC_reset_stores r @ [APB1RSTR_store v]\<rparr>)"

definition RCC_BackupResetCmd :: "FunctionalState \<Rightarrow> 'a mcu_scheme \<Rightarrow> 'a mcu_scheme" where
  "RCC_BackupResetCmd st = upd_RCC (\<lambda>r. r\<lparr>RCC_BDCR := bitband_store BDRST_BitNumber (state_u32 st) (RCC_BDCR r)\<rparr>)"

definition RCC_ClockSecuritySystemCmd :: "FunctionalState \<Rightarrow> 'a mcu_scheme \<Rightarrow> 'a mcu_scheme" where
  "RCC_ClockSecuritySystemCmd st = upd_RCC (\<lambda>r. r\<lparr>RCC_CR := bitband_store CSSON_BitNumber (state_u32 st) (RCC_CR r)\<rparr>)"

definition RCC_MCOConfig :: "u8 \<Rightarrow> 'a mcu_scheme \<Rightarrow> 'a mcu_scheme" where
  "RCC_MCOConfig mco = upd_RCC (\<lambda>r. r\<lparr>RCC_CFGR := byte_store 3 mco (RCC_CFGR r)\<rparr>)"

definition RCC_ClearFlag :: "'a mcu_scheme \<Rightarrow> 'a mcu_scheme" where
  "RCC_ClearFlag = upd_RCC (\<lambda>r. r\<lparr>RCC_CSR := RCC_CSR r OR CSR_RMVF_Set\<rparr>)"

definition RCC_GetITStatus :: "u8 \<Rightarrow> 'a mcu_scheme \<Rightarrow> FlagStatus" where
  "RCC_GetITStatus it m = (if RCC_CIR (RCC m) AND ucast it \<noteq> 0 then SET else RESET)"

definition RCC_ClearITPendingBit :: "u8 \<Rightarrow> 'a mcu_scheme \<Rightarrow> 'a mcu_scheme" where
  "RCC_ClearITPendingBit it = upd_RCC (\<lambda>r. r\<lparr>RCC_CIR := byte_store 2 it (RCC_CIR r)\<rparr>)"

section \<open>Bit-band switches\<close>

lemma bit_bitband_store:
  "n < 32 \<Longrightarrow> bit (bitband_store n v r) k \<longleftrightarrow> (if k = n then bit v 0 else bit r k)"
  by (auto simp: bitband_store_def bit_set_bit_iff bit_unset_bit_iff)

lemma bit_state_u32: "bit (state_u32 st) 0 \<longleftrightarrow> st = ENABLE"
  by (cases st) simp_all

lemmas bitband_switch = bit_bitband_store bit_state_u32

text \<open>The registers of the block, each at its place in the state.\<close>

interpretation rcc_cr: register "\<lambda>m. RCC_CR (RCC m)" "\<lambda>v. upd_RCC (\<lambda>r. r\<lparr>RCC_CR := v\<rparr>)"
  by unfold_locales (simp_all add: upd_RCC_def)

interpretation rcc_cfgr: register "\<lambda>m. RCC_CFGR (RCC m)" "\<lambda>v. upd_RCC (\<lambda>r. r\<lparr>RCC_CFGR := v\<rparr>)"
  by unfold_locales (simp_all add: upd_RCC_def)

interpretation rcc_bdcr: register "\<lambda>m. RCC_BDCR (RCC m)" "\<lambda>v. upd_RCC (\<lambda>r. r\<lparr>RCC_BDCR := v\<rparr>)"
  by unfold_locales (simp_all add: upd_RCC_def)

interpretation rcc_csr: register "\<lambda>m. RCC_CSR (RCC m)" "\<lambda>v. upd_RCC (\<lambda>r. r\<lparr>RCC_CSR := v\<rparr>)"
  by unfold_locales (simp_all add: upd_RCC_def)

text \<open>\<open>RCC_HSICmd\<close>, \<open>RCC_PLLCmd\<close>, \<open>RCC_ClockSecuritySystemCmd\<close>, \<open>RCC_LSICmd\<close>,
  \<open>RCC_RTCCLKCmd\<close> and \<open>RCC_BackupResetCmd\<close> each switch one bit.\<close>

interpretation hsi: enable_switch RCC_HSICmd "\<lambda>m. bit (RCC_CR (RCC m)) 0"
  "\<lambda>m. upd_RCC (\<lambda>r. r\<lparr>RCC_CR := unset_bit 0 (RCC_CR (RCC m))\<rparr>) m"
  by (rule rcc_cr.switchI [where upd = "\<lambda>st. bitband_store 0 (state_u32 st)"])
    (simp_all add: RCC_HSICmd_def upd_RCC_def bitband_switch)

interpretation pll: enable_switch RCC_PLLCmd "\<lambda>m. bit (RCC_CR (RCC m)) 24"
  "\<lambda>m. upd_RCC (\<lambda>r. r\<lparr>RCC_CR := unset_bit 24 (RCC_CR (RCC m))\<rparr>) m"
  by (rule rcc_cr.switchI [where upd = "\<lambda>st. bitband_store 24 (state_u32 st)"])
    (simp_all add: RCC_PLLCmd_def upd_RCC_def bitband_switch)

interpretation css: enable_switch RCC_ClockSecuritySystemCmd "\<lambda>m. bit (RCC_CR (RCC m)) 19"
  "\<lambda>m. upd_RCC (\<lambda>r. r\<lparr>RCC_CR := unset_bit 19 (RCC_CR (RCC m))\<rparr>) m"
  by (rule rcc_cr.switchI [where upd = "\<lambda>st. bitband_store 19 (state_u32 st)"])
    (simp_all add: RCC_ClockSecuritySystemCmd_def upd_RCC_def bitband_switch)

interpretation lsi: enable_switch RCC_LSICmd "\<lambda>m. bit (RCC_CSR (RCC m)) 0"
  "\<lambda>m. upd_RCC (\<lambda>r. r\<lparr>RCC_CSR := unset_bit 0 (RCC_CSR (RCC m))\<rparr>) m"
  by (rule rcc_csr.switchI [where upd = "\<lambda>st. bitband_store 0 (state_u32 st)"])
    (simp_all add: RCC_LSICmd_def upd_RCC_def bitband_switch)

interpretation rtcclk: enable_switch RCC_RTCCLKCmd "\<lambda>m. bit (RCC_BDCR (RCC m)) 15"
  "\<lambda>m. upd_RCC (\<lambda>r. r\<lparr>RCC_BDCR := unset_bit 15 (RCC_BDCR (RCC m))\<rparr>) m"
  by (rule rcc_bdcr.switchI [where upd = "\<lambda>st. bitband_store 15 (state_u32 st)"])
    (simp_all add: RCC_RTCCLKCmd_def upd_RCC_def bitband_switch)

interpretation bdrst: enable_switch RCC_BackupResetCmd "\<lambda>m. bit (RCC_BDCR (RCC m)) 16"
  "\<lambda>m. upd_RCC (\<lambda>r. r\<lparr>RCC_BDCR := unset_bit 16 (RCC_BDCR (RCC m))\<rparr>) m"
  by (rule rcc_bdcr.switchI [where upd = "\<lambda>st. bitband_store 16 (state_u32 st)"])
    (simp_all add: RCC_BackupResetCmd_def upd_RCC_def bitband_switch)

section \<open>The clock setters are fields of \<open>CFGR\<close>\<close>

text \<open>Each setter is a masked update of \<open>CFGR\<close>; PCLK2 shifts its argument into place.\<close>

lemmas cfgr_masks =
  masked_update [of CFGR_SW_Mask "0x3"] masked_update [of CFGR_HPRE_Reset_Mask "0xF0"]
  masked_update [of CFGR_PPRE1_Reset_Mask "0x700"] masked_update [of CFGR_PPRE2_Reset_Mask "0x3800"]
  masked_update [of CFGR_ADCPRE_Reset_Mask "0xC000"] masked_update [of CFGR_PLL_Mask "0x3F0000"]

lemma cfgr_setters:
  "RCC_SYSCLKConfig v m = upd_RCC (\<lambda>r. r\<lparr>RCC_CFGR := field_put 0x3 v (RCC_CFGR (RCC m))\<rparr>) m"
  "RCC_HCLKConfig v m = upd_RCC (\<lambda>r. r\<lparr>RCC_CFGR := field_put 0xF0 v (RCC_CFGR (RCC m))\<rparr>) m"
  "RCC_PCLK1Config v m = upd_RCC (\<lambda>r. r\<lparr>RCC_CFGR := field_put 0x700 v (RCC_CFGR (RCC m))\<rparr>) m"
  "RCC_PCLK2Config v m =
     upd_RCC (\<lambda>r. r\<lparr>RCC_CFGR := field_put 0x3800 (push_bit 3 v) (RCC_CFGR (RCC m))\<rparr>) m"
  "RCC_ADCCLKConfig v m = upd_RCC (\<lambda>r. r\<lparr>RCC_CFGR := field_put 0xC000 v (RCC_CFGR (RCC m))\<rparr>) m"
  "RCC_PLLConfig v w m =
     upd_RCC (\<lambda>r. r\<lparr>RCC_CFGR := field_put 0x3F0000 (v OR w) (RCC_CFGR (RCC m))\<rparr>) m"
  by (simp_all add: RCC_SYSCLKConfig_def RCC_HCLKConfig_def RCC_PCLK1Config_def
      RCC_PCLK2Config_def RCC_ADCCLKConfig_def RCC_PLLConfig_def upd_RCC_def cfgr_masks Let_def)

interpretation sw: reg_field "\<lambda>m. RCC_CFGR (RCC m) AND 0x3" RCC_SYSCLKConfig
  "\<lambda>v. v AND NOT 0x3 = 0" "\<lambda>m. upd_RCC (\<lambda>r. r\<lparr>RCC_CFGR := RCC_CFGR (RCC m) AND NOT 0x3\<rparr>) m"
  by (rule rcc_cfgr.fieldI [where enc = "\<lambda>v. v" and dec = "\<lambda>v. v"]) (simp_all add: cfgr_setters)

interpretation hpre: reg_field "\<lambda>m. RCC_CFGR (RCC m) AND 0xF0" RCC_HCLKConfig
  "\<lambda>v. v AND NOT 0xF0 = 0" "\<lambda>m. upd_RCC (\<lambda>r. r\<lparr>RCC_CFGR := RCC_CFGR (RCC m) AND NOT 0xF0\<rparr>) m"
  by (rule rcc_cfgr.fieldI [where enc = "\<lambda>v. v" and dec = "\<lambda>v. v"]) (simp_all add: cfgr_setters)

interpretation ppre1: reg_field "\<lambda>m. RCC_CFGR (RCC m) AND 0x700" RCC_PCLK1Config
  "\<lambda>v. v AND NOT 0x700 = 0" "\<lambda>m. upd_RCC (\<lambda>r. r\<lparr>RCC_CFGR := RCC_CFGR (RCC m) AND NOT 0x700\<rparr>) m"
  by (rule rcc_cfgr.fieldI [where enc = "\<lambda>v. v" and dec = "\<lambda>v. v"]) (simp_all add: cfgr_setters)

interpretation adcpre: reg_field "\<lambda>m. RCC_CFGR (RCC m) AND 0xC000" RCC_ADCCLKConfig
  "\<lambda>v. v AND NOT 0xC000 = 0" "\<lambda>m. upd_RCC (\<lambda>r. r\<lparr>RCC_CFGR := RCC_CFGR (RCC m) AND NOT 0xC000\<rparr>) m"
  by (rule rcc_cfgr.fieldI [where enc = "\<lambda>v. v" and dec = "\<lambda>v. v"]) (simp_all add: cfgr_setters)

text \<open>The source of the system clock and the AHB prescaler do not interfere.\<close>

interpretation sw_hpre: field_pair
  "\<lambda>m. RCC_CFGR (RCC m) AND 0x3" RCC_SYSCLKConfig
  "\<lambda>v. v AND NOT 0x3 = 0" "\<lambda>m. upd_RCC (\<lambda>r. r\<lparr>RCC_CFGR := RCC_CFGR (RCC m) AND NOT 0x3\<rparr>) m"
  "\<lambda>m. RCC_CFGR (RCC m) AND 0xF0" RCC_HCLKConfig
  "\<lambda>v. v AND NOT 0xF0 = 0" "\<lambda>m. upd_RCC (\<lambda>r. r\<lparr>RCC_CFGR := RCC_CFGR (RCC m) AND NOT 0xF0\<rparr>) m"
  by (rule rcc_cfgr.pairI [where encf = "\<lambda>v. v" and encg = "\<lambda>v. v" and M = "0x3" and K = "0xF0",
        OF _ _ _ _ _ sw.reg_field_axioms hpre.reg_field_axioms]) (simp_all add: cfgr_setters)

lemma ppre2_shift:
  fixes v :: u32
  shows "v AND NOT 0x700 = 0 \<Longrightarrow> push_bit 3 v AND NOT 0x3800 = 0"
    and "v AND NOT 0x700 = 0 \<Longrightarrow> drop_bit 3 (push_bit 3 v) = v"
    and "drop_bit 3 (a AND 0x3800) = drop_bit 3 (b AND (0x3800 :: u32)) \<Longrightarrow>
      a AND 0x3800 = b AND 0x3800"
  by (simp_all add: bits32 bit_simps)

interpretation ppre2: reg_field "\<lambda>m. drop_bit 3 (RCC_CFGR (RCC m) AND 0x3800)" RCC_PCLK2Config
  "\<lambda>v. v AND NOT 0x700 = 0" "\<lambda>m. upd_RCC (\<lambda>r. r\<lparr>RCC_CFGR := RCC_CFGR (RCC m) AND NOT 0x3800\<rparr>) m"
  by (rule rcc_cfgr.fieldI [where enc = "push_bit 3" and dec = "drop_bit 3"])
    (fact cfgr_setters ppre2_shift)+

section \<open>Properties of the operations\<close>

section \<open>The clock tree\<close>

text \<open>
  What the reference manual says of the prescalers: the divisor that a code selects, and the
  frequencies in hertz as natural numbers.
\<close>

definition hpre_divisor :: "nat \<Rightarrow> nat" where
  "hpre_divisor c = (if c < 8 then 1 else [2, 4, 8, 16, 64, 128, 256, 512] ! (c - 8))"

definition ppre_divisor :: "nat \<Rightarrow> nat" where
  "ppre_divisor c = (if c < 4 then 1 else [2, 4, 8, 16] ! (c - 4))"

definition adcpre_divisor :: "nat \<Rightarrow> nat" where
  "adcpre_divisor c = 2 * (c + 1)"

definition sysclk_hz :: "u32 \<Rightarrow> nat" where
  "sysclk_hz cfgr =
     (let sws = unat (drop_bit 2 (cfgr AND 0xC)); mul = unat (drop_bit 18 (cfgr AND 0x3C0000)) + 2
      in if sws = 1 then 8000000
         else if sws = 2 then
           (if \<not> bit cfgr 16 \<or> bit cfgr 17 then 4000000 else 8000000) * mul
         else 8000000)"

definition hclk_hz :: "u32 \<Rightarrow> nat" where
  "hclk_hz cfgr = sysclk_hz cfgr div hpre_divisor (unat (drop_bit 4 (cfgr AND 0xF0)))"

definition pclk1_hz :: "u32 \<Rightarrow> nat" where
  "pclk1_hz cfgr = hclk_hz cfgr div ppre_divisor (unat (drop_bit 8 (cfgr AND 0x700)))"

definition pclk2_hz :: "u32 \<Rightarrow> nat" where
  "pclk2_hz cfgr = hclk_hz cfgr div ppre_divisor (unat (drop_bit 11 (cfgr AND 0x3800)))"

definition adcclk_hz :: "u32 \<Rightarrow> nat" where
  "adcclk_hz cfgr = pclk2_hz cfgr div adcpre_divisor (unat (drop_bit 14 (cfgr AND 0xC000)))"

lemma cfgr_codes:
  fixes cfgr :: u32
  shows "unat (drop_bit 4 (cfgr AND 0xF0)) < 16" "unat (drop_bit 8 (cfgr AND 0x700)) < 8"
    "unat (drop_bit 11 (cfgr AND 0x3800)) < 8" "unat (drop_bit 14 (cfgr AND 0xC000)) < 4"
    "unat (drop_bit 2 (cfgr AND 0xC)) < 4" "unat (drop_bit 18 (cfgr AND 0x3C0000)) < 16"
proof -
  have k: "unat (drop_bit n (cfgr AND m)) < 2 ^ k" if "drop_bit n m = mask k" for n k and m :: u32
  proof -
    have "drop_bit n (cfgr AND m) = take_bit k (drop_bit n cfgr)"
      using that by (simp add: take_bit_eq_mask)
    then show ?thesis by (simp add: unsigned_take_bit_eq)
  qed
  show "unat (drop_bit 4 (cfgr AND 0xF0)) < 16" using k [of 4 "0xF0" 4] by (simp add: mask_numeral)
  show "unat (drop_bit 8 (cfgr AND 0x700)) < 8" using k [of 8 "0x700" 3] by (simp add: mask_numeral)
  show "unat (drop_bit 11 (cfgr AND 0x3800)) < 8" using k [of 11 "0x3800" 3] by (simp add: mask_numeral)
  show "unat (drop_bit 14 (cfgr AND 0xC000)) < 4" using k [of 14 "0xC000" 2] by (simp add: mask_numeral)
  show "unat (drop_bit 2 (cfgr AND 0xC)) < 4" using k [of 2 "0xC" 2] by (simp add: mask_numeral)
  show "unat (drop_bit 18 (cfgr AND 0x3C0000)) < 16" using k [of 18 "0x3C0000" 4] by (simp add: mask_numeral)
qed

lemma prescaler_tables:
  "\<forall>c < 16. c < 4 \<or> 8 \<le> c \<longrightarrow> 2 ^ unat (APBAHBPrescTable ! c) = hpre_divisor c"
  "\<forall>c < 8. 2 ^ unat (APBAHBPrescTable ! c) = ppre_divisor c"
  "\<forall>c < 4. unat (ADCPrescTable ! c) = adcpre_divisor c"
  by (simp_all add: APBAHBPrescTable_def ADCPrescTable_def hpre_divisor_def ppre_divisor_def
      adcpre_divisor_def all_less_16 all_less_8 all_less_4)

lemma prescaler_table_wrong:
  "\<forall>c < 8. 4 \<le> c \<longrightarrow> 0 < unat (APBAHBPrescTable ! c)"
  by (simp add: APBAHBPrescTable_def all_less_8)

text \<open>The frequency of the system clock, before the prescalers.\<close>

lemma pll_product:
  fixes v :: u32 and w :: u32
  assumes "unat v \<le> 8000000" and "unat w < 16"
  shows "unat (v * (w + 2)) = unat v * (unat w + 2)"
proof -
  have w2: "unat (w + 2) = unat w + 2"
    using assms(2) by (simp add: unat_word_ariths)
  have "unat v * (unat w + 2) \<le> 8000000 * 18"
    using assms by (intro mult_mono) auto
  then show ?thesis using w2 by (simp add: unat_word_ariths)
qed

lemma sysclk_source:
  "(cfgr AND 0xC = 0) \<longleftrightarrow> unat (drop_bit 2 (cfgr AND 0xC)) = 0"
  "(cfgr AND 0xC = 0x4) \<longleftrightarrow> unat (drop_bit 2 (cfgr AND 0xC)) = 1"
  "(cfgr AND 0xC = 0x8) \<longleftrightarrow> unat (drop_bit 2 (cfgr AND 0xC)) = 2"
  "(cfgr AND 0x10000 = 0) \<longleftrightarrow> \<not> bit cfgr 16" "(cfgr AND 0x20000 = 0) \<longleftrightarrow> \<not> bit cfgr 17"
  for cfgr :: u32
proof -
  have u: "unat x = 0 \<longleftrightarrow> x = 0" "unat x = 1 \<longleftrightarrow> x = 1" "unat x = 2 \<longleftrightarrow> x = 2" for x :: u32
    by (auto simp: word_unat_eq_iff)
  show "(cfgr AND 0xC = 0) \<longleftrightarrow> unat (drop_bit 2 (cfgr AND 0xC)) = 0"
    "(cfgr AND 0xC = 0x4) \<longleftrightarrow> unat (drop_bit 2 (cfgr AND 0xC)) = 1"
    "(cfgr AND 0xC = 0x8) \<longleftrightarrow> unat (drop_bit 2 (cfgr AND 0xC)) = 2"
    unfolding u by (simp_all add: bits32 bit_simps numeral_2_eq_2 numeral_3_eq_3)
  show "(cfgr AND 0x10000 = 0) \<longleftrightarrow> \<not> bit cfgr 16" "(cfgr AND 0x20000 = 0) \<longleftrightarrow> \<not> bit cfgr 17"
    by (simp_all add: bits32 bit_simps)
qed

lemma sysclk_hz_word:
  "unat (if cfgr AND 0xC = 0x00 then HSI_VALUE
         else if cfgr AND 0xC = 0x04 then HSE_VALUE
         else if cfgr AND 0xC = 0x08 then
           (if cfgr AND 0x10000 = 0 then drop_bit 1 HSI_VALUE * (drop_bit 18 (cfgr AND 0x3C0000) + 2)
            else if cfgr AND 0x20000 \<noteq> 0 then drop_bit 1 HSE_VALUE * (drop_bit 18 (cfgr AND 0x3C0000) + 2)
            else HSE_VALUE * (drop_bit 18 (cfgr AND 0x3C0000) + 2))
         else HSI_VALUE) = sysclk_hz cfgr"
  using cfgr_codes(6) [of cfgr]
  by (simp add: sysclk_source sysclk_hz_def Let_def pll_product
      del: distrib_left_numeral distrib_right_numeral)

lemma clock_tree_freqs:
  assumes "unat (drop_bit 4 (RCC_CFGR (RCC m) AND 0xF0)) \<notin> {4..7}"
  shows "unat (SYSCLK_Frequency (RCC_GetClocksFreq m)) = sysclk_hz (RCC_CFGR (RCC m)) \<and>
    unat (HCLK_Frequency (RCC_GetClocksFreq m)) = hclk_hz (RCC_CFGR (RCC m)) \<and>
    unat (PCLK1_Frequency (RCC_GetClocksFreq m)) = pclk1_hz (RCC_CFGR (RCC m)) \<and>
    unat (PCLK2_Frequency (RCC_GetClocksFreq m)) = pclk2_hz (RCC_CFGR (RCC m)) \<and>
    unat (ADCCLK_Frequency (RCC_GetClocksFreq m)) = adcclk_hz (RCC_CFGR (RCC m))"
proof -
  let ?c = "RCC_CFGR (RCC m)"
  note codes = cfgr_codes [of ?c]
  have h: "2 ^ unat (APBAHBPrescTable ! unat (drop_bit 4 (?c AND 0xF0))) =
      hpre_divisor (unat (drop_bit 4 (?c AND 0xF0)))"
    using prescaler_tables(1) codes(1) assms by fastforce
  have p1: "2 ^ unat (APBAHBPrescTable ! unat (drop_bit 8 (?c AND 0x700))) =
      ppre_divisor (unat (drop_bit 8 (?c AND 0x700)))"
    using prescaler_tables(2) codes(2) by blast
  have p2: "2 ^ unat (APBAHBPrescTable ! unat (drop_bit 11 (?c AND 0x3800))) =
      ppre_divisor (unat (drop_bit 11 (?c AND 0x3800)))"
    using prescaler_tables(2) codes(3) by blast
  have a: "unat (ADCPrescTable ! unat (drop_bit 14 (?c AND 0xC000))) =
      adcpre_divisor (unat (drop_bit 14 (?c AND 0xC000)))"
    using prescaler_tables(3) codes(4) by blast
  have a32: "unat (ucast (ADCPrescTable ! unat (drop_bit 14 (?c AND 0xC000))) :: u32) =
      adcpre_divisor (unat (drop_bit 14 (?c AND 0xC000)))"
    by (rule trans [OF unat_ucast_up a]) simp
  note h = h [unfolded unat_drop] and p1 = p1 [unfolded unat_drop] and p2 = p2 [unfolded unat_drop]
    and a32 = a32 [unfolded unat_drop]
  have "unat (SYSCLK_Frequency (RCC_GetClocksFreq m)) = sysclk_hz ?c"
    unfolding RCC_GetClocksFreq_def Let_def RCC_ClocksTypeDef.simps by (rule sysclk_hz_word)
  moreover have "unat (HCLK_Frequency (RCC_GetClocksFreq m)) = hclk_hz ?c"
    unfolding RCC_GetClocksFreq_def Let_def RCC_ClocksTypeDef.simps unat_drop sysclk_hz_word hclk_hz_def h ..
  moreover have "unat (PCLK1_Frequency (RCC_GetClocksFreq m)) = pclk1_hz ?c"
    unfolding RCC_GetClocksFreq_def Let_def RCC_ClocksTypeDef.simps unat_drop sysclk_hz_word
      pclk1_hz_def hclk_hz_def h p1 ..
  moreover have "unat (PCLK2_Frequency (RCC_GetClocksFreq m)) = pclk2_hz ?c"
    unfolding RCC_GetClocksFreq_def Let_def RCC_ClocksTypeDef.simps unat_drop sysclk_hz_word
      pclk2_hz_def hclk_hz_def h p2 ..
  moreover have "unat (ADCCLK_Frequency (RCC_GetClocksFreq m)) = adcclk_hz ?c"
    unfolding RCC_GetClocksFreq_def Let_def RCC_ClocksTypeDef.simps unat_div unat_drop sysclk_hz_word
      adcclk_hz_def pclk2_hz_def hclk_hz_def h p2 a32 ..
  ultimately show ?thesis by blast
qed

text \<open>
  \<open>RCC_GetClocksFreq\<close> computes the clock tree of the reference manual, for every content of
  the configuration register whose AHB prescaler code is not one of 4 to 7: no step wraps or
  rounds differently.
\<close>

theorem clocks_freq_tree:
  assumes "unat (drop_bit 4 (RCC_CFGR (RCC m) AND 0xF0)) \<notin> {4..7}"
  shows "unat (SYSCLK_Frequency (RCC_GetClocksFreq m)) = sysclk_hz (RCC_CFGR (RCC m)) \<and>
    unat (HCLK_Frequency (RCC_GetClocksFreq m)) = hclk_hz (RCC_CFGR (RCC m)) \<and>
    unat (PCLK1_Frequency (RCC_GetClocksFreq m)) = pclk1_hz (RCC_CFGR (RCC m)) \<and>
    unat (PCLK2_Frequency (RCC_GetClocksFreq m)) = pclk2_hz (RCC_CFGR (RCC m)) \<and>
    unat (ADCCLK_Frequency (RCC_GetClocksFreq m)) = adcclk_hz (RCC_CFGR (RCC m))"
  by (rule clock_tree_freqs [OF assms])

lemma clocks_freq_tree_witness:
  "unat (SYSCLK_Frequency (RCC_GetClocksFreq reset_mcu)) = 8000000"
  using clocks_freq_tree [of reset_mcu] by (simp add: reset_defs sysclk_hz_def)

lemma sysclk_hz_pos: "0 < sysclk_hz cfgr"
  by (simp add: sysclk_hz_def Let_def)

text \<open>
  The AHB frequency that \<open>RCC_GetClocksFreq\<close> reports is the real one exactly when the
  AHB prescaler code is not one of 4 to 7: those codes do not divide, and the table shared with
  the APB prescalers divides by 2 to 16.
\<close>

theorem hclk_right_iff:
  "unat (HCLK_Frequency (RCC_GetClocksFreq m)) = hclk_hz (RCC_CFGR (RCC m)) \<longleftrightarrow>
     unat (drop_bit 4 (RCC_CFGR (RCC m) AND 0xF0)) \<notin> {4..7}"
proof (cases "unat (drop_bit 4 (RCC_CFGR (RCC m) AND 0xF0)) \<in> {4..7}")
  case True
  let ?c = "RCC_CFGR (RCC m)" and ?h = "unat (drop_bit 4 (RCC_CFGR (RCC m) AND 0xF0))"
  from True have h: "4 \<le> ?h" "?h < 8" by auto
  let ?k = "unat (APBAHBPrescTable ! ?h)"
  have k: "0 < ?k" using prescaler_table_wrong h by blast
  have f: "unat (HCLK_Frequency (RCC_GetClocksFreq m)) = sysclk_hz ?c div 2 ^ ?k"
    unfolding RCC_GetClocksFreq_def Let_def RCC_ClocksTypeDef.simps unat_drop sysclk_hz_word ..
  have "sysclk_hz ?c div 2 ^ ?k < sysclk_hz ?c"
    by (rule div_less_dividend [OF one_less_power [OF _ k] sysclk_hz_pos]) simp
  moreover have "hclk_hz ?c = sysclk_hz ?c" using h by (simp add: hclk_hz_def hpre_divisor_def)
  ultimately show ?thesis using True f by simp
next
  case False
  then show ?thesis using clock_tree_freqs by blast
qed

section \<open>The order of the clock settings\<close>

text \<open>A setting of the clock tree: which setter, with which argument.\<close>

datatype clock_setting = Sysclk u32 | Hclk u32 | Pclk1 u32 | Pclk2 u32 | Adcclk u32 | Pll u32 u32

fun apply_setting :: "clock_setting \<Rightarrow> 'a mcu_scheme \<Rightarrow> 'a mcu_scheme" where
  "apply_setting (Sysclk v) = RCC_SYSCLKConfig v"
| "apply_setting (Hclk v) = RCC_HCLKConfig v"
| "apply_setting (Pclk1 v) = RCC_PCLK1Config v"
| "apply_setting (Pclk2 v) = RCC_PCLK2Config v"
| "apply_setting (Adcclk v) = RCC_ADCCLKConfig v"
| "apply_setting (Pll s v) = RCC_PLLConfig s v"

fun setting_mask :: "clock_setting \<Rightarrow> u32" where
  "setting_mask (Sysclk v) = 0x3"
| "setting_mask (Hclk v) = 0xF0"
| "setting_mask (Pclk1 v) = 0x700"
| "setting_mask (Pclk2 v) = 0x3800"
| "setting_mask (Adcclk v) = 0xC000"
| "setting_mask (Pll s v) = 0x3F0000"

fun setting_value :: "clock_setting \<Rightarrow> u32" where
  "setting_value (Sysclk v) = v"
| "setting_value (Hclk v) = v"
| "setting_value (Pclk1 v) = v"
| "setting_value (Pclk2 v) = push_bit 3 v"
| "setting_value (Adcclk v) = v"
| "setting_value (Pll s v) = s OR v"

definition legal_setting :: "clock_setting \<Rightarrow> bool" where
  "legal_setting c \<longleftrightarrow> setting_value c AND NOT (setting_mask c) = 0"

lemma apply_setting_eq:
  "apply_setting c m = upd_RCC (\<lambda>r. r\<lparr>RCC_CFGR := field_put (setting_mask c) (setting_value c) (RCC_CFGR (RCC m))\<rparr>) m"
  by (cases c) (simp_all add: cfgr_setters)

lemma setting_masks_disjoint:
  "setting_mask c \<noteq> setting_mask d \<Longrightarrow> setting_mask c AND setting_mask d = 0"
  by (cases c; cases d) simp_all

lemma settings_commute:
  assumes "legal_setting c" and "legal_setting d" and "setting_mask c \<noteq> setting_mask d"
  shows "apply_setting c (apply_setting d m) = apply_setting d (apply_setting c m)"
  using assms setting_masks_disjoint [OF assms(3)]
    field_put_commute [of "setting_value c" "setting_mask c" "setting_value d" "setting_mask d"]
  by (simp add: apply_setting_eq legal_setting_def upd_RCC_def)

lemma apply_settings_keep:
  assumes "\<forall>c \<in> set cs. legal_setting c" and "\<forall>c \<in> set cs. setting_mask c AND k = 0"
  shows "RCC_CFGR (RCC (fold apply_setting cs m)) AND k = RCC_CFGR (RCC m) AND k"
  using assms
proof (induction cs arbitrary: m)
  case Nil
  then show ?case by simp
next
  case (Cons c cs)
  then have "RCC_CFGR (RCC (apply_setting c m)) AND k = RCC_CFGR (RCC m) AND k"
    by (simp add: apply_setting_eq legal_setting_def field_put_other)
  with Cons show ?case by simp
qed

text \<open>
  The clock setters may be called in any order: two sequences of legal settings of different
  fields with the same elements leave the same state, and each setting of the sequence is then
  in its field.
\<close>

theorem clock_settings_any_order:
  assumes "\<forall>c \<in> set cs. legal_setting c" and "distinct (List.map setting_mask cs)" and "mset cs = mset ds"
  shows "fold apply_setting cs m = fold apply_setting ds m \<and>
    (\<forall>c \<in> set cs. RCC_CFGR (RCC (fold apply_setting ds m)) AND setting_mask c = setting_value c)"
proof
  have comm: "apply_setting x \<circ> apply_setting y = apply_setting y \<circ> apply_setting x"
    if "x \<in> set cs" "y \<in> set cs" for x y
    using that assms(1,2) by (cases "x = y") (auto simp: fun_eq_iff distinct_map inj_on_def intro!: settings_commute)
  have "fold apply_setting cs = fold apply_setting ds"
    by (rule fold_multiset_equiv) (fact comm assms(3))+
  then show eq: "fold apply_setting cs m = fold apply_setting ds m" by (rule fun_cong)
  show "\<forall>c \<in> set cs. RCC_CFGR (RCC (fold apply_setting ds m)) AND setting_mask c = setting_value c"
  proof
    fix c assume "c \<in> set cs"
    then obtain xs ys where cs: "cs = xs @ c # ys" by (meson split_list)
    have "\<forall>d \<in> set ys. setting_mask d AND setting_mask c = 0"
      using assms(2) setting_masks_disjoint by (auto simp: cs image_iff)
    then have "RCC_CFGR (RCC (fold apply_setting cs m)) AND setting_mask c =
        RCC_CFGR (RCC (apply_setting c (fold apply_setting xs m))) AND setting_mask c"
      using assms(1) by (simp add: cs apply_settings_keep)
    also have "\<dots> = setting_value c"
      using assms(1) by (simp add: cs apply_setting_eq legal_setting_def field_put_get)
    finally show "RCC_CFGR (RCC (fold apply_setting ds m)) AND setting_mask c = setting_value c"
      by (simp add: eq)
  qed
qed

lemma clock_settings_any_order_witness:
  "fold apply_setting [Hclk RCC_SYSCLK_Div2, Pclk2 RCC_HCLK_Div4, Sysclk RCC_SYSCLKSource_PLLCLK] reset_mcu =
   fold apply_setting [Sysclk RCC_SYSCLKSource_PLLCLK, Pclk2 RCC_HCLK_Div4, Hclk RCC_SYSCLK_Div2] reset_mcu"
  using clock_settings_any_order
    [of "[Hclk RCC_SYSCLK_Div2, Pclk2 RCC_HCLK_Div4, Sysclk RCC_SYSCLKSource_PLLCLK]"
        "[Sysclk RCC_SYSCLKSource_PLLCLK, Pclk2 RCC_HCLK_Div4, Hclk RCC_SYSCLK_Div2]" reset_mcu]
  by (simp add: legal_setting_def)

section \<open>Start-up of the crystal\<close>

lemma hserdy_bit: "RCC_GetFlagStatus RCC_FLAG_HSERDY m \<noteq> RESET \<longleftrightarrow> bit (RCC_CR (RCC m)) 17"
proof -
  have "RCC_CR (RCC m) AND 0x20000 \<noteq> 0 \<longleftrightarrow> bit (RCC_CR (RCC m)) 17" by (simp add: sysclk_source(5))
  then show ?thesis by (simp add: RCC_GetFlagStatus_def Let_def)
qed

text \<open>
  \<open>RCC_WaitForHSEStartUp\<close> always returns, after at most \<open>0x500\<close> reads of the ready flag,
  at the first read that finds it up; the result is \<open>SUCCESS\<close> exactly when the flag is up at the
  end.
\<close>

theorem WaitForHSEStartUp_bounded:
  "\<exists>k \<le> 0x4FF. snd (RCC_WaitForHSEStartUp tick m) = (tick ^^ Suc k) m \<and>
     (fst (RCC_WaitForHSEStartUp tick m) = SUCCESS \<longleftrightarrow> bit (RCC_CR (RCC ((tick ^^ Suc k) m))) 17) \<and>
     (k = 0x4FF \<or> bit (RCC_CR (RCC ((tick ^^ k) m))) 17)"
proof -
  have "unat (ucast HSE_STARTUP_TIMEOUT :: u32) = unat (0 :: u32) + Suc 0x4FF" by simp
  from poll_count_reads [OF this, of tick "\<lambda>m. RCC_GetFlagStatus RCC_FLAG_HSERDY m \<noteq> RESET" m]
  obtain k where "k \<le> 0x4FF"
      "snd (RCC_WaitForHSEStartUp tick m) = (tick ^^ Suc k) m"
      "bit (RCC_CR (RCC ((tick ^^ k) m))) 17 \<or> k = 0x4FF"
    unfolding RCC_WaitForHSEStartUp_def Let_def hserdy_bit snd_conv by blast
  moreover have "fst (RCC_WaitForHSEStartUp tick m) = SUCCESS \<longleftrightarrow>
      bit (RCC_CR (RCC (snd (RCC_WaitForHSEStartUp tick m)))) 17"
    by (simp add: RCC_WaitForHSEStartUp_def Let_def hserdy_bit)
  ultimately show ?thesis by auto
qed

section \<open>Peripheral resets\<close>

text \<open>A reset is a pulse on one line: the bit is set, then cleared, and nothing else moves.\<close>

lemma apb2_pulse:
  "RCC_APB2PeriphResetCmd p DISABLE (RCC_APB2PeriphResetCmd p ENABLE m) =
     upd_RCC (\<lambda>r. r\<lparr>RCC_APB2RSTR := RCC_APB2RSTR r AND NOT p,
       RCC_reset_stores := RCC_reset_stores r @
         [APB2RSTR_store (RCC_APB2RSTR r OR p), APB2RSTR_store (RCC_APB2RSTR r AND NOT p)]\<rparr>) m"
proof -
  have "(x OR p) AND NOT p = x AND NOT p" for x by (simp add: bits32 bit_simps) blast
  then show ?thesis by (simp add: RCC_APB2PeriphResetCmd_def upd_RCC_def Let_def)
qed

lemma apb1_pulse:
  "RCC_APB1PeriphResetCmd p DISABLE (RCC_APB1PeriphResetCmd p ENABLE m) =
     upd_RCC (\<lambda>r. r\<lparr>RCC_APB1RSTR := RCC_APB1RSTR r AND NOT p,
       RCC_reset_stores := RCC_reset_stores r @
         [APB1RSTR_store (RCC_APB1RSTR r OR p), APB1RSTR_store (RCC_APB1RSTR r AND NOT p)]\<rparr>) m"
proof -
  have "(x OR p) AND NOT p = x AND NOT p" for x by (simp add: bits32 bit_simps) blast
  then show ?thesis by (simp add: RCC_APB1PeriphResetCmd_def upd_RCC_def Let_def)
qed

end
