(* ===== verification/Misc.thy ===== *)
theory Misc
  imports Stm32_Constants Interfaces
begin

text \<open>
  Interrupt controller and SysTick clock source, \<open>STM32F10x_FWLib/src/misc.c\<close>. An index
  outside \<open>NVIC->IP\<close> (240 entries) and a shift by 32 or more are undefined in C: the
  operation is then \<open>None\<close>.
\<close>

section \<open>Operations\<close>

record NVIC_InitTypeDef =
  NVIC_IRQChannel :: u8
  NVIC_IRQChannelPreemptionPriority :: u8
  NVIC_IRQChannelSubPriority :: u8
  NVIC_IRQChannelCmd :: FunctionalState

definition NVIC_PriorityGroupConfig :: "u32 \<Rightarrow> 'a mcu_scheme \<Rightarrow> 'a mcu_scheme" where
  "NVIC_PriorityGroupConfig grp = upd_SCB (\<lambda>s. s\<lparr>SCB_AIRCR := AIRCR_VECTKEY_MASK OR grp\<rparr>)"

definition nvic_set_IP :: "nat \<Rightarrow> u8 \<Rightarrow> NVIC_Type \<Rightarrow> NVIC_Type option" where
  "nvic_set_IP i v n = (if i < length (NVIC_IP n) then Some (n\<lparr>NVIC_IP := (NVIC_IP n)[i := v]\<rparr>) else None)"

definition NVIC_Init :: "NVIC_InitTypeDef \<Rightarrow> 'a mcu_scheme \<Rightarrow> 'a mcu_scheme option" where
  "NVIC_Init ini m =
     (let tmpsub = 0x0F :: u32;
          irq = NVIC_IRQChannel ini;
          word = unat (drop_bit 5 irq);
          bitmask = push_bit (unat (irq AND 0x1F)) 1
      in if NVIC_IRQChannelCmd ini \<noteq> DISABLE then
           (let tmppriority = drop_bit 8 (0x700 - (SCB_AIRCR (SCB m) AND 0x700));
                tmppre = 0x4 - tmppriority;
                tmpsub = drop_bit (unat tmppriority) tmpsub
            in do {
                 tmppriority \<leftarrow> shl_u32 (ucast (NVIC_IRQChannelPreemptionPriority ini)) tmppre;
                 let tmppriority = tmppriority OR (ucast (NVIC_IRQChannelSubPriority ini) AND tmpsub);
                 let tmppriority = push_bit 4 tmppriority;
                 n \<leftarrow> nvic_set_IP (unat irq) (ucast tmppriority) (NVIC m);
                 Some (m\<lparr>NVIC := n\<lparr>NVIC_stores := NVIC_stores n @ [ISER_store word bitmask]\<rparr>\<rparr>)
               })
         else Some (upd_NVIC (\<lambda>n. n\<lparr>NVIC_stores := NVIC_stores n @ [ICER_store word bitmask]\<rparr>) m))"

definition NVIC_SetVectorTable :: "u32 \<Rightarrow> u32 \<Rightarrow> 'a mcu_scheme \<Rightarrow> 'a mcu_scheme" where
  "NVIC_SetVectorTable tab offset = upd_SCB (\<lambda>s. s\<lparr>SCB_VTOR := tab OR (offset AND 0x1FFFFF80)\<rparr>)"

definition NVIC_SystemLPConfig :: "u8 \<Rightarrow> FunctionalState \<Rightarrow> 'a mcu_scheme \<Rightarrow> 'a mcu_scheme" where
  "NVIC_SystemLPConfig mode st = upd_SCB (\<lambda>s.
     if st \<noteq> DISABLE then s\<lparr>SCB_SCR := SCB_SCR s OR ucast mode\<rparr>
     else s\<lparr>SCB_SCR := SCB_SCR s AND NOT (ucast mode)\<rparr>)"

definition SysTick_CLKSourceConfig :: "u32 \<Rightarrow> 'a mcu_scheme \<Rightarrow> 'a mcu_scheme" where
  "SysTick_CLKSourceConfig src = upd_SysTick (\<lambda>s.
     if src = SysTick_CLKSource_HCLK then s\<lparr>SysTick_CTRL := SysTick_CTRL s OR SysTick_CLKSource_HCLK\<rparr>
     else s\<lparr>SysTick_CTRL := SysTick_CTRL s AND SysTick_CLKSource_HCLK_Div8\<rparr>)"

section \<open>Properties of the operations\<close>

section \<open>Priorities\<close>

lemma nvic_enabled:
  assumes "NVIC_IRQChannelCmd ini = ENABLE" and "unat (NVIC_IRQChannel ini) < length (NVIC_IP (NVIC m))"
    and "k \<le> 4" and "SCB_AIRCR (SCB m) AND 0x700 = 0x700 - push_bit 8 (of_nat k)"
  shows "NVIC_Init ini m = Some (upd_NVIC (\<lambda>n. n\<lparr>
      NVIC_IP := (NVIC_IP n)[unat (NVIC_IRQChannel ini) :=
        ucast (push_bit 4 (push_bit (4 - k) (ucast (NVIC_IRQChannelPreemptionPriority ini)) OR
          (ucast (NVIC_IRQChannelSubPriority ini) AND drop_bit k (0x0F :: u32))))],
      NVIC_stores := NVIC_stores n @ [ISER_store (unat (drop_bit 5 (NVIC_IRQChannel ini)))
        (push_bit (unat (NVIC_IRQChannel ini AND 0x1F)) 1)]\<rparr>) m)"
proof -
  have k: "k = 0 \<or> k = 1 \<or> k = 2 \<or> k = 3 \<or> k = 4" using assms(3) by auto
  then show ?thesis
    using assms(1,2,4)
    by (elim disjE) (simp_all add: NVIC_Init_def nvic_set_IP_def shl_u32_def upd_NVIC_def Let_def)
qed

lemma priority_byte:
  fixes pre sub :: u8
  defines "v k \<equiv> ucast (push_bit 4 (push_bit (4 - k) (ucast pre) OR (ucast sub AND drop_bit k (0x0F :: u32)))) :: u8"
  assumes "k \<le> 4" and "pre AND NOT (mask k) = 0" and "sub AND NOT (mask (4 - k)) = 0"
  shows "drop_bit (8 - k) (v k) = pre" "drop_bit 4 (v k) AND mask (4 - k) = sub" "v k AND 0xF = 0"
proof -
  have k: "k = 0 \<or> k = 1 \<or> k = 2 \<or> k = 3 \<or> k = 4" using assms(2) by auto
  show "drop_bit (8 - k) (v k) = pre"
    using k assms(3,4) unfolding v_def by (elim disjE) (simp_all add: mask_numeral bits8 bit_simps del: push_bit_Suc)
  show "drop_bit 4 (v k) AND mask (4 - k) = sub"
    using k assms(3,4) unfolding v_def by (elim disjE) (simp_all add: mask_numeral bits8 bit_simps del: push_bit_Suc)
  show "v k AND 0xF = 0"
    using k assms(3,4) unfolding v_def by (elim disjE) (simp_all add: mask_numeral bits8 bit_simps del: push_bit_Suc)
qed

text \<open>
  Enabling an interrupt encodes its priority for the priority group in force: with \<open>k\<close> bits
  of preemption priority the upper \<open>k\<close> bits of the priority byte are the preemption priority, the
  next \<open>4 - k\<close> the subpriority, the unimplemented lower half is 0; the set-enable register gets
  exactly the bit of this interrupt, and no other priority changes. A channel outside the
  priority array is an access out of bounds.
\<close>

theorem nvic_priority_encoding:
  assumes "NVIC_IRQChannelCmd ini = ENABLE" and "length (NVIC_IP (NVIC m)) = 240" and "k \<le> 4"
    and "SCB_AIRCR (SCB m) AND 0x700 = 0x700 - push_bit 8 (of_nat k)"
    and "NVIC_IRQChannelPreemptionPriority ini AND NOT (mask k) = 0"
    and "NVIC_IRQChannelSubPriority ini AND NOT (mask (4 - k)) = 0"
  shows "case NVIC_Init ini m of
      None \<Rightarrow> 240 \<le> unat (NVIC_IRQChannel ini)
    | Some m' \<Rightarrow> (let irq = unat (NVIC_IRQChannel ini); v = NVIC_IP (NVIC m') ! irq in
        drop_bit (8 - k) v = NVIC_IRQChannelPreemptionPriority ini \<and>
        drop_bit 4 v AND mask (4 - k) = NVIC_IRQChannelSubPriority ini \<and> v AND 0xF = 0 \<and>
        (\<forall>i. i \<noteq> irq \<longrightarrow> NVIC_IP (NVIC m') ! i = NVIC_IP (NVIC m) ! i) \<and>
        NVIC_stores (NVIC m') = NVIC_stores (NVIC m) @ [ISER_store (irq div 32) (push_bit (irq mod 32) 1)])"
proof (cases "unat (NVIC_IRQChannel ini) < 240")
  case True
  let ?pre = "NVIC_IRQChannelPreemptionPriority ini" and ?sub = "NVIC_IRQChannelSubPriority ini"
  let ?v = "ucast (push_bit 4 (push_bit (4 - k) (ucast ?pre) OR (ucast ?sub AND drop_bit k (0x0F :: u32)))) :: u8"
  have v: "drop_bit (8 - k) ?v = ?pre" "drop_bit 4 ?v AND mask (4 - k) = ?sub" "?v AND 0xF = 0"
    using priority_byte [OF assms(3,5,6)] by blast+
  have "NVIC_IRQChannel ini AND 0x1F = take_bit 5 (NVIC_IRQChannel ini)" by (simp add: take_bit_eq_mask mask_numeral)
  then have b: "unat (NVIC_IRQChannel ini AND 0x1F) = unat (NVIC_IRQChannel ini) mod 32"
    by (simp add: take_bit_eq_mod unat_mod)
  have w: "unat (drop_bit 5 (NVIC_IRQChannel ini)) = unat (NVIC_IRQChannel ini) div 32" by (simp add: unat_drop)
  show ?thesis
    using True assms(2) v by (simp add: nvic_enabled [OF assms(1) _ assms(3,4)] Let_def b w)
next
  case False
  then have "NVIC_Init ini m = None"
    using assms(1,2) by (simp add: NVIC_Init_def nvic_set_IP_def Let_def)
  then show ?thesis using False by simp
qed

lemma nvic_priority_encoding_witness:
  "\<exists>m'. NVIC_Init \<lparr>NVIC_IRQChannel = USART1_IRQn, NVIC_IRQChannelPreemptionPriority = 3,
      NVIC_IRQChannelSubPriority = 3, NVIC_IRQChannelCmd = ENABLE\<rparr>
      (NVIC_PriorityGroupConfig NVIC_PriorityGroup_2 reset_mcu) = Some m' \<and> NVIC_IP (NVIC m') ! 37 AND 0xF = 0"
  using nvic_priority_encoding [of "\<lparr>NVIC_IRQChannel = USART1_IRQn, NVIC_IRQChannelPreemptionPriority = 3,
      NVIC_IRQChannelSubPriority = 3, NVIC_IRQChannelCmd = ENABLE\<rparr>"
      "NVIC_PriorityGroupConfig NVIC_PriorityGroup_2 reset_mcu" 2]
  by (auto simp add: NVIC_PriorityGroupConfig_def mask_numeral Let_def split: option.splits)

end
