(* ===== verification/Gpio.thy ===== *)
theory Gpio
  imports Rcc
begin

text \<open>
  General purpose I/O, \<open>STM32F10x_FWLib/src/stm32f10x_gpio.c\<close>. \<open>GPIO_Speed\<close> is kept as the
  number the enumeration stands for, because \<open>KEY_Init\<close> passes it uninitialised. The stores
  to \<open>BSRR\<close>, \<open>BRR\<close> and \<open>LCKR\<close> are logged in \<open>GPIO_accesses\<close>.
\<close>

section \<open>Operations\<close>

datatype GPIOMode_TypeDef = GPIO_Mode_AIN | GPIO_Mode_IN_FLOATING | GPIO_Mode_IPD | GPIO_Mode_IPU
  | GPIO_Mode_Out_OD | GPIO_Mode_Out_PP | GPIO_Mode_AF_OD | GPIO_Mode_AF_PP

fun mode_u32 :: "GPIOMode_TypeDef \<Rightarrow> u32" where
  "mode_u32 GPIO_Mode_AIN = 0x0"
| "mode_u32 GPIO_Mode_IN_FLOATING = 0x04"
| "mode_u32 GPIO_Mode_IPD = 0x28"
| "mode_u32 GPIO_Mode_IPU = 0x48"
| "mode_u32 GPIO_Mode_Out_OD = 0x14"
| "mode_u32 GPIO_Mode_Out_PP = 0x10"
| "mode_u32 GPIO_Mode_AF_OD = 0x1C"
| "mode_u32 GPIO_Mode_AF_PP = 0x18"

record GPIO_InitTypeDef =
  GPIO_Pin :: u16
  GPIO_Speed :: u32
  GPIO_Mode :: GPIOMode_TypeDef

definition gpio_log :: "gpio_access \<Rightarrow> GPIO_TypeDef \<Rightarrow> GPIO_TypeDef" where
  "gpio_log a g = g\<lparr>GPIO_accesses := GPIO_accesses g @ [a]\<rparr>"

fun GPIO_DeInit :: "GPIO_ptr \<Rightarrow> 'a mcu_scheme \<Rightarrow> 'a mcu_scheme" where
  "GPIO_DeInit GPIOA m = RCC_APB2PeriphResetCmd RCC_APB2Periph_GPIOA DISABLE
     (RCC_APB2PeriphResetCmd RCC_APB2Periph_GPIOA ENABLE m)"
| "GPIO_DeInit GPIOB m = RCC_APB2PeriphResetCmd RCC_APB2Periph_GPIOB DISABLE
     (RCC_APB2PeriphResetCmd RCC_APB2Periph_GPIOB ENABLE m)"
| "GPIO_DeInit GPIOC m = RCC_APB2PeriphResetCmd RCC_APB2Periph_GPIOC DISABLE
     (RCC_APB2PeriphResetCmd RCC_APB2Periph_GPIOC ENABLE m)"
| "GPIO_DeInit GPIOD m = RCC_APB2PeriphResetCmd RCC_APB2Periph_GPIOD DISABLE
     (RCC_APB2PeriphResetCmd RCC_APB2Periph_GPIOD ENABLE m)"
| "GPIO_DeInit GPIOE m = RCC_APB2PeriphResetCmd RCC_APB2Periph_GPIOE DISABLE
     (RCC_APB2PeriphResetCmd RCC_APB2Periph_GPIOE ENABLE m)"
| "GPIO_DeInit GPIOF m = RCC_APB2PeriphResetCmd RCC_APB2Periph_GPIOF DISABLE
     (RCC_APB2PeriphResetCmd RCC_APB2Periph_GPIOF ENABLE m)"
| "GPIO_DeInit GPIOG m = RCC_APB2PeriphResetCmd RCC_APB2Periph_GPIOG DISABLE
     (RCC_APB2PeriphResetCmd RCC_APB2Periph_GPIOG ENABLE m)"

definition GPIO_AFIODeInit :: "'a mcu_scheme \<Rightarrow> 'a mcu_scheme" where
  "GPIO_AFIODeInit m = RCC_APB2PeriphResetCmd RCC_APB2Periph_AFIO DISABLE
     (RCC_APB2PeriphResetCmd RCC_APB2Periph_AFIO ENABLE m)"

text \<open>The bodies of the two loops of \<open>GPIO_Init\<close>, on \<open>tmpreg\<close> and the port.\<close>

definition GPIO_Init_low :: "GPIO_InitTypeDef \<Rightarrow> u32 \<Rightarrow> nat \<Rightarrow> u32 \<times> GPIO_TypeDef \<Rightarrow> u32 \<times> GPIO_TypeDef" where
  "GPIO_Init_low ini currentmode pinpos = (\<lambda>(tmpreg, g).
     let pos = push_bit pinpos 1 :: u32;
         currentpin = ucast (GPIO_Pin ini) AND pos
     in if currentpin = pos then
          (let pos = 4 * pinpos;
               pinmask = push_bit pos 0x0F;
               tmpreg = tmpreg AND NOT pinmask;
               tmpreg = tmpreg OR push_bit pos currentmode;
               g = (if GPIO_Mode ini = GPIO_Mode_IPD then gpio_log (BRR_store (push_bit pinpos 1)) g
                    else if GPIO_Mode ini = GPIO_Mode_IPU then gpio_log (BSRR_store (push_bit pinpos 1)) g
                    else g)
           in (tmpreg, g))
        else (tmpreg, g))"

definition GPIO_Init_high :: "GPIO_InitTypeDef \<Rightarrow> u32 \<Rightarrow> nat \<Rightarrow> u32 \<times> GPIO_TypeDef \<Rightarrow> u32 \<times> GPIO_TypeDef" where
  "GPIO_Init_high ini currentmode pinpos = (\<lambda>(tmpreg, g).
     let pos = push_bit (pinpos + 8) 1 :: u32;
         currentpin = ucast (GPIO_Pin ini) AND pos
     in if currentpin = pos then
          (let pos = 4 * pinpos;
               pinmask = push_bit pos 0x0F;
               tmpreg = tmpreg AND NOT pinmask;
               tmpreg = tmpreg OR push_bit pos currentmode;
               g = (if GPIO_Mode ini = GPIO_Mode_IPD
                    then gpio_log (BRR_store (push_bit (pinpos + 8) 1)) g else g);
               g = (if GPIO_Mode ini = GPIO_Mode_IPU
                    then gpio_log (BSRR_store (push_bit (pinpos + 8) 1)) g else g)
           in (tmpreg, g))
        else (tmpreg, g))"

definition GPIO_Init :: "GPIO_ptr \<Rightarrow> GPIO_InitTypeDef \<Rightarrow> 'a mcu_scheme \<Rightarrow> 'a mcu_scheme" where
  "GPIO_Init GPIOx ini = upd_GPIO GPIOx (\<lambda>g.
     let currentmode = mode_u32 (GPIO_Mode ini) AND 0x0F;
         currentmode = (if mode_u32 (GPIO_Mode ini) AND 0x10 \<noteq> 0
                        then currentmode OR GPIO_Speed ini else currentmode);
         g = (if ucast (GPIO_Pin ini) AND (0x00FF :: u32) \<noteq> 0 then
                (case fold (GPIO_Init_low ini currentmode) [0..<8] (GPIO_CRL g, g)
                 of (tmpreg, g) \<Rightarrow> g\<lparr>GPIO_CRL := tmpreg\<rparr>)
              else g);
         g = (if GPIO_Pin ini > 0x00FF then
                (case fold (GPIO_Init_high ini currentmode) [0..<8] (GPIO_CRH g, g)
                 of (tmpreg, g) \<Rightarrow> g\<lparr>GPIO_CRH := tmpreg\<rparr>)
              else g)
     in g)"

definition GPIO_StructInit :: "GPIO_InitTypeDef" where
  "GPIO_StructInit = \<lparr>GPIO_Pin = GPIO_Pin_All, GPIO_Speed = GPIO_Speed_2MHz,
     GPIO_Mode = GPIO_Mode_IN_FLOATING\<rparr>"

definition GPIO_ReadInputDataBit :: "GPIO_ptr \<Rightarrow> u16 \<Rightarrow> 'a mcu_scheme \<Rightarrow> u8" where
  "GPIO_ReadInputDataBit GPIOx pin m =
     (if GPIO_IDR (GPIO m GPIOx) AND ucast pin \<noteq> 0 then 1 else 0)"

definition GPIO_ReadInputData :: "GPIO_ptr \<Rightarrow> 'a mcu_scheme \<Rightarrow> u16" where
  "GPIO_ReadInputData GPIOx m = ucast (GPIO_IDR (GPIO m GPIOx))"

definition GPIO_ReadOutputDataBit :: "GPIO_ptr \<Rightarrow> u16 \<Rightarrow> 'a mcu_scheme \<Rightarrow> u8" where
  "GPIO_ReadOutputDataBit GPIOx pin m =
     (if GPIO_ODR (GPIO m GPIOx) AND ucast pin \<noteq> 0 then 1 else 0)"

definition GPIO_ReadOutputData :: "GPIO_ptr \<Rightarrow> 'a mcu_scheme \<Rightarrow> u16" where
  "GPIO_ReadOutputData GPIOx m = ucast (GPIO_ODR (GPIO m GPIOx))"

definition GPIO_SetBits :: "GPIO_ptr \<Rightarrow> u16 \<Rightarrow> 'a mcu_scheme \<Rightarrow> 'a mcu_scheme" where
  "GPIO_SetBits GPIOx pin = upd_GPIO GPIOx (gpio_log (BSRR_store (ucast pin)))"

definition GPIO_ResetBits :: "GPIO_ptr \<Rightarrow> u16 \<Rightarrow> 'a mcu_scheme \<Rightarrow> 'a mcu_scheme" where
  "GPIO_ResetBits GPIOx pin = upd_GPIO GPIOx (gpio_log (BRR_store (ucast pin)))"

definition GPIO_WriteBit :: "GPIO_ptr \<Rightarrow> u16 \<Rightarrow> BitAction \<Rightarrow> 'a mcu_scheme \<Rightarrow> 'a mcu_scheme" where
  "GPIO_WriteBit GPIOx pin v = upd_GPIO GPIOx
     (if v \<noteq> Bit_RESET then gpio_log (BSRR_store (ucast pin)) else gpio_log (BRR_store (ucast pin)))"

definition GPIO_Write :: "GPIO_ptr \<Rightarrow> u16 \<Rightarrow> 'a mcu_scheme \<Rightarrow> 'a mcu_scheme" where
  "GPIO_Write GPIOx v = upd_GPIO GPIOx (\<lambda>g. g\<lparr>GPIO_ODR := ucast v\<rparr>)"

definition GPIO_PinLockConfig :: "GPIO_ptr \<Rightarrow> u16 \<Rightarrow> 'a mcu_scheme \<Rightarrow> 'a mcu_scheme" where
  "GPIO_PinLockConfig GPIOx pin = upd_GPIO GPIOx (\<lambda>g.
     let tmp = 0x00010000 OR ucast pin;
         g = gpio_log (LCKR_store tmp) g;
         g = gpio_log (LCKR_store (ucast pin)) g;
         g = gpio_log (LCKR_store tmp) g;
         g = gpio_log LCKR_load g
     in gpio_log LCKR_load g)"

definition GPIO_EventOutputConfig :: "u8 \<Rightarrow> u8 \<Rightarrow> 'a mcu_scheme \<Rightarrow> 'a mcu_scheme" where
  "GPIO_EventOutputConfig port pin = upd_AFIO (\<lambda>a.
     let tmpreg = AFIO_EVCR a;
         tmpreg = tmpreg AND ucast EVCR_PORTPINCONFIG_MASK;
         tmpreg = tmpreg OR push_bit 4 (ucast port);
         tmpreg = tmpreg OR ucast pin
     in a\<lparr>AFIO_EVCR := tmpreg\<rparr>)"

definition GPIO_EventOutputCmd :: "FunctionalState \<Rightarrow> 'a mcu_scheme \<Rightarrow> 'a mcu_scheme" where
  "GPIO_EventOutputCmd st = upd_AFIO (\<lambda>a.
     a\<lparr>AFIO_EVCR := bitband_store EVOE_BitNumber (state_u32 st) (AFIO_EVCR a)\<rparr>)"

text \<open>The shift of \<open>GPIO_Remap\<close> is undefined when its count reaches 32: \<open>None\<close>.\<close>

definition GPIO_PinRemapConfig :: "u32 \<Rightarrow> FunctionalState \<Rightarrow> 'a mcu_scheme \<Rightarrow> 'a mcu_scheme option" where
  "GPIO_PinRemapConfig remap st m =
     (let a = AFIO m;
          tmpreg = (if remap AND 0x80000000 = 0x80000000 then AFIO_MAPR2 a else AFIO_MAPR a);
          tmpmask = drop_bit 16 (remap AND DBGAFR_POSITION_MASK);
          tmp = remap AND ucast LSB_MASK;
          shifted = shl_u32 tmp (drop_bit 21 remap * 0x10)
      in do {
        (tmpreg, a) \<leftarrow>
          (if remap AND (DBGAFR_LOCATION_MASK OR DBGAFR_NUMBITS_MASK) = DBGAFR_LOCATION_MASK OR DBGAFR_NUMBITS_MASK
           then Some (tmpreg AND DBGAFR_SWJCFG_MASK, a\<lparr>AFIO_MAPR := AFIO_MAPR a AND DBGAFR_SWJCFG_MASK\<rparr>)
           else if remap AND DBGAFR_NUMBITS_MASK = DBGAFR_NUMBITS_MASK
           then (let tmp1 = push_bit (unat tmpmask) 0x03
                 in Some ((tmpreg AND NOT tmp1) OR NOT DBGAFR_SWJCFG_MASK, a))
           else do {
             s \<leftarrow> shifted;
             Some ((tmpreg AND NOT s) OR NOT DBGAFR_SWJCFG_MASK, a)
           });
        tmpreg \<leftarrow> (if st \<noteq> DISABLE then do { s \<leftarrow> shifted; Some (tmpreg OR s) } else Some tmpreg);
        Some (m\<lparr>AFIO := (if remap AND 0x80000000 = 0x80000000 then a\<lparr>AFIO_MAPR2 := tmpreg\<rparr>
                         else a\<lparr>AFIO_MAPR := tmpreg\<rparr>)\<rparr>)
      })"

definition exticr_update :: "nat \<Rightarrow> (u32 \<Rightarrow> u32) \<Rightarrow> AFIO_TypeDef \<Rightarrow> AFIO_TypeDef option" where
  "exticr_update i f a =
     (if i < length (AFIO_EXTICR a) then Some (a\<lparr>AFIO_EXTICR := (AFIO_EXTICR a)[i := f (AFIO_EXTICR a ! i)]\<rparr>)
      else None)"

definition GPIO_EXTILineConfig :: "u8 \<Rightarrow> u8 \<Rightarrow> 'a mcu_scheme \<Rightarrow> 'a mcu_scheme option" where
  "GPIO_EXTILineConfig port pin m =
     (let tmp = push_bit (4 * unat (pin AND 0x03)) 0x0F
      in do {
        a \<leftarrow> exticr_update (unat (drop_bit 2 pin)) (\<lambda>r. r AND NOT tmp) (AFIO m);
        a \<leftarrow> exticr_update (unat (drop_bit 2 pin))
               (\<lambda>r. r OR push_bit (4 * unat (pin AND 0x03)) (ucast port)) a;
        Some (m\<lparr>AFIO := a\<rparr>)
      })"

definition GPIO_ETH_MediaInterfaceConfig :: "u32 \<Rightarrow> 'a mcu_scheme \<Rightarrow> 'a mcu_scheme" where
  "GPIO_ETH_MediaInterfaceConfig v = upd_AFIO (\<lambda>a.
     a\<lparr>AFIO_MAPR := bitband_store MII_RMII_SEL_BitNumber v (AFIO_MAPR a)\<rparr>)"

section \<open>Properties of the operations\<close>

section \<open>One pin of the configuration registers\<close>

text \<open>The four configuration bits of pin \<open>n\<close>, and a nibble of a register.\<close>

definition nibble :: "nat \<Rightarrow> u32 \<Rightarrow> u32" where
  "nibble k r = drop_bit (4 * k) r AND 0xF"

definition pin_config :: "nat \<Rightarrow> GPIO_TypeDef \<Rightarrow> u32" where
  "pin_config n g = (if n < 8 then nibble n (GPIO_CRL g) else nibble (n - 8) (GPIO_CRH g))"

lemma bit_0xF: "bit (0xF :: nat) i \<longleftrightarrow> i < 4" "bit (0xF :: int) i \<longleftrightarrow> i < 4"
proof -
  have "(0xF :: nat) = mask 4" "(0xF :: int) = mask 4" by (simp_all add: mask_numeral)
  then show "bit (0xF :: nat) i \<longleftrightarrow> i < 4" "bit (0xF :: int) i \<longleftrightarrow> i < 4"
    by (simp_all only: bit_mask_iff) simp_all
qed

lemma bit_nibble: "bit (nibble k r) i \<longleftrightarrow> i < 4 \<and> bit r (4 * k + i)"
  by (auto simp: nibble_def bit_simps bit_0xF)

lemma nibble_put:
  assumes "k < 8" and "j < 8" and "v AND NOT 0xF = 0"
  shows "nibble j (field_put (push_bit (4 * k) 0xF) (push_bit (4 * k) v) r) = (if j = k then v else nibble j r)"
proof (rule bit_word_eqI)
  fix i assume "i < LENGTH(32)"
  have v: "bit v i \<Longrightarrow> i < 4" for i
    using inside_maskD [OF assms(3)] by (simp add: bit_0xF)
  show "bit (nibble j (field_put (push_bit (4 * k) 0xF) (push_bit (4 * k) v) r)) i \<longleftrightarrow>
      bit (if j = k then v else nibble j r) i"
  proof (cases "j = k")
    case True
    have "4 * k + i < 32" if "bit v i" using v [OF that] assms(1) by linarith
    with True show ?thesis using assms v
      by (auto simp: bit_nibble bit_field_put bit_push_bit_iff bit_0xF)
  next
    case False
    then have "\<not> (4 * k \<le> 4 * j + i \<and> 4 * j + i - 4 * k < 4)" if "i < 4"
      using that by linarith
    with False v show ?thesis
      by (auto simp: bit_nibble bit_field_put bit_push_bit_iff bit_0xF)
  qed
qed

lemma pin_selected:
  "k < 16 \<Longrightarrow> (ucast p AND push_bit k 1 = (push_bit k 1 :: u32)) \<longleftrightarrow> bit (p :: u16) k"
  (is "_ \<Longrightarrow> ?l \<longleftrightarrow> ?r")
proof
  assume k: "k < 16" and ?l
  then have "bit (ucast p AND push_bit k 1 :: u32) k" by (simp add: bit_simps)
  then show ?r by (simp add: bit_simps)
next
  assume "k < 16" and ?r
  then show ?l by (intro bit_word_eqI) (auto simp: bit_simps)
qed

section \<open>The loops of \<open>GPIO_Init\<close>\<close>

definition pull_store :: "GPIOMode_TypeDef \<Rightarrow> nat \<Rightarrow> gpio_access list" where
  "pull_store md n = (if md = GPIO_Mode_IPD then [BRR_store (push_bit n 1)]
     else if md = GPIO_Mode_IPU then [BSRR_store (push_bit n 1)] else [])"

definition selected :: "u16 \<Rightarrow> nat \<Rightarrow> nat \<Rightarrow> nat list" where
  "selected p lo hi = filter (bit p) [lo..<hi]"

definition log_all :: "gpio_access list \<Rightarrow> GPIO_TypeDef \<Rightarrow> GPIO_TypeDef" where
  "log_all as g = g\<lparr>GPIO_accesses := GPIO_accesses g @ as\<rparr>"

lemma log_all_sel [simp]:
  "GPIO_CRL (log_all as g) = GPIO_CRL g" "GPIO_CRH (log_all as g) = GPIO_CRH g"
  "GPIO_IDR (log_all as g) = GPIO_IDR g" "GPIO_ODR (log_all as g) = GPIO_ODR g"
  "GPIO_accesses (log_all as g) = GPIO_accesses g @ as" "log_all bs (log_all as g) = log_all (as @ bs) g"
  "log_all [] g = g"
  by (simp_all add: log_all_def)

lemma low_step:
  assumes "k < 8"
  shows "GPIO_Init_low ini cm k (r, g) =
    (if bit (GPIO_Pin ini) k
     then (field_put (push_bit (4 * k) 0xF) (push_bit (4 * k) cm) r, log_all (pull_store (GPIO_Mode ini) k) g)
     else (r, g))"
  using assms
  by (simp add: GPIO_Init_low_def pin_selected [simplified] Let_def field_put_def pull_store_def gpio_log_def log_all_def)

lemma high_step:
  assumes "k < 8"
  shows "GPIO_Init_high ini cm k (r, g) =
    (if bit (GPIO_Pin ini) (k + 8)
     then (field_put (push_bit (4 * k) 0xF) (push_bit (4 * k) cm) r, log_all (pull_store (GPIO_Mode ini) (k + 8)) g)
     else (r, g))"
  using assms
  by (simp add: GPIO_Init_high_def pin_selected [of "k + 8", simplified] Let_def field_put_def pull_store_def gpio_log_def log_all_def)

text \<open>Both loops, with \<open>off\<close> the first pin of the register.\<close>

lemma init_loop:
  assumes step: "\<And>k r g. k < 8 \<Longrightarrow> f k (r, g) =
      (if bit pins (k + off) then (field_put (push_bit (4 * k) 0xF) (push_bit (4 * k) cm) r,
         log_all (pull_store md (k + off)) g) else (r, g))"
    and cm: "cm AND NOT 0xF = 0" and "n \<le> 8"
  shows "\<exists>r'. fold f [0..<n] (r, g) = (r', log_all (concat (List.map (pull_store md) (selected pins off (n + off)))) g) \<and>
    (\<forall>j < 8. nibble j r' = (if j < n \<and> bit pins (j + off) then cm else nibble j r))"
  using \<open>n \<le> 8\<close>
proof (induction n)
  case 0
  then show ?case by (simp add: selected_def)
next
  case (Suc n)
  then obtain r' where r': "fold f [0..<n] (r, g) = (r', log_all (concat (List.map (pull_store md) (selected pins off (n + off)))) g)"
    "\<forall>j < 8. nibble j r' = (if j < n \<and> bit pins (j + off) then cm else nibble j r)" by auto
  have sel: "selected pins off (Suc (n + off)) = selected pins off (n + off) @ (if bit pins (n + off) then [n + off] else [])"
    by (simp add: selected_def)
  from Suc.prems have n: "n < 8" by simp
  show ?case
    using r'(2) n by (auto simp: r'(1) step [OF n] sel nibble_put [OF n _ cm] less_Suc_eq)
qed

text \<open>The mode nibble that \<open>GPIO_Init\<close> writes: the speed counts for outputs only.\<close>

definition init_nibble :: "GPIO_InitTypeDef \<Rightarrow> u32" where
  "init_nibble ini =
     (if GPIO_Mode ini \<in> {GPIO_Mode_Out_OD, GPIO_Mode_Out_PP, GPIO_Mode_AF_OD, GPIO_Mode_AF_PP}
      then (mode_u32 (GPIO_Mode ini) AND 0xF) OR GPIO_Speed ini else mode_u32 (GPIO_Mode ini) AND 0xF)"

lemma init_nibble_eq:
  "(if mode_u32 (GPIO_Mode ini) AND 0x10 \<noteq> 0 then (mode_u32 (GPIO_Mode ini) AND 0x0F) OR GPIO_Speed ini
    else mode_u32 (GPIO_Mode ini) AND 0x0F) = init_nibble ini"
  by (cases "GPIO_Mode ini") (simp_all add: init_nibble_def)

lemma init_nibble_fits: "GPIO_Speed ini AND NOT 0x3 = 0 \<Longrightarrow> init_nibble ini AND NOT 0xF = 0"
  by (cases "GPIO_Mode ini") (simp_all add: init_nibble_def bits32 bit_simps)

lemma pin_halves:
  "ucast p AND (0x00FF :: u32) \<noteq> 0 \<longleftrightarrow> (\<exists>k < 8. bit (p :: u16) k)" (is ?low)
  "p > 0x00FF \<longleftrightarrow> (\<exists>k < 8. bit (p :: u16) (k + 8))" (is ?high)
proof -
  have ex: "(\<exists>k < 8. P k) \<longleftrightarrow> \<not> (\<forall>k < 8. \<not> P k)" for P :: "nat \<Rightarrow> bool" by blast
  have big: "\<not> bit p n" if "16 \<le> n" for n using that bit_imp_le_length [of p n] by auto
  show ?low unfolding ex all_less_8 by (simp add: bits32 bit_simps)
  have "p > 0x00FF \<longleftrightarrow> drop_bit 8 p \<noteq> 0"
    by (simp add: word_less_nat_alt word_unat_eq_iff unat_drop) linarith
  also have "\<dots> \<longleftrightarrow> (\<exists>k < 8. bit p (k + 8))"
    unfolding ex all_less_8 by (simp add: bits16 bit_simps big)
  finally show ?high .
qed

lemma log_all_regs [simp]:
  "log_all as g\<lparr>GPIO_CRL := r\<rparr> = log_all as (g\<lparr>GPIO_CRL := r\<rparr>)"
  "log_all as g\<lparr>GPIO_CRH := r\<rparr> = log_all as (g\<lparr>GPIO_CRH := r\<rparr>)"
  by (simp_all add: log_all_def)

lemma low_half:
  assumes "cm AND NOT 0xF = 0"
  shows "\<exists>r'. (if ucast (GPIO_Pin ini) AND (0x00FF :: u32) \<noteq> 0
      then (case fold (GPIO_Init_low ini cm) [0..<8] (GPIO_CRL g, g) of (tmpreg, g) \<Rightarrow> g\<lparr>GPIO_CRL := tmpreg\<rparr>)
      else g) = log_all (concat (List.map (pull_store (GPIO_Mode ini)) (selected (GPIO_Pin ini) 0 8))) (g\<lparr>GPIO_CRL := r'\<rparr>) \<and>
    (\<forall>j < 8. nibble j r' = (if bit (GPIO_Pin ini) j then cm else nibble j (GPIO_CRL g)))"
proof (cases "\<exists>k < 8. bit (GPIO_Pin ini) k")
  case True
  then have c: "ucast (GPIO_Pin ini) AND (0x00FF :: u32) \<noteq> 0" by (simp add: pin_halves(1))
  have st: "GPIO_Init_low ini cm k (r, g) =
      (if bit (GPIO_Pin ini) (k + 0) then (field_put (push_bit (4 * k) 0xF) (push_bit (4 * k) cm) r,
         log_all (pull_store (GPIO_Mode ini) (k + 0)) g) else (r, g))" if "k < 8" for k r g
    using low_step [OF that] by simp
  from init_loop [of "GPIO_Init_low ini cm" "GPIO_Pin ini" 0 cm "GPIO_Mode ini", OF st assms, of 8 "GPIO_CRL g" g]
  obtain r' where "fold (GPIO_Init_low ini cm) [0..<8] (GPIO_CRL g, g) =
      (r', log_all (concat (List.map (pull_store (GPIO_Mode ini)) (selected (GPIO_Pin ini) 0 8))) g)"
    "\<forall>j < 8. nibble j r' = (if bit (GPIO_Pin ini) j then cm else nibble j (GPIO_CRL g))"
    by auto
  then show ?thesis unfolding if_P [OF c] by (auto intro!: exI [of _ r'])
next
  case False
  then have c: "\<not> ucast (GPIO_Pin ini) AND (0x00FF :: u32) \<noteq> 0" by (simp add: pin_halves(1))
  from False have "selected (GPIO_Pin ini) 0 8 = []" by (auto simp: selected_def filter_empty_conv)
  then show ?thesis using False unfolding if_not_P [OF c] by (auto intro!: exI [of _ "GPIO_CRL g"])
qed

lemma high_half:
  assumes "cm AND NOT 0xF = 0"
  shows "\<exists>r'. (if GPIO_Pin ini > 0x00FF
      then (case fold (GPIO_Init_high ini cm) [0..<8] (GPIO_CRH g, g) of (tmpreg, g) \<Rightarrow> g\<lparr>GPIO_CRH := tmpreg\<rparr>)
      else g) = log_all (concat (List.map (pull_store (GPIO_Mode ini)) (selected (GPIO_Pin ini) 8 16))) (g\<lparr>GPIO_CRH := r'\<rparr>) \<and>
    (\<forall>j < 8. nibble j r' = (if bit (GPIO_Pin ini) (j + 8) then cm else nibble j (GPIO_CRH g)))"
proof (cases "\<exists>k < 8. bit (GPIO_Pin ini) (k + 8)")
  case True
  then have c: "GPIO_Pin ini > 0x00FF" by (simp add: pin_halves(2))
  have st: "GPIO_Init_high ini cm k (r, g) =
      (if bit (GPIO_Pin ini) (k + 8) then (field_put (push_bit (4 * k) 0xF) (push_bit (4 * k) cm) r,
         log_all (pull_store (GPIO_Mode ini) (k + 8)) g) else (r, g))" if "k < 8" for k r g
    using high_step [OF that] by simp
  from init_loop [of "GPIO_Init_high ini cm" "GPIO_Pin ini" 8 cm "GPIO_Mode ini", OF st assms, of 8 "GPIO_CRH g" g]
  obtain r' where "fold (GPIO_Init_high ini cm) [0..<8] (GPIO_CRH g, g) =
      (r', log_all (concat (List.map (pull_store (GPIO_Mode ini)) (selected (GPIO_Pin ini) 8 16))) g)"
    "\<forall>j < 8. nibble j r' = (if bit (GPIO_Pin ini) (j + 8) then cm else nibble j (GPIO_CRH g))"
    by auto
  then show ?thesis unfolding if_P [OF c] by (auto intro!: exI [of _ r'])
next
  case False
  then have c: "\<not> GPIO_Pin ini > 0x00FF" by (simp add: pin_halves(2))
  have "\<not> bit (GPIO_Pin ini) n" if "n \<in> {8..<16}" for n
  proof
    assume "bit (GPIO_Pin ini) n"
    with that have "bit (GPIO_Pin ini) (n - 8 + 8)" "n - 8 < 8" by auto
    with False show False by blast
  qed
  then have "selected (GPIO_Pin ini) 8 16 = []" by (auto simp: selected_def filter_empty_conv)
  then show ?thesis using False unfolding if_not_P [OF c] by (auto intro!: exI [of _ "GPIO_CRH g"])
qed

lemma GPIO_Init_eq:
  assumes "GPIO_Speed ini AND NOT 0x3 = 0 \<or> init_nibble ini AND NOT 0xF = 0"
  shows "\<exists>l h. GPIO_Init p ini m = upd_GPIO p (\<lambda>g. log_all (concat (List.map (pull_store (GPIO_Mode ini))
        (selected (GPIO_Pin ini) 0 16))) (GPIO m p\<lparr>GPIO_CRL := l, GPIO_CRH := h\<rparr>)) m \<and>
    (\<forall>j < 8. nibble j l = (if bit (GPIO_Pin ini) j then init_nibble ini else nibble j (GPIO_CRL (GPIO m p)))) \<and>
    (\<forall>j < 8. nibble j h = (if bit (GPIO_Pin ini) (j + 8) then init_nibble ini else nibble j (GPIO_CRH (GPIO m p))))"
proof -
  have fits: "init_nibble ini AND NOT 0xF = 0" using assms init_nibble_fits by blast
  have sel: "selected (GPIO_Pin ini) 0 16 = selected (GPIO_Pin ini) 0 8 @ selected (GPIO_Pin ini) 8 16"
    using upt_add_eq_append [of 0 8 8] by (simp add: selected_def)
  from low_half [OF fits, of ini "GPIO m p"] obtain l where l: "(if ucast (GPIO_Pin ini) AND (0x00FF :: u32) \<noteq> 0
      then (case fold (GPIO_Init_low ini (init_nibble ini)) [0..<8] (GPIO_CRL (GPIO m p), GPIO m p) of (tmpreg, g) \<Rightarrow> g\<lparr>GPIO_CRL := tmpreg\<rparr>)
      else GPIO m p) = log_all (concat (List.map (pull_store (GPIO_Mode ini)) (selected (GPIO_Pin ini) 0 8))) (GPIO m p\<lparr>GPIO_CRL := l\<rparr>)"
      "\<forall>j < 8. nibble j l = (if bit (GPIO_Pin ini) j then init_nibble ini else nibble j (GPIO_CRL (GPIO m p)))"
    by blast
  let ?g = "log_all (concat (List.map (pull_store (GPIO_Mode ini)) (selected (GPIO_Pin ini) 0 8))) (GPIO m p\<lparr>GPIO_CRL := l\<rparr>)"
  from high_half [OF fits, of ini ?g] obtain h where h: "(if GPIO_Pin ini > 0x00FF
      then (case fold (GPIO_Init_high ini (init_nibble ini)) [0..<8] (GPIO_CRH ?g, ?g) of (tmpreg, g) \<Rightarrow> g\<lparr>GPIO_CRH := tmpreg\<rparr>)
      else ?g) = log_all (concat (List.map (pull_store (GPIO_Mode ini)) (selected (GPIO_Pin ini) 8 16))) (?g\<lparr>GPIO_CRH := h\<rparr>)"
      "\<forall>j < 8. nibble j h = (if bit (GPIO_Pin ini) (j + 8) then init_nibble ini else nibble j (GPIO_CRH (GPIO m p)))"
    by auto
  have "GPIO_Init p ini m = upd_GPIO p (\<lambda>g. log_all (concat (List.map (pull_store (GPIO_Mode ini))
        (selected (GPIO_Pin ini) 0 16))) (GPIO m p\<lparr>GPIO_CRL := l, GPIO_CRH := h\<rparr>)) m"
    unfolding GPIO_Init_def upd_GPIO_def Let_def init_nibble_eq l(1) h(1) by (simp add: sel)
  with l(2) h(2) show ?thesis by blast
qed

text \<open>A mask of one pin.\<close>

lemma bit_one_pin: "k < 16 \<Longrightarrow> bit (2 ^ k :: u16) = (\<lambda>n. n = k)"
  by (auto simp only: fun_eq_iff bit_exp_iff possible_bit_word len_num0 len_num1 len_bit0 len_bit1)

lemma GPIO_Init_effect:
  assumes "init_nibble ini AND NOT 0xF = 0"
  shows "\<exists>g'. GPIO_Init p ini m = upd_GPIO p (\<lambda>_. g') m \<and>
    (\<forall>n < 16. pin_config n g' = (if bit (GPIO_Pin ini) n then init_nibble ini else pin_config n (GPIO m p))) \<and>
    GPIO_accesses g' = GPIO_accesses (GPIO m p) @
      concat (List.map (pull_store (GPIO_Mode ini)) (filter (bit (GPIO_Pin ini)) [0..<16])) \<and>
    GPIO_ODR g' = GPIO_ODR (GPIO m p) \<and> GPIO_IDR g' = GPIO_IDR (GPIO m p)"
proof -
  from assms GPIO_Init_eq [of ini p m] obtain l h where eq: "GPIO_Init p ini m = upd_GPIO p (\<lambda>g. log_all
        (concat (List.map (pull_store (GPIO_Mode ini)) (selected (GPIO_Pin ini) 0 16)))
        (GPIO m p\<lparr>GPIO_CRL := l, GPIO_CRH := h\<rparr>)) m"
    and l: "\<forall>j < 8. nibble j l = (if bit (GPIO_Pin ini) j then init_nibble ini else nibble j (GPIO_CRL (GPIO m p)))"
    and h: "\<forall>j < 8. nibble j h = (if bit (GPIO_Pin ini) (j + 8) then init_nibble ini else nibble j (GPIO_CRH (GPIO m p)))"
    by blast
  let ?g = "log_all (concat (List.map (pull_store (GPIO_Mode ini)) (selected (GPIO_Pin ini) 0 16)))
    (GPIO m p\<lparr>GPIO_CRL := l, GPIO_CRH := h\<rparr>)"
  have "pin_config n ?g = (if bit (GPIO_Pin ini) n then init_nibble ini else pin_config n (GPIO m p))"
    if "n < 16" for n
  proof (cases "n < 8")
    case True
    then show ?thesis using l by (simp add: pin_config_def)
  next
    case False
    with that have "n - 8 < 8" "n - 8 + 8 = n" by auto
    then show ?thesis using h False by (auto simp add: pin_config_def)
  qed
  then show ?thesis using eq by (intro exI [of _ ?g]) (simp add: selected_def)
qed

text \<open>
  \<open>GPIO_Init\<close> with a legal speed configures exactly the pins of its mask: each of them gets
  the nibble of the requested mode (and speed, for an output), the nibbles of the other pins of
  the port stay as they were, and the pull resistor of each configured input with pull is
  requested by one store per pin, in the order of the pins; the other ports are not touched.
\<close>

theorem GPIO_Init_pins:
  assumes "GPIO_Speed ini AND NOT 0x3 = 0" and "g' = GPIO (GPIO_Init p ini m) p"
  shows "(\<forall>n < 16. pin_config n g' =
      (if bit (GPIO_Pin ini) n then init_nibble ini else pin_config n (GPIO m p))) \<and>
    GPIO_accesses g' = GPIO_accesses (GPIO m p) @
      concat (List.map (pull_store (GPIO_Mode ini)) (filter (bit (GPIO_Pin ini)) [0..<16])) \<and>
    GPIO_ODR g' = GPIO_ODR (GPIO m p) \<and>
    (\<forall>q. q \<noteq> p \<longrightarrow> GPIO (GPIO_Init p ini m) q = GPIO m q)"
  using GPIO_Init_effect [OF init_nibble_fits [OF assms(1)], of p m] assms(2) by auto

lemma GPIO_Init_pins_witness:
  "pin_config 5 (GPIO (GPIO_Init GPIOB \<lparr>GPIO_Pin = GPIO_Pin_5, GPIO_Speed = GPIO_Speed_50MHz,
     GPIO_Mode = GPIO_Mode_AF_PP\<rparr> reset_mcu) GPIOB) = 0xB"
proof -
  let ?ini = "\<lparr>GPIO_Pin = GPIO_Pin_5, GPIO_Speed = GPIO_Speed_50MHz, GPIO_Mode = GPIO_Mode_AF_PP\<rparr>"
  have "GPIO_Speed ?ini AND NOT 0x3 = 0" by simp
  from GPIO_Init_pins [OF this refl, of GPIOB reset_mcu]
  have "pin_config 5 (GPIO (GPIO_Init GPIOB ?ini reset_mcu) GPIOB) = (if bit (GPIO_Pin ?ini) 5 then init_nibble ?ini
      else pin_config 5 (GPIO reset_mcu GPIOB))" by simp
  then show ?thesis by (simp add: init_nibble_def)
qed

text \<open>For an input the speed, which may be uninitialised, does not matter.\<close>

lemma speed_sel:
  "GPIO_Pin (ini\<lparr>GPIO_Speed := v\<rparr>) = GPIO_Pin ini" "GPIO_Mode (ini\<lparr>GPIO_Speed := v\<rparr>) = GPIO_Mode ini"
  by simp_all

lemma GPIO_Init_speed_loops:
  "GPIO_Init_low (ini\<lparr>GPIO_Speed := v\<rparr>) = GPIO_Init_low ini"
  "GPIO_Init_high (ini\<lparr>GPIO_Speed := v\<rparr>) = GPIO_Init_high ini"
  by (simp_all only: fun_eq_iff GPIO_Init_low_def GPIO_Init_high_def speed_sel simp_thms)

lemma GPIO_Init_input_speed:
  assumes "GPIO_Mode ini \<in> {GPIO_Mode_AIN, GPIO_Mode_IN_FLOATING, GPIO_Mode_IPD, GPIO_Mode_IPU}"
  shows "GPIO_Init p (ini\<lparr>GPIO_Speed := v\<rparr>) m = GPIO_Init p ini m"
proof -
  have "(mode_u32 (GPIO_Mode ini) AND 0x10 \<noteq> 0) = False" using assms by auto
  then show ?thesis by (simp only: GPIO_Init_def GPIO_Init_speed_loops speed_sel if_False Let_def)
qed

section \<open>External interrupt lines\<close>

lemma nth_exticr: "length xs = 4 \<Longrightarrow> i < 16 \<Longrightarrow> i div 4 < length xs" for i :: nat
  by simp

text \<open>
  \<open>GPIO_EXTILineConfig\<close> connects line \<open>n\<close> to the given port and no other line changes; for
  a line number above 15 the access is outside \<open>AFIO->EXTICR\<close>.
\<close>

theorem exti_line:
  assumes "length (AFIO_EXTICR (AFIO m)) = 4" and "port AND NOT 0xF = 0"
  shows "(case GPIO_EXTILineConfig port pin m of
      None \<Rightarrow> 16 \<le> unat pin
    | Some m' \<Rightarrow> unat pin < 16 \<and> (\<forall>n < 16. nibble (n mod 4) (AFIO_EXTICR (AFIO m') ! (n div 4)) =
        (if n = unat pin then ucast port else nibble (n mod 4) (AFIO_EXTICR (AFIO m) ! (n div 4)))))"
proof -
  let ?xs = "AFIO_EXTICR (AFIO m)" and ?i = "unat pin div 4" and ?j = "unat pin mod 4"
  have i: "unat (drop_bit 2 pin) = ?i" by (simp add: unat_drop)
  have "pin AND 0x03 = take_bit 2 pin" by (simp add: take_bit_eq_mask mask_numeral)
  then have j: "unat (pin AND 0x03) = ?j" by (simp add: take_bit_eq_mod unat_mod)
  have v: "(ucast port :: u32) AND NOT 0xF = 0"
    using inside_maskD [OF assms(2)] by (intro bit_word_eqI) (auto simp: bit_simps bit_0xF)
  show ?thesis
  proof (cases "unat pin < 16")
    case True
    then have lt: "?i < length ?xs" using assms(1) by simp
    have "GPIO_EXTILineConfig port pin m = Some (m\<lparr>AFIO := (AFIO m)\<lparr>AFIO_EXTICR :=
        ?xs[?i := field_put (push_bit (4 * ?j) 0xF) (push_bit (4 * ?j) (ucast port)) (?xs ! ?i)]\<rparr>\<rparr>)"
      using lt by (simp add: GPIO_EXTILineConfig_def exticr_update_def Let_def i j field_put_def)
    moreover have "nibble (n mod 4) (?xs[?i := field_put (push_bit (4 * ?j) 0xF) (push_bit (4 * ?j) (ucast port)) (?xs ! ?i)] ! (n div 4))
        = (if n = unat pin then ucast port else nibble (n mod 4) (?xs ! (n div 4)))" if "n < 16" for n
    proof (cases "n div 4 = ?i")
      case eq: True
      then have "n = unat pin \<longleftrightarrow> n mod 4 = ?j"
        using div_mult_mod_eq [of n 4] div_mult_mod_eq [of "unat pin" 4] by auto
      moreover have "k mod 4 < 8" for k :: nat by (rule order_less_trans [of _ 4]) simp_all
      ultimately show ?thesis using eq lt nibble_put [OF _ _ v, of ?j "n mod 4" "?xs ! ?i"] by simp
    next
      case False
      then show ?thesis by auto
    qed
    ultimately show ?thesis using True by simp
  next
    case False
    then have "\<not> ?i < length ?xs" using assms(1) by simp
    then have "GPIO_EXTILineConfig port pin m = None"
      by (simp add: GPIO_EXTILineConfig_def exticr_update_def Let_def i)
    then show ?thesis using False by simp
  qed
qed

lemma exti_line_witness:
  "GPIO_EXTILineConfig 4 0 reset_mcu \<noteq> None"
  using exti_line [of reset_mcu 4 0] by (auto simp: reset_defs split: option.splits)

section \<open>Pin remapping of TIM3\<close>

text \<open>
  The remap that puts TIM3 channel 2 on PB5: the two TIM3 bits of \<open>MAPR\<close> become 10 (partial
  remap), the bits of the debug port are written with the code that has no effect (all ones), and
  every other remap bit stays as it was.
\<close>

theorem tim3_partial_remap:
  "\<exists>m'. GPIO_PinRemapConfig GPIO_PartialRemap_TIM3 ENABLE m = Some m' \<and>
     AFIO_MAPR (AFIO m') AND 0xC00 = 0x800 \<and>
     AFIO_MAPR (AFIO m') AND 0x0F000000 = 0x0F000000 \<and>
     AFIO_MAPR (AFIO m') AND NOT 0x0F000C00 = AFIO_MAPR (AFIO m) AND NOT 0x0F000C00 \<and>
     AFIO_MAPR2 (AFIO m') = AFIO_MAPR2 (AFIO m)"
  by (simp add: GPIO_PinRemapConfig_def shl_u32_def Let_def bits32 bit_simps)

end
