(* ===== verification/Sys.thy ===== *)
theory Sys
  imports Stm32_Constants Interfaces
begin

text \<open>
  Bit-band access to port pins, \<open>SYSTEM/sys/sys.h\<close>. \<open>BITBAND\<close> computes the alias address of
  one bit; the bus maps a word of the alias region back to a bit of the peripheral region
  (\<open>bb_alias\<close>). \<open>BIT_ADDR_store\<close> and \<open>BIT_ADDR_load\<close> are the accesses through
  \<open>MEM_ADDR(BITBAND(addr, n))\<close>, for the output and input registers of the ports.
\<close>

section \<open>Operations\<close>

definition BITBAND :: "u32 \<Rightarrow> u32 \<Rightarrow> u32" where
  "BITBAND addr bitnum =
     (addr AND 0xF0000000) + 0x2000000 + push_bit 5 (addr AND 0xFFFFF) + push_bit 2 bitnum"

text \<open>The peripheral alias region: word \<open>0x42000000 + 32 b + 4 n\<close> is bit \<open>n < 8\<close> of the byte
  at \<open>0x40000000 + b\<close>; the result names the enclosing 32-bit register and its bit.\<close>

definition bb_alias :: "u32 \<Rightarrow> (u32 \<times> nat) option" where
  "bb_alias addr =
     (if addr AND 0xFE000003 = 0x42000000 then
        (let off = addr AND 0x1FFFFFF
         in Some (0x40000000 OR (drop_bit 5 off AND 0xFFFFC), unat (drop_bit 2 off AND 0x1F)))
      else None)"

fun gpio_base :: "GPIO_ptr \<Rightarrow> u32" where
  "gpio_base GPIOA = GPIOA_BASE"
| "gpio_base GPIOB = GPIOB_BASE"
| "gpio_base GPIOC = GPIOC_BASE"
| "gpio_base GPIOD = GPIOD_BASE"
| "gpio_base GPIOE = GPIOE_BASE"
| "gpio_base GPIOF = GPIOF_BASE"
| "gpio_base GPIOG = GPIOG_BASE"

definition GPIO_ODR_Addr :: "GPIO_ptr \<Rightarrow> u32" where
  "GPIO_ODR_Addr p = gpio_base p + 12"

definition GPIO_IDR_Addr :: "GPIO_ptr \<Rightarrow> u32" where
  "GPIO_IDR_Addr p = gpio_base p + 8"

definition gpio_ptrs :: "GPIO_ptr list" where
  "gpio_ptrs = [GPIOA, GPIOB, GPIOC, GPIOD, GPIOE, GPIOF, GPIOG]"

definition MEM_ADDR_store :: "u32 \<Rightarrow> u32 \<Rightarrow> 'a mcu_scheme \<Rightarrow> 'a mcu_scheme option" where
  "MEM_ADDR_store addr v m = do {
     (reg, n) \<leftarrow> bb_alias addr;
     p \<leftarrow> List.find (\<lambda>p. GPIO_ODR_Addr p = reg) gpio_ptrs;
     Some (upd_GPIO p (\<lambda>g. g\<lparr>GPIO_ODR := bitband_store n v (GPIO_ODR g)\<rparr>) m)
   }"

definition MEM_ADDR_load :: "u32 \<Rightarrow> 'a mcu_scheme \<Rightarrow> u32 option" where
  "MEM_ADDR_load addr m = do {
     (reg, n) \<leftarrow> bb_alias addr;
     case List.find (\<lambda>p. GPIO_ODR_Addr p = reg) gpio_ptrs of
       Some p \<Rightarrow> Some (of_bool (bit (GPIO_ODR (GPIO m p)) n))
     | None \<Rightarrow> (case List.find (\<lambda>p. GPIO_IDR_Addr p = reg) gpio_ptrs of
         Some p \<Rightarrow> Some (of_bool (bit (GPIO_IDR (GPIO m p)) n))
       | None \<Rightarrow> None)
   }"

text \<open>\<open>PAout(n)\<close> \<dots> \<open>PGout(n)\<close> and \<open>PAin(n)\<close> \<dots> \<open>PGin(n)\<close>.\<close>

definition Pout_store :: "GPIO_ptr \<Rightarrow> u32 \<Rightarrow> u32 \<Rightarrow> 'a mcu_scheme \<Rightarrow> 'a mcu_scheme option" where
  "Pout_store p n v = MEM_ADDR_store (BITBAND (GPIO_ODR_Addr p) n) v"

definition Pout_load :: "GPIO_ptr \<Rightarrow> u32 \<Rightarrow> 'a mcu_scheme \<Rightarrow> u32 option" where
  "Pout_load p n = MEM_ADDR_load (BITBAND (GPIO_ODR_Addr p) n)"

definition Pin_load :: "GPIO_ptr \<Rightarrow> u32 \<Rightarrow> 'a mcu_scheme \<Rightarrow> u32 option" where
  "Pin_load p n = MEM_ADDR_load (BITBAND (GPIO_IDR_Addr p) n)"

section \<open>Properties of the operations\<close>

lemma less_32_bits: "n < 32 \<Longrightarrow> (n :: u32) AND NOT 0x1F = 0"
proof -
  assume "n < 32"
  then have "unat n < 32" by (simp add: word_less_nat_alt)
  then have "take_bit 5 (unat n) = unat n" by (simp add: take_bit_nat_eq_self_iff)
  then have "take_bit 5 n = n" by (metis unsigned_take_bit_eq word_unat_eq_iff)
  then have "n AND 0x1F = n" by (simp add: take_bit_eq_mask mask_numeral)
  then show ?thesis by (simp add: bits32 bit_simps)
qed
lemma BITBAND_or:
  assumes a: "addr AND 0xFFF00003 = (0x40000000 :: u32)" and n: "n < 32"
  shows "BITBAND addr n = 0x42000000 OR push_bit 5 (addr AND 0xFFFFC) OR push_bit 2 n"
proof -
  have n': "n AND NOT 0x1F = 0" using n by (rule less_32_bits)
  have d1: "push_bit 5 (addr AND 0xFFFFF) AND push_bit 2 n = 0"
    using a n' by (simp add: bits32 bit_simps)
  have d0: "addr AND 0xF0000000 = 0x40000000" "addr AND 0xFFFFF = addr AND 0xFFFFC"
    using a by (simp_all add: bits32 bit_simps)
  have d2: "0x42000000 AND (push_bit 5 (addr AND 0xFFFFC) OR push_bit 2 n) = 0"
    using a n' by (simp add: bits32 bit_simps)
  show ?thesis
    using d1 d2 d0 by (simp add: BITBAND_def disjunctive_add_eq_or add.assoc)
qed

lemma bb_alias_BITBAND:
  assumes a: "addr AND 0xFFF00003 = (0x40000000 :: u32)" and n: "n < 32"
  shows "bb_alias (BITBAND addr n) = Some (addr, unat n)"
proof -
  have n': "n AND NOT 0x1F = 0" using n by (rule less_32_bits)
  let ?a = "0x42000000 OR push_bit 5 (addr AND 0xFFFFC) OR push_bit 2 n"
  have "?a AND 0xFE000003 = 0x42000000"
    using n' by (simp add: bits32 bit_simps)
  moreover have "0x40000000 OR (drop_bit 5 (?a AND 0x1FFFFFF) AND 0xFFFFC) = addr"
    using a n' by (simp add: bits32 bit_simps)
  moreover have "drop_bit 2 (?a AND 0x1FFFFFF) AND 0x1F = n"
    using a n' by (simp add: bits32 bit_simps)
  ultimately show ?thesis
    by (simp add: bb_alias_def BITBAND_or [OF a n] Let_def)
qed

lemma port_addr:
  "GPIO_ODR_Addr p AND 0xFFF00003 = 0x40000000" "GPIO_IDR_Addr p AND 0xFFF00003 = 0x40000000"
  by (cases p; simp add: GPIO_ODR_Addr_def GPIO_IDR_Addr_def)+

lemma find_port:
  "List.find (\<lambda>q. GPIO_ODR_Addr q = GPIO_ODR_Addr p) gpio_ptrs = Some p"
  "List.find (\<lambda>q. GPIO_IDR_Addr q = GPIO_IDR_Addr p) gpio_ptrs = Some p"
  "List.find (\<lambda>q. GPIO_ODR_Addr q = GPIO_IDR_Addr p) gpio_ptrs = None"
  by (cases p; simp add: GPIO_ODR_Addr_def GPIO_IDR_Addr_def gpio_ptrs_def)+

lemma Pout_store_eq:
  "n < 32 \<Longrightarrow> Pout_store p n v m =
     Some (upd_GPIO p (\<lambda>g. g\<lparr>GPIO_ODR := bitband_store (unat n) v (GPIO_ODR g)\<rparr>) m)"
  by (simp add: Pout_store_def MEM_ADDR_store_def bb_alias_BITBAND port_addr find_port)

lemma Pout_load_eq:
  "n < 32 \<Longrightarrow> Pout_load p n m = Some (of_bool (bit (GPIO_ODR (GPIO m p)) (unat n)))"
  by (simp add: Pout_load_def MEM_ADDR_load_def bb_alias_BITBAND port_addr find_port)

lemma Pin_load_eq:
  "n < 32 \<Longrightarrow> Pin_load p n m = Some (of_bool (bit (GPIO_IDR (GPIO m p)) (unat n)))"
  by (simp add: Pin_load_def MEM_ADDR_load_def bb_alias_BITBAND port_addr find_port)

text \<open>
  The address arithmetic of \<open>sys.h\<close> reaches exactly the pin it names: a store through
  \<open>PXout(n)\<close> succeeds, sets pin \<open>n\<close> of that port to bit 0 of the value and leaves every other
  pin of every port as it was.
\<close>

theorem pin_store_load:
  assumes "n < 32"
  shows "\<exists>m'. Pout_store p n v m = Some m' \<and>
    (\<forall>q k. k < 32 \<longrightarrow>
      Pout_load q k m' = (if q = p \<and> k = n then Some (v AND 1) else Pout_load q k m))"
proof -
  have lt: "unat k < 32" if "k < 32" for k :: u32 using that by (simp add: word_less_nat_alt)
  have v: "v AND 1 = of_bool (bit v 0)" by (simp add: and_one_eq bit_0 mod_2_eq_odd)
  show ?thesis
    using assms
    by (auto simp: Pout_store_eq Pout_load_eq bitband_store_def bit_set_bit_iff bit_unset_bit_iff
        lt v word_unat_eq_iff)
qed

lemma pin_store_load_witness:
  "\<exists>m'. Pout_store GPIOE 5 1 reset_mcu = Some m'"
  using pin_store_load [of 5 GPIOE 1 reset_mcu] by auto

end
