(* ===== verification/Tim_Base.thy ===== *)
theory Tim_Base
  imports Rcc
begin

text \<open>
  Timers, \<open>STM32F10x_FWLib/src/stm32f10x_tim.c\<close>: reset, time base, control bits, slave mode,
  interrupts and flags. \<open>TIMx\<close> ranges over the seventeen timers the driver knows. Writing the
  status register goes through \<open>sr_store old v\<close>, what the hardware leaves there when \<open>v\<close>
  is stored over \<open>old\<close>.
\<close>

section \<open>Operations\<close>

record TIM_TimeBaseInitTypeDef =
  TIM_Prescaler :: u16
  TIM_CounterMode :: u16
  TIM_Period :: u16
  TIM_ClockDivision :: u16
  TIM_RepetitionCounter :: u8

record TIM_BDTRInitTypeDef =
  TIM_OSSRState :: u16
  TIM_OSSIState :: u16
  TIM_LOCKLevel :: u16
  TIM_DeadTime :: u16
  TIM_Break :: u16
  TIM_BreakPolarity :: u16
  TIM_AutomaticOutput :: u16

fun TIM_DeInit :: "TIM_ptr \<Rightarrow> 'a mcu_scheme \<Rightarrow> 'a mcu_scheme" where
  "TIM_DeInit TIM1 m = RCC_APB2PeriphResetCmd RCC_APB2Periph_TIM1 DISABLE
     (RCC_APB2PeriphResetCmd RCC_APB2Periph_TIM1 ENABLE m)"
| "TIM_DeInit TIM2 m = RCC_APB1PeriphResetCmd RCC_APB1Periph_TIM2 DISABLE
     (RCC_APB1PeriphResetCmd RCC_APB1Periph_TIM2 ENABLE m)"
| "TIM_DeInit TIM3 m = RCC_APB1PeriphResetCmd RCC_APB1Periph_TIM3 DISABLE
     (RCC_APB1PeriphResetCmd RCC_APB1Periph_TIM3 ENABLE m)"
| "TIM_DeInit TIM4 m = RCC_APB1PeriphResetCmd RCC_APB1Periph_TIM4 DISABLE
     (RCC_APB1PeriphResetCmd RCC_APB1Periph_TIM4 ENABLE m)"
| "TIM_DeInit TIM5 m = RCC_APB1PeriphResetCmd RCC_APB1Periph_TIM5 DISABLE
     (RCC_APB1PeriphResetCmd RCC_APB1Periph_TIM5 ENABLE m)"
| "TIM_DeInit TIM6 m = RCC_APB1PeriphResetCmd RCC_APB1Periph_TIM6 DISABLE
     (RCC_APB1PeriphResetCmd RCC_APB1Periph_TIM6 ENABLE m)"
| "TIM_DeInit TIM7 m = RCC_APB1PeriphResetCmd RCC_APB1Periph_TIM7 DISABLE
     (RCC_APB1PeriphResetCmd RCC_APB1Periph_TIM7 ENABLE m)"
| "TIM_DeInit TIM8 m = RCC_APB2PeriphResetCmd RCC_APB2Periph_TIM8 DISABLE
     (RCC_APB2PeriphResetCmd RCC_APB2Periph_TIM8 ENABLE m)"
| "TIM_DeInit TIM9 m = RCC_APB2PeriphResetCmd RCC_APB2Periph_TIM9 DISABLE
     (RCC_APB2PeriphResetCmd RCC_APB2Periph_TIM9 ENABLE m)"
| "TIM_DeInit TIM10 m = RCC_APB2PeriphResetCmd RCC_APB2Periph_TIM10 DISABLE
     (RCC_APB2PeriphResetCmd RCC_APB2Periph_TIM10 ENABLE m)"
| "TIM_DeInit TIM11 m = RCC_APB2PeriphResetCmd RCC_APB2Periph_TIM11 DISABLE
     (RCC_APB2PeriphResetCmd RCC_APB2Periph_TIM11 ENABLE m)"
| "TIM_DeInit TIM12 m = RCC_APB1PeriphResetCmd RCC_APB1Periph_TIM12 DISABLE
     (RCC_APB1PeriphResetCmd RCC_APB1Periph_TIM12 ENABLE m)"
| "TIM_DeInit TIM13 m = RCC_APB1PeriphResetCmd RCC_APB1Periph_TIM13 DISABLE
     (RCC_APB1PeriphResetCmd RCC_APB1Periph_TIM13 ENABLE m)"
| "TIM_DeInit TIM14 m = RCC_APB1PeriphResetCmd RCC_APB1Periph_TIM14 DISABLE
     (RCC_APB1PeriphResetCmd RCC_APB1Periph_TIM14 ENABLE m)"
| "TIM_DeInit TIM15 m = RCC_APB2PeriphResetCmd RCC_APB2Periph_TIM15 DISABLE
     (RCC_APB2PeriphResetCmd RCC_APB2Periph_TIM15 ENABLE m)"
| "TIM_DeInit TIM16 m = RCC_APB2PeriphResetCmd RCC_APB2Periph_TIM16 DISABLE
     (RCC_APB2PeriphResetCmd RCC_APB2Periph_TIM16 ENABLE m)"
| "TIM_DeInit TIM17 m = RCC_APB2PeriphResetCmd RCC_APB2Periph_TIM17 DISABLE
     (RCC_APB2PeriphResetCmd RCC_APB2Periph_TIM17 ENABLE m)"

definition tim_egr :: "u16 \<Rightarrow> TIM_TypeDef \<Rightarrow> TIM_TypeDef" where
  "tim_egr v t = t\<lparr>TIM_EGR_stores := TIM_EGR_stores t @ [v]\<rparr>"

definition TIM_TimeBaseInit :: "TIM_ptr \<Rightarrow> TIM_TimeBaseInitTypeDef \<Rightarrow> 'a mcu_scheme \<Rightarrow> 'a mcu_scheme" where
  "TIM_TimeBaseInit TIMx ini = upd_TIM TIMx (\<lambda>t.
     let tmpcr1 = TIM_CR1 t;
         tmpcr1 = (if TIMx = TIM1 \<or> TIMx = TIM8 \<or> TIMx = TIM2 \<or> TIMx = TIM3 \<or> TIMx = TIM4 \<or> TIMx = TIM5
                   then (tmpcr1 AND NOT (TIM_CR1_DIR OR TIM_CR1_CMS)) OR TIM_CounterMode ini
                   else tmpcr1);
         tmpcr1 = (if TIMx \<noteq> TIM6 \<and> TIMx \<noteq> TIM7
                   then (tmpcr1 AND NOT TIM_CR1_CKD) OR TIM_ClockDivision ini
                   else tmpcr1);
         t = t\<lparr>TIM_CR1 := tmpcr1\<rparr>;
         t = t\<lparr>TIM_ARR := TIM_Period ini\<rparr>;
         t = t\<lparr>TIM_PSC := TIM_Prescaler ini\<rparr>;
         t = (if TIMx = TIM1 \<or> TIMx = TIM8 \<or> TIMx = TIM15 \<or> TIMx = TIM16 \<or> TIMx = TIM17
              then t\<lparr>TIM_RCR := ucast (TIM_RepetitionCounter ini)\<rparr> else t)
     in tim_egr TIM_PSCReloadMode_Immediate t)"

definition TIM_BDTRConfig :: "TIM_ptr \<Rightarrow> TIM_BDTRInitTypeDef \<Rightarrow> 'a mcu_scheme \<Rightarrow> 'a mcu_scheme" where
  "TIM_BDTRConfig TIMx ini = upd_TIM TIMx (\<lambda>t.
     t\<lparr>TIM_BDTR := TIM_OSSRState ini OR TIM_OSSIState ini OR TIM_LOCKLevel ini OR TIM_DeadTime ini OR
        TIM_Break ini OR TIM_BreakPolarity ini OR TIM_AutomaticOutput ini\<rparr>)"

definition TIM_TimeBaseStructInit :: TIM_TimeBaseInitTypeDef where
  "TIM_TimeBaseStructInit = \<lparr>TIM_Prescaler = 0x0000, TIM_CounterMode = TIM_CounterMode_Up,
     TIM_Period = 0xFFFF, TIM_ClockDivision = TIM_CKD_DIV1, TIM_RepetitionCounter = 0x00\<rparr>"

definition TIM_BDTRStructInit :: TIM_BDTRInitTypeDef where
  "TIM_BDTRStructInit = \<lparr>TIM_OSSRState = TIM_OSSRState_Disable, TIM_OSSIState = TIM_OSSIState_Disable,
     TIM_LOCKLevel = TIM_LOCKLevel_OFF, TIM_DeadTime = 0x00, TIM_Break = TIM_Break_Disable,
     TIM_BreakPolarity = TIM_BreakPolarity_Low, TIM_AutomaticOutput = TIM_AutomaticOutput_Disable\<rparr>"

definition TIM_Cmd :: "TIM_ptr \<Rightarrow> FunctionalState \<Rightarrow> 'a mcu_scheme \<Rightarrow> 'a mcu_scheme" where
  "TIM_Cmd TIMx st = upd_TIM TIMx (\<lambda>t.
     if st \<noteq> DISABLE then t\<lparr>TIM_CR1 := TIM_CR1 t OR TIM_CR1_CEN\<rparr>
     else t\<lparr>TIM_CR1 := TIM_CR1 t AND NOT TIM_CR1_CEN\<rparr>)"

definition TIM_CtrlPWMOutputs :: "TIM_ptr \<Rightarrow> FunctionalState \<Rightarrow> 'a mcu_scheme \<Rightarrow> 'a mcu_scheme" where
  "TIM_CtrlPWMOutputs TIMx st = upd_TIM TIMx (\<lambda>t.
     if st \<noteq> DISABLE then t\<lparr>TIM_BDTR := TIM_BDTR t OR TIM_BDTR_MOE\<rparr>
     else t\<lparr>TIM_BDTR := TIM_BDTR t AND NOT TIM_BDTR_MOE\<rparr>)"

definition TIM_ITConfig :: "TIM_ptr \<Rightarrow> u16 \<Rightarrow> FunctionalState \<Rightarrow> 'a mcu_scheme \<Rightarrow> 'a mcu_scheme" where
  "TIM_ITConfig TIMx it st = upd_TIM TIMx (\<lambda>t.
     if st \<noteq> DISABLE then t\<lparr>TIM_DIER := TIM_DIER t OR it\<rparr>
     else t\<lparr>TIM_DIER := TIM_DIER t AND NOT it\<rparr>)"

definition TIM_GenerateEvent :: "TIM_ptr \<Rightarrow> u16 \<Rightarrow> 'a mcu_scheme \<Rightarrow> 'a mcu_scheme" where
  "TIM_GenerateEvent TIMx v = upd_TIM TIMx (tim_egr v)"

definition TIM_DMAConfig :: "TIM_ptr \<Rightarrow> u16 \<Rightarrow> u16 \<Rightarrow> 'a mcu_scheme \<Rightarrow> 'a mcu_scheme" where
  "TIM_DMAConfig TIMx base len = upd_TIM TIMx (\<lambda>t. t\<lparr>TIM_DCR := base OR len\<rparr>)"

definition TIM_DMACmd :: "TIM_ptr \<Rightarrow> u16 \<Rightarrow> FunctionalState \<Rightarrow> 'a mcu_scheme \<Rightarrow> 'a mcu_scheme" where
  "TIM_DMACmd TIMx it st = upd_TIM TIMx (\<lambda>t.
     if st \<noteq> DISABLE then t\<lparr>TIM_DIER := TIM_DIER t OR it\<rparr>
     else t\<lparr>TIM_DIER := TIM_DIER t AND NOT it\<rparr>)"

definition TIM_InternalClockConfig :: "TIM_ptr \<Rightarrow> 'a mcu_scheme \<Rightarrow> 'a mcu_scheme" where
  "TIM_InternalClockConfig TIMx = upd_TIM TIMx (\<lambda>t. t\<lparr>TIM_SMCR := TIM_SMCR t AND NOT TIM_SMCR_SMS\<rparr>)"

definition TIM_SelectInputTrigger :: "TIM_ptr \<Rightarrow> u16 \<Rightarrow> 'a mcu_scheme \<Rightarrow> 'a mcu_scheme" where
  "TIM_SelectInputTrigger TIMx v = upd_TIM TIMx (\<lambda>t.
     let tmp = TIM_SMCR t;
         tmp = tmp AND NOT TIM_SMCR_TS;
         tmp = tmp OR v
     in t\<lparr>TIM_SMCR := tmp\<rparr>)"

definition TIM_ITRxExternalClockConfig :: "TIM_ptr \<Rightarrow> u16 \<Rightarrow> 'a mcu_scheme \<Rightarrow> 'a mcu_scheme" where
  "TIM_ITRxExternalClockConfig TIMx src m = 
     (let m = TIM_SelectInputTrigger TIMx src m
      in upd_TIM TIMx (\<lambda>t. t\<lparr>TIM_SMCR := TIM_SMCR t OR TIM_SlaveMode_External1\<rparr>) m)"

definition TIM_ETRConfig :: "TIM_ptr \<Rightarrow> u16 \<Rightarrow> u16 \<Rightarrow> u16 \<Rightarrow> 'a mcu_scheme \<Rightarrow> 'a mcu_scheme" where
  "TIM_ETRConfig TIMx psc pol filt = upd_TIM TIMx (\<lambda>t.
     let tmpsmcr = TIM_SMCR t;
         tmpsmcr = tmpsmcr AND SMCR_ETR_Mask;
         tmpsmcr = tmpsmcr OR (psc OR (pol OR push_bit 8 filt))
     in t\<lparr>TIM_SMCR := tmpsmcr\<rparr>)"

definition TIM_ETRClockMode1Config :: "TIM_ptr \<Rightarrow> u16 \<Rightarrow> u16 \<Rightarrow> u16 \<Rightarrow> 'a mcu_scheme \<Rightarrow> 'a mcu_scheme" where
  "TIM_ETRClockMode1Config TIMx psc pol filt m = 
     (let m = TIM_ETRConfig TIMx psc pol filt m
      in upd_TIM TIMx (\<lambda>t.
           let tmpsmcr = TIM_SMCR t;
               tmpsmcr = tmpsmcr AND NOT TIM_SMCR_SMS;
               tmpsmcr = tmpsmcr OR TIM_SlaveMode_External1;
               tmpsmcr = tmpsmcr AND NOT TIM_SMCR_TS;
               tmpsmcr = tmpsmcr OR TIM_TS_ETRF
           in t\<lparr>TIM_SMCR := tmpsmcr\<rparr>) m)"

definition TIM_ETRClockMode2Config :: "TIM_ptr \<Rightarrow> u16 \<Rightarrow> u16 \<Rightarrow> u16 \<Rightarrow> 'a mcu_scheme \<Rightarrow> 'a mcu_scheme" where
  "TIM_ETRClockMode2Config TIMx psc pol filt m = 
     (let m = TIM_ETRConfig TIMx psc pol filt m
      in upd_TIM TIMx (\<lambda>t. t\<lparr>TIM_SMCR := TIM_SMCR t OR TIM_SMCR_ECE\<rparr>) m)"

definition TIM_PrescalerConfig :: "TIM_ptr \<Rightarrow> u16 \<Rightarrow> u16 \<Rightarrow> 'a mcu_scheme \<Rightarrow> 'a mcu_scheme" where
  "TIM_PrescalerConfig TIMx psc reload = upd_TIM TIMx (\<lambda>t.
     let t = t\<lparr>TIM_PSC := psc\<rparr> in tim_egr reload t)"

definition TIM_CounterModeConfig :: "TIM_ptr \<Rightarrow> u16 \<Rightarrow> 'a mcu_scheme \<Rightarrow> 'a mcu_scheme" where
  "TIM_CounterModeConfig TIMx v = upd_TIM TIMx (\<lambda>t.
     let tmp = TIM_CR1 t;
         tmp = tmp AND NOT (TIM_CR1_DIR OR TIM_CR1_CMS);
         tmp = tmp OR v
     in t\<lparr>TIM_CR1 := tmp\<rparr>)"

definition TIM_ARRPreloadConfig :: "TIM_ptr \<Rightarrow> FunctionalState \<Rightarrow> 'a mcu_scheme \<Rightarrow> 'a mcu_scheme" where
  "TIM_ARRPreloadConfig TIMx st = upd_TIM TIMx (\<lambda>t.
     if st \<noteq> DISABLE then t\<lparr>TIM_CR1 := TIM_CR1 t OR TIM_CR1_ARPE\<rparr>
     else t\<lparr>TIM_CR1 := TIM_CR1 t AND NOT TIM_CR1_ARPE\<rparr>)"

definition TIM_SelectCOM :: "TIM_ptr \<Rightarrow> FunctionalState \<Rightarrow> 'a mcu_scheme \<Rightarrow> 'a mcu_scheme" where
  "TIM_SelectCOM TIMx st = upd_TIM TIMx (\<lambda>t.
     if st \<noteq> DISABLE then t\<lparr>TIM_CR2 := TIM_CR2 t OR TIM_CR2_CCUS\<rparr>
     else t\<lparr>TIM_CR2 := TIM_CR2 t AND NOT TIM_CR2_CCUS\<rparr>)"

definition TIM_SelectCCDMA :: "TIM_ptr \<Rightarrow> FunctionalState \<Rightarrow> 'a mcu_scheme \<Rightarrow> 'a mcu_scheme" where
  "TIM_SelectCCDMA TIMx st = upd_TIM TIMx (\<lambda>t.
     if st \<noteq> DISABLE then t\<lparr>TIM_CR2 := TIM_CR2 t OR TIM_CR2_CCDS\<rparr>
     else t\<lparr>TIM_CR2 := TIM_CR2 t AND NOT TIM_CR2_CCDS\<rparr>)"

definition TIM_CCPreloadControl :: "TIM_ptr \<Rightarrow> FunctionalState \<Rightarrow> 'a mcu_scheme \<Rightarrow> 'a mcu_scheme" where
  "TIM_CCPreloadControl TIMx st = upd_TIM TIMx (\<lambda>t.
     if st \<noteq> DISABLE then t\<lparr>TIM_CR2 := TIM_CR2 t OR TIM_CR2_CCPC\<rparr>
     else t\<lparr>TIM_CR2 := TIM_CR2 t AND NOT TIM_CR2_CCPC\<rparr>)"

definition TIM_UpdateDisableConfig :: "TIM_ptr \<Rightarrow> FunctionalState \<Rightarrow> 'a mcu_scheme \<Rightarrow> 'a mcu_scheme" where
  "TIM_UpdateDisableConfig TIMx st = upd_TIM TIMx (\<lambda>t.
     if st \<noteq> DISABLE then t\<lparr>TIM_CR1 := TIM_CR1 t OR TIM_CR1_UDIS\<rparr>
     else t\<lparr>TIM_CR1 := TIM_CR1 t AND NOT TIM_CR1_UDIS\<rparr>)"

definition TIM_UpdateRequestConfig :: "TIM_ptr \<Rightarrow> u16 \<Rightarrow> 'a mcu_scheme \<Rightarrow> 'a mcu_scheme" where
  "TIM_UpdateRequestConfig TIMx src = upd_TIM TIMx (\<lambda>t.
     if src \<noteq> TIM_UpdateSource_Global then t\<lparr>TIM_CR1 := TIM_CR1 t OR TIM_CR1_URS\<rparr>
     else t\<lparr>TIM_CR1 := TIM_CR1 t AND NOT TIM_CR1_URS\<rparr>)"

definition TIM_SelectHallSensor :: "TIM_ptr \<Rightarrow> FunctionalState \<Rightarrow> 'a mcu_scheme \<Rightarrow> 'a mcu_scheme" where
  "TIM_SelectHallSensor TIMx st = upd_TIM TIMx (\<lambda>t.
     if st \<noteq> DISABLE then t\<lparr>TIM_CR2 := TIM_CR2 t OR TIM_CR2_TI1S\<rparr>
     else t\<lparr>TIM_CR2 := TIM_CR2 t AND NOT TIM_CR2_TI1S\<rparr>)"

definition TIM_SelectOnePulseMode :: "TIM_ptr \<Rightarrow> u16 \<Rightarrow> 'a mcu_scheme \<Rightarrow> 'a mcu_scheme" where
  "TIM_SelectOnePulseMode TIMx v = upd_TIM TIMx (\<lambda>t.
     let t = t\<lparr>TIM_CR1 := TIM_CR1 t AND NOT TIM_CR1_OPM\<rparr>
     in t\<lparr>TIM_CR1 := TIM_CR1 t OR v\<rparr>)"

definition TIM_SelectOutputTrigger :: "TIM_ptr \<Rightarrow> u16 \<Rightarrow> 'a mcu_scheme \<Rightarrow> 'a mcu_scheme" where
  "TIM_SelectOutputTrigger TIMx v = upd_TIM TIMx (\<lambda>t.
     let t = t\<lparr>TIM_CR2 := TIM_CR2 t AND NOT TIM_CR2_MMS\<rparr>
     in t\<lparr>TIM_CR2 := TIM_CR2 t OR v\<rparr>)"

definition TIM_SelectSlaveMode :: "TIM_ptr \<Rightarrow> u16 \<Rightarrow> 'a mcu_scheme \<Rightarrow> 'a mcu_scheme" where
  "TIM_SelectSlaveMode TIMx v = upd_TIM TIMx (\<lambda>t.
     let t = t\<lparr>TIM_SMCR := TIM_SMCR t AND NOT TIM_SMCR_SMS\<rparr>
     in t\<lparr>TIM_SMCR := TIM_SMCR t OR v\<rparr>)"

definition TIM_SelectMasterSlaveMode :: "TIM_ptr \<Rightarrow> u16 \<Rightarrow> 'a mcu_scheme \<Rightarrow> 'a mcu_scheme" where
  "TIM_SelectMasterSlaveMode TIMx v = upd_TIM TIMx (\<lambda>t.
     let t = t\<lparr>TIM_SMCR := TIM_SMCR t AND NOT TIM_SMCR_MSM\<rparr>
     in t\<lparr>TIM_SMCR := TIM_SMCR t OR v\<rparr>)"

definition TIM_SetCounter :: "TIM_ptr \<Rightarrow> u16 \<Rightarrow> 'a mcu_scheme \<Rightarrow> 'a mcu_scheme" where
  "TIM_SetCounter TIMx v = upd_TIM TIMx (\<lambda>t. t\<lparr>TIM_CNT := v\<rparr>)"

definition TIM_SetAutoreload :: "TIM_ptr \<Rightarrow> u16 \<Rightarrow> 'a mcu_scheme \<Rightarrow> 'a mcu_scheme" where
  "TIM_SetAutoreload TIMx v = upd_TIM TIMx (\<lambda>t. t\<lparr>TIM_ARR := v\<rparr>)"

definition TIM_SetClockDivision :: "TIM_ptr \<Rightarrow> u16 \<Rightarrow> 'a mcu_scheme \<Rightarrow> 'a mcu_scheme" where
  "TIM_SetClockDivision TIMx v = upd_TIM TIMx (\<lambda>t.
     let t = t\<lparr>TIM_CR1 := TIM_CR1 t AND NOT TIM_CR1_CKD\<rparr>
     in t\<lparr>TIM_CR1 := TIM_CR1 t OR v\<rparr>)"

definition TIM_GetCounter :: "TIM_ptr \<Rightarrow> 'a mcu_scheme \<Rightarrow> u16" where
  "TIM_GetCounter TIMx m = TIM_CNT (TIM m TIMx)"

definition TIM_GetPrescaler :: "TIM_ptr \<Rightarrow> 'a mcu_scheme \<Rightarrow> u16" where
  "TIM_GetPrescaler TIMx m = TIM_PSC (TIM m TIMx)"

definition TIM_GetFlagStatus :: "TIM_ptr \<Rightarrow> u16 \<Rightarrow> 'a mcu_scheme \<Rightarrow> FlagStatus" where
  "TIM_GetFlagStatus TIMx flag m = (if TIM_SR (TIM m TIMx) AND flag \<noteq> 0 then SET else RESET)"

definition TIM_ClearFlag ::
  "(u16 \<Rightarrow> u16 \<Rightarrow> u16) \<Rightarrow> TIM_ptr \<Rightarrow> u16 \<Rightarrow> 'a mcu_scheme \<Rightarrow> 'a mcu_scheme" where
  "TIM_ClearFlag sr_store TIMx flag = upd_TIM TIMx (\<lambda>t. t\<lparr>TIM_SR := sr_store (TIM_SR t) (NOT flag)\<rparr>)"

definition TIM_GetITStatus :: "TIM_ptr \<Rightarrow> u16 \<Rightarrow> 'a mcu_scheme \<Rightarrow> FlagStatus" where
  "TIM_GetITStatus TIMx it m =
     (let itstatus = TIM_SR (TIM m TIMx) AND it;
          itenable = TIM_DIER (TIM m TIMx) AND it
      in if itstatus \<noteq> 0 \<and> itenable \<noteq> 0 then SET else RESET)"

definition TIM_ClearITPendingBit ::
  "(u16 \<Rightarrow> u16 \<Rightarrow> u16) \<Rightarrow> TIM_ptr \<Rightarrow> u16 \<Rightarrow> 'a mcu_scheme \<Rightarrow> 'a mcu_scheme" where
  "TIM_ClearITPendingBit sr_store TIMx it = upd_TIM TIMx (\<lambda>t. t\<lparr>TIM_SR := sr_store (TIM_SR t) (NOT it)\<rparr>)"

section \<open>Properties of the operations\<close>

section \<open>Reset lines\<close>

text \<open>The reset line of each timer: the bus (\<open>True\<close> for APB2) and the bit in its register.\<close>

fun tim_reset_line :: "TIM_ptr \<Rightarrow> bool \<times> nat" where
  "tim_reset_line TIM1 = (True, 11)"
| "tim_reset_line TIM2 = (False, 0)"
| "tim_reset_line TIM3 = (False, 1)"
| "tim_reset_line TIM4 = (False, 2)"
| "tim_reset_line TIM5 = (False, 3)"
| "tim_reset_line TIM6 = (False, 4)"
| "tim_reset_line TIM7 = (False, 5)"
| "tim_reset_line TIM8 = (True, 13)"
| "tim_reset_line TIM9 = (True, 19)"
| "tim_reset_line TIM10 = (True, 20)"
| "tim_reset_line TIM11 = (True, 21)"
| "tim_reset_line TIM12 = (False, 6)"
| "tim_reset_line TIM13 = (False, 7)"
| "tim_reset_line TIM14 = (False, 8)"
| "tim_reset_line TIM15 = (True, 16)"
| "tim_reset_line TIM16 = (True, 17)"
| "tim_reset_line TIM17 = (True, 18)"

definition reset_pulse :: "bool \<times> nat \<Rightarrow> RCC_TypeDef \<Rightarrow> rcc_reset_store list" where
  "reset_pulse l r = (case l of
     (True, n) \<Rightarrow> [APB2RSTR_store (set_bit n (RCC_APB2RSTR r)), APB2RSTR_store (unset_bit n (RCC_APB2RSTR r))]
   | (False, n) \<Rightarrow> [APB1RSTR_store (set_bit n (RCC_APB1RSTR r)), APB1RSTR_store (unset_bit n (RCC_APB1RSTR r))])"

lemma set_unset_mask:
  "set_bit n r = r OR push_bit n 1" "unset_bit n r = r AND NOT (push_bit n 1)" for r :: u32
  by (simp_all add: set_bit_eq_or unset_bit_eq_and_not)

text \<open>
  \<open>TIM_DeInit\<close> resets exactly the timer it is given: it pulses that timer's own line (set,
  then clear), leaves every timer register, clock and other peripheral to the hardware, and no
  two timers share a line.
\<close>

theorem timer_reset_pulse:
  "RCC_reset_stores (RCC (TIM_DeInit p m)) = RCC_reset_stores (RCC m) @ reset_pulse (tim_reset_line p) (RCC m) \<and>
   TIM (TIM_DeInit p m) = TIM m \<and> RCC_CFGR (RCC (TIM_DeInit p m)) = RCC_CFGR (RCC m) \<and>
   inj tim_reset_line"
proof (intro conjI)
  show "RCC_reset_stores (RCC (TIM_DeInit p m)) = RCC_reset_stores (RCC m) @ reset_pulse (tim_reset_line p) (RCC m)"
    by (cases p) (simp_all add: apb1_pulse apb2_pulse reset_pulse_def set_unset_mask)
  show "TIM (TIM_DeInit p m) = TIM m" "RCC_CFGR (RCC (TIM_DeInit p m)) = RCC_CFGR (RCC m)"
    by (cases p; simp add: apb1_pulse apb2_pulse)+
  show "inj tim_reset_line"
  proof (rule injI)
    fix a b assume "tim_reset_line a = tim_reset_line b"
    then show "a = b" by (cases a; cases b; simp)
  qed
qed

section \<open>Time base\<close>

text \<open>
  \<open>TIM_TimeBaseInit\<close> with legal mode and division codes: period and prescaler are the
  given ones, an update event is requested, the mode and division fields of \<open>CR1\<close> hold the
  given codes on the timers that have them, the other bits of \<open>CR1\<close> (the enable bit among them)
  and the other timers stay as they were.
\<close>

theorem time_base_init:
  assumes "TIM_CounterMode ini AND NOT 0x70 = 0" and "TIM_ClockDivision ini AND NOT 0x300 = 0"
    and "t = TIM (TIM_TimeBaseInit p ini m) p"
  shows "TIM_ARR t = TIM_Period ini \<and> TIM_PSC t = TIM_Prescaler ini \<and>
    TIM_EGR_stores t = TIM_EGR_stores (TIM m p) @ [0x0001] \<and>
    (p \<in> {TIM1, TIM2, TIM3, TIM4, TIM5, TIM8} \<longrightarrow> TIM_CR1 t AND 0x70 = TIM_CounterMode ini) \<and>
    (p \<notin> {TIM6, TIM7} \<longrightarrow> TIM_CR1 t AND 0x300 = TIM_ClockDivision ini) \<and>
    TIM_CR1 t AND NOT 0x370 = TIM_CR1 (TIM m p) AND NOT 0x370 \<and>
    (\<forall>q. q \<noteq> p \<longrightarrow> TIM (TIM_TimeBaseInit p ini m) q = TIM m q)"
proof -
  have cr1: "TIM_CR1 t =
      (let c = TIM_CR1 (TIM m p);
           c = (if p \<in> {TIM1, TIM2, TIM3, TIM4, TIM5, TIM8} then field_put 0x70 (TIM_CounterMode ini) c else c)
       in if p \<notin> {TIM6, TIM7} then field_put 0x300 (TIM_ClockDivision ini) c else c)"
    using assms(3) by (auto simp: TIM_TimeBaseInit_def tim_egr_def Let_def field_put_def)
  have "TIM_CR1 t AND NOT 0x370 = TIM_CR1 (TIM m p) AND NOT 0x370"
    using assms(1,2) unfolding cr1 by (simp add: Let_def bits16 bit_simps bit_field_put)
  moreover have "p \<in> {TIM1, TIM2, TIM3, TIM4, TIM5, TIM8} \<longrightarrow> TIM_CR1 t AND 0x70 = TIM_CounterMode ini"
    using field_put_other [OF assms(2), of "0x70"]
    by (auto simp add: cr1 Let_def field_put_get [OF assms(1)])
  moreover have "p \<notin> {TIM6, TIM7} \<longrightarrow> TIM_CR1 t AND 0x300 = TIM_ClockDivision ini"
    by (simp add: cr1 Let_def field_put_get [OF assms(2)])
  ultimately show ?thesis
    by (auto simp: assms(3) TIM_TimeBaseInit_def tim_egr_def Let_def)
qed

lemma time_base_init_witness:
  "TIM_ARR (TIM (TIM_TimeBaseInit TIM2 (TIM_TimeBaseStructInit\<lparr>TIM_Period := 999\<rparr>) reset_mcu) TIM2) = 999"
  using time_base_init [of "TIM_TimeBaseStructInit\<lparr>TIM_Period := 999\<rparr>"
      "TIM (TIM_TimeBaseInit TIM2 (TIM_TimeBaseStructInit\<lparr>TIM_Period := 999\<rparr>) reset_mcu) TIM2" TIM2 reset_mcu]
  by (simp add: TIM_TimeBaseStructInit_def)

section \<open>Interrupt flags\<close>

text \<open>A bit of the status register is cleared by storing 0 to it; storing 1 keeps it.\<close>

definition rc_w0 :: "(u16 \<Rightarrow> u16 \<Rightarrow> u16) \<Rightarrow> bool" where
  "rc_w0 sr_store \<longleftrightarrow> (\<forall>old v. sr_store old v = old AND v)"

text \<open>
  On a status register whose bits are cleared by storing 0, \<open>TIM_ClearITPendingBit\<close>
  acknowledges its interrupt, keeps every other pending interrupt and every other timer, and
  leaves the enables alone.
\<close>

theorem clear_pending_exact:
  assumes "rc_w0 sr_store"
  shows "TIM_GetITStatus p it (TIM_ClearITPendingBit sr_store p it m) = RESET \<and>
    (\<forall>jt. jt AND it = 0 \<longrightarrow>
       TIM_GetITStatus p jt (TIM_ClearITPendingBit sr_store p it m) = TIM_GetITStatus p jt m) \<and>
    (\<forall>q jt. q \<noteq> p \<longrightarrow> TIM_GetITStatus q jt (TIM_ClearITPendingBit sr_store p it m) = TIM_GetITStatus q jt m)"
proof -
  have a: "(sr AND NOT it) AND it = 0" for sr :: u16 by (simp add: bits16 bit_simps)
  have b: "(sr AND NOT it) AND jt = sr AND jt" if "jt AND it = 0" for sr jt :: u16
    using disjoint_maskD [OF that] by (intro bit_word_eqI) (auto simp: bit_simps)
  show ?thesis
    using assms by (auto simp: TIM_GetITStatus_def TIM_ClearITPendingBit_def rc_w0_def a b Let_def)
qed

lemma clear_pending_exact_witness:
  "TIM_GetITStatus TIM3 1 (TIM_ClearITPendingBit (AND) TIM3 1
     (upd_TIM TIM3 (\<lambda>t. t\<lparr>TIM_SR := 0x3, TIM_DIER := 0x3\<rparr>) reset_mcu)) = RESET \<and>
   TIM_GetITStatus TIM3 2 (TIM_ClearITPendingBit (AND) TIM3 1
     (upd_TIM TIM3 (\<lambda>t. t\<lparr>TIM_SR := 0x3, TIM_DIER := 0x3\<rparr>) reset_mcu)) = SET"
  using clear_pending_exact [of "(AND)" TIM3 1
      "upd_TIM TIM3 (\<lambda>t. t\<lparr>TIM_SR := 0x3, TIM_DIER := 0x3\<rparr>) reset_mcu"]
  by (simp add: rc_w0_def TIM_GetITStatus_def)

end
