(* ===== verification/Tim_Output.thy ===== *)
theory Tim_Output
  imports Tim_Base
begin

text \<open>
  Timers, output compare side of \<open>STM32F10x_FWLib/src/stm32f10x_tim.c\<close>: the four channels'
  initialisation, forced outputs, preload, fast, clear and polarity bits, channel enables, the
  output mode selected through an address, the compare registers. A shift whose \<open>int\<close> result
  overflows and an access outside \<open>CCMR1\<close>/\<open>CCMR2\<close> are undefined in C: \<open>None\<close>.
\<close>

section \<open>Operations\<close>

record TIM_OCInitTypeDef =
  TIM_OCMode :: u16
  TIM_OutputState :: u16
  TIM_OutputNState :: u16
  TIM_Pulse :: u16
  TIM_OCPolarity :: u16
  TIM_OCNPolarity :: u16
  TIM_OCIdleState :: u16
  TIM_OCNIdleState :: u16

definition TIM_OC1Init :: "TIM_ptr \<Rightarrow> TIM_OCInitTypeDef \<Rightarrow> 'a mcu_scheme \<Rightarrow> 'a mcu_scheme" where
  "TIM_OC1Init TIMx ini = upd_TIM TIMx (\<lambda>t.
     let t = t\<lparr>TIM_CCER := TIM_CCER t AND NOT TIM_CCER_CC1E\<rparr>;
         tmpccer = TIM_CCER t;
         tmpcr2 = TIM_CR2 t;
         tmpccmrx = TIM_CCMR1 t;
         tmpccmrx = tmpccmrx AND NOT TIM_CCMR1_OC1M;
         tmpccmrx = tmpccmrx AND NOT TIM_CCMR1_CC1S;
         tmpccmrx = tmpccmrx OR TIM_OCMode ini;
         tmpccer = tmpccer AND NOT TIM_CCER_CC1P;
         tmpccer = tmpccer OR TIM_OCPolarity ini;
         tmpccer = tmpccer OR TIM_OutputState ini;
         (tmpccer, tmpcr2) =
           (if TIMx = TIM1 \<or> TIMx = TIM8 \<or> TIMx = TIM15 \<or> TIMx = TIM16 \<or> TIMx = TIM17 then
              (let tmpccer = tmpccer AND NOT TIM_CCER_CC1NP;
                   tmpccer = tmpccer OR TIM_OCNPolarity ini;
                   tmpccer = tmpccer AND NOT TIM_CCER_CC1NE;
                   tmpccer = tmpccer OR TIM_OutputNState ini;
                   tmpcr2 = tmpcr2 AND NOT TIM_CR2_OIS1;
                   tmpcr2 = tmpcr2 AND NOT TIM_CR2_OIS1N;
                   tmpcr2 = tmpcr2 OR TIM_OCIdleState ini;
                   tmpcr2 = tmpcr2 OR TIM_OCNIdleState ini
               in (tmpccer, tmpcr2))
            else (tmpccer, tmpcr2));
         t = t\<lparr>TIM_CR2 := tmpcr2\<rparr>;
         t = t\<lparr>TIM_CCMR1 := tmpccmrx\<rparr>;
         t = t\<lparr>TIM_CCR1 := TIM_Pulse ini\<rparr>
     in t\<lparr>TIM_CCER := tmpccer\<rparr>)"

definition TIM_OC2Init :: "TIM_ptr \<Rightarrow> TIM_OCInitTypeDef \<Rightarrow> 'a mcu_scheme \<Rightarrow> 'a mcu_scheme" where
  "TIM_OC2Init TIMx ini = upd_TIM TIMx (\<lambda>t.
     let t = t\<lparr>TIM_CCER := TIM_CCER t AND NOT TIM_CCER_CC2E\<rparr>;
         tmpccer = TIM_CCER t;
         tmpcr2 = TIM_CR2 t;
         tmpccmrx = TIM_CCMR1 t;
         tmpccmrx = tmpccmrx AND NOT TIM_CCMR1_OC2M;
         tmpccmrx = tmpccmrx AND NOT TIM_CCMR1_CC2S;
         tmpccmrx = tmpccmrx OR push_bit 8 (TIM_OCMode ini);
         tmpccer = tmpccer AND NOT TIM_CCER_CC2P;
         tmpccer = tmpccer OR push_bit 4 (TIM_OCPolarity ini);
         tmpccer = tmpccer OR push_bit 4 (TIM_OutputState ini);
         (tmpccer, tmpcr2) =
           (if TIMx = TIM1 \<or> TIMx = TIM8 then
              (let tmpccer = tmpccer AND NOT TIM_CCER_CC2NP;
                   tmpccer = tmpccer OR push_bit 4 (TIM_OCNPolarity ini);
                   tmpccer = tmpccer AND NOT TIM_CCER_CC2NE;
                   tmpccer = tmpccer OR push_bit 4 (TIM_OutputNState ini);
                   tmpcr2 = tmpcr2 AND NOT TIM_CR2_OIS2;
                   tmpcr2 = tmpcr2 AND NOT TIM_CR2_OIS2N;
                   tmpcr2 = tmpcr2 OR push_bit 2 (TIM_OCIdleState ini);
                   tmpcr2 = tmpcr2 OR push_bit 2 (TIM_OCNIdleState ini)
               in (tmpccer, tmpcr2))
            else (tmpccer, tmpcr2));
         t = t\<lparr>TIM_CR2 := tmpcr2\<rparr>;
         t = t\<lparr>TIM_CCMR1 := tmpccmrx\<rparr>;
         t = t\<lparr>TIM_CCR2 := TIM_Pulse ini\<rparr>
     in t\<lparr>TIM_CCER := tmpccer\<rparr>)"

definition TIM_OC3Init :: "TIM_ptr \<Rightarrow> TIM_OCInitTypeDef \<Rightarrow> 'a mcu_scheme \<Rightarrow> 'a mcu_scheme" where
  "TIM_OC3Init TIMx ini = upd_TIM TIMx (\<lambda>t.
     let t = t\<lparr>TIM_CCER := TIM_CCER t AND NOT TIM_CCER_CC3E\<rparr>;
         tmpccer = TIM_CCER t;
         tmpcr2 = TIM_CR2 t;
         tmpccmrx = TIM_CCMR2 t;
         tmpccmrx = tmpccmrx AND NOT TIM_CCMR2_OC3M;
         tmpccmrx = tmpccmrx AND NOT TIM_CCMR2_CC3S;
         tmpccmrx = tmpccmrx OR TIM_OCMode ini;
         tmpccer = tmpccer AND NOT TIM_CCER_CC3P;
         tmpccer = tmpccer OR push_bit 8 (TIM_OCPolarity ini);
         tmpccer = tmpccer OR push_bit 8 (TIM_OutputState ini);
         (tmpccer, tmpcr2) =
           (if TIMx = TIM1 \<or> TIMx = TIM8 then
              (let tmpccer = tmpccer AND NOT TIM_CCER_CC3NP;
                   tmpccer = tmpccer OR push_bit 8 (TIM_OCNPolarity ini);
                   tmpccer = tmpccer AND NOT TIM_CCER_CC3NE;
                   tmpccer = tmpccer OR push_bit 8 (TIM_OutputNState ini);
                   tmpcr2 = tmpcr2 AND NOT TIM_CR2_OIS3;
                   tmpcr2 = tmpcr2 AND NOT TIM_CR2_OIS3N;
                   tmpcr2 = tmpcr2 OR push_bit 4 (TIM_OCIdleState ini);
                   tmpcr2 = tmpcr2 OR push_bit 4 (TIM_OCNIdleState ini)
               in (tmpccer, tmpcr2))
            else (tmpccer, tmpcr2));
         t = t\<lparr>TIM_CR2 := tmpcr2\<rparr>;
         t = t\<lparr>TIM_CCMR2 := tmpccmrx\<rparr>;
         t = t\<lparr>TIM_CCR3 := TIM_Pulse ini\<rparr>
     in t\<lparr>TIM_CCER := tmpccer\<rparr>)"

definition TIM_OC4Init :: "TIM_ptr \<Rightarrow> TIM_OCInitTypeDef \<Rightarrow> 'a mcu_scheme \<Rightarrow> 'a mcu_scheme" where
  "TIM_OC4Init TIMx ini = upd_TIM TIMx (\<lambda>t.
     let t = t\<lparr>TIM_CCER := TIM_CCER t AND NOT TIM_CCER_CC4E\<rparr>;
         tmpccer = TIM_CCER t;
         tmpcr2 = TIM_CR2 t;
         tmpccmrx = TIM_CCMR2 t;
         tmpccmrx = tmpccmrx AND NOT TIM_CCMR2_OC4M;
         tmpccmrx = tmpccmrx AND NOT TIM_CCMR2_CC4S;
         tmpccmrx = tmpccmrx OR push_bit 8 (TIM_OCMode ini);
         tmpccer = tmpccer AND NOT TIM_CCER_CC4P;
         tmpccer = tmpccer OR push_bit 12 (TIM_OCPolarity ini);
         tmpccer = tmpccer OR push_bit 12 (TIM_OutputState ini);
         tmpcr2 =
           (if TIMx = TIM1 \<or> TIMx = TIM8 then
              (let tmpcr2 = tmpcr2 AND NOT TIM_CR2_OIS4
               in tmpcr2 OR push_bit 6 (TIM_OCIdleState ini))
            else tmpcr2);
         t = t\<lparr>TIM_CR2 := tmpcr2\<rparr>;
         t = t\<lparr>TIM_CCMR2 := tmpccmrx\<rparr>;
         t = t\<lparr>TIM_CCR4 := TIM_Pulse ini\<rparr>
     in t\<lparr>TIM_CCER := tmpccer\<rparr>)"

definition TIM_OCStructInit :: TIM_OCInitTypeDef where
  "TIM_OCStructInit = \<lparr>TIM_OCMode = TIM_OCMode_Timing, TIM_OutputState = TIM_OutputState_Disable,
     TIM_OutputNState = TIM_OutputNState_Disable, TIM_Pulse = 0x0000, TIM_OCPolarity = TIM_OCPolarity_High,
     TIM_OCNPolarity = TIM_OCPolarity_High, TIM_OCIdleState = TIM_OCIdleState_Reset,
     TIM_OCNIdleState = TIM_OCNIdleState_Reset\<rparr>"

definition TIM_ForcedOC1Config :: "TIM_ptr \<Rightarrow> u16 \<Rightarrow> 'a mcu_scheme \<Rightarrow> 'a mcu_scheme" where
  "TIM_ForcedOC1Config TIMx v = upd_TIM TIMx (\<lambda>t.
     let tmp = TIM_CCMR1 t;
         tmp = tmp AND NOT TIM_CCMR1_OC1M;
         tmp = tmp OR v
     in t\<lparr>TIM_CCMR1 := tmp\<rparr>)"

definition TIM_ForcedOC2Config :: "TIM_ptr \<Rightarrow> u16 \<Rightarrow> 'a mcu_scheme \<Rightarrow> 'a mcu_scheme" where
  "TIM_ForcedOC2Config TIMx v = upd_TIM TIMx (\<lambda>t.
     let tmp = TIM_CCMR1 t;
         tmp = tmp AND NOT TIM_CCMR1_OC2M;
         tmp = tmp OR push_bit 8 v
     in t\<lparr>TIM_CCMR1 := tmp\<rparr>)"

definition TIM_ForcedOC3Config :: "TIM_ptr \<Rightarrow> u16 \<Rightarrow> 'a mcu_scheme \<Rightarrow> 'a mcu_scheme" where
  "TIM_ForcedOC3Config TIMx v = upd_TIM TIMx (\<lambda>t.
     let tmp = TIM_CCMR2 t;
         tmp = tmp AND NOT TIM_CCMR2_OC3M;
         tmp = tmp OR v
     in t\<lparr>TIM_CCMR2 := tmp\<rparr>)"

definition TIM_ForcedOC4Config :: "TIM_ptr \<Rightarrow> u16 \<Rightarrow> 'a mcu_scheme \<Rightarrow> 'a mcu_scheme" where
  "TIM_ForcedOC4Config TIMx v = upd_TIM TIMx (\<lambda>t.
     let tmp = TIM_CCMR2 t;
         tmp = tmp AND NOT TIM_CCMR2_OC4M;
         tmp = tmp OR push_bit 8 v
     in t\<lparr>TIM_CCMR2 := tmp\<rparr>)"

definition TIM_OC1PreloadConfig :: "TIM_ptr \<Rightarrow> u16 \<Rightarrow> 'a mcu_scheme \<Rightarrow> 'a mcu_scheme" where
  "TIM_OC1PreloadConfig TIMx v = upd_TIM TIMx (\<lambda>t.
     let tmp = TIM_CCMR1 t;
         tmp = tmp AND NOT TIM_CCMR1_OC1PE;
         tmp = tmp OR v
     in t\<lparr>TIM_CCMR1 := tmp\<rparr>)"

definition TIM_OC2PreloadConfig :: "TIM_ptr \<Rightarrow> u16 \<Rightarrow> 'a mcu_scheme \<Rightarrow> 'a mcu_scheme" where
  "TIM_OC2PreloadConfig TIMx v = upd_TIM TIMx (\<lambda>t.
     let tmp = TIM_CCMR1 t;
         tmp = tmp AND NOT TIM_CCMR1_OC2PE;
         tmp = tmp OR push_bit 8 v
     in t\<lparr>TIM_CCMR1 := tmp\<rparr>)"

definition TIM_OC3PreloadConfig :: "TIM_ptr \<Rightarrow> u16 \<Rightarrow> 'a mcu_scheme \<Rightarrow> 'a mcu_scheme" where
  "TIM_OC3PreloadConfig TIMx v = upd_TIM TIMx (\<lambda>t.
     let tmp = TIM_CCMR2 t;
         tmp = tmp AND NOT TIM_CCMR2_OC3PE;
         tmp = tmp OR v
     in t\<lparr>TIM_CCMR2 := tmp\<rparr>)"

definition TIM_OC4PreloadConfig :: "TIM_ptr \<Rightarrow> u16 \<Rightarrow> 'a mcu_scheme \<Rightarrow> 'a mcu_scheme" where
  "TIM_OC4PreloadConfig TIMx v = upd_TIM TIMx (\<lambda>t.
     let tmp = TIM_CCMR2 t;
         tmp = tmp AND NOT TIM_CCMR2_OC4PE;
         tmp = tmp OR push_bit 8 v
     in t\<lparr>TIM_CCMR2 := tmp\<rparr>)"

definition TIM_OC1FastConfig :: "TIM_ptr \<Rightarrow> u16 \<Rightarrow> 'a mcu_scheme \<Rightarrow> 'a mcu_scheme" where
  "TIM_OC1FastConfig TIMx v = upd_TIM TIMx (\<lambda>t.
     let tmp = TIM_CCMR1 t;
         tmp = tmp AND NOT TIM_CCMR1_OC1FE;
         tmp = tmp OR v
     in t\<lparr>TIM_CCMR1 := tmp\<rparr>)"

definition TIM_OC2FastConfig :: "TIM_ptr \<Rightarrow> u16 \<Rightarrow> 'a mcu_scheme \<Rightarrow> 'a mcu_scheme" where
  "TIM_OC2FastConfig TIMx v = upd_TIM TIMx (\<lambda>t.
     let tmp = TIM_CCMR1 t;
         tmp = tmp AND NOT TIM_CCMR1_OC2FE;
         tmp = tmp OR push_bit 8 v
     in t\<lparr>TIM_CCMR1 := tmp\<rparr>)"

definition TIM_OC3FastConfig :: "TIM_ptr \<Rightarrow> u16 \<Rightarrow> 'a mcu_scheme \<Rightarrow> 'a mcu_scheme" where
  "TIM_OC3FastConfig TIMx v = upd_TIM TIMx (\<lambda>t.
     let tmp = TIM_CCMR2 t;
         tmp = tmp AND NOT TIM_CCMR2_OC3FE;
         tmp = tmp OR v
     in t\<lparr>TIM_CCMR2 := tmp\<rparr>)"

definition TIM_OC4FastConfig :: "TIM_ptr \<Rightarrow> u16 \<Rightarrow> 'a mcu_scheme \<Rightarrow> 'a mcu_scheme" where
  "TIM_OC4FastConfig TIMx v = upd_TIM TIMx (\<lambda>t.
     let tmp = TIM_CCMR2 t;
         tmp = tmp AND NOT TIM_CCMR2_OC4FE;
         tmp = tmp OR push_bit 8 v
     in t\<lparr>TIM_CCMR2 := tmp\<rparr>)"

definition TIM_ClearOC1Ref :: "TIM_ptr \<Rightarrow> u16 \<Rightarrow> 'a mcu_scheme \<Rightarrow> 'a mcu_scheme" where
  "TIM_ClearOC1Ref TIMx v = upd_TIM TIMx (\<lambda>t.
     let tmp = TIM_CCMR1 t;
         tmp = tmp AND NOT TIM_CCMR1_OC1CE;
         tmp = tmp OR v
     in t\<lparr>TIM_CCMR1 := tmp\<rparr>)"

definition TIM_ClearOC2Ref :: "TIM_ptr \<Rightarrow> u16 \<Rightarrow> 'a mcu_scheme \<Rightarrow> 'a mcu_scheme" where
  "TIM_ClearOC2Ref TIMx v = upd_TIM TIMx (\<lambda>t.
     let tmp = TIM_CCMR1 t;
         tmp = tmp AND NOT TIM_CCMR1_OC2CE;
         tmp = tmp OR push_bit 8 v
     in t\<lparr>TIM_CCMR1 := tmp\<rparr>)"

definition TIM_ClearOC3Ref :: "TIM_ptr \<Rightarrow> u16 \<Rightarrow> 'a mcu_scheme \<Rightarrow> 'a mcu_scheme" where
  "TIM_ClearOC3Ref TIMx v = upd_TIM TIMx (\<lambda>t.
     let tmp = TIM_CCMR2 t;
         tmp = tmp AND NOT TIM_CCMR2_OC3CE;
         tmp = tmp OR v
     in t\<lparr>TIM_CCMR2 := tmp\<rparr>)"

definition TIM_ClearOC4Ref :: "TIM_ptr \<Rightarrow> u16 \<Rightarrow> 'a mcu_scheme \<Rightarrow> 'a mcu_scheme" where
  "TIM_ClearOC4Ref TIMx v = upd_TIM TIMx (\<lambda>t.
     let tmp = TIM_CCMR2 t;
         tmp = tmp AND NOT TIM_CCMR2_OC4CE;
         tmp = tmp OR push_bit 8 v
     in t\<lparr>TIM_CCMR2 := tmp\<rparr>)"

definition TIM_OC1PolarityConfig :: "TIM_ptr \<Rightarrow> u16 \<Rightarrow> 'a mcu_scheme \<Rightarrow> 'a mcu_scheme" where
  "TIM_OC1PolarityConfig TIMx v = upd_TIM TIMx (\<lambda>t.
     let tmp = TIM_CCER t;
         tmp = tmp AND NOT TIM_CCER_CC1P;
         tmp = tmp OR v
     in t\<lparr>TIM_CCER := tmp\<rparr>)"

definition TIM_OC1NPolarityConfig :: "TIM_ptr \<Rightarrow> u16 \<Rightarrow> 'a mcu_scheme \<Rightarrow> 'a mcu_scheme" where
  "TIM_OC1NPolarityConfig TIMx v = upd_TIM TIMx (\<lambda>t.
     let tmp = TIM_CCER t;
         tmp = tmp AND NOT TIM_CCER_CC1NP;
         tmp = tmp OR v
     in t\<lparr>TIM_CCER := tmp\<rparr>)"

definition TIM_OC2PolarityConfig :: "TIM_ptr \<Rightarrow> u16 \<Rightarrow> 'a mcu_scheme \<Rightarrow> 'a mcu_scheme" where
  "TIM_OC2PolarityConfig TIMx v = upd_TIM TIMx (\<lambda>t.
     let tmp = TIM_CCER t;
         tmp = tmp AND NOT TIM_CCER_CC2P;
         tmp = tmp OR push_bit 4 v
     in t\<lparr>TIM_CCER := tmp\<rparr>)"

definition TIM_OC2NPolarityConfig :: "TIM_ptr \<Rightarrow> u16 \<Rightarrow> 'a mcu_scheme \<Rightarrow> 'a mcu_scheme" where
  "TIM_OC2NPolarityConfig TIMx v = upd_TIM TIMx (\<lambda>t.
     let tmp = TIM_CCER t;
         tmp = tmp AND NOT TIM_CCER_CC2NP;
         tmp = tmp OR push_bit 4 v
     in t\<lparr>TIM_CCER := tmp\<rparr>)"

definition TIM_OC3PolarityConfig :: "TIM_ptr \<Rightarrow> u16 \<Rightarrow> 'a mcu_scheme \<Rightarrow> 'a mcu_scheme" where
  "TIM_OC3PolarityConfig TIMx v = upd_TIM TIMx (\<lambda>t.
     let tmp = TIM_CCER t;
         tmp = tmp AND NOT TIM_CCER_CC3P;
         tmp = tmp OR push_bit 8 v
     in t\<lparr>TIM_CCER := tmp\<rparr>)"

definition TIM_OC3NPolarityConfig :: "TIM_ptr \<Rightarrow> u16 \<Rightarrow> 'a mcu_scheme \<Rightarrow> 'a mcu_scheme" where
  "TIM_OC3NPolarityConfig TIMx v = upd_TIM TIMx (\<lambda>t.
     let tmp = TIM_CCER t;
         tmp = tmp AND NOT TIM_CCER_CC3NP;
         tmp = tmp OR push_bit 8 v
     in t\<lparr>TIM_CCER := tmp\<rparr>)"

definition TIM_OC4PolarityConfig :: "TIM_ptr \<Rightarrow> u16 \<Rightarrow> 'a mcu_scheme \<Rightarrow> 'a mcu_scheme" where
  "TIM_OC4PolarityConfig TIMx v = upd_TIM TIMx (\<lambda>t.
     let tmp = TIM_CCER t;
         tmp = tmp AND NOT TIM_CCER_CC4P;
         tmp = tmp OR push_bit 12 v
     in t\<lparr>TIM_CCER := tmp\<rparr>)"

definition TIM_CCxCmd :: "TIM_ptr \<Rightarrow> u16 \<Rightarrow> u16 \<Rightarrow> 'a mcu_scheme \<Rightarrow> 'a mcu_scheme option" where
  "TIM_CCxCmd TIMx chan v m = do {
     tmp \<leftarrow> shl_u16 CCER_CCE_Set chan;
     let m = upd_TIM TIMx (\<lambda>t. t\<lparr>TIM_CCER := TIM_CCER t AND NOT tmp\<rparr>) m;
     s \<leftarrow> shl_u16 v chan;
     Some (upd_TIM TIMx (\<lambda>t. t\<lparr>TIM_CCER := TIM_CCER t OR s\<rparr>) m)
   }"

definition TIM_CCxNCmd :: "TIM_ptr \<Rightarrow> u16 \<Rightarrow> u16 \<Rightarrow> 'a mcu_scheme \<Rightarrow> 'a mcu_scheme option" where
  "TIM_CCxNCmd TIMx chan v m = do {
     tmp \<leftarrow> shl_u16 CCER_CCNE_Set chan;
     let m = upd_TIM TIMx (\<lambda>t. t\<lparr>TIM_CCER := TIM_CCER t AND NOT tmp\<rparr>) m;
     s \<leftarrow> shl_u16 v chan;
     Some (upd_TIM TIMx (\<lambda>t. t\<lparr>TIM_CCER := TIM_CCER t OR s\<rparr>) m)
   }"

text \<open>The word at an offset from the base address of a timer, for the two offsets that
  \<open>TIM_SelectOCxM\<close> forms from a valid channel.\<close>

definition tim_word_update :: "u32 \<Rightarrow> (u16 \<Rightarrow> u16) \<Rightarrow> TIM_TypeDef \<Rightarrow> TIM_TypeDef option" where
  "tim_word_update off f t =
     (if off = 0x18 then Some (t\<lparr>TIM_CCMR1 := f (TIM_CCMR1 t)\<rparr>)
      else if off = 0x1C then Some (t\<lparr>TIM_CCMR2 := f (TIM_CCMR2 t)\<rparr>)
      else None)"

definition TIM_SelectOCxM :: "TIM_ptr \<Rightarrow> u16 \<Rightarrow> u16 \<Rightarrow> 'a mcu_scheme \<Rightarrow> 'a mcu_scheme option" where
  "TIM_SelectOCxM TIMx chan mode m =
     (let tmp = ucast CCMR_Offset :: u32 in do {
        tmp1 \<leftarrow> shl_u16 CCER_CCE_Set chan;
        let t = TIM m TIMx;
        let t = t\<lparr>TIM_CCER := TIM_CCER t AND NOT tmp1\<rparr>;
        t \<leftarrow> (if chan = TIM_Channel_1 \<or> chan = TIM_Channel_3 then
                (let tmp = tmp + ucast (drop_bit 1 chan) in do {
                   t \<leftarrow> tim_word_update tmp (\<lambda>r. r AND NOT TIM_CCMR1_OC1M) t;
                   tim_word_update tmp (\<lambda>r. r OR mode) t
                 })
              else
                (let tmp = tmp + ucast (drop_bit 1 (chan - 4)) in do {
                   t \<leftarrow> tim_word_update tmp (\<lambda>r. r AND NOT TIM_CCMR1_OC2M) t;
                   tim_word_update tmp (\<lambda>r. r OR push_bit 8 mode) t
                 }));
        Some (m\<lparr>TIM := (TIM m)(TIMx := t)\<rparr>)
      })"

definition TIM_SetCompare1 :: "TIM_ptr \<Rightarrow> u16 \<Rightarrow> 'a mcu_scheme \<Rightarrow> 'a mcu_scheme" where
  "TIM_SetCompare1 TIMx v = upd_TIM TIMx (\<lambda>t. t\<lparr>TIM_CCR1 := v\<rparr>)"

definition TIM_SetCompare2 :: "TIM_ptr \<Rightarrow> u16 \<Rightarrow> 'a mcu_scheme \<Rightarrow> 'a mcu_scheme" where
  "TIM_SetCompare2 TIMx v = upd_TIM TIMx (\<lambda>t. t\<lparr>TIM_CCR2 := v\<rparr>)"

definition TIM_SetCompare3 :: "TIM_ptr \<Rightarrow> u16 \<Rightarrow> 'a mcu_scheme \<Rightarrow> 'a mcu_scheme" where
  "TIM_SetCompare3 TIMx v = upd_TIM TIMx (\<lambda>t. t\<lparr>TIM_CCR3 := v\<rparr>)"

definition TIM_SetCompare4 :: "TIM_ptr \<Rightarrow> u16 \<Rightarrow> 'a mcu_scheme \<Rightarrow> 'a mcu_scheme" where
  "TIM_SetCompare4 TIMx v = upd_TIM TIMx (\<lambda>t. t\<lparr>TIM_CCR4 := v\<rparr>)"

section \<open>Properties of the operations\<close>

section \<open>The four channels\<close>

text \<open>
  What a channel of the compare unit is configured to do: output mode and selection (\<open>OCxM\<close>,
  \<open>CCxS\<close>), enable and polarity (\<open>CCxE\<close>, \<open>CCxP\<close>), compare value.
\<close>

definition oc_view :: "nat \<Rightarrow> TIM_TypeDef \<Rightarrow> u16 \<times> u16 \<times> u16" where
  "oc_view n t =
     ((if n = 1 then TIM_CCMR1 t else if n = 2 then drop_bit 8 (TIM_CCMR1 t)
       else if n = 3 then TIM_CCMR2 t else drop_bit 8 (TIM_CCMR2 t)) AND 0x73,
      drop_bit (4 * (n - 1)) (TIM_CCER t) AND 0x3,
      if n = 1 then TIM_CCR1 t else if n = 2 then TIM_CCR2 t else if n = 3 then TIM_CCR3 t else TIM_CCR4 t)"

definition OC_Init :: "nat \<Rightarrow> TIM_ptr \<Rightarrow> TIM_OCInitTypeDef \<Rightarrow> 'a mcu_scheme \<Rightarrow> 'a mcu_scheme" where
  "OC_Init n = (if n = 1 then TIM_OC1Init else if n = 2 then TIM_OC2Init else if n = 3 then TIM_OC3Init
    else TIM_OC4Init)"

definition legal_oc :: "TIM_OCInitTypeDef \<Rightarrow> bool" where
  "legal_oc ini \<longleftrightarrow> TIM_OCMode ini AND NOT 0x70 = 0 \<and> TIM_OutputState ini AND NOT 0x1 = 0 \<and>
     TIM_OCPolarity ini AND NOT 0x2 = 0 \<and> TIM_OutputNState ini AND NOT 0x4 = 0 \<and>
     TIM_OCNPolarity ini AND NOT 0x8 = 0"

lemmas oc_init_defs = TIM_OC1Init_def TIM_OC2Init_def TIM_OC3Init_def TIM_OC4Init_def

lemma oc1_views:
  assumes "legal_oc ini"
  shows "oc_view 1 (TIM (TIM_OC1Init p ini m) p) =
      (TIM_OCMode ini, TIM_OutputState ini OR TIM_OCPolarity ini, TIM_Pulse ini)"
    and "oc_view 2 (TIM (TIM_OC1Init p ini m) p) = oc_view 2 (TIM m p)"
    and "oc_view 3 (TIM (TIM_OC1Init p ini m) p) = oc_view 3 (TIM m p)"
    and "oc_view 4 (TIM (TIM_OC1Init p ini m) p) = oc_view 4 (TIM m p)"
  using assms unfolding legal_oc_def
  by (simp_all add: TIM_OC1Init_def oc_view_def Let_def case_prod_unfold bits16 bit_simps)

lemma oc2_views:
  assumes "legal_oc ini"
  shows "oc_view 2 (TIM (TIM_OC2Init p ini m) p) =
      (TIM_OCMode ini, TIM_OutputState ini OR TIM_OCPolarity ini, TIM_Pulse ini)"
    and "oc_view 1 (TIM (TIM_OC2Init p ini m) p) = oc_view 1 (TIM m p)"
    and "oc_view 3 (TIM (TIM_OC2Init p ini m) p) = oc_view 3 (TIM m p)"
    and "oc_view 4 (TIM (TIM_OC2Init p ini m) p) = oc_view 4 (TIM m p)"
  using assms unfolding legal_oc_def
  by (simp_all add: TIM_OC2Init_def oc_view_def Let_def case_prod_unfold bits16 bit_simps)

lemma oc3_views:
  assumes "legal_oc ini"
  shows "oc_view 3 (TIM (TIM_OC3Init p ini m) p) =
      (TIM_OCMode ini, TIM_OutputState ini OR TIM_OCPolarity ini, TIM_Pulse ini)"
    and "oc_view 1 (TIM (TIM_OC3Init p ini m) p) = oc_view 1 (TIM m p)"
    and "oc_view 2 (TIM (TIM_OC3Init p ini m) p) = oc_view 2 (TIM m p)"
    and "oc_view 4 (TIM (TIM_OC3Init p ini m) p) = oc_view 4 (TIM m p)"
  using assms unfolding legal_oc_def
  by (simp_all add: TIM_OC3Init_def oc_view_def Let_def case_prod_unfold bits16 bit_simps)

lemma oc4_views:
  assumes "legal_oc ini"
  shows "oc_view 4 (TIM (TIM_OC4Init p ini m) p) =
      (TIM_OCMode ini, TIM_OutputState ini OR TIM_OCPolarity ini, TIM_Pulse ini)"
    and "oc_view 1 (TIM (TIM_OC4Init p ini m) p) = oc_view 1 (TIM m p)"
    and "oc_view 2 (TIM (TIM_OC4Init p ini m) p) = oc_view 2 (TIM m p)"
    and "oc_view 3 (TIM (TIM_OC4Init p ini m) p) = oc_view 3 (TIM m p)"
  using assms unfolding legal_oc_def
  by (simp_all add: TIM_OC4Init_def oc_view_def Let_def case_prod_unfold bits16 bit_simps)

lemma channel_cases: "n \<in> {1..4} \<Longrightarrow> n = 1 \<or> n = 2 \<or> n = 3 \<or> n = (4::nat)"
  by auto

lemma channels: "{1..4} = {1, 2, 3, 4 :: nat}"
  by auto

text \<open>
  \<open>TIM_OCxInit\<close> with legal codes configures its channel as asked (output mode, enable,
  polarity, compare value, the channel as an output) and leaves the other three channels of the
  timer, and every other timer, as they were.
\<close>

theorem oc_channels_independent:
  assumes "legal_oc ini" and "n \<in> {1..4}"
  shows "oc_view n (TIM (OC_Init n p ini m) p) =
      (TIM_OCMode ini, TIM_OutputState ini OR TIM_OCPolarity ini, TIM_Pulse ini) \<and>
    (\<forall>k \<in> {1..4} - {n}. oc_view k (TIM (OC_Init n p ini m) p) = oc_view k (TIM m p)) \<and>
    (\<forall>q. q \<noteq> p \<longrightarrow> TIM (OC_Init n p ini m) q = TIM m q)"
proof (intro conjI)
  show "oc_view n (TIM (OC_Init n p ini m) p) =
      (TIM_OCMode ini, TIM_OutputState ini OR TIM_OCPolarity ini, TIM_Pulse ini)"
    using channel_cases [OF assms(2)] oc1_views(1) [OF assms(1)] oc2_views(1) [OF assms(1)]
      oc3_views(1) [OF assms(1)] oc4_views(1) [OF assms(1)]
    by (auto simp: OC_Init_def)
  show "\<forall>k \<in> {1..4} - {n}. oc_view k (TIM (OC_Init n p ini m) p) = oc_view k (TIM m p)"
    using channel_cases [OF assms(2)] unfolding channels
    by (elim disjE) (simp_all add: OC_Init_def insert_Diff_if oc1_views [OF assms(1), simplified]
        oc2_views [OF assms(1), simplified] oc3_views [OF assms(1), simplified] oc4_views [OF assms(1), simplified])
  show "\<forall>q. q \<noteq> p \<longrightarrow> TIM (OC_Init n p ini m) q = TIM m q"
    by (simp add: OC_Init_def oc_init_defs)
qed

lemma oc_channels_independent_witness:
  "oc_view 2 (TIM (OC_Init 2 TIM3 (TIM_OCStructInit\<lparr>TIM_Pulse := 990, TIM_OCMode := TIM_OCMode_PWM2\<rparr>) reset_mcu) TIM3)
     = (0x70, 0, 990)"
  using oc_channels_independent
    [of "TIM_OCStructInit\<lparr>TIM_Pulse := 990, TIM_OCMode := TIM_OCMode_PWM2\<rparr>" 2 TIM3 reset_mcu]
  by (simp add: legal_oc_def TIM_OCStructInit_def)

section \<open>The output mode through an address\<close>

text \<open>
  \<open>TIM_SelectOCxM\<close>, which computes the address of the mode register from the channel, sets
  the mode of exactly that channel and disables its output; the other channels of the timer keep
  their configuration and the access is always inside the two mode registers.
\<close>

theorem select_ocxm_channel:
  assumes "n \<in> {1..4}" and "mode AND NOT 0x70 = 0"
  shows "\<exists>m'. TIM_SelectOCxM p (of_nat (4 * (n - 1))) mode m = Some m' \<and>
    (case oc_view n (TIM m p) of (md, en, pulse) \<Rightarrow>
       oc_view n (TIM m' p) = ((md AND 0x3) OR mode, en AND 0x2, pulse)) \<and>
    (\<forall>k \<in> {1..4} - {n}. oc_view k (TIM m' p) = oc_view k (TIM m p))"
proof -
  have sel: "TIM_SelectOCxM p (of_nat (4 * (n - 1))) mode m = Some (m\<lparr>TIM := (TIM m)(p :=
      (let t = (TIM m p)\<lparr>TIM_CCER := TIM_CCER (TIM m p) AND NOT (push_bit (4 * (n - 1)) 1)\<rparr>
       in if n = 1 then t\<lparr>TIM_CCMR1 := (TIM_CCMR1 t AND NOT 0x70) OR mode\<rparr>
          else if n = 2 then t\<lparr>TIM_CCMR1 := (TIM_CCMR1 t AND NOT 0x7000) OR push_bit 8 mode\<rparr>
          else if n = 3 then t\<lparr>TIM_CCMR2 := (TIM_CCMR2 t AND NOT 0x70) OR mode\<rparr>
          else t\<lparr>TIM_CCMR2 := (TIM_CCMR2 t AND NOT 0x7000) OR push_bit 8 mode\<rparr>))\<rparr>)"
    using channel_cases [OF assms(1)]
    by (elim disjE) (simp_all add: TIM_SelectOCxM_def tim_word_update_def shl_u16_def Let_def)
  show ?thesis
    using channel_cases [OF assms(1)] assms(2) unfolding sel
    unfolding channels by (elim disjE) (auto simp: oc_view_def Let_def bits16 bit_simps insert_Diff_if)
qed

lemma select_ocxm_channel_witness:
  "TIM_SelectOCxM TIM3 TIM_Channel_4 TIM_OCMode_Toggle reset_mcu \<noteq> None"
  using select_ocxm_channel [of 4 TIM_OCMode_Toggle TIM3 reset_mcu] by auto

end
