(* ===== verification/Tim_Input.thy ===== *)
theory Tim_Input
  imports Tim_Base
begin

text \<open>
  Timers, input side of \<open>STM32F10x_FWLib/src/stm32f10x_tim.c\<close>: input capture, PWM input,
  external clock through a capture input, encoder interface, capture registers.
\<close>

section \<open>Operations\<close>

record TIM_ICInitTypeDef =
  TIM_Channel :: u16
  TIM_ICPolarity :: u16
  TIM_ICSelection :: u16
  TIM_ICPrescaler :: u16
  TIM_ICFilter :: u16

definition TI1_Config :: "TIM_ptr \<Rightarrow> u16 \<Rightarrow> u16 \<Rightarrow> u16 \<Rightarrow> 'a mcu_scheme \<Rightarrow> 'a mcu_scheme" where
  "TI1_Config TIMx pol sel filt = upd_TIM TIMx (\<lambda>t.
     let t = t\<lparr>TIM_CCER := TIM_CCER t AND NOT TIM_CCER_CC1E\<rparr>;
         tmpccmr1 = TIM_CCMR1 t;
         tmpccer = TIM_CCER t;
         tmpccmr1 = tmpccmr1 AND (NOT TIM_CCMR1_CC1S AND NOT TIM_CCMR1_IC1F);
         tmpccmr1 = tmpccmr1 OR (sel OR push_bit 4 filt);
         tmpccer =
           (if TIMx = TIM1 \<or> TIMx = TIM8 \<or> TIMx = TIM2 \<or> TIMx = TIM3 \<or> TIMx = TIM4 \<or> TIMx = TIM5
            then (tmpccer AND NOT TIM_CCER_CC1P) OR (pol OR TIM_CCER_CC1E)
            else (tmpccer AND NOT (TIM_CCER_CC1P OR TIM_CCER_CC1NP)) OR (pol OR TIM_CCER_CC1E));
         t = t\<lparr>TIM_CCMR1 := tmpccmr1\<rparr>
     in t\<lparr>TIM_CCER := tmpccer\<rparr>)"

definition TI2_Config :: "TIM_ptr \<Rightarrow> u16 \<Rightarrow> u16 \<Rightarrow> u16 \<Rightarrow> 'a mcu_scheme \<Rightarrow> 'a mcu_scheme" where
  "TI2_Config TIMx pol sel filt = upd_TIM TIMx (\<lambda>t.
     let t = t\<lparr>TIM_CCER := TIM_CCER t AND NOT TIM_CCER_CC2E\<rparr>;
         tmpccmr1 = TIM_CCMR1 t;
         tmpccer = TIM_CCER t;
         tmp = push_bit 4 pol;
         tmpccmr1 = tmpccmr1 AND (NOT TIM_CCMR1_CC2S AND NOT TIM_CCMR1_IC2F);
         tmpccmr1 = tmpccmr1 OR (push_bit 12 filt);
         tmpccmr1 = tmpccmr1 OR (push_bit 8 sel);
         tmpccer =
           (if TIMx = TIM1 \<or> TIMx = TIM8 \<or> TIMx = TIM2 \<or> TIMx = TIM3 \<or> TIMx = TIM4 \<or> TIMx = TIM5
            then (tmpccer AND NOT TIM_CCER_CC2P) OR (tmp OR TIM_CCER_CC2E)
            else (tmpccer AND NOT (TIM_CCER_CC2P OR TIM_CCER_CC2NP)) OR (pol OR TIM_CCER_CC2E));
         t = t\<lparr>TIM_CCMR1 := tmpccmr1\<rparr>
     in t\<lparr>TIM_CCER := tmpccer\<rparr>)"

definition TI3_Config :: "TIM_ptr \<Rightarrow> u16 \<Rightarrow> u16 \<Rightarrow> u16 \<Rightarrow> 'a mcu_scheme \<Rightarrow> 'a mcu_scheme" where
  "TI3_Config TIMx pol sel filt = upd_TIM TIMx (\<lambda>t.
     let t = t\<lparr>TIM_CCER := TIM_CCER t AND NOT TIM_CCER_CC3E\<rparr>;
         tmpccmr2 = TIM_CCMR2 t;
         tmpccer = TIM_CCER t;
         tmp = push_bit 8 pol;
         tmpccmr2 = tmpccmr2 AND (NOT TIM_CCMR2_CC3S AND NOT TIM_CCMR2_IC3F);
         tmpccmr2 = tmpccmr2 OR (sel OR push_bit 4 filt);
         tmpccer =
           (if TIMx = TIM1 \<or> TIMx = TIM8 \<or> TIMx = TIM2 \<or> TIMx = TIM3 \<or> TIMx = TIM4 \<or> TIMx = TIM5
            then (tmpccer AND NOT TIM_CCER_CC3P) OR (tmp OR TIM_CCER_CC3E)
            else (tmpccer AND NOT (TIM_CCER_CC3P OR TIM_CCER_CC3NP)) OR (pol OR TIM_CCER_CC3E));
         t = t\<lparr>TIM_CCMR2 := tmpccmr2\<rparr>
     in t\<lparr>TIM_CCER := tmpccer\<rparr>)"

definition TI4_Config :: "TIM_ptr \<Rightarrow> u16 \<Rightarrow> u16 \<Rightarrow> u16 \<Rightarrow> 'a mcu_scheme \<Rightarrow> 'a mcu_scheme" where
  "TI4_Config TIMx pol sel filt = upd_TIM TIMx (\<lambda>t.
     let t = t\<lparr>TIM_CCER := TIM_CCER t AND NOT TIM_CCER_CC4E\<rparr>;
         tmpccmr2 = TIM_CCMR2 t;
         tmpccer = TIM_CCER t;
         tmp = push_bit 12 pol;
         tmpccmr2 = tmpccmr2 AND (NOT TIM_CCMR2_CC4S AND NOT TIM_CCMR2_IC4F);
         tmpccmr2 = tmpccmr2 OR (push_bit 8 sel);
         tmpccmr2 = tmpccmr2 OR (push_bit 12 filt);
         tmpccer =
           (if TIMx = TIM1 \<or> TIMx = TIM8 \<or> TIMx = TIM2 \<or> TIMx = TIM3 \<or> TIMx = TIM4 \<or> TIMx = TIM5
            then (tmpccer AND NOT TIM_CCER_CC4P) OR (tmp OR TIM_CCER_CC4E)
            else (tmpccer AND NOT (TIM_CCER_CC3P OR TIM_CCER_CC4NP)) OR (pol OR TIM_CCER_CC4E));
         t = t\<lparr>TIM_CCMR2 := tmpccmr2\<rparr>
     in t\<lparr>TIM_CCER := tmpccer\<rparr>)"

definition TIM_SetIC1Prescaler :: "TIM_ptr \<Rightarrow> u16 \<Rightarrow> 'a mcu_scheme \<Rightarrow> 'a mcu_scheme" where
  "TIM_SetIC1Prescaler TIMx v = upd_TIM TIMx (\<lambda>t.
     let t = t\<lparr>TIM_CCMR1 := TIM_CCMR1 t AND NOT TIM_CCMR1_IC1PSC\<rparr>
     in t\<lparr>TIM_CCMR1 := TIM_CCMR1 t OR v\<rparr>)"

definition TIM_SetIC2Prescaler :: "TIM_ptr \<Rightarrow> u16 \<Rightarrow> 'a mcu_scheme \<Rightarrow> 'a mcu_scheme" where
  "TIM_SetIC2Prescaler TIMx v = upd_TIM TIMx (\<lambda>t.
     let t = t\<lparr>TIM_CCMR1 := TIM_CCMR1 t AND NOT TIM_CCMR1_IC2PSC\<rparr>
     in t\<lparr>TIM_CCMR1 := TIM_CCMR1 t OR push_bit 8 v\<rparr>)"

definition TIM_SetIC3Prescaler :: "TIM_ptr \<Rightarrow> u16 \<Rightarrow> 'a mcu_scheme \<Rightarrow> 'a mcu_scheme" where
  "TIM_SetIC3Prescaler TIMx v = upd_TIM TIMx (\<lambda>t.
     let t = t\<lparr>TIM_CCMR2 := TIM_CCMR2 t AND NOT TIM_CCMR2_IC3PSC\<rparr>
     in t\<lparr>TIM_CCMR2 := TIM_CCMR2 t OR v\<rparr>)"

definition TIM_SetIC4Prescaler :: "TIM_ptr \<Rightarrow> u16 \<Rightarrow> 'a mcu_scheme \<Rightarrow> 'a mcu_scheme" where
  "TIM_SetIC4Prescaler TIMx v = upd_TIM TIMx (\<lambda>t.
     let t = t\<lparr>TIM_CCMR2 := TIM_CCMR2 t AND NOT TIM_CCMR2_IC4PSC\<rparr>
     in t\<lparr>TIM_CCMR2 := TIM_CCMR2 t OR push_bit 8 v\<rparr>)"

definition TIM_ICInit :: "TIM_ptr \<Rightarrow> TIM_ICInitTypeDef \<Rightarrow> 'a mcu_scheme \<Rightarrow> 'a mcu_scheme" where
  "TIM_ICInit TIMx ini m =
     (if TIM_Channel ini = TIM_Channel_1 then
        (let m = TI1_Config TIMx (TIM_ICPolarity ini) (TIM_ICSelection ini) (TIM_ICFilter ini) m
         in TIM_SetIC1Prescaler TIMx (TIM_ICPrescaler ini) m)
      else if TIM_Channel ini = TIM_Channel_2 then
        (let m = TI2_Config TIMx (TIM_ICPolarity ini) (TIM_ICSelection ini) (TIM_ICFilter ini) m
         in TIM_SetIC2Prescaler TIMx (TIM_ICPrescaler ini) m)
      else if TIM_Channel ini = TIM_Channel_3 then
        (let m = TI3_Config TIMx (TIM_ICPolarity ini) (TIM_ICSelection ini) (TIM_ICFilter ini) m
         in TIM_SetIC3Prescaler TIMx (TIM_ICPrescaler ini) m)
      else
        (let m = TI4_Config TIMx (TIM_ICPolarity ini) (TIM_ICSelection ini) (TIM_ICFilter ini) m
         in TIM_SetIC4Prescaler TIMx (TIM_ICPrescaler ini) m))"

definition TIM_PWMIConfig :: "TIM_ptr \<Rightarrow> TIM_ICInitTypeDef \<Rightarrow> 'a mcu_scheme \<Rightarrow> 'a mcu_scheme" where
  "TIM_PWMIConfig TIMx ini m =
     (let icoppositepolarity = (if TIM_ICPolarity ini = TIM_ICPolarity_Rising
            then TIM_ICPolarity_Falling else TIM_ICPolarity_Rising);
          icoppositeselection = (if TIM_ICSelection ini = TIM_ICSelection_DirectTI
            then TIM_ICSelection_IndirectTI else TIM_ICSelection_DirectTI)
      in if TIM_Channel ini = TIM_Channel_1 then
           (let m = TI1_Config TIMx (TIM_ICPolarity ini) (TIM_ICSelection ini) (TIM_ICFilter ini) m;
                m = TIM_SetIC1Prescaler TIMx (TIM_ICPrescaler ini) m;
                m = TI2_Config TIMx icoppositepolarity icoppositeselection (TIM_ICFilter ini) m
            in TIM_SetIC2Prescaler TIMx (TIM_ICPrescaler ini) m)
         else
           (let m = TI2_Config TIMx (TIM_ICPolarity ini) (TIM_ICSelection ini) (TIM_ICFilter ini) m;
                m = TIM_SetIC2Prescaler TIMx (TIM_ICPrescaler ini) m;
                m = TI1_Config TIMx icoppositepolarity icoppositeselection (TIM_ICFilter ini) m
            in TIM_SetIC1Prescaler TIMx (TIM_ICPrescaler ini) m))"

definition TIM_ICStructInit :: TIM_ICInitTypeDef where
  "TIM_ICStructInit = \<lparr>TIM_Channel = TIM_Channel_1, TIM_ICPolarity = TIM_ICPolarity_Rising,
     TIM_ICSelection = TIM_ICSelection_DirectTI, TIM_ICPrescaler = TIM_ICPSC_DIV1, TIM_ICFilter = 0x00\<rparr>"

definition TIM_TIxExternalClockConfig ::
  "TIM_ptr \<Rightarrow> u16 \<Rightarrow> u16 \<Rightarrow> u16 \<Rightarrow> 'a mcu_scheme \<Rightarrow> 'a mcu_scheme" where
  "TIM_TIxExternalClockConfig TIMx src pol filt m =
     (let m = (if src = TIM_TIxExternalCLK1Source_TI2
               then TI2_Config TIMx pol TIM_ICSelection_DirectTI filt m
               else TI1_Config TIMx pol TIM_ICSelection_DirectTI filt m);
          m = TIM_SelectInputTrigger TIMx src m
      in upd_TIM TIMx (\<lambda>t. t\<lparr>TIM_SMCR := TIM_SMCR t OR TIM_SlaveMode_External1\<rparr>) m)"

definition TIM_EncoderInterfaceConfig ::
  "TIM_ptr \<Rightarrow> u16 \<Rightarrow> u16 \<Rightarrow> u16 \<Rightarrow> 'a mcu_scheme \<Rightarrow> 'a mcu_scheme" where
  "TIM_EncoderInterfaceConfig TIMx mode pol1 pol2 = upd_TIM TIMx (\<lambda>t.
     let tmpsmcr = TIM_SMCR t;
         tmpccmr1 = TIM_CCMR1 t;
         tmpccer = TIM_CCER t;
         tmpsmcr = tmpsmcr AND NOT TIM_SMCR_SMS;
         tmpsmcr = tmpsmcr OR mode;
         tmpccmr1 = tmpccmr1 AND (NOT TIM_CCMR1_CC1S AND NOT TIM_CCMR1_CC2S);
         tmpccmr1 = tmpccmr1 OR (TIM_CCMR1_CC1S_0 OR TIM_CCMR1_CC2S_0);
         tmpccer = tmpccer AND (NOT TIM_CCER_CC1P AND NOT TIM_CCER_CC2P);
         tmpccer = tmpccer OR (pol1 OR push_bit 4 pol2);
         t = t\<lparr>TIM_SMCR := tmpsmcr\<rparr>;
         t = t\<lparr>TIM_CCMR1 := tmpccmr1\<rparr>
     in t\<lparr>TIM_CCER := tmpccer\<rparr>)"

definition TIM_GetCapture1 :: "TIM_ptr \<Rightarrow> 'a mcu_scheme \<Rightarrow> u16" where
  "TIM_GetCapture1 TIMx m = TIM_CCR1 (TIM m TIMx)"

definition TIM_GetCapture2 :: "TIM_ptr \<Rightarrow> 'a mcu_scheme \<Rightarrow> u16" where
  "TIM_GetCapture2 TIMx m = TIM_CCR2 (TIM m TIMx)"

definition TIM_GetCapture3 :: "TIM_ptr \<Rightarrow> 'a mcu_scheme \<Rightarrow> u16" where
  "TIM_GetCapture3 TIMx m = TIM_CCR3 (TIM m TIMx)"

definition TIM_GetCapture4 :: "TIM_ptr \<Rightarrow> 'a mcu_scheme \<Rightarrow> u16" where
  "TIM_GetCapture4 TIMx m = TIM_CCR4 (TIM m TIMx)"

section \<open>Properties of the operations\<close>

section \<open>Capture channels\<close>

text \<open>
  What a capture channel is configured to do: selection and prescaler and filter (\<open>CCxS\<close>,
  \<open>ICxPSC\<close>, \<open>ICxF\<close>), enable and polarity (\<open>CCxE\<close>, \<open>CCxP\<close>).
\<close>

definition ic_view :: "nat \<Rightarrow> TIM_TypeDef \<Rightarrow> u16 \<times> u16" where
  "ic_view n t =
     ((if n = 1 then TIM_CCMR1 t else if n = 2 then drop_bit 8 (TIM_CCMR1 t)
       else if n = 3 then TIM_CCMR2 t else drop_bit 8 (TIM_CCMR2 t)) AND 0xFF,
      drop_bit (4 * (n - 1)) (TIM_CCER t) AND 0x3)"

definition full_timer :: "TIM_ptr \<Rightarrow> bool" where
  "full_timer p \<longleftrightarrow> p \<in> {TIM1, TIM2, TIM3, TIM4, TIM5, TIM8}"

lemma full_timer_code:
  "full_timer p \<Longrightarrow> p = TIM1 \<or> p = TIM8 \<or> p = TIM2 \<or> p = TIM3 \<or> p = TIM4 \<or> p = TIM5"
  by (auto simp: full_timer_def)

definition legal_capture :: "u16 \<Rightarrow> u16 \<Rightarrow> u16 \<Rightarrow> u16 \<Rightarrow> bool" where
  "legal_capture pol sel psc filt \<longleftrightarrow> pol AND NOT 0x2 = 0 \<and> sel AND NOT 0x3 = 0 \<and>
     psc AND NOT 0xC = 0 \<and> filt AND NOT 0xF = 0"

definition legal_ic :: "TIM_ICInitTypeDef \<Rightarrow> bool" where
  "legal_ic ini \<longleftrightarrow> legal_capture (TIM_ICPolarity ini) (TIM_ICSelection ini) (TIM_ICPrescaler ini) (TIM_ICFilter ini)"

definition ic_settings :: "u16 \<Rightarrow> u16 \<Rightarrow> u16 \<Rightarrow> u16 \<Rightarrow> u16 \<times> u16" where
  "ic_settings pol sel psc filt = (sel OR psc OR push_bit 4 filt, 0x1 OR pol)"

lemma ic_channel_cases: "n \<in> {1..4} \<Longrightarrow> n = 1 \<or> n = 2 \<or> n = 3 \<or> n = (4::nat)"
  by auto

lemma ic_channels: "{1..4} = {1, 2, 3, 4 :: nat}"
  by auto

lemma ti1_views:
  assumes "legal_capture pol sel psc filt" and "full_timer p"
  shows "ic_view 1 (TIM (TIM_SetIC1Prescaler p psc (TI1_Config p pol sel filt m)) p) = ic_settings pol sel psc filt"
    and "ic_view 2 (TIM (TIM_SetIC1Prescaler p psc (TI1_Config p pol sel filt m)) p) = ic_view 2 (TIM m p)"
    and "ic_view 3 (TIM (TIM_SetIC1Prescaler p psc (TI1_Config p pol sel filt m)) p) = ic_view 3 (TIM m p)"
    and "ic_view 4 (TIM (TIM_SetIC1Prescaler p psc (TI1_Config p pol sel filt m)) p) = ic_view 4 (TIM m p)"
  using assms(1) unfolding legal_capture_def
  by (simp_all add: full_timer_code [OF assms(2)] TI1_Config_def TIM_SetIC1Prescaler_def ic_view_def ic_settings_def Let_def bits16 bit_simps)

lemma ti2_views:
  assumes "legal_capture pol sel psc filt" and "full_timer p"
  shows "ic_view 2 (TIM (TIM_SetIC2Prescaler p psc (TI2_Config p pol sel filt m)) p) = ic_settings pol sel psc filt"
    and "ic_view 1 (TIM (TIM_SetIC2Prescaler p psc (TI2_Config p pol sel filt m)) p) = ic_view 1 (TIM m p)"
    and "ic_view 3 (TIM (TIM_SetIC2Prescaler p psc (TI2_Config p pol sel filt m)) p) = ic_view 3 (TIM m p)"
    and "ic_view 4 (TIM (TIM_SetIC2Prescaler p psc (TI2_Config p pol sel filt m)) p) = ic_view 4 (TIM m p)"
  using assms(1) unfolding legal_capture_def
  by (simp_all add: full_timer_code [OF assms(2)] TI2_Config_def TIM_SetIC2Prescaler_def ic_view_def ic_settings_def Let_def bits16 bit_simps)

lemma ti3_views:
  assumes "legal_capture pol sel psc filt" and "full_timer p"
  shows "ic_view 3 (TIM (TIM_SetIC3Prescaler p psc (TI3_Config p pol sel filt m)) p) = ic_settings pol sel psc filt"
    and "ic_view 1 (TIM (TIM_SetIC3Prescaler p psc (TI3_Config p pol sel filt m)) p) = ic_view 1 (TIM m p)"
    and "ic_view 2 (TIM (TIM_SetIC3Prescaler p psc (TI3_Config p pol sel filt m)) p) = ic_view 2 (TIM m p)"
    and "ic_view 4 (TIM (TIM_SetIC3Prescaler p psc (TI3_Config p pol sel filt m)) p) = ic_view 4 (TIM m p)"
  using assms(1) unfolding legal_capture_def
  by (simp_all add: full_timer_code [OF assms(2)] TI3_Config_def TIM_SetIC3Prescaler_def ic_view_def ic_settings_def Let_def bits16 bit_simps)

lemma ti4_views:
  assumes "legal_capture pol sel psc filt" and "full_timer p"
  shows "ic_view 4 (TIM (TIM_SetIC4Prescaler p psc (TI4_Config p pol sel filt m)) p) = ic_settings pol sel psc filt"
    and "ic_view 1 (TIM (TIM_SetIC4Prescaler p psc (TI4_Config p pol sel filt m)) p) = ic_view 1 (TIM m p)"
    and "ic_view 2 (TIM (TIM_SetIC4Prescaler p psc (TI4_Config p pol sel filt m)) p) = ic_view 2 (TIM m p)"
    and "ic_view 3 (TIM (TIM_SetIC4Prescaler p psc (TI4_Config p pol sel filt m)) p) = ic_view 3 (TIM m p)"
  using assms(1) unfolding legal_capture_def
  by (simp_all add: full_timer_code [OF assms(2)] TI4_Config_def TIM_SetIC4Prescaler_def ic_view_def ic_settings_def Let_def bits16 bit_simps)

text \<open>
  On the timers with four capture channels, \<open>TIM_ICInit\<close> with legal codes configures the
  channel it names (input selection, prescaler, filter, active edge, enabled) and leaves the
  other three channels as they were.
\<close>

theorem input_capture_channel:
  assumes "full_timer p" and "legal_ic ini" and "n \<in> {1..4}" and "TIM_Channel ini = of_nat (4 * (n - 1))"
  shows "ic_view n (TIM (TIM_ICInit p ini m) p) =
      ic_settings (TIM_ICPolarity ini) (TIM_ICSelection ini) (TIM_ICPrescaler ini) (TIM_ICFilter ini) \<and>
    (\<forall>k \<in> {1..4} - {n}. ic_view k (TIM (TIM_ICInit p ini m) p) = ic_view k (TIM m p))"
  using ic_channel_cases [OF assms(3)] assms(4) unfolding ic_channels
  by (elim disjE) (simp_all add: TIM_ICInit_def insert_Diff_if ti1_views [OF assms(2) [unfolded legal_ic_def] assms(1), simplified] ti2_views [OF assms(2) [unfolded legal_ic_def] assms(1), simplified] ti3_views [OF assms(2) [unfolded legal_ic_def] assms(1), simplified] ti4_views [OF assms(2) [unfolded legal_ic_def] assms(1), simplified])

lemma input_capture_channel_witness:
  "ic_view 2 (TIM (TIM_ICInit TIM2 (TIM_ICStructInit\<lparr>TIM_Channel := TIM_Channel_2, TIM_ICPolarity := TIM_ICPolarity_Falling\<rparr>)
     reset_mcu) TIM2) = (0x1, 0x3)"
  using input_capture_channel
    [of TIM2 "TIM_ICStructInit\<lparr>TIM_Channel := TIM_Channel_2, TIM_ICPolarity := TIM_ICPolarity_Falling\<rparr>" 2 reset_mcu]
  by (simp add: full_timer_def legal_ic_def legal_capture_def TIM_ICStructInit_def ic_settings_def)

text \<open>
  \<open>TIM_PWMIConfig\<close> on such a timer sets up the pair that measures a PWM input: the first
  channel as asked, the second on the opposite edge and with the other selection, the same
  prescaler and filter; channels 3 and 4 stay as they were.
\<close>

theorem pwm_input_pair:
  assumes "full_timer p" and "legal_ic ini" and "n \<in> {1, 2}" and "TIM_Channel ini = of_nat (4 * (n - 1))"
    and "TIM_ICSelection ini \<in> {TIM_ICSelection_DirectTI, TIM_ICSelection_IndirectTI}"
  shows "ic_view n (TIM (TIM_PWMIConfig p ini m) p) =
      ic_settings (TIM_ICPolarity ini) (TIM_ICSelection ini) (TIM_ICPrescaler ini) (TIM_ICFilter ini) \<and>
    ic_view (3 - n) (TIM (TIM_PWMIConfig p ini m) p) =
      ic_settings (TIM_ICPolarity ini XOR 0x2) (TIM_ICSelection ini XOR 0x3) (TIM_ICPrescaler ini) (TIM_ICFilter ini) \<and>
    (\<forall>k \<in> {3, 4}. ic_view k (TIM (TIM_PWMIConfig p ini m) p) = ic_view k (TIM m p))"
proof -
  have pol: "TIM_ICPolarity ini = 0 \<or> TIM_ICPolarity ini = 2"
    using assms(2) by (auto simp add: legal_ic_def legal_capture_def bits16 bit_simps)
  have legal: "legal_capture pl sl (TIM_ICPrescaler ini) (TIM_ICFilter ini)"
    if "pl \<in> {0, 2}" "sl \<in> {1, 2}" for pl sl
    using assms(2) that by (auto simp: legal_ic_def legal_capture_def)
  show ?thesis
    using assms(3,4,5) pol
    by (elim insertE disjE) (simp_all add: TIM_PWMIConfig_def
        ti1_views [OF legal assms(1), simplified] ti2_views [OF legal assms(1), simplified])
qed

lemma pwm_input_pair_witness:
  "ic_view 2 (TIM (TIM_PWMIConfig TIM3 TIM_ICStructInit reset_mcu) TIM3) = (0x2, 0x3)"
  using pwm_input_pair [of TIM3 TIM_ICStructInit 1 reset_mcu]
  by (simp add: full_timer_def legal_ic_def legal_capture_def TIM_ICStructInit_def ic_settings_def)

text \<open>
  On the timers that the driver treats as having two channels (\<open>TIM9\<close>, \<open>TIM12\<close>, \<open>TIM15\<close>
  and the like) \<open>TI2_Config\<close> loses the edge: asked for the falling edge on channel 2, it leaves
  channel 2 on the rising edge and sets the polarity bit of channel 1 instead.
\<close>

theorem lite_timer_loses_edge:
  assumes "\<not> full_timer p"
  shows "snd (ic_view 2 (TIM (TI2_Config p TIM_ICPolarity_Falling sel filt m) p)) = 0x1 \<and>
    bit (TIM_CCER (TIM (TI2_Config p TIM_ICPolarity_Falling sel filt m) p)) 1"
proof -
  have "\<not> (p = TIM1 \<or> p = TIM8 \<or> p = TIM2 \<or> p = TIM3 \<or> p = TIM4 \<or> p = TIM5)"
    using assms by (auto simp: full_timer_def)
  then show ?thesis by (simp add: TI2_Config_def ic_view_def Let_def bits16 bit_simps)
qed

lemma lite_timer_loses_edge_witness:
  "bit (TIM_CCER (TIM (TI2_Config TIM15 TIM_ICPolarity_Falling TIM_ICSelection_DirectTI 0 reset_mcu) TIM15)) 1"
  using lite_timer_loses_edge [of TIM15 TIM_ICSelection_DirectTI 0 reset_mcu] by (simp add: full_timer_def)

end
