(* ===== verification/Usart_Driver.thy ===== *)
theory Usart_Driver
  imports Rcc
begin

text \<open>
  Serial ports, \<open>STM32F10x_FWLib/src/stm32f10x_usart.c\<close>. A store to \<open>DR\<close> is a transmission
  and goes to the log \<open>USART_DR_stores\<close>; a load takes what was received. \<open>sr_store old v\<close> is what
  the hardware leaves in \<open>SR\<close> when \<open>v\<close> is stored over \<open>old\<close>. A division by zero and a
  shift out of range are undefined in C: \<open>None\<close>.
\<close>

section \<open>Operations\<close>

record USART_InitTypeDef =
  USART_BaudRate :: u32
  USART_WordLength :: u16
  USART_StopBits :: u16
  USART_Parity :: u16
  USART_Mode :: u16
  USART_HardwareFlowControl :: u16

record USART_ClockInitTypeDef =
  USART_Clock :: u16
  USART_CPOL :: u16
  USART_CPHA :: u16
  USART_LastBit :: u16

fun USART_DeInit :: "USART_ptr \<Rightarrow> 'a mcu_scheme \<Rightarrow> 'a mcu_scheme" where
  "USART_DeInit USART1 m = RCC_APB2PeriphResetCmd RCC_APB2Periph_USART1 DISABLE
     (RCC_APB2PeriphResetCmd RCC_APB2Periph_USART1 ENABLE m)"
| "USART_DeInit USART2 m = RCC_APB1PeriphResetCmd RCC_APB1Periph_USART2 DISABLE
     (RCC_APB1PeriphResetCmd RCC_APB1Periph_USART2 ENABLE m)"
| "USART_DeInit USART3 m = RCC_APB1PeriphResetCmd RCC_APB1Periph_USART3 DISABLE
     (RCC_APB1PeriphResetCmd RCC_APB1Periph_USART3 ENABLE m)"
| "USART_DeInit UART4 m = RCC_APB1PeriphResetCmd RCC_APB1Periph_UART4 DISABLE
     (RCC_APB1PeriphResetCmd RCC_APB1Periph_UART4 ENABLE m)"
| "USART_DeInit UART5 m = RCC_APB1PeriphResetCmd RCC_APB1Periph_UART5 DISABLE
     (RCC_APB1PeriphResetCmd RCC_APB1Periph_UART5 ENABLE m)"

text \<open>The baud rate part of \<open>USART_Init\<close>: the divider of the clock \<open>apbclock\<close> in
  hundredths, then its integer and fractional parts packed for \<open>BRR\<close>.\<close>

definition usart_brr :: "bool \<Rightarrow> u32 \<Rightarrow> u32 \<Rightarrow> u32 option" where
  "usart_brr over8 apbclock baud =
     (let divisor = (if over8 then 2 * baud else 4 * baud)
      in if divisor = 0 then None else
        (let integerdivider = 25 * apbclock div divisor;
             tmpreg = push_bit 4 (integerdivider div 100);
             fractionaldivider = integerdivider - 100 * drop_bit 4 tmpreg
         in Some (if over8 then tmpreg OR (((fractionaldivider * 8 + 50) div 100) AND 0x07)
                  else tmpreg OR (((fractionaldivider * 16 + 50) div 100) AND 0x0F))))"

definition USART_Init :: "USART_ptr \<Rightarrow> USART_InitTypeDef \<Rightarrow> 'a mcu_scheme \<Rightarrow> 'a mcu_scheme option" where
  "USART_Init USARTx ini m =
     (let m = upd_USART USARTx (\<lambda>u.
            let tmpreg = ucast (USART_CR2 u) :: u32;
                tmpreg = tmpreg AND ucast CR2_STOP_CLEAR_Mask;
                tmpreg = tmpreg OR ucast (USART_StopBits ini);
                u = u\<lparr>USART_CR2 := ucast tmpreg\<rparr>;
                tmpreg = ucast (USART_CR1 u) :: u32;
                tmpreg = tmpreg AND ucast CR1_CLEAR_Mask;
                tmpreg = tmpreg OR (ucast (USART_WordLength ini) OR ucast (USART_Parity ini) OR ucast (USART_Mode ini));
                u = u\<lparr>USART_CR1 := ucast tmpreg\<rparr>;
                tmpreg = ucast (USART_CR3 u) :: u32;
                tmpreg = tmpreg AND ucast CR3_CLEAR_Mask;
                tmpreg = tmpreg OR ucast (USART_HardwareFlowControl ini)
            in u\<lparr>USART_CR3 := ucast tmpreg\<rparr>) m;
          clocks = RCC_GetClocksFreq m;
          apbclock = (if USARTx = USART1 then PCLK2_Frequency clocks else PCLK1_Frequency clocks);
          over8 = (USART_CR1 (USART m USARTx) AND CR1_OVER8_Set \<noteq> 0)
      in do {
        tmpreg \<leftarrow> usart_brr over8 apbclock (USART_BaudRate ini);
        Some (upd_USART USARTx (\<lambda>u. u\<lparr>USART_BRR := ucast tmpreg\<rparr>) m)
      })"

definition USART_StructInit :: USART_InitTypeDef where
  "USART_StructInit = \<lparr>USART_BaudRate = 9600, USART_WordLength = USART_WordLength_8b,
     USART_StopBits = USART_StopBits_1, USART_Parity = USART_Parity_No,
     USART_Mode = USART_Mode_Rx OR USART_Mode_Tx,
     USART_HardwareFlowControl = USART_HardwareFlowControl_None\<rparr>"

definition USART_ClockInit :: "USART_ptr \<Rightarrow> USART_ClockInitTypeDef \<Rightarrow> 'a mcu_scheme \<Rightarrow> 'a mcu_scheme" where
  "USART_ClockInit USARTx ini = upd_USART USARTx (\<lambda>u.
     let tmpreg = ucast (USART_CR2 u) :: u32;
         tmpreg = tmpreg AND ucast CR2_CLOCK_CLEAR_Mask;
         tmpreg = tmpreg OR (ucast (USART_Clock ini) OR ucast (USART_CPOL ini) OR
                             ucast (USART_CPHA ini) OR ucast (USART_LastBit ini))
     in u\<lparr>USART_CR2 := ucast tmpreg\<rparr>)"

definition USART_ClockStructInit :: USART_ClockInitTypeDef where
  "USART_ClockStructInit = \<lparr>USART_Clock = USART_Clock_Disable, USART_CPOL = USART_CPOL_Low,
     USART_CPHA = USART_CPHA_1Edge, USART_LastBit = USART_LastBit_Disable\<rparr>"

definition USART_Cmd :: "USART_ptr \<Rightarrow> FunctionalState \<Rightarrow> 'a mcu_scheme \<Rightarrow> 'a mcu_scheme" where
  "USART_Cmd USARTx st = upd_USART USARTx (\<lambda>u.
     if st \<noteq> DISABLE then u\<lparr>USART_CR1 := USART_CR1 u OR CR1_UE_Set\<rparr>
     else u\<lparr>USART_CR1 := USART_CR1 u AND CR1_UE_Reset\<rparr>)"

text \<open>The control register at an offset from the base address of a port. The accesses are
  32 bits wide; the upper half of each word is reserved.\<close>

definition usart_word_update :: "u32 \<Rightarrow> (u32 \<Rightarrow> u32) \<Rightarrow> USART_TypeDef \<Rightarrow> USART_TypeDef" where
  "usart_word_update off f u =
     (if off = 0x0C then u\<lparr>USART_CR1 := ucast (f (ucast (USART_CR1 u)))\<rparr>
      else if off = 0x10 then u\<lparr>USART_CR2 := ucast (f (ucast (USART_CR2 u)))\<rparr>
      else u\<lparr>USART_CR3 := ucast (f (ucast (USART_CR3 u)))\<rparr>)"

definition USART_ITConfig :: "USART_ptr \<Rightarrow> u16 \<Rightarrow> FunctionalState \<Rightarrow> 'a mcu_scheme \<Rightarrow> 'a mcu_scheme" where
  "USART_ITConfig USARTx it st = upd_USART USARTx (\<lambda>u.
     let usartreg = drop_bit 5 (ucast it :: u8);
         itpos = ucast (it AND IT_Mask) :: u32;
         itmask = push_bit (unat itpos) 1;
         off = (if usartreg = 0x01 then 0x0C else if usartreg = 0x02 then 0x10 else 0x14)
     in if st \<noteq> DISABLE then usart_word_update off (\<lambda>r. r OR itmask) u
        else usart_word_update off (\<lambda>r. r AND NOT itmask) u)"

definition USART_DMACmd :: "USART_ptr \<Rightarrow> u16 \<Rightarrow> FunctionalState \<Rightarrow> 'a mcu_scheme \<Rightarrow> 'a mcu_scheme" where
  "USART_DMACmd USARTx req st = upd_USART USARTx (\<lambda>u.
     if st \<noteq> DISABLE then u\<lparr>USART_CR3 := USART_CR3 u OR req\<rparr>
     else u\<lparr>USART_CR3 := USART_CR3 u AND NOT req\<rparr>)"

definition USART_SetAddress :: "USART_ptr \<Rightarrow> u8 \<Rightarrow> 'a mcu_scheme \<Rightarrow> 'a mcu_scheme" where
  "USART_SetAddress USARTx v = upd_USART USARTx (\<lambda>u.
     let u = u\<lparr>USART_CR2 := USART_CR2 u AND CR2_Address_Mask\<rparr>
     in u\<lparr>USART_CR2 := USART_CR2 u OR ucast v\<rparr>)"

definition USART_WakeUpConfig :: "USART_ptr \<Rightarrow> u16 \<Rightarrow> 'a mcu_scheme \<Rightarrow> 'a mcu_scheme" where
  "USART_WakeUpConfig USARTx v = upd_USART USARTx (\<lambda>u.
     let u = u\<lparr>USART_CR1 := USART_CR1 u AND CR1_WAKE_Mask\<rparr>
     in u\<lparr>USART_CR1 := USART_CR1 u OR v\<rparr>)"

definition USART_ReceiverWakeUpCmd :: "USART_ptr \<Rightarrow> FunctionalState \<Rightarrow> 'a mcu_scheme \<Rightarrow> 'a mcu_scheme" where
  "USART_ReceiverWakeUpCmd USARTx st = upd_USART USARTx (\<lambda>u.
     if st \<noteq> DISABLE then u\<lparr>USART_CR1 := USART_CR1 u OR CR1_RWU_Set\<rparr>
     else u\<lparr>USART_CR1 := USART_CR1 u AND CR1_RWU_Reset\<rparr>)"

definition USART_LINBreakDetectLengthConfig :: "USART_ptr \<Rightarrow> u16 \<Rightarrow> 'a mcu_scheme \<Rightarrow> 'a mcu_scheme" where
  "USART_LINBreakDetectLengthConfig USARTx v = upd_USART USARTx (\<lambda>u.
     let u = u\<lparr>USART_CR2 := USART_CR2 u AND CR2_LBDL_Mask\<rparr>
     in u\<lparr>USART_CR2 := USART_CR2 u OR v\<rparr>)"

definition USART_LINCmd :: "USART_ptr \<Rightarrow> FunctionalState \<Rightarrow> 'a mcu_scheme \<Rightarrow> 'a mcu_scheme" where
  "USART_LINCmd USARTx st = upd_USART USARTx (\<lambda>u.
     if st \<noteq> DISABLE then u\<lparr>USART_CR2 := USART_CR2 u OR CR2_LINEN_Set\<rparr>
     else u\<lparr>USART_CR2 := USART_CR2 u AND CR2_LINEN_Reset\<rparr>)"

definition USART_SendData :: "USART_ptr \<Rightarrow> u16 \<Rightarrow> 'a mcu_scheme \<Rightarrow> 'a mcu_scheme" where
  "USART_SendData USARTx v = upd_USART USARTx (\<lambda>u.
     u\<lparr>USART_DR_stores := USART_DR_stores u @ [v AND 0x01FF]\<rparr>)"

definition USART_ReceiveData :: "USART_ptr \<Rightarrow> 'a mcu_scheme \<Rightarrow> u16" where
  "USART_ReceiveData USARTx m = USART_DR (USART m USARTx) AND 0x01FF"

definition USART_SendBreak :: "USART_ptr \<Rightarrow> 'a mcu_scheme \<Rightarrow> 'a mcu_scheme" where
  "USART_SendBreak USARTx = upd_USART USARTx (\<lambda>u. u\<lparr>USART_CR1 := USART_CR1 u OR CR1_SBK_Set\<rparr>)"

definition USART_SetGuardTime :: "USART_ptr \<Rightarrow> u8 \<Rightarrow> 'a mcu_scheme \<Rightarrow> 'a mcu_scheme" where
  "USART_SetGuardTime USARTx v = upd_USART USARTx (\<lambda>u.
     let u = u\<lparr>USART_GTPR := USART_GTPR u AND GTPR_LSB_Mask\<rparr>
     in u\<lparr>USART_GTPR := USART_GTPR u OR push_bit 8 (ucast v)\<rparr>)"

definition USART_SetPrescaler :: "USART_ptr \<Rightarrow> u8 \<Rightarrow> 'a mcu_scheme \<Rightarrow> 'a mcu_scheme" where
  "USART_SetPrescaler USARTx v = upd_USART USARTx (\<lambda>u.
     let u = u\<lparr>USART_GTPR := USART_GTPR u AND GTPR_MSB_Mask\<rparr>
     in u\<lparr>USART_GTPR := USART_GTPR u OR ucast v\<rparr>)"

definition USART_SmartCardCmd :: "USART_ptr \<Rightarrow> FunctionalState \<Rightarrow> 'a mcu_scheme \<Rightarrow> 'a mcu_scheme" where
  "USART_SmartCardCmd USARTx st = upd_USART USARTx (\<lambda>u.
     if st \<noteq> DISABLE then u\<lparr>USART_CR3 := USART_CR3 u OR CR3_SCEN_Set\<rparr>
     else u\<lparr>USART_CR3 := USART_CR3 u AND CR3_SCEN_Reset\<rparr>)"

definition USART_SmartCardNACKCmd :: "USART_ptr \<Rightarrow> FunctionalState \<Rightarrow> 'a mcu_scheme \<Rightarrow> 'a mcu_scheme" where
  "USART_SmartCardNACKCmd USARTx st = upd_USART USARTx (\<lambda>u.
     if st \<noteq> DISABLE then u\<lparr>USART_CR3 := USART_CR3 u OR CR3_NACK_Set\<rparr>
     else u\<lparr>USART_CR3 := USART_CR3 u AND CR3_NACK_Reset\<rparr>)"

definition USART_HalfDuplexCmd :: "USART_ptr \<Rightarrow> FunctionalState \<Rightarrow> 'a mcu_scheme \<Rightarrow> 'a mcu_scheme" where
  "USART_HalfDuplexCmd USARTx st = upd_USART USARTx (\<lambda>u.
     if st \<noteq> DISABLE then u\<lparr>USART_CR3 := USART_CR3 u OR CR3_HDSEL_Set\<rparr>
     else u\<lparr>USART_CR3 := USART_CR3 u AND CR3_HDSEL_Reset\<rparr>)"

definition USART_OverSampling8Cmd :: "USART_ptr \<Rightarrow> FunctionalState \<Rightarrow> 'a mcu_scheme \<Rightarrow> 'a mcu_scheme" where
  "USART_OverSampling8Cmd USARTx st = upd_USART USARTx (\<lambda>u.
     if st \<noteq> DISABLE then u\<lparr>USART_CR1 := USART_CR1 u OR CR1_OVER8_Set\<rparr>
     else u\<lparr>USART_CR1 := USART_CR1 u AND CR1_OVER8_Reset\<rparr>)"

definition USART_OneBitMethodCmd :: "USART_ptr \<Rightarrow> FunctionalState \<Rightarrow> 'a mcu_scheme \<Rightarrow> 'a mcu_scheme" where
  "USART_OneBitMethodCmd USARTx st = upd_USART USARTx (\<lambda>u.
     if st \<noteq> DISABLE then u\<lparr>USART_CR3 := USART_CR3 u OR CR3_ONEBITE_Set\<rparr>
     else u\<lparr>USART_CR3 := USART_CR3 u AND CR3_ONEBITE_Reset\<rparr>)"

definition USART_IrDAConfig :: "USART_ptr \<Rightarrow> u16 \<Rightarrow> 'a mcu_scheme \<Rightarrow> 'a mcu_scheme" where
  "USART_IrDAConfig USARTx v = upd_USART USARTx (\<lambda>u.
     let u = u\<lparr>USART_CR3 := USART_CR3 u AND CR3_IRLP_Mask\<rparr>
     in u\<lparr>USART_CR3 := USART_CR3 u OR v\<rparr>)"

definition USART_IrDACmd :: "USART_ptr \<Rightarrow> FunctionalState \<Rightarrow> 'a mcu_scheme \<Rightarrow> 'a mcu_scheme" where
  "USART_IrDACmd USARTx st = upd_USART USARTx (\<lambda>u.
     if st \<noteq> DISABLE then u\<lparr>USART_CR3 := USART_CR3 u OR CR3_IREN_Set\<rparr>
     else u\<lparr>USART_CR3 := USART_CR3 u AND CR3_IREN_Reset\<rparr>)"

definition USART_GetFlagStatus :: "USART_ptr \<Rightarrow> u16 \<Rightarrow> 'a mcu_scheme \<Rightarrow> FlagStatus" where
  "USART_GetFlagStatus USARTx flag m = (if USART_SR (USART m USARTx) AND flag \<noteq> 0 then SET else RESET)"

definition USART_ClearFlag ::
  "(u16 \<Rightarrow> u16 \<Rightarrow> u16) \<Rightarrow> USART_ptr \<Rightarrow> u16 \<Rightarrow> 'a mcu_scheme \<Rightarrow> 'a mcu_scheme" where
  "USART_ClearFlag sr_store USARTx flag = upd_USART USARTx (\<lambda>u.
     u\<lparr>USART_SR := sr_store (USART_SR u) (NOT flag)\<rparr>)"

definition USART_GetITStatus :: "USART_ptr \<Rightarrow> u16 \<Rightarrow> 'a mcu_scheme \<Rightarrow> FlagStatus option" where
  "USART_GetITStatus USARTx it m =
     (let u = USART m USARTx;
          usartreg = drop_bit 5 (ucast it :: u8);
          itmask = push_bit (unat (it AND IT_Mask)) 1 :: u32;
          itmask = (if usartreg = 0x01 then itmask AND ucast (USART_CR1 u)
                    else if usartreg = 0x02 then itmask AND ucast (USART_CR2 u)
                    else itmask AND ucast (USART_CR3 u))
      in do {
        bitpos \<leftarrow> shl_u32 1 (ucast (drop_bit 8 it));
        let bitpos = bitpos AND ucast (USART_SR u);
        Some (if itmask \<noteq> 0 \<and> bitpos \<noteq> 0 then SET else RESET)
      })"

definition USART_ClearITPendingBit ::
  "(u16 \<Rightarrow> u16 \<Rightarrow> u16) \<Rightarrow> USART_ptr \<Rightarrow> u16 \<Rightarrow> 'a mcu_scheme \<Rightarrow> 'a mcu_scheme option" where
  "USART_ClearITPendingBit sr_store USARTx it m = do {
     itmask \<leftarrow> shl_u16 1 (drop_bit 8 it);
     Some (upd_USART USARTx (\<lambda>u. u\<lparr>USART_SR := sr_store (USART_SR u) (NOT itmask)\<rparr>) m)
   }"

section \<open>Properties of the operations\<close>

section \<open>The baud rate\<close>

text \<open>The divider of the clock in hundredths, as \<open>USART_Init\<close> computes it (16 samples per bit).\<close>

definition baud_hundredths :: "u32 \<Rightarrow> u32 \<Rightarrow> nat" where
  "baud_hundredths clk baud = 25 * unat clk div (4 * unat baud)"

lemma brr_value:
  assumes "25 * unat clk < 2 ^ 32" and "0 < baud" and "4 * unat baud < 2 ^ 32"
  shows "\<exists>b. usart_brr False clk baud = Some b \<and>
    unat b = 16 * (baud_hundredths clk baud div 100) + ((16 * (baud_hundredths clk baud mod 100) + 50) div 100) mod 16"
proof -
  let ?N = "baud_hundredths clk baud"
  define I where "I = 25 * clk div (4 * baud)"
  define t where "t = push_bit 4 (I div 100)"
  define f where "f = I - 100 * drop_bit 4 t"
  define e where "e = ((f * 16 + 50) div 100) AND 0x0F"
  have u4: "unat (4 * baud) = 4 * unat baud" using assms(3) by (simp add: unat_word_ariths)
  have "0 < unat baud" using assms(2) by (simp add: word_less_nat_alt)
  then have nz: "4 * baud \<noteq> 0" using u4 by (auto simp: word_unat_eq_iff)
  have u25: "unat (25 * clk) = 25 * unat clk" using assms(1) by (simp add: unat_word_ariths)
  have I: "unat I = ?N" unfolding I_def baud_hundredths_def unat_div u25 u4 ..
  have "?N \<le> 25 * unat clk div 4" unfolding baud_hundredths_def
    using \<open>0 < unat baud\<close> by (simp add: div_mult2_eq) 
  moreover have "25 * unat clk div 4 < 2 ^ 30" using assms(1) by (simp add: less_mult_imp_div_less)
  ultimately have Nlt: "?N < 2 ^ 30" by (rule order_le_less_trans)
  have I100: "unat (I div 100) = ?N div 100" by (simp add: unat_div I)
  have t: "unat t = 16 * (?N div 100)"
  proof -
    have "?N div 100 * 16 < 2 ^ 32" using Nlt div_le_dividend [of ?N 100] by simp
    then have "unat (I div 100 * 16) = ?N div 100 * 16"
      using unat_mult_lem [of "I div 100" 16] I100 by simp
    then show ?thesis by (simp add: t_def push_bit_eq_mult)
  qed
  have d: "drop_bit 4 t = I div 100"
    by (simp add: word_unat_eq_iff unat_drop t I100)
  have le: "100 * (?N div 100) \<le> ?N" by simp
  then have "100 * (?N div 100) < 2 ^ 32" by (rule order_le_less_trans) (use Nlt in simp)
  with I100 have J: "unat (100 * (I div 100)) = 100 * (?N div 100)"
    using unat_mult_lem [of 100 "I div 100"] by simp
  then have "100 * (I div 100) \<le> I" using le by (simp add: word_le_nat_alt I)
  then have "unat f = unat I - unat (100 * (I div 100))" unfolding f_def d by (rule unat_sub)
  then have "unat f = ?N mod 100" by (simp only: I J minus_mult_div_eq_mod)
  then have "unat ((f * 16 + 50) div 100) = (16 * (?N mod 100) + 50) div 100"
    by (simp add: unat_word_ariths unat_div)
  moreover have "e = take_bit 4 ((f * 16 + 50) div 100)"
    by (simp add: e_def take_bit_eq_mask mask_numeral)
  ultimately have e: "unat e = ((16 * (?N mod 100) + 50) div 100) mod 16"
    by (simp add: take_bit_eq_mod unat_mod)
  have "t AND e = 0" unfolding t_def e_def by (simp add: bits32 bit_simps)
  then have "t OR e = t + e" by (simp add: disjunctive_add_eq_or)
  moreover have "unat (t + e) = unat t + unat e" using Nlt by (simp add: unat_word_ariths t e)
  ultimately have "unat (t OR e) = 16 * (?N div 100) + ((16 * (?N mod 100) + 50) div 100) mod 16"
    by (simp add: t e)
  moreover have "usart_brr False clk baud = Some (t OR e)"
    using nz by (simp add: usart_brr_def Let_def t_def e_def f_def I_def)
  ultimately show ?thesis by blast
qed

text \<open>
  The divider that \<open>USART_Init\<close> writes is the exact one rounded to the nearest sixteenth if and
  only if the hundredths of its fractional part are below 97: from there on the rounded sixteenths
  are 16, the mask drops the carry into the integer part, and the divider is a whole unit short.
\<close>

theorem baud_rounding:
  assumes "25 * unat clk < 2 ^ 32" and "0 < baud" and "4 * unat baud < 2 ^ 32"
  shows "\<exists>b. usart_brr False clk baud = Some b \<and>
    (\<bar>100 * int (unat b) - 16 * int (baud_hundredths clk baud)\<bar> \<le> 50 \<longleftrightarrow> baud_hundredths clk baud mod 100 < 97)"
proof -
  let ?q = "baud_hundredths clk baud div 100" and ?f = "baud_hundredths clk baud mod 100"
  from brr_value [OF assms] obtain b where b: "usart_brr False clk baud = Some b"
    "unat b = 16 * ?q + ((16 * ?f + 50) div 100) mod 16" by blast
  have N: "baud_hundredths clk baud = 100 * ?q + ?f" by simp
  define q f r where "q = ?q" and "f = ?f" and "r = (16 * f + 50) div 100"
  have r: "100 * r \<le> 16 * f + 50" "16 * f + 50 < 100 * r + 100" unfolding r_def by linarith+
  have b': "unat b = 16 * q + r mod 16" using b(2) by (simp add: q_def f_def r_def)
  have f: "f < 100" by (simp add: f_def)
  have "\<bar>100 * int (unat b) - 16 * int (100 * q + f)\<bar> \<le> 50 \<longleftrightarrow> f < 97"
  proof (cases "f < 97")
    case True
    then have "r < 16" using r by linarith
    then show ?thesis using True b' r by simp
  next
    case False
    then have "r = 16" using r f by linarith
    then show ?thesis using False b' by simp
  qed
  then show ?thesis using b(1) N by (auto simp: q_def f_def)
qed

lemma baud_rounding_witness:
  "\<exists>b. usart_brr False 72000000 902000 = Some b \<and> \<not> \<bar>100 * int (unat b) - 16 * int 498\<bar> \<le> 50"
  using baud_rounding [of 72000000 902000] by (simp add: baud_hundredths_def)

section \<open>Interrupt sources\<close>

text \<open>
  The interrupt sources that can be both enabled and queried: code, control register and bit that
  enable it, bit of \<open>SR\<close> that announces it (reference manual).
\<close>

definition usart_sources :: "(u16 \<times> nat \<times> nat \<times> nat) list" where
  "usart_sources = [(USART_IT_PE, 1, 8, 0), (USART_IT_TXE, 1, 7, 7), (USART_IT_TC, 1, 6, 6),
     (USART_IT_RXNE, 1, 5, 5), (USART_IT_IDLE, 1, 4, 4), (USART_IT_LBD, 2, 6, 8), (USART_IT_CTS, 3, 10, 9),
     (USART_IT_ORE, 3, 0, 3), (USART_IT_NE, 3, 0, 2), (USART_IT_FE, 3, 0, 1)]"

definition control_bit :: "nat \<Rightarrow> nat \<Rightarrow> USART_TypeDef \<Rightarrow> bool" where
  "control_bit k b u = bit (if k = 1 then USART_CR1 u else if k = 2 then USART_CR2 u else USART_CR3 u) b"

lemma source_codes:
  assumes "(it, k, b, s) \<in> set usart_sources"
  shows "drop_bit 5 (ucast it :: u8) = of_nat k" "unat (ucast (it AND IT_Mask) :: u32) = b"
    "unat (it AND IT_Mask) = b" "shl_u32 1 (ucast (drop_bit 8 it)) = Some (push_bit s 1)"
    "b < 16" "s < 16" "k = 1 \<or> k = 2 \<or> k = 3"
  using assms by (auto simp: usart_sources_def shl_u32_def)

lemma word_bit_updates:
  assumes "b < 16"
  shows "ucast (ucast (x :: u16) OR push_bit b 1 :: u32) = set_bit b x"
    "ucast (ucast (x :: u16) AND NOT (push_bit b 1) :: u32) = unset_bit b x"
  using assms by (auto intro!: bit_word_eqI simp: bit_simps)

lemma mask_bit_test:
  assumes "b < 16"
  shows "push_bit b 1 AND ucast (x :: u16) \<noteq> (0 :: u32) \<longleftrightarrow> bit x b"
proof
  assume "push_bit b 1 AND ucast x \<noteq> (0 :: u32)"
  then obtain n where "bit (push_bit b 1 AND ucast x :: u32) n" by (auto simp: bit_eq_iff)
  then show "bit x b" by (auto simp: bit_simps)
next
  assume "bit x b"
  with assms have "bit (push_bit b 1 AND ucast x :: u32) b" by (simp add: bit_simps)
  then show "push_bit b 1 AND ucast x \<noteq> (0 :: u32)" by auto
qed

lemma it_config_source:
  assumes "(it, k, b, s) \<in> set usart_sources"
  shows "USART_ITConfig p it st m = upd_USART p (\<lambda>u. let f = (if st = ENABLE then set_bit b else unset_bit b) in
     if k = 1 then u\<lparr>USART_CR1 := f (USART_CR1 u)\<rparr> else if k = 2 then u\<lparr>USART_CR2 := f (USART_CR2 u)\<rparr>
     else u\<lparr>USART_CR3 := f (USART_CR3 u)\<rparr>) m"
  using source_codes(7) [OF assms] unfolding USART_ITConfig_def Let_def source_codes(1,2) [OF assms]
  by (cases st; elim disjE) (simp_all add: upd_USART_def usart_word_update_def Let_def
      word_bit_updates [OF source_codes(5) [OF assms], simplified])

lemma it_status_source:
  assumes "(it, k, b, s) \<in> set usart_sources"
  shows "USART_GetITStatus p it m =
    Some (if control_bit k b (USART m p) \<and> bit (USART_SR (USART m p)) s then SET else RESET)"
  using source_codes(7) [OF assms] unfolding USART_GetITStatus_def Let_def source_codes(1,3,4) [OF assms]
  by (elim disjE) (simp_all add: control_bit_def mask_bit_test [OF source_codes(5) [OF assms], simplified]
      mask_bit_test [OF source_codes(6) [OF assms], simplified])

text \<open>
  For every interrupt source of the port: \<open>USART_ITConfig\<close> switches the enable bit of that
  source and no other bit of the three control registers, and \<open>USART_GetITStatus\<close> reports it
  exactly when it is both enabled and pending, in the registers and bits of the reference manual.
\<close>

theorem usart_interrupt_source:
  assumes "(it, k, b, s) \<in> set usart_sources"
  shows "(\<forall>j \<in> {1, 2, 3}. \<forall>c. control_bit j c (USART (USART_ITConfig p it st m) p) \<longleftrightarrow>
      (if j = k \<and> c = b then st = ENABLE else control_bit j c (USART m p))) \<and>
    USART_GetITStatus p it m =
      Some (if control_bit k b (USART m p) \<and> bit (USART_SR (USART m p)) s then SET else RESET)"
proof -
  have b: "b < 16" and k: "k = 1 \<or> k = 2 \<or> k = 3" using source_codes(5,7) [OF assms] by auto
  have "control_bit j c (USART (USART_ITConfig p it st m) p) \<longleftrightarrow>
      (if j = k \<and> c = b then st = ENABLE else control_bit j c (USART m p))" if "j \<in> {1, 2, 3}" for j c
    using k that b
    by (cases st) (auto simp: it_config_source [OF assms] control_bit_def Let_def bit_set_bit_iff bit_unset_bit_iff)
  then show ?thesis by (simp add: it_status_source [OF assms])
qed

lemma usart_interrupt_source_witness:
  "USART_GetITStatus USART1 USART_IT_RXNE reset_mcu = Some RESET"
  using usart_interrupt_source [of USART_IT_RXNE 1 5 5 USART1 ENABLE reset_mcu]
  by (simp add: usart_sources_def control_bit_def reset_USART_def)

end
