(* ===== verification/System_Clock.thy ===== *)
theory System_Clock
  imports Globals Rcc
begin

text \<open>
  Start-up of the clock tree, \<open>USER/system_stm32f10x.c\<close>, with the selection that the file makes
  for this device: \<open>SYSCLK_FREQ_72MHz\<close>. \<open>tick\<close> is what the clock hardware does between two
  reads of a status bit; a wait for the PLL that never ends is \<open>None\<close>.
\<close>

section \<open>Operations\<close>

definition AHBPrescTable :: "u8 list" where
  "AHBPrescTable = [0, 0, 0, 0, 0, 0, 0, 0, 1, 2, 3, 4, 6, 7, 8, 9]"

definition rcc_or_CR :: "u32 \<Rightarrow> 'a mcu_scheme \<Rightarrow> 'a mcu_scheme" where
  "rcc_or_CR v = upd_RCC (\<lambda>r. r\<lparr>RCC_CR := RCC_CR r OR v\<rparr>)"

definition rcc_and_CR :: "u32 \<Rightarrow> 'a mcu_scheme \<Rightarrow> 'a mcu_scheme" where
  "rcc_and_CR v = upd_RCC (\<lambda>r. r\<lparr>RCC_CR := RCC_CR r AND v\<rparr>)"

definition rcc_or_CFGR :: "u32 \<Rightarrow> 'a mcu_scheme \<Rightarrow> 'a mcu_scheme" where
  "rcc_or_CFGR v = upd_RCC (\<lambda>r. r\<lparr>RCC_CFGR := RCC_CFGR r OR v\<rparr>)"

definition rcc_and_CFGR :: "u32 \<Rightarrow> 'a mcu_scheme \<Rightarrow> 'a mcu_scheme" where
  "rcc_and_CFGR v = upd_RCC (\<lambda>r. r\<lparr>RCC_CFGR := RCC_CFGR r AND v\<rparr>)"

text \<open>The branch of \<open>SetSysClockTo72\<close> that runs when the crystal has started.\<close>

definition SetSysClockTo72_hse ::
  "('a mcu_scheme \<Rightarrow> 'a mcu_scheme) \<Rightarrow> 'a mcu_scheme \<Rightarrow> 'a mcu_scheme option" where
  "SetSysClockTo72_hse tick m =
     (let m = upd_FLASH (\<lambda>f. f\<lparr>FLASH_ACR := FLASH_ACR f OR FLASH_ACR_PRFTBE\<rparr>) m;
          m = upd_FLASH (\<lambda>f. f\<lparr>FLASH_ACR := FLASH_ACR f AND NOT FLASH_ACR_LATENCY\<rparr>) m;
          m = upd_FLASH (\<lambda>f. f\<lparr>FLASH_ACR := FLASH_ACR f OR FLASH_ACR_LATENCY_2\<rparr>) m;
          m = rcc_or_CFGR RCC_CFGR_HPRE_DIV1 m;
          m = rcc_or_CFGR RCC_CFGR_PPRE2_DIV1 m;
          m = rcc_or_CFGR RCC_CFGR_PPRE1_DIV2 m;
          m = rcc_and_CFGR (NOT (RCC_CFGR_PLLSRC OR RCC_CFGR_PLLXTPRE OR RCC_CFGR_PLLMULL)) m;
          m = rcc_or_CFGR (RCC_CFGR_PLLSRC_HSE OR RCC_CFGR_PLLMULL9) m;
          m = rcc_or_CR RCC_CR_PLLON m
      in do {
        m \<leftarrow> wait_while tick (\<lambda>m. RCC_CR (RCC m) AND RCC_CR_PLLRDY = 0) m;
        let m = rcc_and_CFGR (NOT RCC_CFGR_SW) m;
        let m = rcc_or_CFGR RCC_CFGR_SW_PLL m;
        wait_while tick (\<lambda>m. RCC_CFGR (RCC m) AND RCC_CFGR_SWS \<noteq> 0x08) m
      })"

definition SetSysClockTo72 ::
  "('a mcu_scheme \<Rightarrow> 'a mcu_scheme) \<Rightarrow> 'a mcu_scheme \<Rightarrow> 'a mcu_scheme option" where
  "SetSysClockTo72 tick m =
     (let m = rcc_or_CR RCC_CR_HSEON m;
          m = poll_count tick (\<lambda>m. RCC_CR (RCC m) AND RCC_CR_HSERDY \<noteq> 0) (ucast HSE_STARTUP_TIMEOUT) 0 m;
          HSEStatus = (if RCC_CR (RCC m) AND RCC_CR_HSERDY \<noteq> 0 then 1 else 0 :: u32)
      in if HSEStatus = 1 then SetSysClockTo72_hse tick m else Some m)"

definition SetSysClock ::
  "('a mcu_scheme \<Rightarrow> 'a mcu_scheme) \<Rightarrow> 'a mcu_scheme \<Rightarrow> 'a mcu_scheme option" where
  "SetSysClock = SetSysClockTo72"

definition SystemInit ::
  "('a mcu_scheme \<Rightarrow> 'a mcu_scheme) \<Rightarrow> 'a mcu_scheme \<Rightarrow> 'a mcu_scheme option" where
  "SystemInit tick m =
     (let m = rcc_or_CR 0x00000001 m;
          m = rcc_and_CFGR 0xF8FF0000 m;
          m = rcc_and_CR 0xFEF6FFFF m;
          m = rcc_and_CR 0xFFFBFFFF m;
          m = rcc_and_CFGR 0xFF80FFFF m;
          m = upd_RCC (\<lambda>r. r\<lparr>RCC_CIR := 0x009F0000\<rparr>) m
      in do {
        m \<leftarrow> SetSysClock tick m;
        Some (upd_SCB (\<lambda>s. s\<lparr>SCB_VTOR := FLASH_BASE OR VECT_TAB_OFFSET\<rparr>) m)
      })"

definition SystemCoreClockUpdate :: "firmware \<Rightarrow> firmware" where
  "SystemCoreClockUpdate s =
     (let cfgr = RCC_CFGR (RCC s);
          tmp = cfgr AND RCC_CFGR_SWS;
          core =
            (if tmp = 0x00 then HSI_VALUE
             else if tmp = 0x04 then HSE_VALUE
             else if tmp = 0x08 then
               (let pllmull = cfgr AND RCC_CFGR_PLLMULL;
                    pllsource = cfgr AND RCC_CFGR_PLLSRC;
                    pllmull = drop_bit 18 pllmull + 2
                in if pllsource = 0x00 then drop_bit 1 HSI_VALUE * pllmull
                   else if cfgr AND RCC_CFGR_PLLXTPRE \<noteq> 0 then drop_bit 1 HSE_VALUE * pllmull
                   else HSE_VALUE * pllmull)
             else HSI_VALUE);
          tmp = AHBPrescTable ! unat (drop_bit 4 (cfgr AND RCC_CFGR_HPRE))
      in s\<lparr>SystemCoreClock := drop_bit (unat tmp) core\<rparr>)"

section \<open>Properties of the operations\<close>

section \<open>The clock hardware\<close>

text \<open>
  What happens between two reads of a status register: the clock hardware changes its ready bits
  (\<open>HSIRDY\<close>, \<open>HSERDY\<close>, \<open>PLLRDY\<close> in \<open>CR\<close>, the status \<open>SWS\<close> in \<open>CFGR\<close>) and nothing else.
\<close>

definition ready_frame :: "'a mcu_scheme \<Rightarrow> 'a mcu_scheme \<Rightarrow> bool" where
  "ready_frame m m' \<longleftrightarrow>
     m' = upd_RCC (\<lambda>r. r\<lparr>RCC_CR := RCC_CR (RCC m'), RCC_CFGR := RCC_CFGR (RCC m')\<rparr>) m \<and>
     RCC_CR (RCC m') AND NOT 0x02020002 = RCC_CR (RCC m) AND NOT 0x02020002 \<and>
     RCC_CFGR (RCC m') AND NOT 0xC = RCC_CFGR (RCC m) AND NOT 0xC"

definition clock_hardware :: "('a mcu_scheme \<Rightarrow> 'a mcu_scheme) \<Rightarrow> bool" where
  "clock_hardware tick \<longleftrightarrow> (\<forall>m. ready_frame m (tick m))"

text \<open>The crystal starts: ready within the time-out and then stable; the PLL locks; the switch to
  the PLL is carried out.\<close>

definition crystal_starts :: "('a mcu_scheme \<Rightarrow> 'a mcu_scheme) \<Rightarrow> bool" where
  "crystal_starts tick \<longleftrightarrow>
     (\<forall>m. bit (RCC_CR (RCC m)) 16 \<longrightarrow> (\<exists>n < 0x500. bit (RCC_CR (RCC ((tick ^^ n) m))) 17)) \<and>
     (\<forall>m. bit (RCC_CR (RCC m)) 16 \<longrightarrow> bit (RCC_CR (RCC m)) 17 \<longrightarrow> bit (RCC_CR (RCC (tick m))) 17)"

definition pll_locks :: "('a mcu_scheme \<Rightarrow> 'a mcu_scheme) \<Rightarrow> bool" where
  "pll_locks tick \<longleftrightarrow>
     (\<forall>m. bit (RCC_CR (RCC m)) 24 \<longrightarrow> (\<exists>n. bit (RCC_CR (RCC ((tick ^^ n) m))) 25)) \<and>
     (\<forall>m. RCC_CFGR (RCC m) AND 0x3 = 0x2 \<longrightarrow> (\<exists>n. RCC_CFGR (RCC ((tick ^^ n) m)) AND 0xC = 0x8))"

lemma ready_frame_refl: "ready_frame m m"
  by (simp add: ready_frame_def upd_RCC_def)

lemma ready_frame_trans: "ready_frame a b \<Longrightarrow> ready_frame b c \<Longrightarrow> ready_frame a c"
proof -
  assume ab: "ready_frame a b" and bc: "ready_frame b c"
  from bc have c: "c = upd_RCC (\<lambda>r. r\<lparr>RCC_CR := RCC_CR (RCC c), RCC_CFGR := RCC_CFGR (RCC c)\<rparr>) b"
    by (simp add: ready_frame_def)
  also have "\<dots> = upd_RCC (\<lambda>r. r\<lparr>RCC_CR := RCC_CR (RCC c), RCC_CFGR := RCC_CFGR (RCC c)\<rparr>) a"
  proof -
    from ab obtain x y where "b = upd_RCC (\<lambda>r. r\<lparr>RCC_CR := x, RCC_CFGR := y\<rparr>) a"
      by (auto simp: ready_frame_def)
    then show ?thesis by (simp add: upd_RCC_def)
  qed
  finally show ?thesis using ab bc by (simp add: ready_frame_def)
qed

lemma ready_frame_ticks:
  "clock_hardware tick \<Longrightarrow> ready_frame m ((tick ^^ n) m)"
  by (induction n) (auto simp: clock_hardware_def intro: ready_frame_refl ready_frame_trans)

text \<open>Everything outside the clock block is the same.\<close>

definition rcc_only :: "'a mcu_scheme \<Rightarrow> 'a mcu_scheme \<Rightarrow> bool" where
  "rcc_only m m' \<longleftrightarrow> m' = upd_RCC (\<lambda>_. RCC m') m"

lemma rcc_onlyI: "m' = upd_RCC f m \<Longrightarrow> rcc_only m m'"
  by (simp add: rcc_only_def upd_RCC_def)

lemma rcc_only_upd: "rcc_only m m' \<Longrightarrow> rcc_only m (upd_RCC f m')"
proof -
  assume "rcc_only m m'"
  then obtain r where "m' = upd_RCC (\<lambda>_. r) m" by (auto simp: rcc_only_def)
  then show ?thesis by (simp add: rcc_only_def upd_RCC_def)
qed

lemma rcc_only_trans: "rcc_only a b \<Longrightarrow> rcc_only b c \<Longrightarrow> rcc_only a c"
  by (metis rcc_only_def rcc_only_upd)

lemma rcc_onlyD:
  assumes "rcc_only m m'"
  shows "FLASH m' = FLASH m" "SCB m' = SCB m" "TIM m' = TIM m" "GPIO m' = GPIO m" "USART m' = USART m"
    "AFIO m' = AFIO m" "NVIC m' = NVIC m" "SysTick m' = SysTick m" "mcu.more m' = mcu.more m"
proof -
  obtain r where "m' = upd_RCC (\<lambda>_. r) m" using assms by (auto simp: rcc_only_def)
  then show "FLASH m' = FLASH m" "SCB m' = SCB m" "TIM m' = TIM m" "GPIO m' = GPIO m" "USART m' = USART m"
    "AFIO m' = AFIO m" "NVIC m' = NVIC m" "SysTick m' = SysTick m" "mcu.more m' = mcu.more m"
    by simp_all
qed

lemma ready_frameD:
  assumes "ready_frame m m'"
  shows "RCC_CR (RCC m') AND NOT 0x02020002 = RCC_CR (RCC m) AND NOT 0x02020002"
    "RCC_CFGR (RCC m') AND NOT 0xC = RCC_CFGR (RCC m) AND NOT 0xC" "rcc_only m m'"
proof -
  show "RCC_CR (RCC m') AND NOT 0x02020002 = RCC_CR (RCC m) AND NOT 0x02020002"
    "RCC_CFGR (RCC m') AND NOT 0xC = RCC_CFGR (RCC m) AND NOT 0xC"
    using assms by (simp_all only: ready_frame_def)
  show "rcc_only m m'" using assms unfolding ready_frame_def by (blast intro: rcc_onlyI)
qed

section \<open>Start-up\<close>

lemma and_submask: "k AND M = k \<Longrightarrow> (c AND M) AND k = c AND k" for c :: u32
  by (metis and.assoc and.commute)

lemma sysclk_freqs:
  assumes "RCC_CFGR (RCC m) AND 0x3FFFFF = 0x1D040A"
  shows "RCC_GetClocksFreq m = \<lparr>SYSCLK_Frequency = 72000000, HCLK_Frequency = 72000000,
    PCLK1_Frequency = 36000000, PCLK2_Frequency = 72000000, ADCCLK_Frequency = 36000000\<rparr>"
proof -
  have k: "RCC_CFGR (RCC m) AND k = 0x1D040A AND k" if "k AND 0x3FFFFF = k" for k
    using and_submask [OF that, of "RCC_CFGR (RCC m)"] assms by simp
  have f: "RCC_CFGR (RCC m) AND 0xC = 0x8" "RCC_CFGR (RCC m) AND 0x3C0000 = 0x1C0000"
    "RCC_CFGR (RCC m) AND 0x10000 = 0x10000" "RCC_CFGR (RCC m) AND 0x20000 = 0"
    "RCC_CFGR (RCC m) AND 0xF0 = 0" "RCC_CFGR (RCC m) AND 0x700 = 0x400"
    "RCC_CFGR (RCC m) AND 0x3800 = 0" "RCC_CFGR (RCC m) AND 0xC000 = 0"
    using k [of "0xC"] k [of "0x3C0000"] k [of "0x10000"] k [of "0x20000"] k [of "0xF0"] k [of "0x700"]
      k [of "0x3800"] k [of "0xC000"] by simp_all
  show ?thesis
    unfolding RCC_GetClocksFreq_def Let_def f by (simp add: APBAHBPrescTable_def ADCPrescTable_def)
qed

lemma flag_bits:
  "(r AND 0x20000 \<noteq> 0) \<longleftrightarrow> bit r 17" "(r AND 0x2000000 \<noteq> 0) \<longleftrightarrow> bit r 25"
  "(r AND 0x2000000 = 0) \<longleftrightarrow> \<not> bit r 25" for r :: u32
  by (simp_all add: bits32 bit_simps)

text \<open>The branch taken when the crystal has started.\<close>

lemma SetSysClockTo72_hse_returns:
  assumes hw: "clock_hardware tick" and pll: "pll_locks tick"
    and cfgr: "RCC_CFGR (RCC m) AND 0x3FFFF3 = 0"
  shows "\<exists>m'. SetSysClockTo72_hse tick m = Some m' \<and> RCC_CFGR (RCC m') AND 0x3FFFFF = 0x1D040A \<and>
    rcc_only (upd_FLASH (\<lambda>f. f\<lparr>FLASH_ACR := ((FLASH_ACR f OR 0x10) AND NOT 0x3) OR 0x2\<rparr>) m) m'"
proof -
  define a where "a = upd_FLASH (\<lambda>f. f\<lparr>FLASH_ACR := ((FLASH_ACR f OR 0x10) AND NOT 0x3) OR 0x2\<rparr>) m"
  define b where "b = upd_RCC (\<lambda>r. r\<lparr>RCC_CFGR := (((RCC_CFGR r OR 0x400) AND NOT 0x3F0000) OR 0x1D0000),
     RCC_CR := RCC_CR r OR 0x1000000\<rparr>) a"
  have run: "SetSysClockTo72_hse tick m = do {
      m \<leftarrow> wait_while tick (\<lambda>m. RCC_CR (RCC m) AND 0x2000000 = 0) b;
      wait_while tick (\<lambda>m. RCC_CFGR (RCC m) AND 0xC \<noteq> 0x8) (upd_RCC (\<lambda>r. r\<lparr>RCC_CFGR := (RCC_CFGR r AND NOT 0x3) OR 0x2\<rparr>) m) }"
    by (simp add: SetSysClockTo72_hse_def Let_def b_def a_def upd_FLASH_def upd_RCC_def
        rcc_or_CFGR_def rcc_and_CFGR_def rcc_or_CR_def)
  have "bit (RCC_CR (RCC b)) 24" by (simp add: b_def bit_or_iff)
  then obtain n where "bit (RCC_CR (RCC ((tick ^^ n) b))) 25" using pll by (auto simp: pll_locks_def)
  then have "\<not> RCC_CR (RCC ((tick ^^ n) b)) AND 0x2000000 = 0" by (simp add: flag_bits)
  from wait_while_returns [of "\<lambda>m. RCC_CR (RCC m) AND 0x2000000 = 0", OF this] obtain k where
    k: "wait_while tick (\<lambda>m. RCC_CR (RCC m) AND 0x2000000 = 0) b = Some ((tick ^^ k) b)" by blast
  define c where "c = upd_RCC (\<lambda>r. r\<lparr>RCC_CFGR := (RCC_CFGR r AND NOT 0x3) OR 0x2\<rparr>) ((tick ^^ k) b)"
  have bc: "ready_frame b ((tick ^^ k) b)" by (rule ready_frame_ticks [OF hw])
  have "RCC_CFGR (RCC c) AND 0x3 = 0x2" by (simp add: c_def bits32 bit_simps)
  then obtain j where "RCC_CFGR (RCC ((tick ^^ j) c)) AND 0xC = 0x8" using pll by (auto simp: pll_locks_def)
  then have "\<not> RCC_CFGR (RCC ((tick ^^ j) c)) AND 0xC \<noteq> 0x8" by simp
  from wait_while_returns [of "\<lambda>m. RCC_CFGR (RCC m) AND 0xC \<noteq> 0x8", OF this] obtain i where
    i: "wait_while tick (\<lambda>m. RCC_CFGR (RCC m) AND 0xC \<noteq> 0x8) c = Some ((tick ^^ i) c)"
      "RCC_CFGR (RCC ((tick ^^ i) c)) AND 0xC = 0x8" by blast
  define d where "d = (tick ^^ i) c"
  have cd: "ready_frame c d" unfolding d_def by (rule ready_frame_ticks [OF hw])
  have "SetSysClockTo72_hse tick m = Some d" using i(1) by (simp add: run k c_def d_def)
  moreover have "RCC_CFGR (RCC d) AND 0x3FFFFF = 0x1D040A"
  proof -
    have "RCC_CFGR (RCC d) AND NOT 0xC = RCC_CFGR (RCC c) AND NOT 0xC" "RCC_CFGR (RCC d) AND 0xC = 0x8"
      "RCC_CFGR (RCC ((tick ^^ k) b)) AND NOT 0xC = RCC_CFGR (RCC b) AND NOT 0xC"
      using ready_frameD(2) [OF cd] ready_frameD(2) [OF bc] i(2) by (simp_all add: d_def)
    with cfgr show ?thesis by (simp add: c_def b_def a_def bits32 bit_simps)
  qed
  moreover have "rcc_only a d"
    using ready_frameD(3) [OF cd] ready_frameD(3) [OF bc] rcc_onlyI [OF b_def] rcc_onlyI [OF c_def]
    by (meson rcc_only_trans)
  ultimately show ?thesis by (auto simp: a_def)
qed

text \<open>The part of \<open>SystemInit\<close> before the clock is switched.\<close>

definition clock_reset :: "'a mcu_scheme \<Rightarrow> 'a mcu_scheme" where
  "clock_reset = upd_RCC (\<lambda>r. r\<lparr>RCC_CR := (RCC_CR r OR 0x1) AND 0xFEF2FFFF,
     RCC_CFGR := RCC_CFGR r AND 0xF8800000, RCC_CIR := 0x009F0000\<rparr>)"

lemma SystemInit_eq:
  "SystemInit tick m = do {
     m \<leftarrow> SetSysClockTo72 tick (clock_reset m);
     Some (upd_SCB (\<lambda>s. s\<lparr>SCB_VTOR := 0x08000000\<rparr>) m)
   }"
  by (simp add: SystemInit_def SetSysClock_def clock_reset_def rcc_or_CR_def rcc_and_CR_def
      rcc_and_CFGR_def upd_RCC_def Let_def and.assoc)

lemma startup_poll:
  assumes hw: "clock_hardware tick" and xtal: "crystal_starts tick" and on: "bit (RCC_CR (RCC m)) 16"
  shows "bit (RCC_CR (RCC (poll_count tick (\<lambda>m. RCC_CR (RCC m) AND 0x20000 \<noteq> 0) 0x500 0 m))) 17 \<and>
    ready_frame m (poll_count tick (\<lambda>m. RCC_CR (RCC m) AND 0x20000 \<noteq> 0) 0x500 0 m)"
proof -
  have "unat (0x500 :: u32) = unat (0 :: u32) + Suc 0x4FF" by simp
  from poll_count_reads [OF this, of tick "\<lambda>m. RCC_CR (RCC m) AND 0x20000 \<noteq> 0" m]
  obtain k where k: "k \<le> 0x4FF"
      "poll_count tick (\<lambda>m. RCC_CR (RCC m) AND 0x20000 \<noteq> 0) 0x500 0 m = (tick ^^ Suc k) m"
      "\<forall>j < k. \<not> bit (RCC_CR (RCC ((tick ^^ j) m))) 17"
      "bit (RCC_CR (RCC ((tick ^^ k) m))) 17 \<or> k = 0x4FF"
    unfolding flag_bits by blast
  from xtal on obtain n where n: "n < 0x500" "bit (RCC_CR (RCC ((tick ^^ n) m))) 17"
    by (auto simp: crystal_starts_def)
  have hseon: "bit (RCC_CR (RCC ((tick ^^ j) m))) 16" for j
  proof -
    have "bit (RCC_CR (RCC ((tick ^^ j) m)) AND NOT 0x02020002) 16 = bit (RCC_CR (RCC m) AND NOT 0x02020002) 16"
      by (simp only: ready_frameD(1) [OF ready_frame_ticks [OF hw]])
    then show ?thesis using on by (simp add: bit_simps)
  qed
  have up: "bit (RCC_CR (RCC ((tick ^^ k) m))) 17"
  proof (cases "k = 0x4FF")
    case False
    then show ?thesis using k(4) by blast
  next
    case True
    with n(1) have "n \<le> k" by simp
    moreover have "\<not> n < k" using k(3) n(2) by blast
    ultimately have "n = k" by simp
    then show ?thesis using n by simp
  qed
  have "bit (RCC_CR (RCC ((tick ^^ Suc k) m))) 17"
    using xtal hseon up by (auto simp: crystal_starts_def)
  then show ?thesis using k(2) ready_frame_ticks [OF hw, of m "Suc k"] by simp
qed

lemma SystemInit_clock_tree:
  assumes hw: "clock_hardware tick" and xtal: "crystal_starts tick" and pll: "pll_locks tick"
  shows "\<exists>m'. SystemInit tick m = Some m' \<and>
    RCC_GetClocksFreq m' = \<lparr>SYSCLK_Frequency = 72000000, HCLK_Frequency = 72000000,
      PCLK1_Frequency = 36000000, PCLK2_Frequency = 72000000, ADCCLK_Frequency = 36000000\<rparr> \<and>
    FLASH_ACR (FLASH m') AND 0x13 = 0x12 \<and> SCB_VTOR (SCB m') = 0x08000000 \<and>
    TIM m' = TIM m \<and> GPIO m' = GPIO m \<and> USART m' = USART m \<and> NVIC m' = NVIC m \<and> mcu.more m' = mcu.more m"
proof -
  let ?on = "rcc_or_CR RCC_CR_HSEON (clock_reset m)"
  let ?p = "poll_count tick (\<lambda>m. RCC_CR (RCC m) AND 0x20000 \<noteq> 0) 0x500 0 ?on"
  have "bit (RCC_CR (RCC ?on)) 16" by (simp add: rcc_or_CR_def bit_or_iff)
  from startup_poll [OF hw xtal this] have up: "bit (RCC_CR (RCC ?p)) 17" and fr: "ready_frame ?on ?p" by auto
  have "RCC_CFGR (RCC ?on) AND 0x3FFFF3 = 0" by (simp add: rcc_or_CR_def clock_reset_def bits32 bit_simps)
  with ready_frameD(2) [OF fr] have "RCC_CFGR (RCC ?p) AND 0x3FFFF3 = 0" by (simp add: bits32 bit_simps)
  from SetSysClockTo72_hse_returns [OF hw pll this] obtain d where
    d: "SetSysClockTo72_hse tick ?p = Some d" "RCC_CFGR (RCC d) AND 0x3FFFFF = 0x1D040A"
      "rcc_only (upd_FLASH (\<lambda>f. f\<lparr>FLASH_ACR := ((FLASH_ACR f OR 0x10) AND NOT 0x3) OR 0x2\<rparr>) ?p) d" by blast
  have "rcc_only m ?on" by (rule rcc_onlyI) (simp add: rcc_or_CR_def clock_reset_def upd_RCC_def)
  then have p: "rcc_only m ?p" using ready_frameD(3) [OF fr] by (rule rcc_only_trans)
  have "RCC_CR (RCC ?p) AND 0x20000 \<noteq> 0" using up by (simp add: flag_bits)
  then have "SetSysClockTo72 tick (clock_reset m) = Some d"
    using d(1) by (simp add: SetSysClockTo72_def Let_def)
  then have "SystemInit tick m = Some (upd_SCB (\<lambda>s. s\<lparr>SCB_VTOR := 0x08000000\<rparr>) d)"
    by (simp add: SystemInit_eq)
  moreover have "RCC_CFGR (RCC (upd_SCB (\<lambda>s. s\<lparr>SCB_VTOR := 0x08000000\<rparr>) d)) AND 0x3FFFFF = 0x1D040A"
    using d(2) by simp
  note sysclk_freqs [OF this]
  moreover have fl: "(((x OR 0x10) AND NOT 0x3) OR 0x2) AND 0x13 = 0x12" for x :: u32
    by (simp add: bits32 bit_simps)
  ultimately show ?thesis
    by (simp add: rcc_onlyD [OF d(3)] rcc_onlyD [OF p] fl)
qed

text \<open>
  Start-up: if the crystal starts within the time-out, the PLL locks and the switch is carried
  out, \<open>SystemInit\<close> returns with the clock tree the firmware is written for: system, AHB and APB2
  at 72 MHz, APB1 at 36 MHz, two flash wait states with prefetch, the vector table in flash; no
  timer, port or interrupt is touched.
\<close>

theorem SystemInit_72MHz:
  assumes hw: "clock_hardware tick" and xtal: "crystal_starts tick" and pll: "pll_locks tick"
  shows "\<exists>m'. SystemInit tick m = Some m' \<and>
    RCC_GetClocksFreq m' = \<lparr>SYSCLK_Frequency = 72000000, HCLK_Frequency = 72000000,
      PCLK1_Frequency = 36000000, PCLK2_Frequency = 72000000, ADCCLK_Frequency = 36000000\<rparr> \<and>
    FLASH_ACR (FLASH m') AND 0x13 = 0x12 \<and> SCB_VTOR (SCB m') = 0x08000000 \<and>
    TIM m' = TIM m \<and> GPIO m' = GPIO m \<and> USART m' = USART m \<and> NVIC m' = NVIC m \<and> mcu.more m' = mcu.more m"
  by (rule SystemInit_clock_tree [OF assms])

text \<open>A clock hardware that does at the next tick what it is asked: a concrete instance.\<close>

definition prompt_clock :: "'a mcu_scheme \<Rightarrow> 'a mcu_scheme" where
  "prompt_clock = upd_RCC (\<lambda>r. r\<lparr>
     RCC_CR := (RCC_CR r AND NOT 0x02020002) OR (push_bit 1 (RCC_CR r) AND 0x02020002),
     RCC_CFGR := (RCC_CFGR r AND NOT 0xC) OR (push_bit 2 (RCC_CFGR r AND 0x3))\<rparr>)"

lemma prompt_clock_hardware: "clock_hardware prompt_clock"
  unfolding clock_hardware_def ready_frame_def
proof (intro allI conjI)
  fix m :: "'a mcu_scheme"
  show "prompt_clock m = upd_RCC (\<lambda>r. r\<lparr>RCC_CR := RCC_CR (RCC (prompt_clock m)),
      RCC_CFGR := RCC_CFGR (RCC (prompt_clock m))\<rparr>) m"
    by (simp add: prompt_clock_def upd_RCC_def)
  show "RCC_CR (RCC (prompt_clock m)) AND NOT 0x02020002 = RCC_CR (RCC m) AND NOT 0x02020002"
    "RCC_CFGR (RCC (prompt_clock m)) AND NOT 0xC = RCC_CFGR (RCC m) AND NOT 0xC"
    by (simp_all add: prompt_clock_def bits32 bit_simps)
qed

lemma prompt_clock_crystal: "crystal_starts prompt_clock"
  unfolding crystal_starts_def
proof (intro conjI allI impI)
  fix m :: "'a mcu_scheme"
  assume on: "bit (RCC_CR (RCC m)) 16"
  show "\<exists>n < 0x500. bit (RCC_CR (RCC ((prompt_clock ^^ n) m))) 17"
    by (rule exI [of _ 1]) (use on in \<open>simp add: prompt_clock_def bit_simps del: push_bit_Suc\<close>)
  show "bit (RCC_CR (RCC (prompt_clock m))) 17"
    using on by (simp add: prompt_clock_def bit_simps del: push_bit_Suc)
qed

lemma prompt_clock_pll: "pll_locks prompt_clock"
  unfolding pll_locks_def
proof (intro conjI allI impI)
  fix m :: "'a mcu_scheme"
  assume on: "bit (RCC_CR (RCC m)) 24"
  show "\<exists>n. bit (RCC_CR (RCC ((prompt_clock ^^ n) m))) 25"
    by (rule exI [of _ 1]) (use on in \<open>simp add: prompt_clock_def bit_simps del: push_bit_Suc\<close>)
next
  fix m :: "'a mcu_scheme"
  assume sw: "RCC_CFGR (RCC m) AND 0x3 = 0x2"
  show "\<exists>n. RCC_CFGR (RCC ((prompt_clock ^^ n) m)) AND 0xC = 0x8"
    by (rule exI [of _ 1]) (use sw in \<open>simp add: prompt_clock_def bits32 bit_simps\<close>)
qed

lemma SystemInit_72MHz_witness:
  "\<exists>m'. SystemInit prompt_clock reset_mcu = Some m' \<and> HCLK_Frequency (RCC_GetClocksFreq m') = 72000000"
proof -
  from SystemInit_72MHz [OF prompt_clock_hardware prompt_clock_crystal prompt_clock_pll, of reset_mcu]
  show ?thesis by auto
qed

lemma hsi_freqs:
  assumes "RCC_CFGR (RCC m) AND 0x3FFFFF = 0"
  shows "RCC_GetClocksFreq m = \<lparr>SYSCLK_Frequency = 8000000, HCLK_Frequency = 8000000,
    PCLK1_Frequency = 8000000, PCLK2_Frequency = 8000000, ADCCLK_Frequency = 4000000\<rparr>"
proof -
  have k: "RCC_CFGR (RCC m) AND k = 0" if "k AND 0x3FFFFF = k" for k
    using and_submask [OF that, of "RCC_CFGR (RCC m)"] assms by simp
  have f: "RCC_CFGR (RCC m) AND 0xC = 0" "RCC_CFGR (RCC m) AND 0xF0 = 0" "RCC_CFGR (RCC m) AND 0x700 = 0"
    "RCC_CFGR (RCC m) AND 0x3800 = 0" "RCC_CFGR (RCC m) AND 0xC000 = 0"
    by (rule k; simp)+
  show ?thesis
    unfolding RCC_GetClocksFreq_def Let_def f by (simp add: APBAHBPrescTable_def ADCPrescTable_def)
qed

lemma rcc_only_core: "rcc_only s d \<Longrightarrow> SystemCoreClock d = SystemCoreClock s"
proof -
  assume "rcc_only s d"
  then obtain r where "d = upd_RCC (\<lambda>_. r) s" by (auto simp: rcc_only_def)
  then show ?thesis by (simp add: upd_RCC_def)
qed

text \<open>
  A crystal that never starts does not hang the start-up: \<open>SystemInit\<close> gives up after
  \<open>0x500\<close> reads and returns with the internal oscillator as system clock, 8 MHz everywhere, the
  flash set up for no clock of 72 MHz. The variable \<open>SystemCoreClock\<close> is not told: it keeps its
  initial value.
\<close>

theorem SystemInit_without_crystal:
  fixes s :: firmware
  assumes hw: "clock_hardware tick" and dead: "\<forall>n. \<not> bit (RCC_CR (RCC ((tick ^^ n) (rcc_or_CR RCC_CR_HSEON (clock_reset s))))) 17"
    and hsi: "\<forall>n. RCC_CFGR (RCC ((tick ^^ n) (rcc_or_CR RCC_CR_HSEON (clock_reset s)))) AND 0xC = 0"
  shows "\<exists>t. SystemInit tick s = Some t \<and>
    RCC_GetClocksFreq t = \<lparr>SYSCLK_Frequency = 8000000, HCLK_Frequency = 8000000,
      PCLK1_Frequency = 8000000, PCLK2_Frequency = 8000000, ADCCLK_Frequency = 4000000\<rparr> \<and>
    FLASH t = FLASH s \<and> SystemCoreClock t = SystemCoreClock s"
proof -
  let ?on = "rcc_or_CR RCC_CR_HSEON (clock_reset s)"
  have "unat (0x500 :: u32) = unat (0 :: u32) + Suc 0x4FF" by simp
  from poll_count_reads [OF this, of tick "\<lambda>m. RCC_CR (RCC m) AND 0x20000 \<noteq> 0" ?on]
  obtain k where p: "poll_count tick (\<lambda>m. RCC_CR (RCC m) AND 0x20000 \<noteq> 0) 0x500 0 ?on = (tick ^^ Suc k) ?on"
    by blast
  define d where "d = (tick ^^ Suc k) ?on"
  have fr: "ready_frame ?on d" unfolding d_def by (rule ready_frame_ticks [OF hw])
  have off: "RCC_CR (RCC d) AND 0x20000 = 0" and sws: "RCC_CFGR (RCC d) AND 0xC = 0"
    using dead hsi flag_bits(1) [of "RCC_CR (RCC d)"] unfolding d_def by blast+
  have "SetSysClockTo72 tick (clock_reset s) = Some d"
    using off by (simp add: SetSysClockTo72_def Let_def p d_def [symmetric] del: funpow.simps)
  then have "SystemInit tick s = Some (upd_SCB (\<lambda>x. x\<lparr>SCB_VTOR := 0x08000000\<rparr>) d)"
    by (simp add: SystemInit_eq)
  moreover have "RCC_CFGR (RCC ?on) AND 0x3FFFF3 = 0"
    by (simp add: rcc_or_CR_def clock_reset_def bits32 bit_simps)
  with ready_frameD(2) [OF fr] sws have cfgr: "RCC_CFGR (RCC d) AND 0x3FFFFF = 0"
    by (simp add: bits32 bit_simps)
  have "rcc_only s ?on" by (rule rcc_onlyI) (simp add: rcc_or_CR_def clock_reset_def upd_RCC_def)
  then have "rcc_only s d" using ready_frameD(3) [OF fr] by (rule rcc_only_trans)
  moreover have "RCC_GetClocksFreq (upd_SCB (\<lambda>x. x\<lparr>SCB_VTOR := 0x08000000\<rparr>) d) =
     \<lparr>SYSCLK_Frequency = 8000000, HCLK_Frequency = 8000000,
      PCLK1_Frequency = 8000000, PCLK2_Frequency = 8000000, ADCCLK_Frequency = 4000000\<rparr>"
    by (rule hsi_freqs) (simp add: cfgr)
  ultimately show ?thesis
    by (auto simp: rcc_onlyD upd_SCB_def rcc_only_core)
qed

lemma SystemInit_without_crystal_witness:
  "\<exists>t. SystemInit id (reset_firmware [0] [0]) = Some t \<and>
     HCLK_Frequency (RCC_GetClocksFreq t) = 8000000 \<and> SystemCoreClock t = 72000000"
proof -
  have hw: "clock_hardware (id :: firmware \<Rightarrow> firmware)"
    by (simp add: clock_hardware_def ready_frame_refl)
  have id: "(id ^^ n) x = x" for n and x :: firmware by (induction n) simp_all
  let ?s = "reset_firmware [0] [0]"
  have "\<forall>n. \<not> bit (RCC_CR (RCC ((id ^^ n) (rcc_or_CR RCC_CR_HSEON (clock_reset ?s))))) 17"
    unfolding id by (simp add: rcc_or_CR_def clock_reset_def reset_RCC_def bit_simps)
  moreover have "\<forall>n. RCC_CFGR (RCC ((id ^^ n) (rcc_or_CR RCC_CR_HSEON (clock_reset ?s)))) AND 0xC = 0"
    unfolding id by (simp add: rcc_or_CR_def clock_reset_def reset_RCC_def)
  ultimately show ?thesis using SystemInit_without_crystal [OF hw, of ?s] by fastforce
qed

text \<open>
  \<open>SystemCoreClockUpdate\<close> computes the AHB frequency of the reference manual for every
  content of the configuration register (its prescaler table is the right one), and
  changes no register.
\<close>

theorem SystemCoreClockUpdate_right:
  "unat (SystemCoreClock (SystemCoreClockUpdate s)) = hclk_hz (RCC_CFGR (RCC s)) \<and>
   mcu.truncate (SystemCoreClockUpdate s) = mcu.truncate s"
proof -
  let ?h = "unat (drop_bit 4 (RCC_CFGR (RCC s) AND 0xF0))"
  have "\<forall>c < 16. 2 ^ unat (AHBPrescTable ! c) = hpre_divisor c"
    by (simp add: AHBPrescTable_def hpre_divisor_def all_less_16)
  then have h: "2 ^ unat (AHBPrescTable ! ?h) = hpre_divisor ?h"
    using cfgr_codes(1) by blast
  have core: "SystemCoreClock (s\<lparr>SystemCoreClock := x\<rparr>) = x" for x by simp
  have "unat (SystemCoreClock (SystemCoreClockUpdate s)) = hclk_hz (RCC_CFGR (RCC s))"
    unfolding SystemCoreClockUpdate_def Let_def core unat_drop sysclk_hz_word hclk_hz_def
      h [unfolded unat_drop] ..
  then show ?thesis by (simp add: SystemCoreClockUpdate_def Let_def mcu.truncate_def)
qed

end
