(* ===== verification/Delay.thy ===== *)
theory Delay
  imports Globals Misc
begin

text \<open>
  Busy delays on SysTick, \<open>SYSTEM/delay/delay.c\<close> without an operating system
  (\<open>SYSTEM_SUPPORT_OS\<close> is 0). \<open>tick\<close> is what SysTick does between two reads of its control
  register; a delay that never ends is \<open>None\<close>.
\<close>

section \<open>Operations\<close>

definition delay_init :: "firmware \<Rightarrow> firmware" where
  "delay_init s =
     (let s = SysTick_CLKSourceConfig SysTick_CLKSource_HCLK_Div8 s;
          s = s\<lparr>fac_us := ucast (SystemCoreClock s div 8000000)\<rparr>
      in s\<lparr>fac_ms := ucast (fac_us s) * 1000\<rparr>)"

definition systick_counting :: "'a mcu_scheme \<Rightarrow> bool" where
  "systick_counting m =
     (let temp = SysTick_CTRL (SysTick m) in temp AND 0x01 \<noteq> 0 \<and> temp AND push_bit 16 1 = 0)"

definition systick_delay ::
  "('a mcu_scheme \<Rightarrow> 'a mcu_scheme) \<Rightarrow> u32 \<Rightarrow> 'a mcu_scheme \<Rightarrow> 'a mcu_scheme option" where
  "systick_delay tick load m =
     (let m = upd_SysTick (\<lambda>t. t\<lparr>SysTick_LOAD := load\<rparr>) m;
          m = upd_SysTick (\<lambda>t. t\<lparr>SysTick_VAL := 0x00\<rparr>) m;
          m = upd_SysTick (\<lambda>t. t\<lparr>SysTick_CTRL := SysTick_CTRL t OR SysTick_CTRL_ENABLE_Msk\<rparr>) m
      in do {
        m \<leftarrow> wait_while tick systick_counting m;
        let m = upd_SysTick (\<lambda>t. t\<lparr>SysTick_CTRL := SysTick_CTRL t AND NOT SysTick_CTRL_ENABLE_Msk\<rparr>) m;
        Some (upd_SysTick (\<lambda>t. t\<lparr>SysTick_VAL := 0x00\<rparr>) m)
      })"

definition delay_us :: "(firmware \<Rightarrow> firmware) \<Rightarrow> u32 \<Rightarrow> firmware \<Rightarrow> firmware option" where
  "delay_us tick nus s = systick_delay tick (nus * ucast (fac_us s)) s"

definition delay_ms :: "(firmware \<Rightarrow> firmware) \<Rightarrow> u16 \<Rightarrow> firmware \<Rightarrow> firmware option" where
  "delay_ms tick nms s = systick_delay tick (ucast nms * ucast (fac_ms s)) s"

section \<open>Properties of the operations\<close>

text \<open>
  SysTick as the architecture describes it, between two reads: enabled, it reloads at 0 and
  counts down otherwise, and raises \<open>COUNTFLAG\<close> (bit 16) on the way from 1 to 0.
\<close>

definition systick_hardware :: "('a mcu_scheme \<Rightarrow> 'a mcu_scheme) \<Rightarrow> bool" where
  "systick_hardware tick \<longleftrightarrow>
     (\<forall>m. bit (SysTick_CTRL (SysTick m)) 0 \<longrightarrow>
       bit (SysTick_CTRL (SysTick (tick m))) 0 \<and>
       SysTick_LOAD (SysTick (tick m)) = SysTick_LOAD (SysTick m) \<and>
       SysTick_VAL (SysTick (tick m)) =
         (if SysTick_VAL (SysTick m) = 0 then SysTick_LOAD (SysTick m) else SysTick_VAL (SysTick m) - 1) \<and>
       bit (SysTick_CTRL (SysTick (tick m))) 16 = (SysTick_VAL (SysTick m) = 1))"

definition systick_armed :: "u32 \<Rightarrow> 'a mcu_scheme \<Rightarrow> 'a mcu_scheme" where
  "systick_armed load = upd_SysTick (\<lambda>t. t\<lparr>SysTick_LOAD := load, SysTick_VAL := 0,
     SysTick_CTRL := SysTick_CTRL t OR SysTick_CTRL_ENABLE_Msk\<rparr>)"

definition systick_stopped :: "'a mcu_scheme \<Rightarrow> 'a mcu_scheme" where
  "systick_stopped = upd_SysTick (\<lambda>t. t\<lparr>SysTick_CTRL := SysTick_CTRL t AND NOT SysTick_CTRL_ENABLE_Msk,
     SysTick_VAL := 0\<rparr>)"

lemma systick_delay_eq:
  "systick_delay tick load m =
     map_option systick_stopped (wait_while tick systick_counting (systick_armed load m))"
  by (cases "wait_while tick systick_counting (systick_armed load m)")
    (simp_all add: systick_delay_def systick_armed_def systick_stopped_def upd_SysTick_def Let_def)

lemma systick_counting_bits:
  "systick_counting m \<longleftrightarrow> bit (SysTick_CTRL (SysTick m)) 0 \<and> \<not> bit (SysTick_CTRL (SysTick m)) 16"
  by (simp add: systick_counting_def Let_def bits32 bit_simps)

text \<open>Once armed with a load that is not 0, the counter is at \<open>load - k\<close> after \<open>k + 1\<close> ticks.\<close>

lemma systick_run:
  assumes hw: "systick_hardware tick" and load: "0 < load" and k: "k \<le> unat load"
  shows "bit (SysTick_CTRL (SysTick ((tick ^^ Suc k) (systick_armed load m)))) 0 \<and>
    SysTick_LOAD (SysTick ((tick ^^ Suc k) (systick_armed load m))) = load \<and>
    unat (SysTick_VAL (SysTick ((tick ^^ Suc k) (systick_armed load m)))) = unat load - k \<and>
    bit (SysTick_CTRL (SysTick ((tick ^^ Suc k) (systick_armed load m)))) 16 = (k = unat load)"
  using k
proof (induction k)
  case 0
  have "bit (SysTick_CTRL (SysTick (systick_armed load m))) 0"
    by (simp add: systick_armed_def bit_or_iff)
  then show ?case
    using hw load by (simp add: systick_hardware_def systick_armed_def unat_eq_0)
next
  case (Suc k)
  let ?u = "(tick ^^ Suc k) (systick_armed load m)"
  from Suc have b: "bit (SysTick_CTRL (SysTick ?u)) 0" "SysTick_LOAD (SysTick ?u) = load"
    and v: "unat (SysTick_VAL (SysTick ?u)) = unat load - k" by simp_all
  have nz: "SysTick_VAL (SysTick ?u) \<noteq> 0"
    using v Suc.prems by (metis diff_is_0_eq not_less_eq_eq unsigned_0)
  then have "unat (SysTick_VAL (SysTick ?u) - 1) = unat load - Suc k"
    using v by (simp add: unat_minus_one)
  moreover have "SysTick_VAL (SysTick ?u) = 1 \<longleftrightarrow> Suc k = unat load"
    using v Suc.prems by (auto simp: word_unat_eq_iff)
  moreover have "(tick ^^ Suc (Suc k)) (systick_armed load m) = tick ?u" by simp
  ultimately show ?case using hw b nz unfolding systick_hardware_def by presburger
qed

lemma systick_delay_exact:
  assumes hw: "systick_hardware tick" and load: "0 < load"
    and clear: "\<not> bit (SysTick_CTRL (SysTick m)) 16"
  shows "systick_delay tick load m = Some (systick_stopped ((tick ^^ Suc (unat load)) (systick_armed load m)))"
proof -
  let ?s = "systick_armed load m"
  have "\<not> systick_counting ((tick ^^ Suc (unat load)) ?s)"
    using systick_run [OF hw load, of "unat load" m] by (simp add: systick_counting_bits)
  from wait_while_returns [of systick_counting, OF this] obtain k where k: "k \<le> Suc (unat load)"
    "wait_while tick systick_counting ?s = Some ((tick ^^ k) ?s)" "\<not> systick_counting ((tick ^^ k) ?s)"
    by blast
  have "systick_counting ?s"
    using clear by (simp add: systick_counting_bits systick_armed_def bit_or_iff bit_1_iff)
  with k(3) have "k \<noteq> 0" by (metis funpow_0)
  then obtain j where j: "k = Suc j" by (cases k) auto
  with k(1,3) systick_run [OF hw load, of j m] have "j = unat load"
    by (auto simp: systick_counting_bits)
  then show ?thesis by (simp add: systick_delay_eq k(2) j)
qed

lemma systick_delay_zero:
  assumes hw: "systick_hardware tick" and clear: "\<not> bit (SysTick_CTRL (SysTick m)) 16"
  shows "systick_delay tick 0 m = None"
proof -
  let ?s = "systick_armed 0 m"
  have "bit (SysTick_CTRL (SysTick ((tick ^^ n) ?s))) 0 \<and> SysTick_LOAD (SysTick ((tick ^^ n) ?s)) = 0 \<and>
      SysTick_VAL (SysTick ((tick ^^ n) ?s)) = 0 \<and> \<not> bit (SysTick_CTRL (SysTick ((tick ^^ n) ?s))) 16" for n
  proof (induction n)
    case 0
    then show ?case using clear by (simp add: systick_armed_def bit_or_iff bit_1_iff)
  next
    case (Suc n)
    then show ?case using hw by (simp add: systick_hardware_def)
  qed
  then have "\<forall>n. systick_counting ((tick ^^ n) ?s)" by (simp add: systick_counting_bits)
  then show ?thesis by (simp add: systick_delay_eq wait_while_None_iff [symmetric])
qed

text \<open>The delays that the comment of \<open>delay_ms\<close> allows at 72 MHz are those whose load fits
  the 24 bits of the counter.\<close>

lemma delay_ms_load:
  fixes n :: u16
  shows "unat n \<le> 1864 \<longleftrightarrow> unat n * 9000 < 2 ^ 24"
    and "unat (ucast n * ucast (9000 :: u16) :: u32) = unat n * 9000"
proof -
  show "unat n \<le> 1864 \<longleftrightarrow> unat n * 9000 < 2 ^ 24" by auto
  have "unat n < 65536" using unat_lt_max [of n] by simp
  then have "unat n * 9000 < 2 ^ 32" by simp
  then show "unat (ucast n * ucast (9000 :: u16) :: u32) = unat n * 9000"
    by (simp add: unat_word_ariths unat_ucast_up)
qed

text \<open>
  At 72 MHz \<open>delay_init\<close> makes 9000 counts a millisecond, and \<open>delay_ms\<close> of 1 to 1864 ms
  returns after exactly that many counts and one (the reload), with SysTick stopped and its load
  inside 24 bits; \<open>delay_ms(0)\<close> never returns, since a counter with load 0 never counts from 1 to 0.
\<close>

theorem delay_ms_exact:
  assumes hw: "systick_hardware tick" and core: "SystemCoreClock s = 72000000"
    and clear: "\<not> bit (SysTick_CTRL (SysTick s)) 16" and n: "unat n \<le> 1864"
  shows "delay_ms tick n (delay_init s) =
    (if n = 0 then None
     else Some (systick_stopped ((tick ^^ Suc (unat n * 9000))
       (systick_armed (ucast n * 9000) (delay_init s))))) \<and> unat (ucast n * 9000 :: u32) < 2 ^ 24"
proof -
  have fac: "fac_ms (delay_init s) = 9000"
    using core by (simp add: delay_init_def Let_def SysTick_CLKSourceConfig_def upd_SysTick_def)
  have clear': "\<not> bit (SysTick_CTRL (SysTick (delay_init s))) 16"
    using clear by (simp add: delay_init_def Let_def SysTick_CLKSourceConfig_def bit_simps)
  have load: "unat (ucast n * 9000 :: u32) = unat n * 9000"
    using delay_ms_load(2) [of n] by simp
  have "0 < (ucast n * 9000 :: u32)" if "n \<noteq> 0"
    using that load by (auto simp: word_gt_0 word_unat_eq_iff)
  then show ?thesis
    using n load systick_delay_exact [OF hw _ clear', of "ucast n * 9000"] systick_delay_zero [OF hw clear']
    by (simp add: delay_ms_def fac)
qed

text \<open>A counter that does just this: a concrete instance.\<close>

definition systick_counter :: "'a mcu_scheme \<Rightarrow> 'a mcu_scheme" where
  "systick_counter m = upd_SysTick (\<lambda>t. t\<lparr>
     SysTick_VAL := (if SysTick_VAL t = 0 then SysTick_LOAD t else SysTick_VAL t - 1),
     SysTick_CTRL := (SysTick_CTRL t AND NOT 0x10000) OR (if SysTick_VAL t = 1 then 0x10000 else 0)\<rparr>) m"

lemma systick_counter_hardware: "systick_hardware systick_counter"
  by (simp add: systick_hardware_def systick_counter_def bit_simps)

lemma delay_ms_exact_witness:
  "\<exists>t. delay_ms systick_counter 10 (delay_init (reset_firmware [0] [0])) = Some t"
proof -
  have "SystemCoreClock (reset_firmware [0] [0]) = 72000000"
    "\<not> bit (SysTick_CTRL (SysTick (reset_firmware [0] [0]))) 16"
    by (simp_all add: reset_mcu_def)
  from delay_ms_exact [OF systick_counter_hardware this, of 10] show ?thesis by simp
qed

end
