(* ===== verification/Led_Key.thy ===== *)
theory Led_Key
  imports Gpio Delay
begin

text \<open>
  The LED and the two buttons of the board, \<open>HARDWARE/LED/led.c\<close> and \<open>HARDWARE/KEY/key.c\<close>.
  \<open>KEY_Init\<close> does not set \<open>GPIO_Speed\<close>: the stack contents are its first argument.
\<close>

section \<open>Operations\<close>

definition LED_Init :: "'a mcu_scheme \<Rightarrow> 'a mcu_scheme" where
  "LED_Init m =
     (let m = RCC_APB2PeriphClockCmd (RCC_APB2Periph_GPIOB OR RCC_APB2Periph_GPIOC) ENABLE m;
          ini = \<lparr>GPIO_Pin = GPIO_Pin_13, GPIO_Speed = GPIO_Speed_50MHz, GPIO_Mode = GPIO_Mode_Out_PP\<rparr>;
          m = GPIO_Init GPIOC ini m
      in GPIO_SetBits GPIOC GPIO_Pin_13 m)"

definition KEY_Init :: "GPIO_InitTypeDef \<Rightarrow> 'a mcu_scheme \<Rightarrow> 'a mcu_scheme" where
  "KEY_Init stack m =
     (let m = RCC_APB2PeriphClockCmd (RCC_APB2Periph_GPIOA OR RCC_APB2Periph_GPIOE) ENABLE m;
          ini = stack\<lparr>GPIO_Pin := GPIO_Pin_4\<rparr>;
          ini = ini\<lparr>GPIO_Mode := GPIO_Mode_IPD\<rparr>;
          m = GPIO_Init GPIOE ini m;
          ini = ini\<lparr>GPIO_Pin := GPIO_Pin_0\<rparr>;
          ini = ini\<lparr>GPIO_Mode := GPIO_Mode_IPD\<rparr>
      in GPIO_Init GPIOA ini m)"

definition KEY0 :: "'a mcu_scheme \<Rightarrow> u8" where
  "KEY0 = GPIO_ReadInputDataBit GPIOE GPIO_Pin_4"

definition WK_UP :: "'a mcu_scheme \<Rightarrow> u8" where
  "WK_UP = GPIO_ReadInputDataBit GPIOA GPIO_Pin_0"

text \<open>The result is the key and the state afterwards; the pins may change during the delay.\<close>

definition KEY_Scan :: "(firmware \<Rightarrow> firmware) \<Rightarrow> u8 \<Rightarrow> firmware \<Rightarrow> (u8 \<times> firmware) option" where
  "KEY_Scan tick mode s =
     (let s = (if mode \<noteq> 0 then s\<lparr>key_up := 1\<rparr> else s)
      in if key_up s \<noteq> 0 \<and> (KEY0 s = 1 \<or> WK_UP s = 1) then do {
           s \<leftarrow> delay_ms tick 10 s;
           let s = s\<lparr>key_up := 0\<rparr>;
           Some (if KEY0 s = 1 then (KEY0_PRES, s)
                 else if WK_UP s = 1 then (WKUP_PRES, s)
                 else (0, s))
         }
         else if KEY0 s = 0 \<and> WK_UP s = 0 then Some (0, s\<lparr>key_up := 1\<rparr>)
         else Some (0, s))"

section \<open>Properties of the operations\<close>

text \<open>What the stack held in the speed does not matter, since the pins are inputs.\<close>

lemma KEY_Init_stack: "KEY_Init stack m = KEY_Init stack' m"
proof -
  have "stack = stack'\<lparr>GPIO_Pin := GPIO_Pin stack, GPIO_Speed := GPIO_Speed stack, GPIO_Mode := GPIO_Mode stack\<rparr>"
    by simp
  then obtain a b c where st: "stack = stack'\<lparr>GPIO_Pin := a, GPIO_Speed := b, GPIO_Mode := c\<rparr>" by blast
  have sp: "GPIO_Init p \<lparr>GPIO_Pin = x, GPIO_Speed = b, GPIO_Mode = GPIO_Mode_IPD\<rparr> m =
      GPIO_Init p \<lparr>GPIO_Pin = x, GPIO_Speed = d, GPIO_Mode = GPIO_Mode_IPD\<rparr> m" for p x d m
    using GPIO_Init_input_speed [of "\<lparr>GPIO_Pin = x, GPIO_Speed = d, GPIO_Mode = GPIO_Mode_IPD\<rparr>" p b m] by simp
  show ?thesis
    unfolding st KEY_Init_def Let_def
    by (cases stack') (simp add: sp [of _ _ _ "GPIO_Speed stack'"])
qed

text \<open>
  The buttons: whatever the stack held in the speed that \<open>KEY_Init\<close> leaves uninitialised, PE4
  and PA0 become inputs with pull-down, the pull-down is requested by one store each, no other
  pin of any port changes, and the clocks of the two ports are on.
\<close>

theorem KEY_Init_pins:
  "KEY_Init stack m = KEY_Init stack' m \<and>
   (\<forall>p n. n < 16 \<longrightarrow> pin_config n (GPIO (KEY_Init stack m) p) =
      (if p = GPIOE \<and> n = 4 \<or> p = GPIOA \<and> n = 0 then 0x8 else pin_config n (GPIO m p))) \<and>
   (\<forall>p. GPIO_accesses (GPIO (KEY_Init stack m) p) = GPIO_accesses (GPIO m p) @
      (if p = GPIOE then [BRR_store 0x10] else if p = GPIOA then [BRR_store 0x1] else [])) \<and>
   RCC_APB2ENR (RCC (KEY_Init stack m)) = RCC_APB2ENR (RCC m) OR 0x44"
proof -
  define st where "st = \<lparr>GPIO_Pin = 0, GPIO_Speed = GPIO_Speed_50MHz, GPIO_Mode = GPIO_Mode_IPD\<rparr>"
  define c where "c = RCC_APB2PeriphClockCmd (RCC_APB2Periph_GPIOA OR RCC_APB2Periph_GPIOE) ENABLE m"
  have c: "GPIO c = GPIO m" "RCC_APB2ENR (RCC c) = RCC_APB2ENR (RCC m) OR 0x44"
    by (simp_all add: c_def RCC_APB2PeriphClockCmd_def)
  let ?e = "\<lparr>GPIO_Pin = GPIO_Pin_4, GPIO_Speed = GPIO_Speed_50MHz, GPIO_Mode = GPIO_Mode_IPD\<rparr>"
  let ?a = "\<lparr>GPIO_Pin = GPIO_Pin_0, GPIO_Speed = GPIO_Speed_50MHz, GPIO_Mode = GPIO_Mode_IPD\<rparr>"
  have run: "KEY_Init stack m = GPIO_Init GPIOA ?a (GPIO_Init GPIOE ?e c)"
    unfolding KEY_Init_stack [of stack m st] by (simp add: KEY_Init_def Let_def st_def c_def)
  have fits: "init_nibble ?e AND NOT 0xF = 0" "init_nibble ?a AND NOT 0xF = 0"
    and val: "init_nibble ?e = 0x8" "init_nibble ?a = 0x8" by (simp_all add: init_nibble_def)
  have one: "bit (GPIO_Pin_4 :: u16) = (\<lambda>n. n = 4)" "bit (GPIO_Pin_0 :: u16) = (\<lambda>n. n = 0)"
    using bit_one_pin [of 4] bit_one_pin [of 0] by simp_all
  have sel: "concat (List.map (pull_store GPIO_Mode_IPD) (filter (\<lambda>n. n = 4) [0..<16])) = [BRR_store 0x10]"
    "concat (List.map (pull_store GPIO_Mode_IPD) (filter (\<lambda>n. n = 0) [0..<16])) = [BRR_store 0x1]"
    by (simp_all add: upt_conv_Cons pull_store_def)
  from GPIO_Init_effect [OF fits(1), of GPIOE c, unfolded val GPIO_InitTypeDef.select_convs one sel c]
  obtain e where e: "GPIO_Init GPIOE ?e c = upd_GPIO GPIOE (\<lambda>_. e) c"
    "\<forall>n < 16. pin_config n e = (if n = 4 then 0x8 else pin_config n (GPIO m GPIOE))"
    "GPIO_accesses e = GPIO_accesses (GPIO m GPIOE) @ [BRR_store 0x10]"
    by (elim exE conjE) (rule that, assumption+)
  have a0: "GPIO (upd_GPIO GPIOE (\<lambda>_. e) c) GPIOA = GPIO m GPIOA" by (simp add: c)
  from GPIO_Init_effect [OF fits(2), of GPIOA "upd_GPIO GPIOE (\<lambda>_. e) c",
      unfolded val GPIO_InitTypeDef.select_convs one sel a0]
  obtain a where
    a: "GPIO_Init GPIOA ?a (upd_GPIO GPIOE (\<lambda>_. e) c) = upd_GPIO GPIOA (\<lambda>_. a) (upd_GPIO GPIOE (\<lambda>_. e) c)"
    "\<forall>n < 16. pin_config n a = (if n = 0 then 0x8 else pin_config n (GPIO m GPIOA))"
    "GPIO_accesses a = GPIO_accesses (GPIO m GPIOA) @ [BRR_store 0x1]"
    by (elim exE conjE) (rule that, assumption+)
  have t: "KEY_Init stack m = upd_GPIO GPIOA (\<lambda>_. a) (upd_GPIO GPIOE (\<lambda>_. e) c)"
    unfolding run e(1) a(1) ..
  have g: "GPIO (KEY_Init stack m) p = (if p = GPIOA then a else if p = GPIOE then e else GPIO m p)" for p
    unfolding t by (simp add: c(1))
  have "pin_config n (GPIO (KEY_Init stack m) p) =
      (if p = GPIOE \<and> n = 4 \<or> p = GPIOA \<and> n = 0 then 0x8 else pin_config n (GPIO m p))" if "n < 16" for p n
    using that e(2) a(2) unfolding g by (cases "p = GPIOA"; cases "p = GPIOE") auto
  moreover have "GPIO_accesses (GPIO (KEY_Init stack m) p) = GPIO_accesses (GPIO m p) @
      (if p = GPIOE then [BRR_store 0x10] else if p = GPIOA then [BRR_store 0x1] else [])" for p
    unfolding g by (simp add: e(3) a(3))
  moreover have "RCC_APB2ENR (RCC (KEY_Init stack m)) = RCC_APB2ENR (RCC m) OR 0x44"
    unfolding t by (simp add: c(2))
  ultimately show ?thesis using KEY_Init_stack [of stack m stack'] by blast
qed

lemma KEY_Init_pins_witness:
  "pin_config 4 (GPIO (KEY_Init \<lparr>GPIO_Pin = 7, GPIO_Speed = 99, GPIO_Mode = GPIO_Mode_AIN\<rparr> reset_mcu) GPIOE) = 0x8"
  using KEY_Init_pins [of _ reset_mcu, THEN conjunct2, THEN conjunct1, rule_format, of 4 _ GPIOE] by simp

section \<open>Scanning the buttons\<close>

text \<open>
  A history of scans in single-press mode: before each scan the hardware (\<open>env\<close>) changes the state,
  the pins above all. Each entry of the result says whether the scan started with both buttons
  released, and what it returned.
\<close>

fun key_scans ::
  "(firmware \<Rightarrow> firmware) \<Rightarrow> (firmware \<Rightarrow> firmware) list \<Rightarrow> firmware \<Rightarrow> ((bool \<times> u8) list \<times> firmware) option" where
  "key_scans tick [] s = Some ([], s)"
| "key_scans tick (env # envs) s = do {
     let s = env s;
     (r, t) \<leftarrow> KEY_Scan tick 0 s;
     (rs, u) \<leftarrow> key_scans tick envs t;
     Some ((KEY0 s = 0 \<and> WK_UP s = 0, r) # rs, u)
   }"

text \<open>Hardware does not write the C object \<open>key_up\<close>.\<close>

definition keeps_key_up :: "(firmware \<Rightarrow> firmware) \<Rightarrow> bool" where
  "keeps_key_up f \<longleftrightarrow> (\<forall>s. key_up (f s) = key_up s)"

lemma key_levels: "KEY0 s = 0 \<or> KEY0 s = 1" "WK_UP s = 0 \<or> WK_UP s = 1"
  by (simp_all add: KEY0_def WK_UP_def GPIO_ReadInputDataBit_def)

lemma KEY_Scan_armed:
  assumes "KEY_Scan tick 0 s = Some (r, t)"
  shows "key_up s = 0 \<Longrightarrow> r \<noteq> 0 \<Longrightarrow> False"
    and "key_up s = 0 \<Longrightarrow> \<not> (KEY0 s = 0 \<and> WK_UP s = 0) \<Longrightarrow> key_up t = 0"
    and "r \<noteq> 0 \<Longrightarrow> key_up t = 0"
proof -
  show "key_up s = 0 \<Longrightarrow> r \<noteq> 0 \<Longrightarrow> False"
    using assms by (auto simp: KEY_Scan_def split: if_splits)
  show "key_up s = 0 \<Longrightarrow> \<not> (KEY0 s = 0 \<and> WK_UP s = 0) \<Longrightarrow> key_up t = 0"
    using assms by (auto simp: KEY_Scan_def split: if_splits)
  show "r \<noteq> 0 \<Longrightarrow> key_up t = 0"
    using assms by (auto simp: KEY_Scan_def Let_def bind_eq_Some_conv split: if_splits)
qed

lemma key_scans_Cons:
  assumes "key_scans tick (env # envs) s = Some (rs, u)"
  obtains r t rs' where "KEY_Scan tick 0 (env s) = Some (r, t)" "key_scans tick envs t = Some (rs', u)"
    "rs = (KEY0 (env s) = 0 \<and> WK_UP (env s) = 0, r) # rs'"
  using assms by (auto simp: Let_def bind_eq_Some_conv)

text \<open>While the scanner is not armed, the first key is reported after a scan of released buttons.\<close>

lemma key_scans_rearm:
  assumes "key_scans tick envs s = Some (rs, u)" and "key_up s = 0" and "\<forall>e \<in> set envs. keeps_key_up e"
    and "j < length rs" and "snd (rs ! j) \<noteq> 0"
  shows "\<exists>k < j. fst (rs ! k)"
  using assms
proof (induction envs arbitrary: s rs j)
  case Nil
  then show ?case by simp
next
  case (Cons e envs)
  from Cons.prems(1) obtain r t rs' where step: "KEY_Scan tick 0 (e s) = Some (r, t)"
    and rest: "key_scans tick envs t = Some (rs', u)"
    and rs: "rs = (KEY0 (e s) = 0 \<and> WK_UP (e s) = 0, r) # rs'" by (rule key_scans_Cons)
  have up: "key_up (e s) = 0" using Cons.prems(2,3) by (simp add: keeps_key_up_def)
  have j: "j \<noteq> 0" using KEY_Scan_armed(1) [OF step up] Cons.prems(5) rs by (cases j) auto
  then obtain i where i: "j = Suc i" by (cases j) auto
  show ?case
  proof (cases "KEY0 (e s) = 0 \<and> WK_UP (e s) = 0")
    case True
    then show ?thesis using j by (auto simp: rs intro!: exI [of _ 0])
  next
    case False
    from KEY_Scan_armed(2) [OF step up False] have "key_up t = 0" .
    from Cons.IH [OF rest this, of i] Cons.prems(3-5) obtain k where "k < i" "fst (rs' ! k)"
      by (auto simp: rs i)
    then show ?thesis by (auto simp: rs i intro!: exI [of _ "Suc k"])
  qed
qed

text \<open>
  One press, one report: in any history of single-press scans, between two scans that report a
  key there is one that saw both buttons released, however long a button is held and however its
  contacts bounce during the 10 ms delay.
\<close>

theorem one_report_per_press:
  assumes "key_scans tick envs s = Some (rs, u)" and "\<forall>e \<in> set envs. keeps_key_up e"
    and "i < j" and "j < length rs" and "snd (rs ! i) \<noteq> 0" and "snd (rs ! j) \<noteq> 0"
  shows "\<exists>k. i < k \<and> k < j \<and> fst (rs ! k)"
  using assms
proof (induction envs arbitrary: s rs i j)
  case Nil
  then show ?case by simp
next
  case (Cons e envs)
  from Cons.prems(1) obtain r t rs' where step: "KEY_Scan tick 0 (e s) = Some (r, t)"
    and rest: "key_scans tick envs t = Some (rs', u)"
    and rs: "rs = (KEY0 (e s) = 0 \<and> WK_UP (e s) = 0, r) # rs'" by (rule key_scans_Cons)
  obtain j' where j: "j = Suc j'" using Cons.prems(3) by (cases j) auto
  show ?case
  proof (cases i)
    case 0
    with Cons.prems(5) rs have "key_up t = 0" using KEY_Scan_armed(3) [OF step] by simp
    from key_scans_rearm [OF rest this, of j'] Cons.prems(2,4,6) obtain k where "k < j'" "fst (rs' ! k)"
      by (auto simp: rs j)
    then show ?thesis using 0 by (auto simp: rs j intro!: exI [of _ "Suc k"])
  next
    case (Suc i')
    from Cons.IH [OF rest, of i' j'] Cons.prems(2-6) obtain k where "i' < k" "k < j'" "fst (rs' ! k)"
      by (auto simp: rs j Suc)
    then show ?thesis using Suc by (auto simp: rs j intro!: exI [of _ "Suc k"])
  qed
qed

text \<open>Press, release, press.\<close>

definition press :: "u32 \<Rightarrow> firmware \<Rightarrow> firmware" where
  "press pins s = upd_SysTick (\<lambda>t. t\<lparr>SysTick_CTRL := 0x10000\<rparr>) (upd_GPIO GPIOE (\<lambda>g. g\<lparr>GPIO_IDR := pins\<rparr>) s)"

lemma keeps_press: "keeps_key_up (press v)"
  by (simp add: keeps_key_up_def press_def upd_SysTick_def upd_GPIO_def)

lemma key_up_upd [simp]:
  "key_up (upd_SysTick f s) = key_up s" "key_up (upd_GPIO p h s) = key_up s"
  "fac_ms (upd_SysTick f s) = fac_ms s" "fac_ms (upd_GPIO p h s) = fac_ms s"
  by (simp_all add: upd_SysTick_def upd_GPIO_def)

lemma delay_expired:
  "bit (SysTick_CTRL (SysTick s)) 16 \<Longrightarrow>
   delay_ms tick n s = Some (systick_stopped (systick_armed (ucast n * ucast (fac_ms s)) s))"
  by (simp add: delay_ms_def systick_delay_eq wait_while_idle systick_counting_bits systick_armed_def bit_or_iff)

lemma systick_key_sel [simp]:
  "GPIO (systick_armed l s) = GPIO s" "GPIO (systick_stopped s) = GPIO s"
  "key_up (systick_armed l s) = key_up s" "key_up (systick_stopped s) = key_up s"
  by (simp_all add: systick_armed_def systick_stopped_def)

lemma scan_pressed:
  "key_up s = 1 \<Longrightarrow> GPIO_IDR (GPIO s GPIOA) = 0 \<Longrightarrow>
   \<exists>t. KEY_Scan tick 0 (press 0x10 s) = Some (1, t) \<and> key_up t = 0 \<and> GPIO_IDR (GPIO t GPIOA) = 0"
  by (simp add: KEY_Scan_def press_def KEY0_def WK_UP_def GPIO_ReadInputDataBit_def delay_expired bit_simps)

lemma scan_released:
  "GPIO_IDR (GPIO s GPIOA) = 0 \<Longrightarrow>
   \<exists>t. KEY_Scan tick 0 (press 0 s) = Some (0, t) \<and> key_up t = 1 \<and> GPIO_IDR (GPIO t GPIOA) = 0"
  by (simp add: KEY_Scan_def press_def KEY0_def WK_UP_def GPIO_ReadInputDataBit_def)

lemma one_report_per_press_witness:
  "\<exists>rs u. key_scans id [press 0x10, press 0, press 0x10] (reset_firmware [0] [0]) = Some (rs, u) \<and> fst (rs ! 1)"
proof -
  let ?s = "reset_firmware [0] [0]" and ?es = "[press 0x10, press 0, press 0x10]"
  have "key_up ?s = 1" "GPIO_IDR (GPIO ?s GPIOA) = 0" by (simp_all add: reset_GPIO_def)
  then obtain a where a: "KEY_Scan id 0 (press 0x10 ?s) = Some (1, a)" "GPIO_IDR (GPIO a GPIOA) = 0"
    using scan_pressed by blast
  from scan_released [OF a(2)] obtain b where
    b: "KEY_Scan id 0 (press 0 a) = Some (0, b)" "key_up b = 1" "GPIO_IDR (GPIO b GPIOA) = 0" by blast
  from scan_pressed [OF b(2,3)] obtain c where c: "KEY_Scan id 0 (press 0x10 b) = Some (1, c)" by blast
  let ?rel = "\<lambda>s. KEY0 s = 0 \<and> WK_UP s = 0"
  let ?rs = "[(?rel (press 0x10 ?s), 1 :: u8), (?rel (press 0 a), 0), (?rel (press 0x10 b), 1)]"
  have run: "key_scans id ?es ?s = Some (?rs, c)" using a(1) b(1) c by (simp add: Let_def)
  have "\<exists>k. 0 < k \<and> k < 2 \<and> fst (?rs ! k)"
    by (rule one_report_per_press [OF run]) (simp_all add: keeps_press)
  then have "fst (?rs ! 1)" by (auto simp: less_Suc_eq numeral_2_eq_2)
  with run show ?thesis by blast
qed

section \<open>The LED\<close>

lemma LED_Init_effect:
  "\<exists>c. LED_Init m = upd_GPIO GPIOC (\<lambda>_. c) (upd_RCC (\<lambda>r. r\<lparr>RCC_APB2ENR := RCC_APB2ENR r OR 0x18\<rparr>) m) \<and>
    (\<forall>n < 16. pin_config n c = (if n = 13 then 0x3 else pin_config n (GPIO m GPIOC))) \<and>
    GPIO_accesses c = GPIO_accesses (GPIO m GPIOC) @ [BSRR_store 0x2000] \<and>
    GPIO_ODR c = GPIO_ODR (GPIO m GPIOC) \<and> GPIO_IDR c = GPIO_IDR (GPIO m GPIOC)"
proof -
  let ?c = "upd_RCC (\<lambda>r. r\<lparr>RCC_APB2ENR := RCC_APB2ENR r OR 0x18\<rparr>) m"
  let ?ini = "\<lparr>GPIO_Pin = GPIO_Pin_13, GPIO_Speed = GPIO_Speed_50MHz, GPIO_Mode = GPIO_Mode_Out_PP\<rparr>"
  have fits: "init_nibble ?ini AND NOT 0xF = 0" and val: "init_nibble ?ini = 0x3" by (simp_all add: init_nibble_def)
  have pull: "concat (List.map (pull_store GPIO_Mode_Out_PP) xs) = []" for xs by (simp add: pull_store_def)
  have one: "bit (GPIO_Pin_13 :: u16) = (\<lambda>n. n = 13)" using bit_one_pin [of 13] by simp
  have c0: "GPIO ?c = GPIO m" by simp
  from GPIO_Init_effect [OF fits, of GPIOC ?c, unfolded val GPIO_InitTypeDef.select_convs one pull append_Nil2 c0]
  obtain g where g: "GPIO_Init GPIOC ?ini ?c = upd_GPIO GPIOC (\<lambda>_. g) ?c"
    "\<forall>n < 16. pin_config n g = (if n = 13 then 0x3 else pin_config n (GPIO m GPIOC))"
    "GPIO_accesses g = GPIO_accesses (GPIO m GPIOC)" "GPIO_ODR g = GPIO_ODR (GPIO m GPIOC)"
    "GPIO_IDR g = GPIO_IDR (GPIO m GPIOC)" by (elim exE conjE) (rule that, assumption+)
  have clk: "RCC_APB2PeriphClockCmd (RCC_APB2Periph_GPIOB OR RCC_APB2Periph_GPIOC) ENABLE m = ?c"
    by (simp add: RCC_APB2PeriphClockCmd_def)
  have "LED_Init m = upd_GPIO GPIOC (\<lambda>_. gpio_log (BSRR_store 0x2000) g) ?c"
    unfolding LED_Init_def Let_def clk g(1) by (simp add: GPIO_SetBits_def upd_GPIO_def)
  moreover have "pin_config n (gpio_log x g) = pin_config n g" "GPIO_accesses (gpio_log x g) = GPIO_accesses g @ [x]"
    "GPIO_ODR (gpio_log x g) = GPIO_ODR g" "GPIO_IDR (gpio_log x g) = GPIO_IDR g" for n x
    by (simp_all add: gpio_log_def pin_config_def)
  ultimately show ?thesis
    using g(2-5) by (intro exI [of _ "gpio_log (BSRR_store 0x2000) g"]) simp
qed

end
