(* ===== verification/Uart.thy ===== *)
theory Uart
  imports Globals Cstring Gpio Usart_Driver Misc
begin

text \<open>
  The console of the firmware, \<open>SYSTEM/usart/usart.c\<close>: initialisation of USART1, the output
  routine under \<open>printf\<close> in its two versions (\<open>_write\<close> for newlib, \<open>fputc\<close> for Keil) and the
  receive interrupt that collects a line. \<open>tick\<close> is what the port does between two reads of its
  status register; output that never becomes ready is \<open>None\<close>, and so is an access outside
  \<open>USART_RX_BUF\<close>.
\<close>

section \<open>Operations\<close>

definition uart_init :: "u32 \<Rightarrow> 'a mcu_scheme \<Rightarrow> 'a mcu_scheme option" where
  "uart_init bound m =
     (let m = RCC_APB2PeriphClockCmd (RCC_APB2Periph_USART1 OR RCC_APB2Periph_GPIOA) ENABLE m;
          gpio = \<lparr>GPIO_Pin = GPIO_Pin_9, GPIO_Speed = GPIO_Speed_50MHz, GPIO_Mode = GPIO_Mode_AF_PP\<rparr>;
          m = GPIO_Init GPIOA gpio m;
          gpio = gpio\<lparr>GPIO_Pin := GPIO_Pin_10\<rparr>;
          gpio = gpio\<lparr>GPIO_Mode := GPIO_Mode_IN_FLOATING\<rparr>;
          m = GPIO_Init GPIOA gpio m;
          nvic = \<lparr>NVIC_IRQChannel = USART1_IRQn, NVIC_IRQChannelPreemptionPriority = 3,
                  NVIC_IRQChannelSubPriority = 3, NVIC_IRQChannelCmd = ENABLE\<rparr>
      in do {
        m \<leftarrow> NVIC_Init nvic m;
        let usart = \<lparr>USART_BaudRate = bound, USART_WordLength = USART_WordLength_8b,
                     USART_StopBits = USART_StopBits_1, USART_Parity = USART_Parity_No,
                     USART_Mode = USART_Mode_Rx OR USART_Mode_Tx,
                     USART_HardwareFlowControl = USART_HardwareFlowControl_None\<rparr>;
        m \<leftarrow> USART_Init USART1 usart m;
        let m = USART_ITConfig USART1 USART_IT_RXNE ENABLE m;
        Some (USART_Cmd USART1 ENABLE m)
      })"

text \<open>\<open>while ((USART1->SR & 0x40) == 0); USART1->DR = c;\<close>\<close>

definition uart_putc :: "('a mcu_scheme \<Rightarrow> 'a mcu_scheme) \<Rightarrow> u8 \<Rightarrow> 'a mcu_scheme \<Rightarrow> 'a mcu_scheme option" where
  "uart_putc tick c m = do {
     m \<leftarrow> wait_while tick (\<lambda>m. USART_SR (USART m USART1) AND 0x40 = 0) m;
     Some (upd_USART USART1 (\<lambda>u. u\<lparr>USART_DR_stores := USART_DR_stores u @ [ucast c]\<rparr>) m)
   }"

fun write_loop :: "('a mcu_scheme \<Rightarrow> 'a mcu_scheme) \<Rightarrow> u8 list \<Rightarrow> 'a mcu_scheme \<Rightarrow> 'a mcu_scheme option" where
  "write_loop tick [] m = Some m"
| "write_loop tick (c # cs) m = do { m \<leftarrow> uart_putc tick c m; write_loop tick cs m }"

text \<open>\<open>_write(fd, ptr, len)\<close>: \<open>len\<close> bytes from \<open>ptr\<close>.\<close>

definition write_stdout ::
  "('a mcu_scheme \<Rightarrow> 'a mcu_scheme) \<Rightarrow> int \<Rightarrow> u8 list \<Rightarrow> int \<Rightarrow> 'a mcu_scheme \<Rightarrow> (int \<times> 'a mcu_scheme) option" where
  "write_stdout tick fd ptr len m =
     (if nat len \<le> length ptr then do {
        m \<leftarrow> write_loop tick (take (nat len) ptr) m;
        Some (len, m)
      } else None)"

definition fputc :: "('a mcu_scheme \<Rightarrow> 'a mcu_scheme) \<Rightarrow> int \<Rightarrow> 'a mcu_scheme \<Rightarrow> (int \<times> 'a mcu_scheme) option" where
  "fputc tick ch m = do { m \<leftarrow> uart_putc tick (word_of_int ch) m; Some (ch, m) }"

definition rx_buf_store :: "nat \<Rightarrow> u8 \<Rightarrow> firmware \<Rightarrow> firmware option" where
  "rx_buf_store k v s =
     (if k < length (USART_RX_BUF s) then Some (s\<lparr>USART_RX_BUF := (USART_RX_BUF s)[k := v]\<rparr>) else None)"

definition USART1_IRQHandler :: "firmware \<Rightarrow> firmware option" where
  "USART1_IRQHandler s = do {
     it \<leftarrow> USART_GetITStatus USART1 USART_IT_RXNE s;
     if it \<noteq> RESET then
       (let Res = ucast (USART_ReceiveData USART1 s) :: u8 in
        if USART_RX_STA s AND 0x8000 = 0 then
          if USART_RX_STA s AND 0x4000 \<noteq> 0 then
            if Res \<noteq> 0x0A then Some (s\<lparr>USART_RX_STA := 0\<rparr>)
            else Some (s\<lparr>USART_RX_STA := USART_RX_STA s OR 0x8000\<rparr>)
          else if Res = 0x0D then Some (s\<lparr>USART_RX_STA := USART_RX_STA s OR 0x4000\<rparr>)
          else do {
            s \<leftarrow> rx_buf_store (unat (USART_RX_STA s AND 0x3FFF)) Res s;
            let s = s\<lparr>USART_RX_STA := USART_RX_STA s + 1\<rparr>;
            Some (if unat (USART_RX_STA s) > USART_REC_LEN - 1 then s\<lparr>USART_RX_STA := 0\<rparr> else s)
          }
        else Some s)
     else Some s
   }"

section \<open>Properties of the operations\<close>

section \<open>Output\<close>

text \<open>
  What the console output relies on: the port is ready again after finitely many reads, nothing is
  transmitted but by a store to \<open>DR\<close>, and the hardware does not write the C objects.
\<close>

definition console_port :: "('a mcu_scheme \<Rightarrow> 'a mcu_scheme) \<Rightarrow> bool" where
  "console_port tick \<longleftrightarrow>
     (\<forall>m. \<exists>n. USART_SR (USART ((tick ^^ n) m) USART1) AND 0x40 \<noteq> 0) \<and>
     (\<forall>m. USART_DR_stores (USART (tick m) USART1) = USART_DR_stores (USART m USART1)) \<and>
     (\<forall>m. mcu.more (tick m) = mcu.more m)"

definition console_log :: "'a mcu_scheme \<Rightarrow> u16 list" where
  "console_log m = USART_DR_stores (USART m USART1)"

lemma console_ticks:
  assumes "console_port tick"
  shows "console_log ((tick ^^ n) m) = console_log m" "mcu.more ((tick ^^ n) m) = mcu.more m"
  using assms by (induction n) (simp_all add: console_port_def console_log_def)

lemma uart_putc_prints:
  assumes "console_port tick"
  shows "\<exists>m'. uart_putc tick c m = Some m' \<and> console_log m' = console_log m @ [ucast c] \<and>
    mcu.more m' = mcu.more m"
proof -
  obtain n where "\<not> USART_SR (USART ((tick ^^ n) m) USART1) AND 0x40 = 0"
    using assms unfolding console_port_def by blast
  from wait_while_returns [of "\<lambda>m. USART_SR (USART m USART1) AND 0x40 = 0", OF this] obtain k where
    "wait_while tick (\<lambda>m. USART_SR (USART m USART1) AND 0x40 = 0) m = Some ((tick ^^ k) m)" by blast
  then show ?thesis
    using console_ticks [OF assms, of k m] by (simp add: uart_putc_def console_log_def)
qed

lemma write_loop_prints:
  assumes "console_port tick"
  shows "\<exists>m'. write_loop tick cs m = Some m' \<and> console_log m' = console_log m @ List.map ucast cs \<and>
    mcu.more m' = mcu.more m"
proof (induction cs arbitrary: m)
  case Nil
  then show ?case by simp
next
  case (Cons c cs)
  from uart_putc_prints [OF assms] obtain a where
    "uart_putc tick c m = Some a" "console_log a = console_log m @ [ucast c]" "mcu.more a = mcu.more m" by blast
  with Cons.IH [of a] show ?case by auto
qed

text \<open>
  \<open>_write\<close> on a working port returns, for any length that the buffer has: it transmits
  exactly the first \<open>len\<close> bytes in their order, reports \<open>len\<close>, and changes no C object.
\<close>

theorem write_transmits:
  assumes "console_port tick" and "len \<le> int (length ptr)"
  shows "\<exists>m'. write_stdout tick fd ptr len m = Some (len, m') \<and>
    console_log m' = console_log m @ List.map ucast (take (nat len) ptr) \<and> mcu.more m' = mcu.more m"
  using write_loop_prints [OF assms(1), of "take (nat len) ptr" m] assms(2)
  by (auto simp: write_stdout_def)

text \<open>A port that is always ready: a concrete instance.\<close>

definition ready_port :: "'a mcu_scheme \<Rightarrow> 'a mcu_scheme" where
  "ready_port = upd_USART USART1 (\<lambda>u. u\<lparr>USART_SR := USART_SR u OR 0xC0\<rparr>)"

lemma ready_port_console: "console_port ready_port"
  unfolding console_port_def
proof (intro conjI allI)
  fix m :: "'a mcu_scheme"
  have "USART_SR (USART ((ready_port ^^ 1) m) USART1) AND 0x40 = 0x40"
    by (simp add: ready_port_def bits16 bit_simps)
  then show "\<exists>n. USART_SR (USART ((ready_port ^^ n) m) USART1) AND 0x40 \<noteq> 0"
    by (intro exI [of _ 1]) simp
qed (simp_all add: ready_port_def)

lemma write_transmits_witness:
  "\<exists>m'. write_stdout ready_port 1 (ascii ''OK'') 2 reset_mcu = Some (2, m') \<and> console_log m' = [79, 75]"
  using write_transmits [OF ready_port_console, of 2 "ascii ''OK''" 1 reset_mcu]
  by (auto simp: ascii_def console_log_def reset_USART_def of_char_def)

text \<open>
  The two versions of the output routine agree: \<open>_write\<close> of a buffer is \<open>fputc\<close> of its bytes
  one after the other, in every state, also where the port never becomes ready.
\<close>

theorem write_is_fputc:
  "map_option snd (write_stdout tick fd ptr (int (length ptr)) m) =
    fold (\<lambda>c r. r \<bind> (\<lambda>m. map_option snd (fputc tick (uint c) m))) ptr (Some m)"
proof -
  have p: "map_option snd (fputc tick (uint c) m) = uart_putc tick c m" for c m
    by (cases "uart_putc tick c m") (simp_all add: fputc_def)
  have none: "fold (\<lambda>c r. r \<bind> uart_putc tick c) cs None = None" for cs
    by (induction cs) simp_all
  have "write_loop tick cs m = fold (\<lambda>c r. r \<bind> uart_putc tick c) cs (Some m)" for cs m
  proof (induction cs arbitrary: m)
    case Nil
    then show ?case by simp
  next
    case (Cons c cs)
    then show ?case by (cases "uart_putc tick c m") (simp_all add: none)
  qed
  moreover have "map_option snd (write_stdout tick fd ptr (int (length ptr)) m) = write_loop tick ptr m"
    by (cases "write_loop tick ptr m") (simp_all add: write_stdout_def)
  ultimately show ?thesis by (simp add: p)
qed

section \<open>Reception\<close>

text \<open>
  What the receive interrupt implements: bytes are collected until CR LF; a CR that is not followed
  by LF drops the line, and so does the 200th byte; a complete line waits until the program takes it.
\<close>

datatype rx_line = Collecting "u8 list" | After_CR "u8 list" | Complete "u8 list"

fun rx_step :: "u8 \<Rightarrow> rx_line \<Rightarrow> rx_line" where
  "rx_step c (Complete l) = Complete l"
| "rx_step c (After_CR l) = (if c = 0x0A then Complete l else Collecting [])"
| "rx_step c (Collecting l) =
     (if c = 0x0D then After_CR l else if length l < 199 then Collecting (l @ [c]) else Collecting [])"

definition rx_abs :: "firmware \<Rightarrow> rx_line" where
  "rx_abs s =
     (let l = take (unat (USART_RX_STA s AND 0x3FFF)) (USART_RX_BUF s)
      in if bit (USART_RX_STA s) 15 then Complete l
         else if bit (USART_RX_STA s) 14 then After_CR l else Collecting l)"

definition rx_inv :: "firmware \<Rightarrow> bool" where
  "rx_inv s \<longleftrightarrow> length (USART_RX_BUF s) = 200 \<and> unat (USART_RX_STA s AND 0x3FFF) < 200"

definition rx_pending :: "u8 \<Rightarrow> firmware \<Rightarrow> bool" where
  "rx_pending c s \<longleftrightarrow> bit (USART_CR1 (USART s USART1)) 5 \<and> bit (USART_SR (USART s USART1)) 5 \<and>
     ucast (USART_ReceiveData USART1 s) = c"

lemma rx_flags:
  fixes v :: u16
  shows "(v AND 0x8000 = 0) \<longleftrightarrow> \<not> bit v 15" "(v AND 0x4000 \<noteq> 0) \<longleftrightarrow> bit v 14"
    "(v OR 0x8000) AND 0x3FFF = v AND 0x3FFF" "(v OR 0x4000) AND 0x3FFF = v AND 0x3FFF"
    "bit (v OR 0x8000) 15" "bit (v OR 0x4000) 14" "bit (v OR 0x4000) 15 \<longleftrightarrow> bit v 15"
    "bit (v OR 0x8000) 14 \<longleftrightarrow> bit v 14"
  by (simp_all add: bits16 bit_simps)

lemma rx_handler_pending:
  assumes "rx_pending c s"
  shows "USART1_IRQHandler s =
    (if bit (USART_RX_STA s) 15 then Some s
     else if bit (USART_RX_STA s) 14 then
       Some (s\<lparr>USART_RX_STA := if c = 0x0A then USART_RX_STA s OR 0x8000 else 0\<rparr>)
     else if c = 0x0D then Some (s\<lparr>USART_RX_STA := USART_RX_STA s OR 0x4000\<rparr>)
     else do {
       s \<leftarrow> rx_buf_store (unat (USART_RX_STA s AND 0x3FFF)) c s;
       let s = s\<lparr>USART_RX_STA := USART_RX_STA s + 1\<rparr>;
       Some (if unat (USART_RX_STA s) > 199 then s\<lparr>USART_RX_STA := 0\<rparr> else s)
     })"
proof -
  have "USART_GetITStatus USART1 USART_IT_RXNE s = Some SET"
    using assms it_status_source [of USART_IT_RXNE 1 5 5 USART1 s]
    by (simp add: usart_sources_def control_bit_def rx_pending_def)
  then show ?thesis
    using assms by (simp add: USART1_IRQHandler_def rx_pending_def Let_def rx_flags)
qed

lemma rx_inv_reset: "rx_inv s \<Longrightarrow> rx_inv (s\<lparr>USART_RX_STA := 0\<rparr>)"
  by (simp add: rx_inv_def)

lemma rx_sta_low:
  fixes v :: u16
  assumes "\<not> bit v 15" and "\<not> bit v 14"
  shows "v AND 0x3FFF = v"
  using assms by (simp add: bits16 bit_simps)

lemma rx_sta_next:
  fixes v :: u16
  assumes "unat v < 199"
  shows "unat (v + 1) = unat v + 1" "\<not> bit (v + 1) 15" "\<not> bit (v + 1) 14" "(v + 1) AND 0x3FFF = v + 1"
proof -
  show u: "unat (v + 1) = unat v + 1" using assms by (simp add: unat_word_ariths)
  then have "unat (v + 1) < 2 ^ 14" using assms by simp
  then have "take_bit 14 (unat (v + 1)) = unat (v + 1)" by (simp only: take_bit_nat_eq_self_iff)
  then have t: "take_bit 14 (v + 1) = v + 1" by (metis unsigned_take_bit_eq word_unat_eq_iff)
  then show "(v + 1) AND 0x3FFF = v + 1" by (simp add: take_bit_eq_mask mask_numeral)
  have "\<not> bit (take_bit 14 (v + 1)) 15" "\<not> bit (take_bit 14 (v + 1)) 14"
    by (simp_all add: bit_take_bit_iff)
  then show "\<not> bit (v + 1) 15" "\<not> bit (v + 1) 14" unfolding t by simp_all
qed

lemma rx_handler_refines:
  assumes "rx_inv s" and "rx_pending c s"
  shows "\<exists>t. USART1_IRQHandler s = Some t \<and> rx_inv t \<and> rx_abs t = rx_step c (rx_abs s) \<and>
    mcu.truncate t = mcu.truncate s"
proof -
  let ?v = "USART_RX_STA s" and ?b = "USART_RX_BUF s"
  consider (complete) "bit ?v 15" | (cr) "\<not> bit ?v 15" "bit ?v 14" | (col) "\<not> bit ?v 15" "\<not> bit ?v 14" by blast
  then show ?thesis
  proof cases
    case complete
    then show ?thesis
      using assms(1) by (simp add: rx_handler_pending [OF assms(2)] rx_abs_def Let_def)
  next
    case cr
    then show ?thesis
      using assms(1) by (simp add: rx_handler_pending [OF assms(2)] rx_abs_def rx_inv_def rx_flags Let_def mcu.truncate_def)
  next
    case col
    note low = rx_sta_low [OF col]
    have len: "length ?b = 200" and lt: "unat ?v < 200" using assms(1) low by (simp_all add: rx_inv_def)
    have run: "USART1_IRQHandler s =
        (if c = 0x0D then Some (s\<lparr>USART_RX_STA := ?v OR 0x4000\<rparr>)
         else Some (s\<lparr>USART_RX_BUF := ?b[unat ?v := c], USART_RX_STA := if unat (?v + 1) > 199 then 0 else ?v + 1\<rparr>))"
      using col len lt by (simp add: rx_handler_pending [OF assms(2)] rx_buf_store_def low Let_def)
    consider (ret) "c = 0x0D" | (room) "c \<noteq> 0x0D" "unat ?v < 199" | (full) "c \<noteq> 0x0D" "unat ?v = 199"
      using lt by linarith
    then show ?thesis
    proof cases
      case ret
      then show ?thesis
        using col len lt by (simp add: run rx_abs_def rx_inv_def rx_flags low Let_def mcu.truncate_def)
    next
      case room
      note nxt = rx_sta_next [OF room(2)]
      show ?thesis
        using room col len lt nxt
        by (simp add: run rx_abs_def rx_inv_def low Let_def mcu.truncate_def take_Suc_conv_app_nth)
    next
      case full
      then have "unat (?v + 1) = 200" by (simp add: unat_word_ariths)
      with full show ?thesis
        using col len by (simp add: run rx_abs_def rx_inv_def low Let_def mcu.truncate_def)
    qed
  qed
qed

text \<open>
  C34. The receive interrupt implements the line receiver: for every state within its bounds and every
  byte received, the handler returns (no access outside the 200-byte buffer), the bounds hold
  again, and the line it has collected is the one of the specification after that byte.
\<close>

theorem rx_refines:
  assumes "rx_inv s" and "rx_pending c s"
  shows "\<exists>t. USART1_IRQHandler s = Some t \<and> rx_inv t \<and> rx_abs t = rx_step c (rx_abs s) \<and>
    mcu.truncate t = mcu.truncate s"
  by (rule rx_handler_refines [OF assms])

text \<open>A byte waiting in the port.\<close>

definition byte_waiting :: "u8 \<Rightarrow> firmware \<Rightarrow> firmware" where
  "byte_waiting c = upd_USART USART1 (\<lambda>u. u\<lparr>USART_CR1 := 0x20, USART_SR := 0x20, USART_DR := ucast c\<rparr>)"

lemma rx_refines_witness:
  "\<exists>t. USART1_IRQHandler (byte_waiting 65 (reset_firmware [0] [0])) = Some t \<and> rx_abs t = Collecting [65]"
proof -
  let ?s = "byte_waiting 65 (reset_firmware [0] [0])"
  have g: "USART_RX_STA ?s = 0" "USART_RX_BUF ?s = replicate 200 0"
    by (simp_all add: byte_waiting_def upd_USART_def)
  have "rx_inv ?s" by (simp add: rx_inv_def g)
  moreover have "rx_pending 65 ?s"
    by (simp add: rx_pending_def byte_waiting_def USART_ReceiveData_def bit_simps)
  moreover have "rx_abs ?s = Collecting []" by (simp add: rx_abs_def g)
  ultimately show ?thesis using rx_refines [of ?s 65] by auto
qed

section \<open>Initialisation\<close>

lemma usart_9600: "usart_brr False 72000000 9600 = Some 7500"
  by (simp add: usart_brr_def Let_def)

lemma uart_words:
  fixes x :: u16
  shows "ucast ((ucast x AND (0xE9F3 :: u32)) OR 0xC) = (x AND 0xE9F3) OR 0xC"
    "ucast (ucast x AND (0xCFFF :: u32)) = x AND 0xCFFF"
    "ucast (ucast x AND (0xFCFF :: u32)) = x AND 0xFCFF"
  by (simp_all add: bits16 bit_simps)

lemma uart_init_9600:
  assumes clk: "PCLK2_Frequency (RCC_GetClocksFreq m) = 72000000"
    and over8: "\<not> bit (USART_CR1 (USART m USART1)) 15"
    and grp: "SCB_AIRCR (SCB m) AND 0x700 = 0x500" and len: "length (NVIC_IP (NVIC m)) = 240"
  shows "\<exists>a. uart_init 9600 (m :: 'a mcu_scheme) = Some
     (upd_USART USART1 (\<lambda>u. u\<lparr>USART_CR2 := USART_CR2 u AND 0xCFFF, USART_CR3 := USART_CR3 u AND 0xFCFF,
        USART_BRR := 7500, USART_CR1 := (USART_CR1 u AND 0xE9F3) OR 0x202C\<rparr>)
     (upd_NVIC (\<lambda>n. n\<lparr>NVIC_IP := (NVIC_IP n)[37 := 0xF0], NVIC_stores := NVIC_stores n @ [ISER_store 1 0x20]\<rparr>)
     (upd_GPIO GPIOA (\<lambda>_. a)
     (upd_RCC (\<lambda>r. r\<lparr>RCC_APB2ENR := RCC_APB2ENR r OR 0x4004\<rparr>) m)))) \<and>
   (\<forall>n < 16. pin_config n a = (if n = 9 then 0xB else if n = 10 then 0x4 else pin_config n (GPIO m GPIOA))) \<and>
   GPIO_accesses a = GPIO_accesses (GPIO m GPIOA) \<and> GPIO_ODR a = GPIO_ODR (GPIO m GPIOA) \<and>
   GPIO_IDR a = GPIO_IDR (GPIO m GPIOA)"
proof -
  let ?c = "upd_RCC (\<lambda>r. r\<lparr>RCC_APB2ENR := RCC_APB2ENR r OR 0x4004\<rparr>) m"
  have c: "RCC_APB2PeriphClockCmd (RCC_APB2Periph_USART1 OR RCC_APB2Periph_GPIOA) ENABLE m = ?c"
    by (simp add: RCC_APB2PeriphClockCmd_def)
  let ?p9 = "\<lparr>GPIO_Pin = GPIO_Pin_9, GPIO_Speed = GPIO_Speed_50MHz, GPIO_Mode = GPIO_Mode_AF_PP\<rparr>"
  let ?p10 = "\<lparr>GPIO_Pin = GPIO_Pin_10, GPIO_Speed = GPIO_Speed_50MHz, GPIO_Mode = GPIO_Mode_IN_FLOATING\<rparr>"
  have one: "bit (GPIO_Pin_9 :: u16) = (\<lambda>n. n = 9)" "bit (GPIO_Pin_10 :: u16) = (\<lambda>n. n = 10)"
    using bit_one_pin [of 9] bit_one_pin [of 10] by simp_all
  have fits: "init_nibble ?p9 AND NOT 0xF = 0" "init_nibble ?p10 AND NOT 0xF = 0"
    and val: "init_nibble ?p9 = 0xB" "init_nibble ?p10 = 0x4" by (simp_all add: init_nibble_def)
  have pull: "concat (List.map (pull_store GPIO_Mode_AF_PP) xs) = []"
    "concat (List.map (pull_store GPIO_Mode_IN_FLOATING) xs) = []" for xs
    by (simp_all add: pull_store_def)
  have c0: "GPIO ?c = GPIO m" by simp
  from GPIO_Init_effect [OF fits(1), of GPIOA ?c, unfolded val GPIO_InitTypeDef.select_convs one pull append_Nil2 c0]
  obtain x where x: "GPIO_Init GPIOA ?p9 ?c = upd_GPIO GPIOA (\<lambda>_. x) ?c"
    "\<forall>n < 16. pin_config n x = (if n = 9 then 0xB else pin_config n (GPIO m GPIOA))"
    "GPIO_accesses x = GPIO_accesses (GPIO m GPIOA)" "GPIO_ODR x = GPIO_ODR (GPIO m GPIOA)"
    "GPIO_IDR x = GPIO_IDR (GPIO m GPIOA)" by (elim exE conjE) (rule that, assumption+)
  have x0: "GPIO (upd_GPIO GPIOA (\<lambda>_. x) ?c) GPIOA = x" by simp
  from GPIO_Init_effect [OF fits(2), of GPIOA "upd_GPIO GPIOA (\<lambda>_. x) ?c",
      unfolded val GPIO_InitTypeDef.select_convs one pull append_Nil2 x0]
  obtain a where a: "GPIO_Init GPIOA ?p10 (upd_GPIO GPIOA (\<lambda>_. x) ?c) = upd_GPIO GPIOA (\<lambda>_. a) (upd_GPIO GPIOA (\<lambda>_. x) ?c)"
    "\<forall>n < 16. pin_config n a = (if n = 10 then 0x4 else pin_config n x)"
    "GPIO_accesses a = GPIO_accesses x" "GPIO_ODR a = GPIO_ODR x" "GPIO_IDR a = GPIO_IDR x"
    by (elim exE conjE) (rule that, assumption+)
  let ?g = "upd_GPIO GPIOA (\<lambda>_. a) ?c"
  have g: "GPIO_Init GPIOA ?p10 (GPIO_Init GPIOA ?p9 ?c) = ?g"
    unfolding x(1) a(1) by (simp add: upd_GPIO_def)
  let ?ini = "\<lparr>NVIC_IRQChannel = USART1_IRQn, NVIC_IRQChannelPreemptionPriority = 3,
     NVIC_IRQChannelSubPriority = 3, NVIC_IRQChannelCmd = ENABLE\<rparr>"
  let ?n = "upd_NVIC (\<lambda>n. n\<lparr>NVIC_IP := (NVIC_IP n)[37 := 0xF0], NVIC_stores := NVIC_stores n @ [ISER_store 1 0x20]\<rparr>) ?g"
  have n: "NVIC_Init ?ini ?g = Some ?n"
    using nvic_enabled [of ?ini ?g 2] grp len by (simp add: upd_NVIC_def)
  let ?u = "\<lparr>USART_BaudRate = 9600, USART_WordLength = USART_WordLength_8b, USART_StopBits = USART_StopBits_1,
     USART_Parity = USART_Parity_No, USART_Mode = USART_Mode_Rx OR USART_Mode_Tx,
     USART_HardwareFlowControl = USART_HardwareFlowControl_None\<rparr>"
  have clk': "PCLK2_Frequency (RCC_GetClocksFreq y) = 72000000"
    if "RCC_CFGR (RCC y) = RCC_CFGR (RCC m)" for y :: "'a mcu_scheme"
    using clk that by (simp add: RCC_GetClocksFreq_def Let_def)
  have o8: "(((v AND 0xE9F3) OR 0xC) AND 0x8000 = 0) \<longleftrightarrow> \<not> bit v 15" for v :: u16
    by (simp add: bits16 bit_simps)
  have u: "USART_Init USART1 ?u ?n = Some (upd_USART USART1 (\<lambda>u. u\<lparr>USART_CR2 := USART_CR2 u AND 0xCFFF, USART_CR1 := (USART_CR1 u AND 0xE9F3) OR 0xC, USART_CR3 := USART_CR3 u AND 0xFCFF, USART_BRR := 7500\<rparr>) ?n)"
    using over8 by (simp add: USART_Init_def Let_def uart_words clk' o8 usart_9600) (simp add: upd_USART_def)
  have fin: "USART_Cmd USART1 ENABLE (USART_ITConfig USART1 USART_IT_RXNE ENABLE (upd_USART USART1 (\<lambda>u.
      u\<lparr>USART_CR2 := USART_CR2 u AND 0xCFFF, USART_CR1 := (USART_CR1 u AND 0xE9F3) OR 0xC,
        USART_CR3 := USART_CR3 u AND 0xFCFF, USART_BRR := 7500\<rparr>) ?n)) =
    upd_USART USART1 (\<lambda>u. u\<lparr>USART_CR2 := USART_CR2 u AND 0xCFFF, USART_CR3 := USART_CR3 u AND 0xFCFF,
        USART_BRR := 7500, USART_CR1 := (USART_CR1 u AND 0xE9F3) OR 0x202C\<rparr>) ?n"
  proof -
    have "set_bit 5 ((v AND 0xE9F3) OR 0xC) OR 0x2000 = ((v AND 0xE9F3) OR 0x202C :: u16)" for v
      by (simp add: bits16 bit_simps bit_set_bit_iff)
    moreover have "USART_ITConfig USART1 USART_IT_RXNE ENABLE y =
        upd_USART USART1 (\<lambda>u. u\<lparr>USART_CR1 := set_bit 5 (USART_CR1 u)\<rparr>) y" for y :: "'a mcu_scheme"
      using it_config_source [of USART_IT_RXNE 1 5 5 USART1 ENABLE y] by (simp add: usart_sources_def)
    ultimately show ?thesis by (simp add: USART_Cmd_def) (simp add: upd_USART_def)
  qed
  have "uart_init 9600 m = Some (upd_USART USART1 (\<lambda>u. u\<lparr>USART_CR2 := USART_CR2 u AND 0xCFFF, USART_CR3 := USART_CR3 u AND 0xFCFF,
        USART_BRR := 7500, USART_CR1 := (USART_CR1 u AND 0xE9F3) OR 0x202C\<rparr>) ?n)"
    unfolding uart_init_def Let_def GPIO_InitTypeDef.update_convs c g n
    by (simp only: Option.bind.bind_lunit u fin)
  with x a show ?thesis by (intro exI [of _ a]) simp
qed

end
