(* ===== verification/Timer.thy ===== *)
theory Timer
  imports Uart Sys Tim_Output
begin

text \<open>
  The timing of the system, \<open>HARDWARE/TIMER/timer.c\<close>: the camera trigger on TIM2, the
  one-per-second pulse on TIM3, and the TIM3 interrupt that aligns TIM2 to it, advances the clock
  and prints a GPRMC sentence. Structures that the code leaves partly uninitialised are
  arguments (the contents of the stack).
\<close>

section \<open>Operations\<close>

definition TIM3_Int_Init ::
  "TIM_TimeBaseInitTypeDef \<Rightarrow> u16 \<Rightarrow> u16 \<Rightarrow> 'a mcu_scheme \<Rightarrow> 'a mcu_scheme option" where
  "TIM3_Int_Init stack_tb arr psc m =
     (let m = RCC_APB1PeriphClockCmd RCC_APB1Periph_TIM3 ENABLE m;
          tb = stack_tb\<lparr>TIM_Period := arr\<rparr>;
          tb = tb\<lparr>TIM_Prescaler := psc\<rparr>;
          tb = tb\<lparr>TIM_ClockDivision := 0\<rparr>;
          tb = tb\<lparr>TIM_CounterMode := TIM_CounterMode_Up\<rparr>;
          m = TIM_TimeBaseInit TIM3 tb m;
          m = TIM_ITConfig TIM3 TIM_IT_Update ENABLE m;
          nvic = \<lparr>NVIC_IRQChannel = TIM3_IRQn, NVIC_IRQChannelPreemptionPriority = 0,
                  NVIC_IRQChannelSubPriority = 3, NVIC_IRQChannelCmd = ENABLE\<rparr>
      in do {
        m \<leftarrow> NVIC_Init nvic m;
        Some (TIM_Cmd TIM3 ENABLE m)
      })"

text \<open>The loop of \<open>checkNum\<close>, from index \<open>i\<close>; an index past the buffer is \<open>None\<close>.\<close>

function checkNum_loop :: "u8 list \<Rightarrow> nat \<Rightarrow> u8 \<Rightarrow> (nat \<times> u8) option" where
  "checkNum_loop ctx i r =
     (if i < length ctx then
        if ctx ! i \<noteq> 42 \<and> ctx ! i \<noteq> 0 then checkNum_loop ctx (i + 1) (r XOR ctx ! i)
        else Some (i, r)
      else None)"
  by pat_completeness auto
termination by (relation "measure (\<lambda>(ctx, i, r). length ctx - i)") auto

declare checkNum_loop.simps [simp del]

definition checkNum :: "u8 list option \<Rightarrow> firmware \<Rightarrow> (int \<times> firmware) option" where
  "checkNum gprmcContext s =
     (case gprmcContext of
        None \<Rightarrow> Some (-1, s)
      | Some ctx \<Rightarrow>
          if length ctx \<le> 1 then None
          else do {
            (i, r) \<leftarrow> checkNum_loop ctx 2 (ctx ! 1);
            let s = s\<lparr>g_result := r, g_i := int i\<rparr>;
            Some (if ctx ! i \<noteq> 42 then (-1, s) else (uint r, s))
          })"

definition clock_step :: "firmware \<Rightarrow> firmware" where
  "clock_step s =
     (if ss s < 59 then s\<lparr>ss := ss s + 1\<rparr>
      else
        (let s = s\<lparr>ss := 0\<rparr>
         in if mm s < 59 then s\<lparr>mm := mm s + 1\<rparr>
            else
              (let s = s\<lparr>mm := 0\<rparr>
               in if hh s < 23 then s\<lparr>hh := hh s + 1\<rparr> else s\<lparr>hh := 0\<rparr>)))"

definition gprmc_tail :: string where
  "gprmc_tail = ''.00,A,2237.496474,N,11356.089515,E,0.0,225.5,230520,2.3,W,A*''"

definition pps_interrupt :: "(u16 \<Rightarrow> u16 \<Rightarrow> u16) \<Rightarrow> firmware \<Rightarrow> firmware option" where
  "pps_interrupt sr_store s =
     (if TIM_GetITStatus TIM3 TIM_IT_Update s \<noteq> RESET then do {
        let s = TIM_ClearITPendingBit sr_store TIM3 TIM_IT_Update s;
        led \<leftarrow> Pout_load GPIOE 5 s;
        s \<leftarrow> Pout_store GPIOE 5 (if led = 0 then 1 else 0) s;
        let s = upd_TIM TIM2 (\<lambda>t. t\<lparr>TIM_CNT := TIM_ARR t div 2\<rparr>) s;
        Pout_store GPIOC 13 0 s
      }
      else Some s)"

text \<open>The five library calls that build and print the sentence.\<close>

definition gprmc_output :: "(firmware \<Rightarrow> firmware) \<Rightarrow> firmware \<Rightarrow> firmware option" where
  "gprmc_output tick s = do {
     head \<leftarrow> cstring (gprmcStr s @ gprmcStr_padding s);
     buf \<leftarrow> store_cstring (head @ fmt_02d (hh s) @ fmt_02d (mm s) @ fmt_02d (ss s) @ ascii gprmc_tail)
              (value_2 s);
     let s = s\<lparr>value_2 := buf\<rparr>;
     str \<leftarrow> cstring (value_2 s);
     buf \<leftarrow> store_cstring str (value_1 s);
     let s = s\<lparr>value_1 := buf\<rparr>;
     (n, s) \<leftarrow> checkNum (Some (value_1 s)) s;
     let s = s\<lparr>chckNum := n\<rparr>;
     buf \<leftarrow> store_cstring (fmt_02X (chckNum s)) (chckNumChar s @ chckNumChar_padding s);
     let s = s\<lparr>chckNumChar := take (length (chckNumChar s)) buf,
               chckNumChar_padding := drop (length (chckNumChar s)) buf\<rparr>;
     str \<leftarrow> cstring (value_2 s);
     s \<leftarrow> write_loop tick str s;
     str \<leftarrow> cstring (chckNumChar s @ chckNumChar_padding s);
     write_loop tick (str @ [10]) s
   }"

definition TIM3_IRQHandler ::
  "(u16 \<Rightarrow> u16 \<Rightarrow> u16) \<Rightarrow> (firmware \<Rightarrow> firmware) \<Rightarrow> firmware \<Rightarrow> firmware option" where
  "TIM3_IRQHandler sr_store tick s = do {
     s \<leftarrow> pps_interrupt sr_store s;
     let s = clock_step s;
     gprmc_output tick s
   }"

definition TIM2_PWM_Init ::
  "TIM_TimeBaseInitTypeDef \<Rightarrow> TIM_OCInitTypeDef \<Rightarrow> u16 \<Rightarrow> u16 \<Rightarrow> 'a mcu_scheme \<Rightarrow> 'a mcu_scheme" where
  "TIM2_PWM_Init stack_tb stack_oc arr psc m =
     (let m = RCC_APB1PeriphClockCmd RCC_APB1Periph_TIM2 ENABLE m;
          m = RCC_APB2PeriphClockCmd RCC_APB2Periph_GPIOA ENABLE m;
          m = TIM_DeInit TIM2 m;
          gpio = \<lparr>GPIO_Pin = GPIO_Pin_1, GPIO_Speed = GPIO_Speed_50MHz, GPIO_Mode = GPIO_Mode_AF_PP\<rparr>;
          m = GPIO_Init GPIOA gpio m;
          tb = stack_tb\<lparr>TIM_Period := arr\<rparr>;
          tb = tb\<lparr>TIM_Prescaler := psc\<rparr>;
          tb = tb\<lparr>TIM_ClockDivision := 0\<rparr>;
          tb = tb\<lparr>TIM_CounterMode := TIM_CounterMode_Up\<rparr>;
          m = TIM_TimeBaseInit TIM2 tb m;
          oc = stack_oc\<lparr>TIM_Pulse := 990\<rparr>;
          oc = oc\<lparr>TIM_OCMode := TIM_OCMode_PWM2\<rparr>;
          oc = oc\<lparr>TIM_OutputState := TIM_OutputState_Enable\<rparr>;
          oc = oc\<lparr>TIM_OCPolarity := TIM_OCPolarity_High\<rparr>;
          oc = oc\<lparr>TIM_OutputNState := TIM_OutputNState_Disable\<rparr>;
          m = TIM_OC2PreloadConfig TIM2 TIM_OCPreload_Enable m;
          m = TIM_OC2Init TIM2 oc m;
          m = TIM_ARRPreloadConfig TIM2 ENABLE m;
          m = TIM_Cmd TIM2 ENABLE m
      in TIM_SetCompare2 TIM2 990 m)"

definition TIM3_PWM_Init ::
  "TIM_TimeBaseInitTypeDef \<Rightarrow> TIM_OCInitTypeDef \<Rightarrow> u16 \<Rightarrow> u16 \<Rightarrow> 'a mcu_scheme \<Rightarrow> 'a mcu_scheme option" where
  "TIM3_PWM_Init stack_tb stack_oc arr psc m =
     (let m = RCC_APB1PeriphClockCmd RCC_APB1Periph_TIM3 ENABLE m;
          m = RCC_APB2PeriphClockCmd (RCC_APB2Periph_GPIOB OR RCC_APB2Periph_AFIO) ENABLE m
      in do {
        m \<leftarrow> GPIO_PinRemapConfig GPIO_PartialRemap_TIM3 ENABLE m;
        let gpio = \<lparr>GPIO_Pin = GPIO_Pin_5, GPIO_Speed = GPIO_Speed_50MHz, GPIO_Mode = GPIO_Mode_AF_PP\<rparr>;
        let m = GPIO_Init GPIOB gpio m;
        let tb = stack_tb\<lparr>TIM_Period := arr\<rparr>;
        let tb = tb\<lparr>TIM_Prescaler := psc\<rparr>;
        let tb = tb\<lparr>TIM_ClockDivision := 0\<rparr>;
        let tb = tb\<lparr>TIM_CounterMode := TIM_CounterMode_Up\<rparr>;
        let m = TIM_TimeBaseInit TIM3 tb m;
        let oc = stack_oc\<lparr>TIM_OCMode := TIM_OCMode_PWM2\<rparr>;
        let oc = oc\<lparr>TIM_OutputState := TIM_OutputState_Enable\<rparr>;
        let oc = oc\<lparr>TIM_OCPolarity := TIM_OCPolarity_High\<rparr>;
        let m = TIM_OC2Init TIM3 oc m;
        let m = TIM_OC2PreloadConfig TIM3 TIM_OCPreload_Enable m;
        let m = TIM_Cmd TIM3 ENABLE m;
        let m = TIM_SetCompare2 TIM3 (TIM_ARR (TIM m TIM3) div 2) m;
        let m = TIM_ITConfig TIM3 TIM_IT_Update ENABLE m;
        let nvic = \<lparr>NVIC_IRQChannel = TIM3_IRQn, NVIC_IRQChannelPreemptionPriority = 0,
                    NVIC_IRQChannelSubPriority = 3, NVIC_IRQChannelCmd = ENABLE\<rparr>;
        NVIC_Init nvic m
      })"

section \<open>Properties of the operations\<close>

section \<open>The clock\<close>

definition clock_inv :: "firmware \<Rightarrow> bool" where
  "clock_inv s \<longleftrightarrow> 0 \<le> ss s \<and> ss s < 60 \<and> 0 \<le> mm s \<and> mm s < 60 \<and> 0 \<le> hh s \<and> hh s < 24"

definition seconds :: "firmware \<Rightarrow> int" where
  "seconds s = hh s * 3600 + mm s * 60 + ss s"

lemma seconds_range: "clock_inv s \<Longrightarrow> 0 \<le> seconds s \<and> seconds s < 86400"
  by (auto simp: clock_inv_def seconds_def)

lemma clock_step_seconds:
  assumes "clock_inv s"
  shows "clock_inv (clock_step s)" "seconds (clock_step s) = (seconds s + 1) mod 86400"
proof -
  show "clock_inv (clock_step s)" using assms by (auto simp: clock_inv_def clock_step_def Let_def)
  consider "ss s < 59" | "ss s = 59" "mm s < 59" | "ss s = 59" "mm s = 59" "hh s < 23"
    | "ss s = 59" "mm s = 59" "hh s = 23"
    using assms unfolding clock_inv_def by linarith
  then show "seconds (clock_step s) = (seconds s + 1) mod 86400"
  proof cases
    case 1
    then have "seconds (clock_step s) = seconds s + 1" "seconds s + 1 < 86400"
      using assms by (auto simp: clock_inv_def seconds_def clock_step_def)
    then show ?thesis using seconds_range [OF assms] by simp
  next
    case 2
    then have "seconds (clock_step s) = seconds s + 1" "seconds s + 1 < 86400"
      using assms by (auto simp: clock_inv_def seconds_def clock_step_def Let_def)
    then show ?thesis using seconds_range [OF assms] by simp
  next
    case 3
    then have "seconds (clock_step s) = seconds s + 1" "seconds s + 1 < 86400"
      using assms by (auto simp: clock_inv_def seconds_def clock_step_def Let_def)
    then show ?thesis using seconds_range [OF assms] by simp
  next
    case 4
    then show ?thesis by (simp add: seconds_def clock_step_def Let_def)
  qed
qed

lemma clock_step_frame:
  "mcu.truncate (clock_step s) = mcu.truncate s" "USART_RX_BUF (clock_step s) = USART_RX_BUF s"
  "USART_RX_STA (clock_step s) = USART_RX_STA s" "gprmcStr (clock_step s) = gprmcStr s"
  "gprmcStr_padding (clock_step s) = gprmcStr_padding s" "chckNumChar (clock_step s) = chckNumChar s"
  "chckNumChar_padding (clock_step s) = chckNumChar_padding s" "value_1 (clock_step s) = value_1 s"
  "value_2 (clock_step s) = value_2 s" "TIM (clock_step s) = TIM s" "GPIO (clock_step s) = GPIO s"
  "USART (clock_step s) = USART s"
  by (simp_all add: clock_step_def mcu.truncate_def Let_def)

text \<open>
  The clock of the interrupt counts seconds of the day: \<open>n\<close> updates from a time in range give a
  time in range that is \<open>n\<close> seconds later, modulo a day, and touch no register.
\<close>

theorem clock_counts_seconds:
  assumes "clock_inv s"
  shows "clock_inv ((clock_step ^^ n) s) \<and> seconds ((clock_step ^^ n) s) = (seconds s + int n) mod 86400 \<and>
    mcu.truncate ((clock_step ^^ n) s) = mcu.truncate s"
proof (induction n)
  case 0
  then show ?case using assms seconds_range [OF assms] by simp
next
  case (Suc n)
  then have "seconds ((clock_step ^^ Suc n) s) = ((seconds s + int n) mod 86400 + 1) mod 86400"
    by (simp add: clock_step_seconds)
  also have "\<dots> = (seconds s + int (Suc n)) mod 86400" by (simp add: mod_simps ac_simps)
  finally show ?case using Suc by (simp add: clock_step_seconds clock_step_frame)
qed

lemma clock_counts_seconds_witness:
  "seconds ((clock_step ^^ 86399) (reset_firmware [0] [0])) = 86399"
proof -
  have "clock_inv (reset_firmware [0] [0])" by (simp add: clock_inv_def)
  from clock_counts_seconds [OF this, of 86399] show ?thesis by (simp add: seconds_def)
qed

section \<open>The checksum\<close>

lemma checkNum_loop_run:
  assumes "0 \<notin> set body" and "42 \<notin> set body" and "t = 0 \<or> t = 42"
  shows "checkNum_loop (pre @ body @ t # rest) (length pre) r =
    Some (length pre + length body, fold (\<lambda>c r. r XOR c) body r)"
  using assms(1,2)
proof (induction body arbitrary: pre r)
  case Nil
  then show ?case using assms(3) by (auto simp: checkNum_loop.simps [of "pre @ t # rest" "length pre"])
next
  case (Cons c body)
  then have "checkNum_loop (pre @ (c # body) @ t # rest) (length pre) r =
      checkNum_loop ((pre @ [c]) @ body @ t # rest) (length (pre @ [c])) (r XOR c)"
    by (simp add: checkNum_loop.simps [of "pre @ c # body @ t # rest" "length pre"])
  also have "\<dots> = Some (length (pre @ [c]) + length body, fold (\<lambda>c r. r XOR c) body (r XOR c))"
    using Cons by (intro Cons.IH) auto
  finally show ?case by simp
qed

lemma checkNum_loop_None:
  assumes "0 \<notin> set (drop k ctx)" and "42 \<notin> set (drop k ctx)"
  shows "checkNum_loop ctx k r = None"
  using assms
proof (induction ctx k r rule: checkNum_loop.induct)
  case (1 ctx i r)
  show ?case
  proof (cases "i < length ctx")
    case True
    then have d: "drop i ctx = ctx ! i # drop (i + 1) ctx" by (simp add: Cons_nth_drop_Suc)
    have "ctx ! i \<noteq> 42 \<and> ctx ! i \<noteq> 0" "0 \<notin> set (drop (i + 1) ctx)" "42 \<notin> set (drop (i + 1) ctx)"
      using 1(2,3) unfolding d by auto
    with True 1(1) show ?thesis by (simp add: checkNum_loop.simps [of ctx i])
  next
    case False
    then show ?thesis by (simp add: checkNum_loop.simps [of ctx i])
  qed
qed

lemma checkNum_run:
  assumes "0 \<notin> set body" and "42 \<notin> set body" and "t = 0 \<or> t = 42"
  shows "checkNum (Some (x # c # body @ t # rest)) s =
    Some (if t \<noteq> 42 then -1 else uint (xor_all (c # body)),
      s\<lparr>g_result := xor_all (c # body), g_i := 2 + int (length body)\<rparr>)"
proof -
  have "checkNum_loop (x # c # body @ t # rest) 2 c = Some (2 + length body, xor_all (c # body))"
    using checkNum_loop_run [OF assms, of "[x, c]" rest c] by (simp add: xor_all_def numeral_2_eq_2)
  moreover have "(x # c # body @ t # rest) ! (2 + length body) = t"
    using nth_append_length [of "x # c # body" t rest] by simp
  ultimately show ?thesis by (simp add: checkNum_def)
qed

text \<open>
  \<open>checkNum\<close> on a sentence: of the bytes between the first one and the first \<open>*\<close> it returns the
  exclusive or, which is the NMEA checksum; a string that ends before a \<open>*\<close> gives -1, a null pointer
  gives -1, and a buffer with neither behind its first two bytes is read past its end.
\<close>

theorem checkNum_spec:
  "checkNum None s = Some (-1, s) \<and>
   (0 \<notin> set body \<longrightarrow> 42 \<notin> set body \<longrightarrow>
     checkNum (Some (x # c # body @ 42 # rest)) s =
       Some (uint (xor_all (c # body)), s\<lparr>g_result := xor_all (c # body), g_i := 2 + int (length body)\<rparr>) \<and>
     checkNum (Some (x # c # body @ 0 # rest)) s =
       Some (-1, s\<lparr>g_result := xor_all (c # body), g_i := 2 + int (length body)\<rparr>) \<and>
     checkNum (Some (x # c # body)) s = None)"
proof -
  have "checkNum (Some (x # c # body)) s = None" if "0 \<notin> set body" "42 \<notin> set body"
    using that checkNum_loop_None [of 2 "x # c # body" c] by (simp add: checkNum_def numeral_2_eq_2)
  then show ?thesis using checkNum_run [of body 42 x c rest s] checkNum_run [of body 0 x c rest s]
    by (simp add: checkNum_def)
qed

lemma checkNum_spec_witness:
  "\<exists>t. checkNum (Some (ascii ''$AB*'' @ [0])) (reset_firmware [0] [0]) = Some (3, t)"
  using checkNum_spec [of "reset_firmware [0] [0]" "[66]" 36 65 "[0]"] by (simp add: ascii_def of_char_def xor_all_def)

section \<open>The sentence\<close>

text \<open>
  What the interrupt is to print: the NMEA sentence of a time, with the fixed rest of the position,
  and its checksum.
\<close>

definition nmea_payload :: "int \<Rightarrow> u8 list" where
  "nmea_payload t = ascii ''GPRMC,'' @ two_digits (t div 3600) @ two_digits (t div 60 mod 60) @
     two_digits (t mod 60) @ ascii ''.00,A,2237.496474,N,11356.089515,E,0.0,225.5,230520,2.3,W,A''"

definition nmea_sentence :: "int \<Rightarrow> u8 list" where
  "nmea_sentence t = [36] @ nmea_payload t @ [42] @
     (let x = unat (xor_all (nmea_payload t)) in [hex_digit (x div 16), hex_digit (x mod 16)]) @ [10]"

text \<open>The buffers of the interrupt: the sentence prefix is terminated by the byte behind its array, and
  the byte behind \<open>chckNumChar\<close> may be overwritten.\<close>

definition buffers_ok :: "firmware \<Rightarrow> bool" where
  "buffers_ok s \<longleftrightarrow> gprmcStr s = ascii ''$GPRMC,'' \<and> (\<exists>p. gprmcStr_padding s = 0 # p) \<and>
     length (chckNumChar s) = 2 \<and> chckNumChar_padding s \<noteq> [] \<and>
     length (value_1 s) = 100 \<and> length (value_2 s) = 100"

lemma hex_digit_plain: "d < 16 \<Longrightarrow> hex_digit d \<noteq> 0"
proof -
  assume d: "d < 16"
  have "unat (55 + of_nat d :: u8) = 55 + d" using d by (simp add: unat_word_ariths unat_of_nat)
  then show ?thesis using digit_bytes [of d] by (auto simp: hex_digit_def)
qed

lemma clock_fields:
  assumes "clock_inv s"
  shows "seconds s div 3600 = hh s" "seconds s div 60 mod 60 = mm s" "seconds s mod 60 = ss s"
proof -
  have r: "0 \<le> ss s" "ss s < 60" "0 \<le> mm s" "mm s < 60" using assms by (auto simp: clock_inv_def)
  have g: "(a * 60 + b) div 60 = a \<and> (a * 60 + b) mod 60 = b" if "0 \<le> b" "b < 60" for a b :: int
    using that by simp
  have 1: "seconds s = (hh s * 60 + mm s) * 60 + ss s" by (simp add: seconds_def)
  have 2: "seconds s div 60 = hh s * 60 + mm s" unfolding 1 using g [OF r(1,2)] by blast
  show "seconds s mod 60 = ss s" unfolding 1 using g [OF r(1,2)] by blast
  show "seconds s div 60 mod 60 = mm s" unfolding 2 using g [OF r(3,4)] by blast
  have "seconds s div 3600 = seconds s div 60 div 60" by (simp add: zdiv_zmult2_eq [symmetric])
  then show "seconds s div 3600 = hh s" unfolding 2 by (simp only: g [OF r(3,4), THEN conjunct1])
qed

lemma ascii_fixed:
  "ascii ''$GPRMC,'' = 36 # ascii ''GPRMC,''"
  "ascii gprmc_tail = ascii ''.00,A,2237.496474,N,11356.089515,E,0.0,225.5,230520,2.3,W,A'' @ [42]"
  "0 \<notin> set (ascii ''GPRMC,'')" "42 \<notin> set (ascii ''GPRMC,'')" "length (ascii ''GPRMC,'') = 6"
  "0 \<notin> set (ascii ''.00,A,2237.496474,N,11356.089515,E,0.0,225.5,230520,2.3,W,A'')"
  "42 \<notin> set (ascii ''.00,A,2237.496474,N,11356.089515,E,0.0,225.5,230520,2.3,W,A'')"
  "length (ascii ''.00,A,2237.496474,N,11356.089515,E,0.0,225.5,230520,2.3,W,A'') = 59"
  by (simp_all add: ascii_def gprmc_tail_def of_char_def)

lemma payload_plain:
  assumes "clock_inv s"
  shows "0 \<notin> set (nmea_payload (seconds s))" "42 \<notin> set (nmea_payload (seconds s))"
    "length (nmea_payload (seconds s)) = 71"
    "ascii ''$GPRMC,'' @ fmt_02d (hh s) @ fmt_02d (mm s) @ fmt_02d (ss s) @ ascii gprmc_tail =
      36 # nmea_payload (seconds s) @ [42]"
proof -
  have r: "0 \<le> hh s" "hh s < 100" "0 \<le> mm s" "mm s < 100" "0 \<le> ss s" "ss s < 100"
    using assms by (auto simp: clock_inv_def)
  note d = two_digits_plain [OF r(1,2)] two_digits_plain [OF r(3,4)] two_digits_plain [OF r(5,6)]
  note f = clock_fields [OF assms]
  show "0 \<notin> set (nmea_payload (seconds s))" "42 \<notin> set (nmea_payload (seconds s))"
    "length (nmea_payload (seconds s)) = 71"
    using d by (simp_all add: nmea_payload_def f ascii_fixed)
  have "fmt_02d n = two_digits n" if "0 \<le> n" "n < 100" for n
    using fmt_02d_digits [OF that] by (simp add: two_digits_def)
  then show "ascii ''$GPRMC,'' @ fmt_02d (hh s) @ fmt_02d (mm s) @ fmt_02d (ss s) @ ascii gprmc_tail =
      36 # nmea_payload (seconds s) @ [42]"
    using r by (simp add: nmea_payload_def f ascii_fixed)
qed

lemma globals_cong:
  assumes "mcu.more a = mcu.more (b :: firmware)"
  shows "hh a = hh b" "mm a = mm b" "ss a = ss b" "gprmcStr a = gprmcStr b"
    "gprmcStr_padding a = gprmcStr_padding b" "chckNumChar a = chckNumChar b"
    "chckNumChar_padding a = chckNumChar_padding b" "value_1 a = value_1 b" "value_2 a = value_2 b"
    "USART_RX_BUF a = USART_RX_BUF b" "USART_RX_STA a = USART_RX_STA b"
  using assms by (cases a; cases b; simp)+

lemma sentence_written:
  assumes buf: "buffers_ok s" and clk: "clock_inv s" and port: "console_port tick"
  shows "\<exists>t. gprmc_output tick s = Some t \<and>
    console_log t = console_log s @ List.map ucast (nmea_sentence (seconds s)) \<and> buffers_ok t \<and>
    hh t = hh s \<and> mm t = mm s \<and> ss t = ss s \<and>
    USART_RX_BUF t = USART_RX_BUF s \<and> USART_RX_STA t = USART_RX_STA s"
proof -
  note pl = payload_plain [OF clk]
  let ?pl = "nmea_payload (seconds s)"
  obtain c body where cb: "?pl = c # body" using pl(3) by (cases ?pl) auto
  define P where "P = 36 # ?pl @ [42]"
  have P0: "0 \<notin> set P" and Pl: "length P < 100" using pl by (simp_all add: P_def)
  obtain p where g: "gprmcStr s = ascii ''$GPRMC,''" "gprmcStr_padding s = 0 # p" using buf by (auto simp: buffers_ok_def)
  have head: "cstring (gprmcStr s @ gprmcStr_padding s) = Some (ascii ''$GPRMC,'')"
    unfolding g by (rule cstring_append) (simp add: ascii_fixed)
  have vl: "length P < length (value_1 s)" "length P < length (value_2 s)" using Pl buf by (auto simp: buffers_ok_def)
  define v2 where "v2 = P @ [0] @ drop (Suc (length P)) (value_2 s)"
  define v1 where "v1 = P @ [0] @ drop (Suc (length P)) (value_1 s)"
  have st2: "store_cstring P (value_2 s) = Some v2" and st1: "store_cstring P (value_1 s) = Some v1"
    using vl by (simp_all add: store_cstring_fits v1_def v2_def)
  have c2: "cstring v2 = Some P" using cstring_store [OF st2 P0] .
  have lv: "length v1 = 100" "length v2 = 100"
    using length_store_cstring [OF st1] length_store_cstring [OF st2] buf by (auto simp: buffers_ok_def)
  define s2 where "s2 = s\<lparr>value_2 := v2, value_1 := v1\<rparr>"
  define n where "n = xor_all ?pl"
  have chk: "checkNum (Some v1) s2 = Some (uint n, s2\<lparr>g_result := n, g_i := 2 + int (length body)\<rparr>)"
    using checkNum_run [of body 42 36 c "0 # drop (Suc (length P)) (value_1 s)" s2] pl(1,2)
    by (simp add: v1_def P_def cb n_def)
  define XX where "XX = [hex_digit (unat n div 16), hex_digit (unat n mod 16)]"
  have n: "unat n < 256" using unat_lt_max [of n] by simp
  have fmt: "fmt_02X (uint n) = XX" proof -
    have "uint n < 256" using uint_lt2p [of n] by simp
    then show ?thesis using fmt_02X_digits [of "uint n"] by (simp add: XX_def)
  qed
  have XX0: "0 \<notin> set XX" using n by (auto simp: XX_def hex_digit_plain dest!: sym [of 0])
  obtain q qs where pad: "length (chckNumChar s) = 2" "chckNumChar_padding s = q # qs"
    using buf by (cases "chckNumChar_padding s") (auto simp: buffers_ok_def)
  have st3: "store_cstring XX (chckNumChar s @ chckNumChar_padding s) = Some (XX @ 0 # qs)"
    using pad by (simp add: store_cstring_def XX_def)
  define s3 where "s3 = s2\<lparr>g_result := n, g_i := 2 + int (length body), chckNum := uint n,
    chckNumChar := XX, chckNumChar_padding := 0 # qs\<rparr>"
  have run: "gprmc_output tick s = do {
      s \<leftarrow> write_loop tick P s3;
      str \<leftarrow> cstring (chckNumChar s @ chckNumChar_padding s);
      write_loop tick (str @ [10]) s }"
    using head st2 st1 chk st3 c2 pl(4) pad(1)
    by (simp add: gprmc_output_def P_def [symmetric] s2_def fmt s3_def XX_def)
  obtain a where a: "write_loop tick P s3 = Some a" "console_log a = console_log s3 @ List.map ucast P"
    "mcu.more a = mcu.more s3" using write_loop_prints [OF port] by blast
  obtain t where t: "write_loop tick (XX @ [10]) a = Some t" "console_log t = console_log a @ List.map ucast (XX @ [10])"
    "mcu.more t = mcu.more a" using write_loop_prints [OF port] by blast
  have m: "mcu.more t = mcu.more s3" using t(3) a(3) by simp
  have "cstring (chckNumChar a @ chckNumChar_padding a) = Some XX"
    using cstring_append [OF XX0, of qs] by (simp add: globals_cong [OF a(3)] s3_def)
  then have "gprmc_output tick s = Some t" by (simp add: run a(1) t(1))
  moreover have "console_log s3 = console_log s" by (simp add: s3_def s2_def console_log_def)
  then have "console_log t = console_log s @ List.map ucast (nmea_sentence (seconds s))"
    by (simp add: t(2) a(2) nmea_sentence_def P_def XX_def n_def Let_def)
  moreover have "buffers_ok t" using buf lv
    by (auto simp: buffers_ok_def globals_cong [OF m] s3_def s2_def XX_def)
  ultimately show ?thesis by (simp add: globals_cong [OF m] s3_def s2_def)
qed

section \<open>The interrupt\<close>

text \<open>
  The one-per-second interrupt, on a status register cleared by storing 0: when the update is
  enabled and pending, it is acknowledged, the trigger timer TIM2 is set to the middle of its period
  and nothing else of it changes, pin PE5 toggles, pin PC13 goes low, and no other pin, timer or C
  object changes; otherwise nothing happens.
\<close>

theorem pps_aligns_trigger:
  assumes "rc_w0 sr_store"
  shows "\<exists>t. pps_interrupt sr_store s = Some t \<and>
    (if TIM_GetITStatus TIM3 TIM_IT_Update s = SET then
       TIM t TIM2 = (TIM s TIM2)\<lparr>TIM_CNT := TIM_ARR (TIM s TIM2) div 2\<rparr> \<and>
       TIM_GetITStatus TIM3 TIM_IT_Update t = RESET \<and>
       (\<forall>p. p \<noteq> TIM2 \<and> p \<noteq> TIM3 \<longrightarrow> TIM t p = TIM s p) \<and>
       (\<forall>p n. n < 32 \<longrightarrow> Pout_load p n t =
          (if p = GPIOE \<and> n = 5 then map_option (\<lambda>b. 1 - b) (Pout_load p n s)
           else if p = GPIOC \<and> n = 13 then Some 0 else Pout_load p n s)) \<and>
       mcu.more t = mcu.more s
     else t = s)"
proof (cases "TIM_GetITStatus TIM3 TIM_IT_Update s = SET")
  case True
  let ?sr = "\<lambda>t. t\<lparr>TIM_SR := TIM_SR t AND NOT TIM_IT_Update\<rparr>"
  have clr: "TIM_ClearITPendingBit sr_store TIM3 TIM_IT_Update s = upd_TIM TIM3 ?sr s"
    using assms by (simp add: TIM_ClearITPendingBit_def rc_w0_def upd_TIM_def)
  have bb: "bit (bitband_store n v r) k \<longleftrightarrow> (if k = n then bit v 0 else bit r k)" if "n < 32" for n v r k
    using that by (simp add: bitband_store_def bit_set_bit_iff bit_unset_bit_iff)
  let ?led = "bit (GPIO_ODR (GPIO s GPIOE)) 5"
  define t where "t = upd_GPIO GPIOC (\<lambda>g. g\<lparr>GPIO_ODR := bitband_store 13 0 (GPIO_ODR g)\<rparr>)
    (upd_TIM TIM2 (\<lambda>t. t\<lparr>TIM_CNT := TIM_ARR t div 2\<rparr>)
    (upd_GPIO GPIOE (\<lambda>g. g\<lparr>GPIO_ODR := bitband_store 5 (if ?led then 0 else 1) (GPIO_ODR g)\<rparr>)
    (upd_TIM TIM3 ?sr s)))"
  have "pps_interrupt sr_store s = Some t"
    using True by (simp add: pps_interrupt_def clr Pout_load_eq Pout_store_eq t_def)
  moreover have "TIM t TIM2 = (TIM s TIM2)\<lparr>TIM_CNT := TIM_ARR (TIM s TIM2) div 2\<rparr>"
    and "\<forall>p. p \<noteq> TIM2 \<and> p \<noteq> TIM3 \<longrightarrow> TIM t p = TIM s p" and "mcu.more t = mcu.more s"
    by (simp_all add: t_def)
  moreover have "TIM_GetITStatus TIM3 TIM_IT_Update t = RESET"
    by (simp add: t_def TIM_GetITStatus_def Let_def bits16 bit_simps)
  moreover have "Pout_load p n t =
      (if p = GPIOE \<and> n = 5 then map_option (\<lambda>b. 1 - b) (Pout_load p n s)
       else if p = GPIOC \<and> n = 13 then Some 0 else Pout_load p n s)" if n: "n < 32" for p n
  proof -
    have "unat n = 5 \<longleftrightarrow> n = 5" "unat n = 13 \<longleftrightarrow> n = 13" by (auto simp: word_unat_eq_iff)
    then show ?thesis using n by (simp add: Pout_load_eq t_def bb)
  qed
  ultimately show ?thesis using True by auto
next
  case False
  then have "TIM_GetITStatus TIM3 TIM_IT_Update s = RESET" by (cases "TIM_GetITStatus TIM3 TIM_IT_Update s") auto
  then show ?thesis by (simp add: pps_interrupt_def)
qed

definition update_pending :: "firmware \<Rightarrow> firmware" where
  "update_pending = upd_TIM TIM3 (\<lambda>t. t\<lparr>TIM_SR := 1, TIM_DIER := 1\<rparr>)"

lemma pps_aligns_trigger_witness:
  "\<exists>t. pps_interrupt (AND) (update_pending (reset_firmware [0] [0])) = Some t \<and> TIM_CNT (TIM t TIM2) = 0x7FFF"
proof -
  let ?s = "update_pending (reset_firmware [0] [0])"
  have "TIM_GetITStatus TIM3 TIM_IT_Update ?s = SET" by (simp add: update_pending_def TIM_GetITStatus_def)
  moreover have "TIM_ARR (TIM ?s TIM2) = 0xFFFF" by (simp add: update_pending_def reset_TIM_def)
  moreover have "rc_w0 (AND)" by (simp add: rc_w0_def)
  from pps_aligns_trigger [OF this, of ?s] obtain t where "pps_interrupt (AND) ?s = Some t"
    "if TIM_GetITStatus TIM3 TIM_IT_Update ?s = SET then
       TIM t TIM2 = (TIM ?s TIM2)\<lparr>TIM_CNT := TIM_ARR (TIM ?s TIM2) div 2\<rparr> else True" by auto
  ultimately show ?thesis by auto
qed

lemma pps_interrupt_more:
  "\<exists>t. pps_interrupt sr_store s = Some t \<and> mcu.more t = mcu.more s \<and> console_log t = console_log s \<and>
     USART t = USART s"
  by (simp add: pps_interrupt_def TIM_ClearITPendingBit_def Pout_load_eq Pout_store_eq console_log_def)

lemma handler_prints:
  assumes "buffers_ok s" and "clock_inv s" and "console_port tick"
  shows "\<exists>t. TIM3_IRQHandler sr_store tick s = Some t \<and>
    seconds t = (seconds s + 1) mod 86400 \<and> clock_inv t \<and>
    console_log t = console_log s @ List.map ucast (nmea_sentence ((seconds s + 1) mod 86400)) \<and>
    buffers_ok t \<and> USART_RX_BUF t = USART_RX_BUF s \<and> USART_RX_STA t = USART_RX_STA s"
proof -
  obtain a where a: "pps_interrupt sr_store s = Some a" "mcu.more a = mcu.more s" "console_log a = console_log s"
    using pps_interrupt_more by blast
  note g = globals_cong [OF a(2)]
  have inv: "clock_inv a" and sec: "seconds a = seconds s" and buf: "buffers_ok a"
    using assms(1,2) by (simp_all add: clock_inv_def seconds_def buffers_ok_def g)
  note c = clock_step_seconds [OF inv]
  have buf': "buffers_ok (clock_step a)" using buf by (simp add: buffers_ok_def clock_step_frame)
  from sentence_written [OF buf' c(1) assms(3)] obtain t where t: "gprmc_output tick (clock_step a) = Some t"
    "console_log t = console_log (clock_step a) @ List.map ucast (nmea_sentence (seconds (clock_step a)))"
    "buffers_ok t" "hh t = hh (clock_step a)" "mm t = mm (clock_step a)" "ss t = ss (clock_step a)"
    "USART_RX_BUF t = USART_RX_BUF (clock_step a)" "USART_RX_STA t = USART_RX_STA (clock_step a)" by blast
  have "clock_inv t" "seconds t = seconds (clock_step a)"
    using c(1) t(4-6) by (simp_all add: clock_inv_def seconds_def)
  moreover have "console_log (clock_step a) = console_log s" using a(3) by (simp add: console_log_def clock_step_frame)
  ultimately show ?thesis
    using t a(1) c(2) sec by (simp add: TIM3_IRQHandler_def clock_step_frame g)
qed

text \<open>
  One run of the interrupt, with the buffers as the start-up leaves them, the clock in range
  and a working console: it returns, the clock has advanced by one second, and what has been
  transmitted is exactly the NMEA sentence of the new time with its checksum; the buffers are good
  for the next run and the receiver is not disturbed.
\<close>

theorem interrupt_prints_time:
  assumes "buffers_ok s" and "clock_inv s" and "console_port tick"
  shows "\<exists>t. TIM3_IRQHandler sr_store tick s = Some t \<and>
    seconds t = (seconds s + 1) mod 86400 \<and> clock_inv t \<and>
    console_log t = console_log s @ List.map ucast (nmea_sentence ((seconds s + 1) mod 86400)) \<and>
    buffers_ok t \<and> USART_RX_BUF t = USART_RX_BUF s \<and> USART_RX_STA t = USART_RX_STA s"
  by (rule handler_prints [OF assms])

lemma reset_buffers:
  "buffers_ok (reset_firmware (0 # p) (q # qs))" "clock_inv (reset_firmware p' q')"
  by (simp_all add: buffers_ok_def clock_inv_def)

lemma interrupt_prints_time_witness:
  "\<exists>t. TIM3_IRQHandler (AND) ready_port (reset_firmware [0] [0]) = Some t \<and> seconds t = 1"
  using interrupt_prints_time [OF reset_buffers(1) [of "[]" 0 "[]"] reset_buffers(2) ready_port_console, of "(AND)"]
  by (auto simp: seconds_def)

text \<open>
  The two arrays that are used past their end: with no terminator in the bytes behind
  \<open>gprmcStr\<close> the sentence is built from outside the object, and with no byte behind
  \<open>chckNumChar\<close> its terminator is stored outside it. In both cases the interrupt has no
  defined result, whatever the hardware does.
\<close>

theorem sentence_needs_padding:
  assumes "gprmcStr s = ascii ''$GPRMC,''" and "length (chckNumChar s) = 2" and "clock_inv s"
    and "length (value_1 s) = 100" and "length (value_2 s) = 100"
    and "0 \<notin> set (gprmcStr_padding s) \<or> (\<exists>p. gprmcStr_padding s = 0 # p) \<and> chckNumChar_padding s = []"
  shows "gprmc_output tick s = None \<and> TIM3_IRQHandler sr_store tick s = None"
proof -
  have out: "gprmc_output tick a = None"
    if a: "gprmcStr a = ascii ''$GPRMC,''" "length (chckNumChar a) = 2" "clock_inv a"
      "length (value_1 a) = 100" "length (value_2 a) = 100"
      "0 \<notin> set (gprmcStr_padding a) \<or> (\<exists>p. gprmcStr_padding a = 0 # p) \<and> chckNumChar_padding a = []" for a
  proof (cases "0 \<in> set (gprmcStr_padding a)")
    case False
    then have "cstring (gprmcStr a @ gprmcStr_padding a) = None"
      using a(1) by (simp add: cstring_def ascii_fixed)
    then show ?thesis by (simp add: gprmc_output_def)
  next
    case True
    then obtain p where pad: "gprmcStr_padding a = 0 # p" "chckNumChar_padding a = []" using a(6) by auto
    let ?P = "36 # nmea_payload (seconds a) @ [42]"
    note pl = payload_plain [OF a(3)]
    have head: "cstring (gprmcStr a @ gprmcStr_padding a) = Some (ascii ''$GPRMC,'')"
      unfolding a(1) pad by (rule cstring_append) (simp add: ascii_fixed)
    have P: "0 \<notin> set ?P" "length ?P < 100" using pl by simp_all
    obtain v2 where v2: "store_cstring ?P (value_2 a) = Some v2" using P a(5) by (simp add: store_cstring_fits)
    obtain v1 where v1: "store_cstring ?P (value_1 a) = Some v1" using P a(4) by (simp add: store_cstring_fits)
    note c2 = cstring_store [OF v2 P(1)]
    have len: "length (fmt_02X n) \<ge> 2" for n by (simp add: fmt_02X_def Let_def)
    then have full: "store_cstring (fmt_02X n) (chckNumChar a @ chckNumChar_padding a) = None" for n
      using a(2) pad(2) by (simp add: store_cstring_def not_less)
    have keep: "chckNumChar b = chckNumChar a \<and> chckNumChar_padding b = chckNumChar_padding a"
      if "checkNum ctx (a\<lparr>value_2 := v2, value_1 := v1\<rparr>) = Some (n, b)" for ctx n b
      using that by (auto simp: checkNum_def bind_eq_Some_conv Let_def split: option.splits if_splits)
    show ?thesis
    proof (cases "checkNum (Some v1) (a\<lparr>value_2 := v2, value_1 := v1\<rparr>)")
      case None
      then show ?thesis using head v2 v1 c2 pl(4) by (simp add: gprmc_output_def)
    next
      case (Some nb)
      then obtain n b where nb: "nb = (n, b)" by (cases nb)
      with keep Some full show ?thesis using head v2 v1 c2 pl(4) by (simp add: gprmc_output_def)
    qed
  qed
  obtain a where a: "pps_interrupt sr_store s = Some a" "mcu.more a = mcu.more s"
    using pps_interrupt_more by blast
  note g = globals_cong [OF a(2)]
  have "clock_inv (clock_step a)" using assms(3) by (intro clock_step_seconds(1)) (simp add: clock_inv_def g)
  then have "gprmc_output tick (clock_step a) = None"
    using assms(1,2,4,5,6) by (intro out) (simp_all add: clock_step_frame g)
  then show ?thesis using out [OF assms] by (simp add: TIM3_IRQHandler_def a(1))
qed

lemma sentence_needs_padding_witness:
  "gprmc_output ready_port (reset_firmware [] [0]) = None \<and> gprmc_output ready_port (reset_firmware [0] []) = None"
  using sentence_needs_padding [of "reset_firmware [] [0]" ready_port "(AND)"]
    sentence_needs_padding [of "reset_firmware [0] []" ready_port "(AND)"] reset_buffers(2) by simp

section \<open>The two timers\<close>

text \<open>The register block of a timer after its set-up: up-counting, channel 2 in PWM mode 2 with a
  preloaded compare register, active high.\<close>

definition pwm_block :: "u16 \<Rightarrow> u16 \<Rightarrow> u16 \<Rightarrow> u16 \<Rightarrow> u16 \<Rightarrow> TIM_TypeDef \<Rightarrow> TIM_TypeDef" where
  "pwm_block cr1 dier arr psc ccr t = t\<lparr>TIM_CR1 := (TIM_CR1 t AND 0xFC8F) OR cr1,
     TIM_DIER := TIM_DIER t OR dier, TIM_EGR_stores := TIM_EGR_stores t @ [0x0001],
     TIM_CCMR1 := (TIM_CCMR1 t AND 0x84FF) OR 0x7800, TIM_CCER := (TIM_CCER t AND 0xFFCF) OR 0x10,
     TIM_ARR := arr, TIM_PSC := psc, TIM_CCR2 := ccr\<rparr>"

lemma upd_TIM_upd: "upd_TIM p f (upd_TIM p g m) = upd_TIM p (\<lambda>t. f (g t)) m"
  by (simp add: upd_TIM_def)

lemma upd_TIM_eqI: "f (TIM m p) = g (TIM m p) \<Longrightarrow> upd_TIM p f m = upd_TIM p g m"
  by (simp add: upd_TIM_def)

lemmas pwm_op_defs = TIM_SetCompare2_def TIM_Cmd_def TIM_ARRPreloadConfig_def TIM_OC2Init_def
  TIM_OC2PreloadConfig_def TIM_TimeBaseInit_def TIM_ITConfig_def

lemma pwm_words:
  fixes x :: u16
  shows "(((x AND - 113) AND - 769) OR 128) OR 1 = (x AND 0xFC8F) OR 0x81"
    "((x AND - 113) AND - 769) OR 1 = (x AND 0xFC8F) OR 0x1"
    "((((x AND - 2049) OR 2048) AND - 28673) AND - 769) OR 28672 = (x AND 0x84FF) OR 0x7800"
    "((((x AND - 28673) AND - 769) OR 28672) AND - 2049) OR 2048 = (x AND 0x84FF) OR 0x7800"
    "((x AND - 17) AND - 33) OR 16 = (x AND 0xFFCF) OR 0x10"
  by (simp_all add: bits16 bit_simps)

lemma pwm_steps_TIM2:
  "TIM_SetCompare2 TIM2 990 (TIM_Cmd TIM2 ENABLE (TIM_ARRPreloadConfig TIM2 ENABLE
     (TIM_OC2Init TIM2 (so\<lparr>TIM_Pulse := 990, TIM_OCMode := 0x70, TIM_OutputState := 1, TIM_OCPolarity := 0,
        TIM_OutputNState := 0\<rparr>)
     (TIM_OC2PreloadConfig TIM2 8
     (TIM_TimeBaseInit TIM2 (st\<lparr>TIM_Period := arr, TIM_Prescaler := psc, TIM_ClockDivision := 0,
        TIM_CounterMode := 0\<rparr>) m))))) = upd_TIM TIM2 (pwm_block 0x81 0 arr psc 990) m"
  unfolding pwm_op_defs upd_TIM_upd
  by (rule upd_TIM_eqI, rule TIM_TypeDef.equality) (simp_all add: pwm_block_def tim_egr_def Let_def pwm_words)

lemma pwm_steps_TIM3:
  "TIM_ITConfig TIM3 1 ENABLE (upd_TIM TIM3 (\<lambda>t. t\<lparr>TIM_CCR2 := arr div 2\<rparr>) (TIM_Cmd TIM3 ENABLE
     (TIM_OC2PreloadConfig TIM3 8
     (TIM_OC2Init TIM3 (so\<lparr>TIM_OCMode := 0x70, TIM_OutputState := 1, TIM_OCPolarity := 0\<rparr>)
     (TIM_TimeBaseInit TIM3 (st\<lparr>TIM_Period := arr, TIM_Prescaler := psc, TIM_ClockDivision := 0,
        TIM_CounterMode := 0\<rparr>) m))))) = upd_TIM TIM3 (pwm_block 0x1 1 arr psc (arr div 2)) m"
  unfolding pwm_op_defs upd_TIM_upd
  by (rule upd_TIM_eqI, rule TIM_TypeDef.equality) (simp_all add: pwm_block_def tim_egr_def Let_def pwm_words)

lemma pwm_arr_TIM3:
  "TIM_ARR (TIM (TIM_Cmd TIM3 ENABLE (TIM_OC2PreloadConfig TIM3 8 (TIM_OC2Init TIM3 oc
     (TIM_TimeBaseInit TIM3 (st\<lparr>TIM_Period := arr, TIM_Prescaler := psc, TIM_ClockDivision := 0,
        TIM_CounterMode := 0\<rparr>) m)))) TIM3) = arr"
  unfolding pwm_op_defs upd_TIM_upd by (simp add: tim_egr_def Let_def case_prod_unfold)

text \<open>A push-pull alternate-function pin at 50 MHz, alone.\<close>

lemma af_pin:
  assumes "bit (pin :: u16) = (\<lambda>n. n = k)"
  shows "\<exists>g'. GPIO_Init p \<lparr>GPIO_Pin = pin, GPIO_Speed = GPIO_Speed_50MHz, GPIO_Mode = GPIO_Mode_AF_PP\<rparr> m =
      upd_GPIO p (\<lambda>_. g') m \<and>
    (\<forall>n < 16. pin_config n g' = (if n = k then 0xB else pin_config n (GPIO m p))) \<and>
    GPIO_accesses g' = GPIO_accesses (GPIO m p) \<and>
    GPIO_ODR g' = GPIO_ODR (GPIO m p) \<and> GPIO_IDR g' = GPIO_IDR (GPIO m p)"
proof -
  let ?ini = "\<lparr>GPIO_Pin = pin, GPIO_Speed = GPIO_Speed_50MHz, GPIO_Mode = GPIO_Mode_AF_PP\<rparr>"
  have fits: "init_nibble ?ini AND NOT 0xF = 0" and val: "init_nibble ?ini = 0xB" by (simp_all add: init_nibble_def)
  have pull: "concat (List.map (pull_store GPIO_Mode_AF_PP) xs) = []" for xs by (simp add: pull_store_def)
  show ?thesis
    using GPIO_Init_effect [OF fits, of p m, unfolded val GPIO_InitTypeDef.select_convs assms pull append_Nil2] .
qed

lemma TIM2_PWM_effect:
  "\<exists>a. (\<forall>st so. TIM2_PWM_Init st so arr psc m =
     upd_TIM TIM2 (pwm_block 0x81 0 arr psc 990) (upd_GPIO GPIOA (\<lambda>_. a)
       (upd_RCC (\<lambda>r. r\<lparr>RCC_APB1ENR := RCC_APB1ENR r OR 0x1, RCC_APB2ENR := RCC_APB2ENR r OR 0x4,
          RCC_APB1RSTR := RCC_APB1RSTR r AND NOT 0x1,
          RCC_reset_stores := RCC_reset_stores r @
            [APB1RSTR_store (RCC_APB1RSTR r OR 0x1), APB1RSTR_store (RCC_APB1RSTR r AND NOT 0x1)]\<rparr>) m))) \<and>
   (\<forall>n < 16. pin_config n a = (if n = 1 then 0xB else pin_config n (GPIO m GPIOA))) \<and>
   GPIO_accesses a = GPIO_accesses (GPIO m GPIOA) \<and> GPIO_ODR a = GPIO_ODR (GPIO m GPIOA) \<and>
   GPIO_IDR a = GPIO_IDR (GPIO m GPIOA)"
proof -
  let ?c = "upd_RCC (\<lambda>r. r\<lparr>RCC_APB1ENR := RCC_APB1ENR r OR 0x1, RCC_APB2ENR := RCC_APB2ENR r OR 0x4,
          RCC_APB1RSTR := RCC_APB1RSTR r AND NOT 0x1,
          RCC_reset_stores := RCC_reset_stores r @
            [APB1RSTR_store (RCC_APB1RSTR r OR 0x1), APB1RSTR_store (RCC_APB1RSTR r AND NOT 0x1)]\<rparr>) m"
  have c: "TIM_DeInit TIM2 (RCC_APB2PeriphClockCmd RCC_APB2Periph_GPIOA ENABLE
      (RCC_APB1PeriphClockCmd RCC_APB1Periph_TIM2 ENABLE m)) = ?c"
    by (simp add: apb1_pulse RCC_APB2PeriphClockCmd_def RCC_APB1PeriphClockCmd_def)
  have "bit (GPIO_Pin_1 :: u16) = (\<lambda>n. n = 1)" using bit_one_pin [of 1] by simp
  from af_pin [OF this, of GPIOA ?c] obtain a where a: "GPIO_Init GPIOA \<lparr>GPIO_Pin = GPIO_Pin_1,
      GPIO_Speed = GPIO_Speed_50MHz, GPIO_Mode = GPIO_Mode_AF_PP\<rparr> ?c = upd_GPIO GPIOA (\<lambda>_. a) ?c"
    "\<forall>n < 16. pin_config n a = (if n = 1 then 0xB else pin_config n (GPIO ?c GPIOA))"
    "GPIO_accesses a = GPIO_accesses (GPIO ?c GPIOA)" "GPIO_ODR a = GPIO_ODR (GPIO ?c GPIOA)"
    "GPIO_IDR a = GPIO_IDR (GPIO ?c GPIOA)" by (elim exE conjE) (rule that, assumption+)
  have "TIM2_PWM_Init st so arr psc m = upd_TIM TIM2 (pwm_block 0x81 0 arr psc 990) (upd_GPIO GPIOA (\<lambda>_. a) ?c)"
    for st so unfolding TIM2_PWM_Init_def Let_def c a(1) by (rule pwm_steps_TIM2)
  with a(2-5) show ?thesis by (intro exI [of _ a]) simp
qed

lemma remap_TIM3:
  "GPIO_PinRemapConfig GPIO_PartialRemap_TIM3 ENABLE m =
     Some (upd_AFIO (\<lambda>a. a\<lparr>AFIO_MAPR := (AFIO_MAPR a AND 0xFFFFF3FF) OR 0x0F000800\<rparr>) m)"
proof -
  have "(x AND - 3073) OR - 4043307008 = (x AND 0xFFFFF3FF) OR (0x0F000800 :: u32)" for x
    by (simp add: bits32 bit_simps)
  then show ?thesis
    by (simp add: GPIO_PinRemapConfig_def shl_u32_def upd_AFIO_def Let_def or.assoc)
qed

lemma TIM3_PWM_effect:
  assumes grp: "SCB_AIRCR (SCB m) AND 0x700 = 0x500" and len: "length (NVIC_IP (NVIC m)) = 240"
  shows "\<exists>b. (\<forall>st so. TIM3_PWM_Init st so arr psc m = Some
     (upd_NVIC (\<lambda>n. n\<lparr>NVIC_IP := (NVIC_IP n)[29 := 0x30],
        NVIC_stores := NVIC_stores n @ [ISER_store 0 0x20000000]\<rparr>)
     (upd_TIM TIM3 (pwm_block 0x1 1 arr psc (arr div 2)) (upd_GPIO GPIOB (\<lambda>_. b)
     (upd_AFIO (\<lambda>a. a\<lparr>AFIO_MAPR := (AFIO_MAPR a AND 0xFFFFF3FF) OR 0x0F000800\<rparr>)
       (upd_RCC (\<lambda>r. r\<lparr>RCC_APB1ENR := RCC_APB1ENR r OR 0x2, RCC_APB2ENR := RCC_APB2ENR r OR 0x9\<rparr>) m)))))) \<and>
   (\<forall>n < 16. pin_config n b = (if n = 5 then 0xB else pin_config n (GPIO m GPIOB))) \<and>
   GPIO_accesses b = GPIO_accesses (GPIO m GPIOB) \<and> GPIO_ODR b = GPIO_ODR (GPIO m GPIOB) \<and>
   GPIO_IDR b = GPIO_IDR (GPIO m GPIOB)"
proof -
  let ?r = "upd_RCC (\<lambda>r. r\<lparr>RCC_APB1ENR := RCC_APB1ENR r OR 0x2, RCC_APB2ENR := RCC_APB2ENR r OR 0x9\<rparr>) m"
  let ?c = "upd_AFIO (\<lambda>a. a\<lparr>AFIO_MAPR := (AFIO_MAPR a AND 0xFFFFF3FF) OR 0x0F000800\<rparr>) ?r"
  have r: "RCC_APB2PeriphClockCmd (RCC_APB2Periph_GPIOB OR RCC_APB2Periph_AFIO) ENABLE
      (RCC_APB1PeriphClockCmd RCC_APB1Periph_TIM3 ENABLE m) = ?r"
    by (simp add: RCC_APB2PeriphClockCmd_def RCC_APB1PeriphClockCmd_def upd_RCC_def)
  have "bit (GPIO_Pin_5 :: u16) = (\<lambda>n. n = 5)" using bit_one_pin [of 5] by simp
  from af_pin [OF this, of GPIOB ?c] obtain b where b: "GPIO_Init GPIOB \<lparr>GPIO_Pin = GPIO_Pin_5,
      GPIO_Speed = GPIO_Speed_50MHz, GPIO_Mode = GPIO_Mode_AF_PP\<rparr> ?c = upd_GPIO GPIOB (\<lambda>_. b) ?c"
    "\<forall>n < 16. pin_config n b = (if n = 5 then 0xB else pin_config n (GPIO ?c GPIOB))"
    "GPIO_accesses b = GPIO_accesses (GPIO ?c GPIOB)" "GPIO_ODR b = GPIO_ODR (GPIO ?c GPIOB)"
    "GPIO_IDR b = GPIO_IDR (GPIO ?c GPIOB)" by (elim exE conjE) (rule that, assumption+)
  let ?t = "upd_TIM TIM3 (pwm_block 0x1 1 arr psc (arr div 2)) (upd_GPIO GPIOB (\<lambda>_. b) ?c)"
  let ?ini = "\<lparr>NVIC_IRQChannel = TIM3_IRQn, NVIC_IRQChannelPreemptionPriority = 0,
    NVIC_IRQChannelSubPriority = 3, NVIC_IRQChannelCmd = ENABLE\<rparr>"
  have n: "NVIC_Init ?ini ?t = Some (upd_NVIC (\<lambda>n. n\<lparr>NVIC_IP := (NVIC_IP n)[29 := 0x30],
      NVIC_stores := NVIC_stores n @ [ISER_store 0 0x20000000]\<rparr>) ?t)"
    using nvic_enabled [of ?ini ?t 2] grp len by (simp add: upd_NVIC_def)
  have "TIM3_PWM_Init st so arr psc m = NVIC_Init ?ini ?t" for st so
    unfolding TIM3_PWM_Init_def Let_def r remap_TIM3 Option.bind.bind_lunit b(1) pwm_arr_TIM3
    unfolding TIM_SetCompare2_def pwm_steps_TIM3 ..
  with b(2-5) n show ?thesis by (intro exI [of _ b]) simp
qed

text \<open>
  The camera trigger: whatever the stack held in the fields that \<open>TIM2_PWM_Init\<close> leaves
  uninitialised, TIM2 counts up from 0 to the given period on the given prescaler with preloaded
  period, channel 2 is an enabled active-high output in PWM mode 2 with compare value 990, pin PA1 is
  the alternate-function output and no other pin changes, TIM2 has been reset by a pulse on its
  own line, and the other timers are not touched.
\<close>

theorem trigger_setup:
  assumes "m' = TIM2_PWM_Init st so arr psc m"
  shows "m' = TIM2_PWM_Init st' so' arr psc m \<and>
    TIM_ARR (TIM m' TIM2) = arr \<and> TIM_PSC (TIM m' TIM2) = psc \<and> TIM_CR1 (TIM m' TIM2) AND 0x3F1 = 0x81 \<and>
    oc_view 2 (TIM m' TIM2) = (0x70, 0x1, 990) \<and> bit (TIM_CCMR1 (TIM m' TIM2)) 11 \<and>
    TIM_EGR_stores (TIM m' TIM2) = TIM_EGR_stores (TIM m TIM2) @ [0x0001] \<and>
    (\<forall>p. p \<noteq> TIM2 \<longrightarrow> TIM m' p = TIM m p) \<and>
    (\<forall>p n. n < 16 \<longrightarrow> pin_config n (GPIO m' p) = (if p = GPIOA \<and> n = 1 then 0xB else pin_config n (GPIO m p))) \<and>
    RCC_APB1ENR (RCC m') = RCC_APB1ENR (RCC m) OR 0x1 \<and> RCC_APB2ENR (RCC m') = RCC_APB2ENR (RCC m) OR 0x4 \<and>
    RCC_reset_stores (RCC m') = RCC_reset_stores (RCC m) @ reset_pulse (tim_reset_line TIM2) (RCC m)"
proof -
  from TIM2_PWM_effect [of arr psc m] obtain a where
    a: "\<And>st so. TIM2_PWM_Init st so arr psc m = upd_TIM TIM2 (pwm_block 0x81 0 arr psc 990) (upd_GPIO GPIOA (\<lambda>_. a)
       (upd_RCC (\<lambda>r. r\<lparr>RCC_APB1ENR := RCC_APB1ENR r OR 0x1, RCC_APB2ENR := RCC_APB2ENR r OR 0x4,
          RCC_APB1RSTR := RCC_APB1RSTR r AND NOT 0x1,
          RCC_reset_stores := RCC_reset_stores r @
            [APB1RSTR_store (RCC_APB1RSTR r OR 0x1), APB1RSTR_store (RCC_APB1RSTR r AND NOT 0x1)]\<rparr>) m))"
    and pins: "\<forall>n < 16. pin_config n a = (if n = 1 then 0xB else pin_config n (GPIO m GPIOA))" by blast
  have "pin_config n (GPIO m' p) = (if p = GPIOA \<and> n = 1 then 0xB else pin_config n (GPIO m p))"
    if "n < 16" for p n
    using that pins by (simp add: assms a)
  moreover have "oc_view 2 (TIM m' TIM2) = (0x70, 0x1, 990)"
    by (simp add: assms a oc_view_def pwm_block_def bits16 bit_simps)
  moreover have "TIM_CR1 (TIM m' TIM2) AND 0x3F1 = 0x81" "bit (TIM_CCMR1 (TIM m' TIM2)) 11"
    by (simp_all add: assms a pwm_block_def bits16 bit_simps)
  ultimately show ?thesis
    by (simp add: assms a pwm_block_def reset_pulse_def set_unset_mask)
qed

lemma trigger_setup_witness:
  "TIM_ARR (TIM (TIM2_PWM_Init (TIM_TimeBaseStructInit\<lparr>TIM_RepetitionCounter := 77\<rparr>) TIM_OCStructInit 999 7199 reset_mcu) TIM2) = 999"
  using trigger_setup [OF refl, of "TIM_TimeBaseStructInit\<lparr>TIM_RepetitionCounter := 77\<rparr>" TIM_OCStructInit 999 7199 reset_mcu]
  by blast

text \<open>
  The pulse per second: with two preemption bits and a full priority array \<open>TIM3_PWM_Init\<close>
  succeeds whatever the stack held; TIM3 counts up to the given period on the given prescaler,
  channel 2 is an enabled active-high output in PWM mode 2 whose compare value is half the period,
  its update interrupt is enabled in the timer and in the interrupt controller, pin PB5 carries the
  remapped output, and the other timers, pins and priorities do not change.
\<close>

theorem pps_setup:
  assumes "SCB_AIRCR (SCB m) AND 0x700 = 0x500" and "length (NVIC_IP (NVIC m)) = 240"
  shows "\<exists>m'. (\<forall>st so. TIM3_PWM_Init st so arr psc m = Some m') \<and>
    TIM_ARR (TIM m' TIM3) = arr \<and> TIM_PSC (TIM m' TIM3) = psc \<and> TIM_CR1 (TIM m' TIM3) AND 0x371 = 0x1 \<and>
    oc_view 2 (TIM m' TIM3) = (0x70, 0x1, arr div 2) \<and> bit (TIM_DIER (TIM m' TIM3)) 0 \<and>
    TIM_EGR_stores (TIM m' TIM3) = TIM_EGR_stores (TIM m TIM3) @ [0x0001] \<and>
    (\<forall>p. p \<noteq> TIM3 \<longrightarrow> TIM m' p = TIM m p) \<and>
    (\<forall>p n. n < 16 \<longrightarrow> pin_config n (GPIO m' p) = (if p = GPIOB \<and> n = 5 then 0xB else pin_config n (GPIO m p))) \<and>
    AFIO_MAPR (AFIO m') AND 0xC00 = 0x800 \<and>
    NVIC_stores (NVIC m') = NVIC_stores (NVIC m) @ [ISER_store 0 (push_bit 29 1)] \<and>
    (\<forall>i. i \<noteq> 29 \<longrightarrow> NVIC_IP (NVIC m') ! i = NVIC_IP (NVIC m) ! i)"
proof -
  from TIM3_PWM_effect [OF assms, of arr psc] obtain b where
    b: "\<And>st so. TIM3_PWM_Init st so arr psc m = Some
     (upd_NVIC (\<lambda>n. n\<lparr>NVIC_IP := (NVIC_IP n)[29 := 0x30],
        NVIC_stores := NVIC_stores n @ [ISER_store 0 0x20000000]\<rparr>)
     (upd_TIM TIM3 (pwm_block 0x1 1 arr psc (arr div 2)) (upd_GPIO GPIOB (\<lambda>_. b)
     (upd_AFIO (\<lambda>a. a\<lparr>AFIO_MAPR := (AFIO_MAPR a AND 0xFFFFF3FF) OR 0x0F000800\<rparr>)
       (upd_RCC (\<lambda>r. r\<lparr>RCC_APB1ENR := RCC_APB1ENR r OR 0x2, RCC_APB2ENR := RCC_APB2ENR r OR 0x9\<rparr>) m)))))"
      (is "\<And>st so. _ = Some ?m")
    and pins: "\<forall>n < 16. pin_config n b = (if n = 5 then 0xB else pin_config n (GPIO m GPIOB))" by blast
  have "pin_config n (GPIO ?m p) = (if p = GPIOB \<and> n = 5 then 0xB else pin_config n (GPIO m p))"
    if "n < 16" for p n
    using that pins by simp
  moreover have "oc_view 2 (TIM ?m TIM3) = (0x70, 0x1, arr div 2)"
    by (simp add: oc_view_def pwm_block_def bits16 bit_simps)
  moreover have "TIM_CR1 (TIM ?m TIM3) AND 0x371 = 0x1" "bit (TIM_DIER (TIM ?m TIM3)) 0"
    by (simp_all add: pwm_block_def bits16 bit_simps)
  moreover have "AFIO_MAPR (AFIO ?m) AND 0xC00 = 0x800" by (simp add: bits32 bit_simps)
  ultimately show ?thesis by (intro exI [of _ ?m]) (simp add: b pwm_block_def)
qed

lemma pps_setup_witness:
  "\<exists>m'. TIM3_PWM_Init TIM_TimeBaseStructInit TIM_OCStructInit 9999 7199
     (NVIC_PriorityGroupConfig NVIC_PriorityGroup_2 reset_mcu) = Some m' \<and> TIM_ARR (TIM m' TIM3) = 9999"
proof -
  let ?m = "NVIC_PriorityGroupConfig NVIC_PriorityGroup_2 reset_mcu"
  have "SCB_AIRCR (SCB ?m) AND 0x700 = 0x500" "length (NVIC_IP (NVIC ?m)) = 240"
    by (simp_all add: NVIC_PriorityGroupConfig_def)
  from pps_setup [OF this, of 9999 7199] show ?thesis by blast
qed

end
