(* ===== verification/Firmware.thy ===== *)
theory Firmware
  imports Led_Key Timer System_Clock Tim_Input
begin

text \<open>
  The program: start-up in \<open>USER/main.c\<close>, the exception handlers of \<open>USER/stm32f10x_it.c\<close>, and
  the running system, which is the endless loop of \<open>main\<close> interrupted by the two handlers.
\<close>

section \<open>Start-up\<close>

text \<open>\<open>main\<close> up to its endless loop; the arguments are the stack contents that the two timer
  initialisations find in their uninitialised structures.\<close>

record stack_contents =
  stack_tb2 :: TIM_TimeBaseInitTypeDef
  stack_oc2 :: TIM_OCInitTypeDef
  stack_tb3 :: TIM_TimeBaseInitTypeDef
  stack_oc3 :: TIM_OCInitTypeDef

definition main_init :: "stack_contents \<Rightarrow> firmware \<Rightarrow> firmware option" where
  "main_init stk s =
     (let s = delay_init s;
          s = NVIC_PriorityGroupConfig NVIC_PriorityGroup_2 s
      in do {
        s \<leftarrow> uart_init 9600 s;
        let s = LED_Init s;
        let s = TIM2_PWM_Init (stack_tb2 stk) (stack_oc2 stk) 999 7199 s;
        TIM3_PWM_Init (stack_tb3 stk) (stack_oc3 stk) 9999 7199 s
      })"

section \<open>Exceptions\<close>

datatype exception_type = NMI | HardFault | MemManage | BusFault | UsageFault | SVC | DebugMon | PendSV | SysTickIrq

fun exception_handler :: "exception_type \<Rightarrow> (firmware \<Rightarrow> firmware) \<Rightarrow> firmware \<Rightarrow> firmware option" where
  "exception_handler NMI tick s = Some s"
| "exception_handler HardFault tick s = wait_while tick (\<lambda>_. True) s"
| "exception_handler MemManage tick s = wait_while tick (\<lambda>_. True) s"
| "exception_handler BusFault tick s = wait_while tick (\<lambda>_. True) s"
| "exception_handler UsageFault tick s = wait_while tick (\<lambda>_. True) s"
| "exception_handler SVC tick s = Some s"
| "exception_handler DebugMon tick s = Some s"
| "exception_handler PendSV tick s = Some s"
| "exception_handler SysTickIrq tick s = Some s"

section \<open>The running system\<close>

text \<open>What the peripherals announce: the update event of TIM3 and a byte received by USART1.\<close>

datatype event = Update | Byte u8

fun raise_event :: "event \<Rightarrow> firmware \<Rightarrow> firmware" where
  "raise_event Update s = upd_TIM TIM3 (\<lambda>t. t\<lparr>TIM_SR := TIM_SR t OR TIM_IT_Update\<rparr>) s"
| "raise_event (Byte c) s =
     upd_USART USART1 (\<lambda>u. u\<lparr>USART_DR := ucast c, USART_SR := USART_SR u OR USART_FLAG_RXNE\<rparr>) s"

text \<open>Reading \<open>DR\<close> takes the byte: \<open>RXNE\<close> falls.\<close>

definition rx_taken :: "firmware \<Rightarrow> firmware" where
  "rx_taken = upd_USART USART1 (\<lambda>u. u\<lparr>USART_SR := USART_SR u AND NOT USART_FLAG_RXNE\<rparr>)"

text \<open>One step of the system: an event and the run of its handler.\<close>

inductive fw_step ::
  "(u16 \<Rightarrow> u16 \<Rightarrow> u16) \<Rightarrow> (firmware \<Rightarrow> firmware) \<Rightarrow> firmware \<Rightarrow> event \<Rightarrow> firmware \<Rightarrow> bool"
  for sr_store tick where
  update: "TIM3_IRQHandler sr_store tick (raise_event Update s) = Some t \<Longrightarrow> fw_step sr_store tick s Update t"
| byte: "USART1_IRQHandler (raise_event (Byte c) s) = Some t \<Longrightarrow> fw_step sr_store tick s (Byte c) (rx_taken t)"

inductive_cases fw_step_updateE: "fw_step sr_store tick s Update t"
inductive_cases fw_step_byteE: "fw_step sr_store tick s (Byte c) t"

text \<open>The runs of the system.\<close>

definition fw_run ::
  "(u16 \<Rightarrow> u16 \<Rightarrow> u16) \<Rightarrow> (firmware \<Rightarrow> firmware) \<Rightarrow> firmware \<Rightarrow> event list \<Rightarrow> firmware \<Rightarrow> bool" where
  "fw_run sr_store tick = steps (fw_step sr_store tick)"

section \<open>Properties of the operations\<close>

section \<open>What the system does\<close>

text \<open>
  The abstract machine: the time of day in seconds, the line being received, and all that has been
  transmitted.
\<close>

declare raise_event.simps [simp del]

type_synonym board_view = "int \<times> rx_line \<times> u16 list"

fun board_step :: "event \<Rightarrow> board_view \<Rightarrow> board_view" where
  "board_step Update (t, l, out) =
     (let t' = (t + 1) mod 86400 in (t', l, out @ List.map ucast (nmea_sentence t')))"
| "board_step (Byte c) (t, l, out) = (t, rx_step c l, out)"

definition fw_view :: "firmware \<Rightarrow> board_view" where
  "fw_view s = (seconds s, rx_abs s, console_log s)"

definition fw_inv :: "firmware \<Rightarrow> bool" where
  "fw_inv s \<longleftrightarrow> buffers_ok s \<and> clock_inv s \<and> rx_inv s \<and> bit (USART_CR1 (USART s USART1)) 5"

text \<open>The hardware between two reads of the console's status leaves its configuration alone.\<close>

definition board_hardware :: "(firmware \<Rightarrow> firmware) \<Rightarrow> bool" where
  "board_hardware tick \<longleftrightarrow> console_port tick \<and>
     (\<forall>s. USART_CR1 (USART (tick s) USART1) = USART_CR1 (USART s USART1))"

abbreviation cr1 :: "firmware \<Rightarrow> u16" where
  "cr1 s \<equiv> USART_CR1 (USART s USART1)"

lemma uart_putc_cr1:
  assumes "board_hardware tick" and "uart_putc tick c s = Some t"
  shows "cr1 t = cr1 s"
proof -
  obtain a where a: "wait_while tick (\<lambda>m. USART_SR (USART m USART1) AND 0x40 = 0) s = Some a"
    and t: "t = upd_USART USART1 (\<lambda>u. u\<lparr>USART_DR_stores := USART_DR_stores u @ [ucast c]\<rparr>) a"
    using assms(2) by (auto simp: uart_putc_def bind_eq_Some_conv)
  obtain k where k: "a = (tick ^^ k) s" using wait_while_SomeD [OF a] by blast
  have "cr1 ((tick ^^ k) s) = cr1 s" using assms(1) by (induction k) (simp_all add: board_hardware_def)
  then show ?thesis by (simp add: t k)
qed

lemma write_loop_cr1:
  assumes "board_hardware tick" and "write_loop tick cs s = Some t"
  shows "cr1 t = cr1 s"
  using assms(2)
proof (induction cs arbitrary: s)
  case Nil
  then show ?case by simp
next
  case (Cons c cs)
  then obtain a where "uart_putc tick c s = Some a" "write_loop tick cs a = Some t"
    by (auto simp: bind_eq_Some_conv)
  with Cons.IH uart_putc_cr1 [OF assms(1)] show ?case by metis
qed

lemma checkNum_cr1: "checkNum ctx s = Some (n, t) \<Longrightarrow> cr1 t = cr1 s"
  by (auto simp: checkNum_def bind_eq_Some_conv Let_def split: option.splits if_splits)

lemma update_cr1:
  assumes "board_hardware tick" and "TIM3_IRQHandler sr_store tick s = Some t"
  shows "cr1 t = cr1 s"
proof -
  obtain a where a: "pps_interrupt sr_store s = Some a" "USART a = USART s" using pps_interrupt_more by blast
  with assms(2) have "gprmc_output tick (clock_step a) = Some t" by (simp add: TIM3_IRQHandler_def)
  moreover have "cr1 t = cr1 b" if "gprmc_output tick b = Some t" for b
    using that
    by (auto simp: gprmc_output_def bind_eq_Some_conv Let_def
        dest!: write_loop_cr1 [OF assms(1)] checkNum_cr1)
  ultimately show ?thesis using a(2) by (simp add: clock_step_frame)
qed

lemma rx_frame:
  assumes "USART1_IRQHandler s = Some t"
  shows "\<exists>b v. t = s\<lparr>USART_RX_BUF := b, USART_RX_STA := v\<rparr>"
proof -
  have id: "\<exists>b v. s = s\<lparr>USART_RX_BUF := b, USART_RX_STA := v\<rparr>" for s :: firmware
    by (intro exI [of _ "USART_RX_BUF s"] exI [of _ "USART_RX_STA s"]) simp
  have st: "\<exists>b v. s\<lparr>USART_RX_STA := w\<rparr> = s\<lparr>USART_RX_BUF := b, USART_RX_STA := v\<rparr>" for s :: firmware and w
    by (intro exI [of _ "USART_RX_BUF s"] exI [of _ w]) simp
  have bf: "\<exists>b v. s\<lparr>USART_RX_BUF := c, USART_RX_STA := w\<rparr> = s\<lparr>USART_RX_BUF := b, USART_RX_STA := v\<rparr>"
    for s :: firmware and c w by blast
  show ?thesis
    using assms id st bf
    by (auto simp: USART1_IRQHandler_def rx_buf_store_def bind_eq_Some_conv Let_def split: if_splits)
qed

text \<open>An event changes only the registers of its peripheral.\<close>

lemma raise_event_more: "mcu.more (raise_event e s) = mcu.more s"
  by (cases e) (simp_all add: raise_event.simps)

lemma rx_taken_more: "mcu.more (rx_taken s) = mcu.more s"
  by (simp add: rx_taken_def)

lemma view_cong:
  assumes "mcu.more a = mcu.more b"
  shows "seconds a = seconds b" "clock_inv a = clock_inv b" "rx_abs a = rx_abs b" "rx_inv a = rx_inv b"
    "buffers_ok a = buffers_ok b"
  using globals_cong [OF assms]
  by (simp_all add: seconds_def clock_inv_def rx_abs_def rx_inv_def buffers_ok_def Let_def cong: if_cong)

lemma event_console:
  "console_log (raise_event e s) = console_log s" "console_log (rx_taken s) = console_log s"
  "cr1 (raise_event e s) = cr1 s" "cr1 (rx_taken s) = cr1 s"
  by (cases e; simp add: console_log_def rx_taken_def raise_event.simps)+

lemma update_step:
  assumes hw: "board_hardware tick" and inv: "fw_inv s"
  shows "\<exists>t. TIM3_IRQHandler sr_store tick (raise_event Update s) = Some t \<and> fw_inv t \<and>
    fw_view t = board_step Update (fw_view s)"
proof -
  let ?r = "raise_event Update s"
  note vc = view_cong [OF raise_event_more [of Update s]] and g = globals_cong [OF raise_event_more [of Update s]]
  have pre: "buffers_ok ?r" "clock_inv ?r" "console_port tick"
    using hw inv by (simp_all add: fw_inv_def board_hardware_def vc)
  from handler_prints [OF pre, of sr_store] obtain t where t: "TIM3_IRQHandler sr_store tick ?r = Some t"
    "seconds t = (seconds ?r + 1) mod 86400" "clock_inv t"
    "console_log t = console_log ?r @ List.map ucast (nmea_sentence ((seconds ?r + 1) mod 86400))"
    "buffers_ok t" "USART_RX_BUF t = USART_RX_BUF ?r" "USART_RX_STA t = USART_RX_STA ?r" by blast
  have "rx_abs t = rx_abs s" "rx_inv t = rx_inv s"
    using t(6,7) g by (simp_all add: rx_abs_def rx_inv_def Let_def cong: if_cong)
  moreover have "cr1 t = cr1 s" using update_cr1 [OF hw t(1)] by (simp add: event_console)
  ultimately show ?thesis
    using t inv by (simp add: fw_inv_def fw_view_def vc event_console Let_def)
qed

lemma byte_step:
  assumes "fw_inv s"
  shows "\<exists>t. USART1_IRQHandler (raise_event (Byte c) s) = Some t \<and> fw_inv (rx_taken t) \<and>
    fw_view (rx_taken t) = board_step (Byte c) (fw_view s)"
proof -
  let ?r = "raise_event (Byte c) s"
  note vc = view_cong [OF raise_event_more [of "Byte c" s]]
  have rdr: "ucast (USART_ReceiveData USART1 ?r) = c"
    by (simp add: USART_ReceiveData_def raise_event.simps bits8 bit_simps)
  have "bit (USART_SR (USART ?r USART1)) 5" by (simp add: raise_event.simps bit_simps)
  then have "rx_pending c ?r"
    using assms rdr by (simp add: rx_pending_def fw_inv_def event_console)
  moreover have "rx_inv ?r" using assms by (simp add: vc fw_inv_def)
  ultimately obtain t where t: "USART1_IRQHandler ?r = Some t" "rx_inv t" "rx_abs t = rx_step c (rx_abs ?r)"
    "mcu.truncate t = mcu.truncate ?r" using rx_handler_refines by blast
  from rx_frame [OF t(1)] obtain b v where f: "t = ?r\<lparr>USART_RX_BUF := b, USART_RX_STA := v\<rparr>" by blast
  have "seconds t = seconds ?r" "clock_inv t = clock_inv ?r" "buffers_ok t = buffers_ok ?r"
    "console_log t = console_log ?r" "cr1 t = cr1 ?r"
    by (simp_all add: f seconds_def clock_inv_def buffers_ok_def console_log_def)
  with t(1-3) assms vc view_cong [OF rx_taken_more [of t]] show ?thesis
    by (auto simp add: fw_inv_def fw_view_def event_console)
qed

interpretation fw: simulation "fw_step sr_store tick" board_step fw_view "\<lambda>s. board_hardware tick \<and> fw_inv s"
  for sr_store tick
proof
  fix s e assume inv: "board_hardware tick \<and> fw_inv s"
  show "\<exists>t. fw_step sr_store tick s e t"
  proof (cases e)
    case Update
    then show ?thesis using update_step inv by (blast intro: fw_step.update)
  next
    case (Byte c)
    then show ?thesis using byte_step inv by (blast intro: fw_step.byte)
  qed
next
  fix s e t assume inv: "board_hardware tick \<and> fw_inv s" and st: "fw_step sr_store tick s e t"
  have "fw_inv t \<and> fw_view t = board_step e (fw_view s)"
    using st
  proof cases
    case update
    then show ?thesis using update_step [of tick s sr_store] inv by auto
  next
    case (byte c u)
    then show ?thesis using byte_step [of s c] inv by auto
  qed
  then show "board_hardware tick \<and> fw_inv t" and "fw_view t = board_step e (fw_view s)" using inv by auto
qed

section \<open>Runs of the system\<close>

fun event_bytes :: "event list \<Rightarrow> u8 list" where
  "event_bytes [] = []"
| "event_bytes (Update # es) = event_bytes es"
| "event_bytes (Byte c # es) = c # event_bytes es"

fun event_updates :: "event list \<Rightarrow> nat" where
  "event_updates [] = 0"
| "event_updates (Update # es) = Suc (event_updates es)"
| "event_updates (Byte c # es) = event_updates es"

text \<open>The sentences of the \<open>n\<close> seconds that follow second \<open>t\<close>.\<close>

definition sentences_after :: "int \<Rightarrow> nat \<Rightarrow> u8 list" where
  "sentences_after t n = concat (List.map (\<lambda>k. nmea_sentence ((t + 1 + int k) mod 86400)) [0..<n])"

lemma sentences_Suc:
  "sentences_after t (Suc n) = nmea_sentence ((t + 1) mod 86400) @ sentences_after ((t + 1) mod 86400) n"
proof -
  have "[0..<Suc n] = 0 # List.map Suc [0..<n]" by (simp add: map_Suc_upt upt_conv_Cons)
  moreover have "((t + 1) mod 86400 + 1 + int k) mod 86400 = (t + 1 + int (Suc k)) mod 86400" for k
    using mod_add_left_eq [of "t + 1" 86400 "1 + int k"] by (simp only: add.assoc of_nat_Suc)
  ultimately show ?thesis by (simp add: sentences_after_def o_def del: upt_Suc)
qed

lemma board_run:
  "0 \<le> t \<Longrightarrow> t < 86400 \<Longrightarrow> fold board_step es (t, l, out) =
     ((t + int (event_updates es)) mod 86400, fold rx_step (event_bytes es) l,
      out @ List.map ucast (sentences_after t (event_updates es)))"
proof (induction es arbitrary: t l out rule: event_bytes.induct)
  case 1
  then show ?case by (simp add: sentences_after_def)
next
  case (2 es)
  then show ?case by (simp add: sentences_Suc mod_simps ac_simps Let_def)
next
  case (3 c es)
  then show ?case by simp
qed

text \<open>
  C35. The running system never gets stuck: from a state that satisfies the invariant, with hardware
  that keeps the console's configuration and makes its transmitter ready again, every sequence of timer
  updates and received bytes, in any order, is served to its end, and the invariant holds there.
\<close>

theorem system_never_stuck:
  assumes "fw_inv s" and "board_hardware tick"
  shows "\<exists>t. fw_run sr_store tick s es t \<and> fw_inv t"
  using fw.run_exists [of tick s sr_store es] fw.run_inv [of sr_store tick s es] assms
  by (auto simp: fw_run_def)

text \<open>
  C3. What a run shows to the outside: after any interleaving of updates and bytes the clock is ahead
  by the number of updates modulo a day, the line being received is what the receiver makes of the
  bytes alone, and what has been transmitted is one NMEA sentence per update, each with the time of
  its update, in order.
\<close>

theorem system_refines:
  assumes "fw_run sr_store tick s es t" and "fw_inv s" and "board_hardware tick"
  shows "seconds t = (seconds s + int (event_updates es)) mod 86400 \<and>
    rx_abs t = fold rx_step (event_bytes es) (rx_abs s) \<and>
    console_log t = console_log s @ List.map ucast (sentences_after (seconds s) (event_updates es))"
proof -
  have "fw_view t = fold board_step es (fw_view s)"
    using fw.run_abs [of sr_store tick s es t] assms by (simp add: fw_run_def)
  then show ?thesis
    using seconds_range assms(2) by (simp add: fw_view_def fw_inv_def board_run)
qed

lemma rx_collects:
  "13 \<notin> set l \<Longrightarrow> length p + length l \<le> 199 \<Longrightarrow> fold rx_step l (Collecting p) = Collecting (p @ l)"
  by (induction l arbitrary: p) auto

text \<open>
  A line arrives: a line of at most 199 bytes without a carriage return, followed by CR LF, is
  complete in the receiver, whatever updates happen between its bytes and whatever bytes follow it.
\<close>

theorem line_received:
  assumes "fw_run sr_store tick s es t" and "fw_inv s" and "board_hardware tick"
    and "rx_abs s = Collecting []" and "event_bytes es = l @ [13, 10] @ rest"
    and "13 \<notin> set l" and "length l \<le> 199"
  shows "rx_abs t = Complete l"
proof -
  have "fw_view t = fold board_step es (fw_view s)"
    using fw.run_abs [of sr_store tick s es t] assms(1-3) by (simp add: fw_run_def)
  then have "rx_abs t = fold rx_step (l @ [13, 10] @ rest) (Collecting [])"
    using seconds_range assms(2,4,5) by (simp add: fw_view_def fw_inv_def board_run)
  moreover have "fold rx_step bs (Complete l) = Complete l" for bs by (induction bs) simp_all
  ultimately show ?thesis using rx_collects [OF assms(6), of "[]"] assms(7) by simp
qed

text \<open>A concrete board: the device after reset with the receive interrupt on, and an idle console.\<close>

definition example_board :: firmware where
  "example_board = upd_USART USART1 (\<lambda>u. u\<lparr>USART_CR1 := 0x202C\<rparr>) (reset_firmware [0] [0])"

lemma example_board_ok:
  "fw_inv example_board" "board_hardware ready_port" "rx_abs example_board = Collecting []"
proof -
  have m: "mcu.more example_board = mcu.more (reset_firmware [0] [0])" by (simp add: example_board_def)
  show "rx_abs example_board = Collecting []"
    unfolding view_cong(3) [OF m] by (simp add: rx_abs_def)
  have "rx_inv (reset_firmware [0] [0])" by (simp add: rx_inv_def)
  then show "fw_inv example_board"
    using reset_buffers by (simp add: fw_inv_def view_cong [OF m]) (simp add: example_board_def bit_simps)
  show "board_hardware ready_port"
    using ready_port_console by (simp add: board_hardware_def ready_port_def)
qed

lemma system_never_stuck_witness:
  "\<exists>t. fw_run (AND) ready_port example_board [Byte 65, Update, Byte 13, Byte 10] t"
  using system_never_stuck [OF example_board_ok(1,2), of "(AND)" "[Byte 65, Update, Byte 13, Byte 10]"] by blast

lemma example_run: "\<exists>t. fw_run (AND) ready_port example_board es t"
  using fw.run_exists [of ready_port example_board "(AND)" es] example_board_ok(1,2) by (auto simp: fw_run_def)

lemma system_refines_witness:
  "\<exists>t. fw_run (AND) ready_port example_board [Update, Byte 65, Update] t \<and> seconds t = 2"
proof -
  obtain t where t: "fw_run (AND) ready_port example_board [Update, Byte 65, Update] t"
    using example_run by blast
  have "seconds example_board = seconds (reset_firmware [0] [0])"
    by (rule view_cong) (simp add: example_board_def)
  then have "seconds example_board = 0" by (simp add: seconds_def)
  with system_refines [OF t example_board_ok(1,2)] t show ?thesis by auto
qed

lemma line_received_witness:
  "\<exists>t. fw_run (AND) ready_port example_board [Byte 65, Update, Byte 13, Byte 10] t \<and> rx_abs t = Complete [65]"
proof -
  obtain t where t: "fw_run (AND) ready_port example_board [Byte 65, Update, Byte 13, Byte 10] t"
    using example_run by blast
  from line_received [OF t example_board_ok, of "[65]" "[]"] t show ?thesis by auto
qed

section \<open>From reset to the running system\<close>

lemma console_upd:
  "console_log (upd_GPIO p f m) = console_log m" "console_log (upd_RCC g m) = console_log m"
  "console_log (upd_TIM q h m) = console_log m" "console_log (upd_AFIO k m) = console_log m"
  "console_log (upd_NVIC l m) = console_log m" "console_log (upd_SCB j m) = console_log m"
  "console_log (upd_SysTick i m) = console_log m"
  by (simp_all add: console_log_def)

lemma delay_init_72:
  assumes "SystemCoreClock s = 72000000"
  shows "delay_init s = upd_SysTick (\<lambda>t. t\<lparr>SysTick_CTRL := SysTick_CTRL t AND 0xFFFFFFFB\<rparr>) s\<lparr>fac_us := 9, fac_ms := 9000\<rparr>"
  using assms by (simp add: delay_init_def SysTick_CLKSourceConfig_def upd_SysTick_def Let_def)

lemma clocks_same_cfgr:
  "RCC_CFGR (RCC a) = RCC_CFGR (RCC b) \<Longrightarrow> RCC_GetClocksFreq a = RCC_GetClocksFreq b"
  by (simp add: RCC_GetClocksFreq_def Let_def)

text \<open>The state after \<open>main\<close>'s initialisation, block by block.\<close>

lemma main_init_effect:
  fixes s :: firmware
  assumes clk: "PCLK2_Frequency (RCC_GetClocksFreq s) = 72000000" and core: "SystemCoreClock s = 72000000"
    and over8: "\<not> bit (cr1 s) 15" and len: "length (NVIC_IP (NVIC s)) = 240"
  shows "\<exists>t. (\<forall>stk. main_init stk s = Some t) \<and>
    TIM t = (TIM s)(TIM2 := pwm_block 0x81 0 999 7199 990 (TIM s TIM2), TIM3 := pwm_block 0x1 1 9999 7199 4999 (TIM s TIM3)) \<and>
    USART t = (USART s)(USART1 := (USART s USART1)\<lparr>USART_CR2 := USART_CR2 (USART s USART1) AND 0xCFFF,
      USART_CR3 := USART_CR3 (USART s USART1) AND 0xFCFF, USART_BRR := 7500,
      USART_CR1 := (cr1 s AND 0xE9F3) OR 0x202C\<rparr>) \<and>
    NVIC t = \<lparr>NVIC_IP = (NVIC_IP (NVIC s))[37 := 0xF0, 29 := 0x30],
      NVIC_stores = NVIC_stores (NVIC s) @ [ISER_store 1 0x20, ISER_store 0 0x20000000]\<rparr> \<and>
    RCC_CFGR (RCC t) = RCC_CFGR (RCC s) \<and>
    RCC_APB2ENR (RCC t) = RCC_APB2ENR (RCC s) OR 0x401D \<and> RCC_APB1ENR (RCC t) = RCC_APB1ENR (RCC s) OR 0x3 \<and>
    mcu.more t = mcu.more (s\<lparr>fac_us := 9, fac_ms := 9000\<rparr>) \<and>
    (\<forall>p n. n < 16 \<longrightarrow> pin_config n (GPIO t p) =
      (if p = GPIOA \<and> (n = 1 \<or> n = 9) \<or> p = GPIOB \<and> n = 5 then 0xB
       else if p = GPIOA \<and> n = 10 then 0x4 else if p = GPIOC \<and> n = 13 then 0x3
       else pin_config n (GPIO s p)))"
proof -
  let ?d = "upd_SysTick (\<lambda>t. t\<lparr>SysTick_CTRL := SysTick_CTRL t AND 0xFFFFFFFB\<rparr>) s\<lparr>fac_us := 9, fac_ms := 9000\<rparr>"
  define m1 where "m1 = upd_SCB (\<lambda>b. b\<lparr>SCB_AIRCR := 0x05FA0500\<rparr>) ?d"
  have m1: "NVIC_PriorityGroupConfig NVIC_PriorityGroup_2 (delay_init s) = m1"
    by (simp add: delay_init_72 [OF core] m1_def NVIC_PriorityGroupConfig_def)
  have m1_sel: "TIM m1 = TIM s" "USART m1 = USART s" "GPIO m1 = GPIO s" "NVIC m1 = NVIC s" "RCC m1 = RCC s"
    "AFIO m1 = AFIO s" "SCB_AIRCR (SCB m1) = 0x05FA0500" "mcu.more m1 = mcu.more (s\<lparr>fac_us := 9, fac_ms := 9000\<rparr>)"
    by (simp_all add: m1_def upd_SysTick_def) (cases s; simp add: upd_SysTick_def)
  have p1: "PCLK2_Frequency (RCC_GetClocksFreq m1) = 72000000"
    using clk clocks_same_cfgr [of m1 s] m1_sel(5) by simp
  have p2: "\<not> bit (USART_CR1 (USART m1 USART1)) 15" and p3: "SCB_AIRCR (SCB m1) AND 0x700 = 0x500"
    and p4: "length (NVIC_IP (NVIC m1)) = 240" using over8 len m1_sel by simp_all
  from uart_init_9600 [OF p1 p2 p3 p4] obtain a where
    a: "uart_init 9600 m1 = Some
     (upd_USART USART1 (\<lambda>u. u\<lparr>USART_CR2 := USART_CR2 u AND 0xCFFF, USART_CR3 := USART_CR3 u AND 0xFCFF,
        USART_BRR := 7500, USART_CR1 := (USART_CR1 u AND 0xE9F3) OR 0x202C\<rparr>)
     (upd_NVIC (\<lambda>n. n\<lparr>NVIC_IP := (NVIC_IP n)[37 := 0xF0], NVIC_stores := NVIC_stores n @ [ISER_store 1 0x20]\<rparr>)
     (upd_GPIO GPIOA (\<lambda>_. a)
     (upd_RCC (\<lambda>r. r\<lparr>RCC_APB2ENR := RCC_APB2ENR r OR 0x4004\<rparr>) m1))))" (is "_ = Some ?m2")
    and ap: "\<forall>n < 16. pin_config n a = (if n = 9 then 0xB else if n = 10 then 0x4 else pin_config n (GPIO m1 GPIOA))"
    by blast
  from LED_Init_effect [of ?m2] obtain c where
    c: "LED_Init ?m2 = upd_GPIO GPIOC (\<lambda>_. c) (upd_RCC (\<lambda>r. r\<lparr>RCC_APB2ENR := RCC_APB2ENR r OR 0x18\<rparr>) ?m2)" (is "_ = ?m3")
    and cp: "\<forall>n < 16. pin_config n c = (if n = 13 then 0x3 else pin_config n (GPIO ?m2 GPIOC))" by blast
  from TIM2_PWM_effect [of 999 7199 ?m3] obtain e where
    e: "\<And>st so. TIM2_PWM_Init st so 999 7199 ?m3 =
     upd_TIM TIM2 (pwm_block 0x81 0 999 7199 990) (upd_GPIO GPIOA (\<lambda>_. e)
       (upd_RCC (\<lambda>r. r\<lparr>RCC_APB1ENR := RCC_APB1ENR r OR 0x1, RCC_APB2ENR := RCC_APB2ENR r OR 0x4,
          RCC_APB1RSTR := RCC_APB1RSTR r AND NOT 0x1,
          RCC_reset_stores := RCC_reset_stores r @
            [APB1RSTR_store (RCC_APB1RSTR r OR 0x1), APB1RSTR_store (RCC_APB1RSTR r AND NOT 0x1)]\<rparr>) ?m3))"
      (is "\<And>st so. _ = ?m4")
    and ep: "\<forall>n < 16. pin_config n e = (if n = 1 then 0xB else pin_config n (GPIO ?m3 GPIOA))" by blast
  have q1: "SCB_AIRCR (SCB ?m4) AND 0x700 = 0x500" and q2: "length (NVIC_IP (NVIC ?m4)) = 240"
    using p3 p4 by simp_all
  from TIM3_PWM_effect [OF q1 q2, of 9999 7199] obtain b where
    b: "\<And>st so. TIM3_PWM_Init st so 9999 7199 ?m4 = Some
     (upd_NVIC (\<lambda>n. n\<lparr>NVIC_IP := (NVIC_IP n)[29 := 0x30],
        NVIC_stores := NVIC_stores n @ [ISER_store 0 0x20000000]\<rparr>)
     (upd_TIM TIM3 (pwm_block 0x1 1 9999 7199 (9999 div 2)) (upd_GPIO GPIOB (\<lambda>_. b)
     (upd_AFIO (\<lambda>a. a\<lparr>AFIO_MAPR := (AFIO_MAPR a AND 0xFFFFF3FF) OR 0x0F000800\<rparr>)
       (upd_RCC (\<lambda>r. r\<lparr>RCC_APB1ENR := RCC_APB1ENR r OR 0x2, RCC_APB2ENR := RCC_APB2ENR r OR 0x9\<rparr>) ?m4)))))"
      (is "\<And>st so. _ = Some ?t")
    and bp: "\<forall>n < 16. pin_config n b = (if n = 5 then 0xB else pin_config n (GPIO ?m4 GPIOB))" by blast
  have run: "main_init stk s = Some ?t" for stk
    unfolding main_init_def Let_def m1 a Option.bind.bind_lunit c e b ..
  have "TIM ?t = (TIM s)(TIM2 := pwm_block 0x81 0 999 7199 990 (TIM s TIM2), TIM3 := pwm_block 0x1 1 9999 7199 4999 (TIM s TIM3))"
    by (simp add: fun_eq_iff m1_sel)
  moreover have "USART ?t = (USART s)(USART1 := (USART s USART1)\<lparr>USART_CR2 := USART_CR2 (USART s USART1) AND 0xCFFF,
      USART_CR3 := USART_CR3 (USART s USART1) AND 0xFCFF, USART_BRR := 7500,
      USART_CR1 := (cr1 s AND 0xE9F3) OR 0x202C\<rparr>)"
    by (simp add: fun_eq_iff m1_sel)
  moreover have "NVIC ?t = \<lparr>NVIC_IP = (NVIC_IP (NVIC s))[37 := 0xF0, 29 := 0x30],
      NVIC_stores = NVIC_stores (NVIC s) @ [ISER_store 1 0x20, ISER_store 0 0x20000000]\<rparr>"
    by (simp add: m1_sel)
  moreover have "RCC_CFGR (RCC ?t) = RCC_CFGR (RCC s)" by (simp add: m1_sel)
  moreover have "RCC_APB2ENR (RCC ?t) = RCC_APB2ENR (RCC s) OR 0x401D" "RCC_APB1ENR (RCC ?t) = RCC_APB1ENR (RCC s) OR 0x3"
    by (simp_all add: m1_sel or.assoc)
  moreover have "mcu.more ?t = mcu.more (s\<lparr>fac_us := 9, fac_ms := 9000\<rparr>)" by (simp add: m1_sel(8))
  moreover have "pin_config n (GPIO ?t p) =
      (if p = GPIOA \<and> (n = 1 \<or> n = 9) \<or> p = GPIOB \<and> n = 5 then 0xB
       else if p = GPIOA \<and> n = 10 then 0x4 else if p = GPIOC \<and> n = 13 then 0x3
       else pin_config n (GPIO s p))" if "n < 16" for p n
    using that ap cp ep bp by (cases p) (simp_all add: m1_sel)
  ultimately show ?thesis using run by (intro exI [of _ ?t]) blast
qed

text \<open>The clock of the timers on APB1: the bus clock, doubled when the bus is divided (reference manual).\<close>

definition apb1_timer_hz :: "'a mcu_scheme \<Rightarrow> nat" where
  "apb1_timer_hz m =
     (let f = RCC_GetClocksFreq m
      in if PCLK1_Frequency f = HCLK_Frequency f then unat (PCLK1_Frequency f) else 2 * unat (PCLK1_Frequency f))"

text \<open>Counts per period of a timer: prescaler times reload, each plus one.\<close>

definition timer_period :: "TIM_TypeDef \<Rightarrow> nat" where
  "timer_period t = (unat (TIM_PSC t) + 1) * (unat (TIM_ARR t) + 1)"

text \<open>
  The initialisation of \<open>main\<close>, on a device that runs at 72 MHz: whatever the stack held, it ends in
  the same state, in which TIM2 and TIM3 count with channel 2 as a PWM output, the console runs at
  divider 7500 with its receive interrupt on, the interrupts of USART1 and TIM3 are enabled with
  their priorities, a millisecond is 9000 SysTick counts, and exactly the pins PA1, PA9, PA10, PB5
  and PC13 are configured. The clock of port E, whose pin 5 the interrupt toggles, is not enabled.
\<close>

theorem main_init_state:
  fixes s :: firmware
  assumes "PCLK2_Frequency (RCC_GetClocksFreq s) = 72000000" and "SystemCoreClock s = 72000000"
    and "\<not> bit (USART_CR1 (USART s USART1)) 15" and "length (NVIC_IP (NVIC s)) = 240"
  shows "\<exists>t. (\<forall>stk. main_init stk s = Some t) \<and>
    TIM_ARR (TIM t TIM2) = 999 \<and> TIM_PSC (TIM t TIM2) = 7199 \<and> bit (TIM_CR1 (TIM t TIM2)) 0 \<and>
    oc_view 2 (TIM t TIM2) = (0x70, 0x1, 990) \<and>
    TIM_ARR (TIM t TIM3) = 9999 \<and> TIM_PSC (TIM t TIM3) = 7199 \<and> bit (TIM_CR1 (TIM t TIM3)) 0 \<and>
    oc_view 2 (TIM t TIM3) = (0x70, 0x1, 4999) \<and> bit (TIM_DIER (TIM t TIM3)) 0 \<and>
    USART_BRR (USART t USART1) = 7500 \<and> USART_CR1 (USART t USART1) AND 0x202C = 0x202C \<and>
    NVIC_IP (NVIC t) ! 37 = 0xF0 \<and> NVIC_IP (NVIC t) ! 29 = 0x30 \<and>
    NVIC_stores (NVIC t) = NVIC_stores (NVIC s) @ [ISER_store 1 (push_bit 5 1), ISER_store 0 (push_bit 29 1)] \<and>
    fac_us t = 9 \<and> fac_ms t = 9000 \<and>
    (\<forall>p n. n < 16 \<longrightarrow> pin_config n (GPIO t p) =
      (if p = GPIOA \<and> (n = 1 \<or> n = 9) \<or> p = GPIOB \<and> n = 5 then 0xB
       else if p = GPIOA \<and> n = 10 then 0x4 else if p = GPIOC \<and> n = 13 then 0x3
       else pin_config n (GPIO s p))) \<and>
    (bit (RCC_APB2ENR (RCC t)) 6 \<longleftrightarrow> bit (RCC_APB2ENR (RCC s)) 6)"
proof -
  from main_init_effect [OF assms] obtain t where run: "\<And>stk. main_init stk s = Some t"
    and tim: "TIM t = (TIM s)(TIM2 := pwm_block 0x81 0 999 7199 990 (TIM s TIM2), TIM3 := pwm_block 0x1 1 9999 7199 4999 (TIM s TIM3))"
    and us: "USART t = (USART s)(USART1 := (USART s USART1)\<lparr>USART_CR2 := USART_CR2 (USART s USART1) AND 0xCFFF,
      USART_CR3 := USART_CR3 (USART s USART1) AND 0xFCFF, USART_BRR := 7500,
      USART_CR1 := (cr1 s AND 0xE9F3) OR 0x202C\<rparr>)"
    and nv: "NVIC t = \<lparr>NVIC_IP = (NVIC_IP (NVIC s))[37 := 0xF0, 29 := 0x30],
      NVIC_stores = NVIC_stores (NVIC s) @ [ISER_store 1 0x20, ISER_store 0 0x20000000]\<rparr>"
    and en: "RCC_APB2ENR (RCC t) = RCC_APB2ENR (RCC s) OR 0x401D"
    and mo: "mcu.more t = mcu.more (s\<lparr>fac_us := 9, fac_ms := 9000\<rparr>)"
    and pins: "\<forall>p n. n < 16 \<longrightarrow> pin_config n (GPIO t p) =
      (if p = GPIOA \<and> (n = 1 \<or> n = 9) \<or> p = GPIOB \<and> n = 5 then 0xB
       else if p = GPIOA \<and> n = 10 then 0x4 else if p = GPIOC \<and> n = 13 then 0x3
       else pin_config n (GPIO s p))" by blast
  have "oc_view 2 (pwm_block x y arr psc v r) = (0x70, 0x1, v)" for x y arr psc v r
    by (simp add: oc_view_def pwm_block_def bits16 bit_simps)
  moreover have "bit (TIM_CR1 (pwm_block 0x81 y arr psc v r)) 0" "bit (TIM_CR1 (pwm_block 0x1 y arr psc v r)) 0"
    "bit (TIM_DIER (pwm_block x 1 arr psc v r)) 0" for x y arr psc v r
    by (simp_all add: pwm_block_def bit_simps)
  moreover have "((x AND 0xE9F3) OR 0x202C) AND 0x202C = (0x202C :: u16)" for x by (simp add: bits16 bit_simps)
  moreover have "fac_us t = 9" "fac_ms t = 9000" using mo by (cases t; cases s; simp)+
  moreover have "bit (RCC_APB2ENR (RCC t)) 6 \<longleftrightarrow> bit (RCC_APB2ENR (RCC s)) 6" by (simp add: en bit_simps)
  moreover have "TIM_ARR (pwm_block x y arr psc v r) = arr" "TIM_PSC (pwm_block x y arr psc v r) = psc" for x y arr psc v r
    by (simp_all add: pwm_block_def)
  ultimately show ?thesis
    using run pins assms(4) by (intro exI [of _ t]) (simp add: tim us nv)
qed

lemma reset_ready:
  "PCLK2_Frequency (RCC_GetClocksFreq u) = 72000000 \<Longrightarrow> USART u = (\<lambda>_. reset_USART) \<Longrightarrow>
   NVIC u = NVIC reset_mcu \<Longrightarrow> mcu.more u = mcu.more (reset_firmware p q) \<Longrightarrow>
   \<exists>t. (\<forall>stk. main_init stk u = Some t) \<and>
    TIM t = (TIM u)(TIM2 := pwm_block 0x81 0 999 7199 990 (TIM u TIM2), TIM3 := pwm_block 0x1 1 9999 7199 4999 (TIM u TIM3)) \<and>
    RCC_CFGR (RCC t) = RCC_CFGR (RCC u) \<and> cr1 t = 0x202C \<and> console_log t = [] \<and>
    seconds t = 0 \<and> clock_inv t \<and> rx_abs t = Collecting [] \<and> rx_inv t \<and>
    buffers_ok t = buffers_ok (reset_firmware p q)"
proof -
  assume clk: "PCLK2_Frequency (RCC_GetClocksFreq u) = 72000000" and us: "USART u = (\<lambda>_. reset_USART)"
    and nv: "NVIC u = NVIC reset_mcu" and mo: "mcu.more u = mcu.more (reset_firmware p q)"
  have core: "SystemCoreClock u = 72000000"
  proof -
    have "SystemCoreClock u = SystemCoreClock (reset_firmware p q)"
      using mo by (cases u; cases "reset_firmware p q") simp
    then show ?thesis by simp
  qed
  have o8: "\<not> bit (cr1 u) 15" and len: "length (NVIC_IP (NVIC u)) = 240"
    by (simp_all add: us nv reset_USART_def)
  from main_init_effect [OF clk core o8 len] obtain t where run: "\<forall>stk. main_init stk u = Some t"
    and tim: "TIM t = (TIM u)(TIM2 := pwm_block 0x81 0 999 7199 990 (TIM u TIM2), TIM3 := pwm_block 0x1 1 9999 7199 4999 (TIM u TIM3))"
    and ust: "USART t = (USART u)(USART1 := (USART u USART1)\<lparr>USART_CR2 := USART_CR2 (USART u USART1) AND 0xCFFF,
      USART_CR3 := USART_CR3 (USART u USART1) AND 0xFCFF, USART_BRR := 7500,
      USART_CR1 := (cr1 u AND 0xE9F3) OR 0x202C\<rparr>)"
    and cfgr: "RCC_CFGR (RCC t) = RCC_CFGR (RCC u)"
    and mot: "mcu.more t = mcu.more (u\<lparr>fac_us := 9, fac_ms := 9000\<rparr>)" by blast
  note g = globals_cong [OF mot, simplified] and h = globals_cong [OF mo, simplified]
  have "cr1 t = 0x202C" "console_log t = []" by (simp_all add: ust us reset_USART_def console_log_def)
  moreover have "seconds t = 0" "clock_inv t" by (simp_all add: seconds_def clock_inv_def g h)
  moreover have "rx_abs t = Collecting []" "rx_inv t" by (simp_all add: rx_abs_def rx_inv_def g h)
  moreover have "buffers_ok t = buffers_ok (reset_firmware p q)" by (simp add: buffers_ok_def g h)
  ultimately show ?thesis using run tim cfgr by blast
qed

text \<open>
  C2. The whole life of the board: from reset, with a crystal that starts and a PLL that locks, with one
  zero byte behind \<open>gprmcStr\<close> and one byte behind \<open>chckNumChar\<close>, \<open>SystemInit\<close> and \<open>main\<close> return
  whatever the stack held; the camera trigger then runs at 10 Hz and the pulse at 1 Hz of the real
  timer clock; and every sequence of updates and received bytes is served, after which the
  clock shows the number of updates modulo a day and the console has transmitted exactly one
  sentence per update, counted from midnight.
\<close>

theorem reset_to_running:
  assumes "clock_hardware clk" and "crystal_starts clk" and "pll_locks clk" and "board_hardware tick"
  shows "\<exists>u t. SystemInit clk (reset_firmware (0 # p) (q # qs)) = Some u \<and> (\<forall>stk. main_init stk u = Some t) \<and>
    apb1_timer_hz t = 10 * timer_period (TIM t TIM2) \<and> apb1_timer_hz t = timer_period (TIM t TIM3) \<and>
    (\<forall>es. \<exists>v. fw_run sr_store tick t es v \<and> seconds v = int (event_updates es) mod 86400 \<and>
       rx_abs v = fold rx_step (event_bytes es) (Collecting []) \<and>
       console_log v = List.map ucast (sentences_after 0 (event_updates es)))"
proof -
  let ?s = "reset_firmware (0 # p) (q # qs)"
  from SystemInit_clock_tree [OF assms(1-3), of ?s] obtain u where u: "SystemInit clk ?s = Some u"
    "RCC_GetClocksFreq u = \<lparr>SYSCLK_Frequency = 72000000, HCLK_Frequency = 72000000,
      PCLK1_Frequency = 36000000, PCLK2_Frequency = 72000000, ADCCLK_Frequency = 36000000\<rparr>"
    "TIM u = TIM ?s" "USART u = USART ?s" "NVIC u = NVIC ?s" "mcu.more u = mcu.more ?s" by blast
  have "PCLK2_Frequency (RCC_GetClocksFreq u) = 72000000" by (simp add: u(2))
  moreover have "USART u = (\<lambda>_. reset_USART)" "NVIC u = NVIC reset_mcu" by (simp_all add: u(4,5))
  ultimately obtain t where run: "\<forall>stk. main_init stk u = Some t"
    and tim: "TIM t = (TIM u)(TIM2 := pwm_block 0x81 0 999 7199 990 (TIM u TIM2), TIM3 := pwm_block 0x1 1 9999 7199 4999 (TIM u TIM3))"
    and cfgr: "RCC_CFGR (RCC t) = RCC_CFGR (RCC u)" and c: "cr1 t = 0x202C" and log: "console_log t = []"
    and sec: "seconds t = 0" "clock_inv t" and rx: "rx_abs t = Collecting []" "rx_inv t"
    and buf: "buffers_ok t = buffers_ok ?s" using reset_ready [OF _ _ _ u(6)] by blast
  have inv: "fw_inv t" using sec rx c buf reset_buffers(1) by (simp add: fw_inv_def bit_simps)
  have hz: "apb1_timer_hz t = 72000000"
    using clocks_same_cfgr [OF cfgr] u(2) by (simp add: apb1_timer_hz_def)
  have per: "timer_period (TIM t TIM2) = 7200000" "timer_period (TIM t TIM3) = 72000000"
    by (simp_all add: tim timer_period_def pwm_block_def)
  have "\<exists>v. fw_run sr_store tick t es v \<and> seconds v = int (event_updates es) mod 86400 \<and>
       rx_abs v = fold rx_step (event_bytes es) (Collecting []) \<and>
       console_log v = List.map ucast (sentences_after 0 (event_updates es))" for es
  proof -
    obtain v where v: "steps (fw_step sr_store tick) t es v"
      using fw.run_exists [of tick t sr_store es] inv assms(4) by blast
    have "fw_view v = fold board_step es (fw_view t)"
      using fw.run_abs [OF v] inv assms(4) by blast
    then show ?thesis using v by (intro exI [of _ v]) (simp add: fw_run_def fw_view_def sec(1) rx(1) log board_run)
  qed
  then show ?thesis using u(1) run hz per by (intro exI [of _ u] exI [of _ t]) simp
qed

lemma reset_to_running_witness:
  "\<exists>u. SystemInit prompt_clock (reset_firmware [0] [0]) = Some u"
proof -
  have "board_hardware ready_port" by (rule example_board_ok)
  from reset_to_running [OF prompt_clock_hardware prompt_clock_crystal prompt_clock_pll this, of "[]" 0 "[]"]
  show ?thesis by blast
qed

definition stack_example :: stack_contents where
  "stack_example = \<lparr>stack_tb2 = TIM_TimeBaseStructInit, stack_oc2 = TIM_OCStructInit,
     stack_tb3 = TIM_TimeBaseStructInit, stack_oc3 = TIM_OCStructInit\<rparr>"

lemma main_init_state_witness:
  "\<exists>u t. SystemInit prompt_clock (reset_firmware [0] [0]) = Some u \<and>
     main_init stack_example u = Some t \<and> TIM_ARR (TIM t TIM2) = 999"
proof -
  from SystemInit_clock_tree [OF prompt_clock_hardware prompt_clock_crystal prompt_clock_pll, of "reset_firmware [0] [0]"]
  obtain u where u: "SystemInit prompt_clock (reset_firmware [0] [0]) = Some u"
    "PCLK2_Frequency (RCC_GetClocksFreq u) = 72000000" "USART u = USART (reset_firmware [0] [0])"
    "NVIC u = NVIC (reset_firmware [0] [0])" "mcu.more u = mcu.more (reset_firmware [0] [0])" by auto
  have "SystemCoreClock u = SystemCoreClock (reset_firmware [0] [0])"
    using u(5) by (cases u; cases "reset_firmware [0] [0]") simp
  then have core: "SystemCoreClock u = 72000000" by simp
  have "\<not> bit (USART_CR1 (USART u USART1)) 15" "length (NVIC_IP (NVIC u)) = 240"
    by (simp_all add: u(3,4) reset_USART_def)
  from main_init_state [OF u(2) core this] u(1) show ?thesis by blast
qed

end
