(* ===== verification/Synchro.thy ===== *)
theory Synchro
  imports Cstring
begin

text \<open>
  The host's reader of the time sentence, \<open>src/src/livox_ros_driver2/src/synchro.cpp\<close>: the bytes of
  the serial port go through a state machine that finds \<open>$GPRMC\<close> or \<open>$GNRMC\<close>, collects the
  sentence, checks its checksum and hands it to a callback. An access outside \<open>rmc_buff_\<close> is \<open>None\<close>.
  The buffer's \<open>char\<close>s are bytes; of \<open>sscanf\<close> the model has \<open>%x\<close> on two characters. The
  calls of the callback are the result, oldest first, each with the buffer and the length passed.
\<close>

section \<open>State\<close>

record synchro =
  rmc_buff :: "u8 list"
  cur_len :: u16

text \<open>The only instance is a function-local static: what the constructor leaves alone is zero.\<close>

definition synchro_init :: synchro where
  "synchro_init = \<lparr>rmc_buff = replicate 128 0, cur_len = 0\<rparr>"

definition kGPRMC :: "u8 list" where
  "kGPRMC = ascii ''$GPRMC''"

definition kGNRMC :: "u8 list" where
  "kGNRMC = ascii ''$GNRMC''"

section \<open>Scanning a hexadecimal number\<close>

definition hex_value :: "u8 \<Rightarrow> nat option" where
  "hex_value c =
     (if 48 \<le> c \<and> c \<le> 57 then Some (unat c - 48)
      else if 65 \<le> c \<and> c \<le> 70 then Some (unat c - 55)
      else if 97 \<le> c \<and> c \<le> 102 then Some (unat c - 87)
      else None)"

text \<open>The digits at the front; a number without digits leaves the variable at its value, 0.\<close>

fun scan_digits :: "u8 list \<Rightarrow> u32 \<Rightarrow> u32" where
  "scan_digits [] acc = acc"
| "scan_digits (c # cs) acc =
     (case hex_value c of None \<Rightarrow> acc | Some d \<Rightarrow> scan_digits cs (16 * acc + of_nat d))"

definition is_space :: "u8 \<Rightarrow> bool" where
  "is_space c \<longleftrightarrow> c = 32 \<or> (9 \<le> c \<and> c \<le> 13)"

text \<open>\<open>sscanf(s, "%x", &n)\<close> with \<open>n\<close> 0 before: blanks, a sign, the digits. (A prefix \<open>0x\<close> with no
  room for a digit behind it gives 0, as the digit 0 does.)\<close>

definition sscanf_hex :: "u8 list \<Rightarrow> u32" where
  "sscanf_hex str =
     (let s = dropWhile is_space str
      in case s of
           [] \<Rightarrow> 0
         | c # cs \<Rightarrow> (if c = 45 then - scan_digits cs 0 else if c = 43 then scan_digits cs 0 else scan_digits s 0))"

section \<open>Operations\<close>

definition rmc_at :: "synchro \<Rightarrow> nat \<Rightarrow> u8 option" where
  "rmc_at s i = (if i < length (rmc_buff s) then Some (rmc_buff s ! i) else None)"

definition rmc_put :: "nat \<Rightarrow> u8 \<Rightarrow> synchro \<Rightarrow> synchro option" where
  "rmc_put i v s = (if i < length (rmc_buff s) then Some (s\<lparr>rmc_buff := (rmc_buff s)[i := v]\<rparr>) else None)"

definition Clear :: "synchro \<Rightarrow> synchro" where
  "Clear s = s\<lparr>cur_len := 0, rmc_buff := replicate (length (rmc_buff s)) 0\<rparr>"

text \<open>The search for the start: a window of six bytes at the front of the buffer.\<close>

definition ParseGps_start :: "u8 \<Rightarrow> synchro \<Rightarrow> synchro option" where
  "ParseGps_start in_byte s = do {
     b \<leftarrow> rmc_at s 1; s \<leftarrow> rmc_put 0 b s;
     b \<leftarrow> rmc_at s 2; s \<leftarrow> rmc_put 1 b s;
     b \<leftarrow> rmc_at s 3; s \<leftarrow> rmc_put 2 b s;
     b \<leftarrow> rmc_at s 4; s \<leftarrow> rmc_put 3 b s;
     b \<leftarrow> rmc_at s 5; s \<leftarrow> rmc_put 4 b s;
     s \<leftarrow> rmc_put 5 in_byte s;
     let s = s\<lparr>cur_len := cur_len s + 1\<rparr>;
     Some (if unat (cur_len s) = length kGPRMC then
             (if take (length kGPRMC) (rmc_buff s) \<noteq> kGPRMC \<and> take (length kGPRMC) (rmc_buff s) \<noteq> kGNRMC
              then s\<lparr>cur_len := cur_len s - 1\<rparr> else s)
           else s)
   }"

text \<open>\<open>result\<close> of the checksum: the exclusive or of the bytes from 1 up to the star, then of the two
  hexadecimal digits.\<close>

definition rmc_check :: "u8 list \<Rightarrow> nat \<Rightarrow> u8" where
  "rmc_check buf n =
     (let result = xor_all (drop 1 (take (n - 2) buf));
          crc = takeWhile (\<lambda>c. c \<noteq> 0) (take 2 (drop (n - 1) buf))
      in result XOR ucast (sscanf_hex crc))"

definition ParseGps :: "u8 \<Rightarrow> synchro \<Rightarrow> (bool \<times> synchro) option" where
  "ParseGps in_byte s =
     (if unat (cur_len s) < length kGPRMC then do {
        s \<leftarrow> ParseGps_start in_byte s;
        Some (False, s)
      }
      else if unat (cur_len s) \<ge> length (rmc_buff s) then Some (False, Clear s)
      else do {
        s \<leftarrow> rmc_put (unat (cur_len s)) in_byte s;
        star \<leftarrow> rmc_at s (unat (cur_len s) - 2);
        Some (if star = 42 \<and> rmc_check (rmc_buff s) (unat (cur_len s)) = 0 then (True, s)
              else (False, s\<lparr>cur_len := cur_len s + 1\<rparr>))
      })"

text \<open>\<open>has_cb\<close>: a callback has been set.\<close>

fun Decode :: "bool \<Rightarrow> u8 list \<Rightarrow> synchro \<Rightarrow> ((u8 list \<times> u16) list \<times> synchro) option" where
  "Decode has_cb [] s = Some ([], s)"
| "Decode has_cb (b # bs) s = do {
     (found, s) \<leftarrow> ParseGps b s;
     let (calls, s) = (if found \<and> has_cb then ([(rmc_buff s, cur_len s)], Clear s) else ([], s));
     (more_calls, s) \<leftarrow> Decode has_cb bs s;
     Some (calls @ more_calls, s)
   }"

text \<open>What the callback receives: \<open>std::string(rmc, rmc_length)\<close>.\<close>

definition call_string :: "u8 list \<times> u16 \<Rightarrow> u8 list" where
  "call_string c = take (unat (snd c)) (fst c)"

section \<open>Bounds and soundness\<close>

definition gps_inv :: "synchro \<Rightarrow> bool" where
  "gps_inv s \<longleftrightarrow> length (rmc_buff s) = 128 \<and> unat (cur_len s) \<le> 128 \<and>
     (6 \<le> unat (cur_len s) \<longrightarrow> take 6 (rmc_buff s) \<in> {kGPRMC, kGNRMC})"

lemma k_lengths [simp]: "length kGPRMC = 6" "length kGNRMC = 6"
  by (simp_all add: kGPRMC_def kGNRMC_def ascii_def)

lemma rmc_put_eq: "i < length (rmc_buff s) \<Longrightarrow> rmc_put i v s = Some (s\<lparr>rmc_buff := (rmc_buff s)[i := v]\<rparr>)"
  by (simp add: rmc_put_def)

text \<open>One step of the search shifts the window.\<close>

lemma start_window:
  assumes "6 \<le> length (rmc_buff s)"
  shows "ParseGps_start b s =
    (let buf = drop 1 (take 6 (rmc_buff s)) @ [b] @ drop 6 (rmc_buff s); n = cur_len s + 1
     in Some \<lparr>rmc_buff = buf, cur_len =
       if unat n = 6 \<and> take 6 buf \<noteq> kGPRMC \<and> take 6 buf \<noteq> kGNRMC then n - 1 else n\<rparr>)"
proof -
  obtain a0 a1 a2 a3 a4 a5 r where buf: "rmc_buff s = a0 # a1 # a2 # a3 # a4 # a5 # r"
  proof -
    have "6 = Suc (Suc (Suc (Suc (Suc (Suc 0)))))" by simp
    with assms that show ?thesis by (auto simp: Suc_le_length_iff)
  qed
  show ?thesis
    by (cases s) (use buf in \<open>simp add: ParseGps_start_def rmc_at_def rmc_put_def Let_def numeral_eq_Suc\<close>)
qed

lemma ParseGps_inv:
  assumes "gps_inv s"
  shows "\<exists>f t. ParseGps b s = Some (f, t) \<and> gps_inv t \<and>
    (f \<longrightarrow> 6 \<le> unat (cur_len t) \<and> unat (cur_len t) < 128 \<and> rmc_buff t ! (unat (cur_len t) - 2) = 42 \<and>
       rmc_check (rmc_buff t) (unat (cur_len t)) = 0)"
proof -
  have len: "length (rmc_buff s) = 128" and n: "unat (cur_len s) \<le> 128" using assms by (simp_all add: gps_inv_def)
  have n1: "unat (cur_len s + 1) = unat (cur_len s) + 1" using n by (simp add: unat_word_ariths)
  consider (start) "unat (cur_len s) < 6" | (full) "unat (cur_len s) = 128"
    | (coll) "6 \<le> unat (cur_len s)" "unat (cur_len s) < 128" using n by linarith
  then show ?thesis
  proof cases
    case start
    then show ?thesis
      using len n1 by (auto simp: ParseGps_def start_window Let_def gps_inv_def)
  next
    case full
    then show ?thesis using len by (auto simp: ParseGps_def Clear_def gps_inv_def)
  next
    case coll
    have pre: "take 6 ((rmc_buff s)[unat (cur_len s) := b]) = take 6 (rmc_buff s)" using coll(1) by simp
    have "unat (cur_len s) - 2 < 128" using coll by simp
    then show ?thesis
      using coll len n1 assms pre
      by (auto simp: ParseGps_def rmc_put_eq rmc_at_def gps_inv_def)
  qed
qed

lemma Decode_sound:
  assumes "gps_inv s"
  shows "\<exists>calls t. Decode cb bs s = Some (calls, t) \<and> gps_inv t \<and>
    (\<forall>(buf, n) \<in> set calls. length buf = 128 \<and> 6 \<le> unat n \<and> unat n < 128 \<and> take 6 buf \<in> {kGPRMC, kGNRMC} \<and>
       buf ! (unat n - 2) = 42 \<and> rmc_check buf (unat n) = 0)"
  using assms
proof (induction bs arbitrary: s)
  case Nil
  then show ?case by simp
next
  case (Cons b bs)
  from ParseGps_inv [OF Cons.prems, of b] obtain f t where t: "ParseGps b s = Some (f, t)" "gps_inv t"
    "f \<longrightarrow> 6 \<le> unat (cur_len t) \<and> unat (cur_len t) < 128 \<and> rmc_buff t ! (unat (cur_len t) - 2) = 42 \<and>
       rmc_check (rmc_buff t) (unat (cur_len t)) = 0" by blast
  define u where "u = (if f \<and> cb then Clear t else t)"
  have "gps_inv u" using t(2) by (auto simp: u_def gps_inv_def Clear_def)
  from Cons.IH [OF this] obtain cs v where cs: "Decode cb bs u = Some (cs, v)" "gps_inv v"
    "\<forall>(buf, n) \<in> set cs. length buf = 128 \<and> 6 \<le> unat n \<and> unat n < 128 \<and> take 6 buf \<in> {kGPRMC, kGNRMC} \<and>
       buf ! (unat n - 2) = 42 \<and> rmc_check buf (unat n) = 0" by blast
  have "Decode cb (b # bs) s = Some ((if f \<and> cb then [(rmc_buff t, cur_len t)] else []) @ cs, v)"
    using t(1) cs(1) by (cases "f \<and> cb") (auto simp: u_def Let_def)
  moreover have "\<forall>(buf, n) \<in> set ((if f \<and> cb then [(rmc_buff t, cur_len t)] else []) @ cs).
      length buf = 128 \<and> 6 \<le> unat n \<and> unat n < 128 \<and> take 6 buf \<in> {kGPRMC, kGNRMC} \<and>
       buf ! (unat n - 2) = 42 \<and> rmc_check buf (unat n) = 0"
    using cs(3) t(2,3) by (auto simp: gps_inv_def)
  ultimately show ?case using cs(2) by (intro exI conjI)
qed

lemma Decode_append:
  "Decode cb (xs @ ys) s = do {
     (cs, t) \<leftarrow> Decode cb xs s;
     (ds, u) \<leftarrow> Decode cb ys t;
     Some (cs @ ds, u)
   }"
  by (induction xs arbitrary: s)
    (auto simp: Let_def bind_eq_Some_conv split: option.splits prod.splits Option.bind_splits)


section \<open>The search\<close>

definition searching :: "synchro \<Rightarrow> bool" where
  "searching s \<longleftrightarrow> length (rmc_buff s) = 128 \<and> unat (cur_len s) < 6"

definition window :: "synchro \<Rightarrow> u8 list" where
  "window s = take 6 (rmc_buff s)"

lemma length_window: "searching s \<Longrightarrow> length (window s) = 6"
  by (simp add: searching_def window_def)

lemma searching_inv: "searching s \<Longrightarrow> gps_inv s"
  by (simp add: searching_def gps_inv_def)

lemma Clear_searching: "length (rmc_buff s) = 128 \<Longrightarrow> searching (Clear s) \<and> window (Clear s) = replicate 6 0"
  by (simp add: searching_def window_def Clear_def)

lemma search_byte:
  assumes "searching s"
  shows "\<exists>t. ParseGps b s = Some (False, t) \<and> length (rmc_buff t) = 128 \<and> window t = drop 1 (window s) @ [b] \<and>
    unat (cur_len t) = (if unat (cur_len s) = 5 \<and> drop 1 (window s) @ [b] \<notin> {kGPRMC, kGNRMC}
      then 5 else unat (cur_len s) + 1)"
proof -
  have len: "length (rmc_buff s) = 128" and n: "unat (cur_len s) < 6" using assms by (simp_all add: searching_def)
  have n1: "unat (cur_len s + 1) = unat (cur_len s) + 1" using n by (simp add: unat_word_ariths)
  show ?thesis using len n n1
    by (simp add: ParseGps_def start_window Let_def window_def)
qed

text \<open>Bytes that never complete a start leave the reader searching.\<close>

lemma search_run:
  assumes "searching s" and "\<forall>k < length xs. take 6 (drop (Suc k) (window s @ xs)) \<notin> {kGPRMC, kGNRMC}"
  shows "\<exists>t. Decode cb xs s = Some ([], t) \<and> searching t \<and> window t = drop (length xs) (window s @ xs) \<and>
    unat (cur_len t) = min 5 (unat (cur_len s) + length xs)"
  using assms
proof (induction xs arbitrary: s)
  case Nil
  then show ?case by (simp add: searching_def)
next
  case (Cons x xs)
  note w = length_window [OF Cons.prems(1)]
  from search_byte [OF Cons.prems(1), of x] obtain t where t: "ParseGps x s = Some (False, t)"
    "length (rmc_buff t) = 128" "window t = drop 1 (window s) @ [x]"
    "unat (cur_len t) = (if unat (cur_len s) = 5 \<and> drop 1 (window s) @ [x] \<notin> {kGPRMC, kGNRMC}
      then 5 else unat (cur_len s) + 1)" by blast
  have "drop 1 (window s) @ [x] \<notin> {kGPRMC, kGNRMC}"
    using Cons.prems(2) [rule_format, of 0] w by (simp add: drop_Suc_Cons)
  then have n: "unat (cur_len t) = min 5 (unat (cur_len s) + 1)" "searching t"
    using t(2,4) Cons.prems(1) by (auto simp: searching_def)
  have wt: "window t @ xs = drop 1 (window s @ x # xs)" using t(3) w by simp
  have "\<forall>k < length xs. take 6 (drop (Suc k) (window t @ xs)) \<notin> {kGPRMC, kGNRMC}"
    using Cons.prems(2) unfolding wt drop_drop by auto
  from Cons.IH [OF n(2) this] obtain u where u: "Decode cb xs t = Some ([], u)" "searching u"
    "window u = drop (length xs) (window t @ xs)" "unat (cur_len u) = min 5 (unat (cur_len t) + length xs)" by blast
  then show ?case
    using t(1) n(1) unfolding wt drop_drop by simp
qed

lemma start_bytes: "kGPRMC = [36, 71, 80, 82, 77, 67]" "kGNRMC = [36, 71, 78, 82, 77, 67]"
  by (simp_all add: kGPRMC_def kGNRMC_def ascii_def of_char_def)

lemma start_dollar: "ys \<in> {kGPRMC, kGNRMC} \<Longrightarrow> 36 \<in> set ys"
  by (auto simp: start_bytes)

lemma search_no_dollar:
  assumes "searching s" and "36 \<notin> set (window s)" and "36 \<notin> set xs"
  shows "\<exists>t. Decode cb xs s = Some ([], t) \<and> searching t \<and> 36 \<notin> set (window t)"
proof -
  have "take 6 (drop (Suc k) (window s @ xs)) \<notin> {kGPRMC, kGNRMC}" for k
  proof
    assume "take 6 (drop (Suc k) (window s @ xs)) \<in> {kGPRMC, kGNRMC}"
    then have "36 \<in> set (take 6 (drop (Suc k) (window s @ xs)))" by (rule start_dollar)
    then have "36 \<in> set (window s @ xs)" by (metis in_set_dropD in_set_takeD)
    with assms(2,3) show False by simp
  qed
  with search_run [OF assms(1), of xs cb] obtain t where t: "Decode cb xs s = Some ([], t)" "searching t"
    "window t = drop (length xs) (window s @ xs)" by blast
  have "36 \<notin> set (window t)" unfolding t(3) using assms(2,3) by (metis Un_iff in_set_dropD set_append)
  with t show ?thesis by blast
qed

lemma find_start:
  assumes "searching s" and "hdr \<in> {kGPRMC, kGNRMC}"
  shows "\<exists>t. Decode cb hdr s = Some ([], t) \<and> length (rmc_buff t) = 128 \<and> cur_len t = 6 \<and> take 6 (rmc_buff t) = hdr"
proof -
  obtain xs where xs: "hdr = xs @ [67]" "length xs = 5" "67 \<notin> set xs"
    using assms(2) by (auto simp: start_bytes)
  note w = length_window [OF assms(1)]
  have "take 6 (drop (Suc k) (window s @ xs)) \<notin> {kGPRMC, kGNRMC}" if "k < length xs" for k
  proof -
    have "take 6 (drop (Suc k) (window s @ xs)) ! 5 = xs ! k"
      using that xs(2) w by (simp add: nth_append del: take_append drop_append)
    moreover have "xs ! k \<noteq> 67" using that xs(3) nth_mem by fastforce
    moreover have "kGPRMC ! 5 = 67" "kGNRMC ! 5 = 67" by (simp_all add: start_bytes)
    ultimately show ?thesis by auto
  qed
  with search_run [OF assms(1), of xs cb] obtain t where t: "Decode cb xs s = Some ([], t)" "searching t"
    "window t = drop (length xs) (window s @ xs)" "unat (cur_len t) = 5" using xs(2) by auto
  from search_byte [OF t(2), of 67] obtain u where u: "ParseGps 67 t = Some (False, u)" "length (rmc_buff u) = 128"
    "window u = drop 1 (window t) @ [67]"
    "unat (cur_len u) = (if unat (cur_len t) = 5 \<and> drop 1 (window t) @ [67] \<notin> {kGPRMC, kGNRMC}
      then 5 else unat (cur_len t) + 1)" by blast
  have "drop 1 (window t) @ [67] = hdr" using t(3) w xs by simp
  then have "window u = hdr" "unat (cur_len u) = 6" using u t(4) assms(2) by auto
  moreover from this(2) have "cur_len u = 6" by (simp add: word_unat_eq_iff)
  ultimately show ?thesis
    using t(1) u(1,2) unfolding xs(1) Decode_append by (simp add: window_def)
qed

section \<open>Collecting a sentence\<close>

definition collecting :: "synchro \<Rightarrow> u8 list \<Rightarrow> bool" where
  "collecting s p \<longleftrightarrow> length (rmc_buff s) = 128 \<and> unat (cur_len s) = length p \<and> 6 \<le> length p \<and> length p \<le> 128 \<and>
     take (length p) (rmc_buff s) = p"

lemma find_start_collecting:
  assumes "searching s" and "hdr \<in> {kGPRMC, kGNRMC}"
  shows "\<exists>t. Decode cb hdr s = Some ([], t) \<and> collecting t hdr"
  using find_start [OF assms, of cb] assms(2) by (auto simp: collecting_def)

lemma collect_byte:
  fixes b :: u8
  assumes "collecting s p" and "length p < 128"
  defines "buf \<equiv> (rmc_buff s)[length p := b]"
  shows "ParseGps b s =
    (if p ! (length p - 2) = 42 \<and> rmc_check buf (length p) = 0 then Some (True, s\<lparr>rmc_buff := buf\<rparr>)
     else Some (False, \<lparr>rmc_buff = buf, cur_len = cur_len s + 1\<rparr>))"
    "take (Suc (length p)) buf = p @ [b]"
proof -
  have len: "length (rmc_buff s) = 128" "unat (cur_len s) = length p" "6 \<le> length p"
    and pre: "take (length p) (rmc_buff s) = p" using assms(1) by (simp_all add: collecting_def)
  have "buf ! (length p - 2) = p ! (length p - 2)"
    using len(3) by (subst (2) pre [symmetric]) (simp add: buf_def)
  then show "ParseGps b s =
    (if p ! (length p - 2) = 42 \<and> rmc_check buf (length p) = 0 then Some (True, s\<lparr>rmc_buff := buf\<rparr>)
     else Some (False, \<lparr>rmc_buff = buf, cur_len = cur_len s + 1\<rparr>))"
    using len assms(2) by (cases s) (simp add: ParseGps_def rmc_put_eq rmc_at_def buf_def less_imp_diff_less)
  show "take (Suc (length p)) buf = p @ [b]"
    using len assms(2) pre by (simp add: buf_def take_Suc_conv_app_nth)
qed

text \<open>Without a star in its place the sentence grows.\<close>

lemma collect_run:
  assumes "collecting s p" and "length (p @ xs) \<le> 128" and "42 \<notin> set (take (length (p @ xs) - 2) (p @ xs))"
  shows "\<exists>t. Decode cb xs s = Some ([], t) \<and> collecting t (p @ xs)"
  using assms
proof (induction xs arbitrary: s p)
  case Nil
  then show ?case by simp
next
  case (Cons x xs)
  have six: "6 \<le> length p" and len: "length (rmc_buff s) = 128" "unat (cur_len s) = length p"
    using Cons.prems(1) by (simp_all add: collecting_def)
  define buf where "buf = (rmc_buff s)[length p := x]"
  have lt: "length p < 128" using Cons.prems(2) by simp
  have ix: "length p - 2 < length p" "length p - 2 < length (p @ x # xs) - 2" using six by auto
  have "p ! (length p - 2) = take (length (p @ x # xs) - 2) (p @ x # xs) ! (length p - 2)"
    using ix by (simp add: nth_append del: take_append)
  also have "\<dots> \<in> set (take (length (p @ x # xs) - 2) (p @ x # xs))"
    using ix by (intro nth_mem) simp
  finally have "p ! (length p - 2) \<noteq> 42" using Cons.prems(3) by metis
  then have step: "ParseGps x s = Some (False, \<lparr>rmc_buff = buf, cur_len = cur_len s + 1\<rparr>)"
    using collect_byte(1) [OF Cons.prems(1) lt, of x] by (simp add: buf_def)
  have "collecting \<lparr>rmc_buff = buf, cur_len = cur_len s + 1\<rparr> (p @ [x])"
    using collect_byte(2) [OF Cons.prems(1) lt, of x] len lt six
    by (simp add: collecting_def buf_def unat_word_ariths)
  from Cons.IH [OF this] Cons.prems(2,3) obtain t where
    "Decode cb xs \<lparr>rmc_buff = buf, cur_len = cur_len s + 1\<rparr> = Some ([], t)" "collecting t (p @ x # xs)" by auto
  with step show ?case by auto
qed

section \<open>The checksum's digits\<close>

lemma hex_digit_cases:
  assumes "d < 16"
  shows "hex_value (hex_digit d) = Some d \<and> \<not> is_space (hex_digit d) \<and> hex_digit d \<notin> {0, 36, 42, 43, 44, 45}"
proof -
  have "list_all (\<lambda>d. hex_value (hex_digit d) = Some d \<and> \<not> is_space (hex_digit d) \<and>
      hex_digit d \<notin> {0, 36, 42, 43, 44, 45}) [0..<16]" by code_simp
  with assms show ?thesis by (simp add: list_all_iff)
qed

lemma sscanf_hex_digits:
  assumes "a < 16" and "b < 16"
  shows "sscanf_hex [hex_digit a, hex_digit b] = of_nat (16 * a + b)"
  using hex_digit_cases [OF assms(1)] hex_digit_cases [OF assms(2)] by (simp add: sscanf_hex_def)

definition crc_chars :: "u8 \<Rightarrow> u8 list" where
  "crc_chars x = [hex_digit (unat x div 16), hex_digit (unat x mod 16)]"

lemma sscanf_crc: "ucast (sscanf_hex (crc_chars x)) = x"
proof -
  have x: "unat x < 256" by (rule order_less_le_trans [OF unsigned_less]) simp
  then have "sscanf_hex (crc_chars x) = of_nat (unat x)"
    unfolding crc_chars_def by (subst sscanf_hex_digits) simp_all
  moreover have "(ucast (of_nat (unat x) :: u32) :: u8) = x" by (intro bit_word_eqI) (simp add: bit_simps)
  ultimately show ?thesis by simp
qed

section \<open>A whole sentence\<close>

text \<open>
  A sentence with the right checksum, from any state of the search: exactly one call. The length
  passed is the index of the last digit, so the string the callback makes of it ends before it.
\<close>

lemma sentence_call:
  assumes "searching s" and "hdr \<in> {kGPRMC, kGNRMC}" and "42 \<notin> set body" and "length body \<le> 119"
  defines "line \<equiv> hdr @ body @ [42] @ crc_chars (xor_all (drop 1 hdr @ body))"
  shows "\<exists>buf n t. Decode True line s = Some ([(buf, n)], t) \<and> searching t \<and> window t = replicate 6 0 \<and>
    call_string (buf, n) = butlast line"
proof -
  define h1 h2 where "h1 = hex_digit (unat (xor_all (drop 1 hdr @ body)) div 16)"
    and "h2 = hex_digit (unat (xor_all (drop 1 hdr @ body)) mod 16)"
  define p where "p = hdr @ body @ [42, h1]"
  have crc: "crc_chars (xor_all (drop 1 hdr @ body)) = [h1, h2]" by (simp add: crc_chars_def h1_def h2_def)
  then have line: "line = p @ [h2]" by (simp add: line_def p_def)
  have hdr: "length hdr = 6" "42 \<notin> set hdr" using assms(2) by (auto simp: start_bytes)
  from find_start_collecting [OF assms(1,2), of True] obtain t where t: "Decode True hdr s = Some ([], t)"
    "collecting t hdr" by blast
  have "42 \<notin> set (take (length (hdr @ body @ [42, h1]) - 2) (hdr @ body @ [42, h1]))"
    using hdr assms(3) by simp
  with collect_run [OF t(2), of "body @ [42, h1]" True] obtain u where
    u: "Decode True (body @ [42, h1]) t = Some ([], u)" "collecting u p"
    using hdr assms(4) by (auto simp: p_def)
  have lp: "length p < 128" using hdr assms(4) by (simp add: p_def)
  define buf where "buf = (rmc_buff u)[length p := h2]"
  note cb = collect_byte [OF u(2) lp, of h2, folded buf_def]
  have take: "take (length p + 1) buf = hdr @ body @ [42, h1, h2]" using cb(2) by (simp add: p_def)
  have pre: "take (length p - 2) buf = hdr @ body"
  proof -
    have "take (length p - 2) buf = take (length p - 2) (take (length p + 1) buf)" by simp
    also have "\<dots> = hdr @ body" unfolding take by (simp add: p_def)
    finally show ?thesis .
  qed
  have digits: "take 2 (drop (length p - 1) buf) = [h1, h2]"
  proof -
    have "take 2 (drop (length p - 1) buf) = drop (length p - 1) (take (length p + 1) buf)"
      by (simp add: take_drop p_def)
    also have "\<dots> = [h1, h2]" unfolding take by (simp add: p_def)
    finally show ?thesis .
  qed
  have nz: "h1 \<noteq> 0" "h2 \<noteq> 0"
  proof -
    have "unat (xor_all (drop 1 hdr @ body)) < 256" by (rule order_less_le_trans [OF unsigned_less]) simp
    then have "unat (xor_all (drop 1 hdr @ body)) div 16 < 16" by simp
    from hex_digit_cases [OF this] show "h1 \<noteq> 0" by (simp add: h1_def)
    from hex_digit_cases [of "unat (xor_all (drop 1 hdr @ body)) mod 16"] show "h2 \<noteq> 0" by (simp add: h2_def)
  qed
  have "rmc_check buf (length p) = xor_all (drop 1 hdr @ body) XOR ucast (sscanf_hex [h1, h2])"
    unfolding rmc_check_def pre digits using nz hdr(1) by simp
  also have "\<dots> = 0" using sscanf_crc [of "xor_all (drop 1 hdr @ body)"] unfolding crc by simp
  finally have "rmc_check buf (length p) = 0" .
  moreover have "p ! (length p - 2) = 42" by (simp add: p_def nth_append)
  ultimately have "ParseGps h2 u = Some (True, u\<lparr>rmc_buff := buf\<rparr>)" using cb(1) by simp
  then have "Decode True line s = Some ([(buf, cur_len u)], Clear (u\<lparr>rmc_buff := buf\<rparr>))"
    using Decode_append [of True hdr "body @ [42, h1]" s] Decode_append [of True p "[h2]" s] t(1) u(1)
    by (simp add: line p_def [symmetric])
  moreover have "length buf = 128" "unat (cur_len u) = length p" using u(2) by (simp_all add: buf_def collecting_def)
  moreover have "take (length p) buf = p"
  proof -
    have "take (length p) buf = take (length p) (take (Suc (length p)) buf)" by simp
    also have "\<dots> = p" unfolding cb(2) by simp
    finally show ?thesis .
  qed
  ultimately show ?thesis
    using Clear_searching [of "u\<lparr>rmc_buff := buf\<rparr>"] by (auto simp: call_string_def line)
qed

section \<open>Streams of sentences\<close>

definition gprmc_line :: "u8 list \<Rightarrow> u8 list" where
  "gprmc_line body = kGPRMC @ body @ [42] @ crc_chars (xor_all (drop 1 kGPRMC @ body))"

definition plain_body :: "u8 list \<Rightarrow> bool" where
  "plain_body body \<longleftrightarrow> 36 \<notin> set body \<and> 42 \<notin> set body \<and> length body \<le> 119"

lemma gprmc_line_shape:
  assumes "plain_body body"
  shows "\<exists>tl. gprmc_line body = 36 # tl \<and> 36 \<notin> set tl \<and> length (gprmc_line body) = length body + 9"
proof -
  have "unat x div 16 < 16" for x :: u8
  proof -
    have "unat x < 256" by (rule order_less_le_trans [OF unsigned_less]) simp
    then show ?thesis by simp
  qed
  from hex_digit_cases [OF this] have "36 \<notin> set (crc_chars x)" for x
    using hex_digit_cases [of "unat x mod 16"] by (auto simp: crc_chars_def)
  moreover have "length (crc_chars x) = 2" for x by (simp add: crc_chars_def)
  ultimately show ?thesis using assms by (simp add: gprmc_line_def plain_body_def start_bytes)
qed

lemma line_call:
  assumes "searching s" and "plain_body body"
  shows "\<exists>c t. Decode True (gprmc_line body @ [10]) s = Some ([c], t) \<and> searching t \<and>
    call_string c = butlast (gprmc_line body)"
proof -
  from sentence_call [OF assms(1), of kGPRMC body] assms(2) obtain buf n t where
    t: "Decode True (gprmc_line body) s = Some ([(buf, n)], t)" "searching t" "window t = replicate 6 0"
      "call_string (buf, n) = butlast (gprmc_line body)" by (auto simp: gprmc_line_def plain_body_def)
  from search_no_dollar [OF t(2), of "[10]" True] t(3) obtain u where "Decode True [10] t = Some ([], u)" "searching u"
    by auto
  with t show ?thesis by (simp add: Decode_append del: Decode.simps)
qed

lemma lines_calls:
  assumes "searching s" and "\<forall>body \<in> set bodies. plain_body body"
  shows "\<exists>calls t. Decode True (concat (map (\<lambda>body. gprmc_line body @ [10]) bodies)) s = Some (calls, t) \<and>
    searching t \<and> map call_string calls = map (\<lambda>body. butlast (gprmc_line body)) bodies"
  using assms
proof (induction bodies arbitrary: s)
  case Nil
  then show ?case by simp
next
  case (Cons body bodies)
  from line_call [OF Cons.prems(1), of body] Cons.prems(2) obtain c t where
    t: "Decode True (gprmc_line body @ [10]) s = Some ([c], t)" "searching t"
      "call_string c = butlast (gprmc_line body)" by auto
  from Cons.IH [OF t(2)] Cons.prems(2) obtain cs u where
    u: "Decode True (concat (map (\<lambda>body. gprmc_line body @ [10]) bodies)) t = Some (cs, u)" "searching u"
      "map call_string cs = map (\<lambda>body. butlast (gprmc_line body)) bodies" by auto
  have "concat (map (\<lambda>body. gprmc_line body @ [10]) (body # bodies)) =
      (gprmc_line body @ [10]) @ concat (map (\<lambda>body. gprmc_line body @ [10]) bodies)" by simp
  then show ?case using t u by (simp only: Decode_append) simp
qed

section \<open>Recovery\<close>

text \<open>
  A collected prefix is done with when the buffer is full at the latest: it is given up, or it is taken
  for a sentence.
\<close>

lemma drain:
  assumes "gps_inv s" and "6 \<le> unat (cur_len s)" and "129 \<le> unat (cur_len s) + length xs"
  shows "\<exists>ys zs cs t. xs = ys @ zs \<and> ys \<noteq> [] \<and> Decode True ys s = Some (cs, t) \<and> length cs \<le> 1 \<and>
    searching t \<and> window t = replicate 6 0"
  using assms
proof (induction xs arbitrary: s)
  case Nil
  then show ?case by (simp add: gps_inv_def)
next
  case (Cons b xs)
  from ParseGps_inv [OF Cons.prems(1), of b] obtain f t where t: "ParseGps b s = Some (f, t)" "gps_inv t" by blast
  have len: "length (rmc_buff s) = 128" and n: "unat (cur_len s) \<le> 128" using Cons.prems(1) by (simp_all add: gps_inv_def)
  show ?case
  proof (cases f)
    case True
    have "length (rmc_buff t) = 128" using t(2) by (simp add: gps_inv_def)
    with Clear_searching t(1) True show ?thesis
      by (intro exI [of _ "[b]"] exI [of _ xs] exI [of _ "[(rmc_buff t, cur_len t)]"] exI [of _ "Clear t"]) simp
  next
    case False
    show ?thesis
    proof (cases "unat (cur_len s) = 128")
      case True
      then have "t = Clear s" using t(1) len by (simp add: ParseGps_def)
      with t(1) False Clear_searching [OF len] show ?thesis
        by (intro exI [of _ "[b]"] exI [of _ xs] exI [of _ "[]"] exI [of _ t]) simp
    next
      case less: False
      then have "unat (cur_len s + 1) = unat (cur_len s) + 1" using n by (simp add: unat_word_ariths)
      moreover have "cur_len t = cur_len s + 1"
        using t(1) False less n len Cons.prems(2) by (auto simp: ParseGps_def rmc_put_eq rmc_at_def split: if_splits)
      ultimately have "6 \<le> unat (cur_len t)" "129 \<le> unat (cur_len t) + length xs" using Cons.prems(2,3) by simp_all
      from Cons.IH [OF t(2) this] obtain ys zs cs u where "xs = ys @ zs" "Decode True ys t = Some (cs, u)"
        "length cs \<le> 1" "searching u" "window u = replicate 6 0" by blast
      then show ?thesis using t(1) False
        by (intro exI [of _ "b # ys"] exI [of _ zs] exI [of _ cs] exI [of _ u]) simp
    qed
  qed
qed

text \<open>After two sentences, not shorter together than the buffer, the reader searches again.\<close>

lemma two_lines:
  assumes "gps_inv s" and "plain_body b1" and "plain_body b2" and "103 \<le> length b1 + length b2"
  shows "\<exists>cs t. Decode True ((gprmc_line b1 @ [10]) @ (gprmc_line b2 @ [10])) s = Some (cs, t) \<and> length cs \<le> 2 \<and> searching t"
proof (cases "unat (cur_len s) < 6")
  case True
  then have "searching s" using assms(1) by (simp add: searching_def gps_inv_def)
  from lines_calls [OF this, of "[b1, b2]"] assms(2,3) obtain calls t where
    "Decode True ((gprmc_line b1 @ [10]) @ (gprmc_line b2 @ [10])) s = Some (calls, t)" "searching t"
    "length calls = 2" by (auto dest: map_eq_imp_length_eq simp del: Decode.simps)
  then show ?thesis by auto
next
  case False
  let ?L1 = "gprmc_line b1 @ [10]" and ?L2 = "gprmc_line b2 @ [10]"
  from gprmc_line_shape [OF assms(2)] gprmc_line_shape [OF assms(3)] obtain l1 l2 where
    l1: "?L1 = 36 # l1" "36 \<notin> set l1" and l2: "?L2 = 36 # l2" "36 \<notin> set l2"
    and len: "length ?L1 = length b1 + 10" "length ?L2 = length b2 + 10" by auto
  have "129 \<le> unat (cur_len s) + length (?L1 @ ?L2)" using False assms(4) len by simp
  from drain [OF assms(1) _ this] False obtain ys zs cs t where d: "?L1 @ ?L2 = ys @ zs" "ys \<noteq> []"
    "Decode True ys s = Some (cs, t)" "length cs \<le> 1" "searching t" "window t = replicate 6 0"
    by (auto simp del: Decode.simps)
  note quiet = search_no_dollar [OF d(5), of _ True, unfolded d(6), simplified]
  from d(1) consider us where "?L1 = ys @ us" "zs = us @ ?L2" | us where "ys = ?L1 @ us" "?L2 = us @ zs"
    by (subst (asm) append_eq_append_conv2) (elim exE disjE conjE, metis+)
  then have "\<exists>ds u. Decode True zs t = Some (ds, u) \<and> length ds \<le> 1 \<and> searching u"
  proof cases
    case (1 us)
    then have "36 \<notin> set us" using l1 d(2) by (cases ys) auto
    from quiet [OF this] obtain u where u: "Decode True us t = Some ([], u)" "searching u" by blast
    from line_call [OF u(2) assms(3)] u(1) 1(2) show ?thesis by (fastforce simp: Decode_append simp del: Decode.simps)
  next
    case us: (2 us)
    show ?thesis
    proof (cases us)
      case Nil
      then have zs: "zs = ?L2" using us(2) by simp
      from line_call [OF d(5) assms(3)] show ?thesis unfolding zs by fastforce
    next
      case (Cons u1 us')
      then have "36 \<notin> set zs" using us(2) l2 by auto
      from quiet [OF this] show ?thesis by force
    qed
  qed
  then obtain ds u where "Decode True zs t = Some (ds, u)" "length ds \<le> 1" "searching u" by blast
  then have "Decode True (ys @ zs) s = Some (cs @ ds, u)" "length (cs @ ds) \<le> 2" "searching u"
    using d(3,4) by (simp_all add: Decode_append del: Decode.simps)
  then show ?thesis unfolding d(1) by blast
qed

text \<open>
  C38. The reader recovers from whatever state a damaged stream has left it in: of sentences in a row
  (no dollar or star in their bodies of at most 119 bytes), the first two not shorter together than the buffer, every one from the third on is passed to the callback
  exactly once, in order and with its own text but for the last character. The first two lead to two calls at most, which may be
  theirs or made of what was left in the buffer.
\<close>

theorem resync:
  assumes "gps_inv s" and "plain_body b1" and "plain_body b2" and "103 \<le> length b1 + length b2"
    and "\<forall>body \<in> set bodies. plain_body body"
  shows "\<exists>first calls t. Decode True (concat (map (\<lambda>body. gprmc_line body @ [10]) (b1 # b2 # bodies))) s = Some (first @ calls, t) \<and>
    length first \<le> 2 \<and> map call_string calls = map (\<lambda>body. butlast (gprmc_line body)) bodies \<and> searching t"
proof -
  from two_lines [OF assms(1-4)] obtain cs t where
    one: "Decode True ((gprmc_line b1 @ [10]) @ (gprmc_line b2 @ [10])) s = Some (cs, t)" "length cs \<le> 2" "searching t" by blast
  from lines_calls [OF one(3) assms(5)] obtain calls u where
    two: "Decode True (concat (map (\<lambda>body. gprmc_line body @ [10]) bodies)) t = Some (calls, u)" "searching u"
      "map call_string calls = map (\<lambda>body. butlast (gprmc_line body)) bodies" by blast
  have "concat (map (\<lambda>body. gprmc_line body @ [10]) (b1 # b2 # bodies)) =
      ((gprmc_line b1 @ [10]) @ (gprmc_line b2 @ [10])) @ concat (map (\<lambda>body. gprmc_line body @ [10]) bodies)" by simp
  then have "Decode True (concat (map (\<lambda>body. gprmc_line body @ [10]) (b1 # b2 # bodies))) s = Some (cs @ calls, u)"
    using one(1) two(1) by (simp only: Decode_append) simp
  with one(2) two(2,3) show ?thesis by blast
qed

lemma resync_witness:
  "\<exists>first c t. Decode True (concat (replicate 3 (gprmc_line (replicate 66 44) @ [10])))
     \<lparr>rmc_buff = kGNRMC @ replicate 122 42, cur_len = 90\<rparr> = Some (first @ [c], t) \<and>
     call_string c = butlast (gprmc_line (replicate 66 44))"
proof -
  let ?s = "\<lparr>rmc_buff = kGNRMC @ replicate 122 42, cur_len = 90\<rparr>" and ?b = "replicate 66 44 :: u8 list"
  have "gps_inv ?s" "plain_body ?b" by (simp_all add: gps_inv_def plain_body_def)
  with resync [of ?s ?b ?b "[?b]"] obtain first calls t where
    "Decode True (concat (replicate 3 (gprmc_line ?b @ [10]))) ?s = Some (first @ calls, t)"
    "map call_string calls = [butlast (gprmc_line ?b)]"
    by (auto simp: numeral_3_eq_3 simp del: Decode.simps)
  then show ?thesis by (cases calls) auto
qed

section \<open>What the reader guarantees\<close>

text \<open>
  C40. Whatever bytes arrive, in whatever amount, the reader stays inside its buffer, and it calls only
  for a text that starts with \<open>$GPRMC\<close> or \<open>$GNRMC\<close>, has its star two places before the last byte and
  whose exclusive or equals the hexadecimal number behind the star.
\<close>

theorem Decode_safe:
  "\<exists>calls t. Decode cb bs synchro_init = Some (calls, t) \<and>
    (\<forall>(buf, n) \<in> set calls. length buf = 128 \<and> 6 \<le> unat n \<and> unat n < 128 \<and> take 6 buf \<in> {kGPRMC, kGNRMC} \<and>
       buf ! (unat n - 2) = 42 \<and> rmc_check buf (unat n) = 0)"
proof -
  have "gps_inv synchro_init" by (simp add: gps_inv_def synchro_init_def)
  from Decode_sound [OF this, of cb bs] show ?thesis by blast
qed

lemma Decode_safe_witness:
  "\<exists>calls t. Decode True (gprmc_line (ascii '',1'')) synchro_init = Some (calls, t) \<and>
    (\<forall>(buf, n) \<in> set calls. length buf = 128 \<and> buf ! (unat n - 2) = 42)"
  using Decode_safe [of True "gprmc_line (ascii '',1'')"] by fastforce

text \<open>
  Every sentence with a right checksum, at most 128 bytes long, is passed on exactly once, in order, when the
  lines arrive one after another at a searching reader. The length it passes is the index of the
  sentence's last byte: the second digit of the checksum is not part of the string.
\<close>

theorem lines_forwarded:
  assumes "searching s" and "\<forall>body \<in> set bodies. plain_body body"
  shows "\<exists>calls t. Decode True (concat (map (\<lambda>body. gprmc_line body @ [10]) bodies)) s = Some (calls, t) \<and>
    searching t \<and> map call_string calls = map (\<lambda>body. butlast (gprmc_line body)) bodies"
  by (rule lines_calls [OF assms])

lemma lines_forwarded_witness:
  "\<exists>calls t. Decode True (gprmc_line (ascii '',1'') @ [10] @ gprmc_line (ascii '',2'') @ [10]) synchro_init = Some (calls, t) \<and>
    map call_string calls = [butlast (gprmc_line (ascii '',1'')), butlast (gprmc_line (ascii '',2''))]"
proof -
  have "searching synchro_init" by (simp add: searching_def synchro_init_def)
  moreover have "\<forall>body \<in> set [ascii '',1'', ascii '',2'']. plain_body body"
    by (simp add: plain_body_def ascii_def of_char_def)
  ultimately show ?thesis using lines_forwarded [of synchro_init "[ascii '',1'', ascii '',2'']"] by auto
qed

end
