(* ===== verification/Rmc_Time.thy ===== *)
theory Rmc_Time
  imports Cstring
begin

text \<open>
  The time of a sentence, in the Livox SDK
  (\<open>src/src/Livox-SDK2/sdk_core/command_handler/command_impl.cpp\<close>): a GPRMC sentence is split at
  its commas, date and time of day become a calendar time, and this the nanoseconds that the command
  \<open>SetLivoxLidarRmcSyncTime\<close> sends. Strings are byte lists. An index outside a vector is
  \<open>None\<close>. Of the library the model has \<open>getline\<close> with a delimiter, \<open>get_time\<close> for numeric fields
  and \<open>mktime\<close> in a zone without daylight saving time, \<open>tz\<close> seconds east of Greenwich.
\<close>

section \<open>Library functions\<close>

type_synonym u64 = "64 word"

record tm =
  tm_sec :: int
  tm_min :: int
  tm_hour :: int
  tm_mday :: int
  tm_mon :: int
  tm_year :: int

definition tm_zero :: tm where
  "tm_zero = \<lparr>tm_sec = 0, tm_min = 0, tm_hour = 0, tm_mday = 0, tm_mon = 0, tm_year = 0\<rparr>"

definition is_digit :: "u8 \<Rightarrow> bool" where
  "is_digit c \<longleftrightarrow> 48 \<le> c \<and> c \<le> 57"

text \<open>A number of at most \<open>width\<close> digits between two bounds, and the rest of the input.\<close>

definition scan_number :: "nat \<Rightarrow> int \<Rightarrow> int \<Rightarrow> u8 list \<Rightarrow> (int \<times> u8 list) option" where
  "scan_number width lo hi s =
     (let ds = takeWhile is_digit (take width s);
          n = foldl (\<lambda>n c. 10 * n + (uint c - 48)) 0 ds
      in if ds \<noteq> [] \<and> lo \<le> n \<and> n \<le> hi then Some (n, drop (length ds) s) else None)"

definition scan_field :: "u8 \<Rightarrow> u8 list \<Rightarrow> tm \<Rightarrow> (tm \<times> u8 list) option" where
  "scan_field c s t =
     (if c = of_char CHR ''Y'' then map_option (\<lambda>(n, r). (t\<lparr>tm_year := n - 1900\<rparr>, r)) (scan_number 4 0 9999 s)
      else if c = of_char CHR ''m'' then map_option (\<lambda>(n, r). (t\<lparr>tm_mon := n - 1\<rparr>, r)) (scan_number 2 1 12 s)
      else if c = of_char CHR ''d'' then map_option (\<lambda>(n, r). (t\<lparr>tm_mday := n\<rparr>, r)) (scan_number 2 1 31 s)
      else if c = of_char CHR ''H'' then map_option (\<lambda>(n, r). (t\<lparr>tm_hour := n\<rparr>, r)) (scan_number 2 0 23 s)
      else if c = of_char CHR ''M'' then map_option (\<lambda>(n, r). (t\<lparr>tm_min := n\<rparr>, r)) (scan_number 2 0 59 s)
      else if c = of_char CHR ''S'' then map_option (\<lambda>(n, r). (t\<lparr>tm_sec := n\<rparr>, r)) (scan_number 2 0 60 s)
      else None)"

text \<open>\<open>get_time\<close>: a conversion (37 is \<open>%\<close>), a blank that skips blanks, or the character itself. At the
  first failure the fields read so far stay.\<close>

fun get_time :: "u8 list \<Rightarrow> u8 list \<Rightarrow> tm \<Rightarrow> tm" where
  "get_time [] s t = t"
| "get_time [f] s t = t"
| "get_time (f # c # fs) s t =
     (if f = 37 then (case scan_field c s t of None \<Rightarrow> t | Some (t, s) \<Rightarrow> get_time fs s t)
      else if f = 32 then get_time (c # fs) (dropWhile (\<lambda>x. x = 32) s) t
      else case s of [] \<Rightarrow> t | x # s \<Rightarrow> if x = f then get_time (c # fs) s t else t)"

definition days_before_month :: "int list" where
  "days_before_month = [0, 31, 59, 90, 120, 151, 181, 212, 243, 273, 304, 334]"

definition leap_year :: "int \<Rightarrow> bool" where
  "leap_year y \<longleftrightarrow> y mod 4 = 0 \<and> (y mod 100 \<noteq> 0 \<or> y mod 400 = 0)"

text \<open>The seconds since the epoch, by the formula of POSIX.\<close>

definition mktime :: "int \<Rightarrow> tm \<Rightarrow> int" where
  "mktime tz t =
     (let y = tm_year t;
          yday = days_before_month ! nat (tm_mon t) + tm_mday t - 1 +
            (if leap_year (y + 1900) \<and> 2 \<le> tm_mon t then 1 else 0)
      in tm_sec t + tm_min t * 60 + tm_hour t * 3600 + yday * 86400 + (y - 70) * 31536000 +
         (y - 69) div 4 * 86400 - (y - 1) div 100 * 86400 + (y + 299) div 400 * 86400 - tz)"

section \<open>Operations\<close>

definition StringToTimestamp :: "int \<Rightarrow> u8 list \<Rightarrow> u8 list \<Rightarrow> int" where
  "StringToTimestamp tz fmt date = mktime tz (get_time fmt date tm_zero)"

function Split :: "u8 list \<Rightarrow> u8 \<Rightarrow> u8 list list" where
  "Split str pat =
     (if str = [] then []
      else takeWhile (\<lambda>c. c \<noteq> pat) str # Split (tl (dropWhile (\<lambda>c. c \<noteq> pat) str)) pat)"
  by pat_completeness auto

termination
proof (relation "measure (\<lambda>(str, pat). length str)")
  fix str :: "u8 list" and pat
  assume "str \<noteq> []"
  then have "0 < length str" by simp
  moreover have "length (dropWhile (\<lambda>c. c \<noteq> pat) str) \<le> length str" by (rule length_dropWhile_le)
  ultimately show "((tl (dropWhile (\<lambda>c. c \<noteq> pat) str), pat), (str, pat)) \<in> measure (\<lambda>(str, pat). length str)"
    by (simp add: less_eq_Suc_le le_diff_conv)
qed simp

declare Split.simps [simp del]

definition vec_at :: "'a list \<Rightarrow> nat \<Rightarrow> 'a option" where
  "vec_at xs i = (if i < length xs then Some (xs ! i) else None)"

text \<open>\<open>s.substr(pos, n)\<close>; beyond the end of \<open>s\<close> it throws, but the lengths have been checked.\<close>

definition substr :: "u8 list \<Rightarrow> nat \<Rightarrow> nat \<Rightarrow> u8 list" where
  "substr s pos n = take n (drop pos s)"

definition ParseGPRMC :: "int \<Rightarrow> u8 list \<Rightarrow> u64 option" where
  "ParseGPRMC tz gprmc =
     (let gprmc_vec = Split gprmc (of_char CHR '','')
      in if length gprmc_vec < 9 then Some 0
         else do {
           clock \<leftarrow> vec_at gprmc_vec 1;
           if length clock < 6 then Some 0
           else do {
             date \<leftarrow> vec_at gprmc_vec 9;
             if length date < 6 then Some 0
             else
               let year = drop 4 date;
                   month = substr date 2 2;
                   day = substr date 0 2;
                   hour = substr clock 0 2;
                   minute = substr clock 2 2;
                   second = substr clock 4 2;
                   time = ascii ''20'' @ year @ ascii ''-'' @ month @ ascii ''-'' @ day @ ascii '' '' @
                     hour @ ascii '':'' @ minute @ ascii '':'' @ second;
                   time_ms = word_of_int (StringToTimestamp tz (ascii ''%Y-%m-%d %H:%M:%S'') time * 1000) :: u64
               in Some (time_ms * 1000 * 1000)
           }
         })"

record rmc_request =
  rmc_type :: u8
  rmc_ns :: u64

definition kRmcSyncTime :: u8 where
  "kRmcSyncTime = 2"

text \<open>The body of the command \<open>kCommandIDLidarSetPPSSync\<close>. The bytes \<open>rmc\<close> are the object that the
  pointer points to.\<close>

definition SetLivoxLidarRmcSyncTime :: "int \<Rightarrow> u8 list \<Rightarrow> u16 \<Rightarrow> rmc_request option" where
  "SetLivoxLidarRmcSyncTime tz rmc rmc_length =
     (if unat rmc_length \<le> length rmc then do {
        ns \<leftarrow> ParseGPRMC tz (take (unat rmc_length) rmc);
        Some \<lparr>rmc_type = kRmcSyncTime, rmc_ns = ns\<rparr>
      } else None)"

section \<open>Splitting\<close>

fun join :: "u8 \<Rightarrow> u8 list list \<Rightarrow> u8 list" where
  "join c [] = []"
| "join c [part] = part"
| "join c (part # parts) = part @ c # join c parts"

lemma Split_part: "pat \<notin> set part \<Longrightarrow> Split (part @ pat # rest) pat = part # Split rest pat"
proof -
  assume "pat \<notin> set part"
  then have ne: "\<And>c. c \<in> set part \<Longrightarrow> c \<noteq> pat" by auto
  show ?thesis by (subst Split.simps) (simp add: takeWhile_append2 [OF ne] dropWhile_append2 [OF ne])
qed

lemma Split_last:
  assumes "pat \<notin> set part" and "part \<noteq> []"
  shows "Split part pat = [part]"
proof -
  have "takeWhile (\<lambda>c. c \<noteq> pat) part = part" using assms(1) by (auto simp: takeWhile_eq_all_conv)
  moreover have "dropWhile (\<lambda>c. c \<noteq> pat) part = []" using assms(1) by (auto simp: dropWhile_eq_Nil_conv)
  ultimately show ?thesis using assms(2) by (subst Split.simps) (simp only: Split.simps [of "[]"] list.sel if_True if_False refl)
qed

lemma Split_join_parts:
  assumes "\<forall>part \<in> set parts. pat \<notin> set part" and "parts \<noteq> []" and "last parts \<noteq> []"
  shows "Split (join pat parts) pat = parts"
  using assms
proof (induction pat parts rule: join.induct)
  case (1 c)
  then show ?case by simp
next
  case (2 c part)
  then show ?case by (simp add: Split_last)
next
  case (3 c part p parts)
  then show ?case by (simp add: Split_part)
qed

section \<open>Reading two digits\<close>

lemma digit_of_two: "n < 10 \<Longrightarrow> is_digit (48 + of_nat n) \<and> uint ((48 :: u8) + of_nat n) = 48 + int n"
proof -
  assume n: "n < 10"
  have u: "unat ((48 :: u8) + of_nat n) = 48 + n" by (rule unat_digit [OF n])
  then have "uint ((48 :: u8) + of_nat n) = int (48 + n)" by (metis uint_nat)
  moreover have "is_digit (48 + of_nat n)" unfolding is_digit_def word_le_nat_alt u using n by simp
  ultimately show ?thesis by simp
qed

lemma two_digits_value:
  assumes "0 \<le> n" and "n < 100"
  shows "takeWhile is_digit (two_digits n) = two_digits n"
    "foldl (\<lambda>n c. 10 * n + (uint c - 48)) k (two_digits n) = 100 * k + n"
proof -
  have "nat n div 10 < 10" "nat n mod 10 < 10" using assms by auto
  note d = this [THEN digit_of_two]
  show "takeWhile is_digit (two_digits n) = two_digits n" using d by (simp add: two_digits_def)
  have "int (nat n div 10) * 10 + int (nat n mod 10) = n"
    using assms(1) by (simp add: zdiv_int zmod_int)
  then show "foldl (\<lambda>n c. 10 * n + (uint c - 48)) k (two_digits n) = 100 * k + n"
    using d by (simp add: two_digits_def)
qed

lemma scan_two_digits:
  assumes "0 \<le> n" and "n < 100" and "lo \<le> n" and "n \<le> hi"
  shows "scan_number 2 lo hi (two_digits n @ rest) = Some (n, rest)"
proof -
  have len: "length (two_digits n) = 2" by (simp add: two_digits_def)
  then have "two_digits n \<noteq> []" by auto
  then show ?thesis
    using assms(3,4) len
    by (simp add: scan_number_def two_digits_value [OF assms(1,2)])
qed

lemma scan_century:
  assumes "0 \<le> n" and "n < 100"
  shows "scan_number 4 0 9999 (ascii ''20'' @ two_digits n @ rest) = Some (2000 + n, rest)"
proof -
  have len: "length (two_digits n) = 2" by (simp add: two_digits_def)
  have a: "ascii ''20'' = [50, 48]" by (simp add: ascii_def of_char_def)
  have d: "is_digit 50" "is_digit 48" by (simp_all add: is_digit_def)
  show ?thesis
    using assms len d by (simp add: scan_number_def a two_digits_value [OF assms] Let_def)
qed

section \<open>Reading a date and a time of day\<close>

definition calendar :: "int \<Rightarrow> int \<Rightarrow> int \<Rightarrow> int \<Rightarrow> int \<Rightarrow> int \<Rightarrow> tm" where
  "calendar y mo d h mi s = \<lparr>tm_sec = s, tm_min = mi, tm_hour = h, tm_mday = d, tm_mon = mo - 1, tm_year = y - 1900\<rparr>"

definition calendar_ok :: "int \<Rightarrow> int \<Rightarrow> int \<Rightarrow> int \<Rightarrow> int \<Rightarrow> int \<Rightarrow> bool" where
  "calendar_ok y mo d h mi s \<longleftrightarrow> 2000 \<le> y \<and> y < 2100 \<and> 1 \<le> mo \<and> mo \<le> 12 \<and> 1 \<le> d \<and> d \<le> 31 \<and>
     0 \<le> h \<and> h < 24 \<and> 0 \<le> mi \<and> mi < 60 \<and> 0 \<le> s \<and> s \<le> 60"

lemma get_time_lit: "f \<noteq> 37 \<Longrightarrow> f \<noteq> 32 \<Longrightarrow> get_time (f # c # fs) (f # s) t = get_time (c # fs) s t"
  by simp

lemma get_time_calendar:
  assumes "calendar_ok y mo d h mi s"
  shows "get_time (ascii ''%Y-%m-%d %H:%M:%S'') (ascii ''20'' @ two_digits (y - 2000) @ ascii ''-'' @ two_digits mo @
    ascii ''-'' @ two_digits d @ ascii '' '' @ two_digits h @ ascii '':'' @ two_digits mi @ ascii '':'' @ two_digits s) tm_zero =
    calendar y mo d h mi s"
proof -
  have a: "ascii ''%Y-%m-%d %H:%M:%S'' = [37, 89, 45, 37, 109, 45, 37, 100, 32, 37, 72, 58, 37, 77, 58, 37, 83]"
    "ascii ''-'' = [45]" "ascii '' '' = [32]" "ascii '':'' = [58]"
    by (simp_all add: ascii_def of_char_def)
  have sc: "scan_number 4 0 9999 (ascii ''20'' @ two_digits (y - 2000) @ r) = Some (y, r)"
    "scan_number 2 1 12 (two_digits mo @ r) = Some (mo, r)" "scan_number 2 1 31 (two_digits d @ r) = Some (d, r)"
    "scan_number 2 0 23 (two_digits h @ r) = Some (h, r)" "scan_number 2 0 59 (two_digits mi @ r) = Some (mi, r)"
    "scan_number 2 0 60 (two_digits s) = Some (s, [])" for r
    using assms scan_century [of "y - 2000" r] scan_two_digits [of s 0 60 "[]"]
    by (auto simp: calendar_ok_def scan_two_digits)
  have blank: "dropWhile (\<lambda>x. x = 32) (two_digits h @ r) = two_digits h @ r" for r
  proof -
    have "nat h div 10 < 10" using assms by (auto simp: calendar_ok_def)
    have "(48 :: u8) + of_nat (nat h div 10) \<noteq> 32"
    proof
      assume eq: "(48 :: u8) + of_nat (nat h div 10) = 32"
      from digit_of_two [OF \<open>nat h div 10 < 10\<close>] show False unfolding eq by simp
    qed
    then show ?thesis by (simp add: two_digits_def)
  qed
  show ?thesis
    unfolding a by (simp add: scan_field_def of_char_def sc blank tm_zero_def calendar_def)
qed


section \<open>The time of a sentence\<close>

text \<open>Nanoseconds since the epoch.\<close>

definition time_ns :: "int \<Rightarrow> int \<Rightarrow> int \<Rightarrow> int \<Rightarrow> int \<Rightarrow> int \<Rightarrow> int \<Rightarrow> u64" where
  "time_ns tz y mo d h mi s = word_of_int (mktime tz (calendar y mo d h mi s) * 1000000000)"

definition rmc_fields :: "u8 list list \<Rightarrow> int \<Rightarrow> int \<Rightarrow> int \<Rightarrow> int \<Rightarrow> int \<Rightarrow> int \<Rightarrow> bool" where
  "rmc_fields fs y mo d h mi s \<longleftrightarrow> 10 \<le> length fs \<and> last fs \<noteq> [] \<and> (\<forall>f \<in> set fs. 44 \<notin> set f) \<and>
     (\<exists>frac. fs ! 1 = two_digits h @ two_digits mi @ two_digits s @ frac) \<and>
     fs ! 9 = two_digits d @ two_digits mo @ two_digits (y - 2000)"

lemma ParseGPRMC_fields:
  assumes "rmc_fields fs y mo d h mi s" and "calendar_ok y mo d h mi s"
  shows "ParseGPRMC tz (join 44 fs) = Some (time_ns tz y mo d h mi s)"
proof -
  have comma: "of_char CHR '','' = (44 :: u8)" by (simp add: of_char_def)
  have "fs \<noteq> []" using assms(1) by (auto simp: rmc_fields_def)
  then have split: "Split (join 44 fs) 44 = fs"
    using assms(1) by (intro Split_join_parts) (simp_all add: rmc_fields_def)
  obtain frac where f1: "fs ! 1 = two_digits h @ two_digits mi @ two_digits s @ frac"
    and f9: "fs ! 9 = two_digits d @ two_digits mo @ two_digits (y - 2000)" and n: "10 \<le> length fs"
    using assms(1) by (auto simp: rmc_fields_def)
  have two: "length (two_digits k) = 2" for k by (simp add: two_digits_def)
  have at: "vec_at fs 1 = Some (fs ! 1)" "vec_at fs 9 = Some (fs ! 9)" using n by (simp_all add: vec_at_def)
  have len: "6 \<le> length (fs ! 1)" "6 \<le> length (fs ! 9)" unfolding f1 f9 by (simp_all add: two)
  have cut: "drop 4 (fs ! 9) = two_digits (y - 2000)" "substr (fs ! 9) 2 2 = two_digits mo"
    "substr (fs ! 9) 0 2 = two_digits d" "substr (fs ! 1) 0 2 = two_digits h"
    "substr (fs ! 1) 2 2 = two_digits mi" "substr (fs ! 1) 4 2 = two_digits s"
    unfolding f1 f9 by (simp_all add: substr_def two)
  have "ParseGPRMC tz (join 44 fs) =
      Some (word_of_int (mktime tz (calendar y mo d h mi s) * 1000) * 1000 * 1000)"
    using n len by (simp add: ParseGPRMC_def comma split at cut Let_def StringToTimestamp_def get_time_calendar [OF assms(2)]
        del: One_nat_def)
  then show ?thesis by (simp add: time_ns_def)
qed

text \<open>
  A GPRMC sentence with all its fields gives the lidar exactly the nanoseconds of its date and time of
  day: whatever the other fields and the fraction of the second are, in every time zone, the command's
  body is the calendar time read from fields 1 and 9 times \<open>10\<^sup>9\<close>.
\<close>

theorem rmc_time_sent:
  assumes "rmc_fields fs y mo d h mi s" and "calendar_ok y mo d h mi s" and "length (join 44 fs) < 65536"
    and "rmc = join 44 fs @ rest"
  shows "SetLivoxLidarRmcSyncTime tz rmc (of_nat (length (join 44 fs))) =
    Some \<lparr>rmc_type = kRmcSyncTime, rmc_ns = time_ns tz y mo d h mi s\<rparr>"
proof -
  have "unat (of_nat (length (join 44 fs)) :: u16) = length (join 44 fs)"
    using assms(3) by (simp add: unat_of_nat)
  then show ?thesis by (simp add: SetLivoxLidarRmcSyncTime_def assms(4) ParseGPRMC_fields [OF assms(1,2)])
qed

lemma rmc_time_sent_witness:
  "SetLivoxLidarRmcSyncTime 0 (ascii ''$GPRMC,235959.50,A,1,N,2,E,0,0,311299,x'') 39 =
    Some \<lparr>rmc_type = kRmcSyncTime, rmc_ns = time_ns 0 2099 12 31 23 59 59\<rparr>"
proof -
  let ?f = "[ascii ''$GPRMC'', ascii ''235959.50'', ascii ''A'', ascii ''1'', ascii ''N'', ascii ''2'', ascii ''E'',
    ascii ''0'', ascii ''0'', ascii ''311299'', ascii ''x'']"
  have f: "rmc_fields ?f 2099 12 31 23 59 59"
    by (simp add: rmc_fields_def ascii_def of_char_def two_digits_def)
  have j: "join 44 ?f = ascii ''$GPRMC,235959.50,A,1,N,2,E,0,0,311299,x''" by (simp add: ascii_def of_char_def)
  have n: "length (join 44 ?f) = 39" unfolding j by (simp add: ascii_def)
  show ?thesis
    using rmc_time_sent [OF f, of "join 44 ?f" "[]" 0] unfolding n unfolding j by (simp add: calendar_ok_def)
qed

text \<open>
  The length check is one short: a sentence that stops after its ninth field, with a good time of
  day, passes it and the date is then read from a tenth field that does not exist; with fewer fields
  the answer is the time 0.
\<close>

theorem rmc_nine_fields:
  assumes "\<forall>f \<in> set fs. 44 \<notin> set f" and "fs \<noteq> []" and "last fs \<noteq> []"
  shows "(length fs = 9 \<and> 6 \<le> length (fs ! 1) \<longrightarrow> ParseGPRMC tz (join 44 fs) = None) \<and>
    (length fs < 9 \<longrightarrow> ParseGPRMC tz (join 44 fs) = Some 0) \<and>
    (10 \<le> length fs \<longrightarrow> ParseGPRMC tz (join 44 fs) \<noteq> None)"
proof -
  have comma: "of_char CHR '','' = (44 :: u8)" by (simp add: of_char_def)
  have split: "Split (join 44 fs) 44 = fs" using assms by (intro Split_join_parts)
  show ?thesis by (simp add: ParseGPRMC_def comma split vec_at_def Let_def)
qed

lemma rmc_nine_fields_witness:
  "ParseGPRMC 0 (ascii ''$GPRMC,235959,A,1,N,2,E,0,0'') = None"
proof -
  let ?f = "[ascii ''$GPRMC'', ascii ''235959'', ascii ''A'', ascii ''1'', ascii ''N'', ascii ''2'', ascii ''E'',
    ascii ''0'', ascii ''0'']"
  have j: "join 44 ?f = ascii ''$GPRMC,235959,A,1,N,2,E,0,0''" by (simp add: ascii_def of_char_def)
  have c: "\<forall>f \<in> set ?f. 44 \<notin> set f" "6 \<le> length (ascii ''235959'')" "ascii ''0'' \<noteq> []"
    by (simp_all add: ascii_def of_char_def)
  show ?thesis using rmc_nine_fields [of ?f 0] c unfolding j by simp
qed

end
