(* ===== verification/Gprmc_Feeder.thy ===== *)
theory Gprmc_Feeder
  imports Synchro Rmc_Time Interfaces
begin

text \<open>
  The driver's time feeder, \<open>src/src/livox_ros_driver2/src/gprmc_feeder.cpp\<close>, over the port reader's
  start and stop (\<open>synchro.cpp\<close>): the first lidar that reports in starts the reader, later ones only
  change the handle, and every sentence becomes a command to the lidar of the current handle. What
  \<open>open\<close> returns and what the port delivers are arguments of the events. Starting the reader's
  thread over a running one ends the process: \<open>None\<close>.
\<close>

section \<open>State\<close>

datatype BaudRate = BR2400 | BR4800 | BR9600 | BR19200 | BR38400 | BR57600 | BR115200 | BR230400
  | BR460800 | BR500000 | BR576000 | BR921600 | BR1152000 | BR1500000 | BR2000000 | BR2500000
  | BR3000000 | BR3500000 | BR4000000

datatype Parity = P_8N1 | P_7E1 | P_7O1 | P_7S1

text \<open>\<open>listener\<close>: the thread exists. \<open>has_cb\<close>: the callback is the feeder's.\<close>

record serial_reader =
  fd :: int
  baudrate :: BaudRate
  par :: Parity
  port_name :: "u8 list"
  has_cb :: bool
  is_quit :: bool
  listener :: bool
  gps :: synchro

record feeder = serial_reader +
  port :: "u8 list"
  baud :: int
  parity_str :: "u8 list"
  enabled :: bool
  started :: bool
  handle :: u32

definition feeder_init :: feeder where
  "feeder_init = \<lparr>fd = 0, baudrate = BR2400, par = P_8N1, port_name = [], has_cb = False, is_quit = False,
     listener = False, gps = synchro_init,
     port = ascii ''/dev/ttyUSB0'', baud = 9600, parity_str = ascii ''8N1'', enabled = False,
     started = False, handle = 0\<rparr>"

section \<open>Operations of the reader\<close>

definition Synchro_Open :: "int \<Rightarrow> 'a serial_reader_scheme \<Rightarrow> bool \<times> 'a serial_reader_scheme" where
  "Synchro_Open open_result s =
     (let s = s\<lparr>fd := open_result\<rparr> in if fd s < 0 then (False, s) else (True, s))"

definition Synchro_Start :: "int \<Rightarrow> 'a serial_reader_scheme \<Rightarrow> (bool \<times> 'a serial_reader_scheme) option" where
  "Synchro_Start open_result s =
     (case Synchro_Open open_result s of (ok, s) \<Rightarrow>
        if \<not> ok then Some (False, s)
        else if listener s then None
        else Some (True, s\<lparr>is_quit := False, listener := True\<rparr>))"

definition Synchro_Stop :: "'a serial_reader_scheme \<Rightarrow> 'a serial_reader_scheme" where
  "Synchro_Stop s =
     (let s = s\<lparr>is_quit := True\<rparr>;
          s = (if listener s then s\<lparr>listener := False\<rparr> else s)
      in s\<lparr>fd := 0\<rparr>)"

text \<open>One turn of the reading loop, with what the port delivers. The result are the calls.\<close>

definition Synchro_IOLoop_step ::
  "u8 list \<Rightarrow> 'a serial_reader_scheme \<Rightarrow> ((u8 list \<times> u16) list \<times> 'a serial_reader_scheme) option" where
  "Synchro_IOLoop_step bytes s =
     (if listener s \<and> \<not> is_quit s \<and> fd s > 0 \<and> bytes \<noteq> [] then do {
        (calls, g) \<leftarrow> Decode (has_cb s) bytes (gps s);
        Some (calls, s\<lparr>gps := g\<rparr>)
      } else Some ([], s))"

section \<open>Operations of the feeder\<close>

definition ParseBaud :: "int \<Rightarrow> BaudRate" where
  "ParseBaud n =
     (if n = 2400 then BR2400 else if n = 4800 then BR4800 else if n = 9600 then BR9600
      else if n = 19200 then BR19200 else if n = 38400 then BR38400 else if n = 57600 then BR57600
      else if n = 115200 then BR115200 else if n = 230400 then BR230400 else BR9600)"

definition ParseParity :: "u8 list \<Rightarrow> Parity" where
  "ParseParity str =
     (if str = ascii ''7E1'' then P_7E1 else if str = ascii ''7O1'' then P_7O1
      else if str = ascii ''7S1'' then P_7S1 else P_8N1)"

definition Configure :: "u8 list \<Rightarrow> int \<Rightarrow> u8 list \<Rightarrow> bool \<Rightarrow> feeder \<Rightarrow> feeder" where
  "Configure p b par_s en s = s\<lparr>port := p, baud := b, parity_str := par_s, enabled := en\<rparr>"

definition OnLidarHandle :: "int \<Rightarrow> u32 \<Rightarrow> feeder \<Rightarrow> feeder option" where
  "OnLidarHandle open_result h s =
     (if \<not> enabled s then Some s
      else if started s then Some (s\<lparr>handle := h\<rparr>)
      else
        let s = s\<lparr>started := True\<rparr>;
            s = s\<lparr>handle := h\<rparr>;
            s = s\<lparr>port_name := port s\<rparr>;
            s = s\<lparr>baudrate := ParseBaud (baud s)\<rparr>;
            s = s\<lparr>par := ParseParity (parity_str s)\<rparr>;
            s = s\<lparr>has_cb := True\<rparr>
        in do {
          (ok, s) \<leftarrow> Synchro_Start open_result s;
          Some (if ok then s else s\<lparr>started := False\<rparr>)
        })"

definition Feeder_Stop :: "feeder \<Rightarrow> feeder" where
  "Feeder_Stop s =
     (if \<not> started s then s
      else let s = Synchro_Stop s; s = s\<lparr>started := False\<rparr> in s\<lparr>handle := 0\<rparr>)"

text \<open>The callback: a command for a handle, its body \<open>None\<close> when the sentence is read out of bounds.\<close>

type_synonym rmc_command = "u32 \<times> rmc_request option"

definition on_sentence :: "int \<Rightarrow> u32 \<Rightarrow> u8 list \<times> u16 \<Rightarrow> rmc_command list" where
  "on_sentence tz h call =
     (if h = 0 then [] else [(h, SetLivoxLidarRmcSyncTime tz (fst call) (snd call))])"

section \<open>The running driver\<close>

datatype feeder_event =
    Config "u8 list" int "u8 list" bool
  | Lidar int u32
  | Bytes "u8 list"
  | Shutdown

fun feeder_step :: "int \<Rightarrow> feeder_event \<Rightarrow> feeder \<Rightarrow> (rmc_command list \<times> feeder) option" where
  "feeder_step tz (Config p b q en) s = Some ([], Configure p b q en s)"
| "feeder_step tz (Lidar r h) s = do { s \<leftarrow> OnLidarHandle r h s; Some ([], s) }"
| "feeder_step tz (Bytes bs) s = do {
     (calls, s) \<leftarrow> Synchro_IOLoop_step bs s;
     Some (concat (map (on_sentence tz (handle s)) calls), s)
   }"
| "feeder_step tz Shutdown s = Some ([], Feeder_Stop s)"

fun feeder_run :: "int \<Rightarrow> feeder_event list \<Rightarrow> feeder \<Rightarrow> (rmc_command list \<times> feeder) option" where
  "feeder_run tz [] s = Some ([], s)"
| "feeder_run tz (e # es) s = do {
     (cs, s) \<leftarrow> feeder_step tz e s;
     (ds, s) \<leftarrow> feeder_run tz es s;
     Some (cs @ ds, s)
   }"

section \<open>The reader runs exactly while the feeder is started\<close>

definition feeder_inv :: "feeder \<Rightarrow> bool" where
  "feeder_inv s \<longleftrightarrow> gps_inv (gps s) \<and> listener s = started s \<and> (started s \<longrightarrow> has_cb s \<and> \<not> is_quit s \<and> 0 \<le> fd s) \<and>
     (\<not> started s \<longrightarrow> fd s \<le> 0)"

lemma feeder_init_inv: "feeder_inv feeder_init"
  by (simp add: feeder_inv_def feeder_init_def gps_inv_def synchro_init_def)

lemma Config_step: "feeder_inv s \<Longrightarrow> feeder_inv (Configure p b q en s)"
  by (simp add: feeder_inv_def Configure_def)

lemma Lidar_step:
  assumes "feeder_inv s"
  shows "\<exists>t. OnLidarHandle r h s = Some t \<and> feeder_inv t \<and> gps t = gps s \<and> enabled t = enabled s \<and>
    started t = (started s \<or> enabled s \<and> 0 \<le> r) \<and> handle t = (if enabled s then h else handle s) \<and>
    fd t = (if enabled s \<and> \<not> started s then r else fd s)"
  using assms
  by (auto simp: OnLidarHandle_def feeder_inv_def Synchro_Start_def Synchro_Open_def Let_def)

lemma Shutdown_step:
  assumes "feeder_inv s"
  shows "feeder_inv (Feeder_Stop s) \<and> \<not> started (Feeder_Stop s) \<and> gps (Feeder_Stop s) = gps s \<and>
    enabled (Feeder_Stop s) = enabled s"
  using assms by (simp add: Feeder_Stop_def feeder_inv_def Synchro_Stop_def Let_def)

lemma Bytes_step:
  assumes "feeder_inv s"
  shows "\<exists>calls g. Synchro_IOLoop_step bs s = Some (calls, s\<lparr>gps := g\<rparr>) \<and> feeder_inv (s\<lparr>gps := g\<rparr>) \<and>
    (if started s \<and> 0 < fd s then Decode True bs (gps s) = Some (calls, g) else calls = [] \<and> g = gps s)"
proof -
  have g: "gps_inv (gps s)" using assms by (simp add: feeder_inv_def)
  from Decode_sound [OF g, of True bs] obtain calls u where u: "Decode True bs (gps s) = Some (calls, u)" "gps_inv u" by blast
  show ?thesis
  proof (cases "started s \<and> 0 < fd s \<and> bs \<noteq> []")
    case True
    then have "Synchro_IOLoop_step bs s = Some (calls, s\<lparr>gps := u\<rparr>)"
      using assms u by (simp add: Synchro_IOLoop_step_def feeder_inv_def)
    then show ?thesis using True u assms by (intro exI [of _ calls] exI [of _ u]) (simp add: feeder_inv_def)
  next
    case False
    then have "Synchro_IOLoop_step bs s = Some ([], s\<lparr>gps := gps s\<rparr>)"
      using assms by (auto simp: Synchro_IOLoop_step_def feeder_inv_def)
    then show ?thesis using False u(1) assms
      by (intro exI [of _ "[]"] exI [of _ "gps s"]) (auto simp: feeder_inv_def)
  qed
qed

lemma feeder_step_inv:
  assumes "feeder_inv s"
  shows "\<exists>cs t. feeder_step tz e s = Some (cs, t) \<and> feeder_inv t"
proof (cases e)
  case (Config p b q en)
  then show ?thesis using Config_step [OF assms] by simp
next
  case (Lidar r h)
  then show ?thesis using Lidar_step [OF assms, of r h] by auto
next
  case (Bytes bs)
  then show ?thesis using Bytes_step [OF assms, of bs] by auto
next
  case Shutdown
  then show ?thesis using Shutdown_step [OF assms] by simp
qed

section \<open>The link to a lidar\<close>

text \<open>
  What the feeder promises: while a port is open there is one peer, the lidar that reported in last,
  and every sentence that the port delivers is sent to it.
\<close>

record link =
  link_enabled :: bool
  link_peer :: "(u32 \<times> bool) option"
  link_gps :: synchro
  link_out :: "rmc_command list"

fun link_step :: "int \<Rightarrow> feeder_event \<Rightarrow> link \<Rightarrow> link" where
  "link_step tz (Config p b q en) l = l\<lparr>link_enabled := en\<rparr>"
| "link_step tz (Lidar r h) l =
     (if \<not> link_enabled l then l
      else case link_peer l of
             Some (_, readable) \<Rightarrow> l\<lparr>link_peer := Some (h, readable)\<rparr>
           | None \<Rightarrow> if 0 \<le> r then l\<lparr>link_peer := Some (h, 0 < r)\<rparr> else l)"
| "link_step tz (Bytes bs) l =
     (case link_peer l of
        Some (h, True) \<Rightarrow> (case Decode True bs (link_gps l) of
            Some (calls, g) \<Rightarrow> l\<lparr>link_gps := g, link_out := link_out l @ concat (map (on_sentence tz h) calls)\<rparr>
          | None \<Rightarrow> l)
      | _ \<Rightarrow> l)"
| "link_step tz Shutdown l = l\<lparr>link_peer := None\<rparr>"

inductive feeder_trans ::
  "int \<Rightarrow> feeder \<times> rmc_command list \<Rightarrow> feeder_event \<Rightarrow> feeder \<times> rmc_command list \<Rightarrow> bool" for tz where
  event: "feeder_step tz e s = Some (cs, t) \<Longrightarrow> feeder_trans tz (s, out) e (t, out @ cs)"

inductive_cases feeder_transE: "feeder_trans tz p e q"

fun link_abs :: "feeder \<times> rmc_command list \<Rightarrow> link" where
  "link_abs (s, out) =
     \<lparr>link_enabled = enabled s, link_peer = (if started s then Some (handle s, 0 < fd s) else None),
      link_gps = gps s, link_out = out\<rparr>"

lemma link_simulates:
  assumes inv: "feeder_inv s" and st: "feeder_step tz e s = Some (cs, t)"
  shows "link_abs (t, out @ cs) = link_step tz e (link_abs (s, out))"
proof (cases e)
  case (Config p b q en)
  then show ?thesis using st by (auto simp: Configure_def)
next
  case (Lidar r h)
  with st have cs: "cs = []" and t: "OnLidarHandle r h s = Some t" by (auto simp: bind_eq_Some_conv)
  from Lidar_step [OF inv, of r h] t have eff: "gps t = gps s" "enabled t = enabled s"
    "started t = (started s \<or> enabled s \<and> 0 \<le> r)" "handle t = (if enabled s then h else handle s)"
    "fd t = (if enabled s \<and> \<not> started s then r else fd s)" by auto
  show ?thesis unfolding Lidar link_abs.simps eff cs by simp
next
  case (Bytes bs)
  from Bytes_step [OF inv, of bs] obtain calls g where b: "Synchro_IOLoop_step bs s = Some (calls, s\<lparr>gps := g\<rparr>)"
    "if started s \<and> 0 < fd s then Decode True bs (gps s) = Some (calls, g) else calls = [] \<and> g = gps s" by blast
  then have "cs = concat (map (on_sentence tz (handle s)) calls)" "t = s\<lparr>gps := g\<rparr>"
    using st Bytes by auto
  then show ?thesis using b(2) Bytes by (auto split: if_splits)
next
  case Shutdown
  then have "cs = []" "t = Feeder_Stop s" using st by auto
  then show ?thesis using Shutdown_step [OF inv] Shutdown by simp
qed

lemma link_abs_sel:
  "link_out (link_abs p) = snd p" "link_peer (link_abs p) = None \<longleftrightarrow> \<not> started (fst p)"
  by (cases p; simp)+

lemma link_init:
  "link_abs (feeder_init, []) = \<lparr>link_enabled = False, link_peer = None, link_gps = synchro_init, link_out = []\<rparr>"
  by (simp add: feeder_init_def)

declare link_abs.simps [simp del]

interpretation link: simulation "feeder_trans tz" "link_step tz" link_abs "\<lambda>p. feeder_inv (fst p)" for tz
proof
  fix p :: "feeder \<times> rmc_command list" and e
  assume inv: "feeder_inv (fst p)"
  obtain s out where p: "p = (s, out)" by (cases p)
  from feeder_step_inv [of s tz e] inv p obtain cs t where st: "feeder_step tz e s = Some (cs, t)" "feeder_inv t" by auto
  then show "\<exists>q. feeder_trans tz p e q" unfolding p by (blast intro: feeder_trans.event)
next
  fix p e q
  assume inv: "feeder_inv (fst p)" and st: "feeder_trans tz p e q"
  from st obtain s out cs t where p: "p = (s, out)" "q = (t, out @ cs)" "feeder_step tz e s = Some (cs, t)"
    by (auto elim!: feeder_transE)
  show "feeder_inv (fst q)" using feeder_step_inv [of s tz e] inv p by auto
  show "link_abs q = link_step tz e (link_abs p)" using link_simulates p inv by auto
qed

lemma feeder_run_snoc:
  "feeder_run tz (es @ [e]) s = do {
     (cs, t) \<leftarrow> feeder_run tz es s;
     (ds, u) \<leftarrow> feeder_step tz e t;
     Some (cs @ ds, u)
   }"
  by (induction es arbitrary: s)
    (auto simp: bind_eq_Some_conv split: option.splits prod.splits Option.bind_splits)

lemma feeder_run_steps:
  assumes "feeder_inv s"
  shows "\<exists>cs t. feeder_run tz es s = Some (cs, t) \<and> steps (feeder_trans tz) (s, []) es (t, cs)"
proof (induction es rule: rev_induct)
  case Nil
  then show ?case by (simp add: steps.start)
next
  case (snoc e es)
  then obtain cs t where t: "feeder_run tz es s = Some (cs, t)" "steps (feeder_trans tz) (s, []) es (t, cs)" by blast
  from link.run_inv [OF t(2)] assms have "feeder_inv t" by simp
  from feeder_step_inv [OF this] obtain ds u where u: "feeder_step tz e t = Some (ds, u)" by blast
  from steps.more [OF t(2) feeder_trans.event [OF u]] t(1) u show ?case by (auto simp: feeder_run_snoc)
qed

lemma feeder_run_link:
  assumes "feeder_inv s"
  shows "\<exists>cs t. feeder_run tz es s = Some (cs, t) \<and> feeder_inv t \<and>
    link_abs (t, cs) = fold (link_step tz) es (link_abs (s, []))"
proof -
  from feeder_run_steps [OF assms] obtain cs t where t: "feeder_run tz es s = Some (cs, t)"
    "steps (feeder_trans tz) (s, []) es (t, cs)" by blast
  from link.run_inv [OF t(2)] link.run_abs [OF t(2)] assms t(1) show ?thesis by auto
qed

text \<open>
  C17. The feeder implements the link for every sequence of configurations, lidar reports, received bytes
  and shutdowns: it never starts a second reader over a running one nor leaves the reader's buffer, its
  thread runs exactly while it is started, and the commands it has sent are those of the link: each sentence once,
  to the lidar that reported last, none while no port is open or for the handle 0.
\<close>

theorem feeder_refines:
  "\<exists>cs t. feeder_run tz es feeder_init = Some (cs, t) \<and> listener t = started t \<and>
    link_abs (t, cs) = fold (link_step tz) es
      \<lparr>link_enabled = False, link_peer = None, link_gps = synchro_init, link_out = []\<rparr>"
  using feeder_run_link [OF feeder_init_inv, of tz es] unfolding link_init feeder_inv_def by blast

text \<open>
  After a shutdown nothing is sent any more, whatever still arrives, until a lidar reports in again.
\<close>

theorem no_command_after_shutdown:
  assumes "list_all (\<lambda>e. case e of Lidar r h \<Rightarrow> False | _ \<Rightarrow> True) later"
  shows "\<exists>cs t u. feeder_run tz (es @ [Shutdown]) feeder_init = Some (cs, t) \<and>
    feeder_run tz (es @ [Shutdown] @ later) feeder_init = Some (cs, u)"
proof -
  from feeder_run_link [OF feeder_init_inv, of tz "es @ [Shutdown]"] obtain cs t where
    t: "feeder_run tz (es @ [Shutdown]) feeder_init = Some (cs, t)"
      "link_abs (t, cs) = fold (link_step tz) (es @ [Shutdown]) (link_abs (feeder_init, []))" by blast
  from feeder_run_link [OF feeder_init_inv, of tz "es @ [Shutdown] @ later"] obtain ds u where
    u: "feeder_run tz (es @ [Shutdown] @ later) feeder_init = Some (ds, u)"
      "link_abs (u, ds) = fold (link_step tz) (es @ [Shutdown] @ later) (link_abs (feeder_init, []))" by blast
  have quiet: "link_peer l = None \<Longrightarrow> link_out (fold (link_step tz) later l) = link_out l" for l
    using assms
  proof (induction later arbitrary: l)
    case Nil
    then show ?case by simp
  next
    case (Cons e later)
    then have "link_peer (link_step tz e l) = None" "link_out (link_step tz e l) = link_out l"
      by (cases e; simp)+
    with Cons show ?case by simp
  qed
  have "link_peer (link_abs (t, cs)) = None" unfolding t(2) by simp
  from quiet [OF this] have "link_out (link_abs (u, ds)) = link_out (link_abs (t, cs))"
    unfolding t(2) u(2) by simp
  then have "ds = cs" by (simp add: link_abs_sel)
  with t(1) u(1) show ?thesis by blast
qed

lemma no_command_after_shutdown_witness:
  "\<exists>cs t u. feeder_run 0 ([Config [] 9600 [] True, Lidar 3 7] @ [Shutdown]) feeder_init = Some (cs, t) \<and>
    feeder_run 0 ([Config [] 9600 [] True, Lidar 3 7] @ [Shutdown] @ [Bytes [36, 71], Shutdown]) feeder_init = Some (cs, u)"
  using no_command_after_shutdown [of "[Bytes [36, 71], Shutdown]" 0 "[Config [] 9600 [] True, Lidar 3 7]"] by simp

end
