(* ===== verification/Time_Sync.thy ===== *)
theory Time_Sync
  imports Firmware Gprmc_Feeder
begin

text \<open>
  The chain of the time, from the board to the lidar: the bytes that the firmware's console transmits
  (\<open>HARDWARE/TIMER/timer.c\<close>), read by the driver's port reader (\<open>synchro.cpp\<close>), forwarded by its feeder
  (\<open>gprmc_feeder.cpp\<close>), parsed by the SDK (\<open>command_impl.cpp\<close>).
\<close>

section \<open>The firmware's sentence as the reader sees it\<close>

definition sentence_body :: "int \<Rightarrow> u8 list" where
  "sentence_body t = ascii '','' @ two_digits (t div 3600) @ two_digits (t div 60 mod 60) @ two_digits (t mod 60) @
     ascii ''.00,A,2237.496474,N,11356.089515,E,0.0,225.5,230520,2.3,W,A''"

text \<open>What the reader passes on: all but the last digit of the checksum and the line feed.\<close>

definition sentence_string :: "int \<Rightarrow> u8 list" where
  "sentence_string t = butlast (butlast (nmea_sentence t))"

lemma nmea_sentence_line: "nmea_sentence t = gprmc_line (sentence_body t) @ [10]"
proof -
  have "nmea_payload t = drop 1 kGPRMC @ sentence_body t"
    by (simp add: nmea_payload_def sentence_body_def start_bytes ascii_def of_char_def)
  then show ?thesis
    by (simp add: nmea_sentence_def gprmc_line_def crc_chars_def Let_def start_bytes)
qed

lemma sentence_string_line: "sentence_string t = butlast (gprmc_line (sentence_body t))"
  by (simp add: sentence_string_def nmea_sentence_line)

lemma digit_not:
  assumes "n < 10" and "x < 48 \<or> 57 < x"
  shows "(48 :: u8) + of_nat n \<noteq> x"
proof
  assume "(48 :: u8) + of_nat n = x"
  with digit_of_two [OF assms(1)] have "is_digit x" by simp
  with assms(2) show False by (auto simp: is_digit_def)
qed

lemma two_digits_not:
  assumes "0 \<le> n" and "n < 100" and "x < 48 \<or> 57 < x"
  shows "x \<notin> set (two_digits n)"
proof -
  have "nat n div 10 < 10" "nat n mod 10 < 10" using assms by auto
  from this [THEN digit_not, OF assms(3)] show ?thesis by (auto simp: two_digits_def)
qed

lemma day_fields:
  assumes "0 \<le> t" and "t < (86400 :: int)"
  shows "0 \<le> t div 3600" "t div 3600 < 24" "0 \<le> t div 60 mod 60" "t div 60 mod 60 < 60" "0 \<le> t mod 60" "t mod 60 < 60"
    "t div 3600 * 3600 + t div 60 mod 60 * 60 + t mod 60 = t"
proof -
  show "0 \<le> t div 3600" "t div 3600 < 24" "0 \<le> t div 60 mod 60" "t div 60 mod 60 < 60" "0 \<le> t mod 60" "t mod 60 < 60"
    using assms by simp_all
  have q: "t div 3600 = t div 60 div 60" by (simp add: zdiv_zmult2_eq [symmetric])
  have "t div 60 div 60 * 60 + t div 60 mod 60 = t div 60" "t div 60 * 60 + t mod 60 = t" by simp_all
  then show "t div 3600 * 3600 + t div 60 mod 60 * 60 + t mod 60 = t" unfolding q by linarith
qed

lemma clock_digits_not:
  assumes "0 \<le> t" and "t < 86400" and "x < 48 \<or> 57 < x"
  shows "x \<notin> set (two_digits (t div 3600))" "x \<notin> set (two_digits (t div 60 mod 60))" "x \<notin> set (two_digits (t mod 60))"
  by (rule two_digits_not [OF _ _ assms(3)]; use day_fields [OF assms(1,2)] in linarith)+

lemma sentence_body_plain:
  assumes "0 \<le> t" and "t < 86400"
  shows "plain_body (sentence_body t)"
proof -
  have two: "length (two_digits k) = 2" for k by (simp add: two_digits_def)
  show ?thesis
    using clock_digits_not [OF assms, of 36] clock_digits_not [OF assms, of 42]
    by (simp add: plain_body_def sentence_body_def ascii_def of_char_def two)
qed

lemma sentence_fields:
  assumes "0 \<le> t" and "t < 86400"
  shows "\<exists>fs. sentence_string t = join 44 fs \<and>
    rmc_fields fs 2020 5 23 (t div 3600) (t div 60 mod 60) (t mod 60)"
proof -
  note comma = clock_digits_not [OF assms, of 44, simplified]
  define h1 where "h1 = hex_digit (unat (xor_all (drop 1 kGPRMC @ sentence_body t)) div 16)"
  have "unat (xor_all (drop 1 kGPRMC @ sentence_body t)) < 256" by (rule order_less_le_trans [OF unsigned_less]) simp
  then have "unat (xor_all (drop 1 kGPRMC @ sentence_body t)) div 16 < 16" by simp
  then have h1: "h1 \<noteq> 44" using hex_digit_cases by (simp add: h1_def)
  let ?f = "[ascii ''$GPRMC'', two_digits (t div 3600) @ two_digits (t div 60 mod 60) @ two_digits (t mod 60) @ ascii ''.00'',
    ascii ''A'', ascii ''2237.496474'', ascii ''N'', ascii ''11356.089515'', ascii ''E'', ascii ''0.0'', ascii ''225.5'',
    ascii ''230520'', ascii ''2.3'', ascii ''W'', ascii ''A*'' @ [h1]]"
  have "sentence_string t = join 44 ?f"
    by (simp add: sentence_string_line gprmc_line_def crc_chars_def h1_def butlast_append)
      (simp add: sentence_body_def start_bytes ascii_def of_char_def)
  moreover have "rmc_fields ?f 2020 5 23 (t div 3600) (t div 60 mod 60) (t mod 60)"
    using comma h1 by (simp add: rmc_fields_def ascii_def of_char_def) (simp add: two_digits_def)
  ultimately show ?thesis by blast
qed

section \<open>The lidar's time\<close>

definition sentence_ns :: "int \<Rightarrow> int \<Rightarrow> u64" where
  "sentence_ns tz t = time_ns tz 2020 5 23 (t div 3600) (t div 60 mod 60) (t mod 60)"

lemma sentence_parsed:
  assumes "0 \<le> t" and "t < 86400"
  shows "ParseGPRMC tz (sentence_string t) = Some (sentence_ns tz t)"
proof -
  from sentence_fields [OF assms] obtain fs where fs: "sentence_string t = join 44 fs"
    "rmc_fields fs 2020 5 23 (t div 3600) (t div 60 mod 60) (t mod 60)" by blast
  have "calendar_ok 2020 5 23 (t div 3600) (t div 60 mod 60) (t mod 60)"
    unfolding calendar_ok_def using day_fields [OF assms] by simp
  from ParseGPRMC_fields [OF fs(2) this] show ?thesis by (simp add: fs(1) sentence_ns_def)
qed

lemma sentence_ns_value:
  assumes "0 \<le> t" and "t < 86400"
  shows "sentence_ns tz t = word_of_int ((1590192000 + t - tz) * 1000000000)"
proof -
  have "mktime tz (calendar 2020 5 23 h mi s) = 1590192000 + (h * 3600 + mi * 60 + s) - tz" for h mi s
    by (simp add: mktime_def calendar_def days_before_month_def leap_year_def Let_def)
  then show ?thesis using day_fields(7) [OF assms] by (simp add: sentence_ns_def time_ns_def)
qed

definition lidar_command :: "int \<Rightarrow> u32 \<Rightarrow> int \<Rightarrow> rmc_command" where
  "lidar_command tz h t = (h, Some \<lparr>rmc_type = kRmcSyncTime, rmc_ns = sentence_ns tz t\<rparr>)"

lemma call_command:
  assumes "call_string c = sentence_string t" and "unat (snd c) \<le> length (fst c)" and "0 \<le> t" and "t < 86400" and "h \<noteq> 0"
  shows "on_sentence tz h c = [lidar_command tz h t]"
  using assms sentence_parsed [OF assms(3,4), of tz]
  by (simp add: on_sentence_def SetLivoxLidarRmcSyncTime_def call_string_def lidar_command_def)

text \<open>A list of sentences, however it is cut into reads.\<close>

definition sentence_stream :: "int list \<Rightarrow> u8 list" where
  "sentence_stream ts = concat (map nmea_sentence ts)"

lemma stream_decoded:
  assumes "searching s" and "\<forall>t \<in> set ts. 0 \<le> t \<and> t < 86400" and "h \<noteq> 0"
  shows "\<exists>calls u. Decode True (sentence_stream ts) s = Some (calls, u) \<and> searching u \<and>
    concat (map (on_sentence tz h) calls) = map (lidar_command tz h) ts"
proof -
  have "\<forall>body \<in> set (map sentence_body ts). plain_body body" using assms(2) sentence_body_plain by auto
  from lines_calls [OF assms(1) this] obtain calls u where u:
    "Decode True (concat (map (\<lambda>body. gprmc_line body @ [10]) (map sentence_body ts))) s = Some (calls, u)"
    "searching u" "map call_string calls = map (\<lambda>body. butlast (gprmc_line body)) (map sentence_body ts)" by blast
  have stream: "sentence_stream ts = concat (map (\<lambda>body. gprmc_line body @ [10]) (map sentence_body ts))"
    by (simp add: sentence_stream_def comp_def flip: nmea_sentence_line)
  have "\<forall>c \<in> set calls. unat (snd c) \<le> length (fst c)"
    using Decode_sound [OF searching_inv [OF assms(1)], of True "sentence_stream ts"] u(1) stream by fastforce
  moreover have "map call_string calls = map sentence_string ts" using u(3) by (simp add: sentence_string_line)
  ultimately have "concat (map (on_sentence tz h) calls) = map (lidar_command tz h) ts"
    using assms(2)
  proof (induction ts arbitrary: calls)
    case Nil
    then show ?case by simp
  next
    case (Cons t ts)
    then obtain c cs where c: "calls = c # cs" by (cases calls) auto
    with Cons.prems have "on_sentence tz h c = [lidar_command tz h t]" by (intro call_command assms(3)) auto
    with Cons.IH [of cs] Cons.prems c show ?case by simp
  qed
  with u stream show ?thesis by auto
qed

text \<open>Reads of the running feeder are one long read.\<close>

lemma feeder_reads:
  assumes "feeder_inv f" and "started f" and "0 < fd f" and "Decode True (concat chunks) (gps f) = Some (calls, g)"
  shows "feeder_run tz (map Bytes chunks) f = Some (concat (map (on_sentence tz (handle f)) calls), f\<lparr>gps := g\<rparr>)"
  using assms(1,2,3,4)
proof (induction chunks arbitrary: f calls)
  case Nil
  then show ?case by simp
next
  case (Cons c chunks)
  from Bytes_step [OF Cons.prems(1), of c] Cons.prems(2,3) obtain cs v where
    v: "Synchro_IOLoop_step c f = Some (cs, f\<lparr>gps := v\<rparr>)" "feeder_inv (f\<lparr>gps := v\<rparr>)" "Decode True c (gps f) = Some (cs, v)"
    by auto
  from Cons.prems(4) v(3) obtain ds where ds: "Decode True (concat chunks) v = Some (ds, g)" "calls = cs @ ds"
    by (auto simp: Decode_append bind_eq_Some_conv)
  from Cons.IH [OF v(2), of ds] Cons.prems(2,3) ds v(1) show ?case by simp
qed


lemma started_feeder:
  assumes "0 < r"
  shows "\<exists>f. feeder_run tz [Config p b q True, Lidar r h] feeder_init = Some ([], f) \<and> feeder_inv f \<and> started f \<and>
    fd f = r \<and> handle f = h \<and> searching (gps f)"
proof -
  have inv: "feeder_inv (Configure p b q True feeder_init)" by (rule Config_step [OF feeder_init_inv])
  have "enabled (Configure p b q True feeder_init)" "\<not> started (Configure p b q True feeder_init)"
    "gps (Configure p b q True feeder_init) = synchro_init" by (simp_all add: Configure_def feeder_init_def)
  moreover have "searching synchro_init" by (simp add: searching_def synchro_init_def)
  ultimately show ?thesis using Lidar_step [OF inv, of r h] assms by auto
qed

lemma feeder_run_append:
  assumes "feeder_run tz es s = Some (cs, t)" and "feeder_run tz es' t = Some (ds, u)"
  shows "feeder_run tz (es @ es') s = Some (cs @ ds, u)"
  using assms by (induction es arbitrary: s cs) (auto simp: bind_eq_Some_conv)

section \<open>From the board to the lidar\<close>

text \<open>What a run of the firmware puts on the wire.\<close>

definition wire :: "firmware \<Rightarrow> firmware \<Rightarrow> u8 list" where
  "wire s t = map ucast (drop (length (console_log s)) (console_log t))"

lemma ucast_down_up: "(ucast (ucast c :: u16) :: u8) = c"
  by (intro bit_word_eqI) (simp add: bit_simps)

lemma wire_sentences:
  assumes "fw_run sr_store tick s es t" and "fw_inv s" and "board_hardware tick"
  shows "wire s t = sentence_stream (map (\<lambda>k. (seconds s + 1 + int k) mod 86400) [0..<event_updates es])"
proof -
  have "fw_view t = fold board_step es (fw_view s)"
    using fw.run_abs [of sr_store tick s es t] assms by (simp add: fw_run_def)
  then have "console_log t = console_log s @ List.map ucast (sentences_after (seconds s) (event_updates es))"
    using seconds_range assms(2) by (simp add: fw_view_def fw_inv_def board_run)
  then show ?thesis
    by (simp add: wire_def sentences_after_def sentence_stream_def comp_def ucast_down_up)
qed

text \<open>
  C1. The whole chain. Run the firmware through any interleaving of timer updates and received bytes, cut
  what it transmits into reads in any way, and give these to a driver that has been enabled and has
  met a lidar: the lidar receives one command per update, in order, each with the nanoseconds of 23 May
  2020 at the time of day of that update; nothing is lost, doubled or misread.
\<close>

theorem board_to_lidar:
  assumes "fw_run sr_store tick s es t" and "fw_inv s" and "board_hardware tick"
    and "concat chunks = wire s t" and "0 < r" and "h \<noteq> 0"
  shows "\<exists>f. feeder_run tz ([Config p b q True, Lidar r h] @ map Bytes chunks) feeder_init =
    Some (map (\<lambda>k. lidar_command tz h ((seconds s + 1 + int k) mod 86400)) [0..<event_updates es], f)"
proof -
  from started_feeder [OF assms(5)] obtain f where f: "feeder_run tz [Config p b q True, Lidar r h] feeder_init = Some ([], f)"
    "feeder_inv f" "started f" "fd f = r" "handle f = h" "searching (gps f)" by blast
  let ?ts = "map (\<lambda>k. (seconds s + 1 + int k) mod 86400) [0..<event_updates es]"
  have ts: "\<forall>t \<in> set ?ts. 0 \<le> t \<and> t < 86400" by simp
  from stream_decoded [OF f(6) ts assms(6)] obtain calls g where
    g: "Decode True (sentence_stream ?ts) (gps f) = Some (calls, g)"
      "concat (map (on_sentence tz h) calls) = map (lidar_command tz h) ?ts" by blast
  have "Decode True (concat chunks) (gps f) = Some (calls, g)"
    using g(1) by (simp only: assms(4) wire_sentences [OF assms(1-3)])
  with feeder_reads [OF f(2,3)] f(4,5) assms(5) have
    "feeder_run tz (map Bytes chunks) f = Some (map (lidar_command tz h) ?ts, f\<lparr>gps := g\<rparr>)" by (simp add: g(2))
  from feeder_run_append [OF f(1) this] show ?thesis by (simp add: comp_def)
qed

lemma board_to_lidar_witness:
  "\<exists>t f. fw_run (AND) ready_port example_board [Update, Byte 65, Update] t \<and>
    feeder_run 0 ([Config [] 9600 [] True, Lidar 3 7] @ map Bytes [wire example_board t]) feeder_init =
      Some ([lidar_command 0 7 1, lidar_command 0 7 2], f)"
proof -
  obtain t where t: "fw_run (AND) ready_port example_board [Update, Byte 65, Update] t"
    using example_run by blast
  have "seconds example_board = seconds (reset_firmware [0] [0])"
    by (rule view_cong) (simp add: example_board_def)
  then have "seconds example_board = 0" by (simp add: seconds_def)
  moreover have "event_updates [Update, Byte 65, Update] = 2" by simp
  ultimately show ?thesis
    using board_to_lidar [OF t example_board_ok(1,2), of "[wire example_board t]" 3 7 0 "[]" 9600 "[]"] t
    by (auto simp add: upt_rec simp del: feeder_run.simps)
qed

text \<open>
  The time that the lidar is given runs with the board's seconds, except at midnight: the sentence
  carries a fixed date, so there the lidar's time falls back by a day.
\<close>

theorem lidar_time_steps:
  assumes "0 \<le> t" and "t < 86400"
  shows "\<exists>a b. ParseGPRMC tz (sentence_string t) = Some a \<and>
    ParseGPRMC tz (sentence_string ((t + 1) mod 86400)) = Some b \<and>
    b = (if t = 86399 then a - 86399 * 1000000000 else a + 1000000000)"
proof -
  have "sentence_ns tz ((t + 1) mod 86400) =
      (if t = 86399 then sentence_ns tz t - 86399 * 1000000000 else sentence_ns tz t + 1000000000)"
  proof (cases "t = 86399")
    case False
    then have "(t + 1) mod 86400 = t + 1" using assms by simp
    then show ?thesis using False assms by (simp add: sentence_ns_value algebra_simps)
  qed (simp add: sentence_ns_value algebra_simps)
  moreover have "0 \<le> (t + 1) mod 86400" "(t + 1) mod 86400 < 86400" by simp_all
  ultimately show ?thesis using sentence_parsed assms by simp
qed

lemma lidar_time_steps_witness:
  "\<exists>a b. ParseGPRMC 0 (sentence_string 86399) = Some a \<and> ParseGPRMC 0 (sentence_string 0) = Some b \<and>
    b = a - 86399 * 1000000000"
  using lidar_time_steps [of 86399 0] by simp

end
