(* ===== verification/Fifo.thy ===== *)
theory Fifo
  imports Main
begin

text \<open>
  The contract of a queue of bounded capacity: an element offered to a full queue is dropped, what is
  taken out comes in the order it went in. Clients reason about histories of operations on a list.
\<close>

section \<open>Histories on a list\<close>

datatype 'i fifo_op = Enq 'i | Deq

fun list_op :: "nat \<Rightarrow> ('i \<Rightarrow> 'x) \<Rightarrow> 'i fifo_op \<Rightarrow> 'x list \<times> 'x list \<Rightarrow> 'x list \<times> 'x list" where
  "list_op cap item (Enq i) (xs, out) = (if length xs < cap then xs @ [item i] else xs, out)"
| "list_op cap item Deq (xs, out) = (case xs of [] \<Rightarrow> ([], out) | x # xs \<Rightarrow> (xs, out @ [x]))"

fun fifo_run ::
  "('i \<Rightarrow> 's \<Rightarrow> 's option) \<Rightarrow> ('s \<Rightarrow> ('x option \<times> 's) option) \<Rightarrow> 'i fifo_op list \<Rightarrow> 's \<Rightarrow> ('x list \<times> 's) option" where
  "fifo_run enq deq [] s = Some ([], s)"
| "fifo_run enq deq (Enq i # ops) s = (case enq i s of None \<Rightarrow> None | Some s \<Rightarrow> fifo_run enq deq ops s)"
| "fifo_run enq deq (Deq # ops) s =
     (case deq s of None \<Rightarrow> None
      | Some (r, s) \<Rightarrow> (case fifo_run enq deq ops s of None \<Rightarrow> None
          | Some (out, s) \<Rightarrow> Some ((case r of None \<Rightarrow> out | Some x \<Rightarrow> x # out), s)))"

fun enqueued :: "('i \<Rightarrow> 'x) \<Rightarrow> 'i fifo_op list \<Rightarrow> 'x list" where
  "enqueued item [] = []"
| "enqueued item (Enq i # ops) = item i # enqueued item ops"
| "enqueued item (Deq # ops) = enqueued item ops"

lemma list_op_out: "list_op cap item e (xs, out @ out') = (fst (list_op cap item e (xs, out')), out @ snd (list_op cap item e (xs, out')))"
  by (cases e; cases xs) auto

lemma fold_list_op_out:
  "fold (list_op cap item) ops (xs, out @ out') =
     (fst (fold (list_op cap item) ops (xs, out')), out @ snd (fold (list_op cap item) ops (xs, out')))"
proof (induction ops arbitrary: xs out')
  case Nil
  then show ?case by simp
next
  case (Cons e ops)
  obtain ys o' where e: "list_op cap item e (xs, out') = (ys, o')" by fastforce
  then have "list_op cap item e (xs, out @ out') = (ys, out @ o')" by (simp add: list_op_out)
  with e Cons.IH [of ys o'] show ?case by simp
qed

text \<open>With room for everything nothing is lost or reordered.\<close>

lemma list_op_conserves:
  assumes "length xs + length (enqueued item ops) \<le> cap"
  shows "case fold (list_op cap item) ops (xs, out) of (ys, out') \<Rightarrow> out' @ ys = out @ xs @ enqueued item ops"
  using assms
proof (induction ops arbitrary: xs out)
  case Nil
  then show ?case by simp
next
  case (Cons e ops)
  show ?case
  proof (cases e)
    case (Enq i)
    then show ?thesis using Cons.IH [of "xs @ [item i]" out] Cons.prems by simp
  next
    case Deq
    then show ?thesis
      using Cons.IH [of "tl xs" out] Cons.IH [of "tl xs" "out @ [hd xs]"] Cons.prems
      by (cases xs) (simp_all split: prod.splits)
  qed
qed

section \<open>The contract\<close>

locale bounded_fifo =
  fixes inv :: "'s \<Rightarrow> bool"
    and contents :: "'s \<Rightarrow> 'x list"
    and cap :: nat
    and ok :: "'i \<Rightarrow> bool"
    and item :: "'i \<Rightarrow> 'x"
    and enq :: "'i \<Rightarrow> 's \<Rightarrow> 's option"
    and deq :: "'s \<Rightarrow> ('x option \<times> 's) option"
  assumes enq: "inv s \<Longrightarrow> ok i \<Longrightarrow> \<exists>t. enq i s = Some t \<and> inv t \<and>
      contents t = (if length (contents s) < cap then contents s @ [item i] else contents s)"
    and deq: "inv s \<Longrightarrow> \<exists>t. inv t \<and>
      deq s = Some (case contents s of [] \<Rightarrow> None | x # _ \<Rightarrow> Some x, t) \<and> contents t = tl (contents s)"
    and bounded: "inv s \<Longrightarrow> length (contents s) \<le> cap"
begin

lemma history:
  assumes "inv s" and "\<forall>i. Enq i \<in> set ops \<longrightarrow> ok i"
  shows "\<exists>out t. fifo_run enq deq ops s = Some (out, t) \<and> inv t \<and>
    fold (list_op cap item) ops (contents s, []) = (contents t, out)"
  using assms
proof (induction ops arbitrary: s)
  case Nil
  then show ?case by simp
next
  case (Cons e ops)
  show ?case
  proof (cases e)
    case (Enq i)
    from enq [OF Cons.prems(1), of i] Cons.prems(2) Enq obtain t where t: "enq i s = Some t" "inv t"
      "contents t = (if length (contents s) < cap then contents s @ [item i] else contents s)" by auto
    from Cons.IH [OF t(2)] Cons.prems(2) t Enq show ?thesis by auto
  next
    case Deq
    from deq [OF Cons.prems(1)] obtain t where t: "inv t"
      "deq s = Some (case contents s of [] \<Rightarrow> None | x # _ \<Rightarrow> Some x, t)" "contents t = tl (contents s)" by blast
    from Cons.IH [OF t(1)] Cons.prems(2) obtain out u where u: "fifo_run enq deq ops t = Some (out, u)" "inv u"
      "fold (list_op cap item) ops (contents t, []) = (contents u, out)" by auto
    show ?thesis
    proof (cases "contents s")
      case Nil
      then show ?thesis using Deq t u by simp
    next
      case (Cons x xs)
      have "fold (list_op cap item) ops (xs, [x] @ []) = (contents u, [x] @ out)"
        unfolding fold_list_op_out using u(3) t(3) Cons by simp
      then show ?thesis using Deq t u Cons by simp
    qed
  qed
qed

text \<open>A queue large enough for what is offered hands out a prefix of it and keeps the rest.\<close>

lemma history_conserves:
  assumes "inv s" and "\<forall>i. Enq i \<in> set ops \<longrightarrow> ok i" and "length (contents s) + length (enqueued item ops) \<le> cap"
  shows "\<exists>out t. fifo_run enq deq ops s = Some (out, t) \<and> inv t \<and>
    out @ contents t = contents s @ enqueued item ops"
proof -
  from history [OF assms(1,2)] obtain out t where t: "fifo_run enq deq ops s = Some (out, t)" "inv t"
    "fold (list_op cap item) ops (contents s, []) = (contents t, out)" by blast
  with list_op_conserves [OF assms(3), of "[]"] show ?thesis by auto
qed

end

end
