(* ===== verification/Ldq.thy ===== *)
theory Ldq
  imports Prelude Fifo
begin

text \<open>
  The point cloud queue between the lidar's receiver and the publisher,
  \<open>src/src/livox_ros_driver2/src/comm/ldq.cpp\<close> and \<open>ldq.h\<close>: a ring of a power of two of packets, read
  and write indices that run freely through 32 bits and are masked at each access. Floats are their
  bits, since points are only copied. Freed memory stays referenced, as in the code: an access to it or
  beyond an array is \<open>None\<close>. The pointers that the functions test are taken not to be null.
\<close>

section \<open>Data\<close>

type_synonym u64 = "64 word"

record PointXyzlt =
  pt_x :: u32
  pt_y :: u32
  pt_z :: u32
  pt_intensity :: u32
  pt_tag :: u8
  pt_line :: u8
  pt_offset_time :: u64

record PointPacket =
  pp_handle :: u32
  pp_lidar_type :: u8
  pp_points_num :: u32
  pp_points :: "PointXyzlt list"

text \<open>The fields \<open>lidar_type\<close> and \<open>handle\<close> of the stored packet are neither written nor read by the queue.\<close>

record StoragePacket =
  base_time :: u64
  points_num :: u32
  points :: "PointXyzlt list"

datatype storage = NoStorage | Storage "StoragePacket list" | Deleted

record LidarDataQueue =
  storage_packet :: storage
  rd_idx :: u32
  wr_idx :: u32
  mask :: u32
  queue_size :: u32

section \<open>Operations\<close>

definition IsPowerOf2 :: "u32 \<Rightarrow> bool" where
  "IsPowerOf2 n \<longleftrightarrow> n \<noteq> 0 \<and> n AND (n - 1) = 0"

fun RoundupPowerOf2_loop :: "u32 \<Rightarrow> nat list \<Rightarrow> u32 \<Rightarrow> u32" where
  "RoundupPowerOf2_loop n [] power2_val = power2_val"
| "RoundupPowerOf2_loop n (i # is) power2_val =
     (let power2_val = push_bit i 1
      in if n \<le> power2_val then power2_val else RoundupPowerOf2_loop n is power2_val)"

definition RoundupPowerOf2 :: "u32 \<Rightarrow> u32" where
  "RoundupPowerOf2 n = RoundupPowerOf2_loop n [0..<32] 0"

text \<open>\<open>heap\<close>: what the numbers of the new packets happen to hold; their vectors are empty.\<close>

definition InitQueue :: "(nat \<Rightarrow> StoragePacket) \<Rightarrow> u32 \<Rightarrow> LidarDataQueue \<Rightarrow> (bool \<times> LidarDataQueue) option" where
  "InitQueue heap n q =
     (let n = (if IsPowerOf2 n then n else RoundupPowerOf2 n)
      in if storage_packet q = Deleted then None
         else
           let q = q\<lparr>storage_packet := Storage (map (\<lambda>i. (heap i)\<lparr>points := []\<rparr>) [0..<unat n])\<rparr>;
               q = q\<lparr>rd_idx := 0\<rparr>;
               q = q\<lparr>wr_idx := 0\<rparr>;
               q = q\<lparr>queue_size := n\<rparr>
           in Some (True, q\<lparr>mask := n - 1\<rparr>))"

definition DeInitQueue :: "LidarDataQueue \<Rightarrow> (bool \<times> LidarDataQueue) option" where
  "DeInitQueue q = do {
     q \<leftarrow> (case storage_packet q of
            NoStorage \<Rightarrow> Some q
          | Storage _ \<Rightarrow> Some (q\<lparr>storage_packet := Deleted\<rparr>)
          | Deleted \<Rightarrow> None);
     let q = q\<lparr>rd_idx := 0\<rparr>;
     let q = q\<lparr>wr_idx := 0\<rparr>;
     let q = q\<lparr>queue_size := 0\<rparr>;
     Some (True, q\<lparr>mask := 0\<rparr>)
   }"

definition ResetQueue :: "LidarDataQueue \<Rightarrow> LidarDataQueue" where
  "ResetQueue q = q\<lparr>rd_idx := 0, wr_idx := 0\<rparr>"

definition QueueUsedSize :: "LidarDataQueue \<Rightarrow> u32" where
  "QueueUsedSize q = wr_idx q - rd_idx q"

definition QueueUnusedSize :: "LidarDataQueue \<Rightarrow> u32" where
  "QueueUnusedSize q = queue_size q - QueueUsedSize q"

definition QueueIsFull :: "LidarDataQueue \<Rightarrow> bool" where
  "QueueIsFull q \<longleftrightarrow> wr_idx q - rd_idx q > mask q"

definition QueueIsEmpty :: "LidarDataQueue \<Rightarrow> bool" where
  "QueueIsEmpty q \<longleftrightarrow> rd_idx q = wr_idx q"

definition packet_at :: "LidarDataQueue \<Rightarrow> u32 \<Rightarrow> StoragePacket option" where
  "packet_at q i =
     (case storage_packet q of
        Storage ps \<Rightarrow> if unat i < length ps then Some (ps ! unat i) else None
      | _ \<Rightarrow> None)"

definition packet_put :: "u32 \<Rightarrow> StoragePacket \<Rightarrow> LidarDataQueue \<Rightarrow> LidarDataQueue option" where
  "packet_put i p q =
     (case storage_packet q of
        Storage ps \<Rightarrow> if unat i < length ps then Some (q\<lparr>storage_packet := Storage (ps[unat i := p])\<rparr>) else None
      | _ \<Rightarrow> None)"

text \<open>\<open>memcpy\<close> of the first \<open>n\<close> points of an array.\<close>

definition copy_points :: "PointXyzlt list \<Rightarrow> u32 \<Rightarrow> PointXyzlt list option" where
  "copy_points ps n = (if unat n \<le> length ps then Some (take (unat n) ps) else None)"

definition QueuePrePop :: "LidarDataQueue \<Rightarrow> StoragePacket \<Rightarrow> (bool \<times> StoragePacket) option" where
  "QueuePrePop q out =
     (if QueueIsEmpty q then Some (False, out)
      else do {
        let i = rd_idx q AND mask q;
        p \<leftarrow> packet_at q i;
        let out = out\<lparr>base_time := base_time p\<rparr>;
        let out = out\<lparr>points_num := points_num p\<rparr>;
        ps \<leftarrow> copy_points (points p) (points_num out);
        Some (True, out\<lparr>points := ps\<rparr>)
      })"

definition QueuePopUpdate :: "LidarDataQueue \<Rightarrow> LidarDataQueue" where
  "QueuePopUpdate q = q\<lparr>rd_idx := rd_idx q + 1\<rparr>"

definition QueuePop :: "LidarDataQueue \<Rightarrow> StoragePacket \<Rightarrow> (bool \<times> StoragePacket \<times> LidarDataQueue) option" where
  "QueuePop q out = do {
     (ok, out) \<leftarrow> QueuePrePop q out;
     Some (if \<not> ok then (False, out, q) else (True, out, QueuePopUpdate q))
   }"

definition QueuePushAny :: "LidarDataQueue \<Rightarrow> PointPacket \<Rightarrow> u64 \<Rightarrow> (u32 \<times> LidarDataQueue) option" where
  "QueuePushAny q data t = do {
     let i = wr_idx q AND mask q;
     p \<leftarrow> packet_at q i;
     let p = p\<lparr>base_time := t\<rparr>;
     let p = p\<lparr>points_num := pp_points_num data\<rparr>;
     ps \<leftarrow> copy_points (pp_points data) (pp_points_num data);
     q \<leftarrow> packet_put i (p\<lparr>points := ps\<rparr>) q;
     Some (1, q\<lparr>wr_idx := wr_idx q + 1\<rparr>)
   }"

section \<open>Powers of two\<close>

lemma power_of_two_word:
  assumes "k < 32"
  shows "unat ((2 :: u32) ^ k) = 2 ^ k" "unat ((2 :: u32) ^ k - 1) = 2 ^ k - 1"
proof -
  have lt: "(2 :: nat) ^ k < 2 ^ 32" using assms by (intro power_strict_increasing) simp_all
  show u: "unat ((2 :: u32) ^ k) = 2 ^ k" 
    using unsigned_of_nat [of "2 ^ k", where ?'a = nat and ?'b = 32] lt assms by (simp add: take_bit_nat_eq_self)
  have "(1 :: u32) \<le> 2 ^ k" unfolding word_le_nat_alt u by simp
  then show "unat ((2 :: u32) ^ k - 1) = 2 ^ k - 1" by (simp add: unat_sub u)
qed

lemma mask_word: "(2 :: u32) ^ k - 1 = Bit_Operations.mask k"
  by (simp add: mask_eq_decr_exp)

lemma and_mask_mod: "unat (i AND (2 ^ k - 1)) = unat (i :: u32) mod 2 ^ k"
  unfolding mask_word take_bit_eq_mask [symmetric] unsigned_take_bit_eq by (simp add: take_bit_eq_mod)

text \<open>The test is exact.\<close>

lemma IsPowerOf2_iff: "IsPowerOf2 n \<longleftrightarrow> (\<exists>k < 32. n = 2 ^ k)"
proof
  assume "\<exists>k < 32. n = 2 ^ k"
  then obtain k where k: "k < 32" "n = 2 ^ k" by blast
  have "unat (n AND (n - 1)) = 0" unfolding k(2) and_mask_mod power_of_two_word(1) [OF k(1)] by simp
  moreover have "unat n \<noteq> 0" unfolding k(2) power_of_two_word(1) [OF k(1)] by simp
  ultimately show "IsPowerOf2 n" unfolding IsPowerOf2_def by (metis unsigned_0 unsigned_eq_0_iff)
next
  assume n: "IsPowerOf2 n"
  define N where "N = unat n"
  have "n \<noteq> 0" using n by (simp add: IsPowerOf2_def)
  then have pos: "0 < N" by (simp add: N_def unat_gt_0)
  have "unat (n AND (n - 1)) = 0" using n by (simp add: IsPowerOf2_def)
  moreover have "unat (n - 1) = N - 1" using pos by (simp add: N_def unat_sub word_le_nat_alt)
  ultimately have 0: "N AND (N - 1) = 0" by (simp add: N_def unsigned_and_eq)
  have "\<exists>k. N = 2 ^ k"
    using pos 0
  proof (induction N rule: less_induct)
    case (less N)
    show ?case
    proof (cases "even N")
      case True
      then obtain M where M: "N = 2 * M" "0 < M" using less.prems(1) by auto
      then have "(2 * M) AND (2 * M - 1) = 2 * (M AND (M - 1))"
      proof -
        have "(2 * M - 1) div 2 = M - 1" using M(2) by simp
        then show ?thesis by (subst and_nat_rec) simp
      qed
      with less.prems(2) M less.IH [of M] obtain k where "M = 2 ^ k" by auto
      then show ?thesis using M by (metis power_Suc)
    next
      case False
      show ?thesis
      proof (cases "N = 1")
        case True
        then show ?thesis by (metis power_0)
      next
        case ne: False
        from False obtain M where M: "N = 2 * M + 1" by (elim oddE)
        with ne have "0 < M" by simp
        have "N AND (N - 1) = 2 * M"
          unfolding M by (subst and_nat_rec) simp
        with \<open>0 < M\<close> less.prems(2) show ?thesis by simp
      qed
    qed
  qed
  then obtain k where k: "N = 2 ^ k" by blast
  have "N < 2 ^ 32" unfolding N_def by (rule order_less_le_trans [OF unsigned_less]) simp
  then have "k < 32" unfolding k by (simp add: power_strict_increasing_iff del: power_numeral)
  moreover have "n = 2 ^ k"
    using power_of_two_word(1) [OF \<open>k < 32\<close>] k by (simp add: N_def word_unat_eq_iff)
  ultimately show "\<exists>k < 32. n = 2 ^ k" by blast
qed


lemma RoundupPowerOf2_loop_hit:
  assumes "i < 32" and "n \<le> 2 ^ i" and "\<forall>j < i. \<not> n \<le> 2 ^ j" and "k \<le> i"
  shows "RoundupPowerOf2_loop n [k..<32] v = 2 ^ i"
  using assms(4)
proof (induction "i - k" arbitrary: k v)
  case 0
  then have "[k..<32] = i # [Suc i..<32]" using assms(1) by (simp add: upt_conv_Cons)
  then show ?case using assms(2) by (simp add: push_bit_eq_mult)
next
  case (Suc d)
  then have k: "k < i" "[k..<32] = k # [Suc k..<32]" using assms(1) by (simp_all add: upt_conv_Cons)
  then have "\<not> n \<le> push_bit k 1" using assms(3) by (simp add: push_bit_eq_mult)
  then show ?case using Suc.hyps(1) [of "Suc k"] Suc.hyps(2) k by (simp add: Let_def)
qed

lemma RoundupPowerOf2_loop_miss:
  assumes "\<forall>j < 32. \<not> n \<le> 2 ^ j" and "k < 32"
  shows "RoundupPowerOf2_loop n [k..<32] v = 2 ^ 31"
  using assms(2)
proof (induction "31 - k" arbitrary: k v)
  case 0
  then have "k = 31" by simp
  then have "[k..<32] = [31]" by (simp add: upt_rec)
  then show ?case using assms(1) by (simp add: push_bit_eq_mult Let_def)
next
  case (Suc d)
  then have k: "k < 31" "[k..<32] = k # [Suc k..<32]" by (simp_all add: upt_conv_Cons)
  then have "\<not> n \<le> push_bit k 1" using assms(1) by (simp add: push_bit_eq_mult)
  then show ?case using Suc.hyps(1) [of "Suc k"] Suc.hyps(2) k by (simp add: Let_def)
qed

text \<open>The least power of two that is not smaller; beyond \<open>2\<^sup>31\<close> there is none.\<close>

lemma RoundupPowerOf2_least:
  "\<exists>k < 32. RoundupPowerOf2 n = 2 ^ k \<and> (unat n \<le> 2 ^ 31 \<longrightarrow> unat n \<le> 2 ^ k \<and> (\<forall>j < k. \<not> unat n \<le> 2 ^ j)) \<and>
    (\<not> unat n \<le> 2 ^ 31 \<longrightarrow> k = 31)"
proof -
  have le: "n \<le> 2 ^ j \<longleftrightarrow> unat n \<le> 2 ^ j" if "j < 32" for j
    unfolding word_le_nat_alt power_of_two_word(1) [OF that] ..
  show ?thesis
  proof (cases "unat n \<le> 2 ^ 31")
    case True
    define k where "k = (LEAST j. unat n \<le> 2 ^ j)"
    have k: "unat n \<le> 2 ^ k" "k \<le> 31" "\<forall>j < k. \<not> unat n \<le> 2 ^ j"
      unfolding k_def using LeastI [of "\<lambda>j. unat n \<le> 2 ^ j", OF True] Least_le [of "\<lambda>j. unat n \<le> 2 ^ j", OF True]
        not_less_Least [of _ "\<lambda>j. unat n \<le> 2 ^ j"] by blast+
    then have lt: "k < 32" by simp
    then have "n \<le> 2 ^ k" "\<forall>j < k. \<not> n \<le> 2 ^ j" using k le by simp_all
    from RoundupPowerOf2_loop_hit [OF lt this] have "RoundupPowerOf2 n = 2 ^ k" by (simp add: RoundupPowerOf2_def del: upt.simps)
    with k lt True show ?thesis by blast
  next
    case False
    have "\<not> unat n \<le> 2 ^ j" if "j < 32" for j
    proof -
      have "(2 :: nat) ^ j \<le> 2 ^ 31" using that by (intro power_increasing) simp_all
      with False show ?thesis by simp
    qed
    then have "\<forall>j < 32. \<not> n \<le> 2 ^ j" using le by blast
    from RoundupPowerOf2_loop_miss [OF this] have "RoundupPowerOf2 n = 2 ^ 31" by (simp add: RoundupPowerOf2_def del: upt.simps)
    with False show ?thesis by (intro exI [of _ 31]) simp
  qed
qed

section \<open>The ring as a list\<close>

text \<open>\<open>ring_inv k q\<close>: \<open>q\<close> is a ring of \<open>2\<^sup>k\<close> packets.\<close>

definition live_index :: "LidarDataQueue \<Rightarrow> nat \<Rightarrow> nat" where
  "live_index q j = (unat (rd_idx q) + j) mod unat (queue_size q)"

definition queue_used :: "LidarDataQueue \<Rightarrow> nat" where
  "queue_used q = unat (wr_idx q - rd_idx q)"

fun storage_list :: "storage \<Rightarrow> StoragePacket list" where
  "storage_list (Storage ps) = ps"
| "storage_list s = []"

definition queue_list :: "LidarDataQueue \<Rightarrow> StoragePacket list" where
  "queue_list q = map (\<lambda>j. storage_list (storage_packet q) ! live_index q j) [0..<queue_used q]"

definition packet_ok :: "StoragePacket \<Rightarrow> bool" where
  "packet_ok p \<longleftrightarrow> length (points p) = unat (points_num p)"

definition ring_inv :: "nat \<Rightarrow> LidarDataQueue \<Rightarrow> bool" where
  "ring_inv k q \<longleftrightarrow> k < 32 \<and> (\<exists>ps. storage_packet q = Storage ps \<and> length ps = 2 ^ k) \<and> queue_size q = 2 ^ k \<and>
     mask q = 2 ^ k - 1 \<and> queue_used q \<le> 2 ^ k \<and> (\<forall>p \<in> set (queue_list q). packet_ok p)"

lemma ring_size: "ring_inv k q \<Longrightarrow> unat (queue_size q) = 2 ^ k"
  by (simp add: ring_inv_def power_of_two_word)

lemma live_index_word:
  assumes "ring_inv k q"
  shows "unat ((rd_idx q + of_nat j) AND mask q) = live_index q j"
proof -
  have k: "k < 32" and m: "mask q = 2 ^ k - 1" using assms by (simp_all add: ring_inv_def)
  have "unat (rd_idx q + of_nat j) = (unat (rd_idx q) + j) mod 2 ^ 32"
    by (simp add: unat_word_ariths unsigned_of_nat take_bit_eq_mod mod_simps)
  moreover have "(2 :: nat) ^ k dvd 2 ^ 32" using k by (intro le_imp_power_dvd) simp
  ultimately show ?thesis
    unfolding m and_mask_mod live_index_def ring_size [OF assms] by (simp add: mod_mod_cancel)
qed

lemma wr_index_word:
  assumes "ring_inv k q"
  shows "unat (wr_idx q AND mask q) = live_index q (queue_used q)"
  using live_index_word [OF assms, of "queue_used q"] by (simp add: queue_used_def)

lemma add_mod_inj:
  fixes n :: nat
  assumes "i < n" and "j < n" and "(a + i) mod n = (a + j) mod n"
  shows "i = j"
proof -
  have le: "i = j" if "i \<le> j" "j < n" "(a + i) mod n = (a + j) mod n" for i j
  proof -
    have "n dvd (a + j) - (a + i)" using that mod_eq_dvd_iff_nat [of "a + i" "a + j" n] by simp
    then have "n dvd j - i" by simp
    then show ?thesis using that dvd_imp_le [of n "j - i"] by fastforce
  qed
  show ?thesis using le [of i j] le [of j i] assms by fastforce
qed

lemma live_index_inj:
  assumes "ring_inv k q" and "i < 2 ^ k" and "j < 2 ^ k" and "live_index q i = live_index q j"
  shows "i = j"
proof -
  have "(unat (rd_idx q) + i) mod 2 ^ k = (unat (rd_idx q) + j) mod 2 ^ k"
    using assms(4) by (simp add: live_index_def ring_size [OF assms(1)])
  with assms(2,3) show ?thesis by (rule add_mod_inj)
qed


lemma used_le: "ring_inv k q \<Longrightarrow> queue_used q \<le> 2 ^ k" and used_lt: "ring_inv k q \<Longrightarrow> queue_used q < 2 ^ 32 - 1"
proof -
  have "(2 :: nat) ^ k < 2 ^ 32 - 1" if "k < 32"
  proof -
    have "(2 :: nat) ^ k \<le> 2 ^ 31" using that by (intro power_increasing) simp_all
    then show ?thesis by simp
  qed
  then show "ring_inv k q \<Longrightarrow> queue_used q < 2 ^ 32 - 1" by (force simp: ring_inv_def)
qed (simp add: ring_inv_def)

lemma full_iff: "ring_inv k q \<Longrightarrow> QueueIsFull q \<longleftrightarrow> length (queue_list q) = 2 ^ k"
  using power_of_two_word(2) [of k]
  by (auto simp: QueueIsFull_def word_less_nat_alt ring_inv_def queue_used_def queue_list_def)

lemma empty_iff: "QueueIsEmpty q \<longleftrightarrow> queue_list q = []"
proof -
  have "rd_idx q = wr_idx q \<longleftrightarrow> queue_used q = 0"
    by (auto simp: queue_used_def unsigned_eq_0_iff)
  then show ?thesis by (simp add: QueueIsEmpty_def queue_list_def)
qed

text \<open>The packet that a push stores.\<close>

definition stored :: "PointPacket \<times> u64 \<Rightarrow> StoragePacket" where
  "stored i = \<lparr>base_time = snd i, points_num = pp_points_num (fst i),
     points = take (unat (pp_points_num (fst i))) (pp_points (fst i))\<rparr>"

definition packet_in :: "PointPacket \<times> u64 \<Rightarrow> bool" where
  "packet_in i \<longleftrightarrow> unat (pp_points_num (fst i)) \<le> length (pp_points (fst i))"

lemma push_effect:
  assumes inv: "ring_inv k q" and room: "length (queue_list q) < 2 ^ k" and ok: "packet_in (d, t)"
  shows "\<exists>r. QueuePushAny q d t = Some (1, r) \<and> ring_inv k r \<and> queue_list r = queue_list q @ [stored (d, t)]"
proof -
  obtain ps where ps: "storage_packet q = Storage ps" "length ps = 2 ^ k" using inv by (auto simp: ring_inv_def)
  have used: "queue_used q < 2 ^ k" using room by (simp add: queue_list_def)
  have pos: "live_index q j < 2 ^ k" for j by (simp add: live_index_def ring_size [OF inv])
  let ?w = "live_index q (queue_used q)"
  define r where "r = q\<lparr>storage_packet := Storage (ps[?w := stored (d, t)]), wr_idx := wr_idx q + 1\<rparr>"
  have new: "p\<lparr>base_time := a, points_num := b, points := c\<rparr> = \<lparr>base_time = a, points_num = b, points = c\<rparr>"
    for p :: StoragePacket and a b c by (cases p) simp
  have "QueuePushAny q d t = Some (1, r)"
    using ok pos [of "queue_used q"]
    by (simp add: QueuePushAny_def packet_at_def packet_put_def wr_index_word [OF inv] ps copy_points_def packet_in_def
        stored_def r_def new)
  moreover have u: "queue_used r = queue_used q + 1"
  proof -
    have eq: "wr_idx q + 1 - rd_idx q = (wr_idx q - rd_idx q) + 1" by simp
    have "unat (wr_idx q + 1 - rd_idx q) = unat (wr_idx q - rd_idx q) + 1"
      unfolding eq using used_lt [OF inv] by (simp only: unat_word_ariths queue_used_def) simp
    then show ?thesis by (simp add: queue_used_def r_def)
  qed
  moreover have idx: "live_index r j = live_index q j" for j by (simp add: live_index_def r_def)
  have list: "queue_list r = queue_list q @ [stored (d, t)]"
  proof -
    have "ps[?w := stored (d, t)] ! live_index q j = ps ! live_index q j" if "j < queue_used q" for j
    proof -
      have "live_index q j \<noteq> ?w" using live_index_inj [OF inv _ used, of j] that used by auto
      then show ?thesis by simp
    qed
    then show ?thesis
      using pos [of "queue_used q"] ps u by (simp add: queue_list_def idx) (simp add: r_def)
  qed
  moreover have "ring_inv k r"
  proof -
    have "packet_ok (stored (d, t))" using ok by (simp add: packet_ok_def stored_def packet_in_def)
    moreover have "\<forall>p \<in> set (queue_list q). packet_ok p" using inv by (simp add: ring_inv_def)
    ultimately have "\<forall>p \<in> set (queue_list r). packet_ok p" by (simp add: list)
    then show ?thesis using inv u used ps by (simp add: ring_inv_def r_def)
  qed
  ultimately show ?thesis by blast
qed

lemma pop_effect:
  assumes inv: "ring_inv k q" and ne: "queue_list q = p # rest"
  shows "QueuePop q out = Some (True, p, QueuePopUpdate q) \<and> ring_inv k (QueuePopUpdate q) \<and>
    queue_list (QueuePopUpdate q) = rest"
proof -
  obtain ps where ps: "storage_packet q = Storage ps" "length ps = 2 ^ k" using inv by (auto simp: ring_inv_def)
  have pos: "live_index q j < 2 ^ k" for j by (simp add: live_index_def ring_size [OF inv])
  have used: "0 < queue_used q" using ne by (cases "queue_used q") (simp_all add: queue_list_def)
  then have upt: "[0..<queue_used q] = 0 # map Suc [0..<queue_used q - 1]" by (simp add: map_Suc_upt upt_conv_Cons)
  have split: "p = ps ! live_index q 0" "rest = map (\<lambda>j. ps ! live_index q (Suc j)) [0..<queue_used q - 1]"
    using ne by (simp_all add: queue_list_def upt ps comp_def)
  have ok: "packet_ok p" using inv ne by (simp add: ring_inv_def)
  have "unat (rd_idx q AND mask q) = live_index q 0" using live_index_word [OF inv, of 0] by simp
  then have "QueuePrePop q out = Some (True, p)"
    using ok pos [of 0] empty_iff [of q] ne
    by (cases p; cases out) (simp add: QueuePrePop_def packet_at_def ps split(1) [symmetric] copy_points_def packet_ok_def)
  then have "QueuePop q out = Some (True, p, QueuePopUpdate q)" by (simp add: QueuePop_def)
  moreover have u: "queue_used (QueuePopUpdate q) = queue_used q - 1"
  proof -
    have eq: "wr_idx q - (rd_idx q + 1) = (wr_idx q - rd_idx q) - 1" by simp
    have "1 \<le> wr_idx q - rd_idx q" using used by (simp add: queue_used_def word_le_nat_alt)
    then have "unat (wr_idx q - (rd_idx q + 1)) = unat (wr_idx q - rd_idx q) - 1" unfolding eq by (simp only: unat_sub unsigned_1)
    then show ?thesis by (simp add: queue_used_def QueuePopUpdate_def)
  qed
  moreover have idx: "live_index (QueuePopUpdate q) j = live_index q (Suc j)" for j
  proof -
    have "k < 32" using inv by (simp add: ring_inv_def)
    then have dvd: "(2 :: nat) ^ k dvd 2 ^ 32" by (intro le_imp_power_dvd) simp
    have "unat (rd_idx q + 1) = (unat (rd_idx q) + 1) mod 2 ^ 32" by (simp add: unat_word_ariths)
    then have "unat (rd_idx q + 1) mod 2 ^ k = (unat (rd_idx q) + 1) mod 2 ^ k" by (simp only: mod_mod_cancel [OF dvd])
    then have "(unat (rd_idx q + 1) + j) mod 2 ^ k = (unat (rd_idx q) + 1 + j) mod 2 ^ k" by (rule mod_add_cong) (rule refl)
    then have "(unat (rd_idx q + 1) + j) mod 2 ^ k = (unat (rd_idx q) + Suc j) mod 2 ^ k" by simp
    then show ?thesis
      using ring_size [OF inv] by (simp add: live_index_def QueuePopUpdate_def)
  qed
  have list: "queue_list (QueuePopUpdate q) = rest"
    unfolding queue_list_def u idx split(2) by (simp add: QueuePopUpdate_def ps)
  moreover have "ring_inv k (QueuePopUpdate q)"
  proof -
    have "\<forall>p \<in> set (queue_list (QueuePopUpdate q)). packet_ok p" using inv ne by (simp add: list ring_inv_def)
    moreover have "queue_used (QueuePopUpdate q) \<le> 2 ^ k" using u used_le [OF inv] by simp
    ultimately show ?thesis using inv by (simp add: ring_inv_def) (simp add: QueuePopUpdate_def)
  qed
  ultimately show ?thesis by blast
qed

section \<open>Initialisation and release\<close>

definition empty_packet :: StoragePacket where
  "empty_packet = \<lparr>base_time = 0, points_num = 0, points = []\<rparr>"

definition ping :: PointPacket where
  "ping = \<lparr>pp_handle = 1, pp_lidar_type = 8, pp_points_num = 0, pp_points = []\<rparr>"

lemma InitQueue_ring:
  assumes "storage_packet q \<noteq> Deleted"
  shows "\<exists>k r. InitQueue heap n q = Some (True, r) \<and> ring_inv k r \<and> queue_list r = [] \<and>
    (unat n \<le> 2 ^ 31 \<longrightarrow> unat n \<le> 2 ^ k \<and> (\<forall>j < k. \<not> unat n \<le> 2 ^ j)) \<and> (\<not> unat n \<le> 2 ^ 31 \<longrightarrow> k = 31)"
proof -
  define m where "m = (if IsPowerOf2 n then n else RoundupPowerOf2 n)"
  have "\<exists>k < 32. m = 2 ^ k \<and> (unat n \<le> 2 ^ 31 \<longrightarrow> unat n \<le> 2 ^ k \<and> (\<forall>j < k. \<not> unat n \<le> 2 ^ j)) \<and>
    (\<not> unat n \<le> 2 ^ 31 \<longrightarrow> k = 31)"
  proof (cases "IsPowerOf2 n")
    case True
    then obtain k where k: "k < 32" "n = 2 ^ k" by (auto simp: IsPowerOf2_iff)
    note u = power_of_two_word(1) [OF k(1)]
    have "(2 :: nat) ^ k \<le> 2 ^ 31" using k(1) by (intro power_increasing) simp_all
    moreover have "\<not> (2 :: nat) ^ k \<le> 2 ^ j" if "j < k" for j
      using that by (simp add: not_le power_strict_increasing)
    ultimately show ?thesis using k True u by (intro exI [of _ k]) (simp add: m_def)
  next
    case False
    then show ?thesis using RoundupPowerOf2_least [of n] by (simp add: m_def)
  qed
  then obtain k where k: "k < 32" "m = 2 ^ k" "unat n \<le> 2 ^ 31 \<longrightarrow> unat n \<le> 2 ^ k \<and> (\<forall>j < k. \<not> unat n \<le> 2 ^ j)"
    "\<not> unat n \<le> 2 ^ 31 \<longrightarrow> k = 31" by blast
  define r where "r = q\<lparr>storage_packet := Storage (map (\<lambda>i. (heap i)\<lparr>points := []\<rparr>) [0..<unat m]), rd_idx := 0,
    wr_idx := 0, queue_size := m, mask := m - 1\<rparr>"
  have "InitQueue heap n q = Some (True, r)"
    using assms by (cases q) (simp add: InitQueue_def Let_def m_def [symmetric] r_def)
  moreover have "queue_used r = 0" by (simp add: queue_used_def r_def)
  moreover from this have "queue_list r = []" by (simp add: queue_list_def)
  ultimately show ?thesis
    using k power_of_two_word(1) [OF k(1)] by (intro exI [of _ k] exI [of _ r]) (auto simp: ring_inv_def r_def)
qed

text \<open>
  The capacity: initialisation makes an empty queue of the least power of two that holds the number of packets
  asked for; 0 gives 1, and beyond \<open>2\<^sup>31\<close>, where no such power fits 32 bits, it gives \<open>2\<^sup>31\<close>.
\<close>

theorem InitQueue_capacity:
  assumes "storage_packet q \<noteq> Deleted"
  shows "\<exists>k r. InitQueue heap n q = Some (True, r) \<and> unat (queue_size r) = 2 ^ k \<and> queue_list r = [] \<and>
    \<not> QueueIsFull r \<and> QueueIsEmpty r \<and>
    (unat n \<le> 2 ^ 31 \<longrightarrow> unat n \<le> 2 ^ k \<and> (\<forall>j < k. \<not> unat n \<le> 2 ^ j)) \<and> (\<not> unat n \<le> 2 ^ 31 \<longrightarrow> k = 31)"
proof -
  from InitQueue_ring [OF assms] obtain k r where r: "InitQueue heap n q = Some (True, r)" "ring_inv k r" "queue_list r = []"
    "unat n \<le> 2 ^ 31 \<longrightarrow> unat n \<le> 2 ^ k \<and> (\<forall>j < k. \<not> unat n \<le> 2 ^ j)" "\<not> unat n \<le> 2 ^ 31 \<longrightarrow> k = 31" by blast
  have "\<not> QueueIsFull r" "QueueIsEmpty r" using r(3) full_iff [OF r(2)] by (simp_all add: empty_iff)
  with r ring_size [OF r(2)] show ?thesis by blast
qed

lemma InitQueue_capacity_witness:
  "\<exists>r. InitQueue (\<lambda>i. empty_packet) 10 \<lparr>storage_packet = NoStorage, rd_idx = 0, wr_idx = 0, mask = 0, queue_size = 0\<rparr> = Some (True, r) \<and>
    unat (queue_size r) = 16"
proof -
  obtain k r where r: "InitQueue (\<lambda>i. empty_packet) 10 \<lparr>storage_packet = NoStorage, rd_idx = 0, wr_idx = 0, mask = 0, queue_size = 0\<rparr> = Some (True, r)"
    "unat (queue_size r) = 2 ^ k" "10 \<le> (2 :: nat) ^ k" "\<forall>j < k. \<not> 10 \<le> (2 :: nat) ^ j"
    using InitQueue_capacity [of "\<lparr>storage_packet = NoStorage, rd_idx = 0, wr_idx = 0, mask = 0, queue_size = 0\<rparr>" "\<lambda>i. empty_packet" 10] by auto
  have "k = 4"
  proof (rule ccontr)
    assume "k \<noteq> 4"
    then consider "k \<le> 3" | "4 < k" by linarith
    then show False
    proof cases
      case 1
      then have "(2 :: nat) ^ k \<le> 2 ^ 3" by (intro power_increasing) simp_all
      with r(3) show False by simp
    next
      case 2
      with r(4) show False by auto
    qed
  qed
  with r show ?thesis by auto
qed

text \<open>
  Releasing the queue leaves its pointer to the freed packets behind: the next push, and the next
  release, of a queue that has been released use freed memory. (A queue that never had storage is released
  safely.) The emptiness and fullness tests still call such a queue empty and not full.
\<close>

theorem use_after_deinit:
  assumes "DeInitQueue q = Some (b, r)"
  shows "QueueIsEmpty r \<and> \<not> QueueIsFull r \<and>
    (case storage_packet q of
       NoStorage \<Rightarrow> DeInitQueue r = Some (True, r)
     | _ \<Rightarrow> QueuePushAny r d t = None \<and> DeInitQueue r = None \<and> InitQueue heap n r = None)"
  using assms
  by (cases "storage_packet q"; cases q)
    (auto simp: DeInitQueue_def QueueIsEmpty_def QueueIsFull_def QueuePushAny_def packet_at_def InitQueue_def Let_def)

lemma use_after_deinit_witness:
  "\<exists>r. DeInitQueue \<lparr>storage_packet = Storage [empty_packet], rd_idx = 0, wr_idx = 1, mask = 0, queue_size = 1\<rparr> = Some (True, r) \<and>
    QueuePushAny r ping 5 = None \<and> DeInitQueue r = None"
proof -
  let ?q = "\<lparr>storage_packet = Storage [empty_packet], rd_idx = 0, wr_idx = 1, mask = 0, queue_size = 1\<rparr>"
  obtain r where r: "DeInitQueue ?q = Some (True, r)" by (simp add: DeInitQueue_def)
  from use_after_deinit [OF r, of ping 5] r show ?thesis by auto
qed

section \<open>The ring is a bounded queue\<close>

text \<open>How the driver uses the queue: a full queue drops the packet.\<close>

definition Queue_offer :: "PointPacket \<times> u64 \<Rightarrow> LidarDataQueue \<Rightarrow> LidarDataQueue option" where
  "Queue_offer i q = (if \<not> QueueIsFull q then map_option snd (QueuePushAny q (fst i) (snd i)) else Some q)"

definition Queue_take :: "LidarDataQueue \<Rightarrow> (StoragePacket option \<times> LidarDataQueue) option" where
  "Queue_take q = map_option (\<lambda>(ok, p, q). (if ok then Some p else None, q)) (QueuePop q empty_packet)"

lemma offer_effect:
  assumes "ring_inv k q" and "packet_in i"
  shows "\<exists>r. Queue_offer i q = Some r \<and> ring_inv k r \<and>
    queue_list r = (if length (queue_list q) < 2 ^ k then queue_list q @ [stored i] else queue_list q)"
proof (cases "length (queue_list q) < 2 ^ k")
  case True
  then show ?thesis
    using push_effect [OF assms(1), of "fst i" "snd i"] full_iff [OF assms(1)] assms(2) by (auto simp: Queue_offer_def)
next
  case False
  then have "QueueIsFull q" using full_iff [OF assms(1)] used_le [OF assms(1)] by (simp add: queue_list_def)
  then show ?thesis using False assms(1) by (simp add: Queue_offer_def)
qed

lemma take_effect:
  assumes "ring_inv k q"
  shows "\<exists>r. ring_inv k r \<and> Queue_take q = Some (case queue_list q of [] \<Rightarrow> None | p # _ \<Rightarrow> Some p, r) \<and>
    queue_list r = tl (queue_list q)"
proof (cases "queue_list q")
  case Nil
  then show ?thesis using assms by (simp add: Queue_take_def QueuePop_def QueuePrePop_def empty_iff)
next
  case (Cons p ps)
  then show ?thesis using pop_effect [OF assms Cons, of empty_packet] by (simp add: Queue_take_def)
qed

interpretation ring: bounded_fifo "ring_inv k" queue_list "2 ^ k" packet_in stored Queue_offer Queue_take for k
  by unfold_locales (use offer_effect take_effect used_le in \<open>auto simp: queue_list_def\<close>)

text \<open>
  C36. The ring is a queue: any history of pushes (dropped when full) and pops, however long, also over the
  wrap-around of the indices at \<open>2\<^sup>32\<close>, stays inside the array and hands out exactly what the same
  history does on a list, packets with their time and all their points.
\<close>

theorem queue_is_fifo:
  assumes "ring_inv k q" and "\<forall>i. Enq i \<in> set ops \<longrightarrow> packet_in i"
  shows "\<exists>out t. fifo_run Queue_offer Queue_take ops q = Some (out, t) \<and> ring_inv k t \<and>
    fold (list_op (2 ^ k) stored) ops (queue_list q, []) = (queue_list t, out)"
  by (rule ring.history [OF assms])

text \<open>
  While no more packets are pushed than the ring has room for, none is lost, doubled or reordered:
  what was popped and what is left are what was there and what was pushed.
\<close>

theorem queue_conserves:
  assumes "ring_inv k q" and "\<forall>i. Enq i \<in> set ops \<longrightarrow> packet_in i"
    and "length (queue_list q) + length (enqueued stored ops) \<le> 2 ^ k"
  shows "\<exists>out t. fifo_run Queue_offer Queue_take ops q = Some (out, t) \<and>
    out @ queue_list t = queue_list q @ enqueued stored ops"
  using ring.history_conserves [OF assms] by blast

definition wrap_queue :: LidarDataQueue where
  "wrap_queue = \<lparr>storage_packet = Storage [empty_packet, empty_packet], rd_idx = 0xFFFFFFFF, wr_idx = 0xFFFFFFFF, mask = 1, queue_size = 2\<rparr>"

lemma wrap_queue_ring: "ring_inv 1 wrap_queue" "queue_list wrap_queue = []"
  by (simp_all add: ring_inv_def wrap_queue_def queue_list_def queue_used_def)

lemma queue_is_fifo_witness:
  "\<exists>out t. fifo_run Queue_offer Queue_take [Enq (ping, 1), Enq (ping, 2), Enq (ping, 3), Deq] wrap_queue = Some ([stored (ping, 1)], t) \<and>
    queue_list t = [stored (ping, 2)]"
  using queue_is_fifo [OF wrap_queue_ring(1), of "[Enq (ping, 1), Enq (ping, 2), Enq (ping, 3), Deq]"]
  by (auto simp: wrap_queue_ring(2) packet_in_def ping_def)

lemma queue_conserves_witness:
  "\<exists>out t. fifo_run Queue_offer Queue_take [Enq (ping, 1), Deq, Enq (ping, 2)] wrap_queue = Some (out, t) \<and>
    out @ queue_list t = [stored (ping, 1), stored (ping, 2)]"
  using queue_conserves [OF wrap_queue_ring(1), of "[Enq (ping, 1), Deq, Enq (ping, 2)]"]
  by (auto simp: wrap_queue_ring(2) packet_in_def ping_def)

end
