(* ===== verification/Cache_Index.thy ===== *)
theory Cache_Index
  imports Cstring
begin

text \<open>
  Which of the driver's 32 places a lidar has, \<open>src/src/livox_ros_driver2/src/comm/cache_index.cpp\<close>. A place
  is looked up by a key made of the lidar's handle. \<open>GetFreeIndex\<close> takes its mutex twice: the two
  sections are the definitions \<open>GetFreeIndex_lookup\<close> and \<open>GetFreeIndex_allocate\<close>. A call that
  returns 0 and sets its reference parameter is \<open>Some\<close> of the index, one that returns -1 is \<open>None\<close>.
\<close>

section \<open>State\<close>

definition kMaxSourceLidar :: nat where
  "kMaxSourceLidar = 32"

definition kLivoxLidarType :: u8 where
  "kLivoxLidarType = 8"

record cache_index =
  map_index :: "u8 list \<Rightarrow> u8 option"
  index_cache :: "bool list"

definition cache_init :: cache_index where
  "cache_init = \<lparr>map_index = (\<lambda>_. None), index_cache = replicate kMaxSourceLidar False\<rparr>"

section \<open>Operations\<close>

definition GenerateIndexKey :: "u8 \<Rightarrow> u32 \<Rightarrow> u8 list option" where
  "GenerateIndexKey lidar_type h =
     (if lidar_type = kLivoxLidarType then Some (ascii ''livox_lidar_'' @ dec_digits (unat h)) else None)"

definition GetFreeIndex_lookup :: "u8 list \<Rightarrow> cache_index \<Rightarrow> u8 option" where
  "GetFreeIndex_lookup key c = map_index c key"

definition GetFreeIndex_allocate :: "u8 list \<Rightarrow> cache_index \<Rightarrow> u8 option \<times> cache_index" where
  "GetFreeIndex_allocate key c =
     (case find (\<lambda>i. \<not> index_cache c ! i) [0..<kMaxSourceLidar] of
        None \<Rightarrow> (None, c)
      | Some i \<Rightarrow>
          let c = c\<lparr>index_cache := (index_cache c)[i := True]\<rparr>
          in (Some (of_nat i), c\<lparr>map_index := (map_index c)(key := Some (of_nat i))\<rparr>))"

definition GetFreeIndex :: "u8 \<Rightarrow> u32 \<Rightarrow> cache_index \<Rightarrow> u8 option \<times> cache_index" where
  "GetFreeIndex lidar_type h c =
     (case GenerateIndexKey lidar_type h of
        None \<Rightarrow> (None, c)
      | Some key \<Rightarrow> (case GetFreeIndex_lookup key c of
            Some i \<Rightarrow> (Some i, c)
          | None \<Rightarrow> GetFreeIndex_allocate key c))"

definition GetIndex :: "u8 \<Rightarrow> u32 \<Rightarrow> cache_index \<Rightarrow> u8 option" where
  "GetIndex lidar_type h c =
     (case GenerateIndexKey lidar_type h of
        None \<Rightarrow> None
      | Some key \<Rightarrow> map_index c key)"

definition LvxGetIndex :: "u8 \<Rightarrow> u32 \<Rightarrow> cache_index \<Rightarrow> u8 option \<times> cache_index" where
  "LvxGetIndex lidar_type h c =
     (case GenerateIndexKey lidar_type h of
        None \<Rightarrow> (None, c)
      | Some key \<Rightarrow> (case map_index c key of
            Some i \<Rightarrow> (Some i, c)
          | None \<Rightarrow> GetFreeIndex lidar_type h c))"

text \<open>\<open>None\<close>: the place is outside the array.\<close>

definition ResetIndex :: "u8 \<Rightarrow> u32 \<Rightarrow> cache_index \<Rightarrow> cache_index option" where
  "ResetIndex lidar_type h c =
     (case GenerateIndexKey lidar_type h of
        None \<Rightarrow> Some c
      | Some key \<Rightarrow> (case map_index c key of
            None \<Rightarrow> Some c
          | Some i \<Rightarrow>
              let c = c\<lparr>map_index := (map_index c)(key := None)\<rparr>
              in if unat i < length (index_cache c) then Some (c\<lparr>index_cache := (index_cache c)[unat i := False]\<rparr>)
                 else None))"

section \<open>Keys\<close>

definition dec_value :: "u8 list \<Rightarrow> nat" where
  "dec_value ds = foldl (\<lambda>n c. 10 * n + (unat c - 48)) 0 ds"

lemma dec_value_digits: "dec_value (dec_digits n) = n"
proof (induction n rule: dec_digits.induct)
  case (1 n)
  show ?case
  proof (cases "n < 10")
    case True
    then show ?thesis using unat_digit [of n] by (simp add: dec_digits.simps [of n] dec_value_def)
  next
    case False
    have d: "dec_value (ds @ [c]) = 10 * dec_value ds + (unat c - 48)" for ds c by (simp add: dec_value_def)
    from False have "dec_digits n = dec_digits (n div 10) @ [48 + of_nat (n mod 10)]" by (simp add: dec_digits.simps [of n])
    then have "dec_value (dec_digits n) = 10 * (n div 10) + (unat ((48 :: u8) + of_nat (n mod 10)) - 48)"
      using "1" [OF False] by (simp only: d)
    also have "\<dots> = 10 * (n div 10) + n mod 10" using unat_digit [of "n mod 10"] by simp
    finally show ?thesis by simp
  qed
qed

definition key_of :: "u32 \<Rightarrow> u8 list" where
  "key_of h = ascii ''livox_lidar_'' @ dec_digits (unat h)"

lemma key_of_inject: "key_of h = key_of h' \<longleftrightarrow> h = h'"
proof
  assume "key_of h = key_of h'"
  then have "dec_digits (unat h) = dec_digits (unat h')" by (simp add: key_of_def)
  then have "unat h = unat h'" by (metis dec_value_digits)
  then show "h = h'" by (simp add: word_unat_eq_iff)
qed simp

lemma GenerateIndexKey_eq: "GenerateIndexKey kLivoxLidarType h = Some (key_of h)"
  by (simp add: GenerateIndexKey_def key_of_def)

section \<open>The places\<close>

definition cache_inv :: "cache_index \<Rightarrow> bool" where
  "cache_inv c \<longleftrightarrow> length (index_cache c) = 32 \<and>
     (\<forall>key i. map_index c key = Some i \<longrightarrow> unat i < 32 \<and> index_cache c ! unat i) \<and>
     (\<forall>key key' i. map_index c key = Some i \<and> map_index c key' = Some i \<longrightarrow> key = key') \<and>
     (\<forall>i < 32. index_cache c ! i \<longrightarrow> (\<exists>key. map_index c key = Some (of_nat i)))"

lemma cache_init_inv: "cache_inv cache_init"
  by (simp add: cache_inv_def cache_init_def kMaxSourceLidar_def)

lemma allocate_cases:
  assumes "length (index_cache c) = 32"
  obtains (full) "GetFreeIndex_allocate key c = (None, c)" "\<forall>i < 32. index_cache c ! i"
    | (free) i where "i < 32" "\<not> index_cache c ! i" "\<forall>j < i. index_cache c ! j"
        "GetFreeIndex_allocate key c = (Some (of_nat i),
          c\<lparr>index_cache := (index_cache c)[i := True], map_index := (map_index c)(key := Some (of_nat i))\<rparr>)"
proof (cases "find (\<lambda>i. \<not> index_cache c ! i) [0..<32]")
  case None
  have "GetFreeIndex_allocate key c = (None, c)" by (simp add: GetFreeIndex_allocate_def kMaxSourceLidar_def None)
  moreover have "\<forall>i < 32. index_cache c ! i" using None by (auto simp: find_None_iff)
  ultimately show ?thesis by (rule full)
next
  case (Some i)
  then have "i < 32" "\<not> index_cache c ! i" "\<forall>j < i. index_cache c ! j"
    by (auto simp: find_Some_iff)
  with Some free show ?thesis by (simp add: GetFreeIndex_allocate_def kMaxSourceLidar_def Let_def)
qed

lemma unat_index: "i < 32 \<Longrightarrow> unat (of_nat i :: u8) = i"
  by (simp add: unsigned_of_nat take_bit_nat_eq_self)

lemma allocate_inv:
  assumes inv: "cache_inv c" and new: "map_index c key = None"
  shows "cache_inv (snd (GetFreeIndex_allocate key c))"
proof -
  have len: "length (index_cache c) = 32" using inv by (simp add: cache_inv_def)
  show ?thesis
  proof (cases rule: allocate_cases [OF len, of key, case_names full free])
    case full
    then show ?thesis using inv by simp
  next
    case (free i)
    have u: "unat (of_nat i :: u8) = i" by (rule unat_index [OF free(1)])
    have taken: "index_cache c ! unat j" if "map_index c k = Some j" for k j
      using inv that unfolding cache_inv_def by blast
    have other: "map_index c k \<noteq> Some (of_nat i)" for k using taken [of k "of_nat i"] free(2) u by auto
    have used: "\<exists>k. k \<noteq> key \<and> map_index c k = Some (of_nat j)" if "j < 32" "index_cache c ! j" for j
    proof -
      from inv that obtain k where k: "map_index c k = Some (of_nat j)" unfolding cache_inv_def by blast
      with new have "k \<noteq> key" by auto
      with k show ?thesis by blast
    qed
    then have used': "\<forall>j < 32. index_cache c ! j \<longrightarrow> (\<exists>k. k \<noteq> key \<and> map_index c k = Some (of_nat j))" by blast
    show ?thesis
      using inv free(1) other used' u new unfolding free(4) cache_inv_def by (simp add: nth_list_update) metis
  qed
qed

lemma GetFreeIndex_inv:
  assumes "cache_inv c"
  shows "cache_inv (snd (GetFreeIndex t h c))"
  using assms allocate_inv by (auto simp: GetFreeIndex_def GetFreeIndex_lookup_def split: option.splits)

lemma LvxGetIndex_eq: "LvxGetIndex t h c = GetFreeIndex t h c"
  by (simp add: LvxGetIndex_def GetFreeIndex_def GetFreeIndex_lookup_def split: option.splits)

lemma ResetIndex_effect:
  assumes "cache_inv c"
  shows "\<exists>d. ResetIndex t h c = Some d \<and> cache_inv d \<and>
    map_index d = (if t = kLivoxLidarType then (map_index c)(key_of h := None) else map_index c)"
proof (cases "t = kLivoxLidarType \<and> map_index c (key_of h) \<noteq> None")
  case False
  then show ?thesis
    using assms by (auto simp: ResetIndex_def GenerateIndexKey_def key_of_def fun_upd_idem)
next
  case True
  then obtain i where i: "map_index c (key_of h) = Some i" by auto
  then have lt: "unat i < 32" "length (index_cache c) = 32" using assms by (auto simp: cache_inv_def)
  define d where "d = c\<lparr>map_index := (map_index c)(key_of h := None), index_cache := (index_cache c)[unat i := False]\<rparr>"
  have "ResetIndex t h c = Some d" using True i lt by (simp add: ResetIndex_def GenerateIndexKey_eq d_def Let_def)
  moreover have "cache_inv d"
  proof -
    have "unat j \<noteq> unat i" if "map_index c k = Some j" "k \<noteq> key_of h" for k j
      using that i assms by (metis cache_inv_def word_unat_eq_iff)
    then have "\<forall>k j. map_index c k = Some j \<and> k \<noteq> key_of h \<longrightarrow> unat j \<noteq> unat i" by blast
    moreover have "\<exists>k. k \<noteq> key_of h \<and> map_index c k = Some (of_nat j)" if "j < 32" "j \<noteq> unat i" "index_cache c ! j" for j
    proof -
      obtain k where k: "map_index c k = Some (of_nat j)" using assms \<open>j < 32\<close> \<open>index_cache c ! j\<close> by (auto simp: cache_inv_def)
      moreover have "k \<noteq> key_of h" using k i unat_index [OF \<open>j < 32\<close>] \<open>j \<noteq> unat i\<close> by auto
      ultimately show ?thesis by blast
    qed
    then have "\<forall>j < 32. j \<noteq> unat i \<and> index_cache c ! j \<longrightarrow> (\<exists>k. k \<noteq> key_of h \<and> map_index c k = Some (of_nat j))" by blast
    ultimately show ?thesis
      using assms lt unfolding cache_inv_def d_def by (simp add: nth_list_update) metis
  qed
  ultimately show ?thesis using True by (simp add: d_def)
qed

section \<open>Histories of the place table\<close>

datatype place_op = Place u8 u32 | Lvx u8 u32 | Release u8 u32

fun place_step :: "place_op \<Rightarrow> cache_index \<Rightarrow> cache_index option" where
  "place_step (Place t h) c = Some (snd (GetFreeIndex t h c))"
| "place_step (Lvx t h) c = Some (snd (LvxGetIndex t h c))"
| "place_step (Release t h) c = ResetIndex t h c"

fun place_run :: "place_op list \<Rightarrow> cache_index \<Rightarrow> cache_index option" where
  "place_run [] c = Some c"
| "place_run (p # ps) c = (case place_step p c of None \<Rightarrow> None | Some c \<Rightarrow> place_run ps c)"

lemma place_run_inv:
  assumes "cache_inv c"
  shows "\<exists>d. place_run ps c = Some d \<and> cache_inv d"
  using assms
proof (induction ps arbitrary: c)
  case Nil
  then show ?case by simp
next
  case (Cons p ps)
  have "\<exists>d. place_step p c = Some d \<and> cache_inv d"
    using Cons.prems GetFreeIndex_inv ResetIndex_effect by (cases p) (auto simp: LvxGetIndex_eq, blast)
  with Cons.IH show ?case by auto
qed

text \<open>
  C39. Whatever lidars come and go, the table stays inside its array, every index it gives is one of the 32
  places and marked as taken, and two lidars never have the same place.
\<close>

theorem places_distinct:
  "\<exists>c. place_run ps cache_init = Some c \<and>
    (case (GetIndex kLivoxLidarType h c, GetIndex kLivoxLidarType h' c) of
       (Some i, Some j) \<Rightarrow> unat i < 32 \<and> index_cache c ! unat i \<and> (i = j \<longleftrightarrow> h = h')
     | _ \<Rightarrow> True)"
proof -
  from place_run_inv [OF cache_init_inv, of ps] obtain c where c: "place_run ps cache_init = Some c" "cache_inv c" by blast
  have "unat i < 32 \<and> index_cache c ! unat i \<and> (i = j \<longleftrightarrow> h = h')"
    if "map_index c (key_of h) = Some i" "map_index c (key_of h') = Some j" for i j
    using that c(2) key_of_inject [of h h'] unfolding cache_inv_def by (metis option.inject)
  with c(1) show ?thesis by (auto simp: GetIndex_def GenerateIndexKey_eq split: option.splits)
qed

text \<open>
  \<open>GetFreeIndex\<close>: a known lidar keeps its place and nothing changes; a new one gets the lowest free
  place, without touching the others; it is refused exactly when all 32 places are taken.
\<close>

theorem GetFreeIndex_lowest:
  assumes "cache_inv c" and "GetFreeIndex kLivoxLidarType h c = (r, d)"
  shows "cache_inv d \<and> GetIndex kLivoxLidarType h d = r \<and>
    (h' \<noteq> h \<longrightarrow> GetIndex kLivoxLidarType h' d = GetIndex kLivoxLidarType h' c) \<and>
    (case GetIndex kLivoxLidarType h c of
       Some i \<Rightarrow> r = Some i \<and> d = c
     | None \<Rightarrow> (case r of
           None \<Rightarrow> (\<forall>i < 32. index_cache c ! i) \<and> d = c
         | Some i \<Rightarrow> unat i < 32 \<and> \<not> index_cache c ! unat i \<and> (\<forall>j < unat i. index_cache c ! j)))"
proof (cases "map_index c (key_of h)")
  case (Some i)
  then have "r = Some i" "d = c"
    using assms(2) by (simp_all add: GetFreeIndex_def GetFreeIndex_lookup_def GenerateIndexKey_eq)
  then show ?thesis using assms(1) Some by (simp add: GetIndex_def GenerateIndexKey_eq)
next
  case None
  have len: "length (index_cache c) = 32" using assms(1) by (simp add: cache_inv_def)
  have inv: "cache_inv d" using GetFreeIndex_inv [OF assms(1), of kLivoxLidarType h] assms(2) by simp
  have all: "GetFreeIndex_allocate (key_of h) c = (r, d)"
    using assms(2) None by (simp add: GetFreeIndex_def GetFreeIndex_lookup_def GenerateIndexKey_eq)
  show ?thesis
  proof (cases rule: allocate_cases [OF len, of "key_of h", case_names full free])
    case full
    then show ?thesis using inv all None by (auto simp: GetIndex_def GenerateIndexKey_eq)
  next
    case (free i)
    then show ?thesis
      using inv all None unat_index [OF free(1)] by (auto simp: GetIndex_def GenerateIndexKey_eq key_of_inject)
  qed
qed

lemma GetFreeIndex_lowest_witness:
  "\<exists>i d. GetFreeIndex kLivoxLidarType 7 cache_init = (Some i, d) \<and> GetIndex kLivoxLidarType 7 d = Some i"
proof -
  obtain r d where r: "GetFreeIndex kLivoxLidarType 7 cache_init = (r, d)" by fastforce
  have "GetIndex kLivoxLidarType 7 cache_init = None" "\<not> index_cache cache_init ! 0"
    by (simp_all add: GetIndex_def GenerateIndexKey_eq cache_init_def kMaxSourceLidar_def)
  with GetFreeIndex_lowest [OF cache_init_inv r, of 8] r show ?thesis by (auto split: option.splits)
qed

text \<open>
  The two sections of \<open>GetFreeIndex\<close> are not one: when two threads report the same new lidar and
  both look it up before either allocates, two places are marked as taken for it. The first is then in
  nobody's name, and the place is lost: releasing the lidar frees only the second.
\<close>

theorem GetFreeIndex_race:
  assumes "cache_inv c" and "GetFreeIndex_lookup (key_of h) c = None"
    and "GetFreeIndex_allocate (key_of h) c = (Some i, d)"
    and "GetFreeIndex_allocate (key_of h) d = (Some j, e)"
    and "ResetIndex kLivoxLidarType h e = Some f"
  shows "i \<noteq> j \<and> GetIndex kLivoxLidarType h' e \<noteq> Some i \<and> index_cache e ! unat i \<and> index_cache f ! unat i \<and>
    GetIndex kLivoxLidarType h' f \<noteq> Some i \<and> \<not> cache_inv e"
proof -
  have len: "length (index_cache c) = 32" using assms(1) by (simp add: cache_inv_def)
  obtain m where m: "m < 32" "\<not> index_cache c ! m" "i = of_nat m"
    "d = c\<lparr>index_cache := (index_cache c)[m := True], map_index := (map_index c)(key_of h := Some (of_nat m))\<rparr>"
    using assms(3) by (cases rule: allocate_cases [OF len, of "key_of h"]) auto
  have len': "length (index_cache d) = 32" using len m(4) by simp
  obtain n where n: "n < 32" "\<not> index_cache d ! n" "j = of_nat n"
    "e = d\<lparr>index_cache := (index_cache d)[n := True], map_index := (map_index d)(key_of h := Some (of_nat n))\<rparr>"
    using assms(4) by (cases rule: allocate_cases [OF len', of "key_of h"]) auto
  have um: "unat i = m" and un: "unat j = n" using unat_index m n by simp_all
  have ne: "m \<noteq> n" using n(2) m len by auto
  have free: "map_index c k \<noteq> Some i" for k
    using assms(1) m(2) um by (auto simp: cache_inv_def)
  have e: "map_index e = (map_index c)(key_of h := Some j)" "index_cache e ! m" "length (index_cache e) = 32"
    using m n ne len by (simp_all add: nth_list_update)
  have none: "map_index e k \<noteq> Some i" for k using free e(1) ne um un by auto
  then have "\<not> cache_inv e" using e(2) m(1,3) by (auto simp: cache_inv_def)
  moreover have f: "map_index f = (map_index c)(key_of h := None)" "index_cache f = (index_cache e)[n := False]"
    using assms(5) e un n(1) by (auto simp: ResetIndex_def GenerateIndexKey_eq Let_def)
  moreover have "map_index f k \<noteq> Some i" for k using free f(1) by simp
  ultimately show ?thesis
    using e um un ne none by (auto simp: GetIndex_def GenerateIndexKey_eq)
qed


lemma GetFreeIndex_race_witness:
  "\<exists>i d j e f. GetFreeIndex_allocate (key_of 7) cache_init = (Some i, d) \<and>
    GetFreeIndex_allocate (key_of 7) d = (Some j, e) \<and> ResetIndex kLivoxLidarType 7 e = Some f \<and>
    i \<noteq> j \<and> index_cache f ! unat i"
proof -
  have len: "length (index_cache cache_init) = 32" by (simp add: cache_init_def kMaxSourceLidar_def)
  have "\<not> index_cache cache_init ! 0" by (simp add: cache_init_def kMaxSourceLidar_def)
  then obtain i where i: "i < 32" "GetFreeIndex_allocate (key_of 7) cache_init = (Some (of_nat i),
      cache_init\<lparr>index_cache := (index_cache cache_init)[i := True], map_index := (map_index cache_init)(key_of 7 := Some (of_nat i))\<rparr>)"
    by (cases rule: allocate_cases [OF len, of "key_of 7"]) auto
  define d where "d = cache_init\<lparr>index_cache := (index_cache cache_init)[i := True],
    map_index := (map_index cache_init)(key_of 7 := Some (of_nat i))\<rparr>"
  have len': "length (index_cache d) = 32" using len by (simp add: d_def)
  have "\<not> index_cache d ! (if i = 0 then 1 else 0)"
    by (simp add: d_def cache_init_def kMaxSourceLidar_def)
  moreover have "(if i = 0 then 1 else 0) < (32 :: nat)" by simp
  ultimately have "\<not> (\<forall>k < 32. index_cache d ! k)" by metis
  then obtain j where j: "j < 32" "GetFreeIndex_allocate (key_of 7) d = (Some (of_nat j),
      d\<lparr>index_cache := (index_cache d)[j := True], map_index := (map_index d)(key_of 7 := Some (of_nat j))\<rparr>)"
    by (cases rule: allocate_cases [OF len', of "key_of 7"]) auto
  define e where "e = d\<lparr>index_cache := (index_cache d)[j := True], map_index := (map_index d)(key_of 7 := Some (of_nat j))\<rparr>"
  obtain f where f: "ResetIndex kLivoxLidarType 7 e = Some f"
    using unat_index [OF j(1)] j(1) len' by (simp add: ResetIndex_def GenerateIndexKey_eq e_def Let_def)
  have none: "GetFreeIndex_lookup (key_of 7) cache_init = None" by (simp add: GetFreeIndex_lookup_def cache_init_def)
  from GetFreeIndex_race [OF cache_init_inv none i(2) [folded d_def] j(2) [folded e_def] f]
  show ?thesis using i(2) j(2) f unfolding d_def [symmetric] e_def [symmetric] by blast
qed

end
