(* ===== verification/Lds.thy ===== *)
theory Lds
  imports Complex_Main Ldq Cache_Index
begin

text \<open>
  The driver's data source, \<open>src/src/livox_ros_driver2/src/lds.cpp\<close>: 32 lidars with their point
  queues, the table of places, and the semaphore that wakes the publisher. A frame of packets is sorted
  into the queues of its lidars. The IMU queues are left out. The frequency is the rational number that the \<open>double\<close> holds. An index
  outside an array is \<open>None\<close>.
\<close>

section \<open>State\<close>

datatype LidarConnectState = kConnectStateOff | kConnectStateOn | kConnectStateConfig | kConnectStateSampling

record LidarDevice =
  dev_data_src :: u8
  connect_state :: LidarConnectState
  dev_data :: LidarDataQueue

record lds =
  lidars :: "LidarDevice list"
  pcd_semaphore :: int
  places :: cache_index
  publish_freq :: rat

record PointFrame =
  frame_base_time :: "u64 list"
  lidar_num :: u8
  lidar_point :: "PointPacket list"

section \<open>Operations\<close>

text \<open>The semaphore of \<open>comm/semaphore.cpp\<close>; a wait returns only on a positive count.\<close>

definition Semaphore_Signal :: "int \<Rightarrow> int" where
  "Semaphore_Signal count = count + 1"

definition Semaphore_Wait :: "int \<Rightarrow> int option" where
  "Semaphore_Wait count = (if count > 0 then Some (count - 1) else None)"

definition CalculatePacketQueueSize :: "rat \<Rightarrow> u32" where
  "CalculatePacketQueueSize f = (if f > 10 then of_int \<lfloor>f\<rfloor> + 1 else 10)"

definition device_at :: "nat \<Rightarrow> lds \<Rightarrow> LidarDevice option" where
  "device_at i s = (if i < length (lidars s) then Some (lidars s ! i) else None)"

definition device_put :: "nat \<Rightarrow> LidarDevice \<Rightarrow> lds \<Rightarrow> lds" where
  "device_put i d s = s\<lparr>lidars := (lidars s)[i := d]\<rparr>"

definition ResetLidar :: "LidarDevice \<Rightarrow> u8 \<Rightarrow> LidarDevice option" where
  "ResetLidar d src = do {
     (_, q) \<leftarrow> DeInitQueue (dev_data d);
     let d = d\<lparr>dev_data := q\<rparr>;
     let d = d\<lparr>dev_data_src := src\<rparr>;
     Some (d\<lparr>connect_state := kConnectStateOff\<rparr>)
   }"

definition IsAllQueueEmpty :: "lds \<Rightarrow> bool" where
  "IsAllQueueEmpty s \<longleftrightarrow> list_all (\<lambda>d. QueueIsEmpty (dev_data d)) (lidars s)"

text \<open>The two halves of \<open>PushLidarData\<close>: the queue, then the semaphore, which other threads may change
  in between.\<close>

definition signal_if_idle :: "lds \<Rightarrow> lds" where
  "signal_if_idle s = (if pcd_semaphore s \<le> 0 then s\<lparr>pcd_semaphore := Semaphore_Signal (pcd_semaphore s)\<rparr> else s)"

text \<open>The lidar's queue, made at the first packet.\<close>

definition PushLidarData_queue :: "(nat \<Rightarrow> StoragePacket) \<Rightarrow> rat \<Rightarrow> LidarDevice \<Rightarrow> LidarDataQueue option" where
  "PushLidarData_queue heap f d =
     (if storage_packet (dev_data d) = NoStorage
      then map_option snd (InitQueue heap (CalculatePacketQueueSize f) (dev_data d))
      else Some (dev_data d))"

text \<open>The result says whether the semaphore is to be looked at.\<close>

definition PushLidarData_store ::
  "(nat \<Rightarrow> StoragePacket) \<Rightarrow> PointPacket \<Rightarrow> u8 \<Rightarrow> u64 \<Rightarrow> lds \<Rightarrow> (bool \<times> lds) option" where
  "PushLidarData_store heap lidar_data index t s = do {
     d \<leftarrow> device_at (unat index) s;
     q \<leftarrow> PushLidarData_queue heap (publish_freq s) d;
     if \<not> QueueIsFull q then do {
       (_, q) \<leftarrow> QueuePushAny q lidar_data t;
       Some (\<not> QueueIsEmpty q, device_put (unat index) (d\<lparr>dev_data := q\<rparr>) s)
     }
     else Some (True, device_put (unat index) (d\<lparr>dev_data := q\<rparr>) s)
   }"

definition PushLidarData ::
  "(nat \<Rightarrow> StoragePacket) \<Rightarrow> PointPacket \<Rightarrow> u8 \<Rightarrow> u64 \<Rightarrow> lds \<Rightarrow> lds option" where
  "PushLidarData heap lidar_data index t s = do {
     (look, s) \<leftarrow> PushLidarData_store heap lidar_data index t s;
     Some (if look then signal_if_idle s else s)
   }"

fun StoragePointData_loop ::
  "(nat \<Rightarrow> StoragePacket) \<Rightarrow> PointFrame \<Rightarrow> nat list \<Rightarrow> lds \<Rightarrow> lds option" where
  "StoragePointData_loop heap frame [] s = Some s"
| "StoragePointData_loop heap frame (i # is) s = do {
     p \<leftarrow> (if i < length (lidar_point frame) then Some (lidar_point frame ! i) else None);
     t \<leftarrow> (if i < length (frame_base_time frame) then Some (frame_base_time frame ! i) else None);
     s \<leftarrow> (case GetIndex (pp_lidar_type p) (pp_handle p) (places s) of
            None \<Rightarrow> Some s
          | Some index \<Rightarrow> PushLidarData heap p index t s);
     StoragePointData_loop heap frame is s
   }"

fun ResetLds_loop :: "LidarDevice list \<Rightarrow> u8 \<Rightarrow> LidarDevice list option" where
  "ResetLds_loop [] src = Some []"
| "ResetLds_loop (d # ds) src = do {
     d \<leftarrow> ResetLidar d src;
     ds \<leftarrow> ResetLds_loop ds src;
     Some (d # ds)
   }"

definition ResetLds :: "u8 \<Rightarrow> lds \<Rightarrow> lds option" where
  "ResetLds src s = map_option (\<lambda>ds. s\<lparr>lidars := ds\<rparr>) (ResetLds_loop (lidars s) src)"

definition IsAllQueueReadStop :: "lds \<Rightarrow> bool" where
  "IsAllQueueReadStop s \<longleftrightarrow> list_all (\<lambda>d. QueueUsedSize (dev_data d) = 0) (lidars s)"

text \<open>The frames of a recorded file: an unknown lidar is given a place, and counts as sampling.\<close>

fun StorageLvxPointData_loop ::
  "(nat \<Rightarrow> StoragePacket) \<Rightarrow> PointFrame \<Rightarrow> nat list \<Rightarrow> lds \<Rightarrow> lds option" where
  "StorageLvxPointData_loop heap frame [] s = Some s"
| "StorageLvxPointData_loop heap frame (i # is) s = do {
     p \<leftarrow> (if i < length (lidar_point frame) then Some (lidar_point frame ! i) else None);
     t \<leftarrow> (if i < length (frame_base_time frame) then Some (frame_base_time frame ! i) else None);
     let (r, c) = LvxGetIndex (pp_lidar_type p) (pp_handle p) (places s);
     let s = s\<lparr>places := c\<rparr>;
     s \<leftarrow> (case r of
            None \<Rightarrow> Some s
          | Some index \<Rightarrow> do {
              d \<leftarrow> device_at (unat index) s;
              let s = device_put (unat index) (d\<lparr>connect_state := kConnectStateSampling\<rparr>) s;
              PushLidarData heap p index t s
            });
     StorageLvxPointData_loop heap frame is s
   }"

definition StorageLvxPointData :: "(nat \<Rightarrow> StoragePacket) \<Rightarrow> PointFrame \<Rightarrow> lds \<Rightarrow> lds option" where
  "StorageLvxPointData heap frame s = StorageLvxPointData_loop heap frame [0..<unat (lidar_num frame)] s"

definition StoragePointData :: "(nat \<Rightarrow> StoragePacket) \<Rightarrow> PointFrame \<Rightarrow> lds \<Rightarrow> lds option" where
  "StoragePointData heap frame s = StoragePointData_loop heap frame [0..<unat (lidar_num frame)] s"

section \<open>The queue size\<close>

lemma rounds_to_queue:
  assumes "0 \<le> f" and "f < 2 ^ 31"
  shows "unat (CalculatePacketQueueSize f) = (if f > 10 then nat \<lfloor>f\<rfloor> + 1 else 10)"
    "unat (CalculatePacketQueueSize f) \<le> 2 ^ 31"
proof -
  show u: "unat (CalculatePacketQueueSize f) = (if f > 10 then nat \<lfloor>f\<rfloor> + 1 else 10)"
  proof (cases "f > 10")
    case False
    then show ?thesis by (simp add: CalculatePacketQueueSize_def)
  next
    case True
    have n: "0 \<le> \<lfloor>f\<rfloor>" "\<lfloor>f\<rfloor> < 2 ^ 31" using assms by (simp_all add: floor_less_iff)
    then have "(of_int \<lfloor>f\<rfloor> :: u32) = of_nat (nat \<lfloor>f\<rfloor>)" by (metis int_nat_eq of_int_of_nat_eq)
    then have "CalculatePacketQueueSize f = of_nat (nat \<lfloor>f\<rfloor> + 1)" using True by (simp add: CalculatePacketQueueSize_def)
    moreover have "nat \<lfloor>f\<rfloor> < 2 ^ 31" using n by (simp add: nat_less_iff)
    then have "unat (of_nat (nat \<lfloor>f\<rfloor> + 1) :: u32) = nat \<lfloor>f\<rfloor> + 1" by (simp only: unat_of_nat len_of_numeral_defs) simp
    ultimately show ?thesis using True by simp
  qed
  have "\<lfloor>f\<rfloor> < 2 ^ 31" using assms by (simp add: floor_less_iff)
  then have "nat \<lfloor>f\<rfloor> < 2 ^ 31" using assms(1) by (subst nat_less_iff) simp_all
  then show "unat (CalculatePacketQueueSize f) \<le> 2 ^ 31" unfolding u by simp
qed

section \<open>The queues of the lidars\<close>

definition device_ok :: "LidarDevice \<Rightarrow> bool" where
  "device_ok d \<longleftrightarrow> (case storage_packet (dev_data d) of
     NoStorage \<Rightarrow> rd_idx (dev_data d) = wr_idx (dev_data d)
   | Storage _ \<Rightarrow> (\<exists>k. ring_inv k (dev_data d))
   | Deleted \<Rightarrow> False)"

definition lds_ok :: "lds \<Rightarrow> bool" where
  "lds_ok s \<longleftrightarrow> length (lidars s) = 32 \<and> (\<forall>d \<in> set (lidars s). device_ok d) \<and> cache_inv (places s)"

definition device_list :: "LidarDevice \<Rightarrow> StoragePacket list" where
  "device_list d = queue_list (dev_data d)"

definition lidar_queue :: "lds \<Rightarrow> nat \<Rightarrow> StoragePacket list" where
  "lidar_queue s i = device_list (lidars s ! i)"

text \<open>The capacity of a lidar's queue: that of the ring it has, or of the one it is going to get.\<close>

definition device_cap :: "rat \<Rightarrow> LidarDevice \<Rightarrow> nat" where
  "device_cap f d =
     (if storage_packet (dev_data d) = NoStorage
      then let n = CalculatePacketQueueSize f in unat (if IsPowerOf2 n then n else RoundupPowerOf2 n)
      else unat (queue_size (dev_data d)))"

definition lidar_cap :: "lds \<Rightarrow> nat \<Rightarrow> nat" where
  "lidar_cap s i = device_cap (publish_freq s) (lidars s ! i)"

definition offered :: "nat \<Rightarrow> 'x \<Rightarrow> 'x list \<Rightarrow> 'x list" where
  "offered n x xs = (if length xs < n then xs @ [x] else xs)"

lemma NoStorage_empty: "device_ok d \<Longrightarrow> storage_packet (dev_data d) = NoStorage \<Longrightarrow> device_list d = []"
  by (simp add: device_ok_def device_list_def queue_list_def queue_used_def)

lemma InitQueue_size: "InitQueue heap n q = Some (b, r) \<Longrightarrow> queue_size r = (if IsPowerOf2 n then n else RoundupPowerOf2 n)"
  by (auto simp: InitQueue_def Let_def split: if_splits)

lemma PushLidarData_queue_ring:
  assumes "device_ok d"
  shows "\<exists>q k. PushLidarData_queue heap f d = Some q \<and> ring_inv k q \<and> queue_list q = device_list d \<and>
    unat (queue_size q) = device_cap f d"
proof (cases "storage_packet (dev_data d) = NoStorage")
  case True
  then have "storage_packet (dev_data d) \<noteq> Deleted" by simp
  from InitQueue_ring [OF this, of heap "CalculatePacketQueueSize f"] obtain k r where
    r: "InitQueue heap (CalculatePacketQueueSize f) (dev_data d) = Some (True, r)" "ring_inv k r" "queue_list r = []"
    by blast
  then show ?thesis
    using True NoStorage_empty [OF assms True] InitQueue_size [OF r(1)]
    by (auto simp: PushLidarData_queue_def device_cap_def Let_def)
next
  case False
  then obtain k where "ring_inv k (dev_data d)" using assms by (auto simp: device_ok_def split: storage.splits)
  then show ?thesis using False by (auto simp: PushLidarData_queue_def device_cap_def device_list_def)
qed

lemma store_effect:
  assumes dev: "unat index < length (lidars s)" "device_ok (lidars s ! unat index)" and ok: "packet_in (p, t)"
  shows "\<exists>d. PushLidarData_store heap p index t s = Some (True, device_put (unat index) d s) \<and> device_ok d \<and>
    connect_state d = connect_state (lidars s ! unat index) \<and> device_list d \<noteq> [] \<and>
    device_cap (publish_freq s) d = lidar_cap s (unat index) \<and>
    device_list d = offered (lidar_cap s (unat index)) (stored (p, t)) (lidar_queue s (unat index))"
proof -
  let ?d = "lidars s ! unat index"
  have at: "device_at (unat index) s = Some ?d" using dev(1) by (simp add: device_at_def)
  from PushLidarData_queue_ring [OF dev(2), of heap "publish_freq s"] obtain q k where
    q: "PushLidarData_queue heap (publish_freq s) ?d = Some q" "ring_inv k q" "queue_list q = device_list ?d"
      "unat (queue_size q) = device_cap (publish_freq s) ?d" by blast
  have cap: "lidar_cap s (unat index) = 2 ^ k" using q(4) ring_size [OF q(2)] by (simp add: lidar_cap_def)
  have st: "device_ok (?d\<lparr>dev_data := r\<rparr>) \<and> device_cap f (?d\<lparr>dev_data := r\<rparr>) = 2 ^ k" if "ring_inv k r" for r f
    using that ring_size [OF that] by (auto simp: ring_inv_def device_ok_def device_cap_def)
  show ?thesis
  proof (cases "QueueIsFull q")
    case True
    then have full: "length (queue_list q) = 2 ^ k" using full_iff [OF q(2)] by simp
    then have "queue_list q \<noteq> []" by auto
    moreover have "PushLidarData_store heap p index t s = Some (True, device_put (unat index) (?d\<lparr>dev_data := q\<rparr>) s)"
      using True at q(1) by (simp add: PushLidarData_store_def)
    ultimately show ?thesis
      using q(3) st [OF q(2)] full cap
      by (intro exI [of _ "?d\<lparr>dev_data := q\<rparr>"]) (simp add: device_list_def offered_def lidar_queue_def)
  next
    case False
    then have lt: "length (queue_list q) < 2 ^ k" using full_iff [OF q(2)] used_le [OF q(2)] by (simp add: queue_list_def)
    from push_effect [OF q(2) lt ok] obtain r where r: "QueuePushAny q p t = Some (1, r)" "ring_inv k r"
      "queue_list r = queue_list q @ [stored (p, t)]" by blast
    then have "queue_list r \<noteq> []" by simp
    then have look: "\<not> QueueIsEmpty r" by (simp add: empty_iff)
    have "PushLidarData_store heap p index t s = Some (True, device_put (unat index) (?d\<lparr>dev_data := r\<rparr>) s)"
      using False at q(1) r(1) look by (simp add: PushLidarData_store_def)
    then show ?thesis
      using q(3) st [OF r(2)] lt r(3) cap
      by (intro exI [of _ "?d\<lparr>dev_data := r\<rparr>"]) (simp add: device_list_def offered_def lidar_queue_def)
  qed
qed

lemma push_frame:
  assumes "lds_ok s" and "packet_in (p, t)" and "unat index < 32"
  shows "\<exists>r. PushLidarData heap p index t s = Some r \<and> lds_ok r \<and> places r = places s \<and> publish_freq r = publish_freq s \<and>
    pcd_semaphore r = (if pcd_semaphore s \<le> 0 then pcd_semaphore s + 1 else pcd_semaphore s) \<and>
    (\<forall>j. lidar_cap r j = lidar_cap s j \<and> connect_state (lidars r ! j) = connect_state (lidars s ! j) \<and>
      lidar_queue r j = (if j = unat index then offered (lidar_cap s j) (stored (p, t)) (lidar_queue s j) else lidar_queue s j))"
proof -
  have len: "unat index < length (lidars s)" "device_ok (lidars s ! unat index)" "length (lidars s) = 32"
    using assms(1,3) by (auto simp: lds_ok_def)
  from store_effect [OF len(1,2) assms(2), of heap] obtain d where
    d: "PushLidarData_store heap p index t s = Some (True, device_put (unat index) d s)" "device_ok d"
      "connect_state d = connect_state (lidars s ! unat index)"
      "device_cap (publish_freq s) d = lidar_cap s (unat index)"
      "device_list d = offered (lidar_cap s (unat index)) (stored (p, t)) (lidar_queue s (unat index))" by blast
  let ?r = "signal_if_idle (device_put (unat index) d s)"
  have r: "PushLidarData heap p index t s = Some ?r" using d(1) by (simp add: PushLidarData_def)
  have same: "lidars ?r = (lidars s)[unat index := d]" "places ?r = places s" "publish_freq ?r = publish_freq s"
    "pcd_semaphore ?r = (if pcd_semaphore s \<le> 0 then pcd_semaphore s + 1 else pcd_semaphore s)"
    by (simp_all add: signal_if_idle_def device_put_def Semaphore_Signal_def)
  have "\<forall>e \<in> set (lidars ?r). device_ok e"
    using assms(1) d(2) set_update_subset_insert [of "lidars s" "unat index" d] unfolding same(1) by (auto simp: lds_ok_def)
  then have "lds_ok ?r" using assms(1) same(1,2) by (simp add: lds_ok_def)
  moreover have "lidar_cap ?r j = lidar_cap s j \<and> connect_state (lidars ?r ! j) = connect_state (lidars s ! j) \<and>
      lidar_queue ?r j = (if j = unat index then offered (lidar_cap s j) (stored (p, t)) (lidar_queue s j) else lidar_queue s j)" for j
    using d(3-5) len(1) by (cases "j = unat index") (simp_all add: lidar_cap_def lidar_queue_def same)
  ultimately show ?thesis using r same by blast
qed

section \<open>A frame\<close>

definition frame_items :: "PointFrame \<Rightarrow> (PointPacket \<times> u64) list" where
  "frame_items frame = zip (take (unat (lidar_num frame)) (lidar_point frame)) (take (unat (lidar_num frame)) (frame_base_time frame))"

definition frame_ok :: "PointFrame \<Rightarrow> bool" where
  "frame_ok frame \<longleftrightarrow> unat (lidar_num frame) \<le> length (lidar_point frame) \<and>
     unat (lidar_num frame) \<le> length (frame_base_time frame) \<and> (\<forall>i \<in> set (frame_items frame). packet_in i)"

definition place_of :: "cache_index \<Rightarrow> PointPacket \<Rightarrow> u8 option" where
  "place_of c p = GetIndex (pp_lidar_type p) (pp_handle p) c"

text \<open>The packets of a list that belong to one place.\<close>

definition packets_for :: "cache_index \<Rightarrow> nat \<Rightarrow> (PointPacket \<times> u64) list \<Rightarrow> StoragePacket list" where
  "packets_for c j items = map stored (filter (\<lambda>i. map_option unat (place_of c (fst i)) = Some j) items)"

lemma place_bound:
  assumes "cache_inv c" and "place_of c p = Some index"
  shows "unat index < 32"
  using assms by (auto simp: place_of_def GetIndex_def GenerateIndexKey_def cache_inv_def split: option.splits if_splits)

definition woken :: "cache_index \<Rightarrow> (PointPacket \<times> u64) list \<Rightarrow> int \<Rightarrow> int" where
  "woken c items n = (if list_ex (\<lambda>i. place_of c (fst i) \<noteq> None) items then max 1 n else n)"

lemma loop_effect:
  assumes "lds_ok s" and "0 \<le> pcd_semaphore s" and "frame_ok frame" and "\<forall>k \<in> set ks. k < unat (lidar_num frame)"
  shows "\<exists>r. StoragePointData_loop heap frame ks s = Some r \<and> lds_ok r \<and> places r = places s \<and>
    publish_freq r = publish_freq s \<and>
    pcd_semaphore r = woken (places s) (map (\<lambda>k. frame_items frame ! k) ks) (pcd_semaphore s) \<and>
    (\<forall>j. lidar_cap r j = lidar_cap s j \<and> connect_state (lidars r ! j) = connect_state (lidars s ! j) \<and>
      lidar_queue r j = fold (offered (lidar_cap s j)) (packets_for (places s) j (map (\<lambda>k. frame_items frame ! k) ks)) (lidar_queue s j))"
  using assms(1,2,4)
proof (induction ks arbitrary: s)
  case Nil
  then show ?case by (simp add: packets_for_def woken_def)
next
  case (Cons k ks)
  let ?p = "lidar_point frame ! k" and ?t = "frame_base_time frame ! k"
  have k: "k < length (lidar_point frame)" "k < length (frame_base_time frame)" "k < unat (lidar_num frame)"
    using assms(3) Cons.prems(3) by (auto simp: frame_ok_def)
  then have item: "frame_items frame ! k = (?p, ?t)" and "k < length (frame_items frame)"
    by (simp_all add: frame_items_def)
  then have ok: "packet_in (?p, ?t)" using assms(3) nth_mem [of k "frame_items frame"] by (simp add: frame_ok_def)
  show ?case
  proof (cases "place_of (places s) ?p")
    case None
    then have "StoragePointData_loop heap frame (k # ks) s = StoragePointData_loop heap frame ks s"
      using k by (simp add: place_of_def)
    with Cons.IH [OF Cons.prems(1,2)] Cons.prems(3) None show ?thesis
      by (simp add: packets_for_def woken_def item)
  next
    case (Some index)
    have "unat index < 32" using Cons.prems(1) Some by (auto simp: lds_ok_def intro: place_bound)
    from push_frame [OF Cons.prems(1) ok this, of heap] obtain r where
      r: "PushLidarData heap ?p index ?t s = Some r" "lds_ok r" "places r = places s" "publish_freq r = publish_freq s"
        "pcd_semaphore r = (if pcd_semaphore s \<le> 0 then pcd_semaphore s + 1 else pcd_semaphore s)"
        "\<And>j. lidar_cap r j = lidar_cap s j \<and> connect_state (lidars r ! j) = connect_state (lidars s ! j) \<and>
          lidar_queue r j = (if j = unat index then offered (lidar_cap s j) (stored (?p, ?t)) (lidar_queue s j) else lidar_queue s j)"
      by blast
    have loop: "StoragePointData_loop heap frame (k # ks) s = StoragePointData_loop heap frame ks r"
      using k Some r(1) by (simp add: place_of_def)
    have "0 \<le> pcd_semaphore r" using r(5) Cons.prems(2) by simp
    from Cons.IH [OF r(2) this] Cons.prems(3) obtain u where
      u: "StoragePointData_loop heap frame ks r = Some u" "lds_ok u" "places u = places s" "publish_freq u = publish_freq s"
        "pcd_semaphore u = woken (places s) (map (\<lambda>k. frame_items frame ! k) ks) (pcd_semaphore r)"
        "\<And>j. lidar_cap u j = lidar_cap s j \<and> connect_state (lidars u ! j) = connect_state (lidars s ! j) \<and>
          lidar_queue u j = fold (offered (lidar_cap s j)) (packets_for (places s) j (map (\<lambda>k. frame_items frame ! k) ks)) (lidar_queue r j)"
      using r(3,4,6) by auto
    have sem: "pcd_semaphore u = woken (places s) (map (\<lambda>k. frame_items frame ! k) (k # ks)) (pcd_semaphore s)"
      using u(5) r(5) Cons.prems(2) Some by (auto simp: woken_def item)
    have "lidar_queue u j = fold (offered (lidar_cap s j))
        (packets_for (places s) j (map (\<lambda>k. frame_items frame ! k) (k # ks))) (lidar_queue s j)" for j
      using u(6) [of j] r(6) [of j] Some by (simp add: packets_for_def item)
    with u sem loop show ?thesis by auto
  qed
qed

lemma frame_effect:
  assumes "lds_ok s" and "0 \<le> pcd_semaphore s" and "frame_ok frame"
  shows "\<exists>r. StoragePointData heap frame s = Some r \<and> lds_ok r \<and> places r = places s \<and>
    publish_freq r = publish_freq s \<and> pcd_semaphore r = woken (places s) (frame_items frame) (pcd_semaphore s) \<and>
    (\<forall>j. lidar_cap r j = lidar_cap s j \<and> connect_state (lidars r ! j) = connect_state (lidars s ! j) \<and>
      lidar_queue r j = fold (offered (lidar_cap s j)) (packets_for (places s) j (frame_items frame)) (lidar_queue s j))"
proof -
  have n: "length (frame_items frame) = unat (lidar_num frame)"
    using assms(3) by (simp add: frame_items_def frame_ok_def)
  then have "map (\<lambda>k. frame_items frame ! k) [0..<unat (lidar_num frame)] = frame_items frame"
    by (metis map_nth)
  with loop_effect [OF assms, of "[0..<unat (lidar_num frame)]" heap] show ?thesis
    by (simp add: StoragePointData_def)
qed

text \<open>
  A frame is sorted into the lidars' queues: each lidar gets exactly its own packets, in the order of the
  frame and with their times, up to the room in its queue; the packets of unknown lidars are skipped;
  a queue is made at a lidar's first packet; and the publisher's semaphore is positive afterwards if any
  packet was for a known lidar.
\<close>

theorem frame_sorted:
  assumes "lds_ok s" and "0 \<le> pcd_semaphore s" and "frame_ok frame"
  shows "\<exists>r. StoragePointData heap frame s = Some r \<and> lds_ok r \<and>
    pcd_semaphore r = (if list_ex (\<lambda>i. place_of (places s) (fst i) \<noteq> None) (frame_items frame)
      then max 1 (pcd_semaphore s) else pcd_semaphore s) \<and>
    (\<forall>j. lidar_queue r j = fold (offered (lidar_cap s j)) (packets_for (places s) j (frame_items frame)) (lidar_queue s j))"
  using frame_effect [OF assms, of heap] unfolding woken_def by blast

definition lds_start :: "rat \<Rightarrow> cache_index \<Rightarrow> lds" where
  "lds_start f c = \<lparr>lidars = replicate 32 \<lparr>dev_data_src = 0, connect_state = kConnectStateSampling,
       dev_data = \<lparr>storage_packet = NoStorage, rd_idx = 0, wr_idx = 0, mask = 0, queue_size = 0\<rparr>\<rparr>,
     pcd_semaphore = 0, places = c, publish_freq = f\<rparr>"

lemma lds_start_ok: "cache_inv c \<Longrightarrow> lds_ok (lds_start f c)"
  by (simp add: lds_ok_def lds_start_def device_ok_def)

text \<open>A table in which lidar 1 has a place.\<close>

definition one_place :: cache_index where
  "one_place = snd (GetFreeIndex kLivoxLidarType 1 cache_init)"

lemma one_place: "cache_inv one_place" "\<exists>i. place_of one_place ping = Some i"
proof -
  show "cache_inv one_place" unfolding one_place_def by (rule GetFreeIndex_inv [OF cache_init_inv])
  have len: "length (index_cache cache_init) = 32" and new: "\<not> index_cache cache_init ! 0"
    by (simp_all add: cache_init_def kMaxSourceLidar_def)
  have "GetFreeIndex kLivoxLidarType 1 cache_init = GetFreeIndex_allocate (key_of 1) cache_init"
    by (simp add: GetFreeIndex_def GenerateIndexKey_eq GetFreeIndex_lookup_def cache_init_def)
  then have "\<exists>i. map_index one_place (key_of 1) = Some i"
    using new by (cases rule: allocate_cases [OF len, of "key_of 1"]) (auto simp: one_place_def)
  moreover have "GenerateIndexKey (pp_lidar_type ping) (pp_handle ping) = Some (key_of 1)"
    using GenerateIndexKey_eq [of 1] by (simp add: ping_def kLivoxLidarType_def)
  ultimately show "\<exists>i. place_of one_place ping = Some i" by (simp add: place_of_def GetIndex_def)
qed

lemma frame_sorted_witness:
  "\<exists>r. StoragePointData (\<lambda>i. empty_packet) \<lparr>frame_base_time = [5], lidar_num = 1, lidar_point = [ping]\<rparr> (lds_start 10 one_place) = Some r \<and>
    lds_ok r \<and> pcd_semaphore r = 1"
proof -
  let ?f = "\<lparr>frame_base_time = [5], lidar_num = 1, lidar_point = [ping]\<rparr>"
  have f: "frame_ok ?f" by (simp add: frame_ok_def frame_items_def packet_in_def ping_def)
  have sem: "pcd_semaphore (lds_start 10 one_place) = 0" "places (lds_start 10 one_place) = one_place"
    by (simp_all add: lds_start_def)
  show ?thesis
    using frame_sorted [OF lds_start_ok [OF one_place(1)] _ f, of 10 "\<lambda>i. empty_packet"] one_place(2)
    by (auto simp: frame_items_def sem)
qed

end
