(* ===== verification/Lddc.thy ===== *)
theory Lddc
  imports Lds
begin

text \<open>
  The publisher of the driver, \<open>src/src/livox_ros_driver2/src/lddc.cpp\<close> as built for ROS 2: it waits for
  the semaphore, goes through the lidars and turns the packets of each queue into messages. Of a
  PointCloud2 message the model has the time and the points, whose layout in bytes is left out; the CustomMsg
  is complete but for the frame's name. A loop that never ends is \<open>None\<close>, as are an access outside an
  array and a conversion of a float that does not fit.
\<close>

section \<open>Messages\<close>

record CustomPoint =
  cp_x :: u32
  cp_y :: u32
  cp_z :: u32
  cp_reflectivity :: u8
  cp_tag :: u8
  cp_line :: u8
  cp_offset_time :: u32

record CustomMsg =
  timebase :: u64
  point_num :: u32
  lidar_id :: u32
  msg_points :: "CustomPoint list"

datatype message = Cloud2 u64 "PointXyzlt list" | Custom CustomMsg

text \<open>A \<open>float\<close>, given by its bits, converted to \<open>uint8_t\<close>: truncation, undefined outside 0 to 255.\<close>

definition float_to_u8 :: "u32 \<Rightarrow> u8 option" where
  "float_to_u8 b =
     (let e = unat (drop_bit 23 b AND 0xFF); m = 2 ^ 23 + unat (b AND 0x7FFFFF)
      in if e < 127 then Some 0
         else if bit b 31 \<or> 134 < e then None
         else Some (of_nat (m div 2 ^ (150 - e))))"

section \<open>Operations\<close>

definition InitCustomMsg :: "LidarDevice \<Rightarrow> u8 \<Rightarrow> u32 \<Rightarrow> StoragePacket \<Rightarrow> CustomMsg" where
  "InitCustomMsg d lidar_type h pkg =
     (let timestamp = (if points pkg \<noteq> [] then base_time pkg else 0)
      in \<lparr>timebase = timestamp, point_num = points_num pkg,
          lidar_id = (if lidar_type = kLivoxLidarType then h else 0), msg_points = []\<rparr>)"

fun FillPointsToCustomMsg_loop :: "StoragePacket \<Rightarrow> nat list \<Rightarrow> CustomMsg \<Rightarrow> CustomMsg option" where
  "FillPointsToCustomMsg_loop pkg [] msg = Some msg"
| "FillPointsToCustomMsg_loop pkg (i # is) msg = do {
     p \<leftarrow> (if i < length (points pkg) then Some (points pkg ! i) else None);
     r \<leftarrow> float_to_u8 (pt_intensity p);
     let point = \<lparr>cp_x = pt_x p, cp_y = pt_y p, cp_z = pt_z p, cp_reflectivity = r, cp_tag = pt_tag p,
       cp_line = pt_line p, cp_offset_time = ucast (pt_offset_time p - base_time pkg)\<rparr>;
     FillPointsToCustomMsg_loop pkg is (msg\<lparr>msg_points := msg_points msg @ [point]\<rparr>)
   }"

definition FillPointsToCustomMsg :: "CustomMsg \<Rightarrow> StoragePacket \<Rightarrow> CustomMsg option" where
  "FillPointsToCustomMsg msg pkg = FillPointsToCustomMsg_loop pkg [0..<unat (points_num pkg)] msg"

definition custom_message :: "LidarDevice \<Rightarrow> u8 \<Rightarrow> u32 \<Rightarrow> StoragePacket \<Rightarrow> message option" where
  "custom_message d lidar_type h pkg =
     map_option Custom (FillPointsToCustomMsg (InitCustomMsg d lidar_type h pkg) pkg)"

definition cloud2_message :: "StoragePacket \<Rightarrow> message option" where
  "cloud2_message pkg = Some (Cloud2 (if points pkg \<noteq> [] then base_time pkg else 0) (points pkg))"

text \<open>The loop that \<open>PublishPointcloud2\<close> and \<open>PublishCustomPointcloud\<close> share, with their message.\<close>

partial_function (option) publish_loop ::
  "(StoragePacket \<Rightarrow> message option) \<Rightarrow> LidarDataQueue \<Rightarrow> message list \<Rightarrow> (message list \<times> LidarDataQueue) option" where
  "publish_loop msg q out =
     (if QueueIsEmpty q then Some (out, q)
      else do {
        (_, pkg, q) \<leftarrow> QueuePop q empty_packet;
        if points pkg = [] then publish_loop msg q out
        else do {
          m \<leftarrow> msg pkg;
          publish_loop msg q (out @ [m])
        }
      })"

text \<open>\<open>PublishPclMsg\<close> returns at once when built for ROS 2.\<close>

definition publish_format ::
  "int \<Rightarrow> (StoragePacket \<Rightarrow> message option) \<Rightarrow> LidarDataQueue \<Rightarrow> (message list \<times> LidarDataQueue) option" where
  "publish_format transfer_format custom q =
     (if transfer_format = 0 then publish_loop cloud2_message q []
      else if transfer_format = 1 then publish_loop custom q []
      else Some ([], q))"

text \<open>\<open>exit n\<close>: what \<open>IsRequestExit\<close> returns when it is asked for the \<open>n\<close>-th time.\<close>

partial_function (option) polling_loop ::
  "int \<Rightarrow> (StoragePacket \<Rightarrow> message option) \<Rightarrow> (nat \<Rightarrow> bool) \<Rightarrow> nat \<Rightarrow> LidarDataQueue \<Rightarrow> message list \<Rightarrow>
    (message list \<times> LidarDataQueue) option" where
  "polling_loop transfer_format custom exit n q out =
     (if \<not> exit n \<and> \<not> QueueIsEmpty q then do {
        (ms, q) \<leftarrow> publish_format transfer_format custom q;
        polling_loop transfer_format custom exit (Suc n) q (out @ ms)
      } else Some (out, q))"

definition PollingLidarPointCloudData ::
  "int \<Rightarrow> (StoragePacket \<Rightarrow> message option) \<Rightarrow> (nat \<Rightarrow> bool) \<Rightarrow> LidarDataQueue \<Rightarrow> (message list \<times> LidarDataQueue) option" where
  "PollingLidarPointCloudData transfer_format custom exit q =
     (if storage_packet q = NoStorage then Some ([], q) else polling_loop transfer_format custom exit 0 q [])"

section \<open>What is published\<close>

definition nonempty :: "StoragePacket \<Rightarrow> bool" where
  "nonempty p \<longleftrightarrow> points p \<noteq> []"

lemma publish_loop_drains:
  assumes "ring_inv k q" and "\<forall>p \<in> set (queue_list q). nonempty p \<longrightarrow> msg p \<noteq> None"
  shows "\<exists>r. publish_loop msg q out = Some (out @ map (the \<circ> msg) (filter nonempty (queue_list q)), r) \<and>
    ring_inv k r \<and> queue_list r = []"
  using assms
proof (induction "queue_list q" arbitrary: q out)
  case Nil
  then have "QueueIsEmpty q" by (simp add: empty_iff)
  then show ?case using Nil by (subst publish_loop.simps) simp
next
  case (Cons p ps)
  note pop = pop_effect [OF Cons.prems(1) Cons.hyps(2) [symmetric], of empty_packet]
  let ?q = "QueuePopUpdate q"
  have ne: "\<not> QueueIsEmpty q" using Cons.hyps(2) by (simp add: empty_iff flip: Cons.hyps(2))
  have tail: "ps = queue_list ?q" "ring_inv k ?q" "\<forall>p \<in> set (queue_list ?q). nonempty p \<longrightarrow> msg p \<noteq> None"
    using pop Cons.prems(2) by (auto simp flip: Cons.hyps(2))
  show ?case
  proof (cases "nonempty p")
    case False
    then have "publish_loop msg q out = publish_loop msg ?q out"
      using ne pop by (subst publish_loop.simps) (simp add: nonempty_def)
    then show ?thesis using Cons.hyps(1) [OF tail, of out] False by (simp flip: Cons.hyps(2) tail(1))
  next
    case True
    then obtain m where m: "msg p = Some m" using Cons.prems(2) Cons.hyps(2) [symmetric] by auto
    then have "publish_loop msg q out = publish_loop msg ?q (out @ [m])"
      using ne pop True by (subst publish_loop.simps) (simp add: nonempty_def)
    then show ?thesis using Cons.hyps(1) [OF tail, of "out @ [m]"] True m by (simp flip: Cons.hyps(2) tail(1))
  qed
qed

definition format_message :: "int \<Rightarrow> (StoragePacket \<Rightarrow> message option) \<Rightarrow> StoragePacket \<Rightarrow> message option" where
  "format_message fmt custom = (if fmt = 0 then cloud2_message else custom)"

text \<open>
  In the formats PointCloud2 and CustomMsg a poll of a lidar ends, publishes one message for each packet
  with points, in the order they were received, and leaves the queue empty; packets without points are
  dropped silently.
\<close>

theorem poll_publishes:
  assumes "ring_inv k q" and "fmt \<in> {0, 1}" and "\<not> exit 0"
    and "\<forall>p \<in> set (queue_list q). nonempty p \<longrightarrow> format_message fmt custom p \<noteq> None"
  shows "\<exists>r. PollingLidarPointCloudData fmt custom exit q =
      Some (map (the \<circ> format_message fmt custom) (filter nonempty (queue_list q)), r) \<and> ring_inv k r \<and> queue_list r = []"
proof -
  have fmt: "publish_format fmt custom q = publish_loop (format_message fmt custom) q []"
    using assms(2) by (auto simp: publish_format_def format_message_def)
  have st: "storage_packet q \<noteq> NoStorage" using assms(1) by (auto simp: ring_inv_def)
  from publish_loop_drains [OF assms(1,4), of "[]"] obtain r where
    r: "publish_loop (format_message fmt custom) q [] = Some (map (the \<circ> format_message fmt custom) (filter nonempty (queue_list q)), r)"
      "ring_inv k r" "queue_list r = []" by auto
  have stop: "polling_loop fmt custom exit n r out = Some (out, r)" for n out
    using r(3) by (subst polling_loop.simps) (simp add: empty_iff)
  show ?thesis
  proof (cases "QueueIsEmpty q")
    case True
    then have "polling_loop fmt custom exit 0 q [] = Some ([], q)" by (subst polling_loop.simps) simp
    then show ?thesis using True st assms(1) by (simp add: PollingLidarPointCloudData_def empty_iff)
  next
    case False
    then have "polling_loop fmt custom exit 0 q [] = Some (map (the \<circ> format_message fmt custom) (filter nonempty (queue_list q)), r)"
      using assms(3) r(1) fmt stop by (subst polling_loop.simps) simp
    then show ?thesis using st r(2,3) by (simp add: PollingLidarPointCloudData_def)
  qed
qed

lemma polling_skips:
  assumes ret: "polling_loop fmt custom exit n q out = Some y"
  shows "fmt \<notin> {0, 1} \<longrightarrow> \<not> QueueIsEmpty q \<longrightarrow> (\<exists>m. exit m) \<and> y = (out, q)"
proof (rule polling_loop.raw_induct
    [where P = "\<lambda>fmt custom exit n q out y. fmt \<notin> {0, 1} \<longrightarrow> \<not> QueueIsEmpty q \<longrightarrow> (\<exists>m. exit m) \<and> y = (out, q)", OF _ ret])
  fix loop and fmt :: int and custom :: "StoragePacket \<Rightarrow> message option" and exit :: "nat \<Rightarrow> bool" and n q out y
  assume IH: "\<And>fmt custom exit n q out y. loop fmt custom exit n q out = Some y \<Longrightarrow>
      fmt \<notin> {0, 1} \<longrightarrow> \<not> QueueIsEmpty q \<longrightarrow> (\<exists>m. exit m) \<and> y = (out, q)"
    and eq: "(if \<not> exit n \<and> \<not> QueueIsEmpty q then do {
        (ms, q) \<leftarrow> publish_format fmt custom q;
        loop fmt custom exit (Suc n) q (out @ ms)
      } else Some (out, q)) = Some y"
  show "fmt \<notin> {0, 1} \<longrightarrow> \<not> QueueIsEmpty q \<longrightarrow> (\<exists>m. exit m) \<and> y = (out, q)"
  proof (intro impI)
    assume fmt: "fmt \<notin> {0, 1}" and ne: "\<not> QueueIsEmpty q"
    show "(\<exists>m. exit m) \<and> y = (out, q)"
    proof (cases "exit n")
      case True
      then show ?thesis using eq by auto
    next
      case False
      then have "loop fmt custom exit (Suc n) q out = Some y"
        using eq fmt ne by (simp add: publish_format_def)
      from IH [OF this] fmt ne show ?thesis by blast
    qed
  qed
qed

text \<open>
  In every other format, the PCL format among them, the poll of a lidar with data publishes nothing
  and takes nothing out of the queue: it spins for as long as no exit is requested, for ever if none is.
\<close>

theorem poll_pcl_spins:
  assumes "ring_inv k q" and "queue_list q \<noteq> []" and "fmt \<notin> {0, 1}"
  shows "(case PollingLidarPointCloudData fmt custom exit q of
      None \<Rightarrow> True | Some (ms, r) \<Rightarrow> ms = [] \<and> r = q \<and> (\<exists>n. exit n)) \<and>
    ((\<forall>n. \<not> exit n) \<longrightarrow> PollingLidarPointCloudData fmt custom exit q = None)"
proof -
  have ne: "\<not> QueueIsEmpty q" using assms(2) by (simp add: empty_iff)
  have st: "storage_packet q \<noteq> NoStorage" using assms(1) by (auto simp: ring_inv_def)
  have "ms = [] \<and> r = q \<and> (\<exists>n. exit n)" if "polling_loop fmt custom exit 0 q [] = Some (ms, r)" for ms r
    using polling_skips [OF that] assms(3) ne by auto
  then show ?thesis using st by (auto simp: PollingLidarPointCloudData_def split: option.splits)
qed


definition example_queue :: LidarDataQueue where
  "example_queue = \<lparr>storage_packet = Storage [\<lparr>base_time = 5, points_num = 1,
       points = [\<lparr>pt_x = 0, pt_y = 0, pt_z = 0, pt_intensity = 0x41200000, pt_tag = 0, pt_line = 2, pt_offset_time = 9\<rparr>]\<rparr>],
     rd_idx = 0xFFFFFFFF, wr_idx = 0, mask = 0, queue_size = 1\<rparr>"

lemma example_queue: "ring_inv 0 example_queue" "queue_list example_queue \<noteq> []"
  by (simp_all add: ring_inv_def example_queue_def queue_list_def queue_used_def live_index_def packet_ok_def)

lemma poll_publishes_witness:
  "\<exists>ms r. PollingLidarPointCloudData 0 (\<lambda>_. None) (\<lambda>_. False) example_queue = Some (ms, r) \<and> queue_list r = []"
  using poll_publishes [OF example_queue(1), of 0 "\<lambda>_. False" "\<lambda>_. None"]
  by (auto simp: format_message_def cloud2_message_def)

lemma poll_pcl_spins_witness:
  "PollingLidarPointCloudData 2 (\<lambda>_. None) (\<lambda>_. False) example_queue = None"
  using poll_pcl_spins [OF example_queue, of 2 "\<lambda>_. False" "\<lambda>_. None"] by simp

section \<open>Waking the publisher\<close>

text \<open>
  The receiver, the publisher and the answers of the lidars as three threads: the receiver stores a
  packet and then looks at the semaphore, the publisher waits for it and then goes through the lidars,
  and the last answer to a lidar's settings, whose outstanding ones are in \<open>set_bits\<close>, makes it sampling.
  \<open>w_missed\<close> is kept for the statement only: the lidars that were made sampling with data already
  waiting, until the receiver looks at the semaphore again.
\<close>

record wake_world =
  w_lds :: lds
  w_pending :: bool
  w_poll :: "nat option"
  w_set_bits :: "nat \<Rightarrow> u32"
  w_missed :: "nat set"

text \<open>\<open>SetDataTypeCallback\<close> and its likes, for a setting that has been made.\<close>

definition setting_made :: "u32 \<Rightarrow> u32 \<Rightarrow> LidarDevice \<Rightarrow> u32 \<times> LidarDevice" where
  "setting_made setting set_bits d =
     (let set_bits = set_bits AND NOT setting
      in (set_bits, if set_bits = 0 then d\<lparr>connect_state := kConnectStateSampling\<rparr> else d))"

definition sampling :: "lds \<Rightarrow> nat \<Rightarrow> bool" where
  "sampling s j \<longleftrightarrow> connect_state (lidars s ! j) = kConnectStateSampling"

definition poll_ready :: "lds \<Rightarrow> nat \<Rightarrow> bool" where
  "poll_ready s j \<longleftrightarrow> sampling s j \<and> storage_packet (dev_data (lidars s ! j)) \<noteq> NoStorage \<and>
     \<not> QueueIsEmpty (dev_data (lidars s ! j))"

inductive wake_step :: "(nat \<Rightarrow> StoragePacket) \<Rightarrow> wake_world \<Rightarrow> wake_world \<Rightarrow> bool" for heap where
  store: "\<not> w_pending w \<Longrightarrow> packet_in (p, t) \<Longrightarrow> unat i < 32 \<Longrightarrow>
    PushLidarData_store heap p i t (w_lds w) = Some (look, s) \<Longrightarrow> wake_step heap w (w\<lparr>w_lds := s, w_pending := look\<rparr>)"
| signal: "w_pending w \<Longrightarrow>
    wake_step heap w (w\<lparr>w_lds := signal_if_idle (w_lds w), w_pending := False, w_missed := {}\<rparr>)"
| wait: "w_poll w = None \<Longrightarrow> Semaphore_Wait (pcd_semaphore (w_lds w)) = Some n \<Longrightarrow>
    wake_step heap w (w\<lparr>w_lds := (w_lds w)\<lparr>pcd_semaphore := n\<rparr>, w_poll := Some 0\<rparr>)"
| pop: "w_poll w = Some j \<Longrightarrow> j < 32 \<Longrightarrow> poll_ready (w_lds w) j \<Longrightarrow>
    QueuePop (dev_data (lidars (w_lds w) ! j)) empty_packet = Some (ok, pkg, q) \<Longrightarrow>
    wake_step heap w (w\<lparr>w_lds := device_put j ((lidars (w_lds w) ! j)\<lparr>dev_data := q\<rparr>) (w_lds w)\<rparr>)"
| skip: "w_poll w = Some j \<Longrightarrow> j < 32 \<Longrightarrow> \<not> poll_ready (w_lds w) j \<Longrightarrow> wake_step heap w (w\<lparr>w_poll := Some (Suc j)\<rparr>)"
| finish: "w_poll w = Some 32 \<Longrightarrow> wake_step heap w (w\<lparr>w_poll := None\<rparr>)"
| asked: "wake_step heap w (w\<lparr>w_set_bits := (w_set_bits w)(j := w_set_bits w j OR bits)\<rparr>)"
| answered: "j < 32 \<Longrightarrow> setting_made bits (w_set_bits w j) (lidars (w_lds w) ! j) = (left, d) \<Longrightarrow>
    wake_step heap w (w\<lparr>w_lds := device_put j d (w_lds w), w_set_bits := (w_set_bits w)(j := left),
      w_missed := (if left = 0 \<and> \<not> sampling (w_lds w) j \<and> lidar_queue (w_lds w) j \<noteq> []
        then insert j (w_missed w) else w_missed w)\<rparr>)"

inductive wake_reachable :: "(nat \<Rightarrow> StoragePacket) \<Rightarrow> wake_world \<Rightarrow> bool" for heap where
  init: "lds_ok s \<Longrightarrow> 0 \<le> pcd_semaphore s \<Longrightarrow> \<forall>j < 32. lidar_queue s j = [] \<Longrightarrow>
    wake_reachable heap \<lparr>w_lds = s, w_pending = False, w_poll = None, w_set_bits = b, w_missed = {}\<rparr>"
| step: "wake_reachable heap w \<Longrightarrow> wake_step heap w w' \<Longrightarrow> wake_reachable heap w'"

definition wake_inv :: "wake_world \<Rightarrow> bool" where
  "wake_inv w \<longleftrightarrow> lds_ok (w_lds w) \<and> 0 \<le> pcd_semaphore (w_lds w) \<and>
     (\<forall>j < 32. sampling (w_lds w) j \<and> lidar_queue (w_lds w) j \<noteq> [] \<longrightarrow>
       0 < pcd_semaphore (w_lds w) \<or> w_pending w \<or> (\<exists>i. w_poll w = Some i \<and> i \<le> j) \<or> j \<in> w_missed w)"

lemma device_put_ok:
  assumes "lds_ok s" and "device_ok d"
  shows "lds_ok (device_put i d s)"
  using assms set_update_subset_insert [of "lidars s" i d] by (auto simp: lds_ok_def device_put_def)

lemma lds_device: "lds_ok s \<Longrightarrow> j < 32 \<Longrightarrow> device_ok (lidars s ! j)"
  by (simp add: lds_ok_def)

lemma poll_ready_ring:
  assumes "lds_ok s" and "j < 32" and "poll_ready s j"
  shows "\<exists>k. ring_inv k (dev_data (lidars s ! j)) \<and> queue_list (dev_data (lidars s ! j)) \<noteq> []"
  using lds_device [OF assms(1,2)] assms(3)
  by (auto simp: device_ok_def poll_ready_def empty_iff split: storage.splits)

lemma not_ready_empty:
  assumes "lds_ok s" and "j < 32" and "\<not> poll_ready s j" and "sampling s j"
  shows "lidar_queue s j = []"
  using assms(3,4) NoStorage_empty [OF lds_device [OF assms(1,2)]]
  by (auto simp: poll_ready_def empty_iff lidar_queue_def device_list_def)

lemma device_ok_connect [simp]: "device_ok (d\<lparr>connect_state := x\<rparr>) \<longleftrightarrow> device_ok d"
  by (simp add: device_ok_def split: storage.split)

lemma wake_step_inv:
  assumes "wake_step heap w w'" and "wake_inv w"
  shows "wake_inv w'"
  using assms
proof cases
  case (store p t i look s)
  have len: "unat i < length (lidars (w_lds w))" "device_ok (lidars (w_lds w) ! unat i)"
    using assms(2) store(4) by (auto simp: wake_inv_def lds_ok_def)
  from store_effect [OF len store(3), of heap] store(5) obtain d where "look" "s = device_put (unat i) d (w_lds w)" "device_ok d"
    by auto
  with assms(2) store(1) device_put_ok show ?thesis by (simp add: wake_inv_def) (simp add: device_put_def)
next
  case signal
  have "lds_ok (signal_if_idle s)" if "lds_ok s" for s using that by (simp add: lds_ok_def signal_if_idle_def)
  moreover have "0 < pcd_semaphore (signal_if_idle s)" if "0 \<le> pcd_semaphore s" for s
    using that by (simp add: signal_if_idle_def Semaphore_Signal_def)
  ultimately show ?thesis using assms(2) signal(1) by (simp add: wake_inv_def less_imp_le)
next
  case (wait n)
  then show ?thesis
    using assms(2) by (auto simp: wake_inv_def Semaphore_Wait_def lds_ok_def split: if_splits)
next
  case (pop j ok pkg q)
  let ?s = "w_lds w" and ?d = "lidars (w_lds w) ! j"
  have ok: "lds_ok ?s" using assms(2) by (simp add: wake_inv_def)
  from poll_ready_ring [OF ok pop(3,4)] obtain k p ps where k: "ring_inv k (dev_data ?d)" "queue_list (dev_data ?d) = p # ps"
    by (cases "queue_list (dev_data ?d)") auto
  with pop_effect [OF k, of empty_packet] pop(5) have q: "ring_inv k q" by simp
  then have "device_ok (?d\<lparr>dev_data := q\<rparr>)" by (auto simp: device_ok_def ring_inv_def)
  note ok' = device_put_ok [OF ok this, of j]
  have "j < length (lidars ?s)" using ok pop(3) by (simp add: lds_ok_def)
  then have same: "connect_state (lidars (device_put j (?d\<lparr>dev_data := q\<rparr>) ?s) ! i) = connect_state (lidars ?s ! i)"
    "i \<noteq> j \<Longrightarrow> lidar_queue (device_put j (?d\<lparr>dev_data := q\<rparr>) ?s) i = lidar_queue ?s i"
    "pcd_semaphore (device_put j (?d\<lparr>dev_data := q\<rparr>) ?s) = pcd_semaphore ?s" for i
    by (cases "i = j"; simp add: device_put_def lidar_queue_def)+
  show ?thesis
    using assms(2) ok' pop(1,2) unfolding wake_inv_def sampling_def by (auto simp: same)
next
  case (skip j)
  have ok: "lds_ok (w_lds w)" using assms(2) by (simp add: wake_inv_def)
  have "\<not> (sampling (w_lds w) j \<and> lidar_queue (w_lds w) j \<noteq> [])" using not_ready_empty [OF ok skip(3,4)] by blast
  with assms(2) skip show ?thesis
    unfolding wake_inv_def by (auto simp: Suc_le_eq) (metis le_neq_implies_less)+
next
  case finish
  with assms(2) show ?thesis by (auto simp: wake_inv_def)
next
  case asked
  with assms(2) show ?thesis by (simp add: wake_inv_def)
next
  case (answered j bits left d)
  let ?s = "w_lds w" and ?d = "lidars (w_lds w) ! j"
  have ok: "lds_ok ?s" using assms(2) by (simp add: wake_inv_def)
  have d: "d = (if left = 0 then ?d\<lparr>connect_state := kConnectStateSampling\<rparr> else ?d)"
    using answered(3) by (auto simp: setting_made_def Let_def)
  then have "device_ok d" using lds_device [OF ok answered(2)] by simp
  note ok' = device_put_ok [OF ok this, of j]
  have "j < length (lidars ?s)" using ok answered(2) by (simp add: lds_ok_def)
  then have same: "lidar_queue (device_put j d ?s) i = lidar_queue ?s i"
    "sampling (device_put j d ?s) i \<longleftrightarrow> sampling ?s i \<or> i = j \<and> left = 0"
    "pcd_semaphore (device_put j d ?s) = pcd_semaphore ?s" for i
    by (cases "i = j"; simp add: device_put_def lidar_queue_def sampling_def device_list_def d)+
  show ?thesis
    using assms(2) ok' answered(1) unfolding wake_inv_def by (auto simp: same)
qed

lemma wake_reachable_inv: "wake_reachable heap w \<Longrightarrow> wake_inv w"
proof (induction rule: wake_reachable.induct)
  case (init s)
  then show ?case by (simp add: wake_inv_def)
next
  case (step w w')
  then show ?case using wake_step_inv by blast
qed

text \<open>
  C37. However the steps of the receiver, of the publisher and of the lidars' answers interleave, the
  receiver's look at the semaphore after its store included, a wake-up is lost at most where a lidar is
  made sampling: when the publisher waits and the receiver is not about to signal, a sampling lidar with
  data in its queue means that the wait returns, unless an answer has made this lidar sampling while
  the data was already in its queue and the receiver has not looked at the semaphore since.
\<close>

theorem no_lost_wakeup:
  assumes "wake_reachable heap w" and "w_poll w = None" and "\<not> w_pending w"
    and "j < 32" and "sampling (w_lds w) j" and "lidar_queue (w_lds w) j \<noteq> []" and "j \<notin> w_missed w"
  shows "\<exists>n. Semaphore_Wait (pcd_semaphore (w_lds w)) = Some n \<and> 0 \<le> n"
  using wake_reachable_inv [OF assms(1)] assms(2-7) by (auto simp: wake_inv_def Semaphore_Wait_def)

lemma no_lost_wakeup_witness:
  "\<exists>w n. wake_reachable (\<lambda>i. empty_packet) w \<and> w_poll w = None \<and> lidar_queue (w_lds w) 0 \<noteq> [] \<and>
    Semaphore_Wait (pcd_semaphore (w_lds w)) = Some n"
proof -
  let ?h = "\<lambda>i :: nat. empty_packet" and ?s = "lds_start 10 cache_init"
  let ?w0 = "\<lparr>w_lds = ?s, w_pending = False, w_poll = None, w_set_bits = (\<lambda>_. 0), w_missed = {}\<rparr>"
  have ok: "lds_ok ?s" by (rule lds_start_ok [OF cache_init_inv])
  have "lidar_queue ?s j = []" if "j < 32" for j
    using that by (simp add: lidar_queue_def device_list_def lds_start_def queue_list_def queue_used_def)
  then have r0: "wake_reachable ?h ?w0" using ok by (intro wake_reachable.init) (simp_all add: lds_start_def)
  have ping: "packet_in (ping, 5)" by (simp add: packet_in_def ping_def)
  have dev: "unat (0 :: u8) < length (lidars ?s)" "device_ok (lidars ?s ! unat (0 :: u8))"
    using ok by (simp_all add: lds_ok_def)
  from store_effect [OF dev ping, of ?h] obtain d where
    d: "PushLidarData_store ?h ping 0 5 ?s = Some (True, device_put 0 d ?s)"
      "connect_state d = kConnectStateSampling" "device_list d \<noteq> []"
    by (auto simp: lds_start_def)
  let ?w1 = "?w0\<lparr>w_lds := device_put 0 d ?s, w_pending := True\<rparr>"
  have "wake_step ?h ?w0 ?w1" using wake_step.store [of ?w0 ping 5 0 ?h True "device_put 0 d ?s"] ping d(1) by simp
  from wake_reachable.step [OF r0 this] have r1: "wake_reachable ?h ?w1" .
  let ?w2 = "?w1\<lparr>w_lds := signal_if_idle (w_lds ?w1), w_pending := False, w_missed := {}\<rparr>"
  have "wake_step ?h ?w1 ?w2" by (rule wake_step.signal) simp
  from wake_reachable.step [OF r1 this] have r2: "wake_reachable ?h ?w2" .
  have "sampling (w_lds ?w2) 0" "lidar_queue (w_lds ?w2) 0 \<noteq> []"
    using d by (simp_all add: sampling_def lidar_queue_def signal_if_idle_def device_put_def lds_start_def)
  with no_lost_wakeup [OF r2, of 0] r2 show ?thesis by auto
qed

text \<open>The publisher goes past all lidars that are not ready.\<close>

lemma skip_all:
  assumes "wake_reachable heap (w\<lparr>w_poll := Some 0\<rparr>)" and "\<forall>j < 32. \<not> poll_ready (w_lds w) j"
  shows "wake_reachable heap (w\<lparr>w_poll := None\<rparr>)"
proof -
  have "wake_reachable heap (w\<lparr>w_poll := Some j\<rparr>)" if "j \<le> 32" for j
    using that
  proof (induction j)
    case 0
    then show ?case using assms(1) by simp
  next
    case (Suc j)
    then have "wake_reachable heap (w\<lparr>w_poll := Some j\<rparr>)" by simp
    moreover have "wake_step heap (w\<lparr>w_poll := Some j\<rparr>) ((w\<lparr>w_poll := Some j\<rparr>)\<lparr>w_poll := Some (Suc j)\<rparr>)"
      by (rule wake_step.skip) (use Suc assms(2) in simp_all)
    ultimately show ?case using wake_reachable.step by fastforce
  qed
  then have "wake_reachable heap (w\<lparr>w_poll := Some 32\<rparr>)" by simp
  moreover have "wake_step heap (w\<lparr>w_poll := Some 32\<rparr>) ((w\<lparr>w_poll := Some 32\<rparr>)\<lparr>w_poll := None\<rparr>)"
    by (rule wake_step.finish) simp
  ultimately show ?thesis using wake_reachable.step by fastforce
qed

text \<open>
  The exception is met: a packet of a lidar that is not sampling yet wakes the publisher, which passes
  the lidar by; the answer to its last setting makes it sampling, and the publisher waits although it
  has data, until the next packet comes.
\<close>

theorem wakeup_lost:
  "\<exists>w. wake_reachable (\<lambda>_. empty_packet) w \<and> w_poll w = None \<and> \<not> w_pending w \<and> sampling (w_lds w) 0 \<and>
    lidar_queue (w_lds w) 0 \<noteq> [] \<and> Semaphore_Wait (pcd_semaphore (w_lds w)) = None"
proof -
  let ?h = "\<lambda>_ :: nat. empty_packet" and ?start = "lds_start 10 cache_init"
  let ?s = "device_put 0 ((lidars ?start ! 0)\<lparr>connect_state := kConnectStateOff\<rparr>) ?start"
  let ?beg = "\<lparr>w_lds = ?s, w_pending = False, w_poll = None, w_set_bits = (\<lambda>_. 1), w_missed = {}\<rparr>"
  have ok0: "lds_ok ?start" by (rule lds_start_ok [OF cache_init_inv])
  have dev0: "device_ok ((lidars ?start ! 0)\<lparr>connect_state := kConnectStateOff\<rparr>)" using lds_device [OF ok0, of 0] by simp
  have ok: "lds_ok ?s" by (rule device_put_ok [OF ok0 dev0])
  have empty: "lidar_queue ?s j = []" if "j < 32" for j
    using that by (cases "j = 0") (simp_all add: lidar_queue_def device_list_def lds_start_def device_put_def queue_list_def queue_used_def)
  then have r0: "wake_reachable ?h ?beg" using ok by (intro wake_reachable.init) (simp_all add: lds_start_def device_put_def)
  have ping: "packet_in (ping, 5)" by (simp add: packet_in_def ping_def)
  have dev: "unat (0 :: u8) < length (lidars ?s)" "device_ok (lidars ?s ! unat (0 :: u8))"
    using ok by (simp_all add: lds_ok_def)
  from store_effect [OF dev ping, of ?h] obtain d where
    d: "PushLidarData_store ?h ping 0 5 ?s = Some (True, device_put 0 d ?s)"
      "connect_state d = kConnectStateOff" "device_list d \<noteq> []"
    by (auto simp: lds_start_def device_put_def)
  let ?t = "device_put 0 d ?s"
  let ?stored = "?beg\<lparr>w_lds := ?t, w_pending := True\<rparr>"
  have "wake_step ?h ?beg ?stored" using wake_step.store [of ?beg ping 5 0 ?h True ?t] ping d(1) by simp
  from wake_reachable.step [OF r0 this] have r1: "wake_reachable ?h ?stored" .
  have sem: "pcd_semaphore ?t = 0" by (simp add: device_put_def lds_start_def)
  let ?signalled = "?beg\<lparr>w_lds := ?t\<lparr>pcd_semaphore := 1\<rparr>\<rparr>"
  have "wake_step ?h ?stored (?stored\<lparr>w_lds := signal_if_idle (w_lds ?stored), w_pending := False, w_missed := {}\<rparr>)"
    by (rule wake_step.signal) simp
  moreover have "signal_if_idle ?t = ?t\<lparr>pcd_semaphore := 1\<rparr>" by (simp add: signal_if_idle_def sem Semaphore_Signal_def)
  ultimately have r2: "wake_reachable ?h ?signalled" using wake_reachable.step [OF r1] by simp
  let ?passed = "?beg\<lparr>w_lds := ?t\<rparr>"
  have "wake_step ?h ?signalled (?signalled\<lparr>w_lds := (w_lds ?signalled)\<lparr>pcd_semaphore := 0\<rparr>, w_poll := Some 0\<rparr>)"
    by (rule wake_step.wait) (simp_all add: Semaphore_Wait_def)
  moreover have "?t\<lparr>pcd_semaphore := 0\<rparr> = ?t" using sem by simp
  ultimately have r3: "wake_reachable ?h (?passed\<lparr>w_poll := Some 0\<rparr>)" using wake_reachable.step [OF r2] by simp
  have idle: "\<forall>j < 32. \<not> poll_ready ?t j"
  proof (intro allI impI)
    fix j :: nat assume j: "j < 32"
    show "\<not> poll_ready ?t j"
      using d(2) j by (cases "j = 0") (simp_all add: poll_ready_def sampling_def device_put_def lds_start_def)
  qed
  have r4: "wake_reachable ?h ?passed" using skip_all [OF r3] idle by simp
  let ?made = "?passed\<lparr>w_lds := device_put 0 (d\<lparr>connect_state := kConnectStateSampling\<rparr>) ?t, w_set_bits := (\<lambda>_. 1)(0 := 0), w_missed := {0}\<rparr>"
  have "wake_step ?h ?passed ?made"
    using wake_step.answered [of 0 1 ?passed 0 "d\<lparr>connect_state := kConnectStateSampling\<rparr>" ?h] d(2,3)
    by (simp add: setting_made_def device_put_def lds_start_def sampling_def lidar_queue_def)
  from wake_reachable.step [OF r4 this] have "wake_reachable ?h ?made" .
  moreover have "sampling (w_lds ?made) 0" "lidar_queue (w_lds ?made) 0 \<noteq> []" "pcd_semaphore (w_lds ?made) = 0"
    using d(3) by (simp_all add: sampling_def lidar_queue_def device_put_def lds_start_def device_list_def)
  ultimately show ?thesis by (intro exI [of _ ?made]) (simp add: Semaphore_Wait_def)
qed

end
