(* ===== verification/Xor_Linear.thy ===== *)
theory Xor_Linear
  imports Prelude
begin

text \<open>
  Functions on machine words that respect exclusive or. Every step of a cyclic redundancy check
  is one, and such a function is determined by its values at the powers of two; that is what
  reduces a claim about a table of 256 entries, or about all 32-bit words, to a few evaluations.
\<close>

definition xor_linear :: "('a::len word \<Rightarrow> 'b::len word) \<Rightarrow> bool" where
  "xor_linear f \<longleftrightarrow> (\<forall>x y. f (x XOR y) = f x XOR f y)"

named_theorems xor_lin

lemma xor_linearD: "xor_linear f \<Longrightarrow> f (x XOR y) = f x XOR f y"
  by (simp add: xor_linear_def)

lemma xor_linear_0: "xor_linear f \<Longrightarrow> f 0 = 0"
  using xor_linearD [of f 0 0] by simp

lemma xor_linear_id [xor_lin]: "xor_linear (\<lambda>x. x)"
  by (simp add: xor_linear_def)

lemma xor_linear_xor [xor_lin]:
  "xor_linear f \<Longrightarrow> xor_linear g \<Longrightarrow> xor_linear (\<lambda>x. f x XOR g x)"
  by (simp add: xor_linear_def ac_simps)

lemma xor_linear_comp:
  "xor_linear f \<Longrightarrow> xor_linear g \<Longrightarrow> xor_linear (\<lambda>x. f (g x))"
  by (simp add: xor_linear_def)

lemma xor_linear_drop_bit [xor_lin]:
  "xor_linear f \<Longrightarrow> xor_linear (\<lambda>x. drop_bit n (f x))"
  by (simp add: xor_linear_def)

lemma xor_linear_push_bit [xor_lin]:
  "xor_linear f \<Longrightarrow> xor_linear (\<lambda>x. push_bit n (f x))"
  by (simp add: xor_linear_def)

lemma xor_linear_ucast [xor_lin]:
  "xor_linear f \<Longrightarrow> xor_linear (\<lambda>x. ucast (f x) :: 'c::len word)"
  by (auto simp: xor_linear_def intro!: bit_word_eqI simp: bit_simps)

lemma xor_linear_funpow [xor_lin]:
  fixes f :: "'a::len word \<Rightarrow> 'a word"
  assumes "xor_linear f"
  shows "xor_linear (f ^^ n)"
  by (induction n) (use assms in \<open>simp_all add: xor_linear_def\<close>)

text \<open>One step of a shift register: shift, and mix in the polynomial when a bit fell out.\<close>

lemma xor_linear_feedback [xor_lin]:
  assumes "xor_linear f"
  shows "xor_linear (\<lambda>x. if bit x k then f x XOR p else f x)"
  using assms by (auto simp: xor_linear_def bit_xor_iff ac_simps)

lemma take_bit_Suc_xor:
  fixes x :: "'a::len word"
  shows "take_bit (Suc n) x = take_bit n x XOR (if bit x n then 2 ^ n else 0)"
  by (rule bit_word_eqI) (auto simp: bit_simps less_Suc_eq dest: bit_imp_le_length)

theorem xor_linear_ext:
  fixes f g :: "'a::len word \<Rightarrow> 'b::len word"
  assumes f: "xor_linear f" and g: "xor_linear g"
    and basis: "\<And>i. i < LENGTH('a) \<Longrightarrow> f (2 ^ i) = g (2 ^ i)"
  shows "f x = g x"
proof -
  have "f (take_bit n x) = g (take_bit n x)" if "n \<le> LENGTH('a)" for n
    using that
  proof (induction n)
    case 0
    show ?case by (simp add: xor_linear_0 f g)
  next
    case (Suc n)
    then show ?case
      by (simp add: take_bit_Suc_xor xor_linearD [OF f] xor_linearD [OF g] basis
          xor_linear_0 f g)
  qed
  from this [of "LENGTH('a)"] show ?thesis by (simp add: take_bit_word_eq_self)
qed

section \<open>Tables\<close>

text \<open>
  \<open>doubled [v3, v2, v1, v0]\<close> is the table of the function that sends the powers of two to
  \<open>v0\<close>, \<open>v1\<close>, \<open>v2\<close>, \<open>v3\<close>: each basis value doubles the table.
\<close>

fun doubled :: "'b::len word list \<Rightarrow> 'b word list" where
  "doubled [] = [0]"
| "doubled (v # vs) = (let t = doubled vs in t @ map (\<lambda>w. v XOR w) t)"

fun combine :: "'b::len word list \<Rightarrow> nat \<Rightarrow> 'b word" where
  "combine [] i = 0"
| "combine (v # vs) i = (if bit i (length vs) then v else 0) XOR combine vs i"

lemma length_doubled [simp]: "length (doubled vs) = 2 ^ length vs"
  by (induction vs) (simp_all add: Let_def)

lemma combine_xor: "combine vs (i XOR j) = combine vs i XOR combine vs j"
  by (induction vs) (auto simp: bit_xor_iff ac_simps)

lemma combine_low: "length vs \<le> n \<Longrightarrow> combine vs (i + 2 ^ n) = combine vs i"
proof (induction vs)
  case (Cons v vs)
  have "bit (i + 2 ^ n) (length vs) = bit i (length vs)"
  proof -
    from Cons.prems have "take_bit n (i + 2 ^ n) = take_bit n i" by (simp add: take_bit_eq_mod)
    then have "bit (take_bit n (i + 2 ^ n)) (length vs) = bit (take_bit n i) (length vs)" by simp
    with Cons.prems show ?thesis by (simp add: bit_take_bit_iff)
  qed
  with Cons show ?case by simp
qed simp

lemma doubled_nth: "i < 2 ^ length vs \<Longrightarrow> doubled vs ! i = combine vs i"
proof (induction vs arbitrary: i)
  case (Cons v vs)
  show ?case
  proof (cases "i < 2 ^ length vs")
    case True
    then have "\<not> bit i (length vs)" by (simp add: bit_iff_odd)
    with True show ?thesis by (simp add: Let_def nth_append Cons.IH)
  next
    case False
    define j where "j = i - 2 ^ length vs"
    have i: "i = j + 2 ^ length vs" and j: "j < 2 ^ length vs"
      using False Cons.prems by (simp_all add: j_def)
    have "i div 2 ^ length vs = 1"
      using j by (simp add: i div_add_self2)
    then have "bit i (length vs)" by (simp add: bit_iff_odd)
    with j show ?thesis by (simp add: Let_def nth_append i combine_low Cons.IH)
  qed
qed simp

lemma xor_linear_table:
  assumes "length vs = LENGTH('a)"
  shows "xor_linear (\<lambda>b :: 'a::len word. doubled vs ! unat b)"
proof -
  have "unat b < 2 ^ length vs" for b :: "'a word"
    using assms unsigned_less [of b] by simp
  then show ?thesis
    by (simp add: xor_linear_def doubled_nth combine_xor unsigned_xor_eq)
qed

end
