(* ===== verification/Slicing.thy ===== *)
theory Slicing
  imports Xor_Linear
begin

text \<open>
  Why a checksum may take four bytes a round: the interface \<open>slicing\<close> of four look-up tables, and
  the theorem that one round through them is four byte steps.
\<close>

section \<open>Slicing by four\<close>

text \<open>
  \<open>slicing\<close> is what a set of four tables must satisfy for one look-up round to be four byte
  steps: the first is linear and each of the others is the one before it, shifted by a zero byte.
\<close>

definition shift8 :: "(u8 \<Rightarrow> u32) \<Rightarrow> u32 \<Rightarrow> u32" where
  "shift8 T crc = drop_bit 8 crc XOR T (ucast crc)"

definition chunk :: "u8 \<Rightarrow> u8 \<Rightarrow> u8 \<Rightarrow> u8 \<Rightarrow> u32" where
  "chunk b0 b1 b2 b3 = ucast b0 XOR push_bit 8 (ucast b1) XOR push_bit 16 (ucast b2)
    XOR push_bit 24 (ucast b3)"

lemma xor_linear_shift8 [xor_lin]: "xor_linear T \<Longrightarrow> xor_linear (shift8 T)"
  by (auto simp: shift8_def [abs_def] intro!: xor_lin xor_linear_comp [of T])

lemma bit_byte_less: "bit (b :: u8) n \<Longrightarrow> n < 8"
  by (auto dest: bit_imp_le_length)

lemma byte_has_8_bits [simp]:
  fixes b :: u8
  shows "\<not> bit b (8 + n)" "\<not> bit b (16 + n)" "\<not> bit b (24 + n)"
  by (auto dest: bit_imp_le_length)

lemma chunk_bytes [simp]:
  "ucast (chunk b0 b1 b2 b3) = b0" "ucast (drop_bit 8 (chunk b0 b1 b2 b3)) = b1"
  "ucast (drop_bit 16 (chunk b0 b1 b2 b3)) = b2" "ucast (drop_bit 24 (chunk b0 b1 b2 b3)) = b3"
  by (auto intro!: bit_word_eqI simp: chunk_def bit_simps dest: bit_imp_le_length)

lemma chunk_of_bytes:
  "chunk (ucast c) (ucast (drop_bit 8 c)) (ucast (drop_bit 16 c)) (ucast (drop_bit 24 c)) = c"
  by (rule bit_word_eqI) (auto simp: chunk_def bit_simps add.commute dest: bit_imp_le_length)

lemma chunk_xor:
  "chunk (a0 XOR b0) (a1 XOR b1) (a2 XOR b2) (a3 XOR b3) = chunk a0 a1 a2 a3 XOR chunk b0 b1 b2 b3"
  by (rule bit_word_eqI) (auto simp: chunk_def bit_simps)

locale slicing =
  fixes T0 T1 T2 T3 :: "u8 \<Rightarrow> u32"
  assumes linear: "xor_linear T0"
    and next1: "shift8 T0 (T0 b) = T1 b"
    and next2: "shift8 T0 (T1 b) = T2 b"
    and next3: "shift8 T0 (T2 b) = T3 b"
begin

lemma T_xor: "T0 (a XOR b) = T0 a XOR T0 b" "T1 (a XOR b) = T1 a XOR T1 b"
  "T2 (a XOR b) = T2 a XOR T2 b" "T3 (a XOR b) = T3 a XOR T3 b"
  by (simp_all add: xor_linearD [OF linear] xor_linearD [OF xor_linear_shift8 [OF linear]]
      flip: next3 next2 next1)

lemma shift8_bytes:
  "shift8 T0 (ucast b) = T0 b"
  "shift8 T0 (push_bit 8 (ucast b)) = ucast b"
  "shift8 T0 (push_bit 16 (ucast b)) = push_bit 8 (ucast b)"
  "shift8 T0 (push_bit 24 (ucast b)) = push_bit 16 (ucast b)"
proof -
  have "ucast (ucast b :: u32) = b" and "drop_bit 8 (ucast b :: u32) = 0"
    by (auto intro!: bit_word_eqI simp: bit_simps dest: bit_imp_le_length)
  then show "shift8 T0 (ucast b) = T0 b" by (simp add: shift8_def)
  have low: "(ucast (push_bit 8 (x :: u32)) :: u8) = 0" "(ucast (push_bit 16 x) :: u8) = 0"
    "(ucast (push_bit 24 x) :: u8) = 0" for x
    by (auto intro!: bit_word_eqI simp: bit_simps dest: bit_imp_le_length)
  have down: "drop_bit 8 (push_bit 8 (ucast b :: u32)) = ucast b"
    "drop_bit 8 (push_bit 16 (ucast b :: u32)) = push_bit 8 (ucast b)"
    "drop_bit 8 (push_bit 24 (ucast b :: u32)) = push_bit 16 (ucast b)"
    by (auto intro!: bit_word_eqI simp: bit_simps dest!: bit_byte_less)
  show "shift8 T0 (push_bit 8 (ucast b)) = ucast b"
    "shift8 T0 (push_bit 16 (ucast b)) = push_bit 8 (ucast b)"
    "shift8 T0 (push_bit 24 (ucast b)) = push_bit 16 (ucast b)"
    by (simp_all add: shift8_def low down xor_linear_0 [OF linear])
qed

lemma four_chunks:
  "shift8 T0 (shift8 T0 (shift8 T0 (shift8 T0 (chunk c0 c1 c2 c3)))) = T3 c0 XOR T2 c1 XOR T1 c2 XOR T0 c3"
  by (simp add: chunk_def xor_linearD [OF xor_linear_shift8 [OF linear]] shift8_bytes
      next1 next2 next3)

lemma four_steps:
  "shift8 T0 (shift8 T0 (shift8 T0 (shift8 T0 (c XOR ucast b0) XOR ucast b1) XOR ucast b2)
      XOR ucast b3) = shift8 T0 (shift8 T0 (shift8 T0 (shift8 T0 (c XOR chunk b0 b1 b2 b3))))"
  by (simp add: xor_linearD [OF xor_linear_shift8 [OF linear]] shift8_bytes chunk_def xor.assoc)

theorem four_bytes:
  "shift8 T0 (shift8 T0 (shift8 T0 (shift8 T0 (c XOR ucast b0) XOR ucast b1) XOR ucast b2)
      XOR ucast b3) =
   (let x = c XOR chunk b0 b1 b2 b3
    in T3 (ucast x) XOR T2 (ucast (drop_bit 8 x)) XOR T1 (ucast (drop_bit 16 x))
      XOR T0 (ucast (drop_bit 24 x)))"
  unfolding four_steps
  by (subst chunk_of_bytes [symmetric]) (simp only: four_chunks Let_def)

end

end
