(* ===== verification/Fast_Crc.thy ===== *)
theory Fast_Crc
  imports Crc_Tables Slicing
begin

text \<open>
  \<open>src/src/Livox-SDK2/3rdparty/FastCRC/FastCRCsw.cpp\<close>: the two checksums of an SDK frame. Each
  routine takes bytes one at a time until the address is a multiple of four, then sixteen bytes
  a round through four table look-ups per 32-bit load, then the bytes that are left. A call is
  modelled by the address \<open>a\<close> of the data and the bytes there; the object's \<open>seed\<close> is a
  parameter and part of the result.

  On the 64-bit hosts the driver runs on, \<open>pgm_read_dword\<close> loads an \<open>unsigned long\<close>, eight bytes,
  from a table of 4-byte entries; \<open>beyond\<close> stands for the four bytes behind the table.
\<close>

section \<open>The code\<close>

definition REV16 :: "u32 \<Rightarrow> u32" where
  "REV16 value = drop_bit 8 value OR push_bit 8 (value AND 0xff)"

definition pgm_read_word :: "u16 list \<Rightarrow> nat \<Rightarrow> u16" where
  "pgm_read_word table i = table ! i"

definition pgm_read_dword :: "u32 \<Rightarrow> u32 list \<Rightarrow> nat \<Rightarrow> 64 word" where
  "pgm_read_dword beyond table i =
    ucast (table ! i) OR push_bit 32 (ucast ((table @ [beyond]) ! Suc i))"

text \<open>\<open>((uint32_t *)data)[k]\<close> on a little-endian host.\<close>

definition load32 :: "u8 list \<Rightarrow> nat \<Rightarrow> u32" where
  "load32 data k = ucast (data ! (4 * k)) OR push_bit 8 (ucast (data ! (4 * k + 1)))
    OR push_bit 16 (ucast (data ! (4 * k + 2))) OR push_bit 24 (ucast (data ! (4 * k + 3)))"

subsection \<open>CCITT, 16 bits\<close>

definition ccitt_byte :: "u16 \<Rightarrow> u8 \<Rightarrow> u16" where
  "ccitt_byte crc b = drop_bit 8 crc XOR
    pgm_read_word crc_table_ccitt (unat ((crc AND 0xff) XOR ucast b))"

definition crc_n4 :: "u16 \<Rightarrow> u32 \<Rightarrow> u16" where
  "crc_n4 crc data = (let crc = crc XOR ucast data in
     pgm_read_word crc_table_ccitt (unat (crc AND 0xff) + 0x300) XOR
     pgm_read_word crc_table_ccitt (unat (drop_bit 8 crc AND 0xff) + 0x200) XOR
     pgm_read_word crc_table_ccitt (unat (drop_bit 16 data AND 0xff) + 0x100) XOR
     pgm_read_word crc_table_ccitt (unat (drop_bit 24 data)))"

fun ccitt_align :: "nat \<Rightarrow> u16 \<Rightarrow> u8 list \<Rightarrow> u16 \<times> u8 list" where
  "ccitt_align a crc [] = (crc, [])"
| "ccitt_align a crc (b # data) =
    (if a mod 4 \<noteq> 0 then ccitt_align (a + 1) (ccitt_byte crc b) data else (crc, b # data))"

function ccitt_blocks :: "u16 \<Rightarrow> u8 list \<Rightarrow> u16 \<times> u8 list" where
  "ccitt_blocks crc data =
    (if 16 \<le> length data then
       (let crc = crc_n4 crc (load32 data 0);
            crc = crc_n4 crc (load32 data 1);
            crc = crc_n4 crc (load32 data 2);
            crc = crc_n4 crc (load32 data 3)
        in ccitt_blocks crc (drop 16 data))
     else (crc, data))"
  by auto
termination by (relation "measure (length \<circ> snd)") auto

definition ccitt_upd :: "nat \<Rightarrow> u16 \<Rightarrow> u8 list \<Rightarrow> u16 \<times> u16" where
  "ccitt_upd a seed data =
    (let (crc, data) = ccitt_align a seed data;
         (crc, data) = ccitt_blocks crc data;
         crc = foldl ccitt_byte crc data
     in (ucast (REV16 (ucast crc)), crc))"

definition ccitt :: "nat \<Rightarrow> u8 list \<Rightarrow> u16" where
  "ccitt a data = fst (ccitt_upd a 0xffff data)"

subsection \<open>CRC-32\<close>

definition crc32_byte :: "u32 \<Rightarrow> u32 \<Rightarrow> u8 \<Rightarrow> u32" where
  "crc32_byte beyond crc b = ucast (ucast (drop_bit 8 crc) XOR
    pgm_read_dword beyond crc_table_crc32_big (unat ((crc AND 0xff) XOR ucast b)))"

definition crc_n4d :: "u32 \<Rightarrow> u32 \<Rightarrow> u32 \<Rightarrow> u32" where
  "crc_n4d beyond crc data = (let crc = crc XOR data in
     ucast (pgm_read_dword beyond crc_table_crc32_big (unat (crc AND 0xff) + 0x300) XOR
       pgm_read_dword beyond crc_table_crc32_big (unat (drop_bit 8 crc AND 0xff) + 0x200) XOR
       pgm_read_dword beyond crc_table_crc32_big (unat (drop_bit 16 crc AND 0xff) + 0x100) XOR
       pgm_read_dword beyond crc_table_crc32_big (unat (drop_bit 24 crc AND 0xff))))"

fun crc32_align :: "u32 \<Rightarrow> nat \<Rightarrow> u32 \<Rightarrow> u8 list \<Rightarrow> u32 \<times> u8 list" where
  "crc32_align beyond a crc [] = (crc, [])"
| "crc32_align beyond a crc (b # data) =
    (if a mod 4 \<noteq> 0 then crc32_align beyond (a + 1) (crc32_byte beyond crc b) data
     else (crc, b # data))"

function crc32_blocks :: "u32 \<Rightarrow> u32 \<Rightarrow> u8 list \<Rightarrow> u32 \<times> u8 list" where
  "crc32_blocks beyond crc data =
    (if 16 \<le> length data then
       (let crc = crc_n4d beyond crc (load32 data 0);
            crc = crc_n4d beyond crc (load32 data 1);
            crc = crc_n4d beyond crc (load32 data 2);
            crc = crc_n4d beyond crc (load32 data 3)
        in crc32_blocks beyond crc (drop 16 data))
     else (crc, data))"
  by auto
termination by (relation "measure (length \<circ> snd \<circ> snd)") auto

definition crc32_upd :: "u32 \<Rightarrow> nat \<Rightarrow> u32 \<Rightarrow> u8 list \<Rightarrow> u32 \<times> u32" where
  "crc32_upd beyond a seed data =
    (let (crc, data) = crc32_align beyond a seed data;
         (crc, data) = crc32_blocks beyond crc data;
         crc = foldl (crc32_byte beyond) crc data
     in (NOT crc, crc))"

definition crc32 :: "u32 \<Rightarrow> nat \<Rightarrow> u8 list \<Rightarrow> u32" where
  "crc32 beyond a data = fst (crc32_upd beyond a 0xffffffff data)"

declare ccitt_blocks.simps [simp del] crc32_blocks.simps [simp del]

end
