(* ===== verification/Crc_Spec.thy ===== *)
theory Crc_Spec
  imports Fast_Crc
begin

text \<open>
  What the two checksum routines of \<open>FastCRCsw.cpp\<close> compute. The tables satisfy the interface
  \<open>slicing\<close>, so a round of four look-ups is four byte steps and each routine is a fold over the
  bytes, whatever the address; the fold is the bitwise definition of the checksum that the
  parameter line above the routine names.
\<close>

section \<open>The tables satisfy the interface\<close>

definition ccitt_T :: "nat \<Rightarrow> u8 \<Rightarrow> u32" where
  "ccitt_T k b = ucast (pgm_read_word crc_table_ccitt (unat b + 256 * k))"

definition crc32_T :: "nat \<Rightarrow> u8 \<Rightarrow> u32" where
  "crc32_T k b = crc_table_crc32_big ! (unat b + 256 * k)"

lemmas blocks_doubled =
  crc_table_ccitt_0_doubled crc_table_ccitt_1_doubled crc_table_ccitt_2_doubled
  crc_table_ccitt_3_doubled crc_table_crc32_big_0_doubled crc_table_crc32_big_1_doubled
  crc_table_crc32_big_2_doubled crc_table_crc32_big_3_doubled

lemma block_lengths [simp]:
  "length crc_table_ccitt_0 = 256" "length crc_table_ccitt_1 = 256"
  "length crc_table_ccitt_2 = 256" "length crc_table_ccitt_3 = 256"
  "length crc_table_crc32_big_0 = 256" "length crc_table_crc32_big_1 = 256"
  "length crc_table_crc32_big_2 = 256" "length crc_table_crc32_big_3 = 256"
  by (simp_all add: blocks_doubled del: doubled.simps)

lemma table_lengths [simp]: "length crc_table_ccitt = 1024" "length crc_table_crc32_big = 1024"
  by (simp_all add: crc_table_ccitt_def crc_table_crc32_big_def)

lemma byte_below_256 [simp]: "unat (b :: u8) < 256" "unat (b :: u8) \<le> 255"
proof -
  have "unat b < 2 ^ LENGTH(8)" by (rule unsigned_less)
  then show "unat b < 256" by simp
  then show "unat b \<le> 255" by simp
qed

lemma table_block:
  assumes "length t0 = 256" "length t1 = 256" "length t2 = 256"
  shows "(t0 @ t1 @ t2 @ t3) ! unat (b :: u8) = t0 ! unat b"
    "(t0 @ t1 @ t2 @ t3) ! (unat b + 256) = t1 ! unat b"
    "(t0 @ t1 @ t2 @ t3) ! (unat b + 512) = t2 ! unat b"
    "(t0 @ t1 @ t2 @ t3) ! (unat b + 768) = t3 ! unat b"
  using assms by (simp_all add: nth_append)

lemma ccitt_T_block:
  "ccitt_T 0 b = ucast (crc_table_ccitt_0 ! unat b)"
  "ccitt_T 1 b = ucast (crc_table_ccitt_1 ! unat b)"
  "ccitt_T 2 b = ucast (crc_table_ccitt_2 ! unat b)"
  "ccitt_T 3 b = ucast (crc_table_ccitt_3 ! unat b)"
  by (simp_all add: ccitt_T_def pgm_read_word_def crc_table_ccitt_def table_block)

lemma crc32_T_block:
  "crc32_T 0 b = crc_table_crc32_big_0 ! unat b"
  "crc32_T 1 b = crc_table_crc32_big_1 ! unat b"
  "crc32_T 2 b = crc_table_crc32_big_2 ! unat b"
  "crc32_T 3 b = crc_table_crc32_big_3 ! unat b"
  by (simp_all add: crc32_T_def crc_table_crc32_big_def table_block)

lemma T_linear [xor_lin]:
  "xor_linear (ccitt_T 0)" "xor_linear (ccitt_T 1)" "xor_linear (ccitt_T 2)" "xor_linear (ccitt_T 3)"
  "xor_linear (crc32_T 0)" "xor_linear (crc32_T 1)" "xor_linear (crc32_T 2)" "xor_linear (crc32_T 3)"
  unfolding ccitt_T_block [abs_def] crc32_T_block [abs_def] blocks_doubled
  by (intro xor_lin xor_linear_table; simp del: doubled.simps)+

lemma ccitt_T_basis_0:
  "list_all (\<lambda>i. shift8 (ccitt_T 0) (ccitt_T 0 (2 ^ i)) = ccitt_T 1 (2 ^ i)) [0..<8]"
  by code_simp

lemma ccitt_T_basis_1:
  "list_all (\<lambda>i. shift8 (ccitt_T 0) (ccitt_T 1 (2 ^ i)) = ccitt_T 2 (2 ^ i)) [0..<8]"
  by code_simp

lemma ccitt_T_basis_2:
  "list_all (\<lambda>i. shift8 (ccitt_T 0) (ccitt_T 2 (2 ^ i)) = ccitt_T 3 (2 ^ i)) [0..<8]"
  by code_simp

lemma crc32_T_basis_0:
  "list_all (\<lambda>i. shift8 (crc32_T 0) (crc32_T 0 (2 ^ i)) = crc32_T 1 (2 ^ i)) [0..<8]"
  by code_simp

lemma crc32_T_basis_1:
  "list_all (\<lambda>i. shift8 (crc32_T 0) (crc32_T 1 (2 ^ i)) = crc32_T 2 (2 ^ i)) [0..<8]"
  by code_simp

lemma crc32_T_basis_2:
  "list_all (\<lambda>i. shift8 (crc32_T 0) (crc32_T 2 (2 ^ i)) = crc32_T 3 (2 ^ i)) [0..<8]"
  by code_simp

lemma shift8_ext:
  fixes T f g :: "u8 \<Rightarrow> u32"
  assumes "xor_linear T" "xor_linear f" "xor_linear g"
    and "list_all (\<lambda>i. shift8 T (f (2 ^ i)) = g (2 ^ i)) [0..<8]"
  shows "shift8 T (f b) = g b"
proof (rule xor_linear_ext [of "\<lambda>b. shift8 T (f b)" g])
  show "xor_linear (\<lambda>b. shift8 T (f b))"
    by (rule xor_linear_comp [OF xor_linear_shift8]) (rule assms)+
qed (use assms in \<open>auto simp: list_all_iff\<close>)

lemma ccitt_T_next:
  "shift8 (ccitt_T 0) (ccitt_T 0 b) = ccitt_T 1 b"
  "shift8 (ccitt_T 0) (ccitt_T 1 b) = ccitt_T 2 b"
  "shift8 (ccitt_T 0) (ccitt_T 2 b) = ccitt_T 3 b"
  by (rule shift8_ext, rule T_linear, rule T_linear, rule T_linear,
      rule ccitt_T_basis_0 ccitt_T_basis_1 ccitt_T_basis_2)+

lemma crc32_T_next:
  "shift8 (crc32_T 0) (crc32_T 0 b) = crc32_T 1 b"
  "shift8 (crc32_T 0) (crc32_T 1 b) = crc32_T 2 b"
  "shift8 (crc32_T 0) (crc32_T 2 b) = crc32_T 3 b"
  by (rule shift8_ext, rule T_linear, rule T_linear, rule T_linear,
      rule crc32_T_basis_0 crc32_T_basis_1 crc32_T_basis_2)+

interpretation ccitt: slicing "ccitt_T 0" "ccitt_T 1" "ccitt_T 2" "ccitt_T 3"
  by unfold_locales (rule T_linear ccitt_T_next)+

interpretation crc32: slicing "crc32_T 0" "crc32_T 1" "crc32_T 2" "crc32_T 3"
  by unfold_locales (rule T_linear crc32_T_next)+

section \<open>One round is four bytes\<close>

lemma low_byte:
  "c AND 0xff = ucast (ucast c :: u8)" "d AND 0xff = ucast (ucast d :: u8)" for c :: u16 and d :: u32
proof -
  have "c AND 0xff = take_bit 8 c" "d AND 0xff = take_bit 8 d"
    by (simp_all add: take_bit_eq_mask mask_eq_exp_minus_1)
  then show "c AND 0xff = ucast (ucast c :: u8)" "d AND 0xff = ucast (ucast d :: u8)"
    by (auto intro!: bit_word_eqI simp: bit_simps)
qed

lemma unat_of_byte [simp]: "unat (ucast b :: u16) = unat b" "unat (ucast b :: u32) = unat b" for b :: u8
  by (simp_all add: unsigned_ucast_eq take_bit_nat_eq_self less_trans [OF byte_below_256(1)])

lemma byte_index:
  "unat ((c AND 0xff) XOR ucast b) = unat (ucast c XOR b)"
  "unat ((d AND 0xff) XOR ucast b) = unat (ucast d XOR b)" for c :: u16 and d :: u32 and b :: u8
proof -
  have "(c AND 0xff) XOR ucast b = ucast (ucast c XOR b)" "(d AND 0xff) XOR ucast b = ucast (ucast d XOR b)"
    unfolding low_byte by (simp_all add: unsigned_xor_eq)
  then show "unat ((c AND 0xff) XOR ucast b) = unat (ucast c XOR b)"
    "unat ((d AND 0xff) XOR ucast b) = unat (ucast d XOR b)" by simp_all
qed

lemma top_byte: "unat (drop_bit 24 d) = unat (ucast (drop_bit 24 d) :: u8)" for d :: u32
proof -
  have "drop_bit 24 d = ucast (ucast (drop_bit 24 d) :: u8)"
    by (rule bit_word_eqI) (auto simp: bit_simps dest: bit_imp_le_length)
  then show ?thesis by (metis unat_of_byte(2))
qed

lemma load32_chunk:
  "load32 data k = chunk (data ! (4 * k)) (data ! (4 * k + 1)) (data ! (4 * k + 2)) (data ! (4 * k + 3))"
proof (rule bit_word_eqI)
  fix n :: nat
  have high: "\<not> bit b m" if "8 \<le> m" for b :: u8 and m
    using that bit_byte_less [of b m] by auto
  consider "n < 8" | "8 \<le> n" "n < 16" | "16 \<le> n" "n < 24" | "24 \<le> n" by linarith
  then show "bit (load32 data k) n = bit (chunk (data ! (4 * k)) (data ! (4 * k + 1))
      (data ! (4 * k + 2)) (data ! (4 * k + 3))) n"
    by cases (auto simp: load32_def chunk_def bit_simps high)
qed

lemma pgm_read_dword_low:
  assumes "i < length table"
  shows "ucast (pgm_read_dword beyond table i) = table ! i"
  by (rule bit_word_eqI) (auto simp: pgm_read_dword_def bit_simps)

lemma ucast_xor_dword: "ucast (ucast (c :: u32) XOR (d :: 64 word)) = c XOR ucast d"
  by (rule bit_word_eqI) (auto simp: bit_simps)

lemma ucast_xor_16: "(ucast (c XOR d) :: u32) = ucast c XOR ucast d" for c d :: u16
  by (rule unsigned_xor_eq)

lemma ucast_inj_16:
  fixes c d :: u16
  assumes "(ucast c :: u32) = ucast d"
  shows "c = d"
proof -
  have same: "ucast (ucast x :: u32) = x" for x :: u16
    by (rule bit_word_eqI) (auto simp: bit_simps)
  show ?thesis using arg_cong [OF assms, of "\<lambda>w. ucast w :: u16"] by (simp only: same)
qed

lemma ccitt_byte_shift8: "ucast (ccitt_byte crc b) = shift8 (ccitt_T 0) (ucast crc XOR ucast b)"
proof -
  have "n < 24" if "bit crc (8 + n)" for n
    using bit_imp_le_length [OF that] by simp
  then have "drop_bit 8 (ucast crc XOR ucast b :: u32) = ucast (drop_bit 8 crc)"
    by (auto intro!: bit_word_eqI simp: bit_simps)
  moreover have "ucast (ucast crc XOR ucast b :: u32) = (ucast crc XOR b :: u8)"
    by (auto intro!: bit_word_eqI simp: bit_simps)
  ultimately show ?thesis
    by (simp only: ccitt_byte_def shift8_def ccitt_T_def byte_index ucast_xor_16 mult_0_right
        add_0_right)
qed

lemma crc32_byte_shift8: "crc32_byte beyond crc b = shift8 (crc32_T 0) (crc XOR ucast b)"
proof -
  have "drop_bit 8 (crc XOR ucast b) = drop_bit 8 crc"
    and "ucast (crc XOR ucast b) = (ucast crc XOR b :: u8)"
    by (auto intro!: bit_word_eqI simp: bit_simps dest: bit_imp_le_length)
  then show ?thesis
    by (simp add: crc32_byte_def shift8_def crc32_T_def byte_index ucast_xor_dword
        pgm_read_dword_low less_trans [OF byte_below_256(1)] del: unsigned_xor_eq)
qed

lemma crc_n4_bytes: "crc_n4 crc (chunk b0 b1 b2 b3) = foldl ccitt_byte crc [b0, b1, b2, b3]"
proof -
  let ?x = "ucast crc XOR chunk b0 b1 b2 b3"
  have *: "(ucast (ccitt_byte c b) :: u32) = shift8 (ccitt_T 0) (ucast c XOR ucast b)" for c b
    by (rule ccitt_byte_shift8)
  have low: "ucast (crc XOR ucast (chunk b0 b1 b2 b3)) = (ucast ?x :: u8)"
    "ucast (drop_bit 8 (crc XOR ucast (chunk b0 b1 b2 b3))) = (ucast (drop_bit 8 ?x) :: u8)"
    by (auto intro!: bit_word_eqI simp: bit_simps)
  have high: "ucast (drop_bit 16 ?x) = b2" "ucast (drop_bit 24 ?x) = b3"
  proof -
    have "\<not> bit crc (16 + n)" "\<not> bit crc (24 + n)" for n
      using bit_imp_le_length [of crc "16 + n"] bit_imp_le_length [of crc "24 + n"] by auto
    then have "drop_bit 16 (ucast crc :: u32) = 0" "drop_bit 24 (ucast crc :: u32) = 0"
      by (auto intro!: bit_word_eqI simp: bit_simps)
    then show "ucast (drop_bit 16 ?x) = b2" "ucast (drop_bit 24 ?x) = b3" by simp_all
  qed
  have "(ucast (crc_n4 crc (chunk b0 b1 b2 b3)) :: u32) =
      ccitt_T 3 (ucast ?x) XOR ccitt_T 2 (ucast (drop_bit 8 ?x)) XOR ccitt_T 1 b2 XOR ccitt_T 0 b3"
    by (simp only: crc_n4_def Let_def low_byte unat_of_byte top_byte chunk_bytes low ccitt_T_def
        ucast_xor_16 mult_0_right add_0_right) simp
  also have "\<dots> = ucast (foldl ccitt_byte crc [b0, b1, b2, b3])"
    using ccitt.four_bytes [of "ucast crc" b0 b1 b2 b3] by (simp only: foldl.simps * high Let_def)
  finally show ?thesis by (rule ucast_inj_16)
qed

lemma crc_n4d_bytes:
  "crc_n4d beyond crc (chunk b0 b1 b2 b3) = foldl (crc32_byte beyond) crc [b0, b1, b2, b3]"
proof -
  let ?x = "crc XOR chunk b0 b1 b2 b3"
  have read: "ucast (pgm_read_dword beyond crc_table_crc32_big (unat (b :: u8) + 256 * k)) =
      crc32_T k b" if "k < 4" for b k
    unfolding crc32_T_def
    by (rule pgm_read_dword_low)
      (unfold table_lengths, use that byte_below_256(1) [of b] in linarith)
  have xor_dwords: "(ucast (w XOR v) :: u32) = ucast w XOR ucast v" for w v :: "64 word"
    by (rule bit_word_eqI) (auto simp: bit_simps)
  have "crc_n4d beyond crc (chunk b0 b1 b2 b3) =
      crc32_T 3 (ucast ?x) XOR crc32_T 2 (ucast (drop_bit 8 ?x)) XOR
      crc32_T 1 (ucast (drop_bit 16 ?x)) XOR crc32_T 0 (ucast (drop_bit 24 ?x))"
    using read [of 3] read [of 2] read [of 1] read [of 0]
    by (simp add: crc_n4d_def Let_def low_byte xor_dwords)
  also have "\<dots> = foldl (crc32_byte beyond) crc [b0, b1, b2, b3]"
    using crc32.four_bytes [of crc b0 b1 b2 b3]
    by (simp only: foldl.simps crc32_byte_shift8 Let_def)
  finally show ?thesis .
qed

section \<open>The routines are byte by byte\<close>

lemma four_of:
  assumes "4 * k + 4 \<le> length data"
  shows "take 4 (drop (4 * k) data) =
    [data ! (4 * k), data ! (4 * k + 1), data ! (4 * k + 2), data ! (4 * k + 3)]"
  by (rule nth_equalityI) (use assms in \<open>auto simp: less_Suc_eq numeral_eq_Suc\<close>)

lemma sixteen_of:
  "take 16 data = take 4 (drop (4 * 0) data) @ take 4 (drop (4 * 1) data) @
    take 4 (drop (4 * 2) data) @ take 4 (drop (4 * 3) data)"
  using take_add [of 4 12 data] take_add [of 4 8 "drop 4 data"] take_add [of 4 4 "drop 8 data"]
  by (simp add: add.commute)

lemma ccitt_align_bytes:
  "ccitt_align a crc data = (crc', data') \<Longrightarrow> foldl ccitt_byte crc' data' = foldl ccitt_byte crc data"
  by (induction a crc data rule: ccitt_align.induct) (auto split: if_splits)

lemma ccitt_blocks_bytes:
  "ccitt_blocks crc data = (crc', data') \<Longrightarrow> foldl ccitt_byte crc' data' = foldl ccitt_byte crc data"
proof (induction crc data rule: ccitt_blocks.induct)
  case (1 crc data)
  show ?case
  proof (cases "16 \<le> length data")
    case True
    then have step: "crc_n4 c (load32 data k) = foldl ccitt_byte c (take 4 (drop (4 * k) data))"
      if "k < 4" for c k
      using that by (simp add: load32_chunk crc_n4_bytes four_of)
    from True "1.prems" "1.IH" have "foldl ccitt_byte crc' data' =
      foldl ccitt_byte (foldl ccitt_byte crc (take 16 data)) (drop 16 data)"
      by (subst (asm) ccitt_blocks.simps) (simp add: step sixteen_of)
    also have "\<dots> = foldl ccitt_byte crc data"
      by (metis append_take_drop_id foldl_append)
    finally show ?thesis .
  next
    case False
    with "1.prems" show ?thesis by (simp add: ccitt_blocks.simps)
  qed
qed

lemma ccitt_upd_bytes:
  "ccitt_upd a seed data =
    (ucast (REV16 (ucast (foldl ccitt_byte seed data))), foldl ccitt_byte seed data)"
  by (auto simp: ccitt_upd_def Let_def split: prod.splits dest!: ccitt_align_bytes ccitt_blocks_bytes)

lemma crc32_align_bytes:
  "crc32_align beyond a crc data = (crc', data') \<Longrightarrow>
    foldl (crc32_byte beyond) crc' data' = foldl (crc32_byte beyond) crc data"
  by (induction beyond a crc data rule: crc32_align.induct) (auto split: if_splits)

lemma crc32_blocks_bytes:
  "crc32_blocks beyond crc data = (crc', data') \<Longrightarrow>
    foldl (crc32_byte beyond) crc' data' = foldl (crc32_byte beyond) crc data"
proof (induction beyond crc data rule: crc32_blocks.induct)
  case (1 beyond crc data)
  show ?case
  proof (cases "16 \<le> length data")
    case True
    then have step: "crc_n4d beyond c (load32 data k) =
        foldl (crc32_byte beyond) c (take 4 (drop (4 * k) data))" if "k < 4" for c k
      using that by (simp add: load32_chunk crc_n4d_bytes four_of)
    from True "1.prems" "1.IH" have "foldl (crc32_byte beyond) crc' data' =
      foldl (crc32_byte beyond) (foldl (crc32_byte beyond) crc (take 16 data)) (drop 16 data)"
      by (subst (asm) crc32_blocks.simps) (simp add: step sixteen_of)
    also have "\<dots> = foldl (crc32_byte beyond) crc data"
      by (metis append_take_drop_id foldl_append)
    finally show ?thesis .
  next
    case False
    with "1.prems" show ?thesis by (simp add: crc32_blocks.simps)
  qed
qed

lemma crc32_upd_bytes:
  "crc32_upd beyond a seed data =
    (NOT (foldl (crc32_byte beyond) seed data), foldl (crc32_byte beyond) seed data)"
  by (auto simp: crc32_upd_def Let_def split: prod.splits dest!: crc32_align_bytes crc32_blocks_bytes)

section \<open>The reference: one bit at a time\<close>

text \<open>
  The two checksums as their parameter lines define them: CRC-16/CCITT-FALSE feeds the most
  significant bit first with polynomial 0x1021, CRC-32 the least significant bit first with the
  reversed polynomial 0xedb88320 and a final complement.
\<close>

definition crc16_bit :: "u16 \<Rightarrow> u16" where
  "crc16_bit c = (if bit c 15 then push_bit 1 c XOR 0x1021 else push_bit 1 c)"

definition crc16_spec :: "u8 list \<Rightarrow> u16" where
  "crc16_spec data = foldl (\<lambda>c b. (crc16_bit ^^ 8) (c XOR push_bit 8 (ucast b))) 0xffff data"

definition crc32_bit :: "u32 \<Rightarrow> u32" where
  "crc32_bit c = (if bit c 0 then drop_bit 1 c XOR 0xedb88320 else drop_bit 1 c)"

definition crc32_spec :: "u8 list \<Rightarrow> u32" where
  "crc32_spec data = NOT (foldl (\<lambda>c b. (crc32_bit ^^ 8) (c XOR ucast b)) 0xffffffff data)"

lemma funpow_numeral: "(f ^^ numeral k) x = f ((f ^^ pred_numeral k) x)"
  by (simp add: numeral_eq_Suc)

lemma crc_bit_linear [xor_lin]: "xor_linear crc16_bit" "xor_linear crc32_bit"
  unfolding crc16_bit_def [abs_def] crc32_bit_def [abs_def]
  by (intro xor_linear_feedback xor_lin)+

lemma crc32_shift: "n + k < 32 \<Longrightarrow> (crc32_bit ^^ k) (2 ^ (n + k)) = 2 ^ n"
proof (induction k)
  case (Suc k)
  have "crc32_bit (2 ^ Suc m) = 2 ^ m" if "Suc m < 32" for m
    using that by (auto intro!: bit_word_eqI simp: crc32_bit_def bit_simps)
  with Suc show ?case by (simp add: funpow_swap1)
qed simp

text \<open>The eight values that one bit runs through on its way out of a byte.\<close>

lemma crc32_chain:
  "crc32_bit 1 = 0xedb88320"
  "crc32_bit 0xedb88320 = 0x76dc4190"
  "crc32_bit 0x76dc4190 = 0x3b6e20c8"
  "crc32_bit 0x3b6e20c8 = 0x1db71064"
  "crc32_bit 0x1db71064 = 0xedb8832"
  "crc32_bit 0xedb8832 = 0x76dc419"
  "crc32_bit 0x76dc419 = 0xee0e612c"
  "crc32_bit 0xee0e612c = 0x77073096"
  by code_simp+

lemma crc32_table_chain:
  "crc32_T 0 128 = 0xedb88320"
  "crc32_T 0 64 = 0x76dc4190"
  "crc32_T 0 32 = 0x3b6e20c8"
  "crc32_T 0 16 = 0x1db71064"
  "crc32_T 0 8 = 0xedb8832"
  "crc32_T 0 4 = 0x76dc419"
  "crc32_T 0 2 = 0xee0e612c"
  "crc32_T 0 1 = 0x77073096"
  by code_simp+

lemma crc32_step_basis:
  assumes "i < 8"
  shows "(crc32_bit ^^ 8) (2 ^ i) = crc32_T 0 (2 ^ i)"
proof -
  have "(crc32_bit ^^ 8) (2 ^ i) = (crc32_bit ^^ (8 - i)) ((crc32_bit ^^ i) (2 ^ i))"
    using assms by (simp flip: funpow_add [THEN fun_cong, unfolded comp_def])
  also have "(crc32_bit ^^ i) (2 ^ i) = 1"
    using crc32_shift [of 0 i] assms by simp
  also have "(crc32_bit ^^ (8 - i)) 1 = crc32_T 0 (2 ^ i)"
  proof -
    have "i \<in> {0, 1, 2, 3, 4, 5, 6, 7}" using assms by auto
    then show ?thesis by (auto simp: funpow_numeral crc32_chain crc32_table_chain)
  qed
  finally show ?thesis .
qed

lemma crc32_step: "(crc32_bit ^^ 8) c = shift8 (crc32_T 0) c"
proof (rule xor_linear_ext [of "crc32_bit ^^ 8" "shift8 (crc32_T 0)"])
  fix i
  assume "i < LENGTH(32)"
  show "(crc32_bit ^^ 8) (2 ^ i) = shift8 (crc32_T 0) (2 ^ i)"
  proof (cases "i < 8")
    case True
    then have "(2 ^ i :: u32) = ucast (2 ^ i :: u8)"
      by (auto intro!: bit_word_eqI simp: bit_simps)
    then have "shift8 (crc32_T 0) (2 ^ i) = crc32_T 0 (2 ^ i)" by (simp only: crc32.shift8_bytes)
    with crc32_step_basis [OF True] show ?thesis by simp
  next
    case False
    define n where "n = i - 8"
    with False \<open>i < LENGTH(32)\<close> have i: "i = n + 8" and n: "n + 8 < 32" by simp_all
    have "(ucast (2 ^ i :: u32) :: u8) = 0" "drop_bit 8 (2 ^ i :: u32) = 2 ^ n"
      using n by (auto intro!: bit_word_eqI simp: i bit_simps)
    with crc32_shift [OF n] show ?thesis
      by (simp add: i shift8_def xor_linear_0 [OF T_linear(5)])
  qed
qed (intro xor_lin)+

definition swap16 :: "u16 \<Rightarrow> u16" where
  "swap16 c = ucast (REV16 (ucast c))"

definition ccitt_G :: "u16 \<Rightarrow> u16" where
  "ccitt_G c = drop_bit 8 c XOR pgm_read_word crc_table_ccitt (unat (ucast c :: u8))"

lemma bit_swap16 [simp]:
  "bit (swap16 c) n \<longleftrightarrow> n < 8 \<and> bit c (n + 8) \<or> 8 \<le> n \<and> n < 16 \<and> bit c (n - 8)"
proof -
  have "\<not> bit c (n + 8)" if "8 \<le> n"
    using that bit_imp_le_length [of c "n + 8"] by auto
  then show ?thesis by (auto simp: swap16_def REV16_def low_byte bit_simps add.commute)
qed

lemma swap16_xor: "swap16 (c XOR push_bit 8 (ucast b)) = swap16 c XOR ucast (b :: u8)"
proof (rule bit_word_eqI)
  fix n :: nat
  have "\<not> bit b n" if "8 \<le> n" using that bit_byte_less [of b n] by auto
  then show "bit (swap16 (c XOR push_bit 8 (ucast b))) n = bit (swap16 c XOR ucast b) n"
    by (cases "n < 8") (auto simp: bit_simps)
qed

lemma swap16_linear [xor_lin]: "xor_linear swap16"
  by (auto intro!: bit_word_eqI simp: xor_linear_def bit_simps)

lemma swap16_swap16: "swap16 (swap16 c) = c"
  by (auto intro!: bit_word_eqI dest: bit_imp_le_length)

lemma ccitt_G_linear [xor_lin]: "xor_linear ccitt_G"
proof -
  have "pgm_read_word crc_table_ccitt (unat b) = crc_table_ccitt_0 ! unat b" for b :: u8
    by (simp add: pgm_read_word_def crc_table_ccitt_def table_block)
  moreover have "xor_linear (\<lambda>b :: u8. crc_table_ccitt_0 ! unat b)"
    unfolding crc_table_ccitt_0_doubled by (rule xor_linear_table) simp
  ultimately have "xor_linear (\<lambda>b :: u8. pgm_read_word crc_table_ccitt (unat b))" by simp
  then have "xor_linear (\<lambda>c :: u16. pgm_read_word crc_table_ccitt (unat (ucast c :: u8)))"
    by (rule xor_linear_comp) (intro xor_lin)
  then show ?thesis
    unfolding ccitt_G_def [abs_def] by (intro xor_linear_xor xor_linear_drop_bit xor_linear_id)
qed

lemma ccitt_byte_G: "ccitt_byte c b = ccitt_G (c XOR ucast b)"
proof -
  have "drop_bit 8 (c XOR ucast b) = drop_bit 8 c" "ucast (c XOR ucast b) = (ucast c XOR b :: u8)"
    by (auto intro!: bit_word_eqI simp: bit_simps)
  then show ?thesis by (simp only: ccitt_byte_def ccitt_G_def byte_index)
qed

lemma crc16_shift: "n + k < 16 \<Longrightarrow> (crc16_bit ^^ k) (2 ^ n) = 2 ^ (n + k)"
proof (induction k)
  case (Suc k)
  have "crc16_bit (2 ^ m) = 2 ^ Suc m" if "Suc m < 16" for m
    using that by (auto intro!: bit_word_eqI simp: crc16_bit_def bit_simps)
  with Suc show ?case by simp
qed simp

lemma crc16_chain:
  "crc16_bit 0x8000 = 0x1021"
  "crc16_bit 0x1021 = 0x2042"
  "crc16_bit 0x2042 = 0x4084"
  "crc16_bit 0x4084 = 0x8108"
  "crc16_bit 0x8108 = 0x1231"
  "crc16_bit 0x1231 = 0x2462"
  "crc16_bit 0x2462 = 0x48c4"
  "crc16_bit 0x48c4 = 0x9188"
  by code_simp+

lemma crc16_table_chain:
  "ccitt_G 1 = swap16 0x1021"
  "ccitt_G 2 = swap16 0x2042"
  "ccitt_G 4 = swap16 0x4084"
  "ccitt_G 8 = swap16 0x8108"
  "ccitt_G 16 = swap16 0x1231"
  "ccitt_G 32 = swap16 0x2462"
  "ccitt_G 64 = swap16 0x48c4"
  "ccitt_G 128 = swap16 0x9188"
  by code_simp+

lemma crc16_step_basis:
  assumes "i < 8"
  shows "swap16 ((crc16_bit ^^ 8) (2 ^ (i + 8))) = ccitt_G (swap16 (2 ^ (i + 8)))"
proof -
  have "(crc16_bit ^^ 8) (2 ^ (i + 8)) = (crc16_bit ^^ Suc i) ((crc16_bit ^^ (7 - i)) (2 ^ (i + 8)))"
    using assms funpow_add [of "Suc i" "7 - i" crc16_bit] by (simp del: funpow.simps)
  also have "(crc16_bit ^^ (7 - i)) (2 ^ (i + 8)) = 0x8000"
    using crc16_shift [of "i + 8" "7 - i"] assms by simp
  finally have *: "(crc16_bit ^^ 8) (2 ^ (i + 8)) = (crc16_bit ^^ Suc i) 0x8000" .
  have "swap16 (2 ^ (i + 8)) = 2 ^ i"
    using assms by (auto intro!: bit_word_eqI simp: bit_simps)
  moreover have "swap16 ((crc16_bit ^^ Suc i) 0x8000) = ccitt_G (2 ^ i)"
  proof -
    have "i \<in> {0, 1, 2, 3, 4, 5, 6, 7}" using assms by auto
    then show ?thesis by (auto simp: funpow_numeral crc16_chain crc16_table_chain)
  qed
  ultimately show ?thesis by (simp only: *)
qed

lemma crc16_low_basis:
  assumes "i < 8"
  shows "swap16 ((crc16_bit ^^ 8) (2 ^ i)) = ccitt_G (swap16 (2 ^ i))"
proof -
  have "swap16 (2 ^ (i + 8)) = 2 ^ i" "swap16 (2 ^ i) = 2 ^ (i + 8)"
    using assms by (auto intro!: bit_word_eqI simp: bit_simps)
  moreover have "(ucast (2 ^ (i + 8) :: u16) :: u8) = 0" "drop_bit 8 (2 ^ (i + 8) :: u16) = 2 ^ i"
    using assms by (auto intro!: bit_word_eqI simp: bit_simps)
  moreover have "pgm_read_word crc_table_ccitt 0 = 0"
    using xor_linear_0 [OF T_linear(1)] ucast_inj_16 [of _ 0] by (simp add: ccitt_T_def)
  ultimately show ?thesis
    using assms by (simp add: crc16_shift ccitt_G_def)
qed

lemma crc16_step: "swap16 ((crc16_bit ^^ 8) c) = ccitt_G (swap16 c)"
proof (rule xor_linear_ext [of "\<lambda>c. swap16 ((crc16_bit ^^ 8) c)" "\<lambda>c. ccitt_G (swap16 c)"])
  show "xor_linear (\<lambda>c. swap16 ((crc16_bit ^^ 8) c))"
    by (rule xor_linear_comp) (intro xor_lin)+
  show "xor_linear (\<lambda>c. ccitt_G (swap16 c))"
    by (rule xor_linear_comp) (intro xor_lin)+
  fix i
  assume "i < LENGTH(16)"
  show "swap16 ((crc16_bit ^^ 8) (2 ^ i)) = ccitt_G (swap16 (2 ^ i))"
  proof (cases "i < 8")
    case False
    define j where "j = i - 8"
    from False \<open>i < LENGTH(16)\<close> have "i = j + 8" "j < 8" by (simp_all add: j_def)
    with crc16_step_basis show ?thesis by simp
  qed (rule crc16_low_basis)
qed

lemma ccitt_fold:
  "foldl ccitt_byte (swap16 c) data =
   swap16 (foldl (\<lambda>c b. (crc16_bit ^^ 8) (c XOR push_bit 8 (ucast b))) c data)"
proof (induction data arbitrary: c)
  case (Cons b data)
  have "ccitt_byte (swap16 c) b = swap16 ((crc16_bit ^^ 8) (c XOR push_bit 8 (ucast b)))"
    by (simp only: ccitt_byte_G swap16_xor [symmetric] crc16_step)
  then show ?case by (simp only: foldl.simps Cons)
qed simp

lemma ccitt_is_crc16: "ccitt a data = crc16_spec data"
proof -
  have "swap16 0xffff = 0xffff" by code_simp
  then have "foldl ccitt_byte 0xffff data = swap16 (crc16_spec data)"
    using ccitt_fold [of "0xffff" data] by (simp add: crc16_spec_def)
  then show ?thesis by (simp add: ccitt_def ccitt_upd_bytes swap16_swap16 flip: swap16_def)
qed

lemma crc32_is_crc32: "crc32 beyond a data = crc32_spec data"
  by (simp add: crc32_def crc32_upd_bytes crc32_spec_def crc32_step crc32_byte_shift8 [abs_def])

text \<open>
  C19. Both table-driven routines compute the bitwise checksum that their parameter lines name,
  for every number of bytes, at every address, and whatever lies in memory behind the table.
\<close>

theorem checksums_reference:
  "ccitt a bytes = crc16_spec bytes \<and> crc32 behind a bytes = crc32_spec bytes"
  by (simp add: ccitt_is_crc16 crc32_is_crc32)

end
