(* ===== verification/Sdk_Protocol.thy ===== *)
theory Sdk_Protocol
  imports Crc_Spec
begin

text \<open>
  \<open>src/src/Livox-SDK2/sdk_core/comm/sdk_protocol.cpp\<close>, \<open>comm_port.cpp\<close> and \<open>generate_seq.cpp\<close>:
  how the host frames its commands to a lidar and checks the frames that come back. A buffer is
  the list of the bytes that may be accessed behind its pointer; an access outside it is \<open>None\<close>.
  The packed structures are little-endian byte sequences; \<open>sizeof(SdkPreamble)\<close> is 24 and
  \<open>sizeof(SdkPacket)\<close> is 25.
\<close>

section \<open>Bytes of a buffer\<close>

definition le16 :: "u16 \<Rightarrow> u8 list" where
  "le16 w = [ucast w, ucast (drop_bit 8 w)]"

definition le32 :: "u32 \<Rightarrow> u8 list" where
  "le32 w = [ucast w, ucast (drop_bit 8 w), ucast (drop_bit 16 w), ucast (drop_bit 24 w)]"

definition write_at :: "nat \<Rightarrow> u8 list \<Rightarrow> u8 list \<Rightarrow> u8 list option" where
  "write_at off bs buf =
    (if off + length bs \<le> length buf
     then Some (take off buf @ bs @ drop (off + length bs) buf) else None)"

definition read_at :: "nat \<Rightarrow> nat \<Rightarrow> u8 list \<Rightarrow> u8 list option" where
  "read_at off n buf = (if off + n \<le> length buf then Some (take n (drop off buf)) else None)"

definition get8 :: "nat \<Rightarrow> u8 list \<Rightarrow> u8 option" where
  "get8 off buf = map_option (\<lambda>bs. bs ! 0) (read_at off 1 buf)"

definition get16 :: "nat \<Rightarrow> u8 list \<Rightarrow> u16 option" where
  "get16 off buf =
    map_option (\<lambda>bs. ucast (bs ! 0) OR push_bit 8 (ucast (bs ! 1))) (read_at off 2 buf)"

definition get32 :: "nat \<Rightarrow> u8 list \<Rightarrow> u32 option" where
  "get32 off buf = map_option (\<lambda>bs. load32 bs 0) (read_at off 4 buf)"

section \<open>Frames\<close>

definition kLidarSdk :: u8 where "kLidarSdk = 0"
definition kSdkProtocolSof :: u8 where "kSdkProtocolSof = 0xAA"
definition kSdkVer :: u8 where "kSdkVer = 0"

record CommPacket =
  protocol :: u8
  version :: u8
  seq_num :: u32
  cmd_id :: u16
  cmd_type :: u8
  sender_type :: u8
  data :: "u8 list"
  data_len :: u16

definition GetPreambleLen :: u32 where "GetPreambleLen = 24"
definition GetPacketWrapperLen :: u32 where "GetPacketWrapperLen = 25 - 1"

text \<open>
  What the checksums need of the host: where the buffer and the payload lie in memory, and the
  bytes behind the table (see \<open>Fast_Crc\<close>).
\<close>

record crc_host =
  beyond :: u32
  buf_addr :: nat
  data_addr :: nat

definition Pack ::
  "crc_host \<Rightarrow> u32 \<Rightarrow> CommPacket \<Rightarrow> u8 list \<Rightarrow> (int \<times> u8 list \<times> u32 option) option" where
  "Pack h o_buf_size p o_buf =
    (if protocol p \<noteq> kLidarSdk then Some (-1, o_buf, None)
     else do {
       o_buf \<leftarrow> write_at 0 [kSdkProtocolSof] o_buf;
       o_buf \<leftarrow> write_at 1 [kSdkVer] o_buf;
       let len = (ucast (ucast (data_len p) + GetPacketWrapperLen) :: u16);
       o_buf \<leftarrow> write_at 2 (le16 len) o_buf;
       if ucast len > o_buf_size then Some (-1, o_buf, None)
       else do {
         o_buf \<leftarrow> write_at 4 (le32 (seq_num p AND 0xFFFF)) o_buf;
         o_buf \<leftarrow> write_at 8 (le16 (cmd_id p)) o_buf;
         o_buf \<leftarrow> write_at 10 [cmd_type p] o_buf;
         o_buf \<leftarrow> write_at 11 [sender_type p] o_buf;
         header \<leftarrow> read_at 0 18 o_buf;
         o_buf \<leftarrow> write_at 18 (le16 (ccitt (buf_addr h) header)) o_buf;
         payload \<leftarrow> read_at 0 (unat (data_len p)) (data p);
         let crc = (if data_len p = 0 then 0 else crc32 (beyond h) (data_addr h) payload);
         o_buf \<leftarrow> write_at 20 (le32 crc) o_buf;
         o_buf \<leftarrow> write_at 24 payload o_buf;
         Some (0, o_buf, Some (ucast len))
       }
     })"

definition ParsePacket :: "u8 list \<Rightarrow> u32 \<Rightarrow> (bool \<times> CommPacket option) option" where
  "ParsePacket i_buf buf_size =
    (if buf_size < GetPacketWrapperLen then Some (False, None)
     else do {
       ver \<leftarrow> get8 1 i_buf;
       seq \<leftarrow> get32 4 i_buf;
       cmd \<leftarrow> get16 8 i_buf;
       typ \<leftarrow> get8 10 i_buf;
       sender \<leftarrow> get8 11 i_buf;
       len \<leftarrow> get16 2 i_buf;
       Some (True, Some \<lparr>protocol = kLidarSdk, version = ver, seq_num = seq, cmd_id = cmd,
         cmd_type = typ, sender_type = sender, data = drop 24 i_buf,
         data_len = ucast (ucast len - GetPacketWrapperLen)\<rparr>)
     })"

definition CheckPreamble :: "crc_host \<Rightarrow> u8 list \<Rightarrow> u32 \<Rightarrow> bool option" where
  "CheckPreamble h buf buf_size =
    (if buf_size < GetPreambleLen then Some False
     else do {
       sof \<leftarrow> get8 0 buf;
       if sof \<noteq> kSdkProtocolSof then Some False
       else do {
         ver \<leftarrow> get8 1 buf;
         if ver \<noteq> kSdkVer then Some False
         else do {
           len \<leftarrow> get16 2 buf;
           if ucast len < GetPreambleLen then Some False
           else do {
             header \<leftarrow> read_at 0 18 buf;
             crc16_h \<leftarrow> get16 18 buf;
             if crc16_h \<noteq> ccitt (buf_addr h) header then Some False
             else do {
               crc32_h \<leftarrow> get32 20 buf;
               let n = ucast len - GetPacketWrapperLen;
               if n = 0 then Some (crc32_h = 0)
               else do {
                 payload \<leftarrow> read_at 24 (unat n) buf;
                 Some (crc32_h = crc32 (beyond h) (buf_addr h + 24) payload)
               }
             }
           }
         }
       }
     })"

definition ParseCommStream ::
  "crc_host \<Rightarrow> u8 list \<Rightarrow> u32 \<Rightarrow> (bool \<times> CommPacket option) option" where
  "ParseCommStream h buf buf_size = do {
     ok \<leftarrow> CheckPreamble h buf buf_size;
     if \<not> ok then Some (False, None) else ParsePacket buf buf_size
   }"

section \<open>Sequence numbers\<close>

text \<open>\<open>GetSeq\<close>: the counter is the state; the compare-and-exchange loop makes a call one step.\<close>

definition GetSeq :: "u32 \<Rightarrow> u32 \<times> u32" where
  "GetSeq seq = (let desired = (if seq = 0xFFFF then 1 else seq + 1) in (desired, desired))"

primrec GetSeqs :: "nat \<Rightarrow> u32 \<Rightarrow> u32 list" where
  "GetSeqs 0 seq = []"
| "GetSeqs (Suc n) seq = (let (v, seq) = GetSeq seq in v # GetSeqs n seq)"

section \<open>Lemmas on the buffer accesses\<close>

lemma le_lengths [simp]: "length (le16 w) = 2" "length (le32 d) = 4"
  by (simp_all add: le16_def le32_def)

lemma load_le16 [simp]: "ucast (le16 w ! 0) OR push_bit 8 (ucast (le16 w ! Suc 0)) = (w :: u16)"
proof (rule bit_word_eqI)
  fix n :: nat
  assume "n < LENGTH(16)"
  then show "bit ((ucast (le16 w ! 0) :: u16) OR push_bit 8 (ucast (le16 w ! Suc 0))) n = bit w n"
    by (cases "n < 8") (auto simp: le16_def bit_simps)
qed

lemma load_le32 [simp]: "load32 (le32 d) 0 = d"
  by (simp add: load32_chunk le32_def chunk_of_bytes)

lemma read_at_append:
  "off + n \<le> length xs \<Longrightarrow> read_at off n (xs @ ys) = read_at off n xs"
  "length xs \<le> off \<Longrightarrow> read_at off n (xs @ ys) = read_at (off - length xs) n ys"
  by (auto simp: read_at_def)

lemma read_at_0 [simp]: "read_at 0 n bs = Some bs \<longleftrightarrow> n = length bs"
  by (auto simp: read_at_def)

section \<open>The frame\<close>

definition header18 :: "CommPacket \<Rightarrow> u8 list \<Rightarrow> u8 list" where
  "header18 p rsvd = [kSdkProtocolSof, kSdkVer] @ le16 (data_len p + 24)
    @ le32 (seq_num p AND 0xFFFF) @ le16 (cmd_id p) @ [cmd_type p, sender_type p] @ rsvd"

definition payload :: "CommPacket \<Rightarrow> u8 list" where
  "payload p = take (unat (data_len p)) (data p)"

definition payload_crc :: "u8 list \<Rightarrow> u32" where
  "payload_crc bs = (if bs = [] then 0 else crc32_spec bs)"

definition front :: "CommPacket \<Rightarrow> u8 list \<Rightarrow> u32 \<Rightarrow> u8 list" where
  "front p rsvd c = header18 p rsvd @ le16 (crc16_spec (header18 p rsvd)) @ le32 c"

definition frame :: "CommPacket \<Rightarrow> u8 list \<Rightarrow> u8 list" where
  "frame p rsvd = front p rsvd (payload_crc (payload p)) @ payload p"

definition fits :: "CommPacket \<Rightarrow> bool" where
  "fits p \<longleftrightarrow> unat (data_len p) \<le> length (data p) \<and> unat (data_len p) + 24 < 65536"

lemma split24:
  assumes "24 \<le> length buf"
  shows "buf = [buf ! 0, buf ! 1, buf ! 2, buf ! 3, buf ! 4, buf ! 5, buf ! 6, buf ! 7,
    buf ! 8, buf ! 9, buf ! 10, buf ! 11, buf ! 12, buf ! 13, buf ! 14, buf ! 15,
    buf ! 16, buf ! 17, buf ! 18, buf ! 19, buf ! 20, buf ! 21, buf ! 22, buf ! 23] @ drop 24 buf"
proof -
  have "[0..<24] = [0, 1, 2, 3, 4, 5, 6, 7, 8, 9, 10, 11, 12, 13, 14, 15, 16, 17, 18, 19, 20, 21,
    22, 23]" by code_simp
  moreover have "take 24 buf = map ((!) buf) [0..<24]"
    using assms by (intro nth_equalityI) auto
  ultimately show ?thesis
    using append_take_drop_id [of 24 buf] by (simp only: list.map)
qed

lemma unat_ucast_16_32: "unat (ucast w :: u32) = unat w" for w :: u16
proof -
  have "unat w < 2 ^ LENGTH(16)" by (rule unsigned_less)
  then show ?thesis by (simp add: unsigned_ucast_eq take_bit_nat_eq_self)
qed

lemma length_field:
  assumes "unat n + 24 < 65536"
  shows "(ucast (ucast n + GetPacketWrapperLen) :: u16) = n + 24" "unat (n + 24) = unat n + 24"
proof -
  have "unat (ucast n + 24 :: u32) = unat n + 24"
    using assms by (simp add: unat_word_ariths unat_ucast_16_32)
  moreover show "unat (n + 24) = unat n + 24"
    using assms by (simp add: unat_word_ariths)
  ultimately show "(ucast (ucast n + GetPacketWrapperLen) :: u16) = n + 24"
    using assms
    unfolding word_unat_eq_iff
    by (simp add: GetPacketWrapperLen_def unsigned_ucast_eq take_bit_nat_eq_self)
qed

text \<open>A buffer of 24 bytes written field by field.\<close>

lemma write_payload:
  assumes "length xs = 24" "length bs \<le> length ys"
  shows "write_at 24 bs (xs @ ys) = Some (xs @ bs @ drop (length bs) ys)"
  using assms by (simp add: write_at_def)

lemma payload_length: "fits p \<Longrightarrow> length (payload p) = unat (data_len p)"
  by (simp add: fits_def payload_def)

lemma read_payload: "fits p \<Longrightarrow> read_at 0 (unat (data_len p)) (data p) = Some (payload p)"
  by (simp add: fits_def payload_def read_at_def)

lemma drop_24_more:
  "drop (24 + n) (c0 # c1 # c2 # c3 # c4 # c5 # c6 # c7 # c8 # c9 # c10 # c11 #
    c12 # c13 # c14 # c15 # c16 # c17 # c18 # c19 # c20 # c21 # c22 # c23 # rest) = drop n rest"
proof -
  have "drop (24 + n) xs = drop n (drop 24 xs)" for xs :: "'a list"
    by (simp add: add.commute)
  then show ?thesis by (simp only:) simp
qed

theorem Pack_frame:
  assumes "protocol p = kLidarSdk" and fits: "fits p"
    and "unat (data_len p) + 24 \<le> unat cap" and "unat cap \<le> length buf"
  shows "Pack h cap p buf = Some (0, frame p (take 6 (drop 12 buf)) @ drop (unat (data_len p) + 24) buf,
    Some (ucast (data_len p + 24)))"
proof -
  have small: "unat (data_len p) + 24 < 65536" using fits by (simp add: fits_def)
  note len = length_field [OF small]
  have room: "\<not> cap < ucast (data_len p + 24)"
    using assms(3) len(2) small
    by (simp add: word_less_nat_alt unsigned_ucast_eq take_bit_nat_eq_self del: unat_of_byte)
  define rest where "rest = drop 24 buf"
  have buf24: "24 \<le> length buf" and rest: "unat (data_len p) \<le> length rest"
    using assms(3,4) by (simp_all add: rest_def)
  have rsvd: "take 6 (drop 12 buf) = [buf ! 12, buf ! 13, buf ! 14, buf ! 15, buf ! 16, buf ! 17]"
    by (subst (1) split24 [OF buf24]) simp
  have tail: "drop (unat (data_len p) + 24) buf = drop (unat (data_len p)) rest"
    by (simp add: rest_def add.commute)
  have empty: "payload p = [] \<longleftrightarrow> data_len p = 0"
    using payload_length [OF fits] by (metis length_0_conv unat_eq_zero)
  have Pack: "Pack h cap p ([b0, b1, b2, b3, b4, b5, b6, b7, b8, b9, b10, b11, b12, b13, b14, b15,
      b16, b17, b18, b19, b20, b21, b22, b23] @ rest) =
    Some (0, frame p [b12, b13, b14, b15, b16, b17] @ drop (unat (data_len p)) rest,
      Some (ucast (data_len p + 24)))"
    for b0 b1 b2 b3 b4 b5 b6 b7 b8 b9 b10 b11 b12 b13 b14 b15 b16 b17 b18 b19 b20 b21 b22 b23
  proof -
    define ln sq where "ln = data_len p + 24" and "sq = seq_num p AND 0xFFFF"
    define bs where "bs = payload p"
    have lbs: "length bs \<le> length rest" "length bs = unat (data_len p)" "bs = [] \<longleftrightarrow> data_len p = 0"
      using rest payload_length [OF fits] empty by (simp_all add: bs_def)
    show ?thesis
      unfolding Pack_def frame_def front_def header18_def len(1) read_payload [OF fits]
      unfolding ln_def [symmetric] sq_def [symmetric] bs_def [symmetric]
      using room lbs
      by (simp add: assms(1) write_at_def read_at_def le16_def le32_def Let_def ln_def [symmetric]
          ccitt_is_crc16 crc32_is_crc32 payload_crc_def drop_24_more)
  qed
  show ?thesis
    unfolding rsvd tail by (subst (1) split24 [OF buf24]) (simp only: Pack rest_def [symmetric])
qed

section \<open>Checking a frame\<close>

lemma front_length: "length rsvd = 6 \<Longrightarrow> length (front p rsvd c) = 24"
  by (simp add: front_def header18_def)

lemma get16_le16: "get16 off (xs @ le16 w @ ys) = Some w" if "off = length xs"
  using that by (simp add: get16_def read_at_def)

lemma get32_le32: "get32 off (xs @ le32 w @ ys) = Some w" if "off = length xs"
  using that by (simp add: get32_def read_at_def)

lemma get8_cons: "get8 off (xs @ b # ys) = Some b" if "off = length xs"
  using that by (simp add: get8_def read_at_def)

lemma read_at_mid: "read_at off n (xs @ bs @ ys) = Some bs" if "off = length xs" "n = length bs"
  using that by (simp add: read_at_def)

text \<open>The 24 bytes in front of the data, read back.\<close>

lemma front_fields:
  assumes "length rsvd = 6"
  shows "get8 0 (front p rsvd c @ trail) = Some kSdkProtocolSof"
    "get8 1 (front p rsvd c @ trail) = Some kSdkVer"
    "get16 2 (front p rsvd c @ trail) = Some (data_len p + 24)"
    "get32 4 (front p rsvd c @ trail) = Some (seq_num p AND 0xFFFF)"
    "get16 8 (front p rsvd c @ trail) = Some (cmd_id p)"
    "get8 10 (front p rsvd c @ trail) = Some (cmd_type p)"
    "get8 11 (front p rsvd c @ trail) = Some (sender_type p)"
    "read_at 0 18 (front p rsvd c @ trail) = Some (header18 p rsvd)"
    "get16 18 (front p rsvd c @ trail) = Some (crc16_spec (header18 p rsvd))"
    "get32 20 (front p rsvd c @ trail) = Some c"
proof -
  let ?h = "header18 p rsvd"
  let ?a = "[kSdkProtocolSof, kSdkVer]"
  let ?b = "?a @ le16 (data_len p + 24)"
  let ?c = "?b @ le32 (seq_num p AND 0xFFFF)"
  let ?d = "?c @ le16 (cmd_id p)"
  let ?e = "?h @ le16 (crc16_spec ?h)"
  have h: "length ?h = 18" using assms by (simp add: header18_def)
  show "get8 0 (front p rsvd c @ trail) = Some kSdkProtocolSof"
    using get8_cons [of 0 "[]"] by (simp add: front_def header18_def)
  show "get8 1 (front p rsvd c @ trail) = Some kSdkVer"
    using get8_cons [of 1 "[kSdkProtocolSof]"] by (simp add: front_def header18_def)
  show "get16 2 (front p rsvd c @ trail) = Some (data_len p + 24)"
    using get16_le16 [of 2 ?a] by (simp add: front_def header18_def)
  show "get32 4 (front p rsvd c @ trail) = Some (seq_num p AND 0xFFFF)"
    using get32_le32 [of 4 ?b] by (simp add: front_def header18_def)
  show "get16 8 (front p rsvd c @ trail) = Some (cmd_id p)"
    using get16_le16 [of 8 ?c] by (simp add: front_def header18_def)
  show "get8 10 (front p rsvd c @ trail) = Some (cmd_type p)"
    using get8_cons [of 10 ?d] by (simp add: front_def header18_def)
  show "get8 11 (front p rsvd c @ trail) = Some (sender_type p)"
    using get8_cons [of 11 "?d @ [cmd_type p]"] by (simp add: front_def header18_def)
  show "read_at 0 18 (front p rsvd c @ trail) = Some ?h"
    using read_at_mid [of 0 "[]" 18 ?h] h by (simp add: front_def)
  show "get16 18 (front p rsvd c @ trail) = Some (crc16_spec ?h)"
    using get16_le16 [of 18 ?h] h by (simp add: front_def)
  show "get32 20 (front p rsvd c @ trail) = Some c"
    using get32_le32 [of 20 ?e] h by (simp add: front_def)
qed

lemma wrapper_of_length:
  fixes n :: u16
  assumes "unat n + 24 < 65536"
  shows "\<not> ucast (n + 24) < GetPreambleLen" "ucast (n + 24) - GetPacketWrapperLen = (ucast n :: u32)"
proof -
  have "unat (ucast (n + 24) :: u32) = unat n + 24" "unat (ucast n :: u32) = unat n"
    by (simp_all only: unat_ucast_16_32 length_field(2) [OF assms])
  then show "\<not> ucast (n + 24) < GetPreambleLen"
    "ucast (n + 24) - GetPacketWrapperLen = (ucast n :: u32)"
    using assms
    by (simp_all add: GetPreambleLen_def GetPacketWrapperLen_def word_less_nat_alt
        word_unat_eq_iff unat_sub word_le_nat_alt del: unat_of_byte)
qed

lemma CheckPreamble_front:
  assumes "unat (data_len p) + 24 < 65536" "length rsvd = 6" "\<not> cap < GetPreambleLen"
  shows "CheckPreamble h (front p rsvd c @ trail) cap =
    (if unat (data_len p) \<le> length trail
     then Some (c = payload_crc (take (unat (data_len p)) trail)) else None)"
proof -
  have "unat (ucast (data_len p) :: u32) = unat (data_len p)" by (rule unat_ucast_16_32)
  moreover have "(ucast (data_len p) :: u32) = 0 \<longleftrightarrow> data_len p = 0"
    by (metis unat_eq_zero unat_ucast_16_32)
  moreover have "take (unat (data_len p)) trail = [] \<longleftrightarrow> data_len p = 0"
    if "unat (data_len p) \<le> length trail" using that by (auto simp: unat_eq_zero)
  moreover have "read_at 24 n (front p rsvd c @ trail) =
      (if n \<le> length trail then Some (take n trail) else None)" for n
    by (simp add: read_at_def front_length assms(2))
  ultimately show ?thesis
    by (auto simp: CheckPreamble_def assms(3) front_fields [OF assms(2)] payload_crc_def
        wrapper_of_length [OF assms(1)] ccitt_is_crc16 crc32_is_crc32 simp del: One_nat_def)
qed

lemma frame_roundtrip:
  assumes "fits p" "length rsvd = 6" "\<not> cap < GetPreambleLen"
  shows "ParseCommStream h (frame p rsvd @ trail) cap =
    Some (True, Some (p\<lparr>protocol := kLidarSdk, version := kSdkVer, seq_num := seq_num p AND 0xFFFF,
      data := payload p @ trail\<rparr>))"
proof -
  have small: "unat (data_len p) + 24 < 65536" using assms(1) by (simp add: fits_def)
  have "\<not> cap < GetPacketWrapperLen"
    using assms(3) by (simp add: GetPreambleLen_def GetPacketWrapperLen_def)
  moreover have "ucast (ucast (data_len p) :: u32) = data_len p"
    by (rule bit_word_eqI) (auto simp: bit_simps)
  moreover have "\<lparr>protocol = kLidarSdk, version = kSdkVer, seq_num = q, cmd_id = cmd_id p,
      cmd_type = cmd_type p, sender_type = sender_type p, data = d, data_len = data_len p\<rparr> =
    p\<lparr>protocol := kLidarSdk, version := kSdkVer, seq_num := q, data := d\<rparr>" for q d
    by (cases p) simp
  ultimately show ?thesis
    using payload_length [OF assms(1)]
    by (simp add: ParseCommStream_def frame_def CheckPreamble_front [OF small assms(2,3)]
        ParsePacket_def front_fields [OF assms(2)] wrapper_of_length [OF small]
        front_length [OF assms(2)] del: One_nat_def)
qed

text \<open>Two data blocks that differ only within four neighbouring bytes have different checksums.\<close>

lemma crc32_bit_inj: "crc32_bit c = 0 \<Longrightarrow> c = 0"
proof -
  assume "crc32_bit c = 0"
  moreover have "\<not> bit (drop_bit 1 c) 31"
    using bit_imp_le_length [of c 32] by (auto simp: bit_simps)
  moreover have "bit (0xedb88320 :: u32) 31" by simp
  ultimately have even: "\<not> bit c 0" and "drop_bit 1 c = 0"
    by (auto simp: crc32_bit_def bit_simps dest: arg_cong [where f = "\<lambda>w. bit w 31"] split: if_splits)
  have "\<not> bit c n" for n
  proof (cases n)
    case (Suc m)
    then show ?thesis
      using arg_cong [OF \<open>drop_bit 1 c = 0\<close>, of "\<lambda>w. bit w m"] by (simp add: bit_simps)
  qed (use even in simp)
  then show "c = 0" by (simp add: bit_eq_iff)
qed

lemma xor_cancel: "c XOR b = d XOR b \<longleftrightarrow> c = d" for b c d :: "'a::len word"
  by (auto simp: bit_eq_iff bit_xor_iff)

lemma shift8_inj: "shift8 (crc32_T 0) c = shift8 (crc32_T 0) d \<longleftrightarrow> c = d"
proof
  assume "shift8 (crc32_T 0) c = shift8 (crc32_T 0) d"
  then have "(crc32_bit ^^ 8) (c XOR d) = 0"
    by (simp add: crc32_step xor_linearD [OF xor_linear_shift8 [OF T_linear(5)]])
  moreover have "(crc32_bit ^^ n) e = 0 \<Longrightarrow> e = 0" for n e
    by (induction n) (auto dest: crc32_bit_inj)
  ultimately have "c XOR d = 0" by blast
  then show "c = d" using xor_cancel [of c d d] by simp
qed simp

definition crc32_fold :: "u32 \<Rightarrow> u8 list \<Rightarrow> u32" where
  "crc32_fold = foldl (\<lambda>c b. shift8 (crc32_T 0) (c XOR ucast b))"

lemma crc32_spec_fold: "crc32_spec bs = NOT (crc32_fold 0xffffffff bs)"
  by (simp add: crc32_spec_def crc32_fold_def crc32_step)

lemma crc32_fold_inj: "crc32_fold c bs = crc32_fold d bs \<longleftrightarrow> c = d"
proof (induction bs arbitrary: c d)
  case (Cons b bs)
  then show ?case by (simp add: crc32_fold_def shift8_inj xor_cancel)
qed (simp add: crc32_fold_def)

lemma crc32_fold_four:
  assumes "length xs = 4" "length ys = 4" "crc32_fold c xs = crc32_fold c ys"
  shows "xs = ys"
proof -
  obtain x0 x1 x2 x3 y0 y1 y2 y3 where xy: "xs = [x0, x1, x2, x3]" "ys = [y0, y1, y2, y3]"
    using assms(1,2) by (auto simp: numeral_eq_Suc length_Suc_conv)
  have fold: "crc32_fold c [b0, b1, b2, b3] =
      shift8 (crc32_T 0) (shift8 (crc32_T 0) (shift8 (crc32_T 0) (shift8 (crc32_T 0)
        (c XOR chunk b0 b1 b2 b3))))" for b0 b1 b2 b3
    by (simp add: crc32_fold_def crc32.four_steps)
  from assms(3) have "c XOR chunk x0 x1 x2 x3 = c XOR chunk y0 y1 y2 y3"
    by (simp only: xy fold shift8_inj)
  then have eq: "chunk x0 x1 x2 x3 = chunk y0 y1 y2 y3"
    by (simp only: xor.commute [of c] xor_cancel)
  show ?thesis
    using arg_cong [OF eq, of "\<lambda>w. ucast w :: u8"] arg_cong [OF eq, of "\<lambda>w. ucast (drop_bit 8 w) :: u8"]
      arg_cong [OF eq, of "\<lambda>w. ucast (drop_bit 16 w) :: u8"]
      arg_cong [OF eq, of "\<lambda>w. ucast (drop_bit 24 w) :: u8"]
    by (simp add: xy)
qed

section \<open>Sequence numbers\<close>

lemma GetSeq_value:
  assumes "seq = of_nat (Suc k)" "k < 65535"
  shows "GetSeq seq = (of_nat (Suc (Suc k mod 65535)), of_nat (Suc (Suc k mod 65535)))"
proof (cases "k = 65534")
  case False
  then have "unat seq \<noteq> 0xFFFF"
    using assms by (simp add: unat_of_nat del: of_nat_Suc)
  then have "seq \<noteq> 0xFFFF" by auto
  with assms False show ?thesis by (simp add: GetSeq_def Let_def)
qed (use assms in \<open>simp add: GetSeq_def Let_def\<close>)

lemma GetSeqs_values:
  assumes "seq = of_nat (Suc k)" "k < 65535"
  shows "GetSeqs n seq = map (\<lambda>i. of_nat (Suc (Suc (k + i) mod 65535))) [0..<n]"
  using assms
proof (induction n arbitrary: seq k)
  case (Suc n)
  let ?k = "Suc k mod 65535"
  have "GetSeqs n (of_nat (Suc ?k)) = map (\<lambda>i. of_nat (Suc (Suc (?k + i) mod 65535))) [0..<n]"
    by (rule Suc.IH) simp_all
  also have "\<dots> = map (\<lambda>i. of_nat (Suc (Suc (k + Suc i) mod 65535))) [0..<n]"
  proof (intro map_cong refl)
    fix i
    have "Suc (?k + i) mod 65535 = (?k + Suc i) mod 65535" by simp
    also have "\<dots> = Suc (k + Suc i) mod 65535"
      using mod_add_left_eq [of "Suc k" 65535 "Suc i"] by simp
    finally show "of_nat (Suc (Suc (?k + i) mod 65535)) = of_nat (Suc (Suc (k + Suc i) mod 65535))"
      by simp
  qed
  finally show ?case
    using GetSeq_value [OF Suc.prems]
    by (simp del: of_nat_Suc upt_Suc add: upt_conv_Cons map_Suc_upt [symmetric] Let_def comp_def)
qed simp

lemma GetSeqs_range:
  assumes "1 \<le> unat seq" "unat seq \<le> 65535" "v \<in> set (GetSeqs n seq)"
  shows "1 \<le> unat v \<and> unat v \<le> 65535 \<and> v AND 0xFFFF = v"
proof -
  define k where "k = unat seq - 1"
  have "seq = of_nat (Suc k)" "k < 65535" using assms(1,2) by (simp_all add: k_def)
  from GetSeqs_values [OF this] assms(3) obtain i where v: "v = of_nat (Suc (Suc (k + i) mod 65535))"
    by auto
  have "unat v = Suc (Suc (k + i) mod 65535)"
    by (simp add: v unat_of_nat del: of_nat_Suc)
  moreover have "Suc (k + i) mod 65535 < 65535" by simp
  ultimately have "1 \<le> unat v" "unat v \<le> 65535" by linarith+
  moreover have "unat (v AND 0xFFFF) = unat v"
  proof -
    have "v AND 0xFFFF = take_bit 16 v" by (simp add: take_bit_eq_mask mask_eq_exp_minus_1)
    with \<open>unat v \<le> 65535\<close> show ?thesis by (simp add: unsigned_take_bit_eq take_bit_nat_eq_self)
  qed
  ultimately show ?thesis by (simp add: word_unat_eq_iff)
qed

lemma cancel_mod:
  fixes a i j m :: nat
  assumes "(a + i) mod m = (a + j) mod m" "i < m" "j < m"
  shows "i = j"
proof -
  have "j' \<le> i'" if "(a + i') mod m = (a + j') mod m" "j' < m" for i' j'
  proof (rule ccontr)
    assume "\<not> j' \<le> i'"
    with that have "m dvd (a + j') - (a + i')" by (metis mod_eq_dvd_iff_nat add_le_cancel_left linear)
    with that(2) \<open>\<not> j' \<le> i'\<close> show False by (auto dest: dvd_imp_le)
  qed
  from this [of i j] this [of j i] assms show ?thesis by simp
qed

lemma GetSeqs_distinct:
  assumes "1 \<le> unat seq" "unat seq \<le> 65535" "n \<le> 65535"
  shows "distinct (GetSeqs n seq)"
proof -
  define k where "k = unat seq - 1"
  have "seq = of_nat (Suc k)" "k < 65535" using assms(1,2) by (simp_all add: k_def)
  note vals = GetSeqs_values [OF this, of n]
  have "inj_on (\<lambda>i. of_nat (Suc (Suc (k + i) mod 65535)) :: u32) {0..<n}"
  proof (rule inj_onI)
    fix i j
    assume ij: "i \<in> {0..<n}" "j \<in> {0..<n}"
    assume "(of_nat (Suc (Suc (k + i) mod 65535)) :: u32) = of_nat (Suc (Suc (k + j) mod 65535))"
    then have "unat (of_nat (Suc (Suc (k + i) mod 65535)) :: u32) =
      unat (of_nat (Suc (Suc (k + j) mod 65535)) :: u32)" by simp
    moreover have "Suc (m mod 65535) < 2 ^ 32" for m
      using mod_less_divisor [of 65535 m] by simp
    ultimately have "Suc (k + i) mod 65535 = Suc (k + j) mod 65535"
      by (simp add: unat_of_nat take_bit_nat_eq_self del: of_nat_Suc)
    then have "(Suc k + i) mod 65535 = (Suc k + j) mod 65535" by simp
    moreover have "i < 65535" "j < 65535" using ij assms(3) by auto
    ultimately show "i = j"
      by (rule cancel_mod)
  qed
  then show ?thesis by (simp add: vals distinct_map)
qed

section \<open>Properties of the protocol\<close>

text \<open>
  C18. What \<open>Pack\<close> writes for a packet that fits, the receiver's \<open>ParseCommStream\<close> accepts and
  reads back field for field, wherever the two buffers lie: command, type, sender, the data and
  the low 16 bits of the sequence number. The frame is the data with 24 bytes in front.
\<close>

theorem Pack_parse:
  assumes "protocol p = kLidarSdk" "fits p" "unat (data_len p) + 24 \<le> unat cap"
    "unat cap \<le> length buf"
  shows "\<exists>buf' n. Pack h cap p buf = Some (0, buf', Some n) \<and> unat n = unat (data_len p) + 24 \<and>
    length buf' = length buf \<and>
    ParseCommStream h' (take (unat n) buf') n =
      Some (True, Some (p\<lparr>version := kSdkVer, seq_num := seq_num p AND 0xFFFF, data := payload p\<rparr>))"
proof -
  have small: "unat (data_len p) + 24 < 65536" using assms(2) by (simp add: fits_def)
  let ?r = "take 6 (drop 12 buf)" and ?n = "ucast (data_len p + 24) :: u32"
  have rsvd: "length ?r = 6" using assms(3,4) by simp
  have n: "unat ?n = unat (data_len p) + 24"
    by (simp only: unat_ucast_16_32 length_field(2) [OF small])
  have "length (frame p ?r) = unat ?n"
    by (simp add: frame_def front_length [OF rsvd] payload_length [OF assms(2)] n)
  moreover have "\<not> ?n < GetPreambleLen"
    by (simp add: word_less_nat_alt GetPreambleLen_def n)
  ultimately show ?thesis
    using frame_roundtrip [OF assms(2) rsvd, of ?n h' "[]"] Pack_frame [OF assms, of h] assms n
    by simp
qed

lemma Pack_parse_witness:
  fixes h :: crc_host
  defines "h \<equiv> \<lparr>beyond = 7, buf_addr = 1, data_addr = 2\<rparr>"
    and "p \<equiv> \<lparr>protocol = 0, version = 9, seq_num = 5, cmd_id = 0x100, cmd_type = 0, sender_type = 0,
      data = [1, 0, 26], data_len = 2\<rparr>"
  shows "\<exists>buf' n. Pack h 30 p (replicate 31 0) = Some (0, buf', Some n) \<and>
    ParseCommStream h (take (unat n) buf') n =
      Some (True, Some (p\<lparr>version := 0, data := [1, 0]\<rparr>))"
  using Pack_parse [of p 30 "replicate 31 0" h h]
  by (auto simp: p_def fits_def kLidarSdk_def kSdkVer_def payload_def)

text \<open>
  C20. A frame whose data is damaged within four neighbouring bytes, in any way, is refused.
\<close>

theorem damage_refused:
  assumes "fits p" "length rsvd = 6" "\<not> cap < GetPreambleLen"
    and "payload p = pre @ xs @ post" "length xs = 4" "length ys = 4" "xs \<noteq> ys"
  shows "CheckPreamble h (front p rsvd (payload_crc (payload p)) @ pre @ ys @ post @ trail) cap =
    Some False"
proof -
  have small: "unat (data_len p) + 24 < 65536" using assms(1) by (simp add: fits_def)
  have len: "unat (data_len p) = length (pre @ ys @ post)"
    using payload_length [OF assms(1)] assms(4-6) by simp
  have "crc32_spec (pre @ xs @ post) \<noteq> crc32_spec (pre @ ys @ post)"
  proof
    assume "crc32_spec (pre @ xs @ post) = crc32_spec (pre @ ys @ post)"
    then have "crc32_fold 0xffffffff (pre @ xs @ post) = crc32_fold 0xffffffff (pre @ ys @ post)"
      by (simp only: crc32_spec_fold bit.compl_eq_compl_iff)
    moreover have "crc32_fold c (bs @ ds) = crc32_fold (crc32_fold c bs) ds" for c bs ds
      by (simp add: crc32_fold_def)
    ultimately show False using crc32_fold_four [OF assms(5,6)] assms(7) by (simp add: crc32_fold_inj)
  qed
  moreover have "xs \<noteq> []" "ys \<noteq> []" using assms(5,6) by auto
  ultimately show ?thesis
    using CheckPreamble_front [OF small assms(2,3), of h _ "pre @ ys @ post @ trail"]
    by (simp add: len assms(4) payload_crc_def)
qed

lemma damage_refused_witness:
  fixes h :: crc_host
  defines "p \<equiv> \<lparr>protocol = 0, version = 0, seq_num = 5, cmd_id = 0x100, cmd_type = 0, sender_type = 0,
      data = [1, 2, 3, 4, 5], data_len = 5\<rparr>"
  shows "CheckPreamble \<lparr>beyond = 7, buf_addr = 1, data_addr = 2\<rparr>
    (front p [0, 0, 0, 0, 0, 0] (payload_crc [1, 2, 3, 4, 5]) @ [1, 2, 3, 255, 5]) 29 = Some False"
  using damage_refused [of p "[0, 0, 0, 0, 0, 0]" 29 "[1]" "[2, 3, 4, 5]" "[]" "[2, 3, 255, 5]"
      "\<lparr>beyond = 7, buf_addr = 1, data_addr = 2\<rparr>" "[]"]
  by (simp add: p_def fits_def payload_def GetPreambleLen_def)

text \<open>
  C21. \<open>CheckPreamble\<close> does not compare the length field with the number of bytes received, so
  a frame that was cut short after its header makes the checksum read behind the buffer.
\<close>

theorem truncated_overread:
  assumes "fits p" "length rsvd = 6" "24 \<le> k" "k < 24 + unat (data_len p)" "\<not> cap < GetPreambleLen"
  shows "CheckPreamble h (take k (frame p rsvd)) cap = None"
proof -
  have "unat (data_len p) + 24 < 65536" using assms(1) by (simp add: fits_def)
  then show ?thesis
    using assms CheckPreamble_front [of p rsvd cap h] payload_length [OF assms(1)]
    by (simp add: frame_def front_length)
qed

lemma truncated_overread_witness:
  defines "p \<equiv> \<lparr>protocol = 0, version = 0, seq_num = 5, cmd_id = 0x102, cmd_type = 0, sender_type = 1,
      data = [1, 2, 3, 4, 5], data_len = 5\<rparr>"
  shows "CheckPreamble \<lparr>beyond = 7, buf_addr = 1, data_addr = 2\<rparr>
    (take 24 (frame p [0, 0, 0, 0, 0, 0])) 24 = None"
  using truncated_overread [of p "[0, 0, 0, 0, 0, 0]" 24 24]
  by (simp add: p_def fits_def GetPreambleLen_def)

text \<open>
  From any state the counter can reach, the next 65535 calls of \<open>GetSeq\<close> return distinct
  numbers, none of them zero and each within the 16 bits that \<open>Pack\<close> puts into a frame.
\<close>

theorem GetSeq_unique:
  assumes "1 \<le> unat seq" "unat seq \<le> 65535" "n \<le> 65535"
  shows "distinct (GetSeqs n seq) \<and> (\<forall>v \<in> set (GetSeqs n seq). v \<noteq> 0 \<and> v AND 0xFFFF = v)"
  using GetSeqs_distinct [OF assms] GetSeqs_range [OF assms(1,2)] by fastforce

lemma GetSeq_unique_witness: "distinct (GetSeqs 65535 1)"
  using GetSeq_unique [of 1 65535] by simp

end
