(* ===== verification/Sync_Buffers.thy ===== *)
theory Sync_Buffers
  imports Complex_Main Prelude
begin

text \<open>
  The measurement buffers of the odometry node, \<open>src/src/fast_livo2/src/LIVMapper.cpp\<close>: what the
  subscription callbacks for point clouds, inertial messages and images store. A deque is a list
  with its front first. Times are seconds; a \<open>double\<close> is idealised as a real number. The content
  of a point, of an inertial message and of an image is a type parameter: none of the code here
  looks at it.
\<close>

section \<open>Data\<close>

datatype SLAM_MODE = ONLY_LO | ONLY_LIO | LIVO
datatype EKF_STATE = WAIT | VIO | LIO | LO

record 'p PointType =
  curvature :: real
  coordinates :: 'p

record 'i Imu =
  imu_stamp :: real
  imu_content :: 'i

record ('i, 'g) MeasureGroup =
  vio_time :: real
  lio_time :: real
  imu :: "'i Imu list"
  img :: "'g option"

definition new_MeasureGroup :: "('i, 'g) MeasureGroup" where
  "new_MeasureGroup = \<lparr>vio_time = 0, lio_time = 0, imu = [], img = None\<rparr>"

record ('p, 'i, 'g) LidarMeasureGroup =
  lidar_frame_beg_time :: real
  lidar_frame_end_time :: real
  last_lio_update_time :: real
  lidar :: "'p PointType list"
  pcl_proc_cur :: "'p PointType list"
  pcl_proc_next :: "'p PointType list"
  measures :: "('i, 'g) MeasureGroup list"
  lio_vio_flg :: EKF_STATE

definition new_LidarMeasureGroup :: "('p, 'i, 'g) LidarMeasureGroup" where
  "new_LidarMeasureGroup = \<lparr>lidar_frame_beg_time = 0, lidar_frame_end_time = 0,
    last_lio_update_time = -1, lidar = [], pcl_proc_cur = [], pcl_proc_next = [], measures = [],
    lio_vio_flg = WAIT\<rparr>"

text \<open>The configuration that \<open>readParameters\<close> and \<open>initializeComponents\<close> set up.\<close>

record mapper_config =
  lidar_en :: bool
  img_en :: bool
  imu_en :: bool
  exposure_time_init :: real
  img_time_offset :: real
  imu_time_offset :: real
  lidar_time_offset :: real
  ros_driver_fix_en :: bool
  hilti_en :: bool
  imu_prop_enable :: bool

definition slam_mode :: "mapper_config \<Rightarrow> SLAM_MODE" where
  "slam_mode c = (if img_en c \<and> lidar_en c then LIVO else if imu_en c then ONLY_LIO else ONLY_LO)"

record ('p, 'i, 'g) mapper =
  lid_raw_data_buffer :: "'p PointType list list"
  lid_header_time_buffer :: "real list"
  imu_buffer :: "'i Imu list"
  img_buffer :: "'g list"
  img_time_buffer :: "real list"
  last_timestamp_lidar :: real
  last_timestamp_imu :: real
  last_timestamp_img :: real
  lidar_pushed :: bool
  frame_counter :: int
  prop_imu_buffer :: "'i Imu list"
  newest_imu :: "'i Imu option"
  LidarMeasures :: "('p, 'i, 'g) LidarMeasureGroup"

definition mapper_init :: "('p, 'i, 'g) mapper" where
  "mapper_init = \<lparr>lid_raw_data_buffer = [], lid_header_time_buffer = [], imu_buffer = [],
    img_buffer = [], img_time_buffer = [], last_timestamp_lidar = -1, last_timestamp_imu = -1,
    last_timestamp_img = -1, lidar_pushed = False, frame_counter = 0, prop_imu_buffer = [],
    newest_imu = None, LidarMeasures = new_LidarMeasureGroup\<rparr>"

abbreviation upd_meas ::
  "(('p, 'i, 'g) LidarMeasureGroup \<Rightarrow> ('p, 'i, 'g) LidarMeasureGroup) \<Rightarrow>
    ('p, 'i, 'g) mapper \<Rightarrow> ('p, 'i, 'g) mapper" where
  "upd_meas f s \<equiv> s\<lparr>LidarMeasures := f (LidarMeasures s)\<rparr>"

text \<open>\<open>front()\<close> and \<open>back()\<close> of an empty deque, and a pop from it, are undefined.\<close>

definition front_of :: "'a list \<Rightarrow> 'a option" where
  "front_of xs = (case xs of [] \<Rightarrow> None | x # _ \<Rightarrow> Some x)"

definition back_of :: "'a list \<Rightarrow> 'a option" where
  "back_of xs = (if xs = [] then None else Some (last xs))"

definition pop_front :: "'a list \<Rightarrow> 'a list option" where
  "pop_front xs = (case xs of [] \<Rightarrow> None | _ # ys \<Rightarrow> Some ys)"

section \<open>Time stamps\<close>

text \<open>
  \<open>sec2Stamp\<close> splits a time into a 32-bit number of seconds and whole nanoseconds; \<open>None\<close> where
  the conversion to the integer is undefined or \<open>rclcpp::Time\<close> throws for a negative time.
\<close>

definition sec2Stamp :: "real \<Rightarrow> (int \<times> int) option" where
  "sec2Stamp timestamp =
    (let sec = \<lfloor>timestamp\<rfloor>;
         nanosec = \<lfloor>(timestamp - real_of_int \<lfloor>timestamp\<rfloor>) * 1000000000\<rfloor>
     in if sec < 0 \<or> sec \<ge> 2 ^ 31 then None else Some (sec, nanosec))"

definition stamp2Sec :: "int \<times> int \<Rightarrow> real" where
  "stamp2Sec st = (case st of (sec, nanosec) \<Rightarrow> of_int sec + of_int nanosec / 1000000000)"

text \<open>\<open>std::round\<close>: half-way cases away from zero.\<close>

definition round_away :: "real \<Rightarrow> real" where
  "round_away x = of_int (if 0 \<le> x then \<lfloor>x + 1 / 2\<rfloor> else \<lceil>x - 1 / 2\<rceil>)"

section \<open>Point clouds\<close>

definition MAX_LIDAR_BUFFER :: nat where "MAX_LIDAR_BUFFER = 3"

fun drop_old_frames :: "'a list \<Rightarrow> real list \<Rightarrow> ('a list \<times> real list) option" where
  "drop_old_frames clouds hdrs =
    (if length clouds > MAX_LIDAR_BUFFER then
       (case hdrs of [] \<Rightarrow> None | _ # ts \<Rightarrow> drop_old_frames (tl clouds) ts)
     else Some (clouds, hdrs))"

declare drop_old_frames.simps [simp del]

text \<open>The part the two callbacks share, for a cloud with header time \<open>cur_head_time\<close>.\<close>

definition store_cloud ::
  "real \<Rightarrow> 'p PointType list \<Rightarrow> ('p, 'i, 'g) mapper \<Rightarrow> ('p, 'i, 'g) mapper option" where
  "store_cloud cur_head_time cloud s = do {
     (clouds, hdrs) \<leftarrow> drop_old_frames (lid_raw_data_buffer s @ [cloud])
       (lid_header_time_buffer s @ [cur_head_time]);
     Some (s\<lparr>lid_raw_data_buffer := clouds, lid_header_time_buffer := hdrs,
       last_timestamp_lidar := cur_head_time\<rparr>)
   }"

definition loop_back :: "real \<Rightarrow> ('p, 'i, 'g) mapper \<Rightarrow> ('p, 'i, 'g) mapper" where
  "loop_back cur_head_time s =
    (if cur_head_time < last_timestamp_lidar s then s\<lparr>lid_raw_data_buffer := []\<rparr> else s)"

text \<open>The cloud is the result of \<open>Preprocess::process\<close> on the message.\<close>

definition standard_pcl_cbk ::
  "mapper_config \<Rightarrow> real \<Rightarrow> 'p PointType list \<Rightarrow> ('p, 'i, 'g) mapper \<Rightarrow> ('p, 'i, 'g) mapper option" where
  "standard_pcl_cbk c stamp cloud s =
    (if \<not> lidar_en c then Some s
     else let cur_head_time = stamp + lidar_time_offset c;
              s = loop_back cur_head_time s
          in store_cloud cur_head_time cloud s)"

definition livox_pcl_cbk ::
  "mapper_config \<Rightarrow> real \<Rightarrow> 'p PointType list \<Rightarrow> ('p, 'i, 'g) mapper \<Rightarrow> ('p, 'i, 'g) mapper option" where
  "livox_pcl_cbk c stamp cloud s =
    (if \<not> lidar_en c then Some s
     else let cur_head_time = stamp;
              s = loop_back cur_head_time s
          in if cloud = [] then Some s else store_cloud cur_head_time cloud s)"

section \<open>Inertial messages\<close>

text \<open>\<open>need_init\<close> is \<open>p_imu->imu_need_init\<close>.\<close>

definition imu_cbk ::
  "mapper_config \<Rightarrow> bool \<Rightarrow> 'i Imu \<Rightarrow> ('p, 'i, 'g) mapper \<Rightarrow> ('p, 'i, 'g) mapper option" where
  "imu_cbk c need_init msg_in s =
    (if \<not> imu_en c then Some s
     else if last_timestamp_lidar s < 0 then Some s
     else do {
       st \<leftarrow> sec2Stamp (imu_stamp msg_in - imu_time_offset c);
       let timestamp = stamp2Sec st;
       let timestamp = (if ros_driver_fix_en c
         then timestamp + round_away (last_timestamp_lidar s - timestamp) else timestamp);
       st \<leftarrow> sec2Stamp timestamp;
       let msg = msg_in\<lparr>imu_stamp := stamp2Sec st\<rparr>;
       if last_timestamp_imu s > 0 \<and> timestamp < last_timestamp_imu s then Some s
       else if last_timestamp_imu s > 0 \<and> timestamp > last_timestamp_imu s + 0.2 then Some s
       else
         let s = s\<lparr>last_timestamp_imu := timestamp, imu_buffer := imu_buffer s @ [msg]\<rparr>
         in Some (if imu_prop_enable c
           then s\<lparr>prop_imu_buffer := prop_imu_buffer s @ (if need_init then [] else [msg]),
             newest_imu := Some msg\<rparr>
           else s)
     })"

section \<open>Images\<close>

fun drop_old_images :: "'g list \<Rightarrow> real list \<Rightarrow> ('g list \<times> real list) option" where
  "drop_old_images imgs hdrs =
    (if length imgs > 1 then
       (case hdrs of [] \<Rightarrow> None | _ # ts \<Rightarrow> drop_old_images (tl imgs) ts)
     else Some (imgs, hdrs))"

declare drop_old_images.simps [simp del]

definition img_cbk ::
  "mapper_config \<Rightarrow> real \<Rightarrow> 'g \<Rightarrow> ('p, 'i, 'g) mapper \<Rightarrow> ('p, 'i, 'g) mapper option" where
  "img_cbk c stamp img_cur s =
    (if \<not> img_en c then Some s
     else
       let s = (if hilti_en c then s\<lparr>frame_counter := frame_counter s + 1\<rparr> else s);
           msg_header_time = stamp + img_time_offset c
       in if hilti_en c \<and> frame_counter s mod 4 \<noteq> 0 then Some s
       else if \<bar>msg_header_time - last_timestamp_img s\<bar> < 0.001 then Some s
       else if last_timestamp_lidar s < 0 then Some s
       else if msg_header_time < last_timestamp_img s then Some s
       else if msg_header_time - last_timestamp_img s < 0.05 then Some s
       else do {
         (imgs, hdrs) \<leftarrow> drop_old_images (img_buffer s @ [img_cur])
           (img_time_buffer s @ [msg_header_time]);
         Some (s\<lparr>img_buffer := imgs, img_time_buffer := hdrs,
           last_timestamp_img := msg_header_time\<rparr>)
       })"

section \<open>Deques\<close>

lemma deque_simps [simp]:
  "front_of (x # xs) = Some x" "front_of [] = None" "pop_front (x # xs) = Some xs"
  "pop_front [] = None" "back_of (xs @ [x]) = Some x" "back_of [] = None" "back_of (x # xs) = Some (last (x # xs))"
  by (simp_all add: front_of_def pop_front_def back_of_def)

lemma deque_some:
  "xs \<noteq> [] \<Longrightarrow> front_of xs = Some (hd xs)" "xs \<noteq> [] \<Longrightarrow> pop_front xs = Some (tl xs)"
  "xs \<noteq> [] \<Longrightarrow> back_of xs = Some (last xs)"
  by (cases xs; simp add: back_of_def)+

lemma drop_old_frames_drop:
  "length clouds = length hdrs \<Longrightarrow>
    drop_old_frames clouds hdrs = Some (drop (length clouds - 3) clouds, drop (length clouds - 3) hdrs)"
proof (induction clouds hdrs rule: drop_old_frames.induct)
  case (1 clouds hdrs)
  show ?case
  proof (cases "length clouds > MAX_LIDAR_BUFFER")
    case True
    with 1(2) obtain c cs h hs where *: "clouds = c # cs" "hdrs = h # hs" "length cs = length hs"
      by (cases clouds; cases hdrs) auto
    with True have "length clouds - 3 = Suc (length cs - 3)"
      by (simp add: MAX_LIDAR_BUFFER_def Suc_diff_le)
    with * True 1(1) [OF True *(2)] show ?thesis by (simp add: drop_old_frames.simps [of "c # cs"])
  qed (simp add: drop_old_frames.simps MAX_LIDAR_BUFFER_def)
qed

lemma drop_old_images_drop:
  "length imgs = length hdrs \<Longrightarrow>
    drop_old_images imgs hdrs = Some (drop (length imgs - 1) imgs, drop (length imgs - 1) hdrs)"
proof (induction imgs hdrs rule: drop_old_images.induct)
  case (1 imgs hdrs)
  show ?case
  proof (cases "length imgs > 1")
    case True
    with 1(2) obtain c cs h hs where *: "imgs = c # cs" "hdrs = h # hs" "length cs = length hs"
      by (cases imgs; cases hdrs) auto
    with True have "length imgs - 1 = Suc (length cs - 1)" "length hs = Suc (length hs - 1)" by auto
    with * True 1(1) [OF True *(2)] show ?thesis
      by (subst drop_old_images.simps) (simp del: One_nat_def add: drop_Cons')
  qed (simp add: drop_old_images.simps)
qed

section \<open>Time stamps\<close>

lemma stamp_floor:
  assumes "sec2Stamp t = Some st"
  shows "stamp2Sec st = of_int \<lfloor>t * 1000000000\<rfloor> / 1000000000"
proof -
  have "t * 1000000000 = of_int (\<lfloor>t\<rfloor> * 1000000000) + (t - of_int \<lfloor>t\<rfloor>) * 1000000000"
    by (simp add: algebra_simps)
  then have "\<lfloor>t * 1000000000\<rfloor> = \<lfloor>t\<rfloor> * 1000000000 + \<lfloor>(t - of_int \<lfloor>t\<rfloor>) * 1000000000\<rfloor>"
    by (metis floor_add_int add.commute)
  with assms show ?thesis
    by (auto simp: sec2Stamp_def Let_def stamp2Sec_def add_divide_distrib split: if_splits)
qed

lemma stamp_mono:
  "sec2Stamp t = Some st \<Longrightarrow> sec2Stamp t' = Some st' \<Longrightarrow> t \<le> t' \<Longrightarrow> stamp2Sec st \<le> stamp2Sec st'"
  by (simp add: stamp_floor divide_right_mono floor_mono)

lemma stamp_le: "sec2Stamp t = Some st \<Longrightarrow> stamp2Sec st \<le> t"
  by (simp add: stamp_floor pos_divide_le_eq)

lemma stamp_near: "sec2Stamp t = Some st \<Longrightarrow> t < stamp2Sec st + 1 / 1000000000"
proof -
  assume "sec2Stamp t = Some st"
  then have "stamp2Sec st * 1000000000 = of_int \<lfloor>t * 1000000000\<rfloor>" by (simp add: stamp_floor)
  moreover have "t * 1000000000 < of_int \<lfloor>t * 1000000000\<rfloor> + 1" by linarith
  ultimately show ?thesis by linarith
qed

lemma stamp_idem:
  assumes "sec2Stamp t = Some st" "sec2Stamp (stamp2Sec st) = Some st'"
  shows "stamp2Sec st' = stamp2Sec st"
proof -
  have "stamp2Sec st * 1000000000 = of_int \<lfloor>t * 1000000000\<rfloor>" by (simp add: stamp_floor [OF assms(1)])
  then have "\<lfloor>stamp2Sec st * 1000000000\<rfloor> = \<lfloor>t * 1000000000\<rfloor>" by simp
  then show ?thesis using stamp_floor [OF assms(1)] stamp_floor [OF assms(2)] by simp
qed

lemma stamp_defined: "0 \<le> t \<Longrightarrow> t < 2 ^ 31 \<Longrightarrow> \<exists>st. sec2Stamp t = Some st"
  by (simp add: sec2Stamp_def Let_def floor_less_iff le_floor_iff not_le not_less)

section \<open>The buffers stay in order\<close>

definition queues_ok :: "('p, 'i, 'g) mapper \<Rightarrow> bool" where
  "queues_ok s \<longleftrightarrow>
    length (lid_raw_data_buffer s) = length (lid_header_time_buffer s) \<and>
    length (lid_raw_data_buffer s) \<le> 3 \<and> [] \<notin> set (lid_raw_data_buffer s) \<and>
    sorted (lid_header_time_buffer s) \<and>
    (\<forall>t \<in> set (lid_header_time_buffer s). t \<le> last_timestamp_lidar s) \<and>
    length (img_buffer s) = length (img_time_buffer s) \<and> length (img_buffer s) \<le> 1 \<and>
    sorted (map imu_stamp (imu_buffer s)) \<and>
    (\<forall>m \<in> set (imu_buffer s). imu_stamp m \<le> last_timestamp_imu s \<and> 0 < last_timestamp_imu s)"

lemma queues_ok_init: "queues_ok mapper_init"
  by (simp add: queues_ok_def mapper_init_def)

lemma sorted_drop: "sorted xs \<Longrightarrow> sorted (drop n xs)" for xs :: "real list"
  by (simp add: sorted_wrt_drop)

lemma store_cloud_ok:
  assumes "queues_ok s" "cloud \<noteq> []" "last_timestamp_lidar s \<le> t"
  shows "\<exists>s'. store_cloud t cloud s = Some s' \<and> queues_ok s' \<and> last_timestamp_lidar s' = t \<and>
    imu_buffer s' = imu_buffer s \<and> last_timestamp_imu s' = last_timestamp_imu s"
proof -
  let ?c = "lid_raw_data_buffer s @ [cloud]" and ?h = "lid_header_time_buffer s @ [t]"
  have "sorted ?h" using assms by (force simp: queues_ok_def sorted_append)
  define n where "n = length ?c - 3"
  have len: "length ?c = length ?h" "[] \<notin> set ?c" "\<forall>u \<in> set ?h. u \<le> t" "length (drop n ?c) \<le> 3"
    using assms by (auto simp: queues_ok_def n_def)
  have "store_cloud t cloud s = Some (s\<lparr>lid_raw_data_buffer := drop n ?c,
      lid_header_time_buffer := drop n ?h, last_timestamp_lidar := t\<rparr>)"
    using drop_old_frames_drop [OF len(1)] by (simp add: store_cloud_def n_def)
  moreover have "sorted (drop n ?h)" using \<open>sorted ?h\<close> by (rule sorted_drop)
  moreover have "[] \<notin> set (drop n ?c)" "\<forall>u \<in> set (drop n ?h). u \<le> t"
    using len(2,3) by (blast dest: in_set_dropD)+
  ultimately show ?thesis
    using assms len(1,4) by (simp add: queues_ok_def)
qed

lemma livox_pcl_cbk_ok:
  assumes "queues_ok s" "last_timestamp_lidar s \<le> t"
  shows "\<exists>s'. livox_pcl_cbk c t cloud s = Some s' \<and> queues_ok s'"
  using assms store_cloud_ok [of s cloud t]
  by (cases "cloud = []") (auto simp: livox_pcl_cbk_def loop_back_def)

lemma img_cbk_ok:
  assumes "queues_ok s"
  shows "\<exists>s'. img_cbk c t g s = Some s' \<and> queues_ok s'"
  using assms by (auto simp: img_cbk_def Let_def queues_ok_def drop_old_images_drop)

text \<open>A message whose corrected time is within the range of a stamp.\<close>

definition good_time :: "mapper_config \<Rightarrow> 'i Imu \<Rightarrow> bool" where
  "good_time c m \<longleftrightarrow> 1 \<le> imu_stamp m - imu_time_offset c \<and> imu_stamp m - imu_time_offset c < 2 ^ 31"

definition imu_gap :: "real \<Rightarrow> ('p, 'i, 'g) mapper \<Rightarrow> bool" where
  "imu_gap t s \<longleftrightarrow>
    0 < last_timestamp_imu s \<and> (t < last_timestamp_imu s \<or> t > last_timestamp_imu s + 0.2)"

definition imu_accept ::
  "mapper_config \<Rightarrow> bool \<Rightarrow> real \<Rightarrow> 'i Imu \<Rightarrow> ('p, 'i, 'g) mapper \<Rightarrow> ('p, 'i, 'g) mapper" where
  "imu_accept c b t m s =
    (let msg = m\<lparr>imu_stamp := t\<rparr>; s = s\<lparr>last_timestamp_imu := t, imu_buffer := imu_buffer s @ [msg]\<rparr>
     in if imu_prop_enable c
        then s\<lparr>prop_imu_buffer := prop_imu_buffer s @ (if b then [] else [msg]), newest_imu := Some msg\<rparr>
        else s)"

lemma imu_cbk_cases:
  assumes "\<not> ros_driver_fix_en c" "good_time c m"
  obtains t where "0 < t" "t \<le> imu_stamp m - imu_time_offset c"
    "imu_stamp m - imu_time_offset c < t + 1 / 1000000000"
    "imu_cbk c b m s =
      Some (if \<not> imu_en c \<or> last_timestamp_lidar s < 0 \<or> imu_gap t s then s
        else imu_accept c b t m s)"
proof -
  define u where "u = imu_stamp m - imu_time_offset c"
  have u: "1 \<le> u" "u < 2 ^ 31" using assms(2) by (simp_all add: good_time_def u_def)
  obtain st where st: "sec2Stamp u = Some st" using stamp_defined [of u] u by auto
  have q: "stamp2Sec st \<le> u" "u < stamp2Sec st + 1 / 1000000000"
    using stamp_le [OF st] stamp_near [OF st] .
  then obtain st' where st': "sec2Stamp (stamp2Sec st) = Some st'"
    using stamp_defined [of "stamp2Sec st"] u by auto
  show ?thesis
    by (rule that [of "stamp2Sec st"])
      (use u q assms(1) stamp_idem [OF st st'] in
        \<open>auto simp: imu_cbk_def st st' Let_def imu_gap_def imu_accept_def simp flip: u_def\<close>)
qed

lemma imu_cbk_ok:
  assumes "queues_ok s" "\<not> ros_driver_fix_en c" "good_time c m"
  shows "\<exists>s'. imu_cbk c b m s = Some s' \<and> queues_ok s'"
proof -
  obtain t where t: "0 < t" and step: "imu_cbk c b m s =
      Some (if \<not> imu_en c \<or> last_timestamp_lidar s < 0 \<or> imu_gap t s then s
        else imu_accept c b t m s)"
    using imu_cbk_cases [OF assms(2,3)] by metis
  have "queues_ok (imu_accept c b t m s)" if "\<not> imu_gap t s"
    using assms(1) that t
    by (force simp: queues_ok_def sorted_append imu_gap_def imu_accept_def Let_def)
  then show ?thesis using assms(1) by (simp add: step)
qed

end
