(* ===== verification/Sync_Packages.thy ===== *)
theory Sync_Packages
  imports Sync_Buffers "HOL-Library.Multiset"
begin

text \<open>
  \<open>LIVMapper::sync_packages\<close>: how the odometry node cuts the buffered measurements into the
  packages that one step of the filter processes. In the mode \<open>LIVO\<close> a lidar package that ends at
  the capture time of an image and an image package alternate; without the camera every lidar
  scan is a package. \<open>None\<close> is undefined behaviour (the front or back of an empty deque). Offsets
  of points are single precision: \<open>fl\<close> is the rounding of a \<open>double\<close> to a \<open>float\<close>.
\<close>

section \<open>The cuts\<close>

text \<open>The loop over the inertial messages in the mode without the camera.\<close>

fun take_imu :: "real \<Rightarrow> 'i Imu list \<Rightarrow> 'i Imu list \<times> 'i Imu list" where
  "take_imu end_time [] = ([], [])"
| "take_imu end_time (m # ms) =
    (if imu_stamp m > end_time then ([], m # ms)
     else let (taken, rest) = take_imu end_time ms in (m # taken, rest))"

text \<open>The one in the mode with the camera, which skips what is not newer than the last update.\<close>

fun take_imu_after :: "real \<Rightarrow> real \<Rightarrow> 'i Imu list \<Rightarrow> 'i Imu list \<times> 'i Imu list" where
  "take_imu_after last_time end_time [] = ([], [])"
| "take_imu_after last_time end_time (m # ms) =
    (if imu_stamp m > end_time then ([], m # ms)
     else let (taken, rest) = take_imu_after last_time end_time ms
          in (if imu_stamp m > last_time then m # taken else taken, rest))"

text \<open>The loop over the points of one scan: before the cut, or behind it.\<close>

fun cut_points :: "(real \<Rightarrow> real) \<Rightarrow> real \<Rightarrow> real \<Rightarrow> real \<Rightarrow> real \<Rightarrow> 'p PointType list \<Rightarrow>
    'p PointType list \<times> 'p PointType list" where
  "cut_points fl max_offs_time_ms header last_time lio_t [] = ([], [])"
| "cut_points fl max_offs_time_ms header last_time lio_t (pt # pcl) =
    (let (cur, nxt) = cut_points fl max_offs_time_ms header last_time lio_t pcl
     in if curvature pt < max_offs_time_ms
        then (pt\<lparr>curvature := fl (curvature pt + (header - last_time) * 1000)\<rparr> # cur, nxt)
        else (cur, pt\<lparr>curvature := fl (curvature pt + (header - lio_t) * 1000)\<rparr> # nxt))"

text \<open>The loop over the scans that began before the image.\<close>

fun cut_clouds :: "(real \<Rightarrow> real) \<Rightarrow> real \<Rightarrow> real \<Rightarrow> 'p PointType list list \<Rightarrow> real list \<Rightarrow>
    ('p PointType list \<times> 'p PointType list \<times> 'p PointType list list \<times> real list) option" where
  "cut_clouds fl last_time img_t [] headers = Some ([], [], [], headers)"
| "cut_clouds fl last_time img_t (pcl # clouds) [] = None"
| "cut_clouds fl last_time img_t (pcl # clouds) (header # headers) =
    (if header > img_t then Some ([], [], pcl # clouds, header # headers)
     else do {
       let (cur1, nxt1) = cut_points fl (fl ((img_t - header) * 1000)) header last_time img_t pcl;
       (cur, nxt, clouds', headers') \<leftarrow> cut_clouds fl last_time img_t clouds headers;
       Some (cur1 @ cur, nxt1 @ nxt, clouds', headers')
     })"

section \<open>The modes\<close>

text \<open>The first lidar header starts the clock of the filter.\<close>

definition start_clock :: "('p, 'i, 'g) mapper \<Rightarrow> ('p, 'i, 'g) mapper option" where
  "start_clock s =
    (if last_lio_update_time (LidarMeasures s) < 0
     then do {
       t \<leftarrow> front_of (lid_header_time_buffer s);
       Some (upd_meas (\<lambda>m. m\<lparr>last_lio_update_time := t\<rparr>) s)
     } else Some s)"

definition take_scan :: "('p, 'i, 'g) mapper \<Rightarrow> (bool \<times> ('p, 'i, 'g) mapper) option" where
  "take_scan s =
    (if \<not> lidar_pushed s then do {
       pcl \<leftarrow> front_of (lid_raw_data_buffer s);
       let s = upd_meas (\<lambda>m. m\<lparr>lidar := pcl\<rparr>) s;
       if length pcl \<le> 1 then Some (False, s)
       else do {
         t \<leftarrow> front_of (lid_header_time_buffer s);
         p \<leftarrow> back_of pcl;
         Some (True, (upd_meas (\<lambda>m. m\<lparr>lidar_frame_beg_time := t,
           lidar_frame_end_time := t + curvature p / 1000, pcl_proc_cur := pcl\<rparr>) s)
           \<lparr>lidar_pushed := True\<rparr>)
       }
     } else Some (True, s))"

definition sync_only_lio ::
  "mapper_config \<Rightarrow> ('p, 'i, 'g) mapper \<Rightarrow> (bool \<times> ('p, 'i, 'g) mapper) option" where
  "sync_only_lio c s = do {
     s \<leftarrow> start_clock s;
     (scan, s) \<leftarrow> take_scan s;
     let t = lidar_frame_end_time (LidarMeasures s);
     if \<not> scan then Some (False, s)
     else if imu_en c \<and> last_timestamp_imu s < t then Some (False, s)
     else do {
       let (taken, rest) = take_imu t (imu_buffer s);
       let m = new_MeasureGroup\<lparr>imu := taken, lio_time := t\<rparr>;
       clouds \<leftarrow> pop_front (lid_raw_data_buffer s);
       headers \<leftarrow> pop_front (lid_header_time_buffer s);
       Some (True, upd_meas (\<lambda>g. g\<lparr>lio_vio_flg := LIO, measures := measures g @ [m]\<rparr>)
         (s\<lparr>imu_buffer := rest, lid_raw_data_buffer := clouds, lid_header_time_buffer := headers,
           lidar_pushed := False\<rparr>))
     }
   }"

text \<open>\<open>LIVO\<close>, after an image package or at the start: a lidar package up to the next image.\<close>

definition sync_livo_lio ::
  "(real \<Rightarrow> real) \<Rightarrow> mapper_config \<Rightarrow> ('p, 'i, 'g) mapper \<Rightarrow>
    (bool \<times> ('p, 'i, 'g) mapper) option" where
  "sync_livo_lio fl c s = do {
     img_t \<leftarrow> front_of (img_time_buffer s);
     let img_capture_time = img_t + exposure_time_init c;
     s \<leftarrow> start_clock s;
     let last_time = last_lio_update_time (LidarMeasures s);
     header \<leftarrow> back_of (lid_header_time_buffer s);
     pcl \<leftarrow> back_of (lid_raw_data_buffer s);
     p \<leftarrow> back_of pcl;
     let lid_newest_time = header + curvature p / 1000;
     newest \<leftarrow> back_of (imu_buffer s);
     if img_capture_time < last_time + 0.00001 then do {
       imgs \<leftarrow> pop_front (img_buffer s);
       img_ts \<leftarrow> pop_front (img_time_buffer s);
       Some (False, s\<lparr>img_buffer := imgs, img_time_buffer := img_ts\<rparr>)
     }
     else if img_capture_time > lid_newest_time \<or> img_capture_time > imu_stamp newest
     then Some (False, s)
     else do {
       let (taken, rest) = take_imu_after last_time img_capture_time (imu_buffer s);
       let m = new_MeasureGroup\<lparr>imu := taken, lio_time := img_capture_time\<rparr>;
       (cur, nxt, clouds, headers) \<leftarrow> cut_clouds fl last_time img_capture_time
         (lid_raw_data_buffer s) (lid_header_time_buffer s);
       Some (True, upd_meas (\<lambda>g. g\<lparr>pcl_proc_cur := pcl_proc_next g @ cur, pcl_proc_next := nxt,
           measures := measures g @ [m], lio_vio_flg := LIO\<rparr>)
         (s\<lparr>imu_buffer := rest, lid_raw_data_buffer := clouds, lid_header_time_buffer := headers\<rparr>))
     }
   }"

text \<open>\<open>LIVO\<close>, after a lidar package: the image package.\<close>

definition sync_livo_vio ::
  "mapper_config \<Rightarrow> ('p, 'i, 'g) mapper \<Rightarrow> (bool \<times> ('p, 'i, 'g) mapper) option" where
  "sync_livo_vio c s = do {
     img_t \<leftarrow> front_of (img_time_buffer s);
     let img_capture_time = img_t + exposure_time_init c;
     _ \<leftarrow> front_of (imu_buffer s);
     picture \<leftarrow> front_of (img_buffer s);
     let m = new_MeasureGroup\<lparr>vio_time := img_capture_time,
       lio_time := last_lio_update_time (LidarMeasures s), img := Some picture\<rparr>;
     imgs \<leftarrow> pop_front (img_buffer s);
     img_ts \<leftarrow> pop_front (img_time_buffer s);
     Some (True, upd_meas (\<lambda>g. g\<lparr>lio_vio_flg := VIO, measures := [m]\<rparr>)
       (s\<lparr>img_buffer := imgs, img_time_buffer := img_ts, lidar_pushed := False\<rparr>))
   }"

definition sync_only_lo :: "('p, 'i, 'g) mapper \<Rightarrow> (bool \<times> ('p, 'i, 'g) mapper) option" where
  "sync_only_lo s =
    (if \<not> lidar_pushed s \<and> lid_raw_data_buffer s = [] then Some (False, s)
     else do {
       s \<leftarrow> (if \<not> lidar_pushed s then do {
           pcl \<leftarrow> front_of (lid_raw_data_buffer s);
           t \<leftarrow> front_of (lid_header_time_buffer s);
           p \<leftarrow> back_of pcl;
           Some ((upd_meas (\<lambda>m. m\<lparr>lidar := pcl, lidar_frame_beg_time := t,
             lidar_frame_end_time := t + curvature p / 1000\<rparr>) s)\<lparr>lidar_pushed := True\<rparr>)
         } else Some s);
       let m = new_MeasureGroup\<lparr>lio_time := lidar_frame_end_time (LidarMeasures s)\<rparr>;
       clouds \<leftarrow> pop_front (lid_raw_data_buffer s);
       headers \<leftarrow> pop_front (lid_header_time_buffer s);
       Some (True, upd_meas (\<lambda>g. g\<lparr>lio_vio_flg := LO, measures := measures g @ [m]\<rparr>)
         (s\<lparr>lid_raw_data_buffer := clouds, lid_header_time_buffer := headers, lidar_pushed := False\<rparr>))
     })"

definition sync_packages ::
  "(real \<Rightarrow> real) \<Rightarrow> mapper_config \<Rightarrow> ('p, 'i, 'g) mapper \<Rightarrow>
    (bool \<times> ('p, 'i, 'g) mapper) option" where
  "sync_packages fl c s =
    (if lid_raw_data_buffer s = [] \<and> lidar_en c then Some (False, s)
     else if img_buffer s = [] \<and> img_en c then Some (False, s)
     else if imu_buffer s = [] \<and> imu_en c then Some (False, s)
     else case slam_mode c of
       ONLY_LIO \<Rightarrow> sync_only_lio c s
     | LIVO \<Rightarrow>
         (case lio_vio_flg (LidarMeasures s) of
            WAIT \<Rightarrow> sync_livo_lio fl c s
          | VIO \<Rightarrow> sync_livo_lio fl c s
          | LIO \<Rightarrow> sync_livo_vio c s
          | LO \<Rightarrow> Some (False, s))
     | ONLY_LO \<Rightarrow> sync_only_lo s)"

section \<open>The filter's clock\<close>

text \<open>
  The control skeleton of \<open>ImuProcess::Process2\<close>: when it is still collecting messages for the
  initial gravity, and what it does to the clock. The estimation itself is not modelled.
\<close>

record imu_process =
  imu_need_init :: bool
  b_first_frame :: bool
  init_iter_num :: int
  MAX_INI_COUNT :: int

definition IMU_init :: "'i Imu list \<Rightarrow> imu_process \<Rightarrow> imu_process" where
  "IMU_init msgs p =
    (let p = (if b_first_frame p then p\<lparr>init_iter_num := 1, b_first_frame := False\<rparr> else p)
     in p\<lparr>init_iter_num := init_iter_num p + int (length msgs)\<rparr>)"

definition Forward_without_imu ::
  "('p, 'i, 'g) LidarMeasureGroup \<Rightarrow> ('p, 'i, 'g) LidarMeasureGroup option" where
  "Forward_without_imu g =
    (if lidar g = [] then None
     else Some (g\<lparr>last_lio_update_time :=
       lidar_frame_beg_time g + Max (set (map curvature (lidar g))) / 1000\<rparr>))"

definition Process2 ::
  "mapper_config \<Rightarrow> ('p, 'i, 'g) LidarMeasureGroup \<Rightarrow> imu_process \<Rightarrow>
    (('p, 'i, 'g) LidarMeasureGroup \<times> imu_process) option" where
  "Process2 c g p =
    (if \<not> imu_en c then map_option (\<lambda>g. (g, p\<lparr>b_first_frame := False\<rparr>)) (Forward_without_imu g)
     else do {
       m \<leftarrow> back_of (measures g);
       if imu_need_init p then
         (if imu m = [] then Some (g, p)
          else let p = IMU_init (imu m) p
               in Some (g, p\<lparr>imu_need_init := \<not> init_iter_num p > MAX_INI_COUNT p\<rparr>))
       else
         let prop_end_time = (if lio_vio_flg g = LIO then lio_time m else vio_time m)
         in Some (if lio_vio_flg g \<in> {LIO, VIO} then g\<lparr>last_lio_update_time := prop_end_time\<rparr> else g, p)
     })"

section \<open>What the cuts take\<close>

lemma take_imu_while:
  "take_imu t ms = (takeWhile (\<lambda>m. imu_stamp m \<le> t) ms, dropWhile (\<lambda>m. imu_stamp m \<le> t) ms)"
  by (induction ms) auto

lemma take_imu_after_while:
  "take_imu_after t0 t ms = (filter (\<lambda>m. t0 < imu_stamp m) (takeWhile (\<lambda>m. imu_stamp m \<le> t) ms),
    dropWhile (\<lambda>m. imu_stamp m \<le> t) ms)"
  by (induction ms) auto

lemma sorted_while:
  fixes t :: real
  assumes "sorted (map f xs)"
  shows "takeWhile (\<lambda>x. f x \<le> t) xs = filter (\<lambda>x. f x \<le> t) xs \<and>
    dropWhile (\<lambda>x. f x \<le> t) xs = filter (\<lambda>x. t < f x) xs"
  using assms
proof (induction xs)
  case (Cons x xs)
  show ?case
  proof (cases "f x \<le> t")
    case False
    with Cons.prems have "\<forall>y \<in> set xs. t < f y" by force
    with False show ?thesis by (auto simp: filter_empty_conv not_le intro!: filter_True [symmetric])
  qed (use Cons in auto)
qed simp

text \<open>The points of a cloud with their absolute times, the offsets counted from \<open>base\<close>.\<close>

definition stamped :: "real \<Rightarrow> 'p PointType list \<Rightarrow> (real \<times> 'p) list" where
  "stamped base pcl = map (\<lambda>p. (base + curvature p / 1000, coordinates p)) pcl"

lemma stamped_append [simp]: "stamped b (xs @ ys) = stamped b xs @ stamped b ys"
  by (simp add: stamped_def)

text \<open>All points of the scans that a cut at \<open>img_t\<close> takes out of the buffer.\<close>

fun scans_until :: "real \<Rightarrow> 'p PointType list list \<Rightarrow> real list \<Rightarrow> (real \<times> 'p) list" where
  "scans_until img_t (pcl # clouds) (header # headers) =
    (if header > img_t then [] else stamped header pcl @ scans_until img_t clouds headers)"
| "scans_until img_t _ _ = []"

lemma cut_points_exact:
  assumes "cut_points (\<lambda>x. x) ((img_t - header) * 1000) header t0 img_t pcl = (cur, nxt)"
  shows "stamped t0 cur = filter (\<lambda>(t, _). t < img_t) (stamped header pcl)"
    "stamped img_t nxt = filter (\<lambda>(t, _). \<not> t < img_t) (stamped header pcl)"
  using assms
proof (induction pcl arbitrary: cur nxt)
  case (Cons p pcl)
  obtain cur' nxt' where rec: "cut_points (\<lambda>x. x) ((img_t - header) * 1000) header t0 img_t pcl =
    (cur', nxt')" by (cases "cut_points (\<lambda>x. x) ((img_t - header) * 1000) header t0 img_t pcl")
  have time: "b + (curvature p + (header * 1000 - b * 1000)) / 1000 = header + curvature p / 1000" for b
    by (simp add: field_simps)
  have before: "curvature p < img_t * 1000 - header * 1000 \<longleftrightarrow> header + curvature p / 1000 < img_t"
    by (simp add: field_simps)
  {
    case 1
    then show ?case using Cons.IH(1) [OF rec] rec by (auto simp: stamped_def time before split: if_splits)
  next
    case 2
    then show ?case using Cons.IH(2) [OF rec] rec by (auto simp: stamped_def time before split: if_splits)
  }
qed (simp_all add: stamped_def)

lemma cut_clouds_exact:
  assumes "cut_clouds (\<lambda>x. x) t0 img_t clouds headers = Some (cur, nxt, clouds', headers')"
  shows "stamped t0 cur = filter (\<lambda>(t, _). t < img_t) (scans_until img_t clouds headers)"
    "stamped img_t nxt = filter (\<lambda>(t, _). \<not> t < img_t) (scans_until img_t clouds headers)"
  using assms
proof (induction "\<lambda>x :: real. x" t0 img_t clouds headers arbitrary: cur nxt
    rule: cut_clouds.induct)
  case (3 t0 img_t pcl clouds header headers)
  obtain cur1 nxt1 where cut: "cut_points (\<lambda>x. x) ((img_t - header) * 1000) header t0 img_t pcl =
    (cur1, nxt1)" by (cases "cut_points (\<lambda>x. x) ((img_t - header) * 1000) header t0 img_t pcl")
  note pts = cut_points_exact [OF cut]
  {
    case 1
    then show ?case using 3 cut pts
      by (auto simp: stamped_def Let_def split: if_splits Option.bind_splits)
  next
    case 2
    then show ?case using 3 cut pts
      by (auto simp: stamped_def Let_def split: if_splits Option.bind_splits)
  }
qed (auto simp: stamped_def)

lemma cut_clouds_rest:
  assumes "length clouds = length headers"
  shows "\<exists>cur nxt. cut_clouds fl t0 img_t clouds headers = (let n = length (takeWhile (\<lambda>h. h \<le> img_t) headers)
    in Some (cur, nxt, drop n clouds, drop n headers))"
  using assms
proof (induction fl t0 img_t clouds headers rule: cut_clouds.induct)
  case (3 fl t0 img_t pcl clouds header headers)
  show ?case
  proof (cases "header > img_t")
    case False
    obtain cur1 nxt1 where cut: "cut_points fl (fl ((img_t - header) * 1000)) header t0 img_t pcl =
      (cur1, nxt1)" by (cases "cut_points fl (fl ((img_t - header) * 1000)) header t0 img_t pcl")
    from 3(1) [OF False refl cut [symmetric]] 3(2) cut False show ?thesis
      by (auto simp: Let_def)
  qed simp
qed auto

text \<open>No rounding can lose or invent a point.\<close>

lemma cut_points_coordinates:
  "cut_points fl mx header t0 img_t pcl = (cur, nxt) \<Longrightarrow>
    mset (map coordinates cur) + mset (map coordinates nxt) = mset (map coordinates pcl)"
  by (induction pcl arbitrary: cur nxt) (auto simp: Let_def split: prod.splits if_splits)

lemma cut_clouds_coordinates:
  "cut_clouds fl t0 img_t clouds headers = Some (cur, nxt, clouds', headers') \<Longrightarrow>
    mset (map coordinates cur) + mset (map coordinates nxt) + mset (map coordinates (concat clouds')) =
    mset (map coordinates (concat clouds))"
proof (induction fl t0 img_t clouds headers arbitrary: cur nxt rule: cut_clouds.induct)
  case (3 fl t0 img_t pcl clouds header headers)
  obtain cur1 nxt1 where cut: "cut_points fl (fl ((img_t - header) * 1000)) header t0 img_t pcl =
    (cur1, nxt1)" by (cases "cut_points fl (fl ((img_t - header) * 1000)) header t0 img_t pcl")
  note pts = cut_points_coordinates [OF cut]
  show ?case
  proof (cases "header > img_t")
    case False
    with 3(2) cut obtain cur2 nxt2 where
      rec: "cut_clouds fl t0 img_t clouds headers = Some (cur2, nxt2, clouds', headers')"
      and out: "cur = cur1 @ cur2" "nxt = nxt1 @ nxt2"
      by (auto simp: Let_def split: Option.bind_splits)
    note ih = 3(1) [OF False refl cut [symmetric] rec]
    show ?thesis by (simp add: out ac_simps pts [symmetric, simplified] ih [symmetric, simplified])
  qed (use 3(2) in simp)
qed auto

section \<open>One package\<close>

definition clock_start :: "('p, 'i, 'g) mapper \<Rightarrow> real" where
  "clock_start s = (if last_lio_update_time (LidarMeasures s) < 0 then hd (lid_header_time_buffer s)
    else last_lio_update_time (LidarMeasures s))"

lemma start_clock_eq:
  assumes "lid_header_time_buffer s \<noteq> []"
  shows "start_clock s = Some (upd_meas (\<lambda>m. m\<lparr>last_lio_update_time := clock_start s\<rparr>) s)"
proof -
  have "upd_meas (\<lambda>m. m\<lparr>last_lio_update_time := last_lio_update_time (LidarMeasures s)\<rparr>) s = s"
    by (cases s; cases "LidarMeasures s") simp
  then show ?thesis using assms by (simp add: start_clock_def clock_start_def deque_some)
qed

text \<open>The image time of the next cut, and the newest times in the buffers.\<close>

abbreviation capture_time :: "mapper_config \<Rightarrow> ('p, 'i, 'g) mapper \<Rightarrow> real" where
  "capture_time c s \<equiv> hd (img_time_buffer s) + exposure_time_init c"

definition lidar_newest :: "('p, 'i, 'g) mapper \<Rightarrow> real" where
  "lidar_newest s = last (lid_header_time_buffer s) + curvature (last (last (lid_raw_data_buffer s))) / 1000"

definition lidar_package :: "mapper_config \<Rightarrow> ('p, 'i, 'g) mapper \<Rightarrow> ('i, 'g) MeasureGroup" where
  "lidar_package c s = new_MeasureGroup\<lparr>imu := fst (take_imu_after (clock_start s) (capture_time c s)
    (imu_buffer s)), lio_time := capture_time c s\<rparr>"

lemma bind_Some_map:
  "Option.bind m (\<lambda>x. Some (f x)) = map_option f m"
  "Option.bind m4 (\<lambda>(a, b, c, d). Some (f4 a b c d)) = map_option (\<lambda>(a, b, c, d). f4 a b c d) m4"
  by (cases m; cases m4; auto)+

lemma sync_livo_lio_eq:
  assumes "img_time_buffer s \<noteq> []" "lid_header_time_buffer s \<noteq> []" "lid_raw_data_buffer s \<noteq> []"
    "last (lid_raw_data_buffer s) \<noteq> []" "imu_buffer s \<noteq> []"
  shows "sync_livo_lio fl c s =
    (let s1 = upd_meas (\<lambda>m. m\<lparr>last_lio_update_time := clock_start s\<rparr>) s; img_t = capture_time c s
     in if img_t < clock_start s + 0.00001 then map_option (\<lambda>imgs. (False, s1\<lparr>img_buffer := imgs,
          img_time_buffer := tl (img_time_buffer s)\<rparr>)) (pop_front (img_buffer s))
        else if lidar_newest s < img_t \<or> imu_stamp (last (imu_buffer s)) < img_t then Some (False, s1)
        else map_option (\<lambda>(cur, nxt, clouds, headers).
          (True, upd_meas (\<lambda>g. g\<lparr>last_lio_update_time := clock_start s,
              pcl_proc_cur := pcl_proc_next g @ cur, pcl_proc_next := nxt,
              measures := measures g @ [lidar_package c s], lio_vio_flg := LIO\<rparr>)
            (s\<lparr>imu_buffer := snd (take_imu_after (clock_start s) img_t (imu_buffer s)),
              lid_raw_data_buffer := clouds, lid_header_time_buffer := headers\<rparr>)))
          (cut_clouds fl (clock_start s) img_t (lid_raw_data_buffer s) (lid_header_time_buffer s)))"
proof -
  have "take_imu_after t0 t ms = (fst (take_imu_after t0 t ms), snd (take_imu_after t0 t ms))"
    for t0 t and ms :: "'c Imu list" by simp
  then show ?thesis
    using assms
    by (simp add: sync_livo_lio_def start_clock_eq split_beta [of _ "take_imu_after _ _ _"] deque_some Let_def lidar_newest_def
        lidar_package_def bind_Some_map)
qed

end
