(* ===== verification/Sync_Node.thy ===== *)
theory Sync_Node
  imports Sync_Packages
begin

text \<open>
  The odometry node as a whole: the callbacks of \<open>src/src/fast_livo2/src/LIVMapper.cpp\<close> in any
  interleaving with the steps of \<open>LIVMapper::run\<close>. Every step keeps the buffers in order and never
  reads an empty queue, provided the clouds arrive in the order of their times.
\<close>

section \<open>No empty deque is touched\<close>

lemma sorted_dropWhile: "sorted (map f xs) \<Longrightarrow> sorted (map f (dropWhile P xs))" for f :: "'a \<Rightarrow> real"
  by (induction xs) auto

definition package_ok :: "mapper_config \<Rightarrow> ('p, 'i, 'g) mapper \<Rightarrow> bool" where
  "package_ok c s \<longleftrightarrow> measures (LidarMeasures s) \<noteq> [] \<and>
    (\<not> imu_en c \<longrightarrow> lidar (LidarMeasures s) \<noteq> [])"

definition sync_fine :: "mapper_config \<Rightarrow> ('p, 'i, 'g) mapper \<Rightarrow>
    (bool \<times> ('p, 'i, 'g) mapper) option \<Rightarrow> bool" where
  "sync_fine c s r \<longleftrightarrow> (\<exists>ok s'. r = Some (ok, s') \<and> queues_ok s' \<and> (ok \<longrightarrow> package_ok c s') \<and>
    last_timestamp_lidar s' = last_timestamp_lidar s)"

text \<open>Taking measurements from the fronts keeps the buffers in order.\<close>

lemma queues_ok_drop:
  assumes "queues_ok s"
    and "lid_raw_data_buffer s' = drop n (lid_raw_data_buffer s)"
      "lid_header_time_buffer s' = drop n (lid_header_time_buffer s)"
      "imu_buffer s' = drop k (imu_buffer s)"
      "img_buffer s' = drop j (img_buffer s)" "img_time_buffer s' = drop j (img_time_buffer s)"
      "last_timestamp_lidar s' = last_timestamp_lidar s" "last_timestamp_imu s' = last_timestamp_imu s"
  shows "queues_ok s'"
  using assms(1)
  by (auto simp: queues_ok_def assms(2-) sorted_drop drop_map [symmetric] dest: in_set_dropD)

lemma sync_fineI:
  assumes "r = Some (ok, s')" "queues_ok s'" "ok \<Longrightarrow> package_ok c s'"
    "last_timestamp_lidar s' = last_timestamp_lidar s"
  shows "sync_fine c s r"
  using assms by (simp add: sync_fine_def)

lemma sync_livo_vio_fine:
  assumes "queues_ok s" "img_buffer s \<noteq> []" "imu_buffer s \<noteq> []" "imu_en c"
  shows "sync_fine c s (sync_livo_vio c s)"
proof -
  have "img_time_buffer s \<noteq> []" using assms by (auto simp: queues_ok_def)
  then have r: "sync_livo_vio c s = Some (True, upd_meas (\<lambda>g. g\<lparr>lio_vio_flg := VIO,
      measures := [new_MeasureGroup\<lparr>vio_time := capture_time c s,
        lio_time := last_lio_update_time (LidarMeasures s), img := Some (hd (img_buffer s))\<rparr>]\<rparr>)
    (s\<lparr>img_buffer := tl (img_buffer s), img_time_buffer := tl (img_time_buffer s), lidar_pushed := False\<rparr>))"
    using assms by (simp add: sync_livo_vio_def deque_some Let_def)
  show ?thesis
    by (rule sync_fineI [OF r])
      (use assms in \<open>auto simp: package_ok_def drop_Suc intro!: queues_ok_drop [of s _ 0 0 1]\<close>)
qed

lemma take_imu_drop:
  "\<exists>k. snd (take_imu_after t0 t ms) = drop k ms" "\<exists>k. snd (take_imu t ms) = drop k ms"
  by (auto simp: take_imu_while take_imu_after_while dropWhile_eq_drop)

lemma sync_livo_lio_fine:
  assumes "queues_ok s" "img_buffer s \<noteq> []" "imu_buffer s \<noteq> []" "lid_raw_data_buffer s \<noteq> []" "imu_en c"
  shows "sync_fine c s (sync_livo_lio fl c s)"
proof -
  let ?base = "clock_start s" and ?t = "capture_time c s"
  have ne: "img_time_buffer s \<noteq> []" "lid_header_time_buffer s \<noteq> []"
    using assms by (auto simp: queues_ok_def)
  have ne': "last (lid_raw_data_buffer s) \<noteq> []"
    using assms by (metis queues_ok_def last_in_set)
  let ?n = "length (takeWhile (\<lambda>h. h \<le> ?t) (lid_header_time_buffer s))"
  obtain cur nxt where cut: "cut_clouds fl ?base ?t (lid_raw_data_buffer s) (lid_header_time_buffer s) =
      Some (cur, nxt, drop ?n (lid_raw_data_buffer s), drop ?n (lid_header_time_buffer s))"
    using cut_clouds_rest assms(1) unfolding queues_ok_def Let_def by metis
  obtain k where k: "snd (take_imu_after ?base ?t (imu_buffer s)) = drop k (imu_buffer s)"
    using take_imu_drop by blast
  note eq = sync_livo_lio_eq [OF ne assms(4) ne' assms(3), of fl c]
  show ?thesis
  proof (cases "?t < ?base + 0.00001")
    case True
    then have r: "sync_livo_lio fl c s = Some (False, upd_meas (\<lambda>m. m\<lparr>last_lio_update_time := ?base\<rparr>)
        s\<lparr>img_buffer := tl (img_buffer s), img_time_buffer := tl (img_time_buffer s)\<rparr>)"
      using assms(2) by (simp add: eq Let_def deque_some)
    show ?thesis
      by (rule sync_fineI [OF r])
        (use assms in \<open>auto simp: drop_Suc intro!: queues_ok_drop [of s _ 0 0 1]\<close>)
  next
    case late: False
    show ?thesis
    proof (cases "lidar_newest s < ?t \<or> imu_stamp (last (imu_buffer s)) < ?t")
      case True
      with late have r: "sync_livo_lio fl c s =
          Some (False, upd_meas (\<lambda>m. m\<lparr>last_lio_update_time := ?base\<rparr>) s)"
        by (auto simp add: eq Let_def)
      show ?thesis
        by (rule sync_fineI [OF r])
          (use assms in \<open>auto intro!: queues_ok_drop [of s _ 0 0 0]\<close>)
    next
      case False
      with late have r: "sync_livo_lio fl c s = Some (True, upd_meas (\<lambda>g. g\<lparr>last_lio_update_time := ?base,
          pcl_proc_cur := pcl_proc_next g @ cur, pcl_proc_next := nxt,
          measures := measures g @ [lidar_package c s], lio_vio_flg := LIO\<rparr>)
        (s\<lparr>imu_buffer := drop k (imu_buffer s), lid_raw_data_buffer := drop ?n (lid_raw_data_buffer s),
          lid_header_time_buffer := drop ?n (lid_header_time_buffer s)\<rparr>))"
        by (simp add: eq Let_def cut k)
      show ?thesis
        by (rule sync_fineI [OF r])
          (use assms in \<open>auto simp: package_ok_def intro!: queues_ok_drop [of s _ ?n k 0]\<close>)
    qed
  qed
qed

lemma take_scan_fine:
  assumes "queues_ok s" "lid_raw_data_buffer s \<noteq> []"
  shows "\<exists>scan g b. take_scan s = Some (scan, s\<lparr>LidarMeasures := g, lidar_pushed := b\<rparr>)"
proof (cases "lidar_pushed s")
  case True
  then have "take_scan s = Some (True, s\<lparr>LidarMeasures := LidarMeasures s, lidar_pushed := lidar_pushed s\<rparr>)"
    by (simp add: take_scan_def)
  then show ?thesis by blast
next
  case new: False
  have ne: "lid_header_time_buffer s \<noteq> []" "hd (lid_raw_data_buffer s) \<noteq> []"
    using assms by (auto simp: queues_ok_def, metis hd_in_set)
  show ?thesis
  proof (cases "length (hd (lid_raw_data_buffer s)) \<le> 1")
    case True
    then have "take_scan s = Some (False, s\<lparr>LidarMeasures := (LidarMeasures s)\<lparr>lidar := hd (lid_raw_data_buffer s)\<rparr>,
        lidar_pushed := lidar_pushed s\<rparr>)"
      using new assms(2) by (simp add: take_scan_def deque_some Let_def)
    then show ?thesis by blast
  next
    case False
    with new assms(2) ne show ?thesis
      by (simp add: take_scan_def deque_some Let_def) blast
  qed
qed

lemma sync_only_lio_fine:
  assumes "queues_ok s" "lid_raw_data_buffer s \<noteq> []" "imu_en c"
  shows "sync_fine c s (sync_only_lio c s)"
proof -
  have ne: "lid_header_time_buffer s \<noteq> []" using assms by (auto simp: queues_ok_def)
  let ?s1 = "upd_meas (\<lambda>m. m\<lparr>last_lio_update_time := clock_start s\<rparr>) s"
  have "queues_ok ?s1" using assms(1) by (simp add: queues_ok_def)
  then obtain scan g b where scan: "take_scan ?s1 = Some (scan, ?s1\<lparr>LidarMeasures := g, lidar_pushed := b\<rparr>)"
    using take_scan_fine [of ?s1] assms(2) by fastforce
  let ?t = "lidar_frame_end_time g"
  obtain k where k: "snd (take_imu ?t (imu_buffer s)) = drop k (imu_buffer s)"
    using take_imu_drop by blast
  show ?thesis
  proof (cases "scan \<and> \<not> last_timestamp_imu s < ?t")
    case False
    then have r: "sync_only_lio c s = Some (False, ?s1\<lparr>LidarMeasures := g, lidar_pushed := b\<rparr>)"
      using assms(3) by (auto simp: sync_only_lio_def start_clock_eq [OF ne] scan Let_def)
    show ?thesis
      by (rule sync_fineI [OF r]) (use assms in \<open>auto intro!: queues_ok_drop [of s _ 0 0 0]\<close>)
  next
    case True
    then have r: "sync_only_lio c s = Some (True, s\<lparr>imu_buffer := drop k (imu_buffer s),
        lid_raw_data_buffer := tl (lid_raw_data_buffer s),
        lid_header_time_buffer := tl (lid_header_time_buffer s), lidar_pushed := False,
        LidarMeasures := g\<lparr>lio_vio_flg := LIO, measures := measures g @
          [new_MeasureGroup\<lparr>imu := fst (take_imu ?t (imu_buffer s)), lio_time := ?t\<rparr>]\<rparr>\<rparr>)"
      using assms ne k by (simp add: sync_only_lio_def start_clock_eq [OF ne] scan Let_def deque_some
          split_beta [of _ "take_imu _ _"])
    show ?thesis
      by (rule sync_fineI [OF r])
        (use assms in \<open>auto simp: package_ok_def drop_Suc intro!: queues_ok_drop [of s _ 1 k 0]\<close>)
  qed
qed

lemma sync_idle: "queues_ok s \<Longrightarrow> sync_fine c s (Some (False, s))"
  by (rule sync_fineI [OF refl]) auto

lemma sync_only_lo_fine:
  assumes "queues_ok s" "\<not> lidar_pushed s"
  shows "sync_fine c s (sync_only_lo s)"
proof (cases "lid_raw_data_buffer s = []")
  case True
  then show ?thesis using assms by (simp add: sync_only_lo_def sync_idle)
next
  case False
  then have ne: "lid_header_time_buffer s \<noteq> []" "hd (lid_raw_data_buffer s) \<noteq> []"
    using assms by (auto simp: queues_ok_def, metis hd_in_set)
  let ?pcl = "hd (lid_raw_data_buffer s)" and ?beg = "hd (lid_header_time_buffer s)"
  let ?fin = "?beg + curvature (last ?pcl) / 1000"
  have r: "sync_only_lo s = Some (True, s\<lparr>lid_raw_data_buffer := tl (lid_raw_data_buffer s),
      lid_header_time_buffer := tl (lid_header_time_buffer s), lidar_pushed := False,
      LidarMeasures := (LidarMeasures s)\<lparr>lidar := ?pcl, lidar_frame_beg_time := ?beg,
        lidar_frame_end_time := ?fin, lio_vio_flg := LO,
        measures := measures (LidarMeasures s) @ [new_MeasureGroup\<lparr>lio_time := ?fin\<rparr>]\<rparr>\<rparr>)"
    using assms False ne by (simp add: sync_only_lo_def deque_some Let_def)
  show ?thesis
    by (rule sync_fineI [OF r])
      (use assms ne in \<open>auto simp: package_ok_def drop_Suc intro!: queues_ok_drop [of s _ 1 0 0]\<close>)
qed

lemma sync_packages_fine:
  assumes "queues_ok s" "lidar_en c" "img_en c \<longrightarrow> imu_en c" "slam_mode c = ONLY_LO \<longrightarrow> \<not> lidar_pushed s"
  shows "sync_fine c s (sync_packages fl c s)"
proof -
  have livo: "slam_mode c = LIVO \<Longrightarrow> img_en c \<and> imu_en c" and only: "slam_mode c = ONLY_LIO \<Longrightarrow> imu_en c"
    using assms(3) by (auto simp: slam_mode_def split: if_splits)
  show ?thesis
    unfolding sync_packages_def
    using assms livo only
    by (auto simp: sync_idle sync_only_lio_fine sync_livo_lio_fine sync_livo_vio_fine sync_only_lo_fine
        split: SLAM_MODE.split EKF_STATE.split)
qed

section \<open>The node\<close>

text \<open>
  \<open>LIVMapper::run\<close>: \<open>spin_some\<close> runs the callbacks of the messages that have arrived, then one
  \<open>Step\<close> asks for a package and, when there is one, advances the filter.
\<close>

datatype ('p, 'i, 'g) node_event =
    Standard_cloud real "'p PointType list"
  | Livox_cloud real "'p PointType list"
  | Inertial "'i Imu"
  | Picture real 'g
  | Step

definition run_step :: "(real \<Rightarrow> real) \<Rightarrow> mapper_config \<Rightarrow> ('p, 'i, 'g) mapper \<times> imu_process \<Rightarrow>
    (('p, 'i, 'g) mapper \<times> imu_process) option" where
  "run_step fl c = (\<lambda>(s, p). do {
     (ready, s) \<leftarrow> sync_packages fl c s;
     if \<not> ready then Some (s, p)
     else do {
       (g, p) \<leftarrow> Process2 c (LidarMeasures s) p;
       Some (s\<lparr>LidarMeasures := g\<rparr>, p)
     }
   })"

fun handle :: "(real \<Rightarrow> real) \<Rightarrow> mapper_config \<Rightarrow> ('p, 'i, 'g) node_event \<Rightarrow>
    ('p, 'i, 'g) mapper \<times> imu_process \<Rightarrow> (('p, 'i, 'g) mapper \<times> imu_process) option" where
  "handle fl c (Standard_cloud t pcl) (s, p) = map_option (\<lambda>s. (s, p)) (standard_pcl_cbk c t pcl s)"
| "handle fl c (Livox_cloud t pcl) (s, p) = map_option (\<lambda>s. (s, p)) (livox_pcl_cbk c t pcl s)"
| "handle fl c (Inertial m) (s, p) = map_option (\<lambda>s. (s, p)) (imu_cbk c (imu_need_init p) m s)"
| "handle fl c (Picture t g) (s, p) = map_option (\<lambda>s. (s, p)) (img_cbk c t g s)"
| "handle fl c Step (s, p) = run_step fl c (s, p)"

fun run :: "(real \<Rightarrow> real) \<Rightarrow> mapper_config \<Rightarrow> ('p, 'i, 'g) node_event list \<Rightarrow>
    ('p, 'i, 'g) mapper \<times> imu_process \<Rightarrow> (('p, 'i, 'g) mapper \<times> imu_process) option" where
  "run fl c [] n = Some n"
| "run fl c (e # es) n = Option.bind (handle fl c e n) (run fl c es)"

text \<open>Clouds in the order of their times, and inertial times that a stamp can hold.\<close>

fun in_order :: "mapper_config \<Rightarrow> real \<Rightarrow> ('p, 'i, 'g) node_event list \<Rightarrow> bool" where
  "in_order c t [] \<longleftrightarrow> True"
| "in_order c t (Standard_cloud u pcl # es) \<longleftrightarrow>
    t \<le> u + lidar_time_offset c \<and> pcl \<noteq> [] \<and> in_order c (u + lidar_time_offset c) es"
| "in_order c t (Livox_cloud u pcl # es) \<longleftrightarrow> t \<le> u \<and> in_order c (if pcl = [] then t else u) es"
| "in_order c t (Inertial m # es) \<longleftrightarrow> good_time c m \<and> in_order c t es"
| "in_order c t (Picture u g # es) \<longleftrightarrow> in_order c t es"
| "in_order c t (Step # es) \<longleftrightarrow> in_order c t es"

definition node_ok :: "mapper_config \<Rightarrow> real \<Rightarrow> ('p, 'i, 'g) mapper \<times> imu_process \<Rightarrow> bool" where
  "node_ok c t = (\<lambda>(s, p). queues_ok s \<and> last_timestamp_lidar s = t \<and>
    (slam_mode c = ONLY_LO \<longrightarrow> \<not> lidar_pushed s))"

lemma store_cloud_keeps: "store_cloud t pcl s = Some s' \<Longrightarrow> lidar_pushed s' = lidar_pushed s"
  by (auto simp: store_cloud_def split: Option.bind_splits)

lemma img_cbk_keeps:
  "img_cbk c t g s = Some s' \<Longrightarrow>
    lidar_pushed s' = lidar_pushed s \<and> last_timestamp_lidar s' = last_timestamp_lidar s"
  by (auto simp: img_cbk_def Let_def split: Option.bind_splits if_splits)

lemma sync_packages_pushed:
  assumes "sync_packages fl c s = Some (ok, s')" "slam_mode c = ONLY_LO" "\<not> lidar_pushed s"
  shows "\<not> lidar_pushed s'"
  using assms by (auto simp: sync_packages_def sync_only_lo_def Let_def split: if_splits Option.bind_splits)

lemma Process2_fine:
  assumes "package_ok c s"
  shows "\<exists>g p'. Process2 c (LidarMeasures s) p = Some (g, p')"
  using assms by (auto simp: package_ok_def Process2_def Forward_without_imu_def deque_some Let_def)

lemma step_ok:
  assumes "node_ok c t (s, p)" "lidar_en c" "img_en c \<longrightarrow> imu_en c"
  shows "\<exists>n. run_step fl c (s, p) = Some n \<and> node_ok c t n"
proof -
  have "sync_fine c s (sync_packages fl c s)"
    using assms by (auto simp: node_ok_def intro: sync_packages_fine)
  then obtain ok s' where r: "sync_packages fl c s = Some (ok, s')" "queues_ok s'"
    "ok \<Longrightarrow> package_ok c s'" "last_timestamp_lidar s' = last_timestamp_lidar s"
    by (auto simp: sync_fine_def)
  then have ok: "node_ok c t (s', p)"
    using assms(1) sync_packages_pushed [OF r(1)] by (simp add: node_ok_def)
  show ?thesis
  proof (cases ok)
    case True
    with r(3) obtain g p' where "Process2 c (LidarMeasures s') p = Some (g, p')"
      using Process2_fine by blast
    with True r(1) ok show ?thesis by (auto simp: run_step_def node_ok_def queues_ok_def)
  qed (use r ok in \<open>simp add: run_step_def\<close>)
qed

lemma cloud_ok:
  assumes "node_ok c t (s, p)" "t \<le> u" "cloud \<noteq> []"
  shows "\<exists>s'. store_cloud u cloud (loop_back u s) = Some s' \<and> node_ok c u (s', p)"
  using assms store_cloud_ok [of s cloud u] store_cloud_keeps
  by (fastforce simp: node_ok_def loop_back_def)

lemma handle_ok:
  assumes "node_ok c t n" "in_order c t (e # es)" "lidar_en c" "img_en c \<longrightarrow> imu_en c" "\<not> ros_driver_fix_en c"
  shows "\<exists>n' t'. handle fl c e n = Some n' \<and> node_ok c t' n' \<and> in_order c t' es"
proof -
  obtain s p where n: "n = (s, p)" by (cases n)
  note ok = assms(1) [unfolded n]
  show ?thesis
  proof (cases e)
    case (Standard_cloud u pcl)
    then show ?thesis
      using assms(2,3) cloud_ok [OF ok, of "u + lidar_time_offset c" pcl]
      by (auto simp: n standard_pcl_cbk_def Let_def)
  next
    case (Livox_cloud u pcl)
    then show ?thesis
      using assms(2,3) ok cloud_ok [OF ok, of u pcl]
      by (cases "pcl = []") (auto simp: n livox_pcl_cbk_def Let_def loop_back_def node_ok_def)
  next
    case (Inertial m)
    then have good: "good_time c m" "in_order c t es" using assms(2) by auto
    obtain v where v: "0 < v" "imu_cbk c (imu_need_init p) m s = Some (if \<not> imu_en c \<or>
        last_timestamp_lidar s < 0 \<or> imu_gap v s then s else imu_accept c (imu_need_init p) v m s)"
      using imu_cbk_cases [OF assms(5) good(1)] by metis
    obtain s' where s': "imu_cbk c (imu_need_init p) m s = Some s'" "queues_ok s'"
      using imu_cbk_ok [of s c m "imu_need_init p"] ok assms(5) good(1) by (auto simp: node_ok_def)
    have "lidar_pushed s' = lidar_pushed s \<and> last_timestamp_lidar s' = last_timestamp_lidar s"
      using s'(1) v(2) by (auto simp: imu_accept_def Let_def split: if_splits)
    with s' ok good(2) Inertial show ?thesis by (auto simp: n node_ok_def)
  next
    case (Picture u g)
    obtain s' where s': "img_cbk c u g s = Some s'" "queues_ok s'"
      using img_cbk_ok [of s c u g] ok by (auto simp: node_ok_def)
    with img_cbk_keeps [OF s'(1)] ok assms(2) Picture show ?thesis by (auto simp: n node_ok_def)
  next
    case Step
    obtain n' where "run_step fl c (s, p) = Some n'" "node_ok c t n'"
      using step_ok [OF ok assms(3,4)] by metis
    with assms(2) Step show ?thesis by (auto simp: n)
  qed
qed

lemma run_ok:
  assumes "node_ok c t n" "in_order c t es" "lidar_en c" "img_en c \<longrightarrow> imu_en c" "\<not> ros_driver_fix_en c"
  shows "\<exists>n' t'. run fl c es n = Some n' \<and> node_ok c t' n'"
  using assms(1,2)
proof (induction es arbitrary: n t)
  case (Cons e es)
  obtain n' t' where "handle fl c e n = Some n'" "node_ok c t' n'" "in_order c t' es"
    using handle_ok [OF Cons.prems assms(3-)] by blast
  with Cons.IH [of t' n'] show ?case by simp
qed auto

section \<open>A concrete run\<close>

text \<open>A scan of 0.1 s that begins at 10 s, an image taken at 10.03 s, inertial data up to 10.05 s.\<close>

definition ex_cfg :: mapper_config where
  "ex_cfg = \<lparr>lidar_en = True, img_en = True, imu_en = True, exposure_time_init = 0,
    img_time_offset = 0, imu_time_offset = 0, lidar_time_offset = 0, ros_driver_fix_en = False,
    hilti_en = False, imu_prop_enable = False\<rparr>"

definition ex_s :: "(nat, nat, nat) mapper" where
  "ex_s = mapper_init\<lparr>
    lid_raw_data_buffer := [[\<lparr>curvature = 10, coordinates = 1\<rparr>, \<lparr>curvature = 95, coordinates = 2\<rparr>]],
    lid_header_time_buffer := [10],
    imu_buffer := [\<lparr>imu_stamp = 10.02, imu_content = 1\<rparr>, \<lparr>imu_stamp = 10.05, imu_content = 2\<rparr>],
    img_buffer := [7], img_time_buffer := [10.03], last_timestamp_lidar := 10,
    last_timestamp_imu := 10.05, last_timestamp_img := 10.03\<rparr>"

definition ex_p :: imu_process where
  "ex_p = \<lparr>imu_need_init = False, b_first_frame = False, init_iter_num = 30, MAX_INI_COUNT = 20\<rparr>"

definition ex_p0 :: imu_process where
  "ex_p0 = \<lparr>imu_need_init = True, b_first_frame = True, init_iter_num = 1, MAX_INI_COUNT = 20\<rparr>"

definition ex_s1 :: "(nat, nat, nat) mapper" where
  "ex_s1 = ex_s\<lparr>imu_buffer := [\<lparr>imu_stamp = 10.05, imu_content = 2\<rparr>], lid_raw_data_buffer := [],
    lid_header_time_buffer := [], LidarMeasures := new_LidarMeasureGroup\<lparr>last_lio_update_time := 10,
      pcl_proc_cur := [\<lparr>curvature = 10, coordinates = 1\<rparr>],
      pcl_proc_next := [\<lparr>curvature = 65, coordinates = 2\<rparr>], lio_vio_flg := LIO,
      measures := [new_MeasureGroup\<lparr>imu := [\<lparr>imu_stamp = 10.02, imu_content = 1\<rparr>], lio_time := 10.03\<rparr>]\<rparr>\<rparr>"

lemma ex_mode [simp]: "slam_mode ex_cfg = LIVO" "imu_en ex_cfg" "lidar_en ex_cfg" "img_en ex_cfg"
  "\<not> hilti_en ex_cfg" "\<not> ros_driver_fix_en ex_cfg" "exposure_time_init ex_cfg = 0"
  "img_time_offset ex_cfg = 0" "imu_time_offset ex_cfg = 0" "\<not> imu_prop_enable ex_cfg"
  by (simp_all add: ex_cfg_def slam_mode_def)

lemma ex_s_ok: "queues_ok ex_s"
  by (simp add: queues_ok_def ex_s_def)

lemma ex_package: "sync_packages (\<lambda>x. x) ex_cfg ex_s = Some (True, ex_s1)"
  by (simp add: sync_packages_def ex_s_def mapper_init_def new_LidarMeasureGroup_def sync_livo_lio_def
      start_clock_def ex_s1_def Let_def)

lemma ex_flag: "lio_vio_flg (LidarMeasures ex_s) = WAIT"
  by (simp add: ex_s_def mapper_init_def new_LidarMeasureGroup_def)

lemma ex_step: "run_step (\<lambda>x. x) ex_cfg (ex_s, ex_p) = Some (upd_meas (\<lambda>g. g\<lparr>last_lio_update_time := 10.03\<rparr>) ex_s1, ex_p)"
  by (simp add: run_step_def ex_package Process2_def ex_s1_def ex_p_def new_MeasureGroup_def)

lemma ex_step0: "\<exists>p. run_step (\<lambda>x. x) ex_cfg (ex_s, ex_p0) = Some (ex_s1, p)"
  by (simp add: run_step_def ex_package Process2_def ex_s1_def ex_p0_def new_MeasureGroup_def Let_def)

lemmas ex_run_simps = mapper_init_def new_LidarMeasureGroup_def new_MeasureGroup_def Let_def

section \<open>Safety\<close>

text \<open>
  C27. From the start, however clouds, inertial messages, images and steps of the filter interleave, no
  callback and no step reads the front or back of an empty queue or pops one, in any of the three
  modes, and the queues stay paired, bounded and sorted, under these conditions: the lidar is enabled,
  and the camera only together with the inertial unit; \<open>ros_driver_fix_en\<close> is off; the clouds come in the order
  of their times, which are at least -1, those of the standard callback not empty; and the times of
  inertial messages less their offset lie from one second up to, not including, 2147483648 seconds, so that
  a stamp can hold them. Outside these conditions it can fail: with the camera and without the inertial
  unit, or after an empty standard cloud, the code reads an empty queue or cloud, and a cloud older than
  the last one leaves the queues unpaired.
\<close>

theorem node_safe:
  assumes "lidar_en c" "img_en c \<longrightarrow> imu_en c" "\<not> ros_driver_fix_en c" "in_order c (-1) es"
  shows "\<exists>s p'. run fl c es (mapper_init, p) = Some (s, p') \<and> queues_ok s"
proof -
  have "node_ok c (-1) (mapper_init, p)"
    using queues_ok_init by (simp add: node_ok_def mapper_init_def)
  with run_ok [OF this assms(4,1,2,3), of fl] show ?thesis by (fastforce simp: node_ok_def)
qed

theorem node_safe_witness:
  "\<exists>s p. run (\<lambda>x. x) ex_cfg [Livox_cloud 10 [\<lparr>curvature = 10, coordinates = 1 :: nat\<rparr>],
      Inertial \<lparr>imu_stamp = 10.02, imu_content = 1 :: nat\<rparr>, Picture 10.03 (7 :: nat), Step]
    (mapper_init, ex_p0) = Some (s, p) \<and> queues_ok s"
  by (rule node_safe) (simp_all add: good_time_def)

end
