(* ===== verification/Sync_Times.thy ===== *)
theory Sync_Times
  imports Sync_Node
begin

text \<open>
  What the packages of \<open>LIVMapper::sync_packages\<close> contain: the cut by time, the clock of the filter
  and the points carried over from one package to the next, and the cases in which messages are
  dropped for good, paired wrongly, or given a wrong time.
\<close>

section \<open>One lidar package\<close>

lemma sync_livo_lio_some:
  assumes "sync_livo_lio fl c s = Some r"
  shows "img_time_buffer s \<noteq> []" "lid_header_time_buffer s \<noteq> []" "lid_raw_data_buffer s \<noteq> []"
    "last (lid_raw_data_buffer s) \<noteq> []" "imu_buffer s \<noteq> []"
proof -
  have start: "lid_header_time_buffer s1 = lid_header_time_buffer s \<and>
      lid_raw_data_buffer s1 = lid_raw_data_buffer s \<and> imu_buffer s1 = imu_buffer s"
    if "start_clock s = Some s1" for s1
    using that by (auto simp: start_clock_def split: if_splits Option.bind_splits)
  show "img_time_buffer s \<noteq> []" "lid_header_time_buffer s \<noteq> []" "lid_raw_data_buffer s \<noteq> []"
      "last (lid_raw_data_buffer s) \<noteq> []" "imu_buffer s \<noteq> []"
    using assms start
    by (auto simp: sync_livo_lio_def Let_def back_of_def front_of_def split: Option.bind_splits if_splits)
qed

lemma sync_livo_lio_package:
  assumes "sync_livo_lio fl c s = Some (True, s')"
  obtains cur nxt clouds headers where
    "cut_clouds fl (clock_start s) (capture_time c s) (lid_raw_data_buffer s)
      (lid_header_time_buffer s) = Some (cur, nxt, clouds, headers)"
    "s' = upd_meas (\<lambda>g. g\<lparr>last_lio_update_time := clock_start s, pcl_proc_cur := pcl_proc_next g @ cur,
        pcl_proc_next := nxt, measures := measures g @ [lidar_package c s], lio_vio_flg := LIO\<rparr>)
      (s\<lparr>imu_buffer := snd (take_imu_after (clock_start s) (capture_time c s) (imu_buffer s)),
        lid_raw_data_buffer := clouds, lid_header_time_buffer := headers\<rparr>)"
    "clock_start s + 0.00001 \<le> capture_time c s" "capture_time c s \<le> lidar_newest s"
    "capture_time c s \<le> imu_stamp (last (imu_buffer s))"
  using assms sync_livo_lio_eq [OF sync_livo_lio_some [OF assms], of fl c]
  by (auto simp: Let_def not_less split: if_splits)

lemma sync_LIVO:
  assumes "sync_packages fl c s = Some (True, s')" "slam_mode c = LIVO"
  shows "lio_vio_flg (LidarMeasures s) \<in> {WAIT, VIO} \<and> sync_livo_lio fl c s = Some (True, s') \<or>
    lio_vio_flg (LidarMeasures s) = LIO \<and> sync_livo_vio c s = Some (True, s')"
  using assms by (auto simp: sync_packages_def split: if_splits EKF_STATE.splits)

lemma imu_window:
  assumes "sorted (map imu_stamp ms)"
  shows "take_imu_after t0 t ms = (filter (\<lambda>m. t0 < imu_stamp m \<and> imu_stamp m \<le> t) ms,
    filter (\<lambda>m. t < imu_stamp m) ms)"
  using sorted_while [OF assms, of t] by (simp add: take_imu_after_while conj_commute)

text \<open>
  C28. A lidar package ends at the capture time of the waiting image: its inertial messages are those
  after the last update and up to the capture, and what stays buffered is later. Its points are the
  ones carried over from the last cut and, of the scans begun by then, those before the capture;
  the rest is carried over, its offsets now counted from the capture. Every point keeps its time.
\<close>

theorem package_cut:
  assumes "sync_packages (\<lambda>x. x) c s = Some (True, s')" "slam_mode c = LIVO"
    "lio_vio_flg (LidarMeasures s) \<in> {WAIT, VIO}" "queues_ok s"
  shows "let t = capture_time c s; g = LidarMeasures s; g' = LidarMeasures s';
      t0 = last_lio_update_time g'; m = last (measures g');
      scans = scans_until t (lid_raw_data_buffer s) (lid_header_time_buffer s)
    in lio_vio_flg g' = LIO \<and> t0 < t \<and> lio_time m = t \<and>
      imu m = filter (\<lambda>i. t0 < imu_stamp i \<and> imu_stamp i \<le> t) (imu_buffer s) \<and>
      imu_buffer s' = filter (\<lambda>i. t < imu_stamp i) (imu_buffer s) \<and>
      stamped t0 (pcl_proc_cur g') = stamped t0 (pcl_proc_next g) @ filter (\<lambda>(u, _). u < t) scans \<and>
      stamped t (pcl_proc_next g') = filter (\<lambda>(u, _). \<not> u < t) scans"
proof -
  have livo: "sync_livo_lio (\<lambda>x. x) c s = Some (True, s')" using sync_LIVO [OF assms(1,2)] assms(3) by auto
  have "sorted (map imu_stamp (imu_buffer s))" using assms(4) by (simp add: queues_ok_def)
  note win = imu_window [OF this]
  from livo show ?thesis
    by (rule sync_livo_lio_package)
      (auto simp: Let_def lidar_package_def win dest: cut_clouds_exact)
qed

section \<open>Points are neither lost nor invented\<close>

definition all_points :: "('p, 'i, 'g) mapper \<Rightarrow> 'p multiset" where
  "all_points s = mset (map coordinates (pcl_proc_next (LidarMeasures s))) +
    mset (map coordinates (concat (lid_raw_data_buffer s)))"

text \<open>
  C29. Whatever the rounding to single precision does: the points of a lidar package, the points carried
  over and the points still buffered are together the points that were carried over or buffered before.
\<close>

theorem points_conserved:
  assumes "sync_packages fl c s = Some (True, s')" "slam_mode c = LIVO"
    "lio_vio_flg (LidarMeasures s) \<in> {WAIT, VIO}"
  shows "mset (map coordinates (pcl_proc_cur (LidarMeasures s'))) + all_points s' = all_points s"
proof -
  have livo: "sync_livo_lio fl c s = Some (True, s')" using sync_LIVO [OF assms(1,2)] assms(3) by auto
  then show ?thesis
    by (rule sync_livo_lio_package)
      (auto simp: all_points_def ac_simps dest!: cut_clouds_coordinates)
qed

section \<open>When a package is ready\<close>

text \<open>
  With a scan, an image and an inertial message waiting, a lidar package is made exactly when the
  lidar and the inertial data have reached the capture time, and this is not before the clock of the
  filter: an image that is older is discarded without a package. Once the lidar package has been made,
  the next call makes that of the image.
\<close>

theorem package_ready:
  assumes "queues_ok s" "slam_mode c = LIVO" "imu_en c"
    "lid_raw_data_buffer s \<noteq> []" "img_buffer s \<noteq> []" "imu_buffer s \<noteq> []"
  shows "(\<exists>s'. sync_packages fl c s = Some (True, s')) \<longleftrightarrow>
    (case lio_vio_flg (LidarMeasures s) of
       LO \<Rightarrow> False
     | LIO \<Rightarrow> True
     | _ \<Rightarrow> clock_start s + 0.00001 \<le> capture_time c s \<and> capture_time c s \<le> lidar_newest s \<and>
         capture_time c s \<le> imu_stamp (last (imu_buffer s)))"
proof -
  have ne: "img_time_buffer s \<noteq> []" "lid_header_time_buffer s \<noteq> []"
    using assms(1,4,5) by (auto simp: queues_ok_def)
  have ne': "last (lid_raw_data_buffer s) \<noteq> []"
    using assms(1,4) by (metis queues_ok_def last_in_set)
  obtain cur nxt cl hs where cut: "cut_clouds fl (clock_start s) (capture_time c s)
      (lid_raw_data_buffer s) (lid_header_time_buffer s) = Some (cur, nxt, cl, hs)"
    using cut_clouds_rest assms(1) unfolding queues_ok_def Let_def by metis
  have lio: "(\<exists>s'. sync_livo_lio fl c s = Some (True, s')) \<longleftrightarrow>
      clock_start s + 0.00001 \<le> capture_time c s \<and> capture_time c s \<le> lidar_newest s \<and>
      capture_time c s \<le> imu_stamp (last (imu_buffer s))"
    using assms(5) by (auto simp: sync_livo_lio_eq [OF ne assms(4) ne' assms(6)] Let_def cut deque_some not_less)
  have "\<exists>s'. sync_livo_vio c s = Some (True, s')"
    using assms(5,6) ne by (simp add: sync_livo_vio_def deque_some Let_def)
  then show ?thesis
    using assms(2-) lio by (auto simp: sync_packages_def split: EKF_STATE.splits)
qed

section \<open>The clock of the filter\<close>

text \<open>The times of the points carried over, as the next cut will read them.\<close>

definition waiting :: "('p, 'i, 'g) mapper \<Rightarrow> (real \<times> 'p) list" where
  "waiting s = stamped (last_lio_update_time (LidarMeasures s)) (pcl_proc_next (LidarMeasures s))"

lemma stamped_shift: "stamped (b + d) pcl = map (\<lambda>(u, x). (u + d, x)) (stamped b pcl)"
  by (simp add: stamped_def)

lemma Process2_ready:
  assumes "imu_en c" "\<not> imu_need_init p" "measures g \<noteq> []" "lio_vio_flg g \<in> {LIO, VIO}"
  shows "Process2 c g p = Some (g\<lparr>last_lio_update_time := (if lio_vio_flg g = LIO
    then lio_time (last (measures g)) else vio_time (last (measures g)))\<rparr>, p)"
  using assms by (auto simp: Process2_def deque_some Let_def)

lemma Process2_measures: "Process2 c g p = Some (g', p') \<Longrightarrow> measures g' = measures g"
  by (auto simp: Process2_def Forward_without_imu_def Let_def split: if_splits Option.bind_splits)

text \<open>
  C30. Once the gravity is initialised, the step after a lidar package moves the filter's clock to
  the capture time, and with it the carried-over points keep the times they were measured at; the
  image package that follows for the same image leaves both as they are.
\<close>

theorem package_times:
  assumes "run_step (\<lambda>x. x) c (s, p) = Some (s', p')" "slam_mode c = LIVO" "imu_en c" "\<not> imu_need_init p"
    "sync_packages (\<lambda>x. x) c s = Some (True, s1)" "img_time_buffer s \<noteq> []"
  shows "last_lio_update_time (LidarMeasures s') = capture_time c s \<and>
    (if lio_vio_flg (LidarMeasures s) = LIO
     then last_lio_update_time (LidarMeasures s) = capture_time c s \<longrightarrow> waiting s' = waiting s
     else waiting s' = filter (\<lambda>(u, _). \<not> u < capture_time c s)
       (scans_until (capture_time c s) (lid_raw_data_buffer s) (lid_header_time_buffer s)))"
proof (cases "lio_vio_flg (LidarMeasures s) = LIO")
  case True
  then have "sync_livo_vio c s = Some (True, s1)" using sync_LIVO [OF assms(5,2)] by auto
  then show ?thesis
    using assms True
    by (auto simp: run_step_def sync_livo_vio_def deque_some Let_def Process2_ready waiting_def
        split: Option.bind_splits)
next
  case False
  then have "sync_livo_lio (\<lambda>x. x) c s = Some (True, s1)" using sync_LIVO [OF assms(5,2)] by auto
  then show ?thesis
    by (rule sync_livo_lio_package)
      (use assms False in \<open>auto simp: run_step_def Process2_ready waiting_def lidar_package_def
        dest: cut_clouds_exact(2)\<close>)
qed

text \<open>
  C32. An image that arrives between a lidar package and its image package takes the place of the
  image the lidar data was cut at: the image package then pairs it with the older state, and the
  clock, moved to the new capture time, makes every carried-over point later by the difference.
\<close>

theorem image_swap:
  assumes "queues_ok s" "slam_mode c = LIVO" "imu_en c" "\<not> hilti_en c" "\<not> imu_need_init p"
    "lio_vio_flg (LidarMeasures s) = LIO" "lid_raw_data_buffer s \<noteq> []" "imu_buffer s \<noteq> []"
    "0 \<le> last_timestamp_lidar s" "last_timestamp_img s + 0.05 \<le> u + img_time_offset c"
  shows "\<exists>s'. run (\<lambda>x. x) c [Picture u g, Step] (s, p) = Some (s', p) \<and>
    (let t = u + img_time_offset c + exposure_time_init c;
         t0 = last_lio_update_time (LidarMeasures s);
         m = last (measures (LidarMeasures s'))
     in lio_vio_flg (LidarMeasures s') = VIO \<and> img m = Some g \<and> vio_time m = t \<and> lio_time m = t0 \<and>
       waiting s' = map (\<lambda>(v, x). (v + (t - t0), x)) (waiting s))"
proof -
  define n where "n = length (img_buffer s)"
  have en: "img_en c" using assms(2) by (auto simp: slam_mode_def split: if_splits)
  have "length (img_buffer s) = length (img_time_buffer s)" "n = 0 \<or> n = 1"
    using assms(1) by (auto simp: queues_ok_def n_def le_Suc_eq)
  then have keep: "drop n (img_buffer s @ [g]) = [g]"
    "drop n (img_time_buffer s @ [u + img_time_offset c]) = [u + img_time_offset c]"
    "length (img_buffer s @ [g]) = length (img_time_buffer s @ [u + img_time_offset c])"
    by (auto simp: n_def)
  let ?s1 = "s\<lparr>img_buffer := [g], img_time_buffer := [u + img_time_offset c],
    last_timestamp_img := u + img_time_offset c\<rparr>"
  have pic: "img_cbk c u g s = Some ?s1"
    using assms(4,9,10) en keep drop_old_images_drop [OF keep(3)]
    by (auto simp: img_cbk_def Let_def n_def)
  have "Process2 c h p = Some (h\<lparr>last_lio_update_time := vio_time (last (measures h))\<rparr>, p)"
    if "lio_vio_flg h = VIO" "measures h \<noteq> []" for h :: "('a, 'b, 'c) LidarMeasureGroup"
    using assms(3,5) that by (simp add: Process2_ready)
  then show ?thesis
    using assms(2,6-8)
    by (auto simp: pic run_step_def sync_packages_def sync_livo_vio_def deque_some Let_def waiting_def
        stamped_shift [symmetric])
qed

text \<open>
  While the gravity is being initialised, the clock stays where it is although the offsets of the
  carried-over points are already counted from the capture time.
\<close>

theorem waiting_during_init:
  assumes "sync_packages (\<lambda>x. x) c s = Some (True, s1)" "slam_mode c = LIVO" "imu_en c"
    "lio_vio_flg (LidarMeasures s) \<in> {WAIT, VIO}" "imu_need_init p"
    "run_step (\<lambda>x. x) c (s, p) = Some (s', p')"
  shows "let t = capture_time c s; t0 = clock_start s in t0 < t \<and>
    last_lio_update_time (LidarMeasures s') = t0 \<and>
    waiting s' = map (\<lambda>(u, x). (u - (t - t0), x)) (filter (\<lambda>(u, _). \<not> u < t)
      (scans_until t (lid_raw_data_buffer s) (lid_header_time_buffer s)))"
proof -
  let ?scans = "scans_until (capture_time c s) (lid_raw_data_buffer s) (lid_header_time_buffer s)"
  have livo: "sync_livo_lio (\<lambda>x. x) c s = Some (True, s1)" using sync_LIVO [OF assms(1,2)] assms(4) by auto
  from livo have "capture_time c s > clock_start s \<and> last_lio_update_time (LidarMeasures s1) = clock_start s \<and>
      measures (LidarMeasures s1) \<noteq> [] \<and> stamped (capture_time c s) (pcl_proc_next (LidarMeasures s1)) =
        filter (\<lambda>(u, _). \<not> u < capture_time c s) ?scans"
    by (rule sync_livo_lio_package) (auto dest: cut_clouds_exact(2))
  then have c: "clock_start s < capture_time c s" "last_lio_update_time (LidarMeasures s1) = clock_start s"
      "measures (LidarMeasures s1) \<noteq> []"
      "stamped (capture_time c s) (pcl_proc_next (LidarMeasures s1)) =
        filter (\<lambda>(u, _). \<not> u < capture_time c s) ?scans" by auto
  have "LidarMeasures s' = LidarMeasures s1"
    using assms(1,3,5,6) c(3) by (auto simp: run_step_def Process2_def deque_some Let_def split: if_splits)
  moreover have "stamped (clock_start s) pcl = map (\<lambda>(u, x). (u - (capture_time c s - clock_start s), x))
      (stamped (capture_time c s) pcl)" for pcl :: "'a PointType list"
    by (simp add: stamped_def)
  ultimately show ?thesis using c by (simp add: Let_def waiting_def)
qed

section \<open>Messages that are dropped for good\<close>

text \<open>
  After a gap of more than 0.2 s in the inertial data every later message is dropped: the time of
  the last message, which the gap is measured from, is never moved on.
\<close>

theorem imu_lockout:
  assumes "\<not> ros_driver_fix_en c" "0 < last_timestamp_imu s"
    "\<forall>m \<in> set ms. good_time c m \<and> last_timestamp_imu s + 0.2 + 0.000000001 \<le> imu_stamp m - imu_time_offset c"
  shows "run fl c (map Inertial ms) (s, p) = Some (s, p)"
  using assms(3)
proof (induction ms)
  case (Cons m ms)
  then have m: "good_time c m" "last_timestamp_imu s + 0.2 + 0.000000001 \<le> imu_stamp m - imu_time_offset c"
    by auto
  obtain t where "imu_stamp m - imu_time_offset c < t + 1 / 1000000000"
    "imu_cbk c (imu_need_init p) m s = Some (if \<not> imu_en c \<or> last_timestamp_lidar s < 0 \<or> imu_gap t s
      then s else imu_accept c (imu_need_init p) t m s)"
    using imu_cbk_cases [OF assms(1) m(1)] by metis
  moreover from this m(2) have "imu_gap t s" using assms(2) by (simp add: imu_gap_def)
  ultimately show ?case using Cons by simp
qed simp

text \<open>
  A cloud older than the last one empties the queue of clouds but not that of their times, so from
  then on the front cloud is read with the time of a cloud that is gone.
\<close>

theorem loop_back_mispairs:
  assumes "queues_ok s" "lid_raw_data_buffer s \<noteq> []" "lidar_en c" "u < last_timestamp_lidar s" "cloud \<noteq> []"
  shows "livox_pcl_cbk c u cloud s = Some (s\<lparr>lid_raw_data_buffer := [cloud],
    lid_header_time_buffer := lid_header_time_buffer s @ [u], last_timestamp_lidar := u\<rparr>)"
  using assms by (simp add: livox_pcl_cbk_def Let_def loop_back_def store_cloud_def
      drop_old_frames.simps MAX_LIDAR_BUFFER_def)

text \<open>
  With camera and lidar but without the inertial sensor the mode is still the one that needs it:
  as soon as a cloud and an image are there the front or back of an empty queue is read.
\<close>

theorem livo_without_imu:
  assumes "lidar_en c" "img_en c" "imu_buffer s = []" "\<not> imu_en c" "lio_vio_flg (LidarMeasures s) \<noteq> LO"
    "lid_raw_data_buffer s \<noteq> []" "img_buffer s \<noteq> []"
  shows "sync_packages fl c s = None"
proof -
  have "sync_livo_lio fl c s = None"
    using sync_livo_lio_some(5) [of fl c s] assms(3) by (cases "sync_livo_lio fl c s") auto
  moreover have "sync_livo_vio c s = None"
    using assms(3) by (cases "img_time_buffer s") (simp_all add: sync_livo_vio_def Let_def)
  moreover have "slam_mode c = LIVO" using assms(1,2) by (simp add: slam_mode_def)
  ultimately show ?thesis
    using assms(4-) by (cases "lio_vio_flg (LidarMeasures s)") (simp_all add: sync_packages_def)
qed

text \<open>
  Without the camera nothing ever clears the list of measurement groups: every package makes it
  one longer.
\<close>

theorem measures_grow:
  assumes "slam_mode c \<noteq> LIVO" "run_step fl c (s, p) = Some (s', p')" "sync_packages fl c s = Some (ok, s1)"
  shows "length (measures (LidarMeasures s')) = length (measures (LidarMeasures s)) + (if ok then 1 else 0)"
proof -
  have start: "start_clock s = Some s2 \<Longrightarrow> measures (LidarMeasures s2) = measures (LidarMeasures s)" for s2
    by (auto simp: start_clock_def split: if_splits Option.bind_splits)
  have scan: "take_scan s2 = Some (b, s3) \<Longrightarrow> measures (LidarMeasures s3) = measures (LidarMeasures s2)" for s2 s3 b
    by (auto simp: take_scan_def Let_def split: if_splits Option.bind_splits)
  have "length (measures (LidarMeasures s1)) = length (measures (LidarMeasures s)) + (if ok then 1 else 0)"
    using assms(1,3)
    by (auto simp: sync_packages_def sync_only_lio_def sync_only_lo_def Let_def
        dest!: start scan split: if_splits Option.bind_splits SLAM_MODE.splits prod.splits)
  then show ?thesis
    using assms(2,3) by (auto simp: run_step_def dest: Process2_measures split: if_splits Option.bind_splits)
qed

text \<open>
  C33. The cut does not look at the points carried over: one that is later than the next capture time,
  which two images within one scan are enough for, is put into the package that ends before it.
\<close>

theorem carried_over_uncut:
  assumes "sync_packages (\<lambda>x. x) c s = Some (True, s')" "slam_mode c = LIVO"
    "lio_vio_flg (LidarMeasures s) \<in> {WAIT, VIO}" "0 \<le> last_lio_update_time (LidarMeasures s)"
    "(u, x) \<in> set (waiting s)" "capture_time c s \<le> u"
  shows "let g = LidarMeasures s' in
    (u, x) \<in> set (stamped (last_lio_update_time g) (pcl_proc_cur g)) \<and> lio_time (last (measures g)) \<le> u"
proof -
  have "sync_livo_lio (\<lambda>x. x) c s = Some (True, s')" using sync_LIVO [OF assms(1,2)] assms(3) by auto
  moreover have "clock_start s = last_lio_update_time (LidarMeasures s)"
    using assms(4) by (simp add: clock_start_def)
  ultimately show ?thesis
    using assms(5,6)
    by (elim sync_livo_lio_package) (auto simp: Let_def lidar_package_def waiting_def)
qed

section \<open>Witnesses\<close>

definition ex_s2 :: "(nat, nat, nat) mapper" where
  "ex_s2 = ex_s1\<lparr>lid_raw_data_buffer := [[\<lparr>curvature = 5, coordinates = 3\<rparr>]],
    lid_header_time_buffer := [10.1], img_buffer := [8], img_time_buffer := [10.09],
    imu_buffer := [\<lparr>imu_stamp = 10.05, imu_content = 2\<rparr>, \<lparr>imu_stamp = 10.1, imu_content = 3\<rparr>],
    last_timestamp_lidar := 10.1, last_timestamp_imu := 10.1, last_timestamp_img := 10.09,
    LidarMeasures := (LidarMeasures ex_s1)\<lparr>last_lio_update_time := 10.03, lio_vio_flg := VIO,
      measures := [new_MeasureGroup\<lparr>vio_time := 10.03, lio_time := 10.03, img := Some 7\<rparr>]\<rparr>\<rparr>"

lemma ex_run2: "run (\<lambda>x. x) ex_cfg [Step, Livox_cloud 10.1 [\<lparr>curvature = 5, coordinates = 3\<rparr>], Step,
      Picture 10.09 8, Inertial \<lparr>imu_stamp = 10.1, imu_content = 3\<rparr>] (ex_s, ex_p) = Some (ex_s2, ex_p)"
proof -
  have st: "sec2Stamp (101 / 10) = Some (10, 100000000)" "stamp2Sec (10, 100000000) = 101 / 10"
    by (simp_all add: sec2Stamp_def Let_def stamp2Sec_def)
  show ?thesis
    by (simp add: ex_step)
      (simp add: st ex_s2_def ex_s1_def ex_s_def ex_p_def livox_pcl_cbk_def loop_back_def store_cloud_def
        drop_old_frames.simps drop_old_images.simps MAX_LIDAR_BUFFER_def run_step_def sync_packages_def sync_livo_vio_def
        Process2_def img_cbk_def imu_cbk_def ex_run_simps)
qed

lemma ex_ready2: "\<exists>s'. sync_packages (\<lambda>x. x) ex_cfg ex_s2 = Some (True, s')"
  by (simp add: sync_packages_def ex_s2_def ex_s1_def ex_s_def ex_run_simps sync_livo_lio_def start_clock_def)

theorem package_cut_witness:
  "sync_packages (\<lambda>x. x) ex_cfg ex_s = Some (True, ex_s1) \<and>
    stamped 10.03 (pcl_proc_next (LidarMeasures ex_s1)) = [(10.095, 2)] \<and>
    lio_vio_flg (LidarMeasures ex_s1) = LIO"
  using package_cut [OF ex_package ex_mode(1) _ ex_s_ok]
  by (simp add: ex_flag Let_def ex_package) (simp add: ex_s_def stamped_def)

theorem points_conserved_witness:
  "mset (map coordinates (pcl_proc_cur (LidarMeasures ex_s1))) + all_points ex_s1 = all_points ex_s \<and>
    all_points ex_s = {#1, 2#}"
  using points_conserved [OF ex_package ex_mode(1)]
  by (simp add: ex_flag) (simp add: all_points_def ex_s_def ex_run_simps)

theorem package_ready_witness: "\<exists>s'. sync_packages (\<lambda>x. x) ex_cfg ex_s = Some (True, s')"
  using package_ready [OF ex_s_ok ex_mode(1,2), of "\<lambda>x. x"]
  by (simp add: ex_flag) (simp add: ex_s_def clock_start_def lidar_newest_def ex_run_simps)

theorem package_times_witness:
  "waiting (upd_meas (\<lambda>g. g\<lparr>last_lio_update_time := 10.03\<rparr>) ex_s1) = [(10.095, 2)]"
  using package_times [OF ex_step ex_mode(1,2) _ ex_package]
  by (simp add: ex_flag ex_p_def) (simp add: ex_s_def stamped_def)

theorem image_swap_witness:
  "\<exists>s'. run (\<lambda>x. x) ex_cfg [Picture 10.13 8, Step]
      (upd_meas (\<lambda>g. g\<lparr>last_lio_update_time := 10.03\<rparr>)
        (ex_s1\<lparr>lid_raw_data_buffer := [[\<lparr>curvature = 5, coordinates = 3\<rparr>]],
          lid_header_time_buffer := [10.1], last_timestamp_lidar := 10.1\<rparr>), ex_p) = Some (s', ex_p) \<and>
    waiting s' = [(10.195, 2)]"
proof -
  let ?s = "upd_meas (\<lambda>g. g\<lparr>last_lio_update_time := 10.03\<rparr>)
    (ex_s1\<lparr>lid_raw_data_buffer := [[\<lparr>curvature = 5, coordinates = 3\<rparr>]],
      lid_header_time_buffer := [10.1], last_timestamp_lidar := 10.1\<rparr>)"
  have "queues_ok ?s" by (simp add: queues_ok_def ex_s1_def ex_s_def)
  from image_swap [OF this ex_mode(1,2,5), of ex_p "10.13" 8] show ?thesis
    by (auto simp: ex_s1_def ex_s_def ex_p_def Let_def waiting_def stamped_def)
qed

theorem waiting_during_init_witness: "waiting ex_s1 = [(10.065, 2)]"
proof -
  obtain p where "run_step (\<lambda>x. x) ex_cfg (ex_s, ex_p0) = Some (ex_s1, p)" using ex_step0 by blast
  from waiting_during_init [OF ex_package ex_mode(1,2) _ _ this] show ?thesis
    by (simp add: ex_flag ex_p0_def Let_def)
      (simp add: ex_s_def stamped_def clock_start_def ex_run_simps)
qed

theorem imu_lockout_witness:
  "run (\<lambda>x. x) ex_cfg [Inertial \<lparr>imu_stamp = 10.3, imu_content = 3\<rparr>,
      Inertial \<lparr>imu_stamp = 20, imu_content = 4\<rparr>] (ex_s, ex_p) = Some (ex_s, ex_p)"
  using imu_lockout [OF ex_mode(6), of ex_s "[\<lparr>imu_stamp = 10.3, imu_content = 3\<rparr>,
    \<lparr>imu_stamp = 20, imu_content = 4\<rparr>]" "\<lambda>x. x" ex_p]
  by (simp add: good_time_def) (simp add: ex_s_def)

theorem loop_back_mispairs_witness:
  "\<exists>s'. livox_pcl_cbk ex_cfg 9 [\<lparr>curvature = 1, coordinates = 4\<rparr>] ex_s = Some s' \<and>
    lid_raw_data_buffer s' = [[\<lparr>curvature = 1, coordinates = 4\<rparr>]] \<and> lid_header_time_buffer s' = [10, 9]"
  using loop_back_mispairs [OF ex_s_ok _ ex_mode(3), of 9 "[\<lparr>curvature = 1, coordinates = 4\<rparr>]"]
  by (simp add: ex_s_def)

theorem livo_without_imu_witness:
  "sync_packages (\<lambda>x. x) (ex_cfg\<lparr>imu_en := False\<rparr>) (ex_s\<lparr>imu_buffer := []\<rparr>) = None"
  by (rule livo_without_imu) (simp_all add: ex_cfg_def ex_s_def ex_run_simps)

theorem measures_grow_witness:
  "\<exists>s' p'. run_step (\<lambda>x. x) (ex_cfg\<lparr>img_en := False, imu_en := False\<rparr>) (ex_s, ex_p) = Some (s', p') \<and>
    length (measures (LidarMeasures s')) = 1"
proof -
  let ?c = "ex_cfg\<lparr>img_en := False, imu_en := False\<rparr>"
  have c: "slam_mode ?c \<noteq> LIVO" by (simp add: ex_cfg_def slam_mode_def)
  have "\<exists>s1. sync_packages (\<lambda>x. x) ?c ex_s = Some (True, s1)"
      "\<exists>s' p'. run_step (\<lambda>x. x) ?c (ex_s, ex_p) = Some (s', p')"
    by (simp_all add: run_step_def sync_packages_def slam_mode_def ex_cfg_def ex_s_def sync_only_lo_def
        Process2_def Forward_without_imu_def ex_run_simps)
  then obtain s1 s' p' where r: "sync_packages (\<lambda>x. x) ?c ex_s = Some (True, s1)"
      "run_step (\<lambda>x. x) ?c (ex_s, ex_p) = Some (s', p')" by auto
  with measures_grow [OF c r(2,1)] show ?thesis by (auto simp: ex_s_def ex_run_simps)
qed

theorem carried_over_uncut_witness:
  "\<exists>s'. run (\<lambda>x. x) ex_cfg [Step, Livox_cloud 10.1 [\<lparr>curvature = 5, coordinates = 3\<rparr>], Step,
      Picture 10.09 8, Inertial \<lparr>imu_stamp = 10.1, imu_content = 3\<rparr>] (ex_s, ex_p) = Some (ex_s2, ex_p) \<and>
    sync_packages (\<lambda>x. x) ex_cfg ex_s2 = Some (True, s') \<and>
    (10.095, 2) \<in> set (stamped (last_lio_update_time (LidarMeasures s')) (pcl_proc_cur (LidarMeasures s')))"
proof -
  obtain s' where r: "sync_packages (\<lambda>x. x) ex_cfg ex_s2 = Some (True, s')"
    using ex_ready2 by blast
  have "(10.095, 2) \<in> set (stamped (last_lio_update_time (LidarMeasures s')) (pcl_proc_cur (LidarMeasures s')))"
    using carried_over_uncut [OF r ex_mode(1), of "10.095" 2]
    by (simp add: Let_def ex_s2_def ex_s1_def ex_s_def waiting_def stamped_def)
  with ex_run2 r show ?thesis by blast
qed

end
