(* ===== verification/Octree.thy ===== *)
theory Octree
  imports Complex_Main Prelude
begin

text \<open>
  One voxel of the lidar map, \<open>src/src/fast_livo2/src/voxel_map.cpp\<close> and \<open>include/voxel_map.h\<close>: an
  octree whose nodes collect points until a plane fits them, and split into eight leaves where none
  does. A vector or matrix of Eigen is a function on its indices, a \<open>double\<close> or \<open>float\<close> a real number.
  The eigenvalue solver of Eigen is the parameter \<open>eig\<close>: the real parts of the eigenvalues and, by
  row and column, of the eigenvectors. What a plane keeps for publishing only is left out.
\<close>

section \<open>Data\<close>

type_synonym vec = "nat \<Rightarrow> real"
type_synonym mat = "nat \<Rightarrow> nat \<Rightarrow> real"
type_synonym solver = "mat \<Rightarrow> vec \<times> mat"

record pointWithVar =
  point_w :: vec
  point_var :: mat

record VoxelPlane =
  pl_center :: vec
  pl_normal :: vec
  pl_covariance :: mat
  pl_var :: mat
  pl_radius :: real
  pl_min_eigen_value :: real
  pl_d :: real
  pl_points_size :: int
  is_plane :: bool
  is_init :: bool
  is_update :: bool

definition new_VoxelPlane :: VoxelPlane where
  "new_VoxelPlane = \<lparr>pl_center = (\<lambda>_. 0), pl_normal = (\<lambda>_. 0), pl_covariance = (\<lambda>_ _. 0),
    pl_var = (\<lambda>_ _. 0), pl_radius = 0, pl_min_eigen_value = 1, pl_d = 0, pl_points_size = 0,
    is_plane = False, is_init = False, is_update = False\<rparr>"

text \<open>The fields of \<open>VoxelOctoTree\<close> that are the same in every node, and the ones that are not.\<close>

record tree_config =
  max_layer :: int
  layer_init_num :: "int list"
  max_points_num :: int
  planer_threshold :: real

record node =
  temp_points :: "pointWithVar list"
  plane_ptr :: VoxelPlane
  node_layer :: int
  octo_state :: int
  voxel_center :: vec
  quater_length :: real
  size_threshold :: int
  new_points :: int
  init_octo :: bool
  update_enable :: bool

datatype VoxelOctoTree = Octo (the_node: node) (leaves: "VoxelOctoTree option list")

definition update_size_threshold :: int where "update_size_threshold = 5"

definition new_VoxelOctoTree :: "int \<Rightarrow> int \<Rightarrow> vec \<Rightarrow> real \<Rightarrow> VoxelOctoTree" where
  "new_VoxelOctoTree layer thr center quater =
    Octo \<lparr>temp_points = [], plane_ptr = new_VoxelPlane, node_layer = layer, octo_state = 0,
      voxel_center = center, quater_length = quater, size_threshold = thr, new_points = 0,
      init_octo = False, update_enable = True\<rparr> (replicate 8 None)"

text \<open>A \<open>size_t\<close> compared with an \<open>int\<close>: a negative number becomes a huge one.\<close>

definition exceeds :: "nat \<Rightarrow> int \<Rightarrow> bool" where "exceeds n i \<longleftrightarrow> 0 \<le> i \<and> i < int n"
definition reaches :: "nat \<Rightarrow> int \<Rightarrow> bool" where "reaches n i \<longleftrightarrow> 0 \<le> i \<and> i \<le> int n"

section \<open>Fitting a plane\<close>

text \<open>The indices of the least and the greatest of three numbers, the first on a tie.\<close>

definition evalsMin :: "vec \<Rightarrow> nat" where
  "evalsMin ev = (if ev 0 \<le> ev 1 \<and> ev 0 \<le> ev 2 then 0 else if ev 1 \<le> ev 2 then 1 else 2)"

definition evalsMax :: "vec \<Rightarrow> nat" where
  "evalsMax ev = (if ev 1 \<le> ev 0 \<and> ev 2 \<le> ev 0 then 0 else if ev 2 \<le> ev 1 then 1 else 2)"

definition evalsMid :: "vec \<Rightarrow> int" where
  "evalsMid ev = 3 - int (evalsMin ev) - int (evalsMax ev)"

text \<open>Three equal eigenvalues leave no index for the middle one.\<close>

lemma evalsMid_equal: "ev 0 = ev 1 \<Longrightarrow> ev 1 = ev 2 \<Longrightarrow> evalsMid ev = 3"
  by (simp add: evalsMid_def evalsMin_def evalsMax_def)

definition sum3 :: "(nat \<Rightarrow> real) \<Rightarrow> real" where "sum3 f = f 0 + f 1 + f 2"

definition plane_center :: "pointWithVar list \<Rightarrow> vec" where
  "plane_center points j = (\<Sum>pv \<leftarrow> points. point_w pv j) / real (length points)"

definition plane_covariance :: "pointWithVar list \<Rightarrow> mat" where
  "plane_covariance points i j =
    (\<Sum>pv \<leftarrow> points. point_w pv i * point_w pv j) / real (length points) -
      plane_center points i * plane_center points j"

text \<open>The 6 by 3 matrix \<open>J\<close> of one point, from the matrix \<open>F\<close> and \<open>J_Q\<close>.\<close>

definition plane_F :: "nat \<Rightarrow> vec \<Rightarrow> vec \<Rightarrow> mat \<Rightarrow> vec \<Rightarrow> mat" where
  "plane_F n center ev evec p m k =
    (if m \<noteq> evalsMin ev
     then sum3 (\<lambda>l. (p l - center l) / (real n * (ev (evalsMin ev) - ev m)) *
       (evec l m * evec k (evalsMin ev) + evec l (evalsMin ev) * evec k m))
     else 0)"

definition plane_J :: "nat \<Rightarrow> vec \<Rightarrow> vec \<Rightarrow> mat \<Rightarrow> vec \<Rightarrow> mat" where
  "plane_J n center ev evec p r k =
    (if r < 3 then sum3 (\<lambda>m. evec r m * plane_F n center ev evec p m k)
     else if r - 3 = k then 1 / real n else 0)"

definition plane_variance :: "pointWithVar list \<Rightarrow> vec \<Rightarrow> vec \<Rightarrow> mat \<Rightarrow> mat" where
  "plane_variance points center ev evec r s =
    (\<Sum>pv \<leftarrow> points. let J = plane_J (length points) center ev evec (point_w pv)
      in sum3 (\<lambda>k. sum3 (\<lambda>l. J r k * point_var pv k l * J s l)))"

definition init_plane ::
  "solver \<Rightarrow> tree_config \<Rightarrow> pointWithVar list \<Rightarrow> VoxelPlane \<Rightarrow> VoxelPlane" where
  "init_plane eig c points plane =
    (let center = plane_center points;
         plane = plane\<lparr>pl_var := (\<lambda>_ _. 0), pl_covariance := plane_covariance points,
           pl_center := center, pl_normal := (\<lambda>_. 0), pl_points_size := int (length points), pl_radius := 0\<rparr>;
         (ev, evec) = eig (plane_covariance points);
         mn = evalsMin ev;
         normal = (\<lambda>i. evec i mn)
     in if ev mn < planer_threshold c
        then plane\<lparr>pl_var := plane_variance points center ev evec, pl_normal := normal,
          pl_min_eigen_value := ev mn, pl_radius := sqrt (ev (evalsMax ev)),
          pl_d := - sum3 (\<lambda>i. normal i * center i), is_plane := True, is_update := True, is_init := True\<rparr>
        else plane\<lparr>is_update := True, is_plane := False\<rparr>)"

section \<open>Cutting\<close>

definition octant :: "node \<Rightarrow> vec \<Rightarrow> nat \<Rightarrow> nat" where
  "octant nd p j = (if p j > voxel_center nd j then 1 else 0)"

definition leafnum :: "node \<Rightarrow> vec \<Rightarrow> nat" where
  "leafnum nd p = 4 * octant nd p 0 + 2 * octant nd p 1 + octant nd p 2"

definition nth_of :: "'a list \<Rightarrow> int \<Rightarrow> 'a option" where
  "nth_of xs i = (if 0 \<le> i \<and> nat i < length xs then Some (xs ! nat i) else None)"

definition new_leaf :: "tree_config \<Rightarrow> node \<Rightarrow> vec \<Rightarrow> VoxelOctoTree option" where
  "new_leaf c nd p = do {
     thr \<leftarrow> nth_of (layer_init_num c) (node_layer nd + 1);
     Some (new_VoxelOctoTree (node_layer nd + 1) thr
       (\<lambda>j. voxel_center nd j + (2 * real (octant nd p j) - 1) * quater_length nd)
       (quater_length nd / 2))
   }"

definition get_leaf ::
  "tree_config \<Rightarrow> node \<Rightarrow> VoxelOctoTree option list \<Rightarrow> vec \<Rightarrow> VoxelOctoTree option" where
  "get_leaf c nd ls p = (case ls ! leafnum nd p of None \<Rightarrow> new_leaf c nd p | Some t \<Rightarrow> Some t)"

definition push_point :: "pointWithVar \<Rightarrow> node \<Rightarrow> node" where
  "push_point pv nd = nd\<lparr>temp_points := temp_points nd @ [pv], new_points := new_points nd + 1\<rparr>"

definition freeze :: "node \<Rightarrow> node" where
  "freeze nd = nd\<lparr>update_enable := False, temp_points := [], new_points := 0\<rparr>"

fun place_points :: "tree_config \<Rightarrow> node \<Rightarrow> pointWithVar list \<Rightarrow> VoxelOctoTree option list \<Rightarrow>
    VoxelOctoTree option list option" where
  "place_points c nd [] ls = Some ls"
| "place_points c nd (pv # pvs) ls = do {
     t \<leftarrow> get_leaf c nd ls (point_w pv);
     place_points c nd pvs
       (ls[leafnum nd (point_w pv) := Some (Octo (push_point pv (the_node t)) (leaves t))])
   }"

text \<open>The second loop: what it does to one leaf, and whether it resets the counter of the parent.\<close>

definition settle_leaf :: "solver \<Rightarrow> tree_config \<Rightarrow> (VoxelOctoTree \<Rightarrow> VoxelOctoTree option) \<Rightarrow>
    VoxelOctoTree \<Rightarrow> (bool \<times> VoxelOctoTree) option" where
  "settle_leaf eig c cut_leaf t =
    (let nd = the_node t; ls = leaves t; n = length (temp_points nd)
     in if exceeds n (size_threshold nd)
        then
          let plane = init_plane eig c (temp_points nd) (plane_ptr nd); nd = nd\<lparr>plane_ptr := plane\<rparr>
          in if is_plane plane
             then
               let nd = nd\<lparr>octo_state := 0\<rparr>; full = exceeds n (max_points_num c);
                   nd = (if full then nd\<lparr>update_enable := False, temp_points := []\<rparr> else nd)
               in Some (full, Octo (nd\<lparr>init_octo := True, new_points := 0\<rparr>) ls)
             else do {
               t \<leftarrow> cut_leaf (Octo (nd\<lparr>octo_state := 1\<rparr>) ls);
               Some (False, Octo ((the_node t)\<lparr>init_octo := True, new_points := 0\<rparr>) (leaves t))
             }
        else Some (False, t))"

fun settle_leaves :: "(VoxelOctoTree \<Rightarrow> (bool \<times> VoxelOctoTree) option) \<Rightarrow>
    VoxelOctoTree option list \<Rightarrow> (bool \<times> VoxelOctoTree option list) option" where
  "settle_leaves settle [] = Some (False, [])"
| "settle_leaves settle (None # ls) =
    map_option (\<lambda>(b, ls). (b, None # ls)) (settle_leaves settle ls)"
| "settle_leaves settle (Some t # ls) = do {
     (b, t) \<leftarrow> settle t;
     (b', ls) \<leftarrow> settle_leaves settle ls;
     Some (b \<or> b', Some t # ls)
   }"

text \<open>
  \<open>fuel\<close> bounds the depth of the recursion; \<open>None\<close> is running out of it, or the read of a threshold
  behind the end of \<open>layer_init_num\<close>.
\<close>

primrec cut_octo_tree ::
  "solver \<Rightarrow> tree_config \<Rightarrow> nat \<Rightarrow> VoxelOctoTree \<Rightarrow> VoxelOctoTree option" where
  "cut_octo_tree eig c 0 t = None"
| "cut_octo_tree eig c (Suc fuel) t =
    (let nd = the_node t
     in if node_layer nd \<ge> max_layer c then Some (Octo (nd\<lparr>octo_state := 0\<rparr>) (leaves t))
        else do {
          ls \<leftarrow> place_points c nd (temp_points nd) (leaves t);
          (reset, ls) \<leftarrow> settle_leaves (settle_leaf eig c (cut_octo_tree eig c fuel)) ls;
          Some (Octo (if reset then nd\<lparr>new_points := 0\<rparr> else nd) ls)
        })"

definition init_octo_tree ::
  "solver \<Rightarrow> tree_config \<Rightarrow> nat \<Rightarrow> VoxelOctoTree \<Rightarrow> VoxelOctoTree option" where
  "init_octo_tree eig c fuel t =
    (let nd = the_node t; ls = leaves t; n = length (temp_points nd)
     in if exceeds n (size_threshold nd)
        then
          let plane = init_plane eig c (temp_points nd) (plane_ptr nd); nd = nd\<lparr>plane_ptr := plane\<rparr>
          in do {
            t \<leftarrow> (if is_plane plane
              then
                let nd = nd\<lparr>octo_state := 0\<rparr>
                in Some (Octo (if exceeds n (max_points_num c) then freeze nd else nd) ls)
              else cut_octo_tree eig c fuel (Octo (nd\<lparr>octo_state := 1\<rparr>) ls));
            Some (Octo ((the_node t)\<lparr>init_octo := True, new_points := 0\<rparr>) (leaves t))
          }
        else Some t)"

section \<open>Adding a point\<close>

text \<open>The two branches that refit the plane of an initialised node, \<open>full\<close> being their bound.\<close>

definition refit :: "solver \<Rightarrow> tree_config \<Rightarrow> (nat \<Rightarrow> bool) \<Rightarrow> pointWithVar \<Rightarrow> node \<Rightarrow> node" where
  "refit eig c full pv nd =
    (let nd = push_point pv nd;
         nd = (if new_points nd > update_size_threshold
           then nd\<lparr>plane_ptr := init_plane eig c (temp_points nd) (plane_ptr nd), new_points := 0\<rparr>
           else nd)
     in if full (length (temp_points nd)) then freeze nd else nd)"

primrec UpdateOctoTree ::
  "solver \<Rightarrow> tree_config \<Rightarrow> nat \<Rightarrow> VoxelOctoTree \<Rightarrow> pointWithVar \<Rightarrow> VoxelOctoTree option" where
  "UpdateOctoTree eig c 0 t pv = None"
| "UpdateOctoTree eig c (Suc fuel) t pv =
    (let nd = the_node t; ls = leaves t
     in if \<not> init_octo nd
        then
          let nd = push_point pv nd
          in if exceeds (length (temp_points nd)) (size_threshold nd)
             then init_octo_tree eig c fuel (Octo nd ls) else Some (Octo nd ls)
        else if is_plane (plane_ptr nd)
        then Some (Octo (if update_enable nd then refit eig c (\<lambda>n. reaches n (max_points_num c)) pv nd else nd) ls)
        else if node_layer nd < max_layer c
        then do {
          leaf \<leftarrow> get_leaf c nd ls (point_w pv);
          leaf \<leftarrow> UpdateOctoTree eig c fuel leaf pv;
          Some (Octo nd (ls[leafnum nd (point_w pv) := Some leaf]))
        }
        else Some (Octo (if update_enable nd then refit eig c (\<lambda>n. exceeds n (max_points_num c)) pv nd else nd) ls))"

section \<open>Finding the node of a point\<close>

definition leaf_at :: "VoxelOctoTree option list \<Rightarrow> nat \<Rightarrow> VoxelOctoTree option" where
  "leaf_at ls k = (if k < length ls then ls ! k else None)"

lemma leaf_at_size: "leaf_at ls k = Some t \<Longrightarrow> size t < Suc (size_list (size_option size) ls)"
proof -
  assume "leaf_at ls k = Some t"
  then have "Some t \<in> set ls" by (metis leaf_at_def nth_mem option.distinct(1))
  then show ?thesis by (induction ls) auto
qed

function find_correspond :: "tree_config \<Rightarrow> VoxelOctoTree \<Rightarrow> vec \<Rightarrow> VoxelOctoTree" where
  "find_correspond c (Octo nd ls) pw =
    (if \<not> init_octo nd \<or> is_plane (plane_ptr nd) \<or> node_layer nd \<ge> max_layer c then Octo nd ls
     else case leaf_at ls (leafnum nd pw) of
       None \<Rightarrow> Octo nd ls
     | Some t \<Rightarrow> find_correspond c t pw)"
  by pat_completeness auto
termination by (relation "measure (\<lambda>(c, t, pw). size t)") (auto dest: leaf_at_size)

declare find_correspond.simps [simp del]

section \<open>Well-formed trees\<close>

definition in_cube :: "node \<Rightarrow> vec \<Rightarrow> bool" where
  "in_cube nd p \<longleftrightarrow> (\<forall>j < 3. \<bar>p j - voxel_center nd j\<bar> \<le> 2 * quater_length nd)"

text \<open>The leaf \<open>k\<close> is the right eighth of its parent, one layer below.\<close>

definition child_of :: "node \<Rightarrow> nat \<Rightarrow> node \<Rightarrow> bool" where
  "child_of nd k nd' \<longleftrightarrow> node_layer nd' = node_layer nd + 1 \<and> quater_length nd' = quater_length nd / 2 \<and>
    (\<forall>p. in_cube nd p \<longrightarrow> leafnum nd p = k \<longrightarrow> in_cube nd' p)"

inductive tree_ok :: "tree_config \<Rightarrow> VoxelOctoTree \<Rightarrow> bool" for c where
  "tree_ok c (Octo nd ls)" if "node_layer nd \<le> max_layer c" "0 \<le> node_layer nd" "length ls = 8"
    "\<forall>pv \<in> set (temp_points nd). in_cube nd (point_w pv)"
    "\<not> init_octo nd \<Longrightarrow> ls = replicate 8 None \<and> update_enable nd"
    "\<not> update_enable nd \<Longrightarrow> temp_points nd = []"
    "is_plane (plane_ptr nd) \<Longrightarrow> ls = replicate 8 None"
    "\<forall>k < 8. \<forall>t. ls ! k = Some t \<longrightarrow> child_of nd k (the_node t) \<and> tree_ok c t"

inductive_simps tree_ok_simps: "tree_ok c (Octo nd ls)"

definition config_ok :: "tree_config \<Rightarrow> bool" where
  "config_ok c \<longleftrightarrow> max_layer c < int (length (layer_init_num c))"

definition same_place :: "node \<Rightarrow> node \<Rightarrow> bool" where
  "same_place nd nd' \<longleftrightarrow> node_layer nd' = node_layer nd \<and> voxel_center nd' = voxel_center nd \<and>
    quater_length nd' = quater_length nd"

lemma same_place_refl [simp]: "same_place nd nd"
  by (simp add: same_place_def)

lemma same_place_child: "child_of nd k nd1 \<Longrightarrow> same_place nd1 nd2 \<Longrightarrow> child_of nd k nd2"
  by (simp add: child_of_def same_place_def in_cube_def)

lemma leafnum_less: "leafnum nd p < 8"
  by (simp add: leafnum_def octant_def)

lemma octant_bits: "octant nd p 0 = leafnum nd p div 4" "octant nd p 1 = leafnum nd p div 2 mod 2"
  "octant nd p 2 = leafnum nd p mod 2"
  by (simp_all add: leafnum_def octant_def)

lemma octant_eq: "leafnum nd p = leafnum nd q \<Longrightarrow> j < 3 \<Longrightarrow> octant nd p j = octant nd q j"
proof -
  assume *: "leafnum nd p = leafnum nd q" "j < 3"
  then have "j = 0 \<or> j = 1 \<or> j = 2" by auto
  then show ?thesis using *(1) octant_bits by metis
qed

lemma new_leaf_child:
  assumes "new_leaf c nd q = Some t" "in_cube nd q"
  shows "child_of nd (leafnum nd q) (the_node t)"
proof -
  from assms obtain thr where t: "t = new_VoxelOctoTree (node_layer nd + 1) thr
      (\<lambda>j. voxel_center nd j + (2 * real (octant nd q j) - 1) * quater_length nd) (quater_length nd / 2)"
    by (auto simp: new_leaf_def split: Option.bind_splits)
  have "in_cube (the_node t) p" if p: "in_cube nd p" "leafnum nd p = leafnum nd q" for p
  proof -
    have "\<bar>p j - (voxel_center nd j + (2 * real (octant nd q j) - 1) * quater_length nd)\<bar> \<le> quater_length nd"
      if "j < 3" for j
    proof -
      have "octant nd p j = octant nd q j" using octant_eq p(2) that by metis
      then show ?thesis using p(1) that
        by (auto simp: in_cube_def octant_def abs_le_iff split: if_splits; force)
    qed
    then show ?thesis by (simp add: in_cube_def t new_VoxelOctoTree_def)
  qed
  then show ?thesis by (simp add: child_of_def t new_VoxelOctoTree_def)
qed

lemma new_leaf_some:
  assumes "config_ok c" "0 \<le> node_layer nd" "node_layer nd < max_layer c"
  shows "\<exists>t. new_leaf c nd p = Some t"
  using assms by (auto simp: new_leaf_def nth_of_def config_ok_def)

lemma new_leaf_ok:
  assumes "new_leaf c nd p = Some t" "0 \<le> node_layer nd" "node_layer nd < max_layer c"
  shows "tree_ok c t \<and> \<not> init_octo (the_node t) \<and> node_layer (the_node t) = node_layer nd + 1"
  using assms
  by (auto simp: new_leaf_def new_VoxelOctoTree_def tree_ok_simps split: Option.bind_splits)

text \<open>All leaves of a node at once.\<close>

definition leaves_ok :: "tree_config \<Rightarrow> node \<Rightarrow> VoxelOctoTree option list \<Rightarrow> bool" where
  "leaves_ok c nd ls \<longleftrightarrow> length ls = 8 \<and>
    (\<forall>k < 8. \<forall>t. ls ! k = Some t \<longrightarrow> child_of nd k (the_node t) \<and> tree_ok c t)"

lemma leaves_ok_update:
  assumes "leaves_ok c nd ls" "child_of nd k (the_node t)" "tree_ok c t" "k < 8"
  shows "leaves_ok c nd (ls[k := Some t])"
  using assms by (auto simp: leaves_ok_def nth_list_update split: if_splits)

lemma get_leaf_ok:
  assumes "config_ok c" "leaves_ok c nd ls" "in_cube nd p" "0 \<le> node_layer nd" "node_layer nd < max_layer c"
  shows "\<exists>t. get_leaf c nd ls p = Some t \<and> child_of nd (leafnum nd p) (the_node t) \<and> tree_ok c t \<and>
    (ls ! leafnum nd p = None \<longrightarrow> \<not> init_octo (the_node t))"
proof (cases "ls ! leafnum nd p")
  case None
  obtain t where t: "new_leaf c nd p = Some t" using new_leaf_some assms(1,4,5) by metis
  with None show ?thesis
    using new_leaf_child [OF t assms(3)] new_leaf_ok [OF t assms(4,5)] by (simp add: get_leaf_def)
next
  case (Some t)
  then show ?thesis using assms(2) leafnum_less [of nd p] by (auto simp: get_leaf_def leaves_ok_def)
qed

lemma same_place_updates [simp]:
  "same_place nd (nd\<lparr>octo_state := s\<rparr>)" "same_place nd (nd\<lparr>plane_ptr := pl\<rparr>)"
  "same_place nd (nd\<lparr>temp_points := ps\<rparr>)" "same_place nd (nd\<lparr>new_points := i\<rparr>)"
  "same_place nd (nd\<lparr>init_octo := b\<rparr>)" "same_place nd (nd\<lparr>update_enable := b\<rparr>)"
  "same_place nd (push_point pv nd)" "same_place nd (freeze nd)"
  by (simp_all add: same_place_def push_point_def freeze_def)

lemma same_place_trans: "same_place a b \<Longrightarrow> same_place b d \<Longrightarrow> same_place a d"
  by (simp add: same_place_def)

lemma child_of_place: "same_place nd nd' \<Longrightarrow> child_of nd = child_of nd'"
  by (intro ext) (simp add: child_of_def same_place_def in_cube_def leafnum_def octant_def)

lemma tree_ok_leaves: "tree_ok c (Octo nd ls) \<Longrightarrow> leaves_ok c nd ls"
  by (auto simp: tree_ok_simps leaves_ok_def)

lemma tree_okI:
  assumes "leaves_ok c nd ls" "same_place nd nd'" "node_layer nd \<le> max_layer c" "0 \<le> node_layer nd"
    "\<And>pv. pv \<in> set (temp_points nd') \<Longrightarrow> in_cube nd (point_w pv)"
    "init_octo nd' \<or> ls = replicate 8 None \<and> update_enable nd'" "update_enable nd' \<or> temp_points nd' = []"
    "is_plane (plane_ptr nd') \<longrightarrow> ls = replicate 8 None"
  shows "tree_ok c (Octo nd' ls)"
proof -
  have "in_cube nd' = in_cube nd" using assms(2) by (intro ext) (simp add: in_cube_def same_place_def)
  moreover have "child_of nd' = child_of nd" using assms(2) child_of_place by metis
  ultimately show ?thesis
    using assms by (auto simp: tree_ok_simps leaves_ok_def same_place_def)
qed

lemma tree_ok_last_layer:
  assumes "tree_ok c (Octo nd ls)" "\<not> node_layer nd < max_layer c"
  shows "ls = replicate 8 None"
proof (rule nth_equalityI)
  fix k
  assume "k < length ls"
  with assms have "child_of nd k (the_node t) \<and> tree_ok c t" if "ls ! k = Some t" for t
    using that by (auto simp: tree_ok_simps)
  moreover have "node_layer (the_node t) \<le> max_layer c" if "tree_ok c t" for t
    using that by (cases t) (simp add: tree_ok_simps)
  ultimately show "ls ! k = replicate 8 None ! k"
    using assms \<open>k < length ls\<close> by (cases "ls ! k") (fastforce simp: child_of_def tree_ok_simps)+
qed (use assms in \<open>simp add: tree_ok_simps\<close>)

end
