(* ===== verification/Octree_Update.thy ===== *)
theory Octree_Update
  imports Octree
begin

text \<open>
  What the operations on one octree do: they return, they keep the tree well-formed, and the node that
  is found for a point is the one that holds it. With the facts on the plane that a node fits.
\<close>

section \<open>Every operation keeps the tree well-formed\<close>

definition fresh :: "VoxelOctoTree \<Rightarrow> bool" where
  "fresh t \<longleftrightarrow> \<not> init_octo (the_node t) \<and> update_enable (the_node t) \<and> leaves t = replicate 8 None"

definition fresh_leaves :: "tree_config \<Rightarrow> node \<Rightarrow> VoxelOctoTree option list \<Rightarrow> bool" where
  "fresh_leaves c nd ls \<longleftrightarrow> leaves_ok c nd ls \<and> (\<forall>k < 8. \<forall>t. ls ! k = Some t \<longrightarrow> fresh t)"

lemma new_leaf_fresh: "new_leaf c nd p = Some t \<Longrightarrow> fresh t"
  by (auto simp: new_leaf_def new_VoxelOctoTree_def fresh_def split: Option.bind_splits)

lemma tree_ok_push:
  assumes "tree_ok c t" "child_of nd k (the_node t)" "in_cube nd p" "leafnum nd p = k" "fresh t" "point_w pv = p"
  shows "tree_ok c (Octo (push_point pv (the_node t)) (leaves t))"
proof (cases t)
  case (Octo nd1 ls1)
  have "in_cube nd1 p" using assms Octo by (auto simp: child_of_def)
  then show ?thesis
    using assms Octo
    by (auto simp: tree_ok_simps push_point_def fresh_def in_cube_def child_of_def leafnum_def octant_def)
qed

lemma place_points_ok:
  assumes "config_ok c" "0 \<le> node_layer nd" "node_layer nd < max_layer c"
    "fresh_leaves c nd ls" "\<forall>pv \<in> set pvs. in_cube nd (point_w pv)"
  shows "\<exists>ls'. place_points c nd pvs ls = Some ls' \<and> fresh_leaves c nd ls'"
  using assms(4,5)
proof (induction pvs arbitrary: ls)
  case (Cons pv pvs)
  let ?k = "leafnum nd (point_w pv)"
  have cube: "in_cube nd (point_w pv)" and ok: "leaves_ok c nd ls"
    using Cons.prems by (auto simp: fresh_leaves_def)
  obtain t where t: "get_leaf c nd ls (point_w pv) = Some t" "child_of nd ?k (the_node t)" "tree_ok c t"
    using get_leaf_ok [OF assms(1) ok cube assms(2,3)] by blast
  have fr: "fresh t"
    using t(1) Cons.prems(1) leafnum_less [of nd "point_w pv"] new_leaf_fresh
    by (auto simp: get_leaf_def fresh_leaves_def split: option.splits)
  let ?t = "Octo (push_point pv (the_node t)) (leaves t)"
  have "tree_ok c ?t" using tree_ok_push [OF t(3,2) cube refl fr refl] .
  moreover have "child_of nd ?k (the_node ?t)" by (auto intro: same_place_child [OF t(2)])
  ultimately have "leaves_ok c nd (ls[?k := Some ?t])"
    using leaves_ok_update [OF ok] leafnum_less by blast
  moreover have "fresh ?t" using fr by (simp add: fresh_def push_point_def)
  ultimately have "fresh_leaves c nd (ls[?k := Some ?t])"
    using Cons.prems(1) by (auto simp: fresh_leaves_def leaves_ok_def nth_list_update leafnum_less)
  from Cons.IH [OF this] Cons.prems(2) show ?case by (simp add: t(1))
qed simp

definition cuts :: "tree_config \<Rightarrow> (VoxelOctoTree \<Rightarrow> VoxelOctoTree option) \<Rightarrow> VoxelOctoTree \<Rightarrow> bool" where
  "cuts c cut_leaf t \<longleftrightarrow> (\<exists>nd' ls'. cut_leaf t = Some (Octo nd' ls') \<and> leaves_ok c (the_node t) ls' \<and>
    same_place (the_node t) nd' \<and> temp_points nd' = temp_points (the_node t) \<and>
    update_enable nd' = update_enable (the_node t) \<and> plane_ptr nd' = plane_ptr (the_node t))"

lemma settle_leaf_ok:
  assumes "tree_ok c t" "fresh t"
    "\<And>nd. same_place (the_node t) nd \<Longrightarrow> temp_points nd = temp_points (the_node t) \<Longrightarrow> update_enable nd \<Longrightarrow>
      cuts c cut_leaf (Octo nd (leaves t))"
  shows "\<exists>b t'. settle_leaf eig c cut_leaf t = Some (b, t') \<and> tree_ok c t' \<and> same_place (the_node t) (the_node t')"
proof (cases t)
  case (Octo nd ls)
  let ?pl = "init_plane eig c (temp_points nd) (plane_ptr nd)"
  have lay: "node_layer nd \<le> max_layer c" "0 \<le> node_layer nd" "\<forall>pv \<in> set (temp_points nd). in_cube nd (point_w pv)"
    using assms(1) by (auto simp: Octo tree_ok_simps)
  have ok: "leaves_ok c nd ls" using assms(1) Octo tree_ok_leaves by blast
  show ?thesis
  proof (cases "exceeds (length (temp_points nd)) (size_threshold nd) \<and> \<not> is_plane ?pl")
    case True
    let ?nd = "nd\<lparr>plane_ptr := ?pl, octo_state := 1\<rparr>"
    have "same_place nd ?nd" by (simp add: same_place_def)
    then obtain nd' ls' where c: "cut_leaf (Octo ?nd ls) = Some (Octo nd' ls')" "leaves_ok c ?nd ls'"
        "same_place ?nd nd'" "temp_points nd' = temp_points nd" "update_enable nd'"
        "plane_ptr nd' = ?pl"
      using assms(3) [of ?nd] assms(2) by (auto simp: Octo cuts_def fresh_def)
    have "tree_ok c (Octo (nd'\<lparr>init_octo := True, new_points := 0\<rparr>) ls')"
      by (rule tree_okI [of c ?nd]) (use True c lay in \<open>auto simp: same_place_def in_cube_def\<close>)
    with True c show ?thesis
      by (auto simp: Octo settle_leaf_def Let_def same_place_def)
  next
    case False
    have "tree_ok c (Octo nd2 ls)" if "same_place nd nd2" "init_octo nd2"
        "temp_points nd2 = temp_points nd \<and> update_enable nd2 \<or> temp_points nd2 = []" for nd2
      by (rule tree_okI [of c nd]) (use that lay ok assms(2) in \<open>auto simp: Octo fresh_def\<close>)
    with False assms(1,2) show ?thesis
      by (auto simp: Octo settle_leaf_def Let_def same_place_def fresh_def)
  qed
qed

lemma settle_leaves_ok:
  assumes "\<And>k t. k < length ls \<Longrightarrow> ls ! k = Some t \<Longrightarrow> \<exists>b t'. settle t = Some (b, t') \<and> P k t'"
  shows "\<exists>b ls'. settle_leaves settle ls = Some (b, ls') \<and> length ls' = length ls \<and>
    (\<forall>k t'. k < length ls \<longrightarrow> ls' ! k = Some t' \<longrightarrow> P k t')"
  using assms
proof (induction ls arbitrary: P)
  case (Cons l ls)
  have "\<exists>b ls'. settle_leaves settle ls = Some (b, ls') \<and> length ls' = length ls \<and>
      (\<forall>k t'. k < length ls \<longrightarrow> ls' ! k = Some t' \<longrightarrow> P (Suc k) t')"
    by (rule Cons.IH) (use Cons.prems in fastforce)
  then obtain b ls' where r: "settle_leaves settle ls = Some (b, ls')" "length ls' = length ls"
      "\<forall>k t'. k < length ls \<longrightarrow> ls' ! k = Some t' \<longrightarrow> P (Suc k) t'" by blast
  show ?case
  proof (cases l)
    case None
    with r show ?thesis by (auto simp: nth_Cons split: nat.splits)
  next
    case (Some t)
    then obtain b1 t' where "settle t = Some (b1, t')" "P 0 t'" using Cons.prems [of 0 t] by auto
    with r Some show ?thesis by (auto simp: nth_Cons split: nat.splits)
  qed
qed (intro exI [of _ False], simp)

lemma cut_octo_tree_ok:
  assumes "config_ok c" "tree_ok c (Octo nd ls)" "ls = replicate 8 None" "nat (max_layer c - node_layer nd) < fuel"
  shows "cuts c (cut_octo_tree eig c fuel) (Octo nd ls)"
  using assms(2-)
proof (induction fuel arbitrary: nd ls)
  case (Suc fuel)
  have lay: "node_layer nd \<le> max_layer c" "0 \<le> node_layer nd" "\<forall>pv \<in> set (temp_points nd). in_cube nd (point_w pv)"
    and ok: "leaves_ok c nd ls"
    using Suc.prems(1) tree_ok_leaves by (auto simp: tree_ok_simps)
  show ?case
  proof (cases "node_layer nd \<ge> max_layer c")
    case True
    then show ?thesis using ok by (auto simp: cuts_def Let_def)
  next
    case False
    have "fresh_leaves c nd ls" using ok Suc.prems(2) by (simp add: fresh_leaves_def)
    then obtain ls1 where ls1: "place_points c nd (temp_points nd) ls = Some ls1" "fresh_leaves c nd ls1"
      using place_points_ok assms(1) lay False by (metis not_le)
    have one: "\<exists>b t'. settle_leaf eig c (cut_octo_tree eig c fuel) t = Some (b, t') \<and>
        child_of nd k (the_node t') \<and> tree_ok c t'"
      if k: "k < length ls1" "ls1 ! k = Some t" for k t
    proof -
      have t: "tree_ok c t" "fresh t" "child_of nd k (the_node t)"
        using k ls1(2) by (auto simp: fresh_leaves_def leaves_ok_def)
      obtain nd1 where nd1: "t = Octo nd1 (replicate 8 None)" using t(2) by (cases t) (auto simp: fresh_def)
      have "cuts c (cut_octo_tree eig c fuel) (Octo nd2 (leaves t))"
        if n: "same_place (the_node t) nd2" "temp_points nd2 = temp_points (the_node t)" "update_enable nd2" for nd2
      proof (rule Suc.IH)
        show "tree_ok c (Octo nd2 (leaves t))"
          by (rule tree_okI [of c nd1]) (use n t nd1 tree_ok_leaves [of c nd1] in \<open>auto simp: tree_ok_simps\<close>)
        show "nat (max_layer c - node_layer nd2) < fuel"
          using Suc.prems(3) n(1) t(3) lay False by (auto simp: same_place_def child_of_def)
      qed (use nd1 in simp)
      from settle_leaf_ok [OF t(1,2) this] t(3) show ?thesis using same_place_child by blast
    qed
    obtain b ls2 where ls2: "settle_leaves (settle_leaf eig c (cut_octo_tree eig c fuel)) ls1 = Some (b, ls2)"
        "length ls2 = length ls1" "\<forall>k t'. k < length ls1 \<longrightarrow> ls2 ! k = Some t' \<longrightarrow> child_of nd k (the_node t') \<and> tree_ok c t'"
      using settle_leaves_ok [where settle = "settle_leaf eig c (cut_octo_tree eig c fuel)" and ls = ls1 and P = "\<lambda>k t'. child_of nd k (the_node t') \<and> tree_ok c t'", OF one] by blast
    then have "leaves_ok c nd ls2" using ls1(2) by (auto simp: leaves_ok_def fresh_leaves_def)
    with ls1(1) ls2(1) False show ?thesis by (auto simp: cuts_def Let_def)
  qed
qed simp

lemma init_octo_tree_ok:
  assumes "config_ok c" "tree_ok c (Octo nd ls)" "\<not> init_octo nd" "nat (max_layer c - node_layer nd) < fuel"
  shows "\<exists>t. init_octo_tree eig c fuel (Octo nd ls) = Some t \<and> tree_ok c t \<and> same_place nd (the_node t)"
proof -
  let ?pl = "init_plane eig c (temp_points nd) (plane_ptr nd)"
  let ?nd = "nd\<lparr>plane_ptr := ?pl, octo_state := 1\<rparr>"
  have lay: "node_layer nd \<le> max_layer c" "0 \<le> node_layer nd" "\<forall>pv \<in> set (temp_points nd). in_cube nd (point_w pv)"
    and none: "ls = replicate 8 None" "update_enable nd" and ok: "leaves_ok c nd ls"
    using assms(2,3) tree_ok_leaves by (auto simp: tree_ok_simps)
  have place: "tree_ok c (Octo nd2 ls)" if "same_place nd nd2" "init_octo nd2 \<or> update_enable nd2"
      "temp_points nd2 = temp_points nd \<and> update_enable nd2 \<or> temp_points nd2 = []" for nd2
    by (rule tree_okI [of c nd]) (use that lay ok none in auto)
  show ?thesis
  proof (cases "exceeds (length (temp_points nd)) (size_threshold nd) \<and> \<not> is_plane ?pl")
    case True
    have "cuts c (cut_octo_tree eig c fuel) (Octo ?nd ls)"
      by (rule cut_octo_tree_ok) (use assms(1,4) none place [of ?nd] in \<open>auto simp: same_place_def\<close>)
    then obtain nd' ls' where c: "cut_octo_tree eig c fuel (Octo ?nd ls) = Some (Octo nd' ls')"
        "leaves_ok c ?nd ls'" "same_place ?nd nd'" "temp_points nd' = temp_points nd" "update_enable nd'"
        "plane_ptr nd' = ?pl"
      using none(2) by (auto simp: cuts_def)
    have "tree_ok c (Octo (nd'\<lparr>init_octo := True, new_points := 0\<rparr>) ls')"
      by (rule tree_okI [of c ?nd]) (use True c lay in \<open>auto simp: same_place_def in_cube_def\<close>)
    with True c show ?thesis by (auto simp: init_octo_tree_def Let_def same_place_def)
  next
    case False
    with place none assms(2) show ?thesis
      by (auto simp: init_octo_tree_def Let_def same_place_def freeze_def)
  qed
qed

lemma refit_place:
  assumes "tree_ok c (Octo nd ls)" "init_octo nd" "update_enable nd" "in_cube nd (point_w pv)" "ls = replicate 8 None"
  shows "tree_ok c (Octo (refit eig c full pv nd) ls) \<and> same_place nd (refit eig c full pv nd)"
proof -
  have lay: "node_layer nd \<le> max_layer c" "0 \<le> node_layer nd" "\<forall>pv \<in> set (temp_points nd). in_cube nd (point_w pv)"
    and ok: "leaves_ok c nd ls"
    using assms(1) tree_ok_leaves by (auto simp: tree_ok_simps)
  have same: "same_place nd (refit eig c full pv nd)"
    by (simp add: refit_def Let_def same_place_def push_point_def freeze_def)
  have pts: "temp_points (refit eig c full pv nd) = temp_points nd @ [pv] \<and> update_enable (refit eig c full pv nd) \<or>
      temp_points (refit eig c full pv nd) = []" "init_octo (refit eig c full pv nd)"
    using assms(2,3) by (simp_all add: refit_def Let_def push_point_def freeze_def)
  show ?thesis
    using same by (auto intro!: tree_okI [of c nd] simp: ok) (use lay pts assms(4,5) in auto)
qed

lemma plane_or_last_layer:
  assumes "tree_ok c (Octo nd ls)" "is_plane (plane_ptr nd) \<or> \<not> node_layer nd < max_layer c"
  shows "ls = replicate 8 None"
  using assms(2)
proof
  assume "is_plane (plane_ptr nd)"
  then show ?thesis using assms(1) by (simp add: tree_ok_simps)
qed (rule tree_ok_last_layer [OF assms(1)])

lemma UpdateOctoTree_ok:
  assumes "config_ok c" "tree_ok c t" "in_cube (the_node t) (point_w pv)"
    "nat (max_layer c - node_layer (the_node t)) + 1 < fuel"
  shows "\<exists>t'. UpdateOctoTree eig c fuel t pv = Some t' \<and> tree_ok c t' \<and> same_place (the_node t) (the_node t')"
  using assms(2-)
proof (induction fuel arbitrary: t)
  case (Suc fuel)
  obtain nd ls where t: "t = Octo nd ls" by (cases t)
  have lay: "node_layer nd \<le> max_layer c" "0 \<le> node_layer nd" "\<forall>pv \<in> set (temp_points nd). in_cube nd (point_w pv)"
    and cube: "in_cube nd (point_w pv)" and ok: "leaves_ok c nd ls"
    using Suc.prems tree_ok_leaves by (auto simp: t tree_ok_simps)
  consider (collect) "\<not> init_octo nd" | (refit) "init_octo nd" "is_plane (plane_ptr nd) \<or> \<not> node_layer nd < max_layer c"
    | (descend) "init_octo nd" "\<not> is_plane (plane_ptr nd)" "node_layer nd < max_layer c" by blast
  then show ?case
  proof cases
    case collect
    then have none: "ls = replicate 8 None" "update_enable nd" using Suc.prems(1) by (auto simp: t tree_ok_simps)
    have "tree_ok c (Octo (push_point pv nd) ls)"
      by (rule tree_okI [of c nd]) (use lay cube ok none in \<open>auto simp: push_point_def same_place_def\<close>)
    moreover have "\<not> init_octo (push_point pv nd)" "nat (max_layer c - node_layer (push_point pv nd)) < fuel"
      using collect Suc.prems(3) t by (auto simp: push_point_def)
    ultimately have "\<exists>t'. init_octo_tree eig c fuel (Octo (push_point pv nd) ls) = Some t' \<and> tree_ok c t' \<and>
        same_place (push_point pv nd) (the_node t')"
      by (rule init_octo_tree_ok [OF assms(1)])
    with \<open>tree_ok c (Octo (push_point pv nd) ls)\<close> collect show ?thesis
      by (auto simp: t Let_def intro: same_place_trans [OF same_place_updates(7)])
  next
    case refit
    have "ls = replicate 8 None"
      using plane_or_last_layer [OF Suc.prems(1) [unfolded t] refit(2)] .
    then have "tree_ok c (Octo (refit eig c full pv nd) ls) \<and> same_place nd (refit eig c full pv nd)"
      if "update_enable nd" for full
      using refit_place [OF Suc.prems(1) [unfolded t] refit(1) that cube] by blast
    with refit Suc.prems(1) show ?thesis by (cases "update_enable nd") (auto simp: t Let_def)
  next
    case descend
    obtain leaf where leaf: "get_leaf c nd ls (point_w pv) = Some leaf"
        "child_of nd (leafnum nd (point_w pv)) (the_node leaf)" "tree_ok c leaf"
      using get_leaf_ok [OF assms(1) ok cube lay(2) descend(3)] by blast
    have "in_cube (the_node leaf) (point_w pv)" "nat (max_layer c - node_layer (the_node leaf)) + 1 < fuel"
      using leaf(2) cube Suc.prems(3) descend(3) by (auto simp: child_of_def t)
    from Suc.IH [OF leaf(3) this] obtain leaf' where l': "UpdateOctoTree eig c fuel leaf pv = Some leaf'"
        "tree_ok c leaf'" "same_place (the_node leaf) (the_node leaf')" by blast
    have "leaves_ok c nd (ls[leafnum nd (point_w pv) := Some leaf'])"
      using leaves_ok_update [OF ok same_place_child [OF leaf(2) l'(3)] l'(2) leafnum_less] .
    then have "tree_ok c (Octo nd (ls[leafnum nd (point_w pv) := Some leaf']))"
      by (rule tree_okI) (use Suc.prems(1) descend(1,2) in \<open>auto simp: t tree_ok_simps\<close>)
    with descend leaf(1) l'(1) show ?thesis by (simp add: t Let_def)
  qed
qed simp

section \<open>Finding the node of a point\<close>

lemma find_correspond_ok:
  "tree_ok c t \<Longrightarrow> in_cube (the_node t) p \<Longrightarrow>
    tree_ok c (find_correspond c t p) \<and> in_cube (the_node (find_correspond c t p)) p"
proof (induction c t p rule: find_correspond.induct)
  case (1 c nd ls p)
  show ?case
  proof (cases "\<not> init_octo nd \<or> is_plane (plane_ptr nd) \<or> node_layer nd \<ge> max_layer c \<or>
      leaf_at ls (leafnum nd p) = None")
    case True
    then show ?thesis using 1(2,3) by (auto simp: find_correspond.simps [of c nd ls])
  next
    case False
    then obtain t where t: "leaf_at ls (leafnum nd p) = Some t" by auto
    with 1(2,3) have "child_of nd (leafnum nd p) (the_node t)" "tree_ok c t"
      using leafnum_less [of nd p] by (auto simp: tree_ok_simps leaf_at_def split: if_splits)
    with 1(1) [OF _ t] False 1(3) t show ?thesis
      by (simp add: find_correspond.simps [of c nd ls] child_of_def)
  qed
qed

section \<open>The plane through the points\<close>

lemma sum_list_split:
  fixes f g :: "'a \<Rightarrow> real"
  shows "(\<Sum>x \<leftarrow> xs. f x - g x) = (\<Sum>x \<leftarrow> xs. f x) - (\<Sum>x \<leftarrow> xs. g x)"
    "(\<Sum>x \<leftarrow> xs. f x + g x) = (\<Sum>x \<leftarrow> xs. f x) + (\<Sum>x \<leftarrow> xs. g x)"
    "(\<Sum>x \<leftarrow> xs. a * f x) = a * (\<Sum>x \<leftarrow> xs. f x)" "(\<Sum>x \<leftarrow> xs. f x * a) = (\<Sum>x \<leftarrow> xs. f x) * a"
  by (induction xs) (auto simp: algebra_simps)

text \<open>The covariance of the code is the mean product of the deviations from the centre.\<close>

lemma covariance_deviations:
  assumes "points \<noteq> []"
  shows "plane_covariance points i j = (\<Sum>pv \<leftarrow> points. (point_w pv i - plane_center points i) *
    (point_w pv j - plane_center points j)) / real (length points)"
proof -
  let ?n = "real (length points)" and ?a = "plane_center points i" and ?b = "plane_center points j"
  have n: "?n \<noteq> 0" using assms by simp
  have s: "(\<Sum>pv \<leftarrow> points. point_w pv k) = ?n * plane_center points k" for k
    using n by (simp add: plane_center_def)
  have "(\<Sum>pv \<leftarrow> points. (point_w pv i - ?a) * (point_w pv j - ?b)) =
      (\<Sum>pv \<leftarrow> points. point_w pv i * point_w pv j - ?a * point_w pv j - (point_w pv i * ?b - ?a * ?b))"
    by (simp add: algebra_simps)
  also have "\<dots> = (\<Sum>pv \<leftarrow> points. point_w pv i * point_w pv j) - ?n * ?a * ?b"
    by (simp add: sum_list_split s sum_list_triv algebra_simps)
  finally show ?thesis using n by (simp add: plane_covariance_def diff_divide_distrib)
qed

lemma covariance_psd:
  assumes "points \<noteq> []"
  shows "0 \<le> sum3 (\<lambda>i. sum3 (\<lambda>j. v i * plane_covariance points i j * v j))"
proof -
  let ?n = "real (length points)"
  let ?d = "\<lambda>pv i. point_w pv i - plane_center points i"
  have "sum3 (\<lambda>i. sum3 (\<lambda>j. v i * plane_covariance points i j * v j)) =
      (\<Sum>pv \<leftarrow> points. (sum3 (\<lambda>i. v i * ?d pv i))\<^sup>2) / ?n"
  proof -
    have "(\<Sum>pv \<leftarrow> points. (sum3 (\<lambda>i. v i * ?d pv i))\<^sup>2) =
        sum3 (\<lambda>i. sum3 (\<lambda>j. v i * (\<Sum>pv \<leftarrow> points. ?d pv i * ?d pv j) * v j))"
      by (simp add: sum3_def power2_eq_square algebra_simps flip: sum_list_split)
    then show ?thesis
      by (simp add: covariance_deviations [OF assms] sum3_def add_divide_distrib)
  qed
  moreover have "0 \<le> (\<Sum>pv \<leftarrow> points. (sum3 (\<lambda>i. v i * ?d pv i))\<^sup>2)" by (rule sum_list_nonneg) auto
  ultimately show ?thesis by simp
qed

text \<open>A symmetric variance of the points gives a symmetric variance of the plane.\<close>

lemma plane_variance_symmetric:
  assumes "\<forall>pv \<in> set points. \<forall>k l. point_var pv k l = point_var pv l k"
  shows "plane_variance points center ev evec r s = plane_variance points center ev evec s r"
  using assms by (auto simp: plane_variance_def Let_def sum3_def algebra_simps intro!: arg_cong [where f = sum_list] map_cong)

section \<open>A point is kept by the node that is found for it\<close>

definition kept :: "tree_config \<Rightarrow> pointWithVar \<Rightarrow> VoxelOctoTree \<Rightarrow> bool" where
  "kept c pv t \<longleftrightarrow> (let nd = the_node (find_correspond c t (point_w pv))
    in pv \<in> set (temp_points nd) \<or> \<not> update_enable nd)"

lemma kept_here:
  assumes "\<not> init_octo nd \<or> is_plane (plane_ptr nd) \<or> node_layer nd \<ge> max_layer c \<or>
      leaf_at ls (leafnum nd (point_w pv)) = None"
    "pv \<in> set (temp_points nd) \<or> \<not> update_enable nd"
  shows "kept c pv (Octo nd ls)"
  using assms by (auto simp: kept_def find_correspond.simps)

lemma kept_leaf:
  assumes "kept c pv t" "leaf_at ls (leafnum nd (point_w pv)) = Some t" "init_octo nd"
    "\<not> is_plane (plane_ptr nd)" "node_layer nd < max_layer c"
  shows "kept c pv (Octo nd ls)"
  using assms by (simp add: kept_def find_correspond.simps [of c nd])

lemma place_points_keep:
  assumes "place_points c nd pvs ls = Some ls'" "length ls = 8"
  shows "length ls' = 8 \<and> (\<forall>k t. ls ! k = Some t \<longrightarrow> k < 8 \<longrightarrow>
      (\<exists>t'. ls' ! k = Some t' \<and> set (temp_points (the_node t)) \<subseteq> set (temp_points (the_node t')))) \<and>
    (\<forall>pv \<in> set pvs. \<exists>t. ls' ! leafnum nd (point_w pv) = Some t \<and> pv \<in> set (temp_points (the_node t)))"
  using assms
proof (induction pvs arbitrary: ls)
  case (Cons pv pvs)
  let ?k = "leafnum nd (point_w pv)"
  obtain t where t: "get_leaf c nd ls (point_w pv) = Some t"
      "place_points c nd pvs (ls[?k := Some (Octo (push_point pv (the_node t)) (leaves t))]) = Some ls'"
    using Cons.prems(1) by (auto split: Option.bind_splits)
  let ?ls = "ls[?k := Some (Octo (push_point pv (the_node t)) (leaves t))]"
  have k: "?k < length ls" using Cons.prems(2) leafnum_less by simp
  have old: "\<exists>t1. ?ls ! j = Some t1 \<and> set (temp_points (the_node t0)) \<subseteq> set (temp_points (the_node t1))"
    if "ls ! j = Some t0" for j t0
    using that t(1) k by (cases "j = ?k") (auto simp: get_leaf_def push_point_def)
  have "length ?ls = 8" using Cons.prems(2) by simp
  note ih = Cons.IH [OF t(2) this]
  have "\<exists>t'. ls' ! j = Some t' \<and> set (temp_points (the_node t0)) \<subseteq> set (temp_points (the_node t'))"
    if j: "ls ! j = Some t0" "j < 8" for j t0
  proof -
    obtain t1 where "?ls ! j = Some t1" "set (temp_points (the_node t0)) \<subseteq> set (temp_points (the_node t1))"
      using old j by blast
    moreover from this obtain t2 where "ls' ! j = Some t2"
        "set (temp_points (the_node t1)) \<subseteq> set (temp_points (the_node t2))"
      using ih j by blast
    ultimately show ?thesis by blast
  qed
  moreover have "\<exists>t1. ls' ! ?k = Some t1 \<and> pv \<in> set (temp_points (the_node t1))"
  proof -
    have "?ls ! ?k = Some (Octo (push_point pv (the_node t)) (leaves t))" using k by simp
    with ih leafnum_less [of nd "point_w pv"] obtain t1 where "ls' ! ?k = Some t1"
        "set (temp_points (push_point pv (the_node t))) \<subseteq> set (temp_points (the_node t1))" by fastforce
    then show ?thesis by (auto simp: push_point_def)
  qed
  ultimately show ?case using ih by auto
qed simp

lemma settle_leaf_keeps:
  assumes "settle_leaf eig c cut_leaf t = Some (b, t')" "fresh t" "pv \<in> set (temp_points (the_node t))"
    "\<And>nd t1. cut_leaf (Octo nd (leaves t)) = Some t1 \<Longrightarrow> temp_points nd = temp_points (the_node t) \<Longrightarrow>
      \<not> is_plane (plane_ptr nd) \<Longrightarrow> kept c pv (Octo ((the_node t1)\<lparr>init_octo := True, new_points := 0\<rparr>) (leaves t1))"
  shows "kept c pv t'"
proof (cases t)
  case (Octo nd ls)
  let ?pl = "init_plane eig c (temp_points nd) (plane_ptr nd)"
  show ?thesis
  proof (cases "exceeds (length (temp_points nd)) (size_threshold nd) \<and> \<not> is_plane ?pl")
    case True
    then obtain t1 where "cut_leaf (Octo (nd\<lparr>plane_ptr := ?pl, octo_state := 1\<rparr>) ls) = Some t1"
        "t' = Octo ((the_node t1)\<lparr>init_octo := True, new_points := 0\<rparr>) (leaves t1)"
      using assms(1) by (auto simp: Octo settle_leaf_def Let_def split: Option.bind_splits)
    with assms(4) [of "nd\<lparr>plane_ptr := ?pl, octo_state := 1\<rparr>" t1] True show ?thesis by (simp add: Octo)
  next
    case False
    then show ?thesis
      using assms(1-3)
      by (auto simp: Octo settle_leaf_def Let_def fresh_def intro!: kept_here split: if_splits)
  qed
qed

lemma settle_leaves_at:
  assumes "settle_leaves settle ls = Some (b, ls')" "k < length ls" "ls ! k = Some t"
  shows "\<exists>b t'. settle t = Some (b, t') \<and> ls' ! k = Some t'"
  using assms
proof (induction settle ls arbitrary: b ls' k rule: settle_leaves.induct)
  case (2 settle ls)
  then show ?case by (cases k) auto
next
  case (3 settle t ls)
  then show ?case by (cases k) (auto split: Option.bind_splits)
qed simp

lemma settle_leaves_length: "settle_leaves settle ls = Some (b, ls') \<Longrightarrow> length ls' = length ls"
  by (induction settle ls arbitrary: b ls' rule: settle_leaves.induct) (auto split: Option.bind_splits)

lemma place_points_fresh:
  assumes "place_points c nd pvs ls = Some ls'" "length ls = 8" "\<forall>k < 8. \<forall>t. ls ! k = Some t \<longrightarrow> fresh t"
  shows "\<forall>k < 8. \<forall>t. ls' ! k = Some t \<longrightarrow> fresh t"
  using assms
proof (induction pvs arbitrary: ls)
  case (Cons pv pvs)
  let ?k = "leafnum nd (point_w pv)"
  obtain t where t: "get_leaf c nd ls (point_w pv) = Some t"
      "place_points c nd pvs (ls[?k := Some (Octo (push_point pv (the_node t)) (leaves t))]) = Some ls'"
    using Cons.prems(1) by (auto split: Option.bind_splits)
  have "fresh t"
    using t(1) Cons.prems(3) leafnum_less [of nd "point_w pv"] new_leaf_fresh
    by (cases "ls ! ?k") (auto simp: get_leaf_def)
  then have fr: "fresh (Octo (push_point pv (the_node t)) (leaves t))" by (simp add: fresh_def push_point_def)
  have "fresh t0" if "k < 8" "ls[?k := Some (Octo (push_point pv (the_node t)) (leaves t))] ! k = Some t0" for k t0
    using that fr Cons.prems(2,3) by (cases "k = ?k") auto
  then show ?case using Cons.IH [OF t(2)] Cons.prems(2) by simp
qed simp

lemma cut_keeps:
  assumes "cut_octo_tree eig c fuel (Octo nd (replicate 8 None)) = Some t'" "\<not> is_plane (plane_ptr nd)"
    "pv \<in> set (temp_points nd)"
  shows "kept c pv (Octo ((the_node t')\<lparr>init_octo := True, new_points := 0\<rparr>) (leaves t'))"
  using assms
proof (induction fuel arbitrary: nd t')
  case (Suc fuel)
  show ?case
  proof (cases "node_layer nd \<ge> max_layer c")
    case True
    with Suc.prems show ?thesis by (auto simp: Let_def intro!: kept_here)
  next
    case False
    with Suc.prems obtain ls1 b ls2 where ls: "place_points c nd (temp_points nd) (replicate 8 None) = Some ls1"
        "settle_leaves (settle_leaf eig c (cut_octo_tree eig c fuel)) ls1 = Some (b, ls2)"
        "t' = Octo (if b then nd\<lparr>new_points := 0\<rparr> else nd) ls2"
      by (auto simp: Let_def split: Option.bind_splits)
    let ?k = "leafnum nd (point_w pv)"
    note keep = place_points_keep [OF ls(1), simplified]
    obtain t where t: "ls1 ! ?k = Some t" "pv \<in> set (temp_points (the_node t))"
      using keep Suc.prems(3) by blast
    have len: "length ls1 = 8" using keep by blast
    have fr: "fresh t" using place_points_fresh [OF ls(1)] t(1) leafnum_less [of nd "point_w pv"] by simp
    obtain b' t2 where t2: "settle_leaf eig c (cut_octo_tree eig c fuel) t = Some (b', t2)" "ls2 ! ?k = Some t2"
      using settle_leaves_at [OF ls(2) _ t(1)] leafnum_less len by metis
    have "kept c pv t2"
      by (rule settle_leaf_keeps [OF t2(1) fr t(2)]) (use Suc.IH fr t(2) in \<open>auto simp: fresh_def\<close>)
    moreover have "leaf_at ls2 ?k = Some t2"
      using t2(2) settle_leaves_length [OF ls(2)] len leafnum_less by (simp add: leaf_at_def)
    ultimately show ?thesis
      using ls(3) Suc.prems(2) False by (auto intro!: kept_leaf simp: leafnum_def octant_def)
  qed
qed simp

lemma init_octo_tree_keeps:
  assumes "init_octo_tree eig c fuel (Octo nd ls) = Some t" "ls = replicate 8 None" "\<not> init_octo nd"
    "pv \<in> set (temp_points nd)"
  shows "kept c pv t"
proof (cases "exceeds (length (temp_points nd)) (size_threshold nd) \<and>
    \<not> is_plane (init_plane eig c (temp_points nd) (plane_ptr nd))")
  case True
  let ?nd = "nd\<lparr>plane_ptr := init_plane eig c (temp_points nd) (plane_ptr nd), octo_state := 1\<rparr>"
  obtain t1 where t1: "cut_octo_tree eig c fuel (Octo ?nd (replicate 8 None)) = Some t1"
      "t = Octo ((the_node t1)\<lparr>init_octo := True, new_points := 0\<rparr>) (leaves t1)"
    using assms(1,2) True by (auto simp: init_octo_tree_def Let_def split: Option.bind_splits)
  from cut_keeps [OF t1(1)] True assms(4) t1(2) show ?thesis by simp
next
  case False
  with assms show ?thesis
    by (auto simp: init_octo_tree_def Let_def freeze_def intro!: kept_here split: if_splits)
qed

lemma UpdateOctoTree_keeps:
  assumes "UpdateOctoTree eig c fuel t pv = Some t'" "tree_ok c t"
    "in_cube (the_node t) (point_w pv)" "config_ok c"
  shows "kept c pv t'"
  using assms(1-3)
proof (induction fuel arbitrary: t t')
  case (Suc fuel)
  obtain nd ls where t: "t = Octo nd ls" by (cases t)
  consider (collect) "\<not> init_octo nd" | (refit) "init_octo nd" "is_plane (plane_ptr nd) \<or> \<not> node_layer nd < max_layer c"
    | (descend) "init_octo nd" "\<not> is_plane (plane_ptr nd)" "node_layer nd < max_layer c" by blast
  then show ?case
  proof cases
    case collect
    then have ls: "ls = replicate 8 None" using Suc.prems(2) by (simp add: t tree_ok_simps)
    show ?thesis
    proof (cases "exceeds (length (temp_points (push_point pv nd))) (size_threshold (push_point pv nd))")
      case True
      then have "init_octo_tree eig c fuel (Octo (push_point pv nd) ls) = Some t'"
        using Suc.prems(1) collect by (simp add: t Let_def)
      then show ?thesis
        by (rule init_octo_tree_keeps [OF _ ls]) (use collect in \<open>simp_all add: push_point_def\<close>)
    next
      case False
      with Suc.prems(1) collect show ?thesis
        by (auto simp: t Let_def push_point_def intro!: kept_here)
    qed
  next
    case refit
    then have ls: "ls = replicate 8 None" using plane_or_last_layer Suc.prems(2) t by blast
    then have none: "leaf_at ls k = None" for k by (simp add: leaf_at_def)
    have pts: "pv \<in> set (temp_points (refit eig c full pv nd)) \<or> \<not> update_enable (refit eig c full pv nd)" for full
      by (simp add: refit_def Let_def push_point_def freeze_def)
    show ?thesis
      using Suc.prems(1) refit pts by (auto simp: t Let_def none intro!: kept_here split: if_splits)
  next
    case descend
    have ok: "leaves_ok c nd ls" and lay: "0 \<le> node_layer nd" and cube: "in_cube nd (point_w pv)"
      using Suc.prems(2,3) tree_ok_leaves by (auto simp: t tree_ok_simps)
    obtain leaf where leaf: "get_leaf c nd ls (point_w pv) = Some leaf"
        "child_of nd (leafnum nd (point_w pv)) (the_node leaf)" "tree_ok c leaf"
      using get_leaf_ok [OF assms(4) ok cube lay descend(3)] by blast
    obtain leaf' where l': "UpdateOctoTree eig c fuel leaf pv = Some leaf'"
        "t' = Octo nd (ls[leafnum nd (point_w pv) := Some leaf'])"
      using Suc.prems(1) descend leaf(1) by (auto simp: t Let_def split: Option.bind_splits)
    have "kept c pv leaf'"
      using Suc.IH [OF l'(1) leaf(3)] leaf(2) cube by (simp add: child_of_def)
    moreover have "leaf_at (ls[leafnum nd (point_w pv) := Some leaf']) (leafnum nd (point_w pv)) = Some leaf'"
      using ok leafnum_less [of nd "point_w pv"] by (simp add: leaf_at_def leaves_ok_def)
    ultimately show ?thesis using descend l'(2) by (auto intro: kept_leaf)
  qed
qed simp

end
