(* ===== verification/Voxel_Map.thy ===== *)
theory Voxel_Map
  imports Octree_Update
begin

text \<open>
  The map of voxels, \<open>VoxelMapManager\<close> in \<open>src/src/fast_livo2/src/voxel_map.cpp\<close>: the voxel of a
  point, building and updating the map, matching points with planes, and the sliding of the map. The
  hash map of the code is a map on voxel locations; a location is taken to fit into 64 bits.
\<close>

section \<open>The voxel of a point\<close>

record VOXEL_LOCATION =
  loc_x :: int
  loc_y :: int
  loc_z :: int

definition trunc_int :: "real \<Rightarrow> int" where
  "trunc_int r = (if 0 \<le> r then \<lfloor>r\<rfloor> else \<lceil>r\<rceil>)"

definition loc_xyz :: "real \<Rightarrow> vec \<Rightarrow> vec" where
  "loc_xyz voxel_size p j =
    (let l = p j / voxel_size in if l < 0 then l - 1 else l)"

definition voxel_position :: "real \<Rightarrow> vec \<Rightarrow> VOXEL_LOCATION" where
  "voxel_position voxel_size p = \<lparr>loc_x = trunc_int (loc_xyz voxel_size p 0),
    loc_y = trunc_int (loc_xyz voxel_size p 1), loc_z = trunc_int (loc_xyz voxel_size p 2)\<rparr>"

definition loc_nth :: "VOXEL_LOCATION \<Rightarrow> nat \<Rightarrow> int" where
  "loc_nth v j = (if j = 0 then loc_x v else if j = 1 then loc_y v else loc_z v)"

section \<open>Building and updating\<close>

type_synonym voxel_map = "VOXEL_LOCATION \<Rightarrow> VoxelOctoTree option"

definition new_root :: "tree_config \<Rightarrow> real \<Rightarrow> VOXEL_LOCATION \<Rightarrow> VoxelOctoTree option" where
  "new_root c voxel_size v = do {
     thr \<leftarrow> nth_of (layer_init_num c) 0;
     Some (new_VoxelOctoTree 0 thr (\<lambda>j. (0.5 + real_of_int (loc_nth v j)) * voxel_size) (voxel_size / 4))
   }"

definition get_root :: "tree_config \<Rightarrow> real \<Rightarrow> voxel_map \<Rightarrow> VOXEL_LOCATION \<Rightarrow> VoxelOctoTree option" where
  "get_root c voxel_size m v = (case m v of None \<Rightarrow> new_root c voxel_size v | Some t \<Rightarrow> Some t)"

definition tree_fuel :: "tree_config \<Rightarrow> nat" where
  "tree_fuel c = nat (max_layer c) + 2"

fun collect_points :: "tree_config \<Rightarrow> real \<Rightarrow> pointWithVar list \<Rightarrow> voxel_map \<Rightarrow> voxel_map option" where
  "collect_points c voxel_size [] m = Some m"
| "collect_points c voxel_size (pv # pvs) m = do {
     let v = voxel_position voxel_size (point_w pv);
     t \<leftarrow> get_root c voxel_size m v;
     collect_points c voxel_size pvs (m(v \<mapsto> Octo (push_point pv (the_node t)) (leaves t)))
   }"

text \<open>
  The second loop of \<open>BuildVoxelMap\<close> runs over the hash map in an order of its own; the trees do not
  depend on each other, so the result is given tree by tree.
\<close>

definition BuildVoxelMap ::
  "solver \<Rightarrow> tree_config \<Rightarrow> real \<Rightarrow> pointWithVar list \<Rightarrow> voxel_map \<Rightarrow> voxel_map option" where
  "BuildVoxelMap eig c voxel_size points m = do {
     m \<leftarrow> collect_points c voxel_size points m;
     if \<forall>v \<in> dom m. init_octo_tree eig c (tree_fuel c) (the (m v)) \<noteq> None
     then Some (\<lambda>v. Option.bind (m v) (init_octo_tree eig c (tree_fuel c))) else None
   }"

fun UpdateVoxelMap ::
  "solver \<Rightarrow> tree_config \<Rightarrow> real \<Rightarrow> pointWithVar list \<Rightarrow> voxel_map \<Rightarrow> voxel_map option" where
  "UpdateVoxelMap eig c voxel_size [] m = Some m"
| "UpdateVoxelMap eig c voxel_size (pv # pvs) m = do {
     let v = voxel_position voxel_size (point_w pv);
     t \<leftarrow> get_root c voxel_size m v;
     t \<leftarrow> UpdateOctoTree eig c (tree_fuel c) t pv;
     UpdateVoxelMap eig c voxel_size pvs (m(v \<mapsto> t))
   }"

section \<open>Sliding\<close>

text \<open>The bounds are sums of 64 bits and become an \<open>int\<close> when they are passed.\<close>

definition int32 :: "int \<Rightarrow> int" where
  "int32 x = signed_take_bit 31 x"

definition clearMemOutOfMap ::
  "int \<Rightarrow> int \<Rightarrow> int \<Rightarrow> int \<Rightarrow> int \<Rightarrow> int \<Rightarrow> voxel_map \<Rightarrow> voxel_map" where
  "clearMemOutOfMap x_max x_min y_max y_min z_max z_min m =
    (\<lambda>v. if loc_x v > int32 x_max \<or> loc_x v < int32 x_min \<or> loc_y v > int32 y_max \<or> loc_y v < int32 y_min \<or>
          loc_z v > int32 z_max \<or> loc_z v < int32 z_min then None else m v)"

record sliding_map =
  the_map :: voxel_map
  position_last :: vec
  last_slide_position :: vec

definition mapSliding :: "real \<Rightarrow> real \<Rightarrow> int \<Rightarrow> sliding_map \<Rightarrow> sliding_map" where
  "mapSliding voxel_size sliding_thresh half_map_size s =
    (let d = (\<lambda>j. position_last s j - last_slide_position s j)
     in if sqrt (sum3 (\<lambda>j. d j * d j)) < sliding_thresh then s
        else let l = loc_xyz voxel_size (position_last s);
                 x = trunc_int (l 0); y = trunc_int (l 1); z = trunc_int (l 2)
             in s\<lparr>last_slide_position := position_last s,
               the_map := clearMemOutOfMap (x + half_map_size) (x - half_map_size) (y + half_map_size)
                 (y - half_map_size) (z + half_map_size) (z - half_map_size) (the_map s)\<rparr>)"

section \<open>Matching a point with a plane\<close>

text \<open>The residual keeps the plane, the layer it was found in, and the signed distance from it.\<close>

record residual =
  res_plane :: VoxelPlane
  res_layer :: int
  res_dis_to_plane :: real

text \<open>\<open>sigma_l\<close>, from the row \<open>J_nq\<close> of the deviation from the centre and the negated normal.\<close>

definition sigma_l :: "VoxelPlane \<Rightarrow> pointWithVar \<Rightarrow> real" where
  "sigma_l pl pv =
    (let J_nq = (\<lambda>r. if r < 3 then point_w pv r - pl_center pl r else - pl_normal pl (r - 3))
     in (\<Sum>r < 6. \<Sum>s < 6. J_nq r * pl_var pl r s * J_nq s) +
        sum3 (\<lambda>i. sum3 (\<lambda>j. pl_normal pl i * point_var pv i j * pl_normal pl j)))"

definition signed_distance :: "VoxelPlane \<Rightarrow> pointWithVar \<Rightarrow> real" where
  "signed_distance pl pv = sum3 (\<lambda>i. pl_normal pl i * point_w pv i) + pl_d pl"

text \<open>
  The probability of a match, \<open>None\<close> where the point is too far off. A comparison with the root of a
  negative number, which is not a number, is false.
\<close>

definition plane_match :: "real \<Rightarrow> VoxelPlane \<Rightarrow> pointWithVar \<Rightarrow> real option" where
  "plane_match sigma_num pl pv =
    (let dis_to_plane = \<bar>signed_distance pl pv\<bar>;
         dis_to_center = sum3 (\<lambda>i. (pl_center pl i - point_w pv i) * (pl_center pl i - point_w pv i));
         range2 = dis_to_center - dis_to_plane * dis_to_plane;
         s = sigma_l pl pv
     in if 0 \<le> range2 \<and> sqrt range2 \<le> 3 * pl_radius pl \<and> 0 \<le> s \<and> dis_to_plane < sigma_num * sqrt s
        then Some (1 / sqrt s * exp (- 0.5 * dis_to_plane * dis_to_plane / s))
        else None)"

type_synonym match = "bool \<times> real \<times> residual option"

definition match_plane :: "real \<Rightarrow> pointWithVar \<Rightarrow> int \<Rightarrow> VoxelPlane \<Rightarrow> match \<Rightarrow> match" where
  "match_plane sigma_num pv current_layer pl = (\<lambda>(is_sucess, prob, single).
    case plane_match sigma_num pl pv of
      None \<Rightarrow> (is_sucess, prob, single)
    | Some this_prob \<Rightarrow>
        (True, if this_prob > prob then (this_prob, Some \<lparr>res_plane = pl, res_layer = current_layer,
            res_dis_to_plane = signed_distance pl pv\<rparr>)
          else (prob, single)))"

text \<open>The recursion over the leaves.\<close>

primrec build_single_residual ::
  "real \<Rightarrow> tree_config \<Rightarrow> pointWithVar \<Rightarrow> VoxelOctoTree \<Rightarrow> int \<Rightarrow> match \<Rightarrow> match" where
  "build_single_residual sigma_num c pv (Octo nd ls) = (\<lambda>current_layer m.
    if is_plane (plane_ptr nd) then match_plane sigma_num pv current_layer (plane_ptr nd) m
    else if current_layer < max_layer c
    then fold (\<lambda>leaf m. case leaf of None \<Rightarrow> m | Some f \<Rightarrow> f (current_layer + 1) m)
      (map (map_option (build_single_residual sigma_num c pv)) ls) m
    else m)"

text \<open>The neighbour that is tried when the voxel of the point has no match.\<close>

definition near_step :: "real \<Rightarrow> real \<Rightarrow> real \<Rightarrow> int \<Rightarrow> int" where
  "near_step loc center quater i =
    (if loc > center + quater then i + 1 else if loc < center - quater then i - 1 else i)"

definition near_position :: "real \<Rightarrow> node \<Rightarrow> vec \<Rightarrow> VOXEL_LOCATION" where
  "near_position voxel_size nd p =
    (let l = loc_xyz voxel_size p; v = voxel_position voxel_size p
     in \<lparr>loc_x = near_step (l 0) (voxel_center nd 0) (quater_length nd) (loc_x v),
       loc_y = near_step (l 1) (voxel_center nd 1) (quater_length nd) (loc_y v),
       loc_z = near_step (l 2) (voxel_center nd 2) (quater_length nd) (loc_z v)\<rparr>)"

definition point_residual ::
  "real \<Rightarrow> tree_config \<Rightarrow> real \<Rightarrow> voxel_map \<Rightarrow> pointWithVar \<Rightarrow> residual option" where
  "point_residual sigma_num c voxel_size m pv =
    (case m (voxel_position voxel_size (point_w pv)) of
       None \<Rightarrow> None
     | Some t \<Rightarrow>
         let (ok, prob, single) = build_single_residual sigma_num c pv t 0 (False, 0, None);
             (ok, prob, single) =
               (if ok then (ok, prob, single)
                else case m (near_position voxel_size (the_node t) (point_w pv)) of
                    None \<Rightarrow> (ok, prob, single)
                  | Some t' \<Rightarrow> build_single_residual sigma_num c pv t' 0 (ok, prob, single))
         in if ok then single else None)"

definition BuildResidualListOMP ::
  "real \<Rightarrow> tree_config \<Rightarrow> real \<Rightarrow> voxel_map \<Rightarrow> pointWithVar list \<Rightarrow> residual list" where
  "BuildResidualListOMP sigma_num c voxel_size m pv_list =
    map the (filter (\<lambda>r. r \<noteq> None) (map (point_residual sigma_num c voxel_size m) pv_list))"

section \<open>The voxel of a point\<close>

lemma trunc_loc:
  "trunc_int (loc_xyz s p j) = (if 0 \<le> p j / s then \<lfloor>p j / s\<rfloor> else \<lceil>p j / s\<rceil> - 1)"
  by (simp add: trunc_int_def loc_xyz_def Let_def)

lemma loc_nth_position:
  assumes "j < 3"
  shows "loc_nth (voxel_position s p) j = trunc_int (loc_xyz s p j)"
proof -
  have "j = 0 \<or> j = 1 \<or> j = 2" using assms by auto
  then show ?thesis by (auto simp: voxel_position_def loc_nth_def)
qed

lemma position_bounds:
  assumes "j < 3"
  shows "real_of_int (loc_nth (voxel_position s p) j) \<le> p j / s"
    "p j / s \<le> real_of_int (loc_nth (voxel_position s p) j) + 1"
  using assms by (auto simp: loc_nth_position trunc_loc)

text \<open>The place of a root.\<close>

definition root_place :: "real \<Rightarrow> VOXEL_LOCATION \<Rightarrow> node \<Rightarrow> bool" where
  "root_place s v nd \<longleftrightarrow> node_layer nd = 0 \<and> quater_length nd = s / 4 \<and>
    voxel_center nd = (\<lambda>j. (0.5 + real_of_int (loc_nth v j)) * s)"

lemma root_place_same: "root_place s v nd \<Longrightarrow> same_place nd nd' \<Longrightarrow> root_place s v nd'"
  by (simp add: root_place_def same_place_def)

lemma point_in_root:
  assumes "0 < s" "root_place s (voxel_position s p) nd"
  shows "in_cube nd p"
proof -
  have "\<bar>p j - (0.5 + real_of_int (loc_nth (voxel_position s p) j)) * s\<bar> \<le> s / 2" if "j < 3" for j
  proof -
    let ?i = "real_of_int (loc_nth (voxel_position s p) j)"
    have "?i * s \<le> p j" "p j \<le> (?i + 1) * s"
      using position_bounds [OF that, where s = s and p = p] assms(1) by (simp_all add: pos_le_divide_eq pos_divide_le_eq)
    then have "?i * s \<le> p j" "p j \<le> ?i * s + s" by (simp_all add: algebra_simps)
    then show ?thesis unfolding abs_le_iff distrib_right by linarith
  qed
  moreover have "2 * quater_length nd = s / 2"
      "\<And>j. voxel_center nd j = (0.5 + real_of_int (loc_nth (voxel_position s p) j)) * s"
    using assms(2) by (simp_all add: root_place_def)
  ultimately show ?thesis unfolding in_cube_def by metis
qed

section \<open>The map stays well-formed\<close>

definition map_ok :: "tree_config \<Rightarrow> real \<Rightarrow> voxel_map \<Rightarrow> bool" where
  "map_ok c s m \<longleftrightarrow> (\<forall>v t. m v = Some t \<longrightarrow> tree_ok c t \<and> root_place s v (the_node t))"

lemma map_ok_empty: "map_ok c s Map.empty"
  by (simp add: map_ok_def)

lemma get_root_ok:
  assumes "config_ok c" "0 \<le> max_layer c" "map_ok c s m"
  shows "\<exists>t. get_root c s m v = Some t \<and> tree_ok c t \<and> root_place s v (the_node t)"
proof (cases "m v")
  case None
  then show ?thesis
    using assms(1,2)
    by (auto simp: get_root_def new_root_def nth_of_def config_ok_def new_VoxelOctoTree_def tree_ok_simps
        root_place_def new_VoxelPlane_def)
qed (use assms(3) in \<open>simp add: get_root_def map_ok_def\<close>)

lemma UpdateVoxelMap_ok:
  assumes "config_ok c" "0 \<le> max_layer c" "0 < s" "map_ok c s m"
  shows "\<exists>m'. UpdateVoxelMap eig c s points m = Some m' \<and> map_ok c s m' \<and>
    dom m' = dom m \<union> (\<lambda>pv. voxel_position s (point_w pv)) ` set points"
  using assms(4)
proof (induction points arbitrary: m)
  case (Cons pv points)
  let ?v = "voxel_position s (point_w pv)"
  obtain t where t: "get_root c s m ?v = Some t" "tree_ok c t" "root_place s ?v (the_node t)"
    using get_root_ok [OF assms(1,2) Cons.prems] by blast
  have "in_cube (the_node t) (point_w pv)" using point_in_root [OF assms(3) t(3)] .
  moreover have "nat (max_layer c - node_layer (the_node t)) + 1 < tree_fuel c"
    using t(3) by (simp add: root_place_def tree_fuel_def)
  ultimately obtain t' where t': "UpdateOctoTree eig c (tree_fuel c) t pv = Some t'" "tree_ok c t'"
      "same_place (the_node t) (the_node t')"
    using UpdateOctoTree_ok [OF assms(1) t(2)] by blast
  have "map_ok c s (m(?v \<mapsto> t'))"
    using Cons.prems t'(2) root_place_same [OF t(3) t'(3)] by (auto simp: map_ok_def)
  from Cons.IH [OF this] t(1) t'(1) show ?case by (auto simp: Let_def fun_upd_def dom_def)
qed auto

text \<open>The update of one voxel does not depend on the points of the others.\<close>

lemma UpdateVoxelMap_local:
  assumes "UpdateVoxelMap eig c s points m = Some m'" "m v = n v"
  shows "\<exists>n'. UpdateVoxelMap eig c s (filter (\<lambda>pv. voxel_position s (point_w pv) = v) points) n = Some n' \<and>
    n' v = m' v"
  using assms
proof (induction points arbitrary: m n)
  case (Cons pv points)
  let ?v = "voxel_position s (point_w pv)"
  obtain t t' where t: "get_root c s m ?v = Some t" "UpdateOctoTree eig c (tree_fuel c) t pv = Some t'"
      "UpdateVoxelMap eig c s points (m(?v \<mapsto> t')) = Some m'"
    using Cons.prems(1) by (auto simp: Let_def split: Option.bind_splits)
  show ?case
  proof (cases "?v = v")
    case True
    then have "get_root c s n v = Some t" using t(1) Cons.prems(2) by (simp add: get_root_def)
    with Cons.IH [OF t(3), of "n(?v \<mapsto> t')"] True t(2) show ?thesis by (simp add: Let_def fun_upd_def)
  next
    case False
    with Cons.IH [OF t(3), of n] Cons.prems(2) show ?thesis by simp
  qed
qed simp

section \<open>The best plane\<close>

text \<open>The planes that the recursion reaches, with their layers, in its order.\<close>

primrec tree_planes :: "tree_config \<Rightarrow> VoxelOctoTree \<Rightarrow> int \<Rightarrow> (int \<times> VoxelPlane) list" where
  "tree_planes c (Octo nd ls) = (\<lambda>layer.
    if is_plane (plane_ptr nd) then [(layer, plane_ptr nd)]
    else if layer < max_layer c
    then concat (map (\<lambda>leaf. case leaf of None \<Rightarrow> [] | Some f \<Rightarrow> f (layer + 1))
      (map (map_option (tree_planes c)) ls))
    else [])"

definition match_all :: "real \<Rightarrow> pointWithVar \<Rightarrow> (int \<times> VoxelPlane) list \<Rightarrow> match \<Rightarrow> match" where
  "match_all sigma_num pv pls = fold (\<lambda>(l, pl). match_plane sigma_num pv l pl) pls"

lemma residual_planes:
  "build_single_residual sigma_num c pv t layer = match_all sigma_num pv (tree_planes c t layer)"
proof (induction t arbitrary: layer)
  case (Octo nd ls)
  have "fold (\<lambda>leaf m. case leaf of None \<Rightarrow> m | Some f \<Rightarrow> f (layer + 1) m)
      (map (map_option (build_single_residual sigma_num c pv)) us) m =
    match_all sigma_num pv (concat (map (\<lambda>leaf. case leaf of None \<Rightarrow> [] | Some f \<Rightarrow> f (layer + 1))
      (map (map_option (tree_planes c)) us))) m" if "set us \<subseteq> set ls" for us m
    using that
  proof (induction us arbitrary: m)
    case (Cons u us)
    then show ?case using Octo by (cases u) (auto simp: match_all_def)
  qed (simp add: match_all_def)
  then show ?case by (auto simp: match_all_def match_plane_def fun_eq_iff)
qed

lemma match_prob_pos:
  assumes "plane_match sigma_num pl pv = Some q"
  shows "0 < q"
proof -
  let ?s = "sigma_l pl pv"
  have s: "0 \<le> ?s" "\<bar>signed_distance pl pv\<bar> < sigma_num * sqrt ?s"
    and q: "q = 1 / sqrt ?s * exp (- 0.5 * \<bar>signed_distance pl pv\<bar> * \<bar>signed_distance pl pv\<bar> / ?s)"
    using assms by (auto simp: plane_match_def Let_def split: if_splits)
  have "?s \<noteq> 0" using s(2) by auto
  then show ?thesis using s(1) by (simp add: q)
qed

definition hits :: "real \<Rightarrow> pointWithVar \<Rightarrow> (int \<times> VoxelPlane) list \<Rightarrow> (int \<times> VoxelPlane) list" where
  "hits sigma_num pv pls = filter (\<lambda>(l, pl). plane_match sigma_num pl pv \<noteq> None) pls"

definition best_match :: "real \<Rightarrow> pointWithVar \<Rightarrow> (int \<times> VoxelPlane) list \<Rightarrow> real \<Rightarrow> residual \<Rightarrow> bool" where
  "best_match sigma_num pv pls prob r \<longleftrightarrow>
    (res_layer r, res_plane r) \<in> set (hits sigma_num pv pls) \<and>
    plane_match sigma_num (res_plane r) pv = Some prob \<and>
    (\<forall>(l, pl) \<in> set (hits sigma_num pv pls). the (plane_match sigma_num pl pv) \<le> prob)"

lemma hits_snoc: "hits sigma_num pv (pls @ [(l, pl)]) =
    hits sigma_num pv pls @ (if plane_match sigma_num pl pv = None then [] else [(l, pl)])"
  by (simp add: hits_def)

lemma best_match_snoc:
  "plane_match sigma_num pl pv = None \<Longrightarrow> best_match sigma_num pv (pls @ [(l, pl)]) = best_match sigma_num pv pls"
  "plane_match sigma_num pl pv = Some q \<Longrightarrow> q \<le> prob \<Longrightarrow> best_match sigma_num pv pls prob r \<Longrightarrow>
    best_match sigma_num pv (pls @ [(l, pl)]) prob r"
  "plane_match sigma_num pl pv = Some q \<Longrightarrow> prob < q \<Longrightarrow> best_match sigma_num pv pls prob r \<Longrightarrow>
    best_match sigma_num pv (pls @ [(l, pl)]) q
      \<lparr>res_plane = pl, res_layer = l, res_dis_to_plane = signed_distance pl pv\<rparr>"
  by (auto simp: best_match_def hits_snoc fun_eq_iff)

lemma match_all_best:
  "case match_all sigma_num pv pls (False, 0, None) of (ok, prob, single) \<Rightarrow>
    (ok \<longleftrightarrow> hits sigma_num pv pls \<noteq> []) \<and>
    (if ok then \<exists>r. single = Some r \<and> best_match sigma_num pv pls prob r else prob = 0 \<and> single = None)"
proof (induction pls rule: rev_induct)
  case (snoc x pls)
  obtain l pl where x: "x = (l, pl)" by (cases x)
  obtain ok prob single where r: "match_all sigma_num pv pls (False, 0, None) = (ok, prob, single)"
    by (cases "match_all sigma_num pv pls (False, 0, None)")
  have step: "match_all sigma_num pv (pls @ [(l, pl)]) (False, 0, None) = match_plane sigma_num pv l pl (ok, prob, single)"
    using r by (simp add: match_all_def)
  have ih: "ok \<longleftrightarrow> hits sigma_num pv pls \<noteq> []"
    "if ok then \<exists>r. single = Some r \<and> best_match sigma_num pv pls prob r else prob = 0 \<and> single = None"
    using snoc by (simp_all add: r)
  show ?case
  proof (cases "plane_match sigma_num pl pv")
    case None
    with ih show ?thesis unfolding x step by (simp add: match_plane_def hits_snoc best_match_snoc(1))
  next
    case (Some q)
    show ?thesis
    proof (cases ok)
      case True
      with ih obtain r' where "single = Some r'" "best_match sigma_num pv pls prob r'" by auto
      with Some show ?thesis
        unfolding x step by (cases "prob < q") (auto simp: match_plane_def hits_snoc best_match_snoc)
    next
      case False
      with ih have "hits sigma_num pv pls = []" "prob = 0" by auto
      with Some match_prob_pos [OF Some] show ?thesis
        unfolding x step by (simp add: match_plane_def hits_snoc best_match_def)
    qed
  qed
qed (simp add: hits_def match_all_def)

end
