(* ===== verification/Voxel_Props.thy ===== *)
theory Voxel_Props
  imports Voxel_Map
begin

text \<open>
  The properties of the voxel map: what building, updating, matching and sliding achieve, and the two
  cases in which points are looked for in the wrong place.
\<close>

section \<open>Building\<close>








lemma nth_of_mem: "nth_of xs i = Some x \<Longrightarrow> x \<in> set xs"
  by (auto simp: nth_of_def intro: nth_mem split: if_splits)

lemma sum3_cong: "\<forall>i < 3. f i = g i \<Longrightarrow> sum3 (\<lambda>i. h i * f i) = sum3 (\<lambda>i. h i * g i)"
  by (simp add: sum3_def)

section \<open>Properties\<close>

text \<open>
  C22. A point that lies in the cube of a tree is taken in by \<open>UpdateOctoTree\<close>, which returns whatever
  the fits of planes turn out to be, with fuel for the layers below: the tree stays well-formed, the
  node that \<open>find_correspond\<close> gives for the point lies around it, and it holds the point unless it has
  been closed to further points.
\<close>

theorem point_taken_in:
  assumes "config_ok c" "tree_ok c t" "in_cube (the_node t) (point_w pv)"
    "nat (max_layer c - node_layer (the_node t)) + 1 < fuel"
  shows "\<exists>t'. UpdateOctoTree eig c fuel t pv = Some t' \<and> tree_ok c t' \<and>
    (let nd = the_node (find_correspond c t' (point_w pv))
     in in_cube nd (point_w pv) \<and> (pv \<in> set (temp_points nd) \<or> \<not> update_enable nd))"
proof -
  obtain t' where t': "UpdateOctoTree eig c fuel t pv = Some t'" "tree_ok c t'" "same_place (the_node t) (the_node t')"
    using UpdateOctoTree_ok [OF assms] by blast
  have "in_cube (the_node t') (point_w pv)"
    using assms(3) t'(3) by (simp add: in_cube_def same_place_def)
  with find_correspond_ok [OF t'(2)] UpdateOctoTree_keeps [OF t'(1) assms(2,3,1)] t'(1,2) show ?thesis
    by (simp add: kept_def Let_def)
qed


text \<open>
  The voxels are independent: the tree of a voxel after an update is the one that the points of this
  voxel alone would have given, in their order.
\<close>

theorem voxels_independent:
  assumes "UpdateVoxelMap eig c s points m = Some m'"
  shows "\<exists>n. UpdateVoxelMap eig c s (filter (\<lambda>pv. voxel_position s (point_w pv) = v) points) m = Some n \<and>
    n v = m' v"
  using UpdateVoxelMap_local [OF assms refl] .

text \<open>
  C24. The plane of \<open>init_plane\<close> goes through the centre of the points, and the least eigenvalue, which is
  compared with the threshold, is the mean squared distance of the points from this plane: for a
  solver that gives a unit eigenvector of the covariance for the least eigenvalue.
\<close>

theorem plane_distance:
  assumes "points \<noteq> []" "eig (plane_covariance points) = (ev, evec)"
    "sum3 (\<lambda>i. evec i (evalsMin ev) * evec i (evalsMin ev)) = 1"
    "\<forall>i < 3. sum3 (\<lambda>j. plane_covariance points i j * evec j (evalsMin ev)) = ev (evalsMin ev) * evec i (evalsMin ev)"
    "pl' = init_plane eig c points pl"
  shows "(is_plane pl' \<longleftrightarrow> ev (evalsMin ev) < planer_threshold c) \<and>
    (is_plane pl' \<longrightarrow>
      sum3 (\<lambda>i. pl_normal pl' i * pl_center pl' i) + pl_d pl' = 0 \<and>
      (\<Sum>pv \<leftarrow> points. (signed_distance pl' pv)\<^sup>2) / real (length points) = ev (evalsMin ev))"
proof -
  let ?n = "\<lambda>i. evec i (evalsMin ev)" and ?l = "ev (evalsMin ev)" and ?N = "real (length points)"
  let ?d = "\<lambda>pv i. point_w pv i - plane_center points i"
  have cov: "plane_covariance points i j = (\<Sum>pv \<leftarrow> points. ?d pv i * ?d pv j) / ?N" for i j
    using covariance_deviations [OF assms(1)] .
  have "(\<Sum>pv \<leftarrow> points. (sum3 (\<lambda>i. ?n i * ?d pv i))\<^sup>2) =
      sum3 (\<lambda>i. sum3 (\<lambda>j. ?n i * (\<Sum>pv \<leftarrow> points. ?d pv i * ?d pv j) * ?n j))"
    by (simp add: sum3_def power2_eq_square algebra_simps flip: sum_list_split)
  then have "(\<Sum>pv \<leftarrow> points. (sum3 (\<lambda>i. ?n i * ?d pv i))\<^sup>2) / ?N =
      sum3 (\<lambda>i. ?n i * sum3 (\<lambda>j. plane_covariance points i j * ?n j))"
    by (simp add: cov sum3_def add_divide_distrib distrib_left mult.assoc)
  also have "\<dots> = ?l * sum3 (\<lambda>i. ?n i * ?n i)"
    using sum3_cong [OF assms(4), where h = ?n] by (simp add: sum3_def algebra_simps)
  finally have mean: "(\<Sum>pv \<leftarrow> points. (sum3 (\<lambda>i. ?n i * ?d pv i))\<^sup>2) / ?N = ?l"
    using assms(3) by simp
  have dist: "signed_distance pl' pv = sum3 (\<lambda>i. ?n i * ?d pv i)" if "is_plane pl'" for pv
    using that by (auto simp: assms(5) init_plane_def assms(2) Let_def signed_distance_def sum3_def
        algebra_simps split: if_splits)
  show ?thesis
  proof (intro conjI impI)
    show "is_plane pl' \<longleftrightarrow> ?l < planer_threshold c"
      by (simp add: assms(5) init_plane_def assms(2) Let_def)
    show "sum3 (\<lambda>i. pl_normal pl' i * pl_center pl' i) + pl_d pl' = 0" if "is_plane pl'"
      using that by (auto simp: assms(5) init_plane_def assms(2) Let_def split: if_splits)
    show "(\<Sum>pv \<leftarrow> points. (signed_distance pl' pv)\<^sup>2) / ?N = ?l" if "is_plane pl'"
      using mean by (simp add: dist [OF that])
  qed
qed

text \<open>
  C25. The recursion over a tree that looks for the plane of a point succeeds exactly when some plane of
  the tree matches, and then gives a matching plane of the highest probability.
\<close>

theorem best_plane:
  "case build_single_residual sigma_num c pv t 0 (False, 0, None) of (ok, prob, single) \<Rightarrow>
    let found = hits sigma_num pv (tree_planes c t 0)
    in (ok \<longleftrightarrow> found \<noteq> []) \<and>
      (ok \<longrightarrow> (\<exists>r. single = Some r \<and> (res_layer r, res_plane r) \<in> set found \<and>
        plane_match sigma_num (res_plane r) pv = Some prob \<and>
        (\<forall>(l, pl) \<in> set found. the (plane_match sigma_num pl pv) \<le> prob)))"
  using match_all_best [of sigma_num pv "tree_planes c t 0"]
  by (auto simp: residual_planes best_match_def Let_def split: prod.splits if_splits)

text \<open>
  The neighbouring voxel that is tried for a point without match is chosen by comparing the point's
  position in voxels with the centre of the voxel in metres: with voxels of half a metre or less the
  next voxel away from the origin is taken along every axis, wherever in its voxel the point lies.
\<close>

theorem neighbour_units:
  assumes "0 < s" "s \<le> 1 / 2" "root_place s (voxel_position s p) nd"
    "j < 3" "1 \<le> p j / s \<or> p j < 0"
  shows "loc_nth (near_position s nd p) j = loc_nth (voxel_position s p) j + (if p j < 0 then - 1 else 1)"
proof -
  let ?i = "loc_nth (voxel_position s p) j" and ?l = "loc_xyz s p j"
  have near: "loc_nth (near_position s nd p) j = near_step ?l (voxel_center nd j) (quater_length nd) ?i"
  proof -
    have "j = 0 \<or> j = 1 \<or> j = 2" using assms(4) by auto
    then show ?thesis by (auto simp: near_position_def loc_nth_def voxel_position_def Let_def)
  qed
  have root: "voxel_center nd j = (1 / 2 + real_of_int ?i) * s" "quater_length nd = s / 4"
    using assms(3) by (simp_all add: root_place_def)
  have idx: "?i = (if 0 \<le> p j / s then \<lfloor>p j / s\<rfloor> else \<lceil>p j / s\<rceil> - 1)"
    using assms(4) by (simp add: loc_nth_position trunc_loc)
  show ?thesis
  proof (cases "p j / s < 0")
    case True
    then have neg: "p j < 0" using assms(1) by (simp add: divide_less_0_iff)
    have i: "?i \<le> - 1" "real_of_int ?i \<ge> ?l" using True by (auto simp: idx loc_xyz_def)
    have "real_of_int ?i * (1 - s) \<le> - 1 * (1 - s)" using i(1) assms(2) by (intro mult_right_mono) auto
    then have "real_of_int ?i < real_of_int ?i * s + s / 4" using assms(1,2) by (simp add: algebra_simps)
    then have "?l < voxel_center nd j - quater_length nd" using i(2) by (simp add: root algebra_simps)
    moreover have "\<not> ?l > voxel_center nd j + quater_length nd" using calculation root(2) assms(1) by simp
    ultimately show ?thesis using neg by (simp add: near near_step_def)
  next
    case False
    then have pos: "1 \<le> p j / s" "\<not> p j < 0" using assms(1,5) by (auto simp: divide_less_0_iff)
    have i: "1 \<le> ?i" "real_of_int ?i \<le> ?l" using pos by (auto simp: idx loc_xyz_def le_floor_iff)
    have "1 * (1 - s) \<le> real_of_int ?i * (1 - s)" using i(1) assms(2) by (intro mult_right_mono) auto
    then have "real_of_int ?i * s + 3 * s / 4 < real_of_int ?i" using assms(1,2) by (simp add: algebra_simps)
    then have "?l > voxel_center nd j + quater_length nd" using i(2) by (simp add: root algebra_simps)
    then show ?thesis using pos(2) by (simp add: near near_step_def)
  qed
qed

text \<open>
  A node whose plane no longer fits after a refit is not cut: its points stay in it, and the next point
  opens a leaf that holds this point alone, in which the older points of the same octant are then
  looked for.
\<close>

theorem demoted_not_cut:
  assumes "tree_ok c (Octo nd ls)" "config_ok c" "init_octo nd" "is_plane (plane_ptr nd)" "update_enable nd"
    "new_points nd = update_size_threshold" "node_layer nd < max_layer c"
    "\<not> is_plane (init_plane eig c (temp_points nd @ [pv]) (plane_ptr nd))"
    "\<not> reaches (length (temp_points nd) + 1) (max_points_num c)" "\<forall>i \<in> set (layer_init_num c). 1 \<le> i"
  shows "\<exists>t1 t2 leaf. UpdateOctoTree eig c (Suc (Suc fuel)) (Octo nd ls) pv = Some t1 \<and>
    UpdateOctoTree eig c (Suc (Suc fuel)) t1 pv2 = Some t2 \<and>
    temp_points (the_node t2) = temp_points nd @ [pv] \<and> temp_points (the_node leaf) = [pv2] \<and>
    (\<forall>p. leafnum nd p = leafnum nd (point_w pv2) \<longrightarrow> find_correspond c t2 p = leaf)"
proof -
  let ?pl = "init_plane eig c (temp_points nd @ [pv]) (plane_ptr nd)"
  let ?nd = "(push_point pv nd)\<lparr>plane_ptr := ?pl, new_points := 0\<rparr>" and ?k = "leafnum nd (point_w pv2)"
  have ls: "ls = replicate 8 None" and lay: "0 \<le> node_layer nd" using assms(1,4) by (simp_all add: tree_ok_simps)
  have one: "UpdateOctoTree eig c (Suc (Suc fuel)) (Octo nd ls) pv = Some (Octo ?nd ls)"
    using assms(3-6,9) by (simp add: refit_def push_point_def Let_def)
  obtain leaf0 where leaf0: "new_leaf c nd (point_w pv2) = Some leaf0"
    using new_leaf_some assms(2,7) lay by metis
  then obtain thr where thr: "nth_of (layer_init_num c) (node_layer nd + 1) = Some thr" "size_threshold (the_node leaf0) = thr"
      "\<not> init_octo (the_node leaf0)" "temp_points (the_node leaf0) = []"
    by (auto simp: new_leaf_def new_VoxelOctoTree_def split: Option.bind_splits)
  then have "1 \<le> thr" using assms(10) nth_of_mem [OF thr(1)] by blast
  let ?leaf = "Octo (push_point pv2 (the_node leaf0)) (leaves leaf0)"
  have up: "UpdateOctoTree eig c (Suc fuel) leaf0 pv2 = Some ?leaf"
    using thr \<open>1 \<le> thr\<close> by (simp add: push_point_def exceeds_def Let_def)
  have same: "get_leaf c ?nd ls (point_w pv2) = Some leaf0" "leafnum ?nd = leafnum nd"
    using leaf0 leafnum_less [of nd "point_w pv2"]
    by (simp_all add: get_leaf_def new_leaf_def leafnum_def octant_def push_point_def ls fun_eq_iff)
  have two: "UpdateOctoTree eig c (Suc (Suc fuel)) (Octo ?nd ls) pv2 = Some (Octo ?nd (ls[?k := Some ?leaf]))"
    using assms(3,7,8) up same by (subst UpdateOctoTree.simps) (simp add: push_point_def Let_def)
  have found: "find_correspond c (Octo ?nd (ls[?k := Some ?leaf])) p = ?leaf" if "leafnum nd p = ?k" for p
    using that assms(3,7,8) same(2) leafnum_less [of nd "point_w pv2"] thr(3)
    by (simp add: find_correspond.simps push_point_def leaf_at_def ls leafnum_def octant_def)
  show ?thesis
  proof (rule exI [of _ "Octo ?nd ls"], rule exI [of _ "Octo ?nd (ls[?k := Some ?leaf])"], rule exI [of _ ?leaf],
      intro conjI)
    show "\<forall>p. leafnum nd p = ?k \<longrightarrow> find_correspond c (Octo ?nd (ls[?k := Some ?leaf])) p = ?leaf"
      using found by blast
  qed (use one two thr(4) in \<open>simp_all add: push_point_def\<close>)
qed

lemma int32_id: "- (2 ^ 31) \<le> x \<Longrightarrow> x < 2 ^ 31 \<Longrightarrow> int32 x = x"
  by (simp add: int32_def signed_take_bit_int_eq_self)

lemma less_three: "(\<forall>j < 3. P j) \<longleftrightarrow> P 0 \<and> P 1 \<and> P (2 :: nat)"
  by (auto simp: less_Suc_eq numeral_eq_Suc)

lemma slide_moved:
  fixes half :: int
  assumes "\<forall>j < 3. \<bar>position_last m j / s\<bar> + real_of_int \<bar>half\<bar> + 2 \<le> 2 ^ 31"
    and "thresh \<le> sqrt (sum3 (\<lambda>j. (position_last m j - last_slide_position m j) * (position_last m j - last_slide_position m j)))"
  shows "the_map (mapSliding s thresh half m) v =
    (if \<forall>j < 3. \<bar>loc_nth v j - loc_nth (voxel_position s (position_last m)) j\<bar> \<le> half then the_map m v else None)"
proof -
  let ?l = "\<lambda>j. loc_nth (voxel_position s (position_last m)) j"
  have "- (2 ^ 31) \<le> ?l j - half \<and> ?l j + half < 2 ^ 31 \<and> - (2 ^ 31) \<le> ?l j + half \<and> ?l j - half < 2 ^ 31" if "j < 3" for j
  proof -
    have pow: "(2 :: real) ^ 31 = 2147483648" "(2 :: int) ^ 31 = 2147483648" by simp_all
    have "\<bar>position_last m j / s\<bar> + real_of_int \<bar>half\<bar> + 2 \<le> 2147483648"
      using assms(1) that unfolding pow by blast
    then show ?thesis
      using position_bounds [OF that, where s = s and p = "position_last m"] unfolding pow by linarith
  qed
  then have "int32 (?l j + half) = ?l j + half" "int32 (?l j - half) = ?l j - half" if "j < 3" for j
    using that by (simp_all add: int32_id)
  note id = this [of 0] this [of 1] this [of 2]
  show ?thesis
    using assms(2) id
    by (auto simp: mapSliding_def Let_def clearMemOutOfMap_def voxel_position_def loc_nth_def less_three abs_le_iff)
qed

text \<open>
  The map slides only after a move of the threshold or more. It then keeps, unchanged, the tree of every
  point that is less than half a map minus a voxel away from the position along every axis, and none of
  a point that is more than half a map and a voxel away along one, as long as the bounds fit an \<open>int\<close>.
\<close>

theorem sliding_window:
  fixes half :: int
  assumes "0 < s" "\<forall>j < 3. \<bar>position_last m j / s\<bar> + real_of_int \<bar>half\<bar> + 2 \<le> 2 ^ 31"
  shows "let m' = mapSliding s thresh half m; d = (\<lambda>j. position_last m j - last_slide_position m j)
    in if sqrt (sum3 (\<lambda>j. d j * d j)) < thresh then m' = m
      else ((\<forall>j < 3. \<bar>p j - position_last m j\<bar> \<le> real_of_int (half - 1) * s) \<longrightarrow>
          the_map m' (voxel_position s p) = the_map m (voxel_position s p)) \<and>
        ((\<exists>j < 3. \<bar>p j - position_last m j\<bar> > real_of_int (half + 1) * s) \<longrightarrow> the_map m' (voxel_position s p) = None)"
proof -
  let ?q = "position_last m"
  have near: "\<bar>loc_nth (voxel_position s p) j - loc_nth (voxel_position s ?q) j\<bar> \<le> half"
    if "j < 3" "\<bar>p j - ?q j\<bar> \<le> real_of_int (half - 1) * s" for j
  proof -
    have "\<bar>p j / s - ?q j / s\<bar> \<le> real_of_int (half - 1)"
      using that(2) assms(1) by (simp add: divide_le_eq abs_divide flip: diff_divide_distrib)
    then show ?thesis
      using position_bounds [OF that(1), where s = s and p = p] position_bounds [OF that(1), where s = s and p = ?q] by linarith
  qed
  have far: "half < \<bar>loc_nth (voxel_position s p) j - loc_nth (voxel_position s ?q) j\<bar>"
    if "j < 3" "\<bar>p j - ?q j\<bar> > real_of_int (half + 1) * s" for j
  proof -
    have "\<bar>p j / s - ?q j / s\<bar> > real_of_int (half + 1)"
      using that(2) assms(1) by (simp add: less_divide_eq abs_divide flip: diff_divide_distrib)
    then show ?thesis
      using position_bounds [OF that(1), where s = s and p = p] position_bounds [OF that(1), where s = s and p = ?q] by linarith
  qed
  show ?thesis
  proof (cases "sqrt (sum3 (\<lambda>j. (?q j - last_slide_position m j) * (?q j - last_slide_position m j))) < thresh")
    case True
    then show ?thesis by (simp add: mapSliding_def Let_def)
  next
    case False
    then have slid: "the_map (mapSliding s thresh half m) v =
        (if \<forall>j < 3. \<bar>loc_nth v j - loc_nth (voxel_position s ?q) j\<bar> \<le> half then the_map m v else None)" for v
      using slide_moved [OF assms(2), of thresh] by simp
    show ?thesis using False near far by (auto simp: Let_def slid) (meson not_le)+
  qed
qed

section \<open>Witnesses\<close>

definition ex_tree :: tree_config where
  "ex_tree = \<lparr>max_layer = 2, layer_init_num = [5, 5, 5, 5, 5], max_points_num = 50, planer_threshold = 0.01\<rparr>"

definition ex_pt :: "real \<Rightarrow> real \<Rightarrow> real \<Rightarrow> pointWithVar" where
  "ex_pt x y z = \<lparr>point_w = (\<lambda>j. if j = 0 then x else if j = 1 then y else z), point_var = (\<lambda>_ _. 0)\<rparr>"

text \<open>Right for a diagonal covariance.\<close>

definition ex_eig :: solver where
  "ex_eig M = ((\<lambda>i. M i i), (\<lambda>i j. if i = j then 1 else 0))"

definition ex_root :: VoxelOctoTree where
  "ex_root = new_VoxelOctoTree 0 5 (\<lambda>_. 1 / 2) (1 / 4)"

lemma ex_tree_ok: "config_ok ex_tree" "max_layer ex_tree = 2" "tree_ok ex_tree ex_root"
  by (simp_all add: config_ok_def ex_tree_def ex_root_def new_VoxelOctoTree_def tree_ok_simps new_VoxelPlane_def)

theorem point_taken_in_witness:
  "\<exists>t'. UpdateOctoTree ex_eig ex_tree 4 ex_root (ex_pt 0.25 0.25 0.25) = Some t' \<and> tree_ok ex_tree t' \<and>
    (let nd = the_node (find_correspond ex_tree t' (point_w (ex_pt 0.25 0.25 0.25)))
     in in_cube nd (point_w (ex_pt 0.25 0.25 0.25)) \<and>
       (ex_pt 0.25 0.25 0.25 \<in> set (temp_points nd) \<or> \<not> update_enable nd))"
  by (rule point_taken_in)
    (simp_all add: ex_tree_ok, simp_all add: in_cube_def ex_root_def new_VoxelOctoTree_def ex_pt_def)


lemma ex_positions: "voxel_position 1 (point_w (ex_pt 0.25 0.25 0.25)) = \<lparr>loc_x = 0, loc_y = 0, loc_z = 0\<rparr>"
  "voxel_position 1 (point_w (ex_pt (- 3) 0 7)) = \<lparr>loc_x = - 4, loc_y = 0, loc_z = 7\<rparr>"
  by (simp_all add: voxel_position_def trunc_int_def loc_xyz_def ex_pt_def)

theorem voxels_independent_witness:
  "\<exists>m n. UpdateVoxelMap ex_eig ex_tree 1 [ex_pt 0.25 0.25 0.25, ex_pt (- 3) 0 7] Map.empty = Some m \<and>
    UpdateVoxelMap ex_eig ex_tree 1 [ex_pt (- 3) 0 7] Map.empty = Some n \<and>
    n \<lparr>loc_x = - 4, loc_y = 0, loc_z = 7\<rparr> = m \<lparr>loc_x = - 4, loc_y = 0, loc_z = 7\<rparr>"
proof -
  obtain m where m: "UpdateVoxelMap ex_eig ex_tree 1 [ex_pt 0.25 0.25 0.25, ex_pt (- 3) 0 7] Map.empty = Some m"
    using UpdateVoxelMap_ok [OF ex_tree_ok(1) _ _ map_ok_empty, of 1 ex_eig
        "[ex_pt 0.25 0.25 0.25, ex_pt (- 3) 0 7]"] by (auto simp: ex_tree_ok(2))
  from voxels_independent [OF this, of "\<lparr>loc_x = - 4, loc_y = 0, loc_z = 7\<rparr>"] m show ?thesis
    by (simp only: filter.simps ex_positions) (simp del: UpdateVoxelMap.simps)
qed

definition ex_plane_points :: "pointWithVar list" where
  "ex_plane_points = [ex_pt 1 0 0, ex_pt (- 1) 0 0, ex_pt 0 1 0, ex_pt 0 (- 1) 0]"

theorem plane_distance_witness:
  "is_plane (init_plane ex_eig ex_tree ex_plane_points new_VoxelPlane) \<and>
    (\<Sum>pv \<leftarrow> ex_plane_points. (signed_distance (init_plane ex_eig ex_tree ex_plane_points new_VoxelPlane) pv)\<^sup>2) = 0"
proof -
  let ?ev = "\<lambda>i. plane_covariance ex_plane_points i i"
  have cov: "plane_covariance ex_plane_points i j =
      (if i = j \<and> i < 2 then 1 / 2 else 0)" if "i < 3" "j < 3" for i j
  proof -
    have "i = 0 \<or> i = 1 \<or> i = 2" "j = 0 \<or> j = 1 \<or> j = 2" using that by auto
    then show ?thesis by (auto simp: plane_covariance_def plane_center_def ex_plane_points_def ex_pt_def)
  qed
  have mn: "evalsMin ?ev = 2" by (simp add: evalsMin_def cov)
  have "\<forall>i < 3. sum3 (\<lambda>j. plane_covariance ex_plane_points i j * (if j = evalsMin ?ev then 1 else 0)) =
      ?ev (evalsMin ?ev) * (if i = evalsMin ?ev then 1 else 0)"
    by (auto simp: mn sum3_def cov)
  then show ?thesis
    using plane_distance [where points = ex_plane_points and eig = ex_eig and ev = ?ev and
        evec = "\<lambda>i j. if i = j then 1 else 0" and c = ex_tree and pl = new_VoxelPlane and
        pl' = "init_plane ex_eig ex_tree ex_plane_points new_VoxelPlane", OF _ _ _ _ refl]
    by (simp add: mn cov sum3_def ex_eig_def ex_tree_def) (simp add: ex_plane_points_def)
qed

definition ex_far :: node where
  "ex_far = the_node (new_VoxelOctoTree 0 5 (\<lambda>j. if j = 0 then 10.25 else 0.25) (1 / 8))"

theorem neighbour_units_witness:
  "loc_x (voxel_position (1 / 2) (\<lambda>j. if j = 0 then 10.1 else 0.1)) = 20 \<and>
    loc_nth (near_position (1 / 2) ex_far (\<lambda>j. if j = 0 then 10.1 else 0.1)) 0 = 21"
proof -
  have v: "voxel_position (1 / 2) (\<lambda>j. if j = 0 then 10.1 else 0.1) = \<lparr>loc_x = 20, loc_y = 0, loc_z = 0\<rparr>"
    by (simp add: voxel_position_def trunc_int_def loc_xyz_def)
  have "root_place (1 / 2) \<lparr>loc_x = 20, loc_y = 0, loc_z = 0\<rparr> ex_far"
    by (auto simp: root_place_def ex_far_def new_VoxelOctoTree_def loc_nth_def fun_eq_iff)
  from neighbour_units [of "1 / 2" "\<lambda>j. if j = 0 then 10.1 else 0.1" ex_far 0, unfolded v, OF _ _ this] show ?thesis
    by (simp add: v loc_nth_def)
qed

definition ex_flat :: node where
  "ex_flat = (the_node ex_root)\<lparr>init_octo := True, plane_ptr := new_VoxelPlane\<lparr>is_plane := True\<rparr>, new_points := 5,
    temp_points := [ex_pt 0.25 0.5 0.5, ex_pt 0.75 0.5 0.5, ex_pt 0.5 0.25 0.5, ex_pt 0.5 0.75 0.5, ex_pt 0.5 0.5 0.5]\<rparr>"

lemma is_plane_init:
  "is_plane (init_plane eig c points pl) \<longleftrightarrow>
    (let ev = fst (eig (plane_covariance points)) in ev (evalsMin ev) < planer_threshold c)"
  by (simp add: init_plane_def Let_def split_beta)

theorem demoted_not_cut_witness:
  "\<exists>t1 t2 leaf. UpdateOctoTree ex_eig ex_tree 2 (Octo ex_flat (replicate 8 None)) (ex_pt 0.5 0.5 1) = Some t1 \<and>
    UpdateOctoTree ex_eig ex_tree 2 t1 (ex_pt 0.25 0.25 0.25) = Some t2 \<and>
    temp_points (the_node leaf) = [ex_pt 0.25 0.25 0.25] \<and>
    find_correspond ex_tree t2 (point_w (ex_pt 0.5 0.5 0.5)) = leaf"
proof -
  have ok: "tree_ok ex_tree (Octo ex_flat (replicate 8 None))"
    by (auto simp: tree_ok_simps ex_flat_def ex_root_def new_VoxelOctoTree_def ex_tree_def in_cube_def ex_pt_def)
  have flat: "init_octo ex_flat" "is_plane (plane_ptr ex_flat)" "update_enable ex_flat"
    "new_points ex_flat = update_size_threshold" "node_layer ex_flat < max_layer ex_tree"
    "\<not> reaches (length (temp_points ex_flat) + 1) (max_points_num ex_tree)"
    by (simp_all add: ex_flat_def ex_root_def new_VoxelOctoTree_def update_size_threshold_def ex_tree_def reaches_def)
  have "\<not> is_plane (init_plane ex_eig ex_tree (temp_points ex_flat @ [ex_pt 0.5 0.5 1]) (plane_ptr ex_flat))"
    by (simp add: is_plane_init ex_eig_def Let_def ex_flat_def plane_covariance_def plane_center_def ex_pt_def
        evalsMin_def ex_tree_def power2_eq_square)
  from demoted_not_cut [OF ok ex_tree_ok(1) flat(1-5) this flat(6), of 0 "ex_pt 0.25 0.25 0.25"]
  obtain t1 t2 leaf where r: "UpdateOctoTree ex_eig ex_tree 2 (Octo ex_flat (replicate 8 None)) (ex_pt 0.5 0.5 1) = Some t1"
    "UpdateOctoTree ex_eig ex_tree 2 t1 (ex_pt 0.25 0.25 0.25) = Some t2" "temp_points (the_node leaf) = [ex_pt 0.25 0.25 0.25]"
    "\<forall>p. leafnum ex_flat p = leafnum ex_flat (point_w (ex_pt 0.25 0.25 0.25)) \<longrightarrow>
      find_correspond ex_tree t2 p = leaf"
    by (auto simp: ex_tree_def numeral_2_eq_2 simp del: UpdateOctoTree.simps)
  have "leafnum ex_flat (point_w (ex_pt 0.5 0.5 0.5)) = leafnum ex_flat (point_w (ex_pt 0.25 0.25 0.25))"
    by (simp add: leafnum_def octant_def ex_flat_def ex_root_def new_VoxelOctoTree_def ex_pt_def)
  then have "find_correspond ex_tree t2 (point_w (ex_pt 0.5 0.5 0.5)) = leaf"
    by (rule r(4) [rule_format])
  with r(1-3) show ?thesis by blast
qed

definition ex_match :: node where
  "ex_match = (the_node ex_root)\<lparr>init_octo := True, plane_ptr := new_VoxelPlane\<lparr>is_plane := True,
    pl_normal := (\<lambda>i. if i = 2 then 1 else 0), pl_radius := 1, pl_var := (\<lambda>r s. if r = s then 1 else 0)\<rparr>\<rparr>"

theorem best_plane_witness:
  "\<exists>prob r. build_single_residual 3 ex_tree (ex_pt 0 0 0) (Octo ex_match (replicate 8 None)) 0 (False, 0, None) =
      (True, prob, Some r) \<and> res_plane r = plane_ptr ex_match"
proof -
  have "sigma_l (plane_ptr ex_match) (ex_pt 0 0 0) = 1"
    by (simp add: sigma_l_def ex_match_def ex_pt_def new_VoxelPlane_def sum3_def eval_nat_numeral Let_def)
  then have "plane_match 3 (plane_ptr ex_match) (ex_pt 0 0 0) \<noteq> None"
    by (simp add: plane_match_def signed_distance_def sum3_def Let_def)
      (simp add: ex_match_def ex_pt_def new_VoxelPlane_def)
  moreover have "is_plane (plane_ptr ex_match)" by (simp add: ex_match_def)
  ultimately have "hits 3 (ex_pt 0 0 0) (tree_planes ex_tree (Octo ex_match (replicate 8 None)) 0) =
      [(0, plane_ptr ex_match)]"
    by (simp add: hits_def)
  with best_plane [where sigma_num = 3 and c = ex_tree and pv = "ex_pt 0 0 0" and
      t = "Octo ex_match (replicate 8 None)"] show ?thesis
    by (cases "build_single_residual 3 ex_tree (ex_pt 0 0 0) (Octo ex_match (replicate 8 None)) 0 (False, 0, None)")
      (auto simp: Let_def simp del: build_single_residual.simps)
qed

end
