(* ===== verification/So3.thy ===== *)
theory So3
  imports Complex_Main
begin

text \<open>
  The rotation mathematics of FAST-LIVO2, \<open>src/src/fast_livo2/include/utils/so3_math.h\<close>, and the
  three-dimensional vectors and matrices of Eigen it is written with, over real numbers. Both types
  are instances of the algebraic classes of the library, so that the source's expressions are
  written with its operators; a matrix is its nine entries by row and column.
\<close>

section \<open>Vectors\<close>

datatype V3D = V3D (vx: real) (vy: real) (vz: real)

lemma V3D_eq_iff: "v = w \<longleftrightarrow> vx v = vx w \<and> vy v = vy w \<and> vz v = vz w"
  by (cases v; cases w) simp

instantiation V3D :: real_vector
begin

definition zero_V3D :: V3D where "0 = V3D 0 0 0"
definition plus_V3D :: "V3D \<Rightarrow> V3D \<Rightarrow> V3D" where "v + w = V3D (vx v + vx w) (vy v + vy w) (vz v + vz w)"
definition minus_V3D :: "V3D \<Rightarrow> V3D \<Rightarrow> V3D" where "v - w = V3D (vx v - vx w) (vy v - vy w) (vz v - vz w)"
definition uminus_V3D :: "V3D \<Rightarrow> V3D" where "- v = V3D (- vx v) (- vy v) (- vz v)"
definition scaleR_V3D :: "real \<Rightarrow> V3D \<Rightarrow> V3D" where "c *\<^sub>R v = V3D (c * vx v) (c * vy v) (c * vz v)"

lemmas V3D_ops = zero_V3D_def plus_V3D_def minus_V3D_def uminus_V3D_def scaleR_V3D_def

instance
  by standard (simp_all add: V3D_ops algebra_simps)

end

definition dot :: "V3D \<Rightarrow> V3D \<Rightarrow> real" where "dot v w = vx v * vx w + vy v * vy w + vz v * vz w"
definition norm3 :: "V3D \<Rightarrow> real" where "norm3 v = sqrt (dot v v)"

section \<open>Matrices\<close>

datatype M3D = M3D (m00: real) (m01: real) (m02: real) (m10: real) (m11: real) (m12: real)
  (m20: real) (m21: real) (m22: real)

lemma M3D_eq_iff: "A = B \<longleftrightarrow> m00 A = m00 B \<and> m01 A = m01 B \<and> m02 A = m02 B \<and>
    m10 A = m10 B \<and> m11 A = m11 B \<and> m12 A = m12 B \<and> m20 A = m20 B \<and> m21 A = m21 B \<and> m22 A = m22 B"
  by (cases A; cases B) simp

instantiation M3D :: real_algebra_1
begin

definition zero_M3D :: M3D where "0 = M3D 0 0 0 0 0 0 0 0 0"
definition one_M3D :: M3D where "1 = M3D 1 0 0 0 1 0 0 0 1"
definition plus_M3D :: "M3D \<Rightarrow> M3D \<Rightarrow> M3D" where
  "A + B = M3D (m00 A + m00 B) (m01 A + m01 B) (m02 A + m02 B)
     (m10 A + m10 B) (m11 A + m11 B) (m12 A + m12 B) (m20 A + m20 B) (m21 A + m21 B) (m22 A + m22 B)"
definition minus_M3D :: "M3D \<Rightarrow> M3D \<Rightarrow> M3D" where
  "A - B = M3D (m00 A - m00 B) (m01 A - m01 B) (m02 A - m02 B)
     (m10 A - m10 B) (m11 A - m11 B) (m12 A - m12 B) (m20 A - m20 B) (m21 A - m21 B) (m22 A - m22 B)"
definition uminus_M3D :: "M3D \<Rightarrow> M3D" where
  "- A = M3D (- m00 A) (- m01 A) (- m02 A) (- m10 A) (- m11 A) (- m12 A) (- m20 A) (- m21 A) (- m22 A)"
definition times_M3D :: "M3D \<Rightarrow> M3D \<Rightarrow> M3D" where
  "A * B = M3D
     (m00 A * m00 B + m01 A * m10 B + m02 A * m20 B)
     (m00 A * m01 B + m01 A * m11 B + m02 A * m21 B)
     (m00 A * m02 B + m01 A * m12 B + m02 A * m22 B)
     (m10 A * m00 B + m11 A * m10 B + m12 A * m20 B)
     (m10 A * m01 B + m11 A * m11 B + m12 A * m21 B)
     (m10 A * m02 B + m11 A * m12 B + m12 A * m22 B)
     (m20 A * m00 B + m21 A * m10 B + m22 A * m20 B)
     (m20 A * m01 B + m21 A * m11 B + m22 A * m21 B)
     (m20 A * m02 B + m21 A * m12 B + m22 A * m22 B)"
definition scaleR_M3D :: "real \<Rightarrow> M3D \<Rightarrow> M3D" where
  "c *\<^sub>R A = M3D (c * m00 A) (c * m01 A) (c * m02 A)
     (c * m10 A) (c * m11 A) (c * m12 A) (c * m20 A) (c * m21 A) (c * m22 A)"

lemmas M3D_ops = zero_M3D_def one_M3D_def plus_M3D_def minus_M3D_def uminus_M3D_def times_M3D_def
  scaleR_M3D_def

instance
  by standard (simp_all add: M3D_ops algebra_simps)

end

definition trp :: "M3D \<Rightarrow> M3D" where
  "trp A = M3D (m00 A) (m10 A) (m20 A) (m01 A) (m11 A) (m21 A) (m02 A) (m12 A) (m22 A)"
definition mv :: "M3D \<Rightarrow> V3D \<Rightarrow> V3D" where
  "mv A v = V3D (m00 A * vx v + m01 A * vy v + m02 A * vz v)
     (m10 A * vx v + m11 A * vy v + m12 A * vz v) (m20 A * vx v + m21 A * vy v + m22 A * vz v)"
definition trace :: "M3D \<Rightarrow> real" where "trace A = m00 A + m11 A + m22 A"
definition det :: "M3D \<Rightarrow> real" where
  "det A = m00 A * (m11 A * m22 A - m12 A * m21 A) - m01 A * (m10 A * m22 A - m12 A * m20 A) +
     m02 A * (m10 A * m21 A - m11 A * m20 A)"

text \<open>\<open>SKEW_SYM_MATRX\<close>.\<close>

definition skew :: "V3D \<Rightarrow> M3D" where
  "skew v = M3D 0 (- vz v) (vy v) (vz v) 0 (- vx v) (- vy v) (vx v) 0"

section \<open>Exp and Log\<close>

definition rodrigues :: "V3D \<Rightarrow> real \<Rightarrow> M3D" where
  "rodrigues r_axis r_ang =
    (let K = skew r_axis in 1 + sin r_ang *\<^sub>R K + (1 - cos r_ang) *\<^sub>R K * K)"

definition Exp_ang :: "V3D \<Rightarrow> M3D" where
  "Exp_ang ang =
    (let ang_norm = norm3 ang
     in if ang_norm > 1 / 10000000 then rodrigues (ang /\<^sub>R ang_norm) ang_norm else 1)"

definition Exp_vel :: "V3D \<Rightarrow> real \<Rightarrow> M3D" where
  "Exp_vel ang_vel dt =
    (let ang_vel_norm = norm3 ang_vel
     in if ang_vel_norm > 1 / 10000000 then rodrigues (ang_vel /\<^sub>R ang_vel_norm) (ang_vel_norm * dt) else 1)"

definition Exp_xyz :: "real \<Rightarrow> real \<Rightarrow> real \<Rightarrow> M3D" where
  "Exp_xyz x y z =
    (let n = sqrt (x * x + y * y + z * z)
     in if n > 1 / 100000 then rodrigues (V3D (x / n) (y / n) (z / n)) n else 1)"

definition Log_rot :: "M3D \<Rightarrow> V3D" where
  "Log_rot R =
    (let theta = (if trace R > 3 - 1 / 1000000 then 0 else arccos (1 / 2 * (trace R - 1)));
         K = V3D (m21 R - m12 R) (m02 R - m20 R) (m10 R - m01 R)
     in if \<bar>theta\<bar> < 1 / 1000 then (1 / 2) *\<^sub>R K else (1 / 2 * theta / sin theta) *\<^sub>R K)"

section \<open>Linear algebra\<close>

lemma dot_commute: "dot v w = dot w v" by (simp add: dot_def algebra_simps)
lemma dot_self: "0 \<le> dot v v" by (simp add: dot_def add_nonneg_nonneg)
lemma dot_add_left: "dot (u + v) w = dot u w + dot v w" by (simp add: dot_def V3D_ops algebra_simps)
lemma dot_scaleR_left: "dot (c *\<^sub>R v) w = c * dot v w" by (simp add: dot_def V3D_ops algebra_simps)
lemma dot_scaleR_right: "dot v (c *\<^sub>R w) = c * dot v w" by (simp add: dot_def V3D_ops algebra_simps)

lemma norm3_scaleR: "norm3 (c *\<^sub>R v) = \<bar>c\<bar> * norm3 v"
proof -
  have "dot (c *\<^sub>R v) (c *\<^sub>R v) = c\<^sup>2 * dot v v"
    by (simp add: dot_scaleR_left dot_scaleR_right power2_eq_square)
  then show ?thesis by (simp add: norm3_def real_sqrt_mult)
qed

lemma norm3_ge_0 [simp]: "0 \<le> norm3 v" by (simp add: norm3_def dot_self)
lemma norm3_square: "norm3 v * norm3 v = dot v v" by (simp add: norm3_def dot_self)
lemma norm3_0 [simp]: "norm3 0 = 0" by (simp add: norm3_def dot_def V3D_ops)

lemma norm3_axis: "0 < norm3 v \<Longrightarrow> norm3 (v /\<^sub>R norm3 v) = 1"
  by (simp add: norm3_scaleR)

lemma mv_1 [simp]: "mv 1 v = v" by (simp add: mv_def M3D_ops)
lemma mv_0 [simp]: "mv A 0 = 0" by (simp add: mv_def V3D_ops)
lemma mv_mult: "mv (A * B) v = mv A (mv B v)" by (simp add: mv_def M3D_ops algebra_simps)
lemma mv_add: "mv A (v + w) = mv A v + mv A w" by (simp add: mv_def V3D_ops algebra_simps)
lemma mv_diff: "mv A (v - w) = mv A v - mv A w" by (simp add: mv_def V3D_ops algebra_simps)
lemma mv_scaleR: "mv A (c *\<^sub>R v) = c *\<^sub>R mv A v" by (simp add: mv_def V3D_ops algebra_simps)
lemma dot_mv: "dot v (mv A w) = dot (mv (trp A) v) w"
  by (simp add: dot_def mv_def trp_def algebra_simps)

lemma trp_trp [simp]: "trp (trp A) = A" by (simp add: trp_def)
lemma trp_1 [simp]: "trp 1 = 1" by (simp add: trp_def M3D_ops)
lemma trp_mult: "trp (A * B) = trp B * trp A" by (simp add: trp_def M3D_ops algebra_simps)
lemma trp_add: "trp (A + B) = trp A + trp B" by (simp add: trp_def M3D_ops)
lemma trp_scaleR: "trp (c *\<^sub>R A) = c *\<^sub>R trp A" by (simp add: trp_def M3D_ops)
lemma trp_skew: "trp (skew v) = - skew v" by (simp add: trp_def skew_def M3D_ops)
lemma det_1 [simp]: "det 1 = 1" by (simp add: det_def M3D_ops)
lemma det_trp [simp]: "det (trp A) = det A" by (simp add: det_def trp_def algebra_simps)
lemma det_mult: "det (A * B) = det A * det B"
  by (simp add: det_def M3D_ops) algebra

section \<open>Rotations\<close>

definition rotation :: "M3D \<Rightarrow> bool" where
  "rotation R \<longleftrightarrow> trp R * R = 1 \<and> R * trp R = 1 \<and> det R = 1"

lemma rotation_1 [simp]: "rotation 1" by (simp add: rotation_def)

lemma rotation_trp: "rotation R \<Longrightarrow> rotation (trp R)" by (simp add: rotation_def)

lemma rotation_mult:
  assumes "rotation A" "rotation B"
  shows "rotation (A * B)"
proof -
  have "trp B * trp A * (A * B) = trp B * (trp A * A) * B" "A * B * (trp B * trp A) = A * (B * trp B) * trp A"
    by (simp_all add: mult.assoc)
  with assms show ?thesis by (simp add: rotation_def trp_mult det_mult)
qed

lemma rotation_norm3: "rotation R \<Longrightarrow> norm3 (mv R v) = norm3 v"
  unfolding norm3_def dot_mv by (simp add: rotation_def mv_mult [symmetric])

lemma rotation_back: "rotation R \<Longrightarrow> mv R (mv (trp R) v) = v \<and> mv (trp R) (mv R v) = v"
  by (simp add: rotation_def mv_mult [symmetric])

lemma skew_cube:
  assumes "dot v v = 1"
  shows "skew v * (skew v * skew v) = - skew v"
proof -
  have "skew v * (skew v * skew v) = - dot v v *\<^sub>R skew v"
    by (simp add: skew_def M3D_ops dot_def algebra_simps)
  with assms show ?thesis by simp
qed

lemma rodrigues_0 [simp]: "rodrigues v 0 = 1"
  by (simp add: rodrigues_def)

lemma rodrigues_trp: "trp (rodrigues v a) = rodrigues v (- a)"
  by (simp add: rodrigues_def Let_def trp_add trp_scaleR trp_mult trp_skew)

lemma rodrigues_mult:
  assumes "norm3 v = 1"
  shows "rodrigues v a * rodrigues v b = rodrigues v (a + b)"
proof -
  define K where "K = skew v"
  have "dot v v = 1" using norm3_square [of v] assms by simp
  then have K3: "K * (K * K) = - K" "K * (K * (K * K)) = - (K * K)"
    using skew_cube unfolding K_def by (metis, metis mult_minus_right)
  have "rodrigues v a * rodrigues v b =
      1 + (sin a + sin b - sin a * (1 - cos b) - (1 - cos a) * sin b) *\<^sub>R K +
      (sin a * sin b + (1 - cos a) + (1 - cos b) - (1 - cos a) * (1 - cos b)) *\<^sub>R (K * K)"
    unfolding rodrigues_def Let_def K_def [symmetric]
    by (simp add: algebra_simps K3 del: scaleR_left_diff_distrib) (simp add: algebra_simps)
  also have "sin a + sin b - sin a * (1 - cos b) - (1 - cos a) * sin b = sin (a + b)"
    by (simp add: sin_add algebra_simps)
  also have "sin a * sin b + (1 - cos a) + (1 - cos b) - (1 - cos a) * (1 - cos b) = 1 - cos (a + b)"
    by (simp add: cos_add algebra_simps)
  finally show ?thesis by (simp add: rodrigues_def Let_def K_def)
qed

lemma rodrigues_rotation:
  assumes "norm3 v = 1"
  shows "rotation (rodrigues v a)"
proof -
  have inverse: "rodrigues v b * rodrigues v (- b) = 1" "rodrigues v (- b) * rodrigues v b = 1" for b
    by (simp_all add: rodrigues_mult assms)
  have "det (rodrigues v (a / 2)) * det (rodrigues v (a / 2)) = 1"
    using arg_cong [OF inverse(1) [of "a / 2"], of det]
    by (simp add: det_mult rodrigues_trp [symmetric])
  then have "det (rodrigues v a) = 1"
    using rodrigues_mult [OF assms, of "a / 2" "a / 2"] by (simp add: det_mult [symmetric])
  with inverse show ?thesis by (simp add: rotation_def rodrigues_trp)
qed

lemma Exp_ang_rotation: "rotation (Exp_ang ang)"
  by (simp add: Exp_ang_def Let_def rodrigues_rotation norm3_axis)

lemma Exp_vel_rotation: "rotation (Exp_vel ang_vel dt)"
  by (simp add: Exp_vel_def Let_def rodrigues_rotation norm3_axis)

lemma Exp_xyz_eq: "Exp_xyz x y z =
    (let v = V3D x y z in if norm3 v > 1 / 100000 then rodrigues (v /\<^sub>R norm3 v) (norm3 v) else 1)"
proof -
  have "sqrt (x * x + y * y + z * z) = norm3 (V3D x y z)" by (simp add: norm3_def dot_def)
  moreover have "V3D (x / n) (y / n) (z / n) = V3D x y z /\<^sub>R n" for n
    by (simp add: scaleR_V3D_def divide_inverse mult.commute)
  ultimately show ?thesis unfolding Exp_xyz_def Let_def by presburger
qed

lemma Exp_xyz_rotation: "rotation (Exp_xyz x y z)"
  by (simp add: Exp_xyz_eq Let_def rodrigues_rotation norm3_axis)

section \<open>Log takes Exp back\<close>

lemma rodrigues_entries:
  assumes "norm3 v = 1"
  shows "trace (rodrigues v a) = 1 + 2 * cos a"
    "V3D (m21 (rodrigues v a) - m12 (rodrigues v a)) (m02 (rodrigues v a) - m20 (rodrigues v a))
       (m10 (rodrigues v a) - m01 (rodrigues v a)) = (2 * sin a) *\<^sub>R v"
proof -
  have one: "vx v * vx v + vy v * vy v + vz v * vz v = 1"
    using norm3_square [of v] assms by (simp add: dot_def)
  have "trace (rodrigues v a) = 3 - 2 * (1 - cos a) * (vx v * vx v + vy v * vy v + vz v * vz v)"
    by (simp add: rodrigues_def trace_def skew_def M3D_ops algebra_simps)
  with one show "trace (rodrigues v a) = 1 + 2 * cos a" by simp
  show "V3D (m21 (rodrigues v a) - m12 (rodrigues v a)) (m02 (rodrigues v a) - m20 (rodrigues v a))
       (m10 (rodrigues v a) - m01 (rodrigues v a)) = (2 * sin a) *\<^sub>R v"
    by (simp add: rodrigues_def skew_def M3D_ops scaleR_V3D_def algebra_simps)
qed

lemma Log_rodrigues:
  assumes "norm3 v = 1" "0 < a" "a < pi"
  shows "Log_rot (rodrigues v a) =
    (if cos a > 1 - 1 / 2000000 \<or> a < 1 / 1000 then sin a *\<^sub>R v else a *\<^sub>R v)"
proof -
  have "arccos (cos a) = a" "sin a > 0" using assms(2,3) by (simp_all add: arccos_cos sin_gt_zero)
  then show ?thesis
    using assms(2) by (simp add: Log_rot_def Let_def rodrigues_entries [OF assms(1)] scaleR_scaleR)
qed

lemma cos_away:
  assumes "11 / 10000 \<le> a" "a < pi"
  shows "cos a \<le> 1 - 1 / 2000000"
proof -
  let ?x = "11 / 10000 :: real"
  obtain t where t: "cos ?x = (\<Sum>m<4. cos_coeff m * ?x ^ m) + cos (t + 1 / 2 * real 4 * pi) / fact 4 * ?x ^ 4"
    using Maclaurin_cos_expansion2 [of ?x 4] by auto
  have "cos (t + 1 / 2 * real 4 * pi) / fact 4 * ?x ^ 4 \<le> 1 / fact 4 * ?x ^ 4"
    by (intro mult_right_mono divide_right_mono) simp_all
  moreover have "(\<Sum>m<4. cos_coeff m * ?x ^ m) = 1 - ?x ^ 2 / 2"
    by (simp add: eval_nat_numeral cos_coeff_def) presburger
  ultimately have "cos ?x \<le> 1 - ?x ^ 2 / 2 + ?x ^ 4 / 24"
    using t by (simp add: fact_numeral)
  also have "\<dots> \<le> 1 - 1 / 2000000" by (simp add: power_numeral_reduce)
  finally have "cos ?x \<le> 1 - 1 / 2000000" .
  moreover have "cos a \<le> cos ?x" using assms by (intro cos_monotone_0_pi_le) auto
  ultimately show ?thesis by linarith
qed

lemma sin_near:
  assumes "0 \<le> (a :: real)" "a < 11 / 10000"
  shows "\<bar>sin a - a\<bar> \<le> 1 / 100000"
proof -
  have "\<bar>sin a - (\<Sum>m<3. sin_coeff m * a ^ m)\<bar> \<le> inverse (fact 3) * \<bar>a\<bar> ^ 3"
    by (rule Maclaurin_sin_bound)
  then have "\<bar>sin a - a\<bar> \<le> a ^ 3 / 6"
    using assms(1) by (simp add: numeral_eq_Suc sin_coeff_def fact_numeral)
  also have "\<dots> \<le> (11 / 10000) ^ 3 / 6"
    by (intro divide_right_mono power_mono) (use assms in simp_all)
  also have "\<dots> \<le> 1 / 100000" by (simp add: power_numeral_reduce)
  finally show ?thesis .
qed

lemma Log_Exp_vector:
  assumes "norm3 w < pi"
  shows "(11 / 10000 \<le> norm3 w \<longrightarrow> Log_rot (Exp_xyz (vx w) (vy w) (vz w)) = w) \<and>
    norm3 (Log_rot (Exp_xyz (vx w) (vy w) (vz w)) - w) \<le> 1 / 100000"
proof -
  define u where "u = w /\<^sub>R norm3 w"
  have E: "Exp_xyz (vx w) (vy w) (vz w) = (if norm3 w > 1 / 100000 then rodrigues u (norm3 w) else 1)"
    by (simp add: Exp_xyz_eq Let_def u_def)
  show ?thesis
  proof (cases "norm3 w > 1 / 100000")
    case True
    then have u: "norm3 u = 1" "w = norm3 w *\<^sub>R u" by (simp_all add: u_def norm3_axis)
    have L: "Log_rot (rodrigues u (norm3 w)) =
        (if cos (norm3 w) > 1 - 1 / 2000000 \<or> norm3 w < 1 / 1000 then sin (norm3 w) *\<^sub>R u else w)"
      using Log_rodrigues [OF u(1), of "norm3 w"] u(2) True assms by simp
    show ?thesis
    proof (cases "11 / 10000 \<le> norm3 w")
      case True
      then show ?thesis using E L cos_away [OF True assms] \<open>norm3 w > _\<close> by simp
    next
      case False
      have "sin (norm3 w) *\<^sub>R u - w = (sin (norm3 w) - norm3 w) *\<^sub>R u"
        using u(2) by (metis scaleR_diff_left)
      then have "norm3 (sin (norm3 w) *\<^sub>R u - w) \<le> 1 / 100000"
        using sin_near [of "norm3 w"] False u(1) by (simp add: norm3_scaleR)
      with E L False True show ?thesis by auto
    qed
  next
    case False
    have "Log_rot 1 = 0" by (simp add: Log_rot_def trace_def M3D_ops V3D_ops)
    moreover have "norm3 (0 - w) = norm3 w" using norm3_scaleR [of "- 1" w] by simp
    ultimately show ?thesis using False E by simp
  qed
qed

end
