(* ===== verification/Covariance.thy ===== *)
theory Covariance
  imports So3 Octree
begin

text \<open>
  The matrices of the filter: \<open>MD(DIM_STATE, DIM_STATE)\<close> of \<open>src/src/fast_livo2/include/common_lib.h\<close>
  as functions of row and column, their blocks, and the covariance matrices among them, which are
  symmetric with no negative quadratic form.
\<close>

definition DIM_STATE :: nat where "DIM_STATE = 19"

section \<open>Operations\<close>

definition mat_mult :: "nat \<Rightarrow> mat \<Rightarrow> mat \<Rightarrow> mat" where
  "mat_mult n A B i j = (\<Sum>k<n. A i k * B k j)"
definition mat_add :: "mat \<Rightarrow> mat \<Rightarrow> mat" where "mat_add A B i j = A i j + B i j"
definition mat_minus :: "mat \<Rightarrow> mat \<Rightarrow> mat" where "mat_minus A B i j = A i j - B i j"
definition mat_trans :: "mat \<Rightarrow> mat" where "mat_trans A i j = A j i"
definition mat_id :: mat where "mat_id i j = (if i = j then 1 else 0)"
definition mat_zero :: mat where "mat_zero i j = 0"

text \<open>An entry of a small matrix, and the writing of one into a block.\<close>

definition entry :: "M3D \<Rightarrow> mat" where
  "entry M i j =
    (if i = 0 then (if j = 0 then m00 M else if j = 1 then m01 M else m02 M)
     else if i = 1 then (if j = 0 then m10 M else if j = 1 then m11 M else m12 M)
     else (if j = 0 then m20 M else if j = 1 then m21 M else m22 M))"

definition set_block :: "nat \<Rightarrow> nat \<Rightarrow> M3D \<Rightarrow> mat \<Rightarrow> mat" where
  "set_block r c M A i j =
    (if r \<le> i \<and> i < r + 3 \<and> c \<le> j \<and> j < c + 3 then entry M (i - r) (j - c) else A i j)"

definition set_entry :: "nat \<Rightarrow> nat \<Rightarrow> real \<Rightarrow> mat \<Rightarrow> mat" where
  "set_entry r c x A i j = (if i = r \<and> j = c then x else A i j)"

definition diagonal :: "V3D \<Rightarrow> M3D" where
  "diagonal v = M3D (vx v) 0 0 0 (vy v) 0 0 0 (vz v)"

section \<open>Covariance matrices\<close>

definition quadratic :: "nat \<Rightarrow> vec \<Rightarrow> mat \<Rightarrow> real" where
  "quadratic n v A = (\<Sum>i<n. \<Sum>j<n. v i * A i j * v j)"

definition covariance :: "nat \<Rightarrow> mat \<Rightarrow> bool" where
  "covariance n A \<longleftrightarrow> (\<forall>i<n. \<forall>j<n. A i j = A j i) \<and> (\<forall>v. 0 \<le> quadratic n v A)"

definition covariance3 :: "M3D \<Rightarrow> bool" where
  "covariance3 M \<longleftrightarrow> trp M = M \<and> (\<forall>v. 0 \<le> dot v (mv M v))"

definition nonneg3 :: "V3D \<Rightarrow> bool" where "nonneg3 v \<longleftrightarrow> 0 \<le> vx v \<and> 0 \<le> vy v \<and> 0 \<le> vz v"

lemma covariance3_diagonal: "nonneg3 v \<Longrightarrow> covariance3 (diagonal v)"
proof -
  assume "nonneg3 v"
  moreover have "dot w (mv (diagonal v) w) = vx v * (vx w * vx w) + vy v * (vy w * vy w) + vz v * (vz w * vz w)" for w
    by (simp add: dot_def mv_def diagonal_def)
  ultimately show ?thesis by (simp add: covariance3_def nonneg3_def trp_def diagonal_def)
qed

lemma covariance3_congruence:
  assumes "covariance3 M"
  shows "covariance3 (R * M * trp R)"
proof -
  have "dot v (mv (R * M * trp R) v) = dot (mv (trp R) v) (mv M (mv (trp R) v))" for v
    by (simp add: mv_mult dot_mv)
  with assms show ?thesis by (simp add: covariance3_def trp_mult mult.assoc)
qed

lemma covariance3_scaleR: "covariance3 M \<Longrightarrow> 0 \<le> c \<Longrightarrow> covariance3 (c *\<^sub>R M)"
proof -
  assume "covariance3 M" "0 \<le> c"
  moreover have "mv (c *\<^sub>R M) v = c *\<^sub>R mv M v" for v by (simp add: mv_def M3D_ops V3D_ops algebra_simps)
  ultimately show ?thesis by (simp add: covariance3_def trp_scaleR dot_scaleR_right)
qed

lemma covariance_add: "covariance n A \<Longrightarrow> covariance n B \<Longrightarrow> covariance n (mat_add A B)"
  by (simp add: covariance_def quadratic_def mat_add_def distrib_left distrib_right sum.distrib)

lemma covariance_zero [simp]: "covariance n mat_zero"
  by (simp add: covariance_def quadratic_def mat_zero_def)

lemma sum_swap3:
  fixes f :: "nat \<Rightarrow> nat \<Rightarrow> nat \<Rightarrow> real"
  shows "(\<Sum>i<n. \<Sum>j<n. \<Sum>k<n. f i j k) = (\<Sum>k<n. \<Sum>i<n. \<Sum>j<n. f i j k)"
proof -
  have "(\<Sum>i<n. \<Sum>j<n. \<Sum>k<n. f i j k) = (\<Sum>i<n. \<Sum>k<n. \<Sum>j<n. f i j k)"
    by (intro sum.cong refl sum.swap)
  also have "\<dots> = (\<Sum>k<n. \<Sum>i<n. \<Sum>j<n. f i j k)" by (rule sum.swap)
  finally show ?thesis .
qed

lemma quadratic_congruence:
  "quadratic n v (mat_mult n (mat_mult n F P) (mat_trans F)) = quadratic n (\<lambda>k. \<Sum>i<n. v i * F i k) P"
proof -
  have "quadratic n v (mat_mult n (mat_mult n F P) (mat_trans F)) =
      (\<Sum>i<n. \<Sum>j<n. \<Sum>k<n. \<Sum>l<n. (v i * F i l) * P l k * (v j * F j k))"
    by (simp add: quadratic_def mat_mult_def mat_trans_def sum_distrib_left sum_distrib_right mult.assoc
        mult.commute mult.left_commute)
  also have "\<dots> = (\<Sum>k<n. \<Sum>i<n. \<Sum>j<n. \<Sum>l<n. (v i * F i l) * P l k * (v j * F j k))"
    by (rule sum_swap3)
  also have "\<dots> = (\<Sum>k<n. \<Sum>l<n. \<Sum>i<n. \<Sum>j<n. (v i * F i l) * P l k * (v j * F j k))"
    by (intro sum.cong refl sum_swap3)
  also have "\<dots> = (\<Sum>l<n. \<Sum>k<n. \<Sum>i<n. \<Sum>j<n. (v i * F i l) * P l k * (v j * F j k))"
    by (rule sum.swap)
  also have "\<dots> = quadratic n (\<lambda>k. \<Sum>i<n. v i * F i k) P"
    unfolding quadratic_def sum_distrib_left sum_distrib_right
    by (rule sum.cong [OF refl], rule sum.cong [OF refl], rule sum.swap)
  finally show ?thesis .
qed

lemma covariance_congruence:
  assumes "covariance n P"
  shows "covariance n (mat_mult n (mat_mult n F P) (mat_trans F))"
proof -
  have "mat_mult n (mat_mult n F P) (mat_trans F) i j = mat_mult n (mat_mult n F P) (mat_trans F) j i" for i j
  proof -
    have "mat_mult n (mat_mult n F P) (mat_trans F) i j = (\<Sum>k<n. \<Sum>l<n. F i l * P l k * F j k)"
      by (simp add: mat_mult_def mat_trans_def sum_distrib_right)
    also have "\<dots> = (\<Sum>k<n. \<Sum>l<n. F j k * P k l * F i l)"
      using assms by (intro sum.cong refl) (simp add: covariance_def)
    also have "\<dots> = (\<Sum>l<n. \<Sum>k<n. F j k * P k l * F i l)" by (rule sum.swap)
    also have "\<dots> = mat_mult n (mat_mult n F P) (mat_trans F) j i"
      by (simp add: mat_mult_def mat_trans_def sum_distrib_right)
    finally show ?thesis .
  qed
  then show ?thesis using assms by (simp add: covariance_def quadratic_congruence)
qed

lemma quadratic_block:
  assumes "r + 3 \<le> n"
  shows "quadratic n v (set_block r r M mat_zero) =
    dot (V3D (v r) (v (r + 1)) (v (r + 2))) (mv M (V3D (v r) (v (r + 1)) (v (r + 2))))"
proof -
  let ?S = "{r ..< r + 3}"
  have S: "?S \<subseteq> {..<n}" using assms by auto
  have three: "(\<Sum>i\<in>?S. f i) = f r + f (r + 1) + f (r + 2)" for f :: "nat \<Rightarrow> real"
    by (simp add: eval_nat_numeral)
  have "quadratic n v (set_block r r M mat_zero) =
      (\<Sum>i\<in>?S. \<Sum>j\<in>?S. v i * entry M (i - r) (j - r) * v j)"
    unfolding quadratic_def
  proof (rule sum.mono_neutral_cong_right [OF _ S])
    fix i
    assume "i \<in> ?S"
    then show "(\<Sum>j<n. v i * set_block r r M mat_zero i j * v j) =
        (\<Sum>j\<in>?S. v i * entry M (i - r) (j - r) * v j)"
      by (intro sum.mono_neutral_cong_right [OF _ S]) (auto simp: set_block_def mat_zero_def)
  qed (auto simp: set_block_def mat_zero_def intro!: sum.neutral)
  also have "\<dots> = dot (V3D (v r) (v (r + 1)) (v (r + 2))) (mv M (V3D (v r) (v (r + 1)) (v (r + 2))))"
    unfolding three by (simp add: dot_def mv_def entry_def distrib_left mult.assoc)
  finally show ?thesis .
qed

lemma covariance_set_block:
  assumes "covariance n A" "covariance3 M" "r + 3 \<le> n"
    and "\<And>i j. r \<le> i \<Longrightarrow> i < r + 3 \<Longrightarrow> A i j = 0" "\<And>i j. r \<le> j \<Longrightarrow> j < r + 3 \<Longrightarrow> A i j = 0"
  shows "covariance n (set_block r r M A)"
proof -
  have split: "set_block r r M A = mat_add A (set_block r r M mat_zero)"
  proof (intro ext)
    fix i j
    show "set_block r r M A i j = mat_add A (set_block r r M mat_zero) i j"
      by (cases "r \<le> i \<and> i < r + 3 \<and> r \<le> j \<and> j < r + 3")
        (use assms(4) [of i j] in \<open>auto simp: set_block_def mat_add_def mat_zero_def\<close>)
  qed
  have "trp M = M" using assms(2) by (simp add: covariance3_def)
  then have "m01 (trp M) = m01 M" "m02 (trp M) = m02 M" "m12 (trp M) = m12 M" by simp_all
  then have "m10 M = m01 M" "m20 M = m02 M" "m21 M = m12 M" by (simp_all add: trp_def)
  then have "entry M i j = entry M j i" for i j by (simp add: entry_def)
  then have "set_block r r M mat_zero i j = set_block r r M mat_zero j i" for i j
    by (auto simp: set_block_def mat_zero_def)
  moreover have "0 \<le> dot v (mv M v)" for v using assms(2) by (simp add: covariance3_def)
  ultimately have "covariance n (set_block r r M mat_zero)"
    unfolding covariance_def quadratic_block [OF assms(3)] by blast
  with assms(1) show ?thesis unfolding split by (rule covariance_add)
qed

lemma covariance_set_entry:
  assumes "covariance n A" "0 \<le> x" "r < n" "\<And>i. A i r = 0" "\<And>j. A r j = 0"
  shows "covariance n (set_entry r r x A)"
proof -
  have split: "set_entry r r x A = mat_add A (set_entry r r x mat_zero)"
    using assms(4) by (intro ext) (simp add: set_entry_def mat_add_def mat_zero_def)
  have "quadratic n v (set_entry r r x mat_zero) =
      (\<Sum>i<n. \<Sum>j<n. if j = r then (if i = r then v i * x * v j else 0) else 0)" for v
    unfolding quadratic_def
    by (rule sum.cong [OF refl], rule sum.cong [OF refl]) (simp add: set_entry_def mat_zero_def)
  then have "quadratic n v (set_entry r r x mat_zero) = x * (v r * v r)" for v
    using assms(3) by simp
  then have "covariance n (set_entry r r x mat_zero)"
    using assms(2) by (simp add: covariance_def set_entry_def mat_zero_def)
  with assms(1) show ?thesis unfolding split by (rule covariance_add)
qed

end
