(* ===== verification/Imu_Process.thy ===== *)
theory Imu_Process
  imports Covariance Sync_Packages
begin

text \<open>
  \<open>ImuProcess\<close> of \<open>src/src/fast_livo2/src/IMU_Processing.cpp\<close> with the state it estimates,
  \<open>StatesGroup\<close> of \<open>include/common_lib.h\<close>: the initial gravity, the propagation of state and
  covariance over the inertial messages of a package, and the points of the scan carried to its end.
  Numbers are real numbers; a division by zero, which gives an infinity or no number in the source,
  gives zero here. The sorting of a scan by time is a stable one. What is only printed or logged is
  left out.
\<close>

section \<open>The estimated state\<close>

record StatesGroup =
  rot_end :: M3D
  pos_end :: V3D
  vel_end :: V3D
  inv_expo_time :: real
  bias_g :: V3D
  bias_a :: V3D
  gravity :: V3D
  cov :: mat

definition new_StatesGroup :: StatesGroup where
  "new_StatesGroup = \<lparr>rot_end = 1, pos_end = 0, vel_end = 0, inv_expo_time = 1, bias_g = 0,
    bias_a = 0, gravity = 0,
    cov = (\<lambda>i j. if i \<noteq> j then 0 else if i = 6 \<or> 10 \<le> i then 1 / 100000 else 1 / 100)\<rparr>"

definition block_at :: "vec \<Rightarrow> nat \<Rightarrow> V3D" where
  "block_at v i = V3D (v i) (v (i + 1)) (v (i + 2))"

definition state_plus :: "StatesGroup \<Rightarrow> vec \<Rightarrow> StatesGroup" where
  "state_plus s d = s\<lparr>rot_end := rot_end s * Exp_xyz (d 0) (d 1) (d 2),
    pos_end := pos_end s + block_at d 3, inv_expo_time := inv_expo_time s + d 6,
    vel_end := vel_end s + block_at d 7, bias_g := bias_g s + block_at d 10,
    bias_a := bias_a s + block_at d 13, gravity := gravity s + block_at d 16\<rparr>"

definition vec_entry :: "V3D \<Rightarrow> vec" where
  "vec_entry v i = (if i = 0 then vx v else if i = 1 then vy v else vz v)"

definition state_minus :: "StatesGroup \<Rightarrow> StatesGroup \<Rightarrow> vec" where
  "state_minus s b i =
    (if i < 3 then vec_entry (Log_rot (trp (rot_end b) * rot_end s)) i
     else if i < 6 then vec_entry (pos_end s - pos_end b) (i - 3)
     else if i = 6 then inv_expo_time s - inv_expo_time b
     else if i < 10 then vec_entry (vel_end s - vel_end b) (i - 7)
     else if i < 13 then vec_entry (bias_g s - bias_g b) (i - 10)
     else if i < 16 then vec_entry (bias_a s - bias_a b) (i - 13)
     else vec_entry (gravity s - gravity b) (i - 16))"

section \<open>The process\<close>

record imu_data =
  linear_acceleration :: V3D
  angular_velocity :: V3D

type_synonym imu_msg = "imu_data Imu"

definition new_Imu :: imu_msg where
  "new_Imu = \<lparr>imu_stamp = 0, imu_content = \<lparr>linear_acceleration = 0, angular_velocity = 0\<rparr>\<rparr>"

abbreviation imu_acc :: "imu_msg \<Rightarrow> V3D" where "imu_acc m \<equiv> linear_acceleration (imu_content m)"
abbreviation imu_gyr :: "imu_msg \<Rightarrow> V3D" where "imu_gyr m \<equiv> angular_velocity (imu_content m)"

record Pose6D =
  offset_time :: real
  pose_acc :: V3D
  pose_gyr :: V3D
  pose_vel :: V3D
  pose_pos :: V3D
  pose_rot :: M3D

definition set_pose6d :: "real \<Rightarrow> V3D \<Rightarrow> V3D \<Rightarrow> V3D \<Rightarrow> V3D \<Rightarrow> M3D \<Rightarrow> Pose6D" where
  "set_pose6d t a g v p R = \<lparr>offset_time = t, pose_acc = a, pose_gyr = g, pose_vel = v,
    pose_pos = p, pose_rot = R\<rparr>"

record ImuProcess = imu_process +
  Lid_rot_to_IMU :: M3D
  Lid_offset_to_IMU :: V3D
  mean_acc :: V3D
  mean_gyr :: V3D
  IMU_mean_acc_norm :: real
  angvel_last :: V3D
  acc_s_last :: V3D
  cov_acc :: V3D
  cov_gyr :: V3D
  cov_bias_gyr :: V3D
  cov_bias_acc :: V3D
  cov_inv_expo :: real
  last_imu :: imu_msg
  last_prop_end_time :: real
  time_last_scan :: real
  imu_time_init :: bool
  gravity_est_en :: bool
  ba_bg_est_en :: bool
  exposure_estimate_en :: bool
  lidar_type_L515 :: bool
  IMUpose :: "Pose6D list"
  pcl_wait_proc :: "V3D PointType list"

text \<open>
  The constructor, with the extrinsics and the settings at their defaults. It leaves two clocks,
  the norm of the mean and the type of the lidar without a value; they are its arguments.
\<close>

definition new_ImuProcess :: "real \<Rightarrow> real \<Rightarrow> real \<Rightarrow> bool \<Rightarrow> ImuProcess" where
  "new_ImuProcess end_time scan_time acc_norm is_L515 = \<lparr>imu_need_init = True, b_first_frame = True, init_iter_num = 1,
    MAX_INI_COUNT = 20, Lid_rot_to_IMU = 1, Lid_offset_to_IMU = 0, mean_acc = V3D 0 0 (- 1), mean_gyr = 0,
    IMU_mean_acc_norm = acc_norm, angvel_last = 0, acc_s_last = 0, cov_acc = V3D (1 / 10) (1 / 10) (1 / 10),
    cov_gyr = V3D (1 / 10) (1 / 10) (1 / 10), cov_bias_gyr = V3D (1 / 10) (1 / 10) (1 / 10),
    cov_bias_acc = V3D (1 / 10) (1 / 10) (1 / 10), cov_inv_expo = 1 / 5, last_imu = new_Imu,
    last_prop_end_time = end_time, time_last_scan = scan_time, imu_time_init = False,
    gravity_est_en = True, ba_bg_est_en = True, exposure_estimate_en = True, lidar_type_L515 = is_L515,
    IMUpose = [], pcl_wait_proc = []\<rparr>"

definition G_m_s2 :: real where "G_m_s2 = 981 / 100"

definition Reset_imu :: "ImuProcess \<Rightarrow> ImuProcess" where
  "Reset_imu p = p\<lparr>mean_acc := V3D 0 0 (- 1), mean_gyr := 0, angvel_last := 0, imu_need_init := True,
    init_iter_num := 1, IMUpose := [], last_imu := new_Imu\<rparr>"

definition set_extrinsic :: "V3D \<Rightarrow> M3D \<Rightarrow> ImuProcess \<Rightarrow> ImuProcess" where
  "set_extrinsic transl rot p = p\<lparr>Lid_offset_to_IMU := transl, Lid_rot_to_IMU := rot\<rparr>"
definition set_gyr_cov_scale :: "V3D \<Rightarrow> ImuProcess \<Rightarrow> ImuProcess" where
  "set_gyr_cov_scale scaler p = p\<lparr>cov_gyr := scaler\<rparr>"
definition set_acc_cov_scale :: "V3D \<Rightarrow> ImuProcess \<Rightarrow> ImuProcess" where
  "set_acc_cov_scale scaler p = p\<lparr>cov_acc := scaler\<rparr>"
definition set_gyr_bias_cov :: "V3D \<Rightarrow> ImuProcess \<Rightarrow> ImuProcess" where
  "set_gyr_bias_cov b_g p = p\<lparr>cov_bias_gyr := b_g\<rparr>"
definition set_inv_expo_cov :: "real \<Rightarrow> ImuProcess \<Rightarrow> ImuProcess" where
  "set_inv_expo_cov inv_expo p = p\<lparr>cov_inv_expo := inv_expo\<rparr>"
definition set_acc_bias_cov :: "V3D \<Rightarrow> ImuProcess \<Rightarrow> ImuProcess" where
  "set_acc_bias_cov b_a p = p\<lparr>cov_bias_acc := b_a\<rparr>"
definition set_imu_init_frame_num :: "int \<Rightarrow> ImuProcess \<Rightarrow> ImuProcess" where
  "set_imu_init_frame_num num p = p\<lparr>MAX_INI_COUNT := num\<rparr>"
text \<open>The flag \<open>imu_en\<close> is that of the configuration.\<close>

definition disable_imu :: "ImuProcess \<Rightarrow> ImuProcess" where
  "disable_imu p = p\<lparr>imu_need_init := False\<rparr>"
definition disable_gravity_est :: "ImuProcess \<Rightarrow> ImuProcess" where
  "disable_gravity_est p = p\<lparr>gravity_est_en := False\<rparr>"
definition disable_bias_est :: "ImuProcess \<Rightarrow> ImuProcess" where
  "disable_bias_est p = p\<lparr>ba_bg_est_en := False\<rparr>"
definition disable_exposure_est :: "ImuProcess \<Rightarrow> ImuProcess" where
  "disable_exposure_est p = p\<lparr>exposure_estimate_en := False\<rparr>"

text \<open>The loop over the messages, with the running means and their count.\<close>

fun running_means :: "imu_msg list \<Rightarrow> V3D \<Rightarrow> V3D \<Rightarrow> int \<Rightarrow> V3D \<times> V3D \<times> int" where
  "running_means [] a g N = (a, g, N)"
| "running_means (m # ms) a g N =
    running_means ms (a + (imu_acc m - a) /\<^sub>R real_of_int N) (g + (imu_gyr m - g) /\<^sub>R real_of_int N) (N + 1)"

definition IMU_init_state ::
  "imu_msg list \<Rightarrow> ImuProcess \<Rightarrow> StatesGroup \<Rightarrow> (ImuProcess \<times> StatesGroup) option" where
  "IMU_init_state msgs p st =
    (if msgs = [] then None
     else
       let p = (if b_first_frame p
           then (Reset_imu p)\<lparr>init_iter_num := 1, b_first_frame := False,
             mean_acc := imu_acc (hd msgs), mean_gyr := imu_gyr (hd msgs)\<rparr>
           else p);
         (a, g, N) = running_means msgs (mean_acc p) (mean_gyr p) (init_iter_num p)
       in Some (p\<lparr>mean_acc := a, mean_gyr := g, IMU_mean_acc_norm := norm3 a, init_iter_num := N, last_imu := last msgs\<rparr>,
         st\<lparr>gravity := G_m_s2 *\<^sub>R ((- a) /\<^sub>R norm3 a), rot_end := 1, bias_g := 0\<rparr>))"

section \<open>Propagation\<close>

record prop_step =
  ps_head :: imu_msg
  ps_tail :: imu_msg
  ps_dt :: real
  ps_offs :: real

text \<open>The loop over neighbours in \<open>v_imu\<close>: the interval of each pass that is not skipped.\<close>

fun prop_steps :: "real \<Rightarrow> real \<Rightarrow> imu_msg list \<Rightarrow> prop_step list" where
  "prop_steps prop_beg_time prop_end_time (h # t # rest) =
    (if imu_stamp t < prop_beg_time then prop_steps prop_beg_time prop_end_time (t # rest)
     else
       (if imu_stamp h < prop_beg_time
        then \<lparr>ps_head = h, ps_tail = t, ps_dt = imu_stamp t - prop_beg_time, ps_offs = imu_stamp t - prop_beg_time\<rparr>
        else if rest \<noteq> []
        then \<lparr>ps_head = h, ps_tail = t, ps_dt = imu_stamp t - imu_stamp h, ps_offs = imu_stamp t - prop_beg_time\<rparr>
        else \<lparr>ps_head = h, ps_tail = t, ps_dt = prop_end_time - imu_stamp h,
          ps_offs = prop_end_time - prop_beg_time\<rparr>) # prop_steps prop_beg_time prop_end_time (t # rest))"
| "prop_steps prop_beg_time prop_end_time _ = []"

definition F_x :: "ImuProcess \<Rightarrow> V3D \<Rightarrow> V3D \<Rightarrow> M3D \<Rightarrow> real \<Rightarrow> mat" where
  "F_x p angvel_avr acc_avr R_imu dt =
    (let F = set_block 0 0 (Exp_vel angvel_avr (- dt)) mat_id;
         F = (if ba_bg_est_en p then set_block 0 10 (- (dt *\<^sub>R 1)) F else F);
         F = set_block 3 7 (dt *\<^sub>R 1) F;
         F = set_block 7 0 (dt *\<^sub>R (- R_imu * skew acc_avr)) F;
         F = (if ba_bg_est_en p then set_block 7 13 (dt *\<^sub>R (- R_imu)) F else F)
     in if gravity_est_en p then set_block 7 16 (dt *\<^sub>R 1) F else F)"

definition cov_w :: "ImuProcess \<Rightarrow> M3D \<Rightarrow> real \<Rightarrow> mat" where
  "cov_w p R_imu dt =
    (let W = (if exposure_estimate_en p then set_entry 6 6 (cov_inv_expo p * dt * dt) mat_zero else mat_zero);
         W = set_block 0 0 ((dt * dt) *\<^sub>R diagonal (cov_gyr p)) W;
         W = set_block 7 7 ((dt * dt) *\<^sub>R (R_imu * diagonal (cov_acc p) * trp R_imu)) W;
         W = set_block 10 10 ((dt * dt) *\<^sub>R diagonal (cov_bias_gyr p)) W
     in set_block 13 13 ((dt * dt) *\<^sub>R diagonal (cov_bias_acc p)) W)"

definition cov_step :: "mat \<Rightarrow> mat \<Rightarrow> mat \<Rightarrow> mat" where
  "cov_step F P W = mat_add (mat_mult DIM_STATE (mat_mult DIM_STATE F P) (mat_trans F)) W"

text \<open>The locals \<open>R_imu\<close>, \<open>vel_imu\<close> and \<open>pos_imu\<close>, and one pass of the loop.\<close>

record imu_locals =
  R_imu :: M3D
  vel_imu :: V3D
  pos_imu :: V3D

fun imu_step :: "prop_step \<Rightarrow> ImuProcess \<times> StatesGroup \<times> imu_locals \<Rightarrow> ImuProcess \<times> StatesGroup \<times> imu_locals" where
  "imu_step s (p, st, l) =
    (let dt = ps_dt s;
         angvel_avr = (1 / 2) *\<^sub>R (imu_gyr (ps_head s) + imu_gyr (ps_tail s)) - bias_g st;
         acc_avr = (G_m_s2 / norm3 (mean_acc p)) *\<^sub>R ((1 / 2) *\<^sub>R (imu_acc (ps_head s) + imu_acc (ps_tail s))) - bias_a st;
         R = R_imu l * Exp_vel angvel_avr dt;
         acc_imu = mv R acc_avr + gravity st;
         l' = \<lparr>R_imu = R, vel_imu = vel_imu l + dt *\<^sub>R acc_imu,
           pos_imu = pos_imu l + dt *\<^sub>R vel_imu l + (1 / 2 * dt * dt) *\<^sub>R acc_imu\<rparr>
     in (p\<lparr>angvel_last := angvel_avr, acc_s_last := acc_imu,
           IMUpose := IMUpose p @ [set_pose6d (ps_offs s) acc_imu angvel_avr (vel_imu l') (pos_imu l') (R_imu l')]\<rparr>,
         st\<lparr>cov := cov_step (F_x p angvel_avr acc_avr (R_imu l) dt) (cov st) (cov_w p (R_imu l) dt)\<rparr>, l'))"

section \<open>Undistortion\<close>

definition compensate :: "ImuProcess \<Rightarrow> StatesGroup \<Rightarrow> Pose6D \<Rightarrow> V3D PointType \<Rightarrow> V3D PointType" where
  "compensate p st head pt =
    (let extR_Ri = trp (Lid_rot_to_IMU p) * trp (rot_end st);
         exrR_extT = mv (trp (Lid_rot_to_IMU p)) (Lid_offset_to_IMU p);
         dt = curvature pt / 1000 - offset_time head;
         R_i = pose_rot head * Exp_vel (pose_gyr head) dt;
         T_ei = pose_pos head + dt *\<^sub>R pose_vel head + (1 / 2 * dt * dt) *\<^sub>R pose_acc head - pos_end st
     in pt\<lparr>coordinates := mv extR_Ri (mv R_i (mv (Lid_rot_to_IMU p) (coordinates pt) + Lid_offset_to_IMU p) + T_ei) -
       exrR_extT\<rparr>)"

text \<open>
  The inner loop, down the points from \<open>i\<close>, with the point it stops at. It leaves after the first
  point but stays at it.
\<close>

fun comp_points :: "(Pose6D \<Rightarrow> V3D PointType \<Rightarrow> V3D PointType) \<Rightarrow> Pose6D \<Rightarrow> nat \<Rightarrow> V3D PointType list \<Rightarrow>
    V3D PointType list \<times> nat" where
  "comp_points cmp head i pcl =
    (if curvature (pcl ! i) / 1000 > offset_time head
     then let pcl = pcl[i := cmp head (pcl ! i)]
       in if i = 0 then (pcl, 0) else comp_points cmp head (i - 1) pcl
     else (pcl, i))"

declare comp_points.simps [simp del]

text \<open>The outer loop over the heads, from the last pose but one to the first.\<close>

fun comp_poses :: "(Pose6D \<Rightarrow> V3D PointType \<Rightarrow> V3D PointType) \<Rightarrow> Pose6D list \<Rightarrow> nat \<Rightarrow> V3D PointType list \<Rightarrow>
    V3D PointType list" where
  "comp_poses cmp [] i pcl = pcl"
| "comp_poses cmp (head # heads) i pcl =
    (let (pcl, i) = comp_points cmp head i pcl in comp_poses cmp heads i pcl)"

definition prop_end :: "('i, 'g) MeasureGroup \<Rightarrow> EKF_STATE \<Rightarrow> real" where
  "prop_end m flg = (if flg = LIO then lio_time m else vio_time m)"

text \<open>The two halves of \<open>UndistortPcl\<close>: the propagation, and the way back over the points.\<close>

definition propagate :: "(V3D, imu_data, 'g) LidarMeasureGroup \<Rightarrow> ImuProcess \<Rightarrow> StatesGroup \<Rightarrow>
    ((V3D, imu_data, 'g) LidarMeasureGroup \<times> ImuProcess \<times> StatesGroup) option" where
  "propagate g p st = do {
    m \<leftarrow> back_of (measures g);
    let v_imu = last_imu p # imu m;
    let prop_beg_time = last_prop_end_time p;
    let prop_end_time = prop_end m (lio_vio_flg g);
    let p = (if lio_vio_flg g = LIO
      then p\<lparr>pcl_wait_proc := pcl_proc_cur g,
        IMUpose := IMUpose p @ [set_pose6d 0 (acc_s_last p) (angvel_last p) (vel_end st) (pos_end st) (rot_end st)]\<rparr>
      else p);
    let tau = (if imu_time_init p then inv_expo_time st else 1);
    let p = p\<lparr>imu_time_init := True\<rparr>;
    let l = \<lparr>R_imu = rot_end st, vel_imu = vel_end st, pos_imu = pos_end st\<rparr>;
    let (g, p, st, l) = (if lio_vio_flg g \<in> {LIO, VIO}
      then (g\<lparr>last_lio_update_time := prop_end_time\<rparr>, fold imu_step (prop_steps prop_beg_time prop_end_time v_imu) (p, st, l))
      else (g, p, st, l));
    Some (g, p\<lparr>last_imu := last v_imu, last_prop_end_time := prop_end_time\<rparr>,
      st\<lparr>vel_end := vel_imu l, rot_end := R_imu l, pos_end := pos_imu l, inv_expo_time := tau\<rparr>)
  }"

definition UndistortPcl :: "(V3D, imu_data, 'g) LidarMeasureGroup \<Rightarrow> ImuProcess \<Rightarrow> StatesGroup \<Rightarrow>
    ((V3D, imu_data, 'g) LidarMeasureGroup \<times> ImuProcess \<times> StatesGroup \<times> V3D PointType list) option" where
  "UndistortPcl g p st = do {
    (g, p, st) \<leftarrow> propagate g p st;
    Some (if lio_vio_flg g = LIO \<and> pcl_wait_proc p \<noteq> []
      then (g, p\<lparr>pcl_wait_proc := [], IMUpose := []\<rparr>, st,
        comp_poses (compensate p st) (rev (butlast (IMUpose p))) (length (pcl_wait_proc p) - 1) (pcl_wait_proc p))
      else (g, p, st, []))
  }"

section \<open>Without an inertial unit\<close>

definition forward_point :: "StatesGroup \<Rightarrow> real \<Rightarrow> V3D PointType \<Rightarrow> V3D PointType" where
  "forward_point st pcl_end_offset_time pt =
    (let dt_j = pcl_end_offset_time - curvature pt / 1000
     in pt\<lparr>coordinates := mv (Exp_vel (bias_g st) (- dt_j)) (coordinates pt) +
       dt_j *\<^sub>R mv (- trp (rot_end st)) (vel_end st)\<rparr>)"

definition forward_F :: "StatesGroup \<Rightarrow> real \<Rightarrow> mat" where
  "forward_F st dt =
    set_block 3 7 (dt *\<^sub>R 1) (set_block 0 10 (dt *\<^sub>R 1) (set_block 0 0 (Exp_vel (bias_g st) (- dt)) mat_id))"

definition forward_w :: "ImuProcess \<Rightarrow> real \<Rightarrow> mat" where
  "forward_w p dt = set_block 7 7 ((dt * dt) *\<^sub>R diagonal (cov_acc p))
    (set_block 10 10 ((dt * dt) *\<^sub>R diagonal (cov_gyr p)) mat_zero)"

definition Forward_without_imu_state :: "(V3D, imu_data, 'g) LidarMeasureGroup \<Rightarrow> ImuProcess \<Rightarrow> StatesGroup \<Rightarrow>
    ((V3D, imu_data, 'g) LidarMeasureGroup \<times> ImuProcess \<times> StatesGroup \<times> V3D PointType list) option" where
  "Forward_without_imu_state g p st =
    (if lidar g = [] then None
     else
       let pcl_out = sort_key curvature (lidar g);
         pcl_beg_time = lidar_frame_beg_time g;
         pcl_end_offset_time = curvature (last pcl_out) / 1000;
         g = g\<lparr>last_lio_update_time := pcl_beg_time + pcl_end_offset_time\<rparr>;
         dt = (if b_first_frame p then 1 / 10 else pcl_beg_time - time_last_scan p);
         p = p\<lparr>b_first_frame := False, time_last_scan := pcl_beg_time\<rparr>;
         st = st\<lparr>cov := cov_step (forward_F st dt) (cov st) (forward_w p dt), rot_end := rot_end st * Exp_vel (bias_g st) dt,
           pos_end := pos_end st + dt *\<^sub>R vel_end st\<rparr>;
         pcl_out = (if lidar_type_L515 p then pcl_out
           else hd pcl_out # map (forward_point st pcl_end_offset_time) (tl pcl_out))
       in Some (g, p, st, pcl_out))"

definition Process2_state :: "mapper_config \<Rightarrow> (V3D, imu_data, 'g) LidarMeasureGroup \<Rightarrow> ImuProcess \<Rightarrow>
    StatesGroup \<Rightarrow> V3D PointType list \<Rightarrow>
    ((V3D, imu_data, 'g) LidarMeasureGroup \<times> ImuProcess \<times> StatesGroup \<times> V3D PointType list) option" where
  "Process2_state c g p st cur_pcl_un =
    (if \<not> imu_en c then Forward_without_imu_state g p st
     else do {
       m \<leftarrow> back_of (measures g);
       if imu_need_init p then
         (if imu m = [] then Some (g, p, st, cur_pcl_un)
          else do {
            (p, st) \<leftarrow> IMU_init_state (imu m) p st;
            let p = p\<lparr>imu_need_init := True, last_imu := last (imu m)\<rparr>;
            Some (g, if init_iter_num p > MAX_INI_COUNT p then p\<lparr>imu_need_init := False\<rparr> else p, st, cur_pcl_un)
          })
       else UndistortPcl g p st
     })"

end
