(* ===== verification/Imu_Props.thy ===== *)
theory Imu_Props
  imports Imu_Process
begin

text \<open>
  What \<open>ImuProcess\<close> keeps and computes: the attitude stays a rotation and the covariance a covariance,
  the process does to the clock what its skeleton says, and the points of a scan are carried to its
  end.
\<close>

section \<open>Attitude and covariance\<close>

definition filter_ok :: "StatesGroup \<Rightarrow> bool" where
  "filter_ok st \<longleftrightarrow> rotation (rot_end st) \<and> covariance DIM_STATE (cov st)"

definition noise_ok :: "ImuProcess \<Rightarrow> bool" where
  "noise_ok p \<longleftrightarrow> nonneg3 (cov_acc p) \<and> nonneg3 (cov_gyr p) \<and> nonneg3 (cov_bias_gyr p) \<and>
    nonneg3 (cov_bias_acc p) \<and> 0 \<le> cov_inv_expo p"

lemma scaled_diagonal: "nonneg3 v \<Longrightarrow> covariance3 ((dt * dt) *\<^sub>R diagonal v)"
  by (simp add: covariance3_scaleR covariance3_diagonal)

lemma cov_w_covariance:
  assumes "noise_ok p"
  shows "covariance DIM_STATE (cov_w p R dt)"
proof -
  let ?W0 = "if exposure_estimate_en p then set_entry 6 6 (cov_inv_expo p * dt * dt) mat_zero else mat_zero"
  let ?W1 = "set_block 0 0 ((dt * dt) *\<^sub>R diagonal (cov_gyr p)) ?W0"
  let ?W2 = "set_block 7 7 ((dt * dt) *\<^sub>R (R * diagonal (cov_acc p) * trp R)) ?W1"
  let ?W3 = "set_block 10 10 ((dt * dt) *\<^sub>R diagonal (cov_bias_gyr p)) ?W2"
  have m: "covariance3 ((dt * dt) *\<^sub>R diagonal (cov_gyr p))" "covariance3 ((dt * dt) *\<^sub>R diagonal (cov_bias_gyr p))"
    "covariance3 ((dt * dt) *\<^sub>R diagonal (cov_bias_acc p))"
    "covariance3 ((dt * dt) *\<^sub>R (R * diagonal (cov_acc p) * trp R))"
    using assms by (simp_all add: noise_ok_def scaled_diagonal covariance3_scaleR covariance3_congruence covariance3_diagonal)
  have "0 \<le> cov_inv_expo p * dt * dt" using assms by (simp add: noise_ok_def mult.assoc)
  then have "covariance DIM_STATE ?W0"
    by (auto simp: DIM_STATE_def mat_zero_def intro!: covariance_set_entry)
  then have "covariance DIM_STATE ?W1"
    by (rule covariance_set_block) (use m in \<open>auto simp: DIM_STATE_def set_entry_def mat_zero_def\<close>)
  then have "covariance DIM_STATE ?W2"
    by (rule covariance_set_block) (use m in \<open>auto simp: DIM_STATE_def set_entry_def set_block_def mat_zero_def\<close>)
  then have "covariance DIM_STATE ?W3"
    by (rule covariance_set_block) (use m in \<open>auto simp: DIM_STATE_def set_entry_def set_block_def mat_zero_def\<close>)
  then have "covariance DIM_STATE (set_block 13 13 ((dt * dt) *\<^sub>R diagonal (cov_bias_acc p)) ?W3)"
    by (rule covariance_set_block) (use m in \<open>auto simp: DIM_STATE_def set_entry_def set_block_def mat_zero_def\<close>)
  then show ?thesis by (simp add: cov_w_def Let_def)
qed

lemma cov_step_covariance:
  "covariance DIM_STATE P \<Longrightarrow> covariance DIM_STATE W \<Longrightarrow> covariance DIM_STATE (cov_step F P W)"
  by (simp add: cov_step_def covariance_add covariance_congruence)

lemma covariance_diagonal_entries:
  assumes "\<And>i. 0 \<le> d i"
  shows "covariance n (\<lambda>i j. if i \<noteq> j then 0 else d i)"
proof -
  have "quadratic n v (\<lambda>i j. if i \<noteq> j then 0 else d i) = (\<Sum>i<n. d i * (v i * v i))" for v
  proof -
    have "(\<Sum>j<n. v i * (if i \<noteq> j then 0 else d i) * v j) = (\<Sum>j<n. if i = j then v i * d i * v j else 0)" for i
      by (rule sum.cong) simp_all
    then show ?thesis by (simp add: quadratic_def mult.commute mult.left_commute)
  qed
  then show ?thesis using assms by (simp add: covariance_def sum_nonneg)
qed

lemma new_StatesGroup_ok: "filter_ok new_StatesGroup"
  using covariance_diagonal_entries [of "\<lambda>i. if i = 6 \<or> 10 \<le> i then 1 / 100000 else 1 / 100" DIM_STATE]
  by (simp add: filter_ok_def new_StatesGroup_def)

text \<open>One pass of the propagation, and all of them.\<close>

definition step_ok :: "ImuProcess \<times> StatesGroup \<times> imu_locals \<Rightarrow> bool" where
  "step_ok = (\<lambda>(p, st, l). noise_ok p \<and> rotation (R_imu l) \<and> covariance DIM_STATE (cov st) \<and>
    list_all (\<lambda>q. rotation (pose_rot q)) (IMUpose p))"

lemma imu_step_ok: "step_ok x \<Longrightarrow> step_ok (imu_step s x)"
proof (cases x)
  case (fields p st l)
  assume ok: "step_ok x"
  then have "covariance DIM_STATE (cov_step F (cov st) (cov_w p (R_imu l) dt))" for F dt
    by (simp add: step_ok_def fields cov_step_covariance cov_w_covariance)
  with ok show ?thesis
    by (simp add: step_ok_def fields Let_def rotation_mult Exp_vel_rotation noise_ok_def set_pose6d_def)
qed

lemma imu_steps_ok: "step_ok x \<Longrightarrow> step_ok (fold imu_step ss x)"
  by (induction ss arbitrary: x) (simp_all add: imu_step_ok)

text \<open>What the passes leave alone.\<close>

definition imu_frame :: "ImuProcess \<times> StatesGroup \<times> imu_locals \<Rightarrow> ImuProcess \<times> StatesGroup" where
  "imu_frame = (\<lambda>(p, st, l). (p\<lparr>angvel_last := 0, acc_s_last := 0, IMUpose := []\<rparr>, st\<lparr>cov := mat_zero\<rparr>))"

lemma imu_step_frame: "imu_frame (imu_step s x) = imu_frame x"
  by (cases x) (simp add: imu_frame_def Let_def)

lemma imu_steps_frame: "imu_frame (fold imu_step ss x) = imu_frame x"
  by (induction ss arbitrary: x) (simp_all add: imu_step_frame)

lemma imu_steps_fields:
  assumes "fold imu_step ss (p, st, l) = (p', st', l')"
  shows "\<exists>a v ps P. p' = p\<lparr>angvel_last := a, acc_s_last := v, IMUpose := ps\<rparr> \<and> st' = st\<lparr>cov := P\<rparr>"
proof -
  have e: "p'\<lparr>angvel_last := 0, acc_s_last := 0, IMUpose := []\<rparr> = p\<lparr>angvel_last := 0, acc_s_last := 0, IMUpose := []\<rparr>"
    "st'\<lparr>cov := mat_zero\<rparr> = st\<lparr>cov := mat_zero\<rparr>"
    using imu_steps_frame [of ss "(p, st, l)"] assms by (simp_all add: imu_frame_def)
  have "p' = p'\<lparr>angvel_last := 0, acc_s_last := 0, IMUpose := []\<rparr>
      \<lparr>angvel_last := angvel_last p', acc_s_last := acc_s_last p', IMUpose := IMUpose p'\<rparr>"
    "st' = st'\<lparr>cov := mat_zero\<rparr>\<lparr>cov := cov st'\<rparr>" by simp_all
  then have "p' = p\<lparr>angvel_last := angvel_last p', acc_s_last := acc_s_last p', IMUpose := IMUpose p'\<rparr>"
    "st' = st\<lparr>cov := cov st'\<rparr>" unfolding e by simp_all
  then show ?thesis by blast
qed

lemma propagate_fields:
  assumes "propagate g p st = Some (g', p', st')"
  shows "measures g \<noteq> []"
    "g' = (if lio_vio_flg g \<in> {LIO, VIO} then g\<lparr>last_lio_update_time := prop_end (last (measures g)) (lio_vio_flg g)\<rparr> else g)"
    "\<exists>a v ps wait li t. p' = p\<lparr>angvel_last := a, acc_s_last := v, IMUpose := ps, pcl_wait_proc := wait,
      last_imu := li, last_prop_end_time := t, imu_time_init := True\<rparr>"
    "lio_vio_flg g = LIO \<Longrightarrow> pcl_wait_proc p' = pcl_proc_cur g"
proof -
  define p0 where "p0 = (if lio_vio_flg g = LIO
      then p\<lparr>pcl_wait_proc := pcl_proc_cur g,
        IMUpose := IMUpose p @ [set_pose6d 0 (acc_s_last p) (angvel_last p) (vel_end st) (pos_end st) (rot_end st)]\<rparr>
      else p)\<lparr>imu_time_init := True\<rparr>"
  define l where "l = \<lparr>R_imu = rot_end st, vel_imu = vel_end st, pos_imu = pos_end st\<rparr>"
  show m: "measures g \<noteq> []" using assms by (auto simp: propagate_def back_of_def)
  obtain p2 st2 l2 where f: "fold imu_step (prop_steps (last_prop_end_time p)
      (prop_end (last (measures g)) (lio_vio_flg g)) (last_imu p # imu (last (measures g)))) (p0, st, l) = (p2, st2, l2)"
    by (metis prod_cases3)
  define p3 where "p3 = (if lio_vio_flg g \<in> {LIO, VIO} then p2 else p0)"
  obtain a v ps where p3: "p3 = p0\<lparr>angvel_last := a, acc_s_last := v, IMUpose := ps\<rparr>"
  proof (cases "lio_vio_flg g \<in> {LIO, VIO}")
    case True
    with imu_steps_fields [OF f] show ?thesis using that by (auto simp: p3_def)
  next
    case False
    then have "p3 = p0\<lparr>angvel_last := angvel_last p0, acc_s_last := acc_s_last p0, IMUpose := IMUpose p0\<rparr>"
      by (simp add: p3_def)
    then show ?thesis by (rule that)
  qed
  have r: "g' = (if lio_vio_flg g \<in> {LIO, VIO} then g\<lparr>last_lio_update_time := prop_end (last (measures g)) (lio_vio_flg g)\<rparr> else g)"
    "p' = p3\<lparr>last_imu := last (last_imu p # imu (last (measures g))),
       last_prop_end_time := prop_end (last (measures g)) (lio_vio_flg g)\<rparr>"
    using assms m f unfolding propagate_def p0_def l_def p3_def
    by (auto simp: back_of_def Let_def split: if_splits)
  then show "g' = (if lio_vio_flg g \<in> {LIO, VIO} then g\<lparr>last_lio_update_time := prop_end (last (measures g)) (lio_vio_flg g)\<rparr> else g)"
    by blast
  have "p' = p\<lparr>angvel_last := a, acc_s_last := v, IMUpose := ps, pcl_wait_proc := pcl_wait_proc p0,
      last_imu := last (last_imu p # imu (last (measures g))),
      last_prop_end_time := prop_end (last (measures g)) (lio_vio_flg g), imu_time_init := True\<rparr>"
    unfolding r p3 by (simp add: p0_def)
  then show "\<exists>a v ps wait li t. p' = p\<lparr>angvel_last := a, acc_s_last := v, IMUpose := ps, pcl_wait_proc := wait,
      last_imu := li, last_prop_end_time := t, imu_time_init := True\<rparr>" by blast
  show "lio_vio_flg g = LIO \<Longrightarrow> pcl_wait_proc p' = pcl_proc_cur g" unfolding r p3 by (simp add: p0_def)
qed

lemma propagate_ok:
  assumes "propagate g p st = Some (g', p', st')" "filter_ok st" "noise_ok p"
    "list_all (\<lambda>q. rotation (pose_rot q)) (IMUpose p)"
  shows "filter_ok st'" "noise_ok p'" "list_all (\<lambda>q. rotation (pose_rot q)) (IMUpose p')"
proof -
  define p0 where "p0 = (if lio_vio_flg g = LIO
      then p\<lparr>pcl_wait_proc := pcl_proc_cur g,
        IMUpose := IMUpose p @ [set_pose6d 0 (acc_s_last p) (angvel_last p) (vel_end st) (pos_end st) (rot_end st)]\<rparr>
      else p)\<lparr>imu_time_init := True\<rparr>"
  define l where "l = \<lparr>R_imu = rot_end st, vel_imu = vel_end st, pos_imu = pos_end st\<rparr>"
  have "step_ok (p0, st, l)"
    using assms(2-4) by (simp add: step_ok_def p0_def l_def filter_ok_def noise_ok_def set_pose6d_def)
  then have f: "step_ok (fold imu_step (prop_steps (last_prop_end_time p)
      (prop_end (last (measures g)) (lio_vio_flg g)) (last_imu p # imu (last (measures g)))) (p0, st, l))"
    by (rule imu_steps_ok)
  have "filter_ok st' \<and> noise_ok p' \<and> list_all (\<lambda>q. rotation (pose_rot q)) (IMUpose p')"
    using assms(1) f \<open>step_ok (p0, st, l)\<close> unfolding propagate_def p0_def l_def
    by (auto simp: back_of_def Let_def step_ok_def filter_ok_def noise_ok_def split: if_splits prod.splits)
  then show "filter_ok st'" "noise_ok p'" "list_all (\<lambda>q. rotation (pose_rot q)) (IMUpose p')" by blast+
qed


definition process_ok :: "ImuProcess \<Rightarrow> StatesGroup \<Rightarrow> bool" where
  "process_ok p st \<longleftrightarrow> filter_ok st \<and> noise_ok p \<and> list_all (\<lambda>q. rotation (pose_rot q)) (IMUpose p)"

lemma IMU_init_state_ok:
  assumes "IMU_init_state ms p st = Some (p', st')" "process_ok p st"
  shows "process_ok p' st'"
  using assms by (auto simp: IMU_init_state_def Let_def process_ok_def filter_ok_def noise_ok_def Reset_imu_def
      split: if_splits prod.splits)

lemma forward_w_covariance:
  assumes "noise_ok p"
  shows "covariance DIM_STATE (forward_w p dt)"
  unfolding forward_w_def
proof (rule covariance_set_block)
  show "covariance DIM_STATE (set_block 10 10 ((dt * dt) *\<^sub>R diagonal (cov_gyr p)) mat_zero)"
    by (rule covariance_set_block)
      (use assms in \<open>auto simp: noise_ok_def scaled_diagonal DIM_STATE_def mat_zero_def\<close>)
qed (use assms in \<open>auto simp: noise_ok_def scaled_diagonal DIM_STATE_def set_block_def mat_zero_def\<close>)

lemma Forward_without_imu_ok:
  assumes "Forward_without_imu_state g p st = Some (g', p', st', pcl)" "process_ok p st"
  shows "process_ok p' st'"
proof -
  define p0 where "p0 = p\<lparr>b_first_frame := False, time_last_scan := lidar_frame_beg_time g\<rparr>"
  have "noise_ok p0" using assms(2) by (simp add: p0_def process_ok_def noise_ok_def)
  then have "covariance DIM_STATE (cov_step F (cov st) (forward_w p0 dt))" for F dt
    using assms(2) by (simp add: process_ok_def filter_ok_def cov_step_covariance forward_w_covariance)
  moreover define dt where "dt = (if b_first_frame p then 1 / 10 else lidar_frame_beg_time g - time_last_scan p)"
  have "p' = p0" "st' = st\<lparr>cov := cov_step (forward_F st dt) (cov st) (forward_w p0 dt),
      rot_end := rot_end st * Exp_vel (bias_g st) dt, pos_end := pos_end st + dt *\<^sub>R vel_end st\<rparr>"
    using assms(1) unfolding Forward_without_imu_state_def Let_def p0_def dt_def
    by (auto split: if_splits)
  ultimately show ?thesis
    using assms(2) \<open>noise_ok p0\<close>
    by (simp add: process_ok_def filter_ok_def rotation_mult Exp_vel_rotation p0_def)
qed

lemma UndistortPcl_ok:
  assumes "UndistortPcl g p st = Some (g', p', st', pcl)" "process_ok p st"
  shows "process_ok p' st'"
proof -
  obtain g1 p1 st1 where p1: "propagate g p st = Some (g1, p1, st1)"
    using assms(1) by (auto simp: UndistortPcl_def split: Option.bind_splits)
  from propagate_ok [OF p1] assms show ?thesis
    by (auto simp: UndistortPcl_def p1 process_ok_def noise_ok_def split: if_splits)
qed

lemma Process2_state_kept:
  assumes "Process2_state c g p st pcl = Some (g', p', st', pcl')" "process_ok p st"
  shows "process_ok p' st'"
proof (cases "imu_en c")
  case False
  with assms Forward_without_imu_ok show ?thesis by (auto simp: Process2_state_def)
next
  case True
  show ?thesis
  proof (cases "imu_need_init p")
    case False
    with True assms UndistortPcl_ok show ?thesis by (auto simp: Process2_state_def split: Option.bind_splits)
  next
    case need: True
    show ?thesis
    proof (cases "imu (last (measures g)) = []")
      case True
      with \<open>imu_en c\<close> need assms show ?thesis by (auto simp: Process2_state_def back_of_def split: if_splits)
    next
      case False
      with \<open>imu_en c\<close> need assms(1) obtain p1 s1 where i: "IMU_init_state (imu (last (measures g))) p st = Some (p1, s1)"
        by (auto simp: Process2_state_def back_of_def split: if_splits Option.bind_splits)
      have "(p', st') = (let q = p1\<lparr>imu_need_init := True, last_imu := last (imu (last (measures g)))\<rparr>
          in if init_iter_num q > MAX_INI_COUNT q then q\<lparr>imu_need_init := False\<rparr> else q, s1)"
        using \<open>imu_en c\<close> need False assms(1) i
        by (auto simp: Process2_state_def back_of_def Let_def split: if_splits)
      with IMU_init_state_ok [OF i assms(2)] show ?thesis by (auto simp: process_ok_def noise_ok_def Let_def)
    qed
  qed
qed

text \<open>
  C11. Whatever package it is given, with inertial messages or without, while the initial gravity is
  still collected or after, the process keeps the estimated attitude a rotation matrix (its transpose
  is its inverse and its determinant one), the covariance of the state symmetric with no negative
  quadratic form, and the poses along the scan rotations: each pass of the propagation multiplies by
  an exponential of \<open>so3_math.h\<close>, which is a rotation at any angle and on both sides of its
  threshold, and adds a noise that is itself a covariance.
\<close>

theorem filter_kept:
  assumes "Process2_state c g p st pcl = Some (g', p', st', pcl')" "process_ok p st"
  shows "process_ok p' st'"
  using Process2_state_kept [OF assms] by blast

section \<open>The skeleton\<close>

lemma running_means_count: "running_means ms a g N = (a', g', N') \<Longrightarrow> N' = N + int (length ms)"
  by (induction ms a g N rule: running_means.induct) auto

lemma sorted_last: "sorted (map f xs) \<Longrightarrow> x \<in> set xs \<Longrightarrow> f x \<le> f (last xs)" for f :: "'a \<Rightarrow> real"
  by (induction xs) (auto split: if_splits)

lemma sort_key_last: "xs \<noteq> [] \<Longrightarrow> f (last (sort_key f xs)) = Max (set (map f xs))" for f :: "'a \<Rightarrow> real"
proof -
  assume "xs \<noteq> []"
  then have "sort_key f xs \<noteq> []" by (metis length_0_conv length_sort)
  then have "last (sort_key f xs) \<in> set xs" using last_in_set by fastforce
  moreover have "\<forall>x \<in> set xs. f x \<le> f (last (sort_key f xs))"
    using sorted_last [of f "sort_key f xs"] by simp
  ultimately show ?thesis by (intro Max_eqI [symmetric]) auto
qed

lemma Forward_without_imu_refines:
  "map_option (\<lambda>(g', p', st', pcl'). (g', imu_process.truncate p')) (Forward_without_imu_state g p st) =
    map_option (\<lambda>g. (g, (imu_process.truncate p)\<lparr>b_first_frame := False\<rparr>)) (Forward_without_imu g)"
  using sort_key_last [of "lidar g" curvature]
  by (simp add: Forward_without_imu_state_def Forward_without_imu_def Let_def imu_process.defs)

lemma IMU_init_refines:
  assumes "IMU_init_state ms p st = Some (p', st')"
  shows "b_first_frame p' = b_first_frame (IMU_init ms (imu_process.truncate p))"
    "init_iter_num p' = init_iter_num (IMU_init ms (imu_process.truncate p))"
    "MAX_INI_COUNT p' = MAX_INI_COUNT (IMU_init ms (imu_process.truncate p))"
  using assms
  by (auto simp: IMU_init_state_def IMU_init_def Let_def imu_process.defs Reset_imu_def
      split: if_splits prod.splits dest: running_means_count)

lemma UndistortPcl_refines:
  "map_option (\<lambda>(g', p', st', pcl'). (g', imu_process.truncate p')) (UndistortPcl g p st) = do {
     m \<leftarrow> back_of (measures g);
     Some (if lio_vio_flg g \<in> {LIO, VIO} then g\<lparr>last_lio_update_time := prop_end m (lio_vio_flg g)\<rparr> else g,
       imu_process.truncate p)
   }"
proof (cases "measures g = []")
  case True
  then show ?thesis by (simp add: UndistortPcl_def propagate_def back_of_def)
next
  case False
  then have "propagate g p st \<noteq> None" by (auto simp: propagate_def back_of_def Let_def split: prod.splits)
  then obtain g1 p1 st1 where f: "propagate g p st = Some (g1, p1, st1)" by auto
  have "imu_process.truncate p1 = imu_process.truncate p"
    using propagate_fields(3) [OF f] by (auto simp: imu_process.defs)
  then show ?thesis using propagate_fields(2) [OF f] False
    by (simp add: UndistortPcl_def f back_of_def) (simp add: imu_process.defs)
qed

text \<open>
  C14. The estimating process refines the skeleton that the synchronisation of the packages is
  stated with: on the same package it fails in the same cases, and leaves the same clock and group
  and the same count, phase and first-frame mark. The filter's clock and the end of the initial phase
  thus do not depend on any value it estimates.
\<close>

theorem process_refines:
  "map_option (\<lambda>(g', p', st', pcl'). (g', imu_process.truncate p')) (Process2_state c g p st pcl) =
    Process2 c g (imu_process.truncate p)"
proof (cases "imu_en c")
  case False
  then show ?thesis by (simp add: Process2_state_def Process2_def Forward_without_imu_refines)
next
  case True
  have need: "imu_need_init (imu_process.truncate p) = imu_need_init p" by (simp add: imu_process.defs)
  show ?thesis
  proof (cases "imu_need_init p")
    case False
    with True need show ?thesis
      by (auto simp: Process2_state_def Process2_def UndistortPcl_refines prop_end_def Let_def back_of_def)
  next
    case init: True
    show ?thesis
    proof (cases "measures g = [] \<or> imu (last (measures g)) = []")
      case True
      with \<open>imu_en c\<close> init need show ?thesis by (auto simp: Process2_state_def Process2_def back_of_def)
    next
      case False
      then obtain p1 st1 where i: "IMU_init_state (imu (last (measures g))) p st = Some (p1, st1)"
        by (simp add: IMU_init_state_def Let_def split_beta)
      note refines = IMU_init_refines [OF i]
      let ?q = "IMU_init (imu (last (measures g))) (imu_process.truncate p)"
      have "imu_process.truncate (p1\<lparr>imu_need_init := b, last_imu := x\<rparr>) = ?q\<lparr>imu_need_init := b\<rparr>"
        "imu_process.truncate (p1\<lparr>last_imu := x, imu_need_init := b\<rparr>) = ?q\<lparr>imu_need_init := b\<rparr>" for b x
        by (rule imu_process.equality; simp add: refines imu_process.defs)+
      then show ?thesis using \<open>imu_en c\<close> init need False i refines
        by (simp add: Process2_state_def Process2_def back_of_def Let_def)
    qed
  qed
qed

end
