(* ===== verification/Undistort.thy ===== *)
theory Undistort
  imports Imu_Props
begin

text \<open>
  What becomes of the points of a scan, of the time of a package and of the first gravity: the way back
  of \<open>UndistortPcl\<close> over the points, the intervals of its propagation, and the means of \<open>IMU_init\<close>.
\<close>

section \<open>A point keeps its place in the world\<close>

text \<open>The place in the world of a point of the lidar seen from a body at \<open>R\<close> and \<open>t\<close>.\<close>

definition world :: "ImuProcess \<Rightarrow> M3D \<Rightarrow> V3D \<Rightarrow> V3D \<Rightarrow> V3D" where
  "world p R t x = mv R (mv (Lid_rot_to_IMU p) x + Lid_offset_to_IMU p) + t"

text \<open>The body some time after a pose, at the rates that are stored with the pose.\<close>

definition pose_rot_at :: "Pose6D \<Rightarrow> real \<Rightarrow> M3D" where
  "pose_rot_at q dt = pose_rot q * Exp_vel (pose_gyr q) dt"
definition pose_pos_at :: "Pose6D \<Rightarrow> real \<Rightarrow> V3D" where
  "pose_pos_at q dt = pose_pos q + dt *\<^sub>R pose_vel q + (1 / 2 * dt * dt) *\<^sub>R pose_acc q"

lemma compensate_world:
  assumes "rotation (rot_end st)" "rotation (Lid_rot_to_IMU p)"
  shows "world p (rot_end st) (pos_end st) (coordinates (compensate p st q pt)) =
    world p (pose_rot_at q (curvature pt / 1000 - offset_time q)) (pose_pos_at q (curvature pt / 1000 - offset_time q))
      (coordinates pt)"
proof -
  let ?dt = "curvature pt / 1000 - offset_time q" and ?L = "Lid_rot_to_IMU p" and ?o = "Lid_offset_to_IMU p"
  let ?w = "mv (pose_rot_at q ?dt) (mv ?L (coordinates pt) + ?o) + (pose_pos_at q ?dt - pos_end st)"
  have "coordinates (compensate p st q pt) = mv (trp ?L) (mv (trp (rot_end st)) ?w) - mv (trp ?L) ?o"
    by (simp add: compensate_def Let_def mv_mult pose_rot_at_def pose_pos_at_def)
  then have "mv ?L (coordinates (compensate p st q pt)) + ?o = mv (trp (rot_end st)) ?w"
    using rotation_back [OF assms(2)] by (simp add: mv_diff)
  then show ?thesis using rotation_back [OF assms(1)] by (simp add: world_def)
qed

section \<open>Which pose moves which point\<close>

lemma comp_points_spec:
  assumes "\<And>q pt. curvature (cmp q pt) = curvature pt" "i < length pcl"
    "\<And>j k. j \<le> k \<Longrightarrow> k \<le> i \<Longrightarrow> curvature (pcl ! j) \<le> curvature (pcl ! k)"
    "comp_points cmp q i pcl = (pcl', i')"
  shows "length pcl' = length pcl \<and> i' \<le> i \<and> (\<forall>k. curvature (pcl' ! k) = curvature (pcl ! k)) \<and>
    pcl' ! k = (if k \<le> i \<and> offset_time q < curvature (pcl ! k) / 1000 then cmp q (pcl ! k) else pcl ! k) \<and>
    (0 < k \<longrightarrow> (k \<le> i' \<longleftrightarrow> k \<le> i \<and> curvature (pcl ! k) / 1000 \<le> offset_time q))"
  using assms
proof (induction cmp q i pcl arbitrary: pcl' i' rule: comp_points.induct)
  case (1 cmp q i pcl)
  show ?case
  proof (cases "offset_time q < curvature (pcl ! i) / 1000")
    case False
    then have r: "pcl' = pcl" "i' = i" using "1.prems"(4) by (simp_all add: comp_points.simps)
    have "k \<le> i \<Longrightarrow> \<not> offset_time q < curvature (pcl ! k) / 1000"
      using "1.prems"(3) [of k i] False by simp
    with r show ?thesis by auto
  next
    case moved: True
    let ?pcl = "pcl[i := cmp q (pcl ! i)]"
    have upd: "curvature (?pcl ! k) = curvature (pcl ! k)" for k
      using "1.prems"(1,2) by (cases "k = i") simp_all
    show ?thesis
    proof (cases "i = 0")
      case True
      with moved "1.prems"(4) have "pcl' = ?pcl" "i' = 0" by (simp_all add: comp_points.simps Let_def)
      with True moved "1.prems"(2) upd show ?thesis by (cases "k = 0") auto
    next
      case False
      with moved "1.prems"(4) have rec: "comp_points cmp q (i - 1) ?pcl = (pcl', i')"
        by (subst (asm) comp_points.simps) (simp add: Let_def)
      have "length pcl' = length ?pcl \<and> i' \<le> i - 1 \<and> (\<forall>k. curvature (pcl' ! k) = curvature (?pcl ! k)) \<and>
          pcl' ! k = (if k \<le> i - 1 \<and> offset_time q < curvature (?pcl ! k) / 1000 then cmp q (?pcl ! k) else ?pcl ! k) \<and>
          (0 < k \<longrightarrow> (k \<le> i' \<longleftrightarrow> k \<le> i - 1 \<and> curvature (?pcl ! k) / 1000 \<le> offset_time q))"
        by (rule "1.IH" [OF moved refl False "1.prems"(1) _ _ rec])
          (use "1.prems"(2,3) upd in \<open>simp_all\<close>)
      then show ?thesis using False moved "1.prems"(2) upd by (cases "k = i") auto
    qed
  qed
qed

text \<open>
  Every point but the first is moved once, by the last of the poses before its time; the first point
  is moved again by every earlier pose before its time.
\<close>

lemma comp_poses_spec:
  assumes "\<And>q pt. curvature (cmp q pt) = curvature pt" "i < length pcl"
    "\<And>j k. j \<le> k \<Longrightarrow> k \<le> i \<Longrightarrow> curvature (pcl ! j) \<le> curvature (pcl ! k)"
  shows "length (comp_poses cmp qs i pcl) = length pcl \<and>
    (k \<le> i \<longrightarrow> comp_poses cmp qs i pcl ! k =
      (let qs = filter (\<lambda>q. offset_time q < curvature (pcl ! k) / 1000) qs
       in fold cmp (if k = 0 then qs else take 1 qs) (pcl ! k))) \<and>
    (i < k \<longrightarrow> comp_poses cmp qs i pcl ! k = pcl ! k)"
  using assms
proof (induction qs arbitrary: i pcl)
  case (Cons q qs)
  obtain pcl' i' where c: "comp_points cmp q i pcl = (pcl', i')" by (cases "comp_points cmp q i pcl")
  note spec = comp_points_spec [OF Cons.prems c]
  have rec: "length (comp_poses cmp qs i' pcl') = length pcl' \<and>
    (k \<le> i' \<longrightarrow> comp_poses cmp qs i' pcl' ! k =
      (let qs = filter (\<lambda>q. offset_time q < curvature (pcl' ! k) / 1000) qs
       in fold cmp (if k = 0 then qs else take 1 qs) (pcl' ! k))) \<and>
    (i' < k \<longrightarrow> comp_poses cmp qs i' pcl' ! k = pcl' ! k)"
    by (rule Cons.IH) (use Cons.prems spec [of 0] in auto)
  show ?case
  proof (cases "k = 0")
    case True
    with rec spec [of 0] c show ?thesis by (auto simp: Let_def Cons.prems(1))
  next
    case False
    with rec spec [of k] c show ?thesis by (auto simp: Let_def not_less Cons.prems(1))
  qed
qed simp

section \<open>The scan at its end\<close>

lemma compensate_curvature: "curvature (compensate p st q pt) = curvature pt"
  by (simp add: compensate_def Let_def)

text \<open>The poses before a time, the last first, without the pose of the scan's end.\<close>

definition poses_before :: "real \<Rightarrow> Pose6D list \<Rightarrow> Pose6D list" where
  "poses_before t qs = filter (\<lambda>q. offset_time q < t) (rev (butlast qs))"

text \<open>
  C6. After a lidar package whose points are in the order of their times, every point of the scan but
  the first denotes, seen from the estimated pose of the scan's end, the place in the world that the
  raw point denotes seen from the body at the point's own time, where that body is the last recorded
  pose before the time carried on at the rates stored with it; a point before every pose stays as it
  is. The first point is the exception: the loop leaves when it has moved it but does not go past it,
  so that each earlier pose before its time moves it again. No point is lost, and the poses are
  dropped.
\<close>

theorem points_carried:
  assumes "propagate g p st = Some (g1, p1, st1)" "process_ok p st" "rotation (Lid_rot_to_IMU p)"
    and "lio_vio_flg g = LIO" "pcl_proc_cur g \<noteq> []" "sorted (map curvature (pcl_proc_cur g))"
  shows "\<exists>g' p' pcl. UndistortPcl g p st = Some (g', p', st1, pcl) \<and> IMUpose p' = [] \<and>
    length pcl = length (pcl_proc_cur g) \<and>
    pcl ! 0 = fold (compensate p1 st1) (poses_before (curvature (pcl_proc_cur g ! 0) / 1000) (IMUpose p1))
      (pcl_proc_cur g ! 0) \<and>
    (\<forall>k. 0 < k \<and> k < length pcl \<longrightarrow>
      (let raw = pcl_proc_cur g ! k; t = curvature raw / 1000
       in case poses_before t (IMUpose p1) of
         [] \<Rightarrow> pcl ! k = raw
       | q # _ \<Rightarrow> world p (rot_end st1) (pos_end st1) (coordinates (pcl ! k)) =
           world p (pose_rot_at q (t - offset_time q)) (pose_pos_at q (t - offset_time q)) (coordinates raw)))"
proof -
  let ?raw = "pcl_proc_cur g" and ?qs = "rev (butlast (IMUpose p1))"
  define pcl where "pcl = comp_poses (compensate p1 st1) ?qs (length ?raw - 1) ?raw"
  have p1: "pcl_wait_proc p1 = ?raw" "Lid_rot_to_IMU p1 = Lid_rot_to_IMU p" "Lid_offset_to_IMU p1 = Lid_offset_to_IMU p"
    "lio_vio_flg g1 = LIO"
    using propagate_fields [OF assms(1)] assms(4) by auto
  have sorted: "curvature (?raw ! j) \<le> curvature (?raw ! k)" if "j \<le> k" "k \<le> length ?raw - 1" for j k
  proof -
    have "k < length (map curvature ?raw)" using that(2) assms(5) by (cases ?raw) auto
    then have "map curvature ?raw ! j \<le> map curvature ?raw ! k" using sorted_nth_mono [OF assms(6) that(1)] by blast
    then show ?thesis using that \<open>k < _\<close> by simp
  qed
  note spec = comp_poses_spec [of "compensate p1 st1" "length ?raw - 1" ?raw ?qs, OF compensate_curvature _ sorted]
  have rot: "rotation (rot_end st1)"
    using propagate_ok [OF assms(1)] assms(2) by (simp add: process_ok_def filter_ok_def)
  have len: "length pcl = length ?raw" using spec assms(5) by (simp add: pcl_def)
  have at: "pcl ! k = fold (compensate p1 st1) (if k = 0 then poses_before (curvature (?raw ! k) / 1000) (IMUpose p1)
      else take 1 (poses_before (curvature (?raw ! k) / 1000) (IMUpose p1))) (?raw ! k)" if "k < length ?raw" for k
    using spec [of k] that assms(5) by (simp add: pcl_def poses_before_def Let_def)
  have "let raw = ?raw ! k; t = curvature raw / 1000
       in case poses_before t (IMUpose p1) of
         [] \<Rightarrow> pcl ! k = raw
       | q # _ \<Rightarrow> world p (rot_end st1) (pos_end st1) (coordinates (pcl ! k)) =
           world p (pose_rot_at q (t - offset_time q)) (pose_pos_at q (t - offset_time q)) (coordinates raw)"
    if "0 < k" "k < length pcl" for k
    using at [of k] that len compensate_world [OF rot, of p1] assms(3) p1
    by (auto simp: Let_def world_def split: list.split)
  moreover have "UndistortPcl g p st = Some (g1, p1\<lparr>pcl_wait_proc := [], IMUpose := []\<rparr>, st1, pcl)"
    by (simp add: UndistortPcl_def assms(1) pcl_def p1 assms(5))
  moreover have "IMUpose (p1\<lparr>pcl_wait_proc := [], IMUpose := []\<rparr>) = []" by simp
  moreover have "pcl ! 0 = fold (compensate p1 st1) (poses_before (curvature (?raw ! 0) / 1000) (IMUpose p1)) (?raw ! 0)"
    using at [of 0] assms(5) by simp
  ultimately show ?thesis using len by blast
qed

section \<open>The intervals of a package\<close>

lemma prop_steps_inner:
  assumes "sorted (map imu_stamp (h # ms))" "beg \<le> imu_stamp h" "ms \<noteq> []"
  shows "(\<Sum>p \<leftarrow> prop_steps beg fin (h # ms). ps_dt p) = fin - imu_stamp h"
  using assms
proof (induction ms arbitrary: h)
  case (Cons t ms)
  have t: "\<not> imu_stamp t < beg" "beg \<le> imu_stamp t" "\<not> imu_stamp h < beg" using Cons.prems by auto
  show ?case
  proof (cases "ms = []")
    case False
    moreover have "sorted (map imu_stamp (t # ms))" using Cons.prems(1) by simp
    ultimately have "(\<Sum>p \<leftarrow> prop_steps beg fin (t # ms). ps_dt p) = fin - imu_stamp t"
      using Cons.IH t(2) by blast
    with t False show ?thesis by simp
  qed (use t in simp)
qed simp

lemma prop_steps_cover:
  assumes "sorted (map imu_stamp (m0 # ms))" "imu_stamp m0 < beg" "\<forall>m \<in> set ms. beg \<le> imu_stamp m"
  shows "(\<Sum>p \<leftarrow> prop_steps beg fin (m0 # ms). ps_dt p) =
    (case ms of [] \<Rightarrow> 0 | [m] \<Rightarrow> imu_stamp m - beg | _ \<Rightarrow> fin - beg)"
proof (cases ms)
  case (Cons m ms')
  then have m: "\<not> imu_stamp m < beg" "beg \<le> imu_stamp m" using assms(3) by auto
  show ?thesis
  proof (cases "ms' = []")
    case True
    with Cons m assms(2) show ?thesis by simp
  next
    case False
    moreover have "sorted (map imu_stamp (m # ms'))" using assms(1) Cons by simp
    ultimately have "(\<Sum>p \<leftarrow> prop_steps beg fin (m # ms'). ps_dt p) = fin - imu_stamp m"
      using prop_steps_inner m(2) by blast
    with Cons m assms(2) False show ?thesis by (cases ms') simp_all
  qed
qed simp

text \<open>Without any acceleration the position moves on with the velocity.\<close>

lemma prop_steps_messages: "s \<in> set (prop_steps beg fin ms) \<Longrightarrow> ps_head s \<in> set ms \<and> ps_tail s \<in> set ms"
  by (induction beg fin ms rule: prop_steps.induct) (auto split: if_splits)

lemma free_motion:
  assumes "\<forall>s \<in> set steps. imu_acc (ps_head s) = 0 \<and> imu_acc (ps_tail s) = 0" "gravity st = 0" "bias_a st = 0"
    and "fold imu_step steps (p, st, l) = (p', st', l')"
  shows "vel_imu l' = vel_imu l \<and> pos_imu l' = pos_imu l + (\<Sum>s \<leftarrow> steps. ps_dt s) *\<^sub>R vel_imu l"
  using assms
proof (induction steps arbitrary: p st l)
  case (Cons s ss)
  obtain p1 st1 l1 where one: "imu_step s (p, st, l) = (p1, st1, l1)" by (metis prod_cases3)
  with Cons.prems(1-3) have l1: "vel_imu l1 = vel_imu l" "pos_imu l1 = pos_imu l + ps_dt s *\<^sub>R vel_imu l"
    "gravity st1 = 0" "bias_a st1 = 0" by (auto simp: Let_def)
  have "fold imu_step ss (p1, st1, l1) = (p', st', l')" using Cons.prems(4) one by (simp del: imu_step.simps)
  from Cons.IH [OF _ l1(3,4) this] Cons.prems(1) l1(1,2) show ?case by (simp add: scaleR_add_left add.assoc)
qed simp

text \<open>
  C9. After a package the filter's clock, with the time its next propagation starts from, stands at the end
  of the package. The messages of the package lie after the end of the last propagation, the last message of the
  package before lies before that end. With two messages or more the intervals the state is integrated
  over add up to the time from the last end to the new one, whatever the stamps. With one message they
  add up to the time up to that message only, with none to nothing, and no later propagation goes over
  the rest: without an acceleration the position moves on with the velocity for the time that is
  covered and no longer, and without a message the pose and the velocity stay as they were.
\<close>

theorem intervals_cover:
  assumes "propagate g p st = Some (g', p', st')" "lio_vio_flg g \<in> {LIO, VIO}" "ms = imu (last (measures g))"
    and "sorted (map imu_stamp (last_imu p # ms))" "imu_stamp (last_imu p) < last_prop_end_time p"
    and "\<forall>m \<in> set ms. last_prop_end_time p \<le> imu_stamp m"
  shows "let beg = last_prop_end_time p; fin = prop_end (last (measures g)) (lio_vio_flg g);
      covered = (\<Sum>s \<leftarrow> prop_steps beg fin (last_imu p # ms). ps_dt s)
    in last_prop_end_time p' = fin \<and> last_lio_update_time g' = fin \<and>
      covered = (case ms of [] \<Rightarrow> 0 | [m] \<Rightarrow> imu_stamp m - beg | _ \<Rightarrow> fin - beg) \<and>
      (gravity st = 0 \<and> bias_a st = 0 \<and> (\<forall>m \<in> set (last_imu p # ms). imu_acc m = 0) \<longrightarrow>
        vel_end st' = vel_end st \<and> pos_end st' = pos_end st + covered *\<^sub>R vel_end st) \<and>
      (ms = [] \<longrightarrow> rot_end st' = rot_end st \<and> vel_end st' = vel_end st \<and> pos_end st' = pos_end st)"
proof -
  define fin where "fin = prop_end (last (measures g)) (lio_vio_flg g)"
  define steps where "steps = prop_steps (last_prop_end_time p) fin (last_imu p # ms)"
  define p0 where "p0 = (if lio_vio_flg g = LIO
      then p\<lparr>pcl_wait_proc := pcl_proc_cur g,
        IMUpose := IMUpose p @ [set_pose6d 0 (acc_s_last p) (angvel_last p) (vel_end st) (pos_end st) (rot_end st)]\<rparr>
      else p)\<lparr>imu_time_init := True\<rparr>"
  define l where "l = \<lparr>R_imu = rot_end st, vel_imu = vel_end st, pos_imu = pos_end st\<rparr>"
  have ne: "measures g \<noteq> []" by (rule propagate_fields(1) [OF assms(1)])
  obtain p2 st2 l2 where f: "fold imu_step steps (p0, st, l) = (p2, st2, l2)" by (metis prod_cases3)
  have r: "last_prop_end_time p' = fin" "last_lio_update_time g' = fin" "rot_end st' = R_imu l2" "vel_end st' = vel_imu l2"
    "pos_end st' = pos_imu l2"
    using assms(1,2) f ne unfolding propagate_def steps_def p0_def l_def fin_def assms(3)
    by (auto simp: back_of_def Let_def split: if_splits)
  have "vel_end st' = vel_end st \<and> pos_end st' = pos_end st + (\<Sum>s \<leftarrow> steps. ps_dt s) *\<^sub>R vel_end st"
    if "gravity st = 0" "bias_a st = 0" "\<forall>m \<in> set (last_imu p # ms). imu_acc m = 0"
  proof -
    have "\<forall>s \<in> set steps. imu_acc (ps_head s) = 0 \<and> imu_acc (ps_tail s) = 0"
      using that(3) prop_steps_messages unfolding steps_def by blast
    from free_motion [OF this that(1,2) f] show ?thesis by (simp add: r l_def)
  qed
  moreover have "rot_end st' = rot_end st \<and> vel_end st' = vel_end st \<and> pos_end st' = pos_end st" if "ms = []"
    using f that by (auto simp: steps_def r l_def)
  ultimately show ?thesis
    using prop_steps_cover [OF assms(4-6), of fin, folded steps_def] r(1,2)
    unfolding Let_def fin_def [symmetric] steps_def [symmetric] by blast
qed

section \<open>Rates that lag\<close>

lemma compensate_end:
  assumes "rotation (rot_end st)" "rotation (Lid_rot_to_IMU p)"
    and "curvature pt / 1000 = offset_time head + dt"
    and "rot_end st = pose_rot head * Exp_vel (pose_gyr head) dt"
    and "pos_end st = pose_pos head + dt *\<^sub>R pose_vel head + (1 / 2 * dt * dt) *\<^sub>R acc_imu"
  shows "coordinates (compensate p st head pt) = coordinates pt +
    (1 / 2 * dt * dt) *\<^sub>R mv (trp (Lid_rot_to_IMU p) * trp (rot_end st)) (pose_acc head - acc_imu)"
proof -
  let ?L = "Lid_rot_to_IMU p" and ?o = "Lid_offset_to_IMU p" and ?c = "1 / 2 * dt * dt"
  have dt: "curvature pt / 1000 - offset_time head = dt" using assms(3) by linarith
  have "coordinates (compensate p st head pt) = mv (trp ?L) (mv (trp (rot_end st))
      (mv (rot_end st) (mv ?L (coordinates pt) + ?o) + (?c *\<^sub>R pose_acc head - ?c *\<^sub>R acc_imu))) - mv (trp ?L) ?o"
    unfolding compensate_def Let_def dt assms(4) [symmetric] by (simp add: mv_mult assms(5))
  also have "mv (trp (rot_end st)) (mv (rot_end st) (mv ?L (coordinates pt) + ?o) + (?c *\<^sub>R pose_acc head - ?c *\<^sub>R acc_imu)) =
      mv ?L (coordinates pt) + ?o + ?c *\<^sub>R mv (trp (rot_end st)) (pose_acc head - acc_imu)"
    using rotation_back [OF assms(1)] by (simp add: mv_add mv_diff mv_scaleR scaleR_diff_right)
  finally show ?thesis using rotation_back [OF assms(2)] by (simp add: mv_add mv_scaleR mv_mult)
qed

text \<open>
  C16. A point taken at the very end of a scan needs no move. The scan's end is the tail pose of the
  last interval, and the attitude there is the head's turned at the tail's rate; but the way back
  extends the head pose with the rates stored in the head, those of the interval before. With a
  constant rate of turn the point at the end is therefore displaced by half the change of the
  acceleration times the square of the interval, in the frame of the lidar.
\<close>

theorem rates_lag:
  assumes "imu_step s (p, st, l) = (p', st', l')" "rotation (R_imu l)" "rotation (Lid_rot_to_IMU p)"
    and "head = set_pose6d t a (angvel_last p') (vel_imu l) (pos_imu l) (R_imu l)"
    and "curvature pt / 1000 = t + ps_dt s"
  shows "coordinates (compensate p' (st'\<lparr>vel_end := vel_imu l', rot_end := R_imu l', pos_end := pos_imu l'\<rparr>) head pt) =
    coordinates pt + (1 / 2 * ps_dt s * ps_dt s) *\<^sub>R
      mv (trp (Lid_rot_to_IMU p) * trp (R_imu l')) (a - acc_s_last p')"
proof -
  have l': "R_imu l' = R_imu l * Exp_vel (angvel_last p') (ps_dt s)" "Lid_rot_to_IMU p' = Lid_rot_to_IMU p"
    "pos_imu l' = pos_imu l + ps_dt s *\<^sub>R vel_imu l + (1 / 2 * ps_dt s * ps_dt s) *\<^sub>R acc_s_last p'"
    using assms(1) by (auto simp: Let_def)
  then have "rotation (R_imu l')" using assms(2) by (simp add: rotation_mult Exp_vel_rotation)
  then show ?thesis
    using compensate_end [of "st'\<lparr>vel_end := vel_imu l', rot_end := R_imu l', pos_end := pos_imu l'\<rparr>" p' pt head
        "ps_dt s" "acc_s_last p'"] assms(3-5) l'
    by (simp add: set_pose6d_def)
qed

section \<open>The first gravity\<close>

lemma running_mean:
  assumes "running_means ms a g N = (a', g', N')" "1 \<le> N"
  shows "real_of_int (N' - 1) *\<^sub>R a' = real_of_int (N - 1) *\<^sub>R a + sum_list (map imu_acc ms)"
  using assms
proof (induction ms a g N rule: running_means.induct)
  case (2 m ms a g N)
  have "real_of_int (N' - 1) *\<^sub>R a' = real_of_int N *\<^sub>R (a + (imu_acc m - a) /\<^sub>R real_of_int N) + sum_list (map imu_acc ms)"
    using 2 by simp
  also have "real_of_int N *\<^sub>R (a + (imu_acc m - a) /\<^sub>R real_of_int N) = real_of_int N *\<^sub>R a + (imu_acc m - a)"
    using 2(3) by (simp add: scaleR_add_right)
  also have "\<dots> + sum_list (map imu_acc ms) = real_of_int (N - 1) *\<^sub>R a + sum_list (map imu_acc (m # ms))"
    by (simp add: scaleR_diff_left algebra_simps)
  finally show ?case .
qed simp

text \<open>The packages of the initial phase, one after the other.\<close>

primrec init_packages :: "imu_msg list list \<Rightarrow> ImuProcess \<Rightarrow> StatesGroup \<Rightarrow> (ImuProcess \<times> StatesGroup) option" where
  "init_packages [] p st = Some (p, st)"
| "init_packages (ms # mss) p st = do {
     (p, st) \<leftarrow> IMU_init_state ms p st;
     init_packages mss p st
   }"

lemma IMU_init_mean:
  assumes "IMU_init_state ms p st = Some (p', st')" "b_first_frame p \<or> 1 \<le> init_iter_num p"
  shows "real_of_int (init_iter_num p' - 1) *\<^sub>R mean_acc p' =
      (if b_first_frame p then 0 else real_of_int (init_iter_num p - 1) *\<^sub>R mean_acc p) + sum_list (map imu_acc ms)"
    "init_iter_num p' = (if b_first_frame p then 1 else init_iter_num p) + int (length ms)"
    "\<not> b_first_frame p'" "gravity st' = G_m_s2 *\<^sub>R ((- mean_acc p') /\<^sub>R norm3 (mean_acc p'))"
  using assms running_mean
  by (auto simp: IMU_init_state_def Let_def Reset_imu_def split: if_splits prod.splits dest: running_means_count)

lemma init_packages_mean:
  assumes "[] \<notin> set mss" "\<not> b_first_frame p" "1 \<le> init_iter_num p"
    "gravity st = G_m_s2 *\<^sub>R ((- mean_acc p) /\<^sub>R norm3 (mean_acc p))"
  shows "\<exists>p' st'. init_packages mss p st = Some (p', st') \<and>
    real_of_int (init_iter_num p' - 1) *\<^sub>R mean_acc p' =
      real_of_int (init_iter_num p - 1) *\<^sub>R mean_acc p + sum_list (map imu_acc (concat mss)) \<and>
    init_iter_num p' = init_iter_num p + int (length (concat mss)) \<and>
    gravity st' = G_m_s2 *\<^sub>R ((- mean_acc p') /\<^sub>R norm3 (mean_acc p'))"
  using assms
proof (induction mss arbitrary: p st)
  case (Cons ms mss)
  then obtain p1 st1 where i: "IMU_init_state ms p st = Some (p1, st1)"
    by (auto simp: IMU_init_state_def Let_def split_beta)
  note one = IMU_init_mean [OF i]
  have "\<exists>p' st'. init_packages mss p1 st1 = Some (p', st') \<and>
    real_of_int (init_iter_num p' - 1) *\<^sub>R mean_acc p' =
      real_of_int (init_iter_num p1 - 1) *\<^sub>R mean_acc p1 + sum_list (map imu_acc (concat mss)) \<and>
    init_iter_num p' = init_iter_num p1 + int (length (concat mss)) \<and>
    gravity st' = G_m_s2 *\<^sub>R ((- mean_acc p') /\<^sub>R norm3 (mean_acc p'))"
    by (rule Cons.IH) (use Cons.prems one in auto)
  then show ?case using i one Cons.prems by (auto simp: add.assoc)
qed auto

text \<open>
  C10. Over the packages of the initial phase, however the messages are spread over them, the mean
  acceleration is the arithmetic mean of all of them, each counted once; the count is their number and
  one. The gravity of the state points against the mean and has the length 9.81 of the source,
  unless the mean is zero.
\<close>

theorem gravity_mean:
  assumes "b_first_frame p" "mss \<noteq> []" "[] \<notin> set mss"
  shows "\<exists>p' st'. init_packages mss p st = Some (p', st') \<and>
    mean_acc p' = sum_list (map imu_acc (concat mss)) /\<^sub>R real (length (concat mss)) \<and>
    init_iter_num p' = 1 + int (length (concat mss)) \<and>
    gravity st' = (- G_m_s2 / norm3 (mean_acc p')) *\<^sub>R mean_acc p' \<and>
    (mean_acc p' \<noteq> 0 \<longrightarrow> norm3 (gravity st') = 981 / 100)"
proof (cases mss)
  case (Cons ms mss')
  then obtain p1 st1 where i: "IMU_init_state ms p st = Some (p1, st1)"
    using assms(3) by (auto simp: IMU_init_state_def Let_def split_beta)
  note one = IMU_init_mean [OF i]
  obtain p' st' where r: "init_packages mss' p1 st1 = Some (p', st')"
    "real_of_int (init_iter_num p' - 1) *\<^sub>R mean_acc p' =
      real_of_int (init_iter_num p1 - 1) *\<^sub>R mean_acc p1 + sum_list (map imu_acc (concat mss'))"
    "init_iter_num p' = init_iter_num p1 + int (length (concat mss'))"
    "gravity st' = G_m_s2 *\<^sub>R ((- mean_acc p') /\<^sub>R norm3 (mean_acc p'))"
    using init_packages_mean [of mss' p1 st1] assms Cons one by auto
  let ?n = "real (length (concat mss))" and ?s = "sum_list (map imu_acc (concat mss))"
  have num: "init_iter_num p' = 1 + int (length (concat mss))" using r(3) one assms(1) Cons by simp
  then have "?n *\<^sub>R mean_acc p' = ?s" using r(2) one assms(1) Cons by simp
  moreover have "?n \<noteq> 0" using assms(3) Cons by (cases ms) auto
  ultimately have mean: "mean_acc p' = ?s /\<^sub>R ?n" by (metis scaleR_one scaleR_scaleR left_inverse)
  have "norm3 v \<noteq> 0" if "v \<noteq> 0" for v
    using that by (cases v) (auto simp: norm3_def dot_def zero_V3D_def add_nonneg_eq_0_iff)
  moreover have g: "gravity st' = (- G_m_s2 / norm3 (mean_acc p')) *\<^sub>R mean_acc p'"
    by (simp add: r(4) divide_inverse)
  ultimately have "mean_acc p' \<noteq> 0 \<longrightarrow> norm3 (gravity st') = 981 / 100"
    unfolding g norm3_scaleR by (simp add: G_m_s2_def abs_divide)
  then show ?thesis using Cons i r(1) num mean g by simp
qed (use assms in simp)

section \<open>States and their differences\<close>

lemma block_at_vec_entry: "V3D (vec_entry v 0) (vec_entry v 1) (vec_entry v 2) = v"
  by (cases v) (simp add: vec_entry_def)

lemma vec_entry_block: "i < 3 \<Longrightarrow> vec_entry (block_at v k) i = v (k + i)"
  by (auto simp: vec_entry_def block_at_def less_Suc_eq numeral_eq_Suc)

text \<open>
  C8. Adding an increment to a state and subtracting the state gives the increment back, when the
  state's attitude is a rotation and the increment turns by less than half a turn: exactly in every
  entry but the three of the attitude, exactly in those too from an angle of 0.0011 on, and with an
  error below 0.00001 for the smaller angles, which \<open>Exp\<close> takes for none below its threshold and \<open>Log\<close>
  for their sine below its own.
\<close>

theorem state_roundtrip:
  assumes "rotation (rot_end s)" "norm3 (block_at d 0) < pi"
  shows "(\<forall>i. 3 \<le> i \<and> i < DIM_STATE \<longrightarrow> state_minus (state_plus s d) s i = d i) \<and>
    (11 / 10000 \<le> norm3 (block_at d 0) \<longrightarrow> (\<forall>i<3. state_minus (state_plus s d) s i = d i)) \<and>
    norm3 (block_at (state_minus (state_plus s d) s) 0 - block_at d 0) \<le> 1 / 100000"
proof -
  let ?w = "block_at d 0" and ?r = "state_minus (state_plus s d) s"
  have "trp (rot_end s) * (rot_end s * Exp_xyz (d 0) (d 1) (d 2)) = Exp_xyz (vx ?w) (vy ?w) (vz ?w)"
    using assms(1) by (simp add: mult.assoc [symmetric] rotation_def block_at_def numeral_2_eq_2)
  then have log: "Log_rot (trp (rot_end s) * rot_end (state_plus s d)) = Log_rot (Exp_xyz (vx ?w) (vy ?w) (vz ?w))"
    by (simp add: state_plus_def)
  then have rot: "?r i = vec_entry (Log_rot (Exp_xyz (vx ?w) (vy ?w) (vz ?w))) i" if "i < 3" for i
    using that by (simp add: state_minus_def)
  have "?r i = d i" if "3 \<le> i" "i < DIM_STATE" for i
    using that by (auto simp: state_minus_def state_plus_def DIM_STATE_def vec_entry_block)
  moreover have "block_at ?r 0 = Log_rot (Exp_xyz (vx ?w) (vy ?w) (vz ?w))"
  proof -
    have "block_at ?r 0 = V3D (?r 0) (?r 1) (?r 2)" by (simp add: block_at_def numeral_2_eq_2)
    also have "\<dots> = Log_rot (Exp_xyz (vx ?w) (vy ?w) (vz ?w))"
      by (subst (1 2 3) rot) (rule block_at_vec_entry | simp)+
    finally show ?thesis .
  qed
  moreover have "vec_entry ?w i = d i" if "i < 3" for i using vec_entry_block [OF that, of d 0] by simp
  ultimately show ?thesis using Log_Exp_vector [OF assms(2)] rot by auto
qed

section \<open>At concrete inputs\<close>

definition ex_msg :: "real \<Rightarrow> imu_msg" where
  "ex_msg t = \<lparr>imu_stamp = t, imu_content = \<lparr>linear_acceleration = V3D 0 0 1, angular_velocity = V3D 0 0 1\<rparr>\<rparr>"

definition ex_scan :: "(V3D, imu_data, unit) LidarMeasureGroup" where
  "ex_scan = new_LidarMeasureGroup\<lparr>lio_vio_flg := LIO,
    pcl_proc_cur := [\<lparr>curvature = 10, coordinates = V3D 1 0 0\<rparr>, \<lparr>curvature = 60, coordinates = V3D 0 1 0\<rparr>],
    measures := [new_MeasureGroup\<lparr>imu := [ex_msg (1 / 50), ex_msg (1 / 20)], lio_time := 1 / 10\<rparr>]\<rparr>"

definition ex_process :: ImuProcess where "ex_process = (new_ImuProcess 0 0 0 False)\<lparr>imu_need_init := False\<rparr>"

lemma ex_process_ok: "process_ok ex_process new_StatesGroup"
  by (simp add: process_ok_def new_StatesGroup_ok ex_process_def new_ImuProcess_def noise_ok_def nonneg3_def)

lemma ex_propagate: "\<exists>g p st. propagate ex_scan ex_process new_StatesGroup = Some (g, p, st)"
  by (simp add: propagate_def ex_scan_def back_of_def Let_def split_beta)

theorem filter_kept_witness:
  "\<exists>g p st pcl. Process2_state \<lparr>lidar_en = True, img_en = False, imu_en = True, exposure_time_init = 0,
      img_time_offset = 0, imu_time_offset = 0, lidar_time_offset = 0, ros_driver_fix_en = False,
      hilti_en = False, imu_prop_enable = False\<rparr> ex_scan ex_process new_StatesGroup [] = Some (g, p, st, pcl) \<and>
    process_ok p st"
proof -
  obtain g p st pcl where "UndistortPcl ex_scan ex_process new_StatesGroup = Some (g, p, st, pcl)"
    using ex_propagate by (fastforce simp: UndistortPcl_def)
  then have r: "Process2_state \<lparr>lidar_en = True, img_en = False, imu_en = True, exposure_time_init = 0,
      img_time_offset = 0, imu_time_offset = 0, lidar_time_offset = 0, ros_driver_fix_en = False,
      hilti_en = False, imu_prop_enable = False\<rparr> ex_scan ex_process new_StatesGroup [] = Some (g, p, st, pcl)"
    by (simp add: Process2_state_def ex_scan_def back_of_def ex_process_def)
  with filter_kept [OF r ex_process_ok] show ?thesis by blast
qed

theorem points_carried_witness:
  "\<exists>g1 p1 st1 g' p' pcl. propagate ex_scan ex_process new_StatesGroup = Some (g1, p1, st1) \<and>
    UndistortPcl ex_scan ex_process new_StatesGroup = Some (g', p', st1, pcl) \<and> length pcl = 2"
proof -
  obtain g1 p1 st1 where f: "propagate ex_scan ex_process new_StatesGroup = Some (g1, p1, st1)"
    using ex_propagate by blast
  have "\<exists>g' p' pcl. UndistortPcl ex_scan ex_process new_StatesGroup = Some (g', p', st1, pcl) \<and>
      length pcl = length (pcl_proc_cur ex_scan)"
    using points_carried [OF f ex_process_ok] by (fastforce simp: ex_process_def new_ImuProcess_def ex_scan_def)
  with f show ?thesis by (auto simp: ex_scan_def)
qed

text \<open>A package of an image with one message, and a filter in free motion.\<close>

theorem intervals_cover_witness:
  "let g = (new_LidarMeasureGroup :: (V3D, imu_data, unit) LidarMeasureGroup)\<lparr>lio_vio_flg := VIO,
        measures := [new_MeasureGroup\<lparr>vio_time := 4, imu := [new_Imu\<lparr>imu_stamp := 2\<rparr>]\<rparr>]\<rparr>;
      p = ex_process\<lparr>last_imu := new_Imu, last_prop_end_time := 1\<rparr>;
      st = new_StatesGroup\<lparr>vel_end := V3D 5 0 0, gravity := 0\<rparr>
   in \<exists>g' p' st'. propagate g p st = Some (g', p', st') \<and> last_prop_end_time p' = 4 \<and> pos_end st' = V3D 5 0 0"
proof -
  let ?m = "new_Imu\<lparr>imu_stamp := 2\<rparr>"
  let ?g = "(new_LidarMeasureGroup :: (V3D, imu_data, unit) LidarMeasureGroup)\<lparr>lio_vio_flg := VIO, measures := [new_MeasureGroup\<lparr>vio_time := 4, imu := [?m]\<rparr>]\<rparr>"
    and ?p = "ex_process\<lparr>last_imu := new_Imu, last_prop_end_time := 1\<rparr>"
    and ?st = "new_StatesGroup\<lparr>vel_end := V3D 5 0 0, gravity := 0\<rparr>"
  obtain g' p' st' where r: "propagate ?g ?p ?st = Some (g', p', st')"
    by (cases "propagate ?g ?p ?st") (auto simp: propagate_def back_of_def split_beta Let_def)
  with intervals_cover [OF r, of "[?m]"] show ?thesis
    by (simp add: Let_def prop_end_def new_StatesGroup_def new_Imu_def V3D_ops)
qed

text \<open>A lidar at rest since the start of the interval, whose pose has kept an acceleration of one: half a metre.\<close>

theorem rates_lag_witness:
  "let s = \<lparr>ps_head = new_Imu, ps_tail = new_Imu, ps_dt = 1, ps_offs = 1\<rparr>;
       l = \<lparr>R_imu = 1, vel_imu = 0, pos_imu = 0\<rparr>;
       (p, st, l') = imu_step s (ex_process, new_StatesGroup, l);
       pt = \<lparr>curvature = 1000, coordinates = V3D 5 0 0\<rparr>
   in coordinates (compensate p (st\<lparr>vel_end := vel_imu l', rot_end := R_imu l', pos_end := pos_imu l'\<rparr>)
        (set_pose6d 0 (V3D 1 0 0) (angvel_last p) 0 0 1) pt) = V3D (5 + 1 / 2) 0 0"
proof -
  let ?s = "\<lparr>ps_head = new_Imu, ps_tail = new_Imu, ps_dt = 1, ps_offs = 1\<rparr>"
  let ?l = "\<lparr>R_imu = 1, vel_imu = 0, pos_imu = 0\<rparr>"
  obtain p st l' where r: "imu_step ?s (ex_process, new_StatesGroup, ?l) = (p, st, l')" by (metis prod_cases3)
  have "Exp_vel 0 1 = 1" by (simp add: Exp_vel_def)
  with r have "R_imu l' = 1" "acc_s_last p = 0"
    by (auto simp: Let_def new_Imu_def new_StatesGroup_def)
  then show ?thesis
    using rates_lag [OF r, of "set_pose6d 0 (V3D 1 0 0) (angvel_last p) 0 0 1" 0 "V3D 1 0 0"
        "\<lparr>curvature = 1000, coordinates = V3D 5 0 0\<rparr>"]
    unfolding Let_def r split
    by (simp add: ex_process_def new_ImuProcess_def V3D_ops)
qed

theorem gravity_mean_witness:
  "\<exists>p st. init_packages [[ex_msg 1], [ex_msg 2, ex_msg 3]] (new_ImuProcess 0 0 0 False) new_StatesGroup = Some (p, st) \<and>
    init_iter_num p = 4 \<and> mean_acc p = V3D 0 0 1"
proof -
  have "sum_list (map imu_acc (concat [[ex_msg 1], [ex_msg 2, ex_msg 3]])) /\<^sub>R
      real (length (concat [[ex_msg 1], [ex_msg 2, ex_msg 3]])) = V3D 0 0 1"
    by (simp add: ex_msg_def V3D_ops)
  with gravity_mean [of "new_ImuProcess 0 0 0 False" "[[ex_msg 1], [ex_msg 2, ex_msg 3]]" new_StatesGroup]
  show ?thesis by (auto simp: new_ImuProcess_def)
qed

theorem state_roundtrip_witness:
  "map (state_minus (state_plus new_StatesGroup (\<lambda>_. 1 / 2)) new_StatesGroup) [0..<19] = replicate 19 (1 / 2)"
proof -
  have n: "block_at (\<lambda>_. 1 / 2) 0 = V3D (1 / 2) (1 / 2) (1 / 2)" by (simp add: block_at_def)
  have "norm3 (block_at (\<lambda>_. 1 / 2) 0) = sqrt (3 / 4)" by (simp add: n norm3_def dot_def)
  moreover have "sqrt (3 / 4) < 2" by (rule real_less_lsqrt) (simp_all add: power2_eq_square)
  moreover have "1 / 2 < sqrt (3 / 4 :: real)" by (rule real_less_rsqrt) (simp add: power2_eq_square)
  ultimately have w: "norm3 (block_at (\<lambda>_. 1 / 2) 0) < pi" "11 / 10000 \<le> norm3 (block_at (\<lambda>_. 1 / 2) 0)"
    using pi_ge_two by linarith+
  have "rotation (rot_end new_StatesGroup)" by (simp add: new_StatesGroup_def)
  note r = state_roundtrip [OF this w(1)]
  have "state_minus (state_plus new_StatesGroup (\<lambda>_. 1 / 2)) new_StatesGroup i = 1 / 2" if "i < 19" for i
    using r w(2) that by (cases "i < 3") (simp_all add: DIM_STATE_def)
  then show ?thesis by (intro nth_equalityI) simp_all
qed

end
