(* ===== verification/Ekf.thy ===== *)
theory Ekf
  imports Imu_Process Voxel_Map
begin

text \<open>
  \<open>VoxelMapManager::StateEstimation\<close> of \<open>src/src/fast_livo2/src/voxel_map.cpp\<close>: the iterated update of
  the state by the points of a scan matched with the planes of the map. The inverse of a matrix is
  Eigen's and the parameter \<open>minv\<close>; what is only printed is left out.
\<close>

section \<open>The covariance of a measured point\<close>

definition outer :: "V3D \<Rightarrow> V3D \<Rightarrow> M3D" where
  "outer v w = M3D (vx v * vx w) (vx v * vy w) (vx v * vz w)
     (vy v * vx w) (vy v * vy w) (vy v * vz w) (vz v * vx w) (vz v * vy w) (vz v * vz w)"

definition cross :: "V3D \<Rightarrow> V3D \<Rightarrow> V3D" where
  "cross v w = V3D (vy v * vz w - vz v * vy w) (vz v * vx w - vx v * vz w) (vx v * vy w - vy v * vx w)"

definition normalized :: "V3D \<Rightarrow> V3D" where
  "normalized v = (if dot v v > 0 then v /\<^sub>R norm3 v else v)"

definition DEG2RAD :: "real \<Rightarrow> real" where "DEG2RAD x = x * (17453293 / 1000000000)"

text \<open>\<open>calcBodyCov\<close>, with the two columns of \<open>A\<close>; the point is changed where its last coordinate is zero.\<close>

definition calcBodyCov :: "V3D \<Rightarrow> real \<Rightarrow> real \<Rightarrow> V3D \<times> M3D" where
  "calcBodyCov pb range_inc degree_inc =
    (let pb = (if vz pb = 0 then V3D (vx pb) (vy pb) (1 / 10000) else pb);
         range = sqrt (vx pb * vx pb + vy pb * vy pb + vz pb * vz pb);
         range_var = range_inc * range_inc;
         direction_var = sin (DEG2RAD degree_inc) ^ 2;
         direction = normalized pb;
         base_vector1 = normalized (V3D 1 1 (- (vx direction + vy direction) / vz direction));
         base_vector2 = normalized (cross base_vector1 direction);
         A1 = range *\<^sub>R mv (skew direction) base_vector1;
         A2 = range *\<^sub>R mv (skew direction) base_vector2
     in (pb, range_var *\<^sub>R outer direction direction + direction_var *\<^sub>R (outer A1 A1 + outer A2 A2)))"

section \<open>The data\<close>

record ekf_config =
  extR :: M3D
  extT :: V3D
  dept_err :: real
  beam_err :: real
  max_iterations :: int

record PointToPlane =
  ptpl_point_b :: V3D
  ptpl_body_cov :: M3D
  ptpl_center :: V3D
  ptpl_normal :: V3D
  ptpl_plane_var :: mat
  ptpl_dis :: real

text \<open>What is computed once for a point of the scan: its covariance, and its cross matrix in the body.\<close>

definition body_point :: "ekf_config \<Rightarrow> V3D \<Rightarrow> V3D \<times> M3D \<times> M3D" where
  "body_point c p =
    (let (point_this, var) = calcBodyCov (if vz p = 0 then V3D (vx p) (vy p) (1 / 1000) else p) (dept_err c) (beam_err c)
     in (p, var, skew (mv (extR c) point_this + extT c)))"

definition mat_block :: "nat \<Rightarrow> nat \<Rightarrow> mat \<Rightarrow> M3D" where
  "mat_block r c A = M3D (A r c) (A r (c + 1)) (A r (c + 2)) (A (r + 1) c) (A (r + 1) (c + 1)) (A (r + 1) (c + 2))
     (A (r + 2) c) (A (r + 2) (c + 1)) (A (r + 2) (c + 2))"

text \<open>\<open>TransformLidar\<close> for one point, and the point with its variance in the world.\<close>

definition TransformLidar :: "ekf_config \<Rightarrow> M3D \<Rightarrow> V3D \<Rightarrow> V3D \<Rightarrow> V3D" where
  "TransformLidar c R t p = mv R (mv (extR c) p + extT c) + t"

definition world_point :: "ekf_config \<Rightarrow> StatesGroup \<Rightarrow> V3D \<times> M3D \<times> M3D \<Rightarrow> pointWithVar" where
  "world_point c st = (\<lambda>(p, body_cov, crossmat).
    \<lparr>point_w = vec_entry (TransformLidar c (rot_end st) (pos_end st) p),
     point_var = entry (rot_end st * body_cov * trp (rot_end st) +
       (- crossmat) * mat_block 0 0 (cov st) * (- trp crossmat) + mat_block 3 3 (cov st))\<rparr>)"

definition PointToPlane_of :: "V3D \<times> M3D \<times> M3D \<Rightarrow> residual \<Rightarrow> PointToPlane" where
  "PointToPlane_of = (\<lambda>(p, body_cov, crossmat) r. \<lparr>ptpl_point_b = p, ptpl_body_cov = body_cov,
    ptpl_center = block_at (pl_center (res_plane r)) 0, ptpl_normal = block_at (pl_normal (res_plane r)) 0,
    ptpl_plane_var = pl_var (res_plane r), ptpl_dis = res_dis_to_plane r\<rparr>)"

text \<open>The matches of one iteration; \<open>match\<close> is \<open>point_residual\<close> on the map.\<close>

definition ptpl_list :: "(pointWithVar \<Rightarrow> residual option) \<Rightarrow> ekf_config \<Rightarrow> StatesGroup \<Rightarrow>
    (V3D \<times> M3D \<times> M3D) list \<Rightarrow> PointToPlane list" where
  "ptpl_list match c st bs =
    List.map_filter (\<lambda>b. map_option (PointToPlane_of b) (match (world_point c st b))) bs"

section \<open>One measurement\<close>

text \<open>The row of the Jacobian, its weight and the measurement.\<close>

definition Hsub_row :: "ekf_config \<Rightarrow> StatesGroup \<Rightarrow> PointToPlane \<Rightarrow> vec" where
  "Hsub_row c st q =
    (let A = mv (skew (mv (extR c) (ptpl_point_b q) + extT c) * trp (rot_end st)) (ptpl_normal q)
     in (\<lambda>k. if k < 3 then vec_entry A k else vec_entry (ptpl_normal q) (k - 3)))"

definition R_inv :: "ekf_config \<Rightarrow> StatesGroup \<Rightarrow> PointToPlane \<Rightarrow> real" where
  "R_inv c pro q =
    (let point_this = mv (extR c) (ptpl_point_b q) + extT c;
         point_world = mv (rot_end pro) point_this + pos_end pro;
         J_nq = (\<lambda>k. if k < 3 then vec_entry (point_world - ptpl_center q) k else vec_entry (- ptpl_normal q) (k - 3));
         R = rot_end pro * extR c;
         var = R * ptpl_body_cov q * trp R;
         sigma_l = quadratic 6 J_nq (ptpl_plane_var q)
     in 1 / (1 / 1000 + sigma_l + dot (ptpl_normal q) (mv var (ptpl_normal q))))"

section \<open>The update\<close>

definition HTz :: "ekf_config \<Rightarrow> StatesGroup \<Rightarrow> StatesGroup \<Rightarrow> PointToPlane list \<Rightarrow> vec" where
  "HTz c pro st qs k = (\<Sum>q \<leftarrow> qs. Hsub_row c st q k * R_inv c pro q * - ptpl_dis q)"

definition H_T_H :: "ekf_config \<Rightarrow> StatesGroup \<Rightarrow> StatesGroup \<Rightarrow> PointToPlane list \<Rightarrow> mat" where
  "H_T_H c pro st qs k l =
    (if k < 6 \<and> l < 6 then (\<Sum>q \<leftarrow> qs. Hsub_row c st q k * R_inv c pro q * Hsub_row c st q l) else 0)"

definition K_1 :: "(mat \<Rightarrow> mat) \<Rightarrow> mat \<Rightarrow> mat \<Rightarrow> mat" where
  "K_1 minv HTH P = minv (mat_add HTH (minv P))"

definition gain_G :: "mat \<Rightarrow> mat \<Rightarrow> mat" where
  "gain_G K HTH i j = (if j < 6 then (\<Sum>k<6. K i k * HTH k j) else 0)"

definition ekf_solution :: "mat \<Rightarrow> mat \<Rightarrow> vec \<Rightarrow> vec \<Rightarrow> vec" where
  "ekf_solution K HTH z d i = (\<Sum>k<6. K i k * z k) + d i - (\<Sum>k<6. gain_G K HTH i k * d k)"

definition updated_cov :: "(mat \<Rightarrow> mat) \<Rightarrow> mat \<Rightarrow> mat \<Rightarrow> mat" where
  "updated_cov minv HTH P = mat_mult DIM_STATE (mat_minus mat_id (gain_G (K_1 minv HTH P) HTH)) P"

text \<open>The loop; \<open>n\<close> counts the passes that are left.\<close>

primrec ekf_loop :: "(mat \<Rightarrow> mat) \<Rightarrow> (pointWithVar \<Rightarrow> residual option) \<Rightarrow> ekf_config \<Rightarrow> (V3D \<times> M3D \<times> M3D) list \<Rightarrow>
    StatesGroup \<Rightarrow> nat \<Rightarrow> int \<Rightarrow> int \<Rightarrow> StatesGroup \<times> V3D \<Rightarrow> StatesGroup \<times> V3D" where
  "ekf_loop minv match c bs pro 0 iterCount rematch_num sp = sp"
| "ekf_loop minv match c bs pro (Suc n) iterCount rematch_num sp =
    (let (st, last_pos) = sp;
         qs = ptpl_list match c st bs;
         HTH = H_T_H c pro st qs;
         K = K_1 minv HTH (cov st);
         solution = ekf_solution K HTH (HTz c pro st qs) (state_minus pro st);
         st' = state_plus st solution;
         converged = (norm3 (block_at solution 0) * (573 / 10) < 1 / 100 \<and> norm3 (block_at solution 3) * 100 < 15 / 1000);
         rematch_num' = (if converged \<or> rematch_num = 0 \<and> iterCount = max_iterations c - 2 then rematch_num + 1 else rematch_num)
     in if rematch_num' \<ge> 2 \<or> iterCount = max_iterations c - 1
        then (st'\<lparr>cov := updated_cov minv HTH (cov st')\<rparr>, pos_end st')
        else ekf_loop minv match c bs pro n (iterCount + 1) rematch_num' (st', last_pos))"

definition StateEstimation :: "(mat \<Rightarrow> mat) \<Rightarrow> (pointWithVar \<Rightarrow> residual option) \<Rightarrow> ekf_config \<Rightarrow> V3D list \<Rightarrow>
    StatesGroup \<Rightarrow> StatesGroup \<times> V3D \<Rightarrow> StatesGroup \<times> V3D" where
  "StateEstimation minv match c feats_down_body pro sp =
    ekf_loop minv match c (map (body_point c) feats_down_body) pro (nat (max_iterations c)) 0 0 sp"

end
