(* ===== verification/Least_Squares.thy ===== *)
theory Least_Squares
  imports Covariance
begin

text \<open>
  Inverses of covariance matrices, the inverse after one more weighted measurement, and the weighted
  least squares problem that the update of the filter solves.
\<close>

section \<open>Products\<close>

definition mat_vec :: "nat \<Rightarrow> mat \<Rightarrow> vec \<Rightarrow> vec" where "mat_vec n A v i = (\<Sum>k<n. A i k * v k)"
definition inner_vec :: "nat \<Rightarrow> vec \<Rightarrow> vec \<Rightarrow> real" where "inner_vec n u v = (\<Sum>k<n. u k * v k)"

lemma mat_mult_vec: "mat_vec n (mat_mult n A B) v = mat_vec n A (mat_vec n B v)"
proof
  fix i
  have "mat_vec n (mat_mult n A B) v i = (\<Sum>k<n. \<Sum>l<n. A i l * B l k * v k)"
    by (simp add: mat_vec_def mat_mult_def sum_distrib_right)
  also have "\<dots> = (\<Sum>l<n. \<Sum>k<n. A i l * B l k * v k)" by (rule sum.swap)
  also have "\<dots> = mat_vec n A (mat_vec n B v) i"
    by (simp add: mat_vec_def sum_distrib_left mult.assoc)
  finally show "mat_vec n (mat_mult n A B) v i = mat_vec n A (mat_vec n B v) i" .
qed

lemma mat_mult_column: "mat_mult n A B i j = mat_vec n A (\<lambda>k. B k j) i"
  by (simp add: mat_mult_def mat_vec_def)

lemma mat_mult_assoc: "mat_mult n (mat_mult n A B) C i j = mat_mult n A (mat_mult n B C) i j"
proof -
  have "mat_vec n B (\<lambda>k. C k j) = (\<lambda>k. mat_mult n B C k j)" by (rule ext) (simp add: mat_mult_column)
  then show ?thesis
    by (simp add: mat_mult_column [of n "mat_mult n A B"] mat_mult_column [of n A "mat_mult n B C"] mat_mult_vec)
qed

lemma mat_vec_cong: "(\<And>k. k < n \<Longrightarrow> A i k = B i k) \<Longrightarrow> (\<And>k. k < n \<Longrightarrow> v k = w k) \<Longrightarrow> mat_vec n A v i = mat_vec n B w i"
  by (simp add: mat_vec_def)

lemma mat_vec_id: "i < n \<Longrightarrow> mat_vec n mat_id v i = v i"
  by (simp add: mat_vec_def mat_id_def if_distrib [of "\<lambda>x. x * _"] cong: if_cong)

lemma mat_vec_add: "mat_vec n A (\<lambda>k. v k + w k) = (\<lambda>i. mat_vec n A v i + mat_vec n A w i)"
  by (rule ext) (simp add: mat_vec_def distrib_left sum.distrib)
lemma mat_vec_diff: "mat_vec n A (\<lambda>k. v k - w k) = (\<lambda>i. mat_vec n A v i - mat_vec n A w i)"
  by (rule ext) (simp add: mat_vec_def right_diff_distrib sum_subtractf)
lemma mat_vec_mat_add: "mat_vec n (mat_add A B) v = (\<lambda>i. mat_vec n A v i + mat_vec n B v i)"
  by (rule ext) (simp add: mat_vec_def mat_add_def distrib_right sum.distrib)
lemma mat_vec_mat_minus: "mat_vec n (mat_minus A B) v = (\<lambda>i. mat_vec n A v i - mat_vec n B v i)"
  by (rule ext) (simp add: mat_vec_def mat_minus_def left_diff_distrib sum_subtractf)

lemma inner_commute: "inner_vec n u v = inner_vec n v u"
  by (simp add: inner_vec_def mult.commute)
lemma inner_cong: "(\<And>k. k < n \<Longrightarrow> u k = u' k) \<Longrightarrow> (\<And>k. k < n \<Longrightarrow> v k = v' k) \<Longrightarrow> inner_vec n u v = inner_vec n u' v'"
  by (simp add: inner_vec_def)
lemma inner_add: "inner_vec n u (\<lambda>k. v k + w k) = inner_vec n u v + inner_vec n u w"
  by (simp add: inner_vec_def distrib_left sum.distrib)
lemma inner_diff: "inner_vec n u (\<lambda>k. v k - w k) = inner_vec n u v - inner_vec n u w"
  by (simp add: inner_vec_def right_diff_distrib sum_subtractf)
lemma inner_diff_left: "inner_vec n (\<lambda>k. v k - w k) u = inner_vec n v u - inner_vec n w u"
  by (simp add: inner_vec_def left_diff_distrib sum_subtractf)

lemma quadratic_inner: "quadratic n v A = inner_vec n v (mat_vec n A v)"
  by (simp add: quadratic_def inner_vec_def mat_vec_def sum_distrib_left mult.assoc)

lemma inner_symmetric:
  assumes "\<And>i j. i < n \<Longrightarrow> j < n \<Longrightarrow> A i j = A j i"
  shows "inner_vec n u (mat_vec n A v) = inner_vec n v (mat_vec n A u)"
proof -
  have "inner_vec n u (mat_vec n A v) = (\<Sum>i<n. \<Sum>j<n. u i * A i j * v j)"
    by (simp add: inner_vec_def mat_vec_def sum_distrib_left mult.assoc)
  also have "\<dots> = (\<Sum>j<n. \<Sum>i<n. u i * A i j * v j)" by (rule sum.swap)
  also have "\<dots> = (\<Sum>j<n. \<Sum>i<n. v j * (A j i * u i))"
    using assms by (intro sum.cong refl) simp
  also have "\<dots> = inner_vec n v (mat_vec n A u)"
    by (simp add: inner_vec_def mat_vec_def sum_distrib_left)
  finally show ?thesis .
qed

lemma covariance_symmetric: "covariance n A \<Longrightarrow> i < n \<Longrightarrow> j < n \<Longrightarrow> A i j = A j i"
  by (simp add: covariance_def)

lemma covariance_inner: "covariance n A \<Longrightarrow> inner_vec n u (mat_vec n A v) = inner_vec n v (mat_vec n A u)"
  by (rule inner_symmetric) (rule covariance_symmetric)

section \<open>Inverses\<close>

definition inverse_of :: "nat \<Rightarrow> mat \<Rightarrow> mat \<Rightarrow> bool" where
  "inverse_of n A B \<longleftrightarrow> (\<forall>i<n. \<forall>j<n. mat_mult n A B i j = mat_id i j \<and> mat_mult n B A i j = mat_id i j)"

lemma inverse_of_sym: "inverse_of n A B \<Longrightarrow> inverse_of n B A"
  by (simp add: inverse_of_def)

lemma inverse_vec:
  assumes "inverse_of n A B" "i < n"
  shows "mat_vec n A (mat_vec n B v) i = v i"
proof -
  have "mat_vec n A (mat_vec n B v) i = mat_vec n mat_id v i"
    unfolding mat_mult_vec [symmetric] by (rule mat_vec_cong) (use assms in \<open>simp_all add: inverse_of_def\<close>)
  then show ?thesis using assms(2) by (simp add: mat_vec_id)
qed

lemma inverse_symmetric:
  assumes "inverse_of n A B" "\<And>i j. i < n \<Longrightarrow> j < n \<Longrightarrow> A i j = A j i" "i < n" "j < n"
  shows "B i j = B j i"
proof -
  have "mat_vec n A (\<lambda>k. B j k) k = mat_id k j" if "k < n" for k
  proof -
    have "mat_vec n A (\<lambda>k. B j k) k = mat_mult n B A j k"
      using assms(2) that by (simp add: mat_vec_def mat_mult_def mult.commute)
    then show ?thesis using assms(1,4) that by (simp add: inverse_of_def mat_id_def)
  qed
  then have "mat_vec n B (mat_vec n A (\<lambda>k. B j k)) i = mat_vec n B (\<lambda>k. mat_id k j) i"
    by (intro mat_vec_cong) simp_all
  also have "\<dots> = B i j"
    using assms(4) by (simp add: mat_vec_def mat_id_def if_distrib [of "\<lambda>x. _ * x"] cong: if_cong)
  finally show ?thesis using inverse_vec [OF inverse_of_sym [OF assms(1)] assms(3), of "\<lambda>k. B j k"] by simp
qed

lemma inverse_covariance:
  assumes "covariance n A" "inverse_of n A B"
  shows "covariance n B"
proof -
  have "quadratic n v B = quadratic n (mat_vec n B v) A" for v
  proof -
    have "quadratic n v B = inner_vec n (mat_vec n A (mat_vec n B v)) (mat_vec n B v)"
      unfolding quadratic_inner by (rule inner_cong) (simp_all add: inverse_vec [OF assms(2)])
    then show ?thesis by (simp add: quadratic_inner inner_commute)
  qed
  then show ?thesis
    using assms(1) inverse_symmetric [OF assms(2)] covariance_symmetric [OF assms(1)]
    by (simp add: covariance_def)
qed

lemma inverse_ofI:
  assumes "\<And>i j. i < n \<Longrightarrow> j < n \<Longrightarrow> A i j = A j i" "\<And>i j. i < n \<Longrightarrow> j < n \<Longrightarrow> B i j = B j i"
    and "\<And>i j. i < n \<Longrightarrow> j < n \<Longrightarrow> mat_mult n A B i j = mat_id i j"
  shows "inverse_of n A B"
proof -
  have "mat_mult n B A i j = mat_id i j" if "i < n" "j < n" for i j
  proof -
    have "mat_mult n B A i j = mat_mult n A B j i"
      unfolding mat_mult_def using assms(1,2) that by (intro sum.cong refl) simp
    then show ?thesis using assms(3) that by (simp add: mat_id_def)
  qed
  with assms(3) show ?thesis by (simp add: inverse_of_def)
qed

text \<open>One more measurement with the row \<open>h\<close> and the weight \<open>w\<close>.\<close>

definition rank_one :: "real \<Rightarrow> vec \<Rightarrow> mat" where "rank_one w h i j = w * h i * h j"

lemma quadratic_rank_one: "quadratic n v (rank_one w h) = w * (inner_vec n h v)\<^sup>2"
proof -
  have "quadratic n v (rank_one w h) = (\<Sum>i<n. \<Sum>j<n. w * ((h i * v i) * (h j * v j)))"
    by (simp add: quadratic_def rank_one_def mult.assoc mult.commute mult.left_commute)
  also have "\<dots> = w * (inner_vec n h v * inner_vec n h v)"
    unfolding inner_vec_def sum_product unfolding sum_distrib_left ..
  finally show ?thesis by (simp add: power2_eq_square)
qed

lemma covariance_rank_one: "0 \<le> w \<Longrightarrow> covariance n (rank_one w h)"
  by (simp add: covariance_def quadratic_rank_one) (simp add: rank_one_def)

lemma quadratic_sum: "quadratic n x (\<lambda>i j. \<Sum>q \<leftarrow> qs. w q * h q i * h q j) = (\<Sum>q \<leftarrow> qs. w q * (inner_vec n (h q) x)\<^sup>2)"
proof (induction qs)
  case (Cons q qs)
  have "quadratic n x (\<lambda>i j. w q * h q i * h q j + (\<Sum>q \<leftarrow> qs. w q * h q i * h q j)) =
      quadratic n x (rank_one (w q) (h q)) + quadratic n x (\<lambda>i j. \<Sum>q \<leftarrow> qs. w q * h q i * h q j)"
    by (simp add: quadratic_def rank_one_def distrib_left distrib_right sum.distrib)
  then show ?case by (simp add: Cons quadratic_rank_one)
qed (simp add: quadratic_def)

lemma rank_one_update:
  assumes "covariance n A" "inverse_of n A Q" "0 \<le> w"
  shows "\<exists>Q'. inverse_of n (mat_add A (rank_one w h)) Q'"
proof -
  define u where "u = mat_vec n Q h"
  define s where "s = 1 + w * inner_vec n h u"
  define Q' where "Q' i j = Q i j - w / s * u i * u j" for i j
  note Q = inverse_covariance [OF assms(1,2)]
  have "0 \<le> inner_vec n h u" using Q by (simp add: u_def covariance_def flip: quadratic_inner)
  then have s: "0 < s" using assms(3) by (simp add: s_def add_pos_nonneg)
  have hQ: "(\<Sum>k<n. h k * Q k j) = u j" if "j < n" for j
    unfolding u_def mat_vec_def by (rule sum.cong) (use covariance_symmetric [OF Q] that in simp_all)
  have Au: "(\<Sum>k<n. A i k * u k) = h i" if "i < n" for i
    using inverse_vec [OF assms(2) that, of h] by (simp add: u_def mat_vec_def)
  have "mat_mult n (mat_add A (rank_one w h)) Q' i j = mat_id i j" if "i < n" "j < n" for i j
  proof -
    have "mat_mult n (mat_add A (rank_one w h)) Q' i j =
        (\<Sum>k<n. A i k * Q k j) + w * h i * (\<Sum>k<n. h k * Q k j) - w / s * u j * (\<Sum>k<n. A i k * u k) -
          w / s * u j * h i * (w * inner_vec n h u)"
      by (simp add: mat_mult_def mat_add_def rank_one_def Q'_def inner_vec_def sum_distrib_left sum_divide_distrib
          algebra_simps sum.distrib sum_subtractf)
    also have "w * inner_vec n h u = s - 1" by (simp add: s_def)
    also have "(\<Sum>k<n. A i k * Q k j) = mat_id i j" using assms(2) that by (simp add: inverse_of_def mat_mult_def)
    also have "(\<Sum>k<n. h k * Q k j) = u j" by (rule hQ [OF that(2)])
    also have "(\<Sum>k<n. A i k * u k) = h i" by (rule Au [OF that(1)])
    finally show ?thesis using s by (simp add: field_simps)
  qed
  then have "inverse_of n (mat_add A (rank_one w h)) Q'"
    using covariance_symmetric [OF covariance_add [OF assms(1) covariance_rank_one [OF assms(3)]]]
      covariance_symmetric [OF Q]
    by (intro inverse_ofI) (simp_all add: Q'_def)
  then show ?thesis by blast
qed

text \<open>All the measurements of a list.\<close>

lemma measurements_update:
  assumes "covariance n A" "inverse_of n A Q" "\<And>q. q \<in> set qs \<Longrightarrow> 0 \<le> w q"
  shows "\<exists>B Q'. covariance n B \<and> inverse_of n B Q' \<and>
    (\<forall>i<n. \<forall>j<n. B i j = (\<Sum>q \<leftarrow> qs. w q * h q i * h q j) + A i j)"
  using assms(3)
proof (induction qs)
  case Nil
  then show ?case using assms(1,2) by auto
next
  case (Cons q qs)
  then obtain B Q' where B: "covariance n B" "inverse_of n B Q'"
    "\<forall>i<n. \<forall>j<n. B i j = (\<Sum>q \<leftarrow> qs. w q * h q i * h q j) + A i j" by auto
  have w: "0 \<le> w q" using Cons.prems by simp
  obtain Q'' where "inverse_of n (mat_add B (rank_one (w q) (h q))) Q''"
    using rank_one_update [OF B(1,2) w] by blast
  moreover have "covariance n (mat_add B (rank_one (w q) (h q)))"
    by (rule covariance_add [OF B(1) covariance_rank_one [OF w]])
  ultimately show ?case using B(3) by (auto simp: mat_add_def rank_one_def)
qed

lemma inverse_cong:
  assumes "inverse_of n A B" "\<And>i j. i < n \<Longrightarrow> j < n \<Longrightarrow> A' i j = A i j"
  shows "inverse_of n A' B"
proof -
  have "mat_mult n A' B i j = mat_mult n A B i j \<and> mat_mult n B A' i j = mat_mult n B A i j" if "i < n" "j < n" for i j
    using assms(2) that by (simp add: mat_mult_def)
  with assms(1) show ?thesis by (simp add: inverse_of_def)
qed

lemma covariance_cong:
  assumes "covariance n A" "\<And>i j. i < n \<Longrightarrow> j < n \<Longrightarrow> A' i j = A i j"
  shows "covariance n A'"
  using assms by (simp add: covariance_def quadratic_def)

section \<open>Least squares\<close>

text \<open>
  The weighted squares of the measurements at \<open>x\<close> and of its distance from the prior \<open>d\<close>; the rows
  have entries below \<open>m\<close> only.
\<close>

definition squares :: "nat \<Rightarrow> ('q \<Rightarrow> real) \<Rightarrow> ('q \<Rightarrow> vec) \<Rightarrow> ('q \<Rightarrow> real) \<Rightarrow> 'q list \<Rightarrow> mat \<Rightarrow> vec \<Rightarrow> vec \<Rightarrow> real" where
  "squares n w h z qs Pinv d x =
    (\<Sum>q \<leftarrow> qs. w q * (z q - inner_vec n (h q) x)\<^sup>2) + quadratic n (\<lambda>i. x i - d i) Pinv"

lemma squares_expand:
  fixes w :: "'q \<Rightarrow> real"
  assumes "covariance n Pinv"
  shows "squares n w h z qs Pinv d x =
    (\<Sum>q \<leftarrow> qs. w q * (z q)\<^sup>2) + quadratic n d Pinv +
      quadratic n x (mat_add (\<lambda>i j. \<Sum>q \<leftarrow> qs. w q * h q i * h q j) Pinv) -
      2 * inner_vec n x (\<lambda>i. (\<Sum>q \<leftarrow> qs. w q * h q i * z q) + mat_vec n Pinv d i)"
proof -
  have prior: "quadratic n (\<lambda>i. x i - d i) Pinv = quadratic n x Pinv - 2 * inner_vec n x (mat_vec n Pinv d) + quadratic n d Pinv"
    using covariance_inner [OF assms, of d x]
    by (simp add: quadratic_inner mat_vec_diff inner_diff inner_diff_left)
  have "(\<Sum>q \<leftarrow> qs. w q * (z q - inner_vec n (h q) x)\<^sup>2) =
      (\<Sum>q \<leftarrow> qs. w q * (z q)\<^sup>2) + quadratic n x (\<lambda>i j. \<Sum>q \<leftarrow> qs. w q * h q i * h q j) -
        2 * inner_vec n x (\<lambda>i. \<Sum>q \<leftarrow> qs. w q * h q i * z q)"
    unfolding quadratic_sum
  proof (induction qs)
    case (Cons q qs)
    have "inner_vec n x (\<lambda>i. w q * h q i * z q) = w q * z q * inner_vec n (h q) x"
      by (simp add: inner_vec_def sum_distrib_left mult.assoc mult.commute mult.left_commute)
    with Cons show ?case by (simp add: inner_add power2_diff algebra_simps)
  qed (simp add: inner_vec_def)
  then show ?thesis unfolding squares_def prior
    by (simp add: inner_add quadratic_inner mat_vec_mat_add)
qed

lemma squares_least:
  assumes "covariance n Pinv" "\<And>q. q \<in> set qs \<Longrightarrow> 0 \<le> w q"
    and "\<And>i. i < n \<Longrightarrow> mat_vec n (mat_add (\<lambda>i j. \<Sum>q \<leftarrow> qs. w q * h q i * h q j) Pinv) x i =
      (\<Sum>q \<leftarrow> qs. w q * h q i * z q) + mat_vec n Pinv d i"
  shows "squares n w h z qs Pinv d x \<le> squares n w h z qs Pinv d y"
proof -
  let ?S = "mat_add (\<lambda>i j. \<Sum>q \<leftarrow> qs. w q * h q i * h q j) Pinv"
  have "covariance n (\<lambda>i j. \<Sum>q \<leftarrow> qs. w q * h q i * h q j)"
    using assms(2) unfolding covariance_def quadratic_sum
    by (auto simp: mult.commute mult.left_commute intro!: sum_list_nonneg mult_nonneg_nonneg arg_cong [of _ _ sum_list])
  then have S: "covariance n ?S" using assms(1) by (rule covariance_add)
  have "0 \<le> quadratic n (\<lambda>i. y i - x i) ?S" using S by (simp add: covariance_def)
  also have "\<dots> = quadratic n y ?S - 2 * inner_vec n y (mat_vec n ?S x) + inner_vec n x (mat_vec n ?S x)"
    using covariance_inner [OF S, of x y]
    by (simp add: quadratic_inner mat_vec_diff inner_diff inner_diff_left)
  also have "inner_vec n v (mat_vec n ?S x) = inner_vec n v (\<lambda>i. (\<Sum>q \<leftarrow> qs. w q * h q i * z q) + mat_vec n Pinv d i)" for v
    by (rule inner_cong) (simp_all add: assms(3))
  moreover have "quadratic n x ?S = inner_vec n x (\<lambda>i. (\<Sum>q \<leftarrow> qs. w q * h q i * z q) + mat_vec n Pinv d i)"
    unfolding quadratic_inner by (rule inner_cong) (simp_all add: assms(3))
  ultimately show ?thesis unfolding squares_expand [OF assms(1)] by simp
qed

end
