(* ===== verification/Bordering.thy ===== *)
theory Bordering
  imports Least_Squares
begin

text \<open>
  An inverse of covariance matrices by bordering, one row and column after the other: the functions
  that stand for Eigen's inverse in the statements on the filter have an instance that computes.
\<close>

definition pos_def :: "nat \<Rightarrow> mat \<Rightarrow> bool" where
  "pos_def n A \<longleftrightarrow> (\<forall>i<n. \<forall>j<n. A i j = A j i) \<and> (\<forall>v. (\<exists>i<n. v i \<noteq> 0) \<longrightarrow> 0 < quadratic n v A)"

lemma pos_def_quadratic: "pos_def n A \<Longrightarrow> i < n \<Longrightarrow> v i \<noteq> 0 \<Longrightarrow> 0 < quadratic n v A"
  by (auto simp: pos_def_def)

primrec border :: "nat \<Rightarrow> mat \<Rightarrow> mat" where
  "border 0 A = A"
| "border (Suc n) A =
    (let B = border n A; u = mat_vec n B (\<lambda>i. A i n); s = A n n - inner_vec n (\<lambda>i. A i n) u
     in (\<lambda>i j. if i < n \<and> j < n then B i j + u i * u j / s
       else if i < n then - u i / s else if j < n then - u j / s else 1 / s))"

declare border.simps(2) [simp del]

lemma regular_pos_def:
  assumes "covariance n A" "inverse_of n A B"
  shows "pos_def n A"
proof -
  have "0 < quadratic n v A" if "i < n" "v i \<noteq> 0" for v i
  proof (rule ccontr)
    assume "\<not> 0 < quadratic n v A"
    then have zero: "quadratic n v A = 0" using assms(1) by (simp add: covariance_def order_antisym not_less)
    have bound: "0 \<le> 2 * t * inner_vec n u (mat_vec n A v) + t * t * quadratic n u A" for t u
    proof -
      have "0 \<le> quadratic n (\<lambda>i. v i + t * u i) A" using assms(1) by (simp add: covariance_def)
      also have "\<dots> = quadratic n v A + 2 * t * inner_vec n u (mat_vec n A v) + t * t * quadratic n u A"
      proof -
        have scale: "mat_vec n A (\<lambda>k. t * u k) = (\<lambda>k. t * mat_vec n A u k)" "inner_vec n w (\<lambda>k. t * w' k) = t * inner_vec n w w'"
          "inner_vec n (\<lambda>k. t * w' k) w = t * inner_vec n w' w" for w w'
          by (simp_all add: mat_vec_def [abs_def] inner_vec_def sum_distrib_left mult.left_commute mult.assoc)
        show ?thesis using covariance_inner [OF assms(1), of v u]
          by (simp add: quadratic_inner mat_vec_add inner_add inner_commute [of n "\<lambda>i. v i + t * u i"] scale)
            (simp add: inner_commute [of n "mat_vec n A _"] algebra_simps)
      qed
      finally show ?thesis using zero by simp
    qed
    have orth: "inner_vec n u (mat_vec n A v) = 0" for u
    proof -
      let ?a = "inner_vec n u (mat_vec n A v)" and ?q = "quadratic n u A"
      have q: "0 \<le> ?q" using assms(1) by (simp add: covariance_def)
      define t where "t = - ?a / (?q + 1)"
      then have a: "?a = - t * (?q + 1)" using q by (simp add: field_simps)
      have "0 \<le> 2 * t * (- t * (?q + 1)) + t * t * ?q" using bound [of t u] unfolding a .
      then have "t * t * (?q + 2) \<le> 0" by (simp add: algebra_simps)
      with q have "t = 0" by (auto simp: mult_le_0_iff)
      with a show ?thesis by simp
    qed
    have "v i = inner_vec n (\<lambda>k. B i k) (mat_vec n A v)"
      using inverse_vec [OF inverse_of_sym [OF assms(2)] that(1), of v] by (simp add: mat_vec_def inner_vec_def)
    with orth that(2) show False by simp
  qed
  then show ?thesis using assms(1) by (auto simp: pos_def_def covariance_def)
qed

lemma pos_def_leading: "pos_def (Suc n) A \<Longrightarrow> pos_def n A"
proof -
  assume p: "pos_def (Suc n) A"
  have "0 < quadratic n v A" if "i < n" "v i \<noteq> 0" for v i
  proof -
    let ?v = "\<lambda>i. if i < n then v i else 0"
    have "0 < quadratic (Suc n) ?v A" by (rule pos_def_quadratic [OF p, of i]) (use that in simp_all)
    also have "\<dots> = quadratic n v A" by (simp add: quadratic_def)
    finally show ?thesis .
  qed
  with p show ?thesis by (auto simp: pos_def_def)
qed

lemma border_inverse: "pos_def n A \<Longrightarrow> inverse_of n A (border n A)"
proof (induction n)
  case (Suc n)
  define B b u s where "B = border n A" and "b = (\<lambda>i. A i n)" and "u = mat_vec n B b" and "s = A n n - inner_vec n b u"
  have sym: "A i j = A j i" if "i < Suc n" "j < Suc n" for i j using Suc.prems that by (simp add: pos_def_def)
  have inv: "inverse_of n A B" using Suc.IH pos_def_leading [OF Suc.prems] by (simp add: B_def)
  have symB: "B i j = B j i" if "i < n" "j < n" for i j
    by (rule inverse_symmetric [OF inv _ that]) (simp add: sym)
  have Au: "(\<Sum>k<n. A i k * u k) = b i" if "i < n" for i
    using inverse_vec [OF inv that, of b] by (simp add: u_def mat_vec_def)
  have bA: "(\<Sum>k<n. A n k * w k) = inner_vec n b w" for w
    unfolding inner_vec_def b_def by (rule sum.cong) (simp_all add: sym)
  have bB: "inner_vec n b (\<lambda>k. B k j) = u j" if "j < n" for j
    unfolding inner_vec_def u_def mat_vec_def by (rule sum.cong) (simp_all add: symB that)
  have "0 < quadratic (Suc n) (\<lambda>i. if i < n then - u i else 1) A"
    by (rule pos_def_quadratic [OF Suc.prems, of n]) simp_all
  also have "\<dots> = (\<Sum>i<n. u i * (\<Sum>k<n. A i k * u k)) - 2 * inner_vec n b u + A n n"
    by (simp add: quadratic_def inner_vec_def b_def sum.distrib sum_subtractf sum_negf sum_distrib_left sym
        mult.commute mult.left_commute)
  also have "(\<Sum>i<n. u i * (\<Sum>k<n. A i k * u k)) = inner_vec n b u"
    unfolding inner_vec_def by (rule sum.cong) (simp_all add: Au)
  finally have s: "0 < s" by (simp add: s_def)
  have border: "border (Suc n) A = (\<lambda>i j. if i < n \<and> j < n then B i j + u i * u j / s
       else if i < n then - u i / s else if j < n then - u j / s else 1 / s)"
    unfolding border.simps Let_def B_def [symmetric] b_def [symmetric] u_def [symmetric] s_def [symmetric] ..
  show ?case
  proof (rule inverse_ofI)
    fix i j assume "i < Suc n" "j < Suc n"
    then show "A i j = A j i" "border (Suc n) A i j = border (Suc n) A j i"
      by (rule sym) (use \<open>i < Suc n\<close> \<open>j < Suc n\<close> in \<open>auto simp: border less_Suc_eq symB\<close>)
    have product: "mat_mult (Suc n) A (border (Suc n) A) i j =
        (if j < n then (\<Sum>k<n. A i k * B k j) + (\<Sum>k<n. A i k * u k) * u j / s - A i n * u j / s
         else - (\<Sum>k<n. A i k * u k) / s + A i n / s)"
      by (simp add: mat_mult_def border)
        (simp add: sum_distrib_right sum_divide_distrib distrib_left sum.distrib sum_negf mult.assoc)
    show "mat_mult (Suc n) A (border (Suc n) A) i j = mat_id i j"
    proof (cases "i < n")
      case True
      then have "(\<Sum>k<n. A i k * B k j) = mat_id i j" if "j < n"
        using inv that by (simp add: inverse_of_def mat_mult_def)
      with True \<open>j < Suc n\<close> show ?thesis unfolding product Au [OF True] by (auto simp: b_def mat_id_def)
    next
      case False
      then have i: "i = n" using \<open>i < Suc n\<close> by simp
      show ?thesis
      proof (cases "j < n")
        case True
        then have "mat_mult (Suc n) A (border (Suc n) A) i j = u j + (inner_vec n b u - A n n) * u j / s"
          unfolding product unfolding i bA using bB [OF True] by (simp add: left_diff_distrib diff_divide_distrib)
        also have "inner_vec n b u - A n n = - s" by (simp add: s_def)
        finally show ?thesis using s i True by (simp add: mat_id_def)
      next
        case False
        then have "j = n" using \<open>j < Suc n\<close> by simp
        then have "mat_mult (Suc n) A (border (Suc n) A) i j = (A n n - inner_vec n b u) / s"
          unfolding product unfolding i bA by (simp add: diff_divide_distrib)
        then show ?thesis using s i \<open>j = n\<close> by (simp add: mat_id_def flip: s_def)
      qed
    qed
  qed
qed (simp add: inverse_of_def)

lemma border_regular: "covariance n A \<Longrightarrow> inverse_of n A B \<Longrightarrow> inverse_of n A (border n A)"
  by (rule border_inverse) (rule regular_pos_def)

end
