(* ===== verification/Kalman.thy ===== *)
theory Kalman
  imports Ekf Bordering
begin

text \<open>
  The update of a state and its covariance by weighted linear measurements, in the form that the
  update by a scan and the update by an image share: the inverse of the summed information applied
  to the measurements and to the distance from the prior.
\<close>

text \<open>What is asked of the inverse: that it is one for a covariance matrix that has one.\<close>

definition inverts :: "(mat \<Rightarrow> mat) \<Rightarrow> bool" where
  "inverts minv \<longleftrightarrow> (\<forall>A B. covariance DIM_STATE A \<and> inverse_of DIM_STATE A B \<longrightarrow> inverse_of DIM_STATE A (minv A))"

lemma border_inverts: "inverts (border DIM_STATE)"
  using border_regular unfolding inverts_def by blast

definition regular :: "mat \<Rightarrow> bool" where
  "regular P \<longleftrightarrow> covariance DIM_STATE P \<and> (\<exists>Q. inverse_of DIM_STATE P Q)"

lemma regular_inverse:
  assumes "inverts minv" "regular P"
  shows "inverse_of DIM_STATE P (minv P)" "covariance DIM_STATE (minv P)"
proof -
  show P: "inverse_of DIM_STATE P (minv P)" using assms by (auto simp: inverts_def regular_def)
  then show "covariance DIM_STATE (minv P)" using assms(2) inverse_covariance by (auto simp: regular_def)
qed

text \<open>
  The measurements \<open>'q\<close> with their weights and rows, which may depend on a context \<open>'c\<close> (the settings and
  the state it is linearised at), and the matrix that the code sums up.
\<close>

locale kalman =
  fixes weight :: "'c \<Rightarrow> 'q \<Rightarrow> real" and row :: "'c \<Rightarrow> 'q \<Rightarrow> vec" and HTH :: "'c \<Rightarrow> 'q list \<Rightarrow> mat" and ok :: "'q \<Rightarrow> bool"
  assumes HTH_sum: "HTH c qs i j = (\<Sum>q \<leftarrow> qs. weight c q * row c q i * row c q j)"
    and weight_nonneg: "ok q \<Longrightarrow> 0 \<le> weight c q"
begin

lemma information:
  assumes "inverts minv" "regular P" "\<forall>q \<in> set qs. ok q"
  shows "covariance DIM_STATE (minv P)" "inverse_of DIM_STATE P (minv P)"
    "covariance DIM_STATE (mat_add (HTH c qs) (minv P))"
    "inverse_of DIM_STATE (mat_add (HTH c qs) (minv P)) (K_1 minv (HTH c qs) P)"
    "covariance DIM_STATE (K_1 minv (HTH c qs) P)"
proof -
  let ?S = "mat_add (HTH c qs) (minv P)"
  note P = regular_inverse [OF assms(1,2)]
  show "inverse_of DIM_STATE P (minv P)" "covariance DIM_STATE (minv P)" by (rule P)+
  have "0 \<le> weight c q" if "q \<in> set qs" for q using weight_nonneg assms(3) that by blast
  then obtain B Q where B: "covariance DIM_STATE B" "inverse_of DIM_STATE B Q"
    "\<forall>i<DIM_STATE. \<forall>j<DIM_STATE. B i j = (\<Sum>q \<leftarrow> qs. weight c q * row c q i * row c q j) + minv P i j"
    using measurements_update [OF P(2) inverse_of_sym [OF P(1)]] by blast
  then have eq: "?S i j = B i j" if "i < DIM_STATE" "j < DIM_STATE" for i j
    using that by (simp add: mat_add_def HTH_sum)
  show S: "covariance DIM_STATE ?S" by (rule covariance_cong [OF B(1) eq])
  have "inverse_of DIM_STATE ?S Q" by (rule inverse_cong [OF B(2) eq])
  with assms(1) S show K: "inverse_of DIM_STATE ?S (K_1 minv (HTH c qs) P)" by (auto simp: inverts_def K_1_def)
  show "covariance DIM_STATE (K_1 minv (HTH c qs) P)" by (rule inverse_covariance [OF S K])
qed

text \<open>The increment that is the gain of the measurements and of the distance from the prior.\<close>

lemma solution_least:
  assumes "inverts minv" "regular P" "\<forall>q \<in> set qs. ok q"
    and "\<And>i. i < DIM_STATE \<Longrightarrow> x i = mat_vec DIM_STATE (K_1 minv (HTH c qs) P) (\<lambda>i. \<Sum>q \<leftarrow> qs. weight c q * row c q i * z q) i +
      d i - mat_vec DIM_STATE (K_1 minv (HTH c qs) P) (mat_vec DIM_STATE (HTH c qs) d) i"
  shows "squares DIM_STATE (weight c) (row c) z qs (minv P) d x \<le> squares DIM_STATE (weight c) (row c) z qs (minv P) d y"
proof (rule squares_least)
  note info = information(1,2) [OF assms(1-3)] information(3-5) [OF assms(1-3), of c]
  let ?H = "HTH c qs" and ?K = "K_1 minv (HTH c qs) P" and ?S = "mat_add (HTH c qs) (minv P)"
  let ?z = "\<lambda>i. \<Sum>q \<leftarrow> qs. weight c q * row c q i * z q"
  show "covariance DIM_STATE (minv P)" by (rule info(1))
  show "0 \<le> weight c q" if "q \<in> set qs" for q using weight_nonneg assms(3) that by blast
  fix i assume i: "i < DIM_STATE"
  have H: "(\<lambda>i j. \<Sum>q \<leftarrow> qs. weight c q * row c q i * row c q j) = ?H" by (simp add: HTH_sum fun_eq_iff)
  have "mat_vec DIM_STATE ?S x i = mat_vec DIM_STATE ?S (\<lambda>i. mat_vec DIM_STATE ?K ?z i + d i -
      mat_vec DIM_STATE ?K (mat_vec DIM_STATE ?H d) i) i"
    by (rule mat_vec_cong) (simp_all add: assms(4))
  also have "\<dots> = ?z i + mat_vec DIM_STATE ?S d i - mat_vec DIM_STATE ?H d i"
    unfolding mat_vec_diff mat_vec_add inverse_vec [OF info(4) i] ..
  also have "\<dots> = ?z i + mat_vec DIM_STATE (minv P) d i" by (simp add: mat_vec_mat_add)
  finally show "mat_vec DIM_STATE (mat_add (\<lambda>i j. \<Sum>q \<leftarrow> qs. weight c q * row c q i * row c q j) (minv P)) x i =
      ?z i + mat_vec DIM_STATE (minv P) d i"
    unfolding H .
qed

text \<open>The covariance \<open>(I - K H) P\<close>.\<close>

lemma posterior_eq:
  assumes "inverts minv" "regular P" "\<forall>q \<in> set qs. ok q" "i < DIM_STATE" "j < DIM_STATE"
  shows "mat_mult DIM_STATE (mat_minus mat_id (mat_mult DIM_STATE (K_1 minv (HTH c qs) P) (HTH c qs))) P i j =
    K_1 minv (HTH c qs) P i j"
proof -
  note info = information(1,2) [OF assms(1-3)] information(3-5) [OF assms(1-3), of c]
  let ?H = "HTH c qs" and ?K = "K_1 minv (HTH c qs) P" and ?S = "mat_add (HTH c qs) (minv P)" and ?p = "\<lambda>k. P k j"
  have "mat_mult DIM_STATE (mat_minus mat_id (mat_mult DIM_STATE ?K ?H)) P i j =
      mat_vec DIM_STATE (mat_minus mat_id (mat_mult DIM_STATE ?K ?H)) ?p i"
    by (rule mat_mult_column)
  also have "\<dots> = P i j - mat_vec DIM_STATE ?K (mat_vec DIM_STATE ?H ?p) i"
    using assms(4) by (simp add: mat_vec_mat_minus mat_vec_id mat_mult_vec)
  also have "mat_vec DIM_STATE ?K (mat_vec DIM_STATE ?H ?p) i =
      mat_vec DIM_STATE ?K (\<lambda>k. mat_vec DIM_STATE ?S ?p k - mat_vec DIM_STATE (minv P) ?p k) i"
    by (simp add: mat_vec_mat_add)
  also have "\<dots> = P i j - mat_vec DIM_STATE ?K (mat_vec DIM_STATE (minv P) ?p) i"
    unfolding mat_vec_diff inverse_vec [OF inverse_of_sym [OF info(4)] assms(4)] ..
  also have "mat_vec DIM_STATE ?K (mat_vec DIM_STATE (minv P) ?p) i = mat_vec DIM_STATE ?K (\<lambda>k. mat_id k j) i"
    by (rule mat_vec_cong) (use info(2) assms(5) in \<open>simp_all add: inverse_of_def flip: mat_mult_column\<close>)
  also have "\<dots> = ?K i j"
    using assms(5) by (simp add: mat_vec_def mat_id_def if_distrib [of "\<lambda>x. _ * x"] cong: if_cong)
  finally show ?thesis by simp
qed

lemma posterior_shrinks:
  assumes "inverts minv" "regular P" "\<forall>q \<in> set qs. ok q"
  shows "quadratic DIM_STATE v (K_1 minv (HTH c qs) P) \<le> quadratic DIM_STATE v P"
proof -
  note info = information(1,2) [OF assms] information(3-5) [OF assms, of c]
  let ?n = DIM_STATE and ?H = "HTH c qs" and ?K = "K_1 minv (HTH c qs) P" and ?S = "mat_add (HTH c qs) (minv P)"
  let ?u = "mat_vec ?n ?K v" and ?x = "mat_vec ?n P v"
  have "quadratic ?n v ?K = inner_vec ?n (mat_vec ?n ?S ?u) ?u"
    unfolding quadratic_inner by (rule inner_cong) (simp_all add: inverse_vec [OF info(4)])
  also have "\<dots> = quadratic ?n ?u ?S" unfolding quadratic_inner by (rule inner_commute)
  finally have K: "quadratic ?n v ?K = quadratic ?n ?u ?H + quadratic ?n ?u (minv P)"
    by (simp add: quadratic_inner mat_vec_mat_add inner_add)
  have "quadratic ?n ?u ?H = (\<Sum>q \<leftarrow> qs. weight c q * (inner_vec ?n (row c q) ?u)\<^sup>2)"
    unfolding quadratic_sum [symmetric] by (simp add: quadratic_def HTH_sum)
  moreover have "0 \<le> weight c q" if "q \<in> set qs" for q using weight_nonneg assms(3) that by blast
  ultimately have H: "0 \<le> quadratic ?n ?u ?H" by (auto intro!: sum_list_nonneg)
  have Px: "inner_vec ?n u (mat_vec ?n (minv P) ?x) = inner_vec ?n u v" for u
    by (rule inner_cong) (simp_all add: inverse_vec [OF inverse_of_sym [OF info(2)]])
  have "0 \<le> quadratic ?n (\<lambda>i. ?x i - ?u i) (minv P)" using info(1) by (simp add: covariance_def)
  also have "\<dots> = inner_vec ?n ?x v - 2 * inner_vec ?n ?u v + quadratic ?n ?u (minv P)"
    using covariance_inner [OF info(1), of ?x ?u]
    by (simp add: quadratic_inner mat_vec_diff inner_diff inner_diff_left Px)
  also have "inner_vec ?n ?x v = quadratic ?n v P" unfolding quadratic_inner by (rule inner_commute)
  also have "inner_vec ?n ?u v = quadratic ?n v ?K" unfolding quadratic_inner by (rule inner_commute)
  finally show ?thesis using K H by linarith
qed

lemma posterior:
  assumes "inverts minv" "regular P" "\<forall>q \<in> set qs. ok q"
    and "\<And>i j. i < DIM_STATE \<Longrightarrow> j < DIM_STATE \<Longrightarrow>
      P' i j = mat_mult DIM_STATE (mat_minus mat_id (mat_mult DIM_STATE (K_1 minv (HTH c qs) P) (HTH c qs))) P i j"
  shows "inverse_of DIM_STATE (mat_add (HTH c qs) (minv P)) P'" "regular P'" "quadratic DIM_STATE v P' \<le> quadratic DIM_STATE v P"
proof -
  note info = information(3-5) [OF assms(1-3), of c]
  have eq: "P' i j = K_1 minv (HTH c qs) P i j" if "i < DIM_STATE" "j < DIM_STATE" for i j
    using assms(4) posterior_eq [OF assms(1-3)] that by simp
  show inv: "inverse_of DIM_STATE (mat_add (HTH c qs) (minv P)) P'"
    by (rule inverse_of_sym, rule inverse_cong [OF inverse_of_sym [OF info(2)] eq])
  have "covariance DIM_STATE P'" by (rule covariance_cong [OF info(3) eq])
  with inverse_of_sym [OF inv] show "regular P'" by (auto simp: regular_def)
  show "quadratic DIM_STATE v P' \<le> quadratic DIM_STATE v P"
    using posterior_shrinks [OF assms(1-3)] by (simp add: quadratic_def eq)
qed

end

end
