(* ===== verification/Ekf_Props.thy ===== *)
theory Ekf_Props
  imports Kalman Imu_Props
begin

text \<open>
  What the update by a scan computes: the covariance of a point, the minimum that an increment of the
  state is at, and the covariance that is left.
\<close>

section \<open>The covariance of a point\<close>

lemma normalized_unit: "v \<noteq> 0 \<Longrightarrow> norm3 (normalized v) = 1"
proof -
  assume "v \<noteq> 0"
  then have "0 < dot v v"
    by (cases v) (auto simp: dot_def zero_V3D_def add_nonneg_eq_0_iff order_less_le)
  then show ?thesis by (simp add: normalized_def norm3_scaleR) (simp add: norm3_def)
qed

lemma unit_dot: "norm3 v = 1 \<Longrightarrow> dot v v = 1"
  using norm3_square [of v] by simp

lemma normalized_id: "norm3 v = 1 \<Longrightarrow> normalized v = v"
  by (simp add: normalized_def unit_dot)

lemma normalized_perp: "dot v w = 0 \<Longrightarrow> dot (normalized v) w = 0"
  by (simp add: normalized_def dot_scaleR_left)

lemma mv_skew: "mv (skew v) w = cross v w"
  by (simp add: mv_def skew_def cross_def)

lemma cross_norm:
  assumes "norm3 b = 1" "norm3 d = 1" "dot b d = 0"
  shows "norm3 (cross b d) = 1"
proof -
  have "dot (cross b d) (cross b d) = dot b b * dot d d - dot b d * dot b d"
    by (simp add: cross_def dot_def algebra_simps)
  with assms show ?thesis by (simp add: unit_dot norm3_def [of "cross b d"])
qed

lemma cross_cross:
  assumes "norm3 d = 1" "dot b d = 0"
  shows "cross d (cross b d) = b"
proof -
  have "cross d (cross b d) = dot d d *\<^sub>R b - dot b d *\<^sub>R d"
    by (simp add: cross_def dot_def V3D_ops algebra_simps)
  with assms show ?thesis by (simp add: unit_dot)
qed

lemma outer_scale: "outer (c *\<^sub>R v) (c *\<^sub>R v) = (c * c) *\<^sub>R outer v v"
  by (simp add: outer_def V3D_ops scaleR_M3D_def)

lemma outer_basis:
  assumes "norm3 b = 1" "norm3 d = 1" "dot b d = 0"
  shows "outer d d + outer b b + outer (cross b d) (cross b d) = 1"
proof -
  have e: "vx d * vx d + vy d * vy d + vz d * vz d = 1" "vx b * vx b + vy b * vy b + vz b * vz b = 1"
    "vx b * vx d + vy b * vy d + vz b * vz d = 0"
    using assms by (simp_all add: unit_dot flip: dot_def)
  show ?thesis
    unfolding outer_def cross_def M3D_ops V3D.sel M3D.sel M3D.inject
    by (intro conjI) (use e in algebra)+
qed

lemma calcBodyCov_eq:
  assumes "vz p \<noteq> 0"
  shows "calcBodyCov p range_inc degree_inc =
    (p, (range_inc * range_inc) *\<^sub>R outer (normalized p) (normalized p) +
      (sin (DEG2RAD degree_inc) ^ 2 * dot p p) *\<^sub>R (1 - outer (normalized p) (normalized p)))"
proof -
  let ?d = "normalized p"
  define b where "b = normalized (V3D 1 1 (- (vx ?d + vy ?d) / vz ?d))"
  have d: "norm3 ?d = 1" using assms by (intro normalized_unit) (auto simp: zero_V3D_def)
  have "vz ?d \<noteq> 0" using assms by (auto simp: normalized_def V3D_ops norm3_def)
  then have "dot b ?d = 0" unfolding b_def by (intro normalized_perp) (simp add: dot_def)
  moreover have b: "norm3 b = 1" unfolding b_def by (rule normalized_unit) (simp add: zero_V3D_def)
  ultimately have c: "norm3 (cross b ?d) = 1" "cross ?d (cross b ?d) = b"
    "outer ?d ?d + outer b b + outer (cross b ?d) (cross b ?d) = 1"
    using d by (simp_all add: cross_norm cross_cross outer_basis)
  have r: "sqrt (vx p * vx p + vy p * vy p + vz p * vz p) = norm3 p" by (simp add: norm3_def dot_def)
  have "outer (cross ?d b) (cross ?d b) = outer (cross b ?d) (cross b ?d)"
    by (simp add: outer_def cross_def algebra_simps)
  then have "outer (norm3 p *\<^sub>R cross ?d b) (norm3 p *\<^sub>R cross ?d b) + outer (norm3 p *\<^sub>R b) (norm3 p *\<^sub>R b) =
      dot p p *\<^sub>R (outer (cross b ?d) (cross b ?d) + outer b b)"
    by (simp add: outer_scale norm3_square scaleR_add_right)
  also have "outer (cross b ?d) (cross b ?d) + outer b b = 1 - outer ?d ?d"
    using c(3) by (simp add: algebra_simps)
  finally have A: "outer (norm3 p *\<^sub>R cross ?d b) (norm3 p *\<^sub>R cross ?d b) + outer (norm3 p *\<^sub>R b) (norm3 p *\<^sub>R b) =
      dot p p *\<^sub>R (1 - outer ?d ?d)" .
  have pb: "(if vz p = 0 then V3D (vx p) (vy p) (1 / 10000) else p) = p" using assms by simp
  show ?thesis
    unfolding calcBodyCov_def Let_def pb r mv_skew b_def [symmetric] normalized_id [OF c(1)] c(2) A by simp
qed

lemma covariance3_add: "covariance3 A \<Longrightarrow> covariance3 B \<Longrightarrow> covariance3 (A + B)"
proof -
  have "dot v (mv (A + B) v) = dot v (mv A v) + dot v (mv B v)" for v
    by (simp add: dot_def mv_def M3D_ops algebra_simps)
  then show "covariance3 A \<Longrightarrow> covariance3 B \<Longrightarrow> covariance3 (A + B)" by (simp add: covariance3_def trp_add)
qed

lemma covariance3_outer: "covariance3 (outer d d)"
proof -
  have "dot v (mv (outer d d) v) = dot d v * dot d v" for v
    by (simp add: dot_def mv_def outer_def algebra_simps)
  then show ?thesis by (simp add: covariance3_def trp_def outer_def)
qed

lemma covariance3_across:
  assumes "norm3 d = 1"
  shows "covariance3 (1 - outer d d)"
proof -
  have "dot v (mv (1 - outer d d) v) = dot (v - dot d v *\<^sub>R d) (v - dot d v *\<^sub>R d) + (1 - dot d d) * (dot d v * dot d v)" for v
    by (simp add: dot_def mv_def outer_def M3D_ops V3D_ops algebra_simps)
  then show ?thesis
    using unit_dot [OF assms] dot_self by (simp add: covariance3_def trp_def outer_def M3D_ops)
qed

lemma calcBodyCov_form:
  assumes "vz p \<noteq> 0"
  shows "snd (calcBodyCov p range_inc degree_inc) =
      (range_inc\<^sup>2) *\<^sub>R outer (normalized p) (normalized p) +
      (norm3 p * sin (DEG2RAD degree_inc))\<^sup>2 *\<^sub>R (1 - outer (normalized p) (normalized p)) \<and>
    covariance3 (snd (calcBodyCov p range_inc degree_inc))"
proof -
  have "norm3 (normalized p) = 1" using assms by (intro normalized_unit) (auto simp: zero_V3D_def)
  then have "covariance3 ((range_inc * range_inc) *\<^sub>R outer (normalized p) (normalized p) +
      (sin (DEG2RAD degree_inc) ^ 2 * dot p p) *\<^sub>R (1 - outer (normalized p) (normalized p)))"
    by (intro covariance3_add covariance3_scaleR covariance3_outer covariance3_across) (simp_all add: dot_self)
  moreover have "sin (DEG2RAD degree_inc) ^ 2 * dot p p = (norm3 p * sin (DEG2RAD degree_inc))\<^sup>2"
    by (simp add: power_mult_distrib power2_eq_square norm3_square flip: mult.assoc)
  ultimately show ?thesis by (simp add: calcBodyCov_eq [OF assms] power2_eq_square)
qed

text \<open>
  C15. The covariance of a point of the lidar is, along the beam, the square of the range error and,
  in every direction across it, the square of the distance times the sine of the angle error: the
  base vectors that \<open>calcBodyCov\<close> picks leave no trace. It is a covariance matrix.
\<close>

theorem point_covariance:
  assumes "vz p \<noteq> 0"
  shows "snd (calcBodyCov p range_inc degree_inc) =
      (range_inc\<^sup>2) *\<^sub>R outer (normalized p) (normalized p) +
      (norm3 p * sin (DEG2RAD degree_inc))\<^sup>2 *\<^sub>R (1 - outer (normalized p) (normalized p)) \<and>
    covariance3 (snd (calcBodyCov p range_inc degree_inc))"
  using calcBodyCov_form [OF assms] by blast

lemma calcBodyCov_covariance: "vz p \<noteq> 0 \<Longrightarrow> covariance3 (snd (calcBodyCov p a b))"
  using calcBodyCov_form by blast

lemma body_point_covariance: "body_point c p = (q, var, cm) \<Longrightarrow> covariance3 var"
proof -
  let ?p = "if vz p = 0 then V3D (vx p) (vy p) (1 / 1000) else p"
  assume "body_point c p = (q, var, cm)"
  then have "var = snd (calcBodyCov ?p (dept_err c) (beam_err c))"
    by (auto simp: body_point_def Let_def split: prod.splits)
  moreover have "vz ?p \<noteq> 0" by simp
  ultimately show ?thesis using calcBodyCov_covariance by blast
qed

section \<open>The weight of a measurement\<close>

definition ptpl_ok :: "PointToPlane \<Rightarrow> bool" where
  "ptpl_ok q \<longleftrightarrow> covariance3 (ptpl_body_cov q) \<and> covariance 6 (ptpl_plane_var q)"

lemma R_inv_bounds:
  assumes "ptpl_ok q"
  shows "0 < R_inv c pro q \<and> R_inv c pro q \<le> 1000"
proof -
  let ?R = "rot_end pro * extR c"
  let ?J = "\<lambda>k. if k < 3 then vec_entry (mv (rot_end pro) (mv (extR c) (ptpl_point_b q) + extT c) + pos_end pro - ptpl_center q) k
    else vec_entry (- ptpl_normal q) (k - 3)"
  have "0 \<le> quadratic 6 ?J (ptpl_plane_var q)" using assms by (simp add: ptpl_ok_def covariance_def)
  moreover have "0 \<le> dot (ptpl_normal q) (mv (?R * ptpl_body_cov q * trp ?R) (ptpl_normal q))"
    using covariance3_congruence [of "ptpl_body_cov q" ?R] assms by (simp add: ptpl_ok_def covariance3_def)
  ultimately show ?thesis unfolding R_inv_def Let_def by (simp add: field_simps)
qed

section \<open>One update\<close>

text \<open>The row of a measurement over the whole state.\<close>

definition state_row :: "ekf_config \<Rightarrow> StatesGroup \<Rightarrow> PointToPlane \<Rightarrow> vec" where
  "state_row c st q k = (if k < 6 then Hsub_row c st q k else 0)"

lemma sum_below: "(\<Sum>k<6. f k) = (\<Sum>k<DIM_STATE. if k < 6 then f k else (0 :: real))"
  by (rule sum.mono_neutral_cong_left) (auto simp: DIM_STATE_def)

lemma H_T_H_eq: "H_T_H c pro st qs i j = (\<Sum>q \<leftarrow> qs. R_inv c pro q * state_row c st q i * state_row c st q j)"
  by (cases "i < 6"; cases "j < 6") (simp_all add: H_T_H_def state_row_def mult.commute)

lemma gain_G_eq: "gain_G K (H_T_H c pro st qs) i j = mat_mult DIM_STATE K (H_T_H c pro st qs) i j"
  by (auto simp: gain_G_def mat_mult_def sum_below H_T_H_def intro!: sum.cong)

interpretation lio: kalman "\<lambda>(c, pro, st). R_inv c pro" "\<lambda>(c, pro, st). state_row c st" "\<lambda>(c, pro, st). H_T_H c pro st" ptpl_ok
  by unfold_locales (use R_inv_bounds in \<open>auto simp: H_T_H_eq less_imp_le\<close>)

lemma updated_cov_eq:
  "updated_cov minv (H_T_H c pro st qs) P i j =
    mat_mult DIM_STATE (mat_minus mat_id (mat_mult DIM_STATE (K_1 minv (H_T_H c pro st qs) P) (H_T_H c pro st qs))) P i j"
  by (simp add: updated_cov_def mat_mult_def [of _ "mat_minus _ _"] mat_minus_def gain_G_eq)

lemmas scan_posterior = lio.posterior [of _ _ _ _ "(c, pro, st)" for c pro st, unfolded split, OF _ _ _ updated_cov_eq]

lemma ekf_solution_eq:
  assumes "i < DIM_STATE"
  shows "ekf_solution K (H_T_H c pro st qs) z d i =
    mat_vec DIM_STATE K (\<lambda>k. if k < 6 then z k else 0) i + d i - mat_vec DIM_STATE K (mat_vec DIM_STATE (H_T_H c pro st qs) d) i"
proof -
  have "(\<Sum>k<6. gain_G K (H_T_H c pro st qs) i k * d k) = mat_vec DIM_STATE (gain_G K (H_T_H c pro st qs)) d i"
    unfolding sum_below mat_vec_def by (rule sum.cong) (simp_all add: gain_G_def)
  also have "\<dots> = mat_vec DIM_STATE K (mat_vec DIM_STATE (H_T_H c pro st qs) d) i"
    unfolding mat_mult_vec [symmetric] by (rule mat_vec_cong) (simp_all add: gain_G_eq)
  finally show ?thesis
    by (simp add: ekf_solution_def sum_below mat_vec_def if_distrib [of "\<lambda>x. _ * x"] cong: if_cong)
qed

text \<open>
  C5. The increment of one pass of \<open>StateEstimation\<close> is the least squares solution: no other
  increment makes the sum of the weighted squares of the linearised distances to the matched planes
  and of the distance from the propagated state, weighted with the inverse of the covariance,
  smaller. Asked is that the covariance is one and has an inverse, and that the library's inverse is
  an inverse where there is one; that the matrix that is inverted in each pass has one follows.
\<close>

theorem increment_least:
  assumes "inverts minv" "regular P" "\<forall>q \<in> set qs. ptpl_ok q"
  shows "squares DIM_STATE (R_inv c pro) (state_row c st) (\<lambda>q. - ptpl_dis q) qs (minv P) d
      (ekf_solution (K_1 minv (H_T_H c pro st qs) P) (H_T_H c pro st qs) (HTz c pro st qs) d) \<le>
    squares DIM_STATE (R_inv c pro) (state_row c st) (\<lambda>q. - ptpl_dis q) qs (minv P) d x"
proof -
  have "mat_vec DIM_STATE K (\<lambda>k. if k < 6 then HTz c pro st qs k else 0) i =
      mat_vec DIM_STATE K (\<lambda>i. \<Sum>q \<leftarrow> qs. R_inv c pro q * state_row c st q i * - ptpl_dis q) i" for K i
    by (rule mat_vec_cong) (simp_all add: HTz_def state_row_def mult.commute mult.left_commute cong: map_cong)
  then show ?thesis
    by (intro lio.solution_least [of _ _ _ _ "(c, pro, st)", unfolded split, OF assms]) (simp add: ekf_solution_eq)
qed

text \<open>
  C7. The covariance that is stored after the last pass, \<open>(I - G) P\<close>, is the inverse of the sum of
  the information of the measurements and of the inverse of the old one. It is symmetric with no
  negative quadratic form, has an inverse again, and in no direction is it greater than before.
\<close>

theorem posterior_covariance:
  assumes "inverts minv" "regular P" "\<forall>q \<in> set qs. ptpl_ok q"
  shows "inverse_of DIM_STATE (mat_add (H_T_H c pro st qs) (minv P)) (updated_cov minv (H_T_H c pro st qs) P) \<and>
    regular (updated_cov minv (H_T_H c pro st qs) P) \<and>
    (\<forall>v. quadratic DIM_STATE v (updated_cov minv (H_T_H c pro st qs) P) \<le> quadratic DIM_STATE v P)"
  using scan_posterior [OF assms] by blast

section \<open>The iteration\<close>

definition planes_ok :: "(pointWithVar \<Rightarrow> residual option) \<Rightarrow> bool" where
  "planes_ok match \<longleftrightarrow> (\<forall>pv r. match pv = Some r \<longrightarrow> covariance 6 (pl_var (res_plane r)))"

definition bodies_ok :: "(V3D \<times> M3D \<times> M3D) list \<Rightarrow> bool" where
  "bodies_ok bs \<longleftrightarrow> (\<forall>(p, body_cov, crossmat) \<in> set bs. covariance3 body_cov)"

lemma ptpl_list_ok: "planes_ok match \<Longrightarrow> bodies_ok bs \<Longrightarrow> \<forall>q \<in> set (ptpl_list match c st bs). ptpl_ok q"
  by (fastforce simp: ptpl_list_def List.map_filter_def planes_ok_def bodies_ok_def ptpl_ok_def PointToPlane_of_def)

text \<open>The matches are the residuals of \<open>BuildResidualListOMP\<close>, each with its point.\<close>

lemma ptpl_list_residuals:
  "map ptpl_dis (ptpl_list (point_residual sigma_num t voxel_size m) c st bs) =
    map res_dis_to_plane (BuildResidualListOMP sigma_num t voxel_size m (map (world_point c st) bs))"
proof (induction bs)
  case (Cons b bs)
  then show ?case
    by (cases "point_residual sigma_num t voxel_size m (world_point c st b)")
      (simp_all add: ptpl_list_def BuildResidualListOMP_def List.map_filter_def PointToPlane_of_def split_beta)
qed (simp add: ptpl_list_def BuildResidualListOMP_def List.map_filter_def)

lemma body_points_ok: "bodies_ok (map (body_point c) ps)"
proof -
  have "covariance3 (fst (snd (body_point c p)))" for p
    using body_point_covariance by (cases "body_point c p") force
  then show ?thesis by (auto simp: bodies_ok_def split_beta)
qed

lemma state_plus_rotation: "rotation (rot_end st) \<Longrightarrow> rotation (rot_end (state_plus st d)) \<and> cov (state_plus st d) = cov st"
  by (simp add: state_plus_def rotation_mult Exp_xyz_rotation)

lemma ekf_loop_ends:
  assumes "inverts minv" "planes_ok match" "bodies_ok bs" "rotation (rot_end st)" "regular (cov st)"
    and "int n = max_iterations c - iterCount" "0 < n"
    and "ekf_loop minv match c bs pro n iterCount rematch_num (st, l) = (st', l')"
  shows "rotation (rot_end st') \<and> l' = pos_end st' \<and>
    (\<exists>st1. cov st' = updated_cov minv (H_T_H c pro st1 (ptpl_list match c st1 bs)) (cov st))"
  using assms(4-)
proof (induction n arbitrary: iterCount rematch_num st l)
  case (Suc n)
  define qs where "qs = ptpl_list match c st bs"
  define K where "K = K_1 minv (H_T_H c pro st qs) (cov st)"
  define d where "d = ekf_solution K (H_T_H c pro st qs) (HTz c pro st qs) (state_minus pro st)"
  define rm where "rm = (if norm3 (block_at d 0) * (573 / 10) < 1 / 100 \<and> norm3 (block_at d 3) * 100 < 15 / 1000 \<or>
      rematch_num = 0 \<and> iterCount = max_iterations c - 2 then rematch_num + 1 else rematch_num)"
  have loop: "ekf_loop minv match c bs pro (Suc n) iterCount rematch_num (st, l) =
    (if rm \<ge> 2 \<or> iterCount = max_iterations c - 1
     then ((state_plus st d)\<lparr>cov := updated_cov minv (H_T_H c pro st qs) (cov st)\<rparr>, pos_end (state_plus st d))
     else ekf_loop minv match c bs pro n (iterCount + 1) rm (state_plus st d, l))"
    using state_plus_rotation [OF Suc.prems(1), of d]
    unfolding ekf_loop.simps Let_def split rm_def d_def K_def qs_def by simp
  show ?case
  proof (cases "rm \<ge> 2 \<or> iterCount = max_iterations c - 1")
    case True
    with loop Suc.prems(5) have "st' = (state_plus st d)\<lparr>cov := updated_cov minv (H_T_H c pro st qs) (cov st)\<rparr>"
      "l' = pos_end (state_plus st d)" by simp_all
    then show ?thesis using state_plus_rotation [OF Suc.prems(1), of d] by (auto simp: qs_def)
  next
    case False
    have step: "rotation (rot_end (state_plus st d))" "cov (state_plus st d) = cov st"
      using state_plus_rotation [OF Suc.prems(1)] by simp_all
    from False Suc.prems(3) have "int n = max_iterations c - (iterCount + 1)" "0 < n" by linarith+
    moreover from False loop Suc.prems(5)
    have "ekf_loop minv match c bs pro n (iterCount + 1) rm (state_plus st d, l) = (st', l')" by simp
    ultimately show ?thesis using Suc.IH [of "state_plus st d" "iterCount + 1" rm l] step Suc.prems(2) by simp
  qed
qed simp

lemma StateEstimation_kept:
  assumes "inverts minv" "planes_ok match" "rotation (rot_end st)" "regular (cov st)"
    and "StateEstimation minv match c ps pro (st, l) = (st', l')"
  shows "rotation (rot_end st') \<and> regular (cov st') \<and>
    (\<forall>v. quadratic DIM_STATE v (cov st') \<le> quadratic DIM_STATE v (cov st)) \<and>
    (if max_iterations c \<le> 0 then st' = st \<and> l' = l
     else l' = pos_end st' \<and>
       (\<exists>st1. cov st' = updated_cov minv (H_T_H c pro st1 (ptpl_list match c st1 (map (body_point c) ps))) (cov st)))"
proof (cases "max_iterations c \<le> 0")
  case True
  then have "st' = st" "l' = l" using assms(5) by (simp_all add: StateEstimation_def)
  with True assms(3,4) show ?thesis by simp
next
  case False
  then have r: "rotation (rot_end st') \<and> l' = pos_end st' \<and>
    (\<exists>st1. cov st' = updated_cov minv (H_T_H c pro st1 (ptpl_list match c st1 (map (body_point c) ps))) (cov st))"
    using assms(5) unfolding StateEstimation_def
    by (intro ekf_loop_ends [OF assms(1,2) body_points_ok assms(3,4)]) auto
  then obtain st1 where st1: "cov st' = updated_cov minv (H_T_H c pro st1 (ptpl_list match c st1 (map (body_point c) ps))) (cov st)"
    by blast
  have "regular (cov st') \<and> (\<forall>v. quadratic DIM_STATE v (cov st') \<le> quadratic DIM_STATE v (cov st))"
    using scan_posterior [OF assms(1,4) ptpl_list_ok [OF assms(2) body_points_ok]] by (simp add: st1)
  with r False show ?thesis by simp
qed

text \<open>
  C12. The update by a scan keeps the attitude a rotation and the covariance a covariance with an
  inverse, and never makes it greater in any direction: over all its passes the covariance is replaced
  once, by that of the last pass, and the position for the sliding of the map is the new one. Nothing
  changes when no pass is allowed. Asked of the map is that the covariances of its planes are such, of
  the library that it inverts.
\<close>

theorem estimation_kept:
  assumes "inverts minv" "planes_ok match" "rotation (rot_end st)" "regular (cov st)"
    and "StateEstimation minv match c ps pro (st, l) = (st', l')"
  shows "rotation (rot_end st') \<and> regular (cov st') \<and>
    (\<forall>v. quadratic DIM_STATE v (cov st') \<le> quadratic DIM_STATE v (cov st)) \<and>
    (if max_iterations c \<le> 0 then st' = st \<and> l' = l
     else l' = pos_end st' \<and>
       (\<exists>st1. cov st' = updated_cov minv (H_T_H c pro st1 (ptpl_list match c st1 (map (body_point c) ps))) (cov st)))"
  using StateEstimation_kept [OF assms] by blast

section \<open>At concrete inputs\<close>

lemma regular_diagonal:
  assumes "\<And>i. 0 < d i"
  shows "regular (\<lambda>i j. if i \<noteq> j then 0 else d i)"
proof -
  let ?D = "\<lambda>d i j. if i \<noteq> j then (0 :: real) else d i"
  have "mat_mult DIM_STATE (?D d) (?D (\<lambda>i. 1 / d i)) i j = mat_id i j" if "i < DIM_STATE" "j < DIM_STATE" for i j
  proof -
    have "(?D d) i k * (?D (\<lambda>i. 1 / d i)) k j = (if k = i then mat_id i j else 0)" for k
      using assms [of i] assms [of j] by (auto simp: mat_id_def)
    then show ?thesis using that by (simp add: mat_mult_def)
  qed
  then have "inverse_of DIM_STATE (?D d) (?D (\<lambda>i. 1 / d i))" by (intro inverse_ofI) simp_all
  moreover have "covariance DIM_STATE (?D d)"
    by (rule covariance_diagonal_entries) (use assms in \<open>simp add: less_imp_le\<close>)
  ultimately show ?thesis by (auto simp: regular_def)
qed

lemma new_StatesGroup_regular: "regular (cov new_StatesGroup)"
proof -
  have "cov new_StatesGroup = (\<lambda>i j. if i \<noteq> j then 0 else if i = 6 \<or> 10 \<le> i then 1 / 100000 else 1 / 100)"
    by (simp add: new_StatesGroup_def)
  then show ?thesis using regular_diagonal [of "\<lambda>i. if i = 6 \<or> 10 \<le> i then 1 / 100000 else 1 / 100"] by simp
qed

definition ex_ekf :: ekf_config where
  "ex_ekf = \<lparr>extR = 1, extT = 0, dept_err = 1 / 50, beam_err = 1 / 20, max_iterations = 5\<rparr>"

definition ex_residual :: residual where
  "ex_residual = \<lparr>res_plane = new_VoxelPlane\<lparr>pl_normal := (\<lambda>i. if i = 2 then 1 else 0)\<rparr>, res_layer = 0, res_dis_to_plane = 1 / 10\<rparr>"

definition ex_matched :: "PointToPlane list" where
  "ex_matched = [PointToPlane_of (V3D 1 0 0, 1, 0) ex_residual]"

lemma ex_matched_ok: "\<forall>q \<in> set ex_matched. ptpl_ok q"
proof -
  have "covariance 6 (\<lambda>_ _. 0)" by (simp add: covariance_def quadratic_def)
  moreover have "covariance3 1" by (simp add: covariance3_def dot_self)
  ultimately show ?thesis
    by (simp add: ex_matched_def ptpl_ok_def PointToPlane_of_def ex_residual_def new_VoxelPlane_def)
qed

lemma ex_planes_ok: "planes_ok (\<lambda>pv. Some ex_residual)"
  by (simp add: planes_ok_def ex_residual_def new_VoxelPlane_def covariance_def quadratic_def)

theorem point_covariance_witness:
  "snd (calcBodyCov (V3D 3 0 4) (1 / 50) (1 / 20)) =
    (1 / 50)\<^sup>2 *\<^sub>R outer (normalized (V3D 3 0 4)) (normalized (V3D 3 0 4)) +
    (5 * sin (DEG2RAD (1 / 20)))\<^sup>2 *\<^sub>R (1 - outer (normalized (V3D 3 0 4)) (normalized (V3D 3 0 4)))"
proof -
  have "sqrt 25 = (5 :: real)" by (rule real_sqrt_unique) simp_all
  then have n: "norm3 (V3D 3 0 4) = 5" by (simp add: norm3_def dot_def)
  have "vz (V3D 3 0 4) \<noteq> 0" by simp
  from point_covariance [OF this, of "1 / 50" "1 / 20"] show ?thesis unfolding n by (rule conjunct1)
qed

theorem increment_least_witness:
  "let st = new_StatesGroup; H = H_T_H ex_ekf st st ex_matched; minv = border DIM_STATE; P = cov st
   in squares DIM_STATE (R_inv ex_ekf st) (state_row ex_ekf st) (\<lambda>q. - ptpl_dis q) ex_matched (minv P) (\<lambda>_. 0)
        (ekf_solution (K_1 minv H P) H (HTz ex_ekf st st ex_matched) (\<lambda>_. 0)) \<le>
      squares DIM_STATE (R_inv ex_ekf st) (state_row ex_ekf st) (\<lambda>q. - ptpl_dis q) ex_matched (minv P) (\<lambda>_. 0)
        (\<lambda>k. if k = 5 then - 1 / 10 else 0)"
  unfolding Let_def by (rule increment_least [OF border_inverts new_StatesGroup_regular ex_matched_ok])

theorem posterior_covariance_witness:
  "regular (updated_cov (border DIM_STATE) (H_T_H ex_ekf new_StatesGroup new_StatesGroup ex_matched) (cov new_StatesGroup))"
  using posterior_covariance [OF border_inverts new_StatesGroup_regular ex_matched_ok] by blast

theorem estimation_kept_witness:
  "\<exists>st l. StateEstimation (border DIM_STATE) (\<lambda>pv. Some ex_residual) ex_ekf [V3D 1 0 0, V3D 0 1 0] new_StatesGroup
      (new_StatesGroup, 0) = (st, l) \<and> rotation (rot_end st) \<and> regular (cov st) \<and> l = pos_end st"
proof -
  obtain st l where r: "StateEstimation (border DIM_STATE) (\<lambda>pv. Some ex_residual) ex_ekf [V3D 1 0 0, V3D 0 1 0]
      new_StatesGroup (new_StatesGroup, 0) = (st, l)" by fastforce
  have "rotation (rot_end new_StatesGroup)" by (simp add: new_StatesGroup_def)
  from estimation_kept [OF border_inverts ex_planes_ok this new_StatesGroup_regular r] r show ?thesis
    by (auto simp: ex_ekf_def)
qed

end
