(* ===== verification/Plane_Var.thy ===== *)
theory Plane_Var
  imports Ekf_Props Voxel_Props
begin

text \<open>
  The variances in the voxel map. A plane that \<open>init_plane\<close> fits gets the covariance matrix that its
  points induce; every operation on the map keeps the variances of all points and planes in it
  covariance matrices, which is what the update of the filter asks of the planes it matches.
\<close>

section \<open>The variance of a plane\<close>

lemma three_terms: "(\<Sum>i<3. f i) = f 0 + f 1 + f (2 :: nat)" for f :: "nat \<Rightarrow> real"
  by (simp add: eval_nat_numeral)

lemma quadratic_sandwich:
  fixes J V :: mat
  shows "quadratic n v (\<lambda>r s. \<Sum>k<m. \<Sum>l<m. J r k * V k l * J s l) = quadratic m (\<lambda>k. \<Sum>r<n. v r * J r k) V"
proof -
  have "quadratic n v (\<lambda>r s. \<Sum>k<m. \<Sum>l<m. J r k * V k l * J s l) =
      (\<Sum>r<n. \<Sum>s<n. \<Sum>k<m. \<Sum>l<m. v r * J r k * V k l * (v s * J s l))"
    by (simp add: quadratic_def sum_distrib_left sum_distrib_right mult.assoc mult.commute mult.left_commute)
  also have "\<dots> = (\<Sum>r<n. \<Sum>k<m. \<Sum>s<n. \<Sum>l<m. v r * J r k * V k l * (v s * J s l))"
    by (intro sum.cong refl sum.swap)
  also have "\<dots> = (\<Sum>k<m. \<Sum>r<n. \<Sum>s<n. \<Sum>l<m. v r * J r k * V k l * (v s * J s l))"
    by (rule sum.swap)
  also have "\<dots> = (\<Sum>k<m. \<Sum>r<n. \<Sum>l<m. \<Sum>s<n. v r * J r k * V k l * (v s * J s l))"
    by (intro sum.cong refl sum.swap)
  also have "\<dots> = (\<Sum>k<m. \<Sum>l<m. \<Sum>r<n. \<Sum>s<n. v r * J r k * V k l * (v s * J s l))"
    by (intro sum.cong refl sum.swap)
  also have "\<dots> = quadratic m (\<lambda>k. \<Sum>r<n. v r * J r k) V"
    by (simp add: quadratic_def sum_distrib_left sum_distrib_right mult.assoc mult.commute mult.left_commute)
  finally show ?thesis .
qed

lemma covariance_sandwich:
  fixes J V :: mat
  assumes "covariance m V"
  shows "covariance n (\<lambda>r s. \<Sum>k<m. \<Sum>l<m. J r k * V k l * J s l)"
proof -
  have "(\<Sum>k<m. \<Sum>l<m. J r k * V k l * J s l) = (\<Sum>k<m. \<Sum>l<m. J s k * V k l * J r l)" for r s
  proof -
    have "(\<Sum>k<m. \<Sum>l<m. J r k * V k l * J s l) = (\<Sum>l<m. \<Sum>k<m. J r k * V k l * J s l)" by (rule sum.swap)
    also have "\<dots> = (\<Sum>l<m. \<Sum>k<m. J s l * V l k * J r k)"
      using assms by (intro sum.cong refl) (simp add: covariance_def)
    finally show ?thesis .
  qed
  then show ?thesis using assms by (simp add: covariance_def quadratic_sandwich)
qed

lemma covariance_0 [simp]: "covariance n (\<lambda>_ _. 0)"
  by (simp add: covariance_def quadratic_def)

lemma covariance_sum_list:
  "(\<And>x. x \<in> set xs \<Longrightarrow> covariance n (f x)) \<Longrightarrow> covariance n (\<lambda>i j. \<Sum>x \<leftarrow> xs. f x i j)"
proof (induction xs)
  case Nil
  show ?case by simp
next
  case (Cons x xs)
  then have "covariance n (mat_add (f x) (\<lambda>i j. \<Sum>x \<leftarrow> xs. f x i j))" by (intro covariance_add) simp_all
  then show ?case by (simp add: mat_add_def [abs_def])
qed

definition point_ok :: "pointWithVar \<Rightarrow> bool" where "point_ok pv \<longleftrightarrow> covariance 3 (point_var pv)"
definition plane_ok :: "VoxelPlane \<Rightarrow> bool" where "plane_ok pl \<longleftrightarrow> covariance 6 (pl_var pl)"

lemma plane_variance_ok:
  assumes "\<forall>pv \<in> set points. point_ok pv"
  shows "covariance 6 (plane_variance points center ev evec)"
proof -
  have "covariance 6 (\<lambda>r s. sum3 (\<lambda>k. sum3 (\<lambda>l. J r k * point_var pv k l * J s l)))" if "pv \<in> set points" for pv J
    using covariance_sandwich [of 3 "point_var pv" 6 J] assms that by (simp add: point_ok_def sum3_def three_terms)
  then show ?thesis
    using covariance_sum_list [of points 6 "\<lambda>pv r s. let J = plane_J (length points) center ev evec (point_w pv)
      in sum3 (\<lambda>k. sum3 (\<lambda>l. J r k * point_var pv k l * J s l))"]
    by (simp add: plane_variance_def [abs_def] Let_def)
qed

lemma init_plane_ok:
  assumes "\<forall>pv \<in> set points. point_ok pv"
  shows "plane_ok (init_plane eig c points pl)"
  using plane_variance_ok [OF assms] by (simp add: init_plane_def plane_ok_def Let_def split_beta)

section \<open>In a tree\<close>

definition node_ok :: "node \<Rightarrow> bool" where
  "node_ok nd \<longleftrightarrow> plane_ok (plane_ptr nd) \<and> (\<forall>pv \<in> set (temp_points nd). point_ok pv)"

inductive vars_ok :: "VoxelOctoTree \<Rightarrow> bool" where
  "vars_ok (Octo nd ls)" if "node_ok nd" "length ls = 8" "\<forall>t. Some t \<in> set ls \<longrightarrow> vars_ok t"

inductive_simps vars_ok_simps: "vars_ok (Octo nd ls)"

definition all_leaves :: "VoxelOctoTree option list \<Rightarrow> bool" where
  "all_leaves ls \<longleftrightarrow> length ls = 8 \<and> (\<forall>t. Some t \<in> set ls \<longrightarrow> vars_ok t)"

lemma vars_ok_iff: "vars_ok t \<longleftrightarrow> node_ok (the_node t) \<and> all_leaves (leaves t)"
  by (cases t) (simp add: vars_ok_simps all_leaves_def)

lemma node_ok_updates [simp]:
  "node_ok (nd\<lparr>octo_state := s\<rparr>) = node_ok nd" "node_ok (nd\<lparr>new_points := i\<rparr>) = node_ok nd"
  "node_ok (nd\<lparr>init_octo := b\<rparr>) = node_ok nd" "node_ok (nd\<lparr>update_enable := b\<rparr>) = node_ok nd"
  "node_ok nd \<Longrightarrow> node_ok (nd\<lparr>temp_points := []\<rparr>)" "node_ok nd \<Longrightarrow> node_ok (freeze nd)"
  "node_ok nd \<Longrightarrow> node_ok (nd\<lparr>plane_ptr := init_plane eig c (temp_points nd) pl\<rparr>)"
  "node_ok nd \<Longrightarrow> point_ok pv \<Longrightarrow> node_ok (push_point pv nd)"
  by (auto simp: node_ok_def freeze_def push_point_def init_plane_ok)

lemma new_VoxelPlane_ok: "plane_ok new_VoxelPlane"
  by (simp add: plane_ok_def new_VoxelPlane_def)

lemma new_tree_ok: "vars_ok (new_VoxelOctoTree layer thr center quater)"
  by (auto simp: new_VoxelOctoTree_def vars_ok_simps node_ok_def new_VoxelPlane_ok)

lemma all_leaves_update: "all_leaves ls \<Longrightarrow> vars_ok t \<Longrightarrow> all_leaves (ls[k := Some t])"
  by (auto simp: all_leaves_def dest: subsetD [OF set_update_subset_insert])

lemma get_leaf_vars: "get_leaf c nd ls p = Some t \<Longrightarrow> all_leaves ls \<Longrightarrow> vars_ok t"
  using leafnum_less [of nd p] new_tree_ok
  by (auto simp: get_leaf_def new_leaf_def all_leaves_def in_set_conv_nth split: option.splits Option.bind_splits)

lemma place_points_vars:
  "place_points c nd pvs ls = Some ls' \<Longrightarrow> all_leaves ls \<Longrightarrow> \<forall>pv \<in> set pvs. point_ok pv \<Longrightarrow> all_leaves ls'"
proof (induction pvs arbitrary: ls)
  case (Cons pv pvs)
  obtain t where t: "get_leaf c nd ls (point_w pv) = Some t"
    "place_points c nd pvs (ls[leafnum nd (point_w pv) := Some (Octo (push_point pv (the_node t)) (leaves t))]) = Some ls'"
    using Cons.prems(1) by (auto split: Option.bind_splits)
  have "vars_ok (Octo (push_point pv (the_node t)) (leaves t))"
    using get_leaf_vars [OF t(1) Cons.prems(2)] Cons.prems(3) by (simp add: vars_ok_iff)
  with Cons.IH [OF t(2)] Cons.prems(2,3) all_leaves_update show ?case by simp
qed simp

lemma settle_leaf_vars:
  assumes "settle_leaf eig c cut_leaf t = Some (b, t')" "vars_ok t"
    and "\<And>u u'. cut_leaf u = Some u' \<Longrightarrow> vars_ok u \<Longrightarrow> vars_ok u'"
  shows "vars_ok t'"
proof -
  let ?nd = "the_node t"
  let ?pl = "init_plane eig c (temp_points ?nd) (plane_ptr ?nd)"
  have ok: "node_ok ?nd" "all_leaves (leaves t)" using assms(2) by (simp_all add: vars_ok_iff)
  show ?thesis
  proof (cases "exceeds (length (temp_points ?nd)) (size_threshold ?nd) \<and> \<not> is_plane ?pl")
    case True
    let ?u = "Octo (?nd\<lparr>plane_ptr := ?pl, octo_state := 1\<rparr>) (leaves t)"
    obtain u where u: "cut_leaf ?u = Some u" "t' = Octo ((the_node u)\<lparr>init_octo := True, new_points := 0\<rparr>) (leaves u)"
      using assms(1) True by (auto simp: settle_leaf_def Let_def split: Option.bind_splits)
    have "vars_ok ?u" using ok by (simp add: vars_ok_iff)
    with assms(3) [OF u(1)] show ?thesis by (simp add: u(2) vars_ok_iff)
  next
    case False
    with assms(1,2) ok show ?thesis by (auto simp: settle_leaf_def Let_def vars_ok_iff split: if_splits)
  qed
qed

lemma settle_leaves_vars:
  "settle_leaves settle ls = Some (b, ls') \<Longrightarrow> (\<And>t b t'. settle t = Some (b, t') \<Longrightarrow> vars_ok t \<Longrightarrow> vars_ok t') \<Longrightarrow>
    \<forall>t. Some t \<in> set ls \<longrightarrow> vars_ok t \<Longrightarrow> length ls' = length ls \<and> (\<forall>t. Some t \<in> set ls' \<longrightarrow> vars_ok t)"
proof (induction settle ls arbitrary: b ls' rule: settle_leaves.induct)
  case (3 settle t ls)
  obtain x y where r: "settle t = Some x" "settle_leaves settle ls = Some y" "ls' = Some (snd x) # snd y"
    using "3.prems"(1) by (simp add: split_beta bind_eq_Some_conv del: split_paired_Ex) blast
  have "vars_ok (snd x)" using "3.prems"(2) [of t "fst x" "snd x"] "3.prems"(3) r(1) by simp
  moreover have "length (snd y) = length ls \<and> (\<forall>t. Some t \<in> set (snd y) \<longrightarrow> vars_ok t)"
    using "3.IH" [OF r(1) prod.collapse, of "fst y" "snd y"] "3.prems"(2,3) r(2) by simp
  ultimately show ?case using r(3) by auto
qed auto

lemma cut_octo_tree_vars:
  "cut_octo_tree eig c fuel t = Some t' \<Longrightarrow> vars_ok t \<Longrightarrow> vars_ok t'"
proof (induction fuel arbitrary: t t')
  case (Suc fuel)
  show ?case
  proof (cases "node_layer (the_node t) \<ge> max_layer c")
    case False
    obtain ls1 y where y: "place_points c (the_node t) (temp_points (the_node t)) (leaves t) = Some ls1"
      "settle_leaves (settle_leaf eig c (cut_octo_tree eig c fuel)) ls1 = Some y"
      "t' = Octo (if fst y then (the_node t)\<lparr>new_points := 0\<rparr> else the_node t) (snd y)"
      using Suc.prems(1) False by (simp add: Let_def split_beta bind_eq_Some_conv del: split_paired_Ex) blast
    obtain b ls2 where "y = (b, ls2)" by (cases y)
    with y have r: "place_points c (the_node t) (temp_points (the_node t)) (leaves t) = Some ls1"
      "settle_leaves (settle_leaf eig c (cut_octo_tree eig c fuel)) ls1 = Some (b, ls2)"
      "t' = Octo (if b then (the_node t)\<lparr>new_points := 0\<rparr> else the_node t) ls2" by simp_all
    have "node_ok (the_node t)" "all_leaves (leaves t)" using Suc.prems(2) by (simp_all add: vars_ok_iff)
    then have "all_leaves ls1" using place_points_vars [OF r(1)] by (simp add: node_ok_def)
    moreover have "length ls2 = length ls1 \<and> (\<forall>t. Some t \<in> set ls2 \<longrightarrow> vars_ok t)"
    proof (rule settle_leaves_vars [OF r(2)])
      show "vars_ok u'" if "settle_leaf eig c (cut_octo_tree eig c fuel) u = Some (b, u')" "vars_ok u" for u b u'
        using settle_leaf_vars [OF that] Suc.IH by blast
    qed (use \<open>all_leaves ls1\<close> in \<open>simp add: all_leaves_def\<close>)
    ultimately have "all_leaves ls2" by (simp add: all_leaves_def)
    with Suc.prems(2) show ?thesis by (simp add: r(3) vars_ok_iff)
  next
    case True
    then have "t' = Octo ((the_node t)\<lparr>octo_state := 0\<rparr>) (leaves t)" using Suc.prems(1) by (simp add: Let_def)
    with Suc.prems(2) show ?thesis by (simp add: vars_ok_iff)
  qed
qed simp

lemma init_octo_tree_vars:
  assumes "init_octo_tree eig c fuel t = Some t'" "vars_ok t"
  shows "vars_ok t'"
proof -
  let ?nd = "the_node t"
  let ?pl = "init_plane eig c (temp_points ?nd) (plane_ptr ?nd)"
  have ok: "node_ok ?nd" "all_leaves (leaves t)" using assms(2) by (simp_all add: vars_ok_iff)
  show ?thesis
  proof (cases "exceeds (length (temp_points ?nd)) (size_threshold ?nd) \<and> \<not> is_plane ?pl")
    case True
    let ?u = "Octo (?nd\<lparr>plane_ptr := ?pl, octo_state := 1\<rparr>) (leaves t)"
    obtain u where u: "cut_octo_tree eig c fuel ?u = Some u"
      "t' = Octo ((the_node u)\<lparr>init_octo := True, new_points := 0\<rparr>) (leaves u)"
      using assms(1) True by (auto simp: init_octo_tree_def Let_def split: Option.bind_splits)
    have "vars_ok ?u" using ok by (simp add: vars_ok_iff)
    with cut_octo_tree_vars [OF u(1)] show ?thesis by (simp add: u(2) vars_ok_iff)
  next
    case False
    with assms ok show ?thesis by (auto simp: init_octo_tree_def Let_def vars_ok_iff split: if_splits)
  qed
qed

lemma refit_ok: "node_ok nd \<Longrightarrow> point_ok pv \<Longrightarrow> node_ok (refit eig c full pv nd)"
  by (simp add: refit_def Let_def)

lemma UpdateOctoTree_vars:
  "UpdateOctoTree eig c fuel t pv = Some t' \<Longrightarrow> vars_ok t \<Longrightarrow> point_ok pv \<Longrightarrow> vars_ok t'"
proof (induction fuel arbitrary: t t')
  case (Suc fuel)
  let ?nd = "the_node t"
  have ok: "node_ok ?nd" "all_leaves (leaves t)" using Suc.prems(2) by (simp_all add: vars_ok_iff)
  then have push: "vars_ok (Octo (push_point pv ?nd) (leaves t))" using Suc.prems(3) by (simp add: vars_ok_iff)
  have fit: "vars_ok (Octo (refit eig c full pv ?nd) (leaves t))" for full
    using ok Suc.prems(3) by (simp add: vars_ok_iff refit_ok)
  consider (collect) "\<not> init_octo ?nd" | (refit) "init_octo ?nd" "is_plane (plane_ptr ?nd) \<or> \<not> node_layer ?nd < max_layer c"
    | (descend) "init_octo ?nd" "\<not> is_plane (plane_ptr ?nd)" "node_layer ?nd < max_layer c" by blast
  then show ?case
  proof cases
    case collect
    with Suc.prems(1) push init_octo_tree_vars show ?thesis by (auto simp: Let_def split: if_splits)
  next
    case refit
    with Suc.prems(1) ok fit show ?thesis by (auto simp: Let_def vars_ok_iff split: if_splits)
  next
    case descend
    then obtain leaf leaf' where l: "get_leaf c ?nd (leaves t) (point_w pv) = Some leaf"
      "UpdateOctoTree eig c fuel leaf pv = Some leaf'" "t' = Octo ?nd ((leaves t)[leafnum ?nd (point_w pv) := Some leaf'])"
      using Suc.prems(1) by (auto simp: Let_def split: Option.bind_splits)
    have "vars_ok leaf'" using Suc.IH [OF l(2) get_leaf_vars [OF l(1) ok(2)] Suc.prems(3)] .
    with ok show ?thesis by (simp add: l(3) vars_ok_iff all_leaves_update)
  qed
qed simp

section \<open>In the map\<close>

definition map_vars :: "voxel_map \<Rightarrow> bool" where
  "map_vars m \<longleftrightarrow> (\<forall>v t. m v = Some t \<longrightarrow> vars_ok t)"

lemma get_root_vars: "get_root c s m v = Some t \<Longrightarrow> map_vars m \<Longrightarrow> vars_ok t"
  by (auto simp: get_root_def new_root_def map_vars_def new_tree_ok split: option.splits Option.bind_splits)

lemma UpdateVoxelMap_vars:
  "UpdateVoxelMap eig c s points m = Some m' \<Longrightarrow> map_vars m \<Longrightarrow> \<forall>pv \<in> set points. point_ok pv \<Longrightarrow> map_vars m'"
proof (induction points arbitrary: m)
  case (Cons pv points)
  obtain t t' where t: "get_root c s m (voxel_position s (point_w pv)) = Some t"
    "UpdateOctoTree eig c (tree_fuel c) t pv = Some t'"
    "UpdateVoxelMap eig c s points (m(voxel_position s (point_w pv) \<mapsto> t')) = Some m'"
    using Cons.prems(1) by (auto simp: Let_def split: Option.bind_splits)
  have "vars_ok t'" using UpdateOctoTree_vars [OF t(2) get_root_vars [OF t(1) Cons.prems(2)]] Cons.prems(3) by simp
  with Cons.prems show ?case by (intro Cons.IH [OF t(3)]) (auto simp: map_vars_def)
qed simp

lemma collect_points_vars:
  "collect_points c s points m = Some m' \<Longrightarrow> map_vars m \<Longrightarrow> \<forall>pv \<in> set points. point_ok pv \<Longrightarrow> map_vars m'"
proof (induction points arbitrary: m)
  case (Cons pv points)
  obtain t where t: "get_root c s m (voxel_position s (point_w pv)) = Some t"
    "collect_points c s points (m(voxel_position s (point_w pv) \<mapsto> Octo (push_point pv (the_node t)) (leaves t))) = Some m'"
    using Cons.prems(1) by (auto simp: Let_def split: Option.bind_splits)
  have "vars_ok (Octo (push_point pv (the_node t)) (leaves t))"
    using get_root_vars [OF t(1) Cons.prems(2)] Cons.prems(3) by (simp add: vars_ok_iff)
  with Cons.prems show ?case by (intro Cons.IH [OF t(2)]) (auto simp: map_vars_def)
qed simp

lemma BuildVoxelMap_vars:
  assumes "BuildVoxelMap eig c s points m = Some m'" "map_vars m" "\<forall>pv \<in> set points. point_ok pv"
  shows "map_vars m'"
proof -
  obtain m1 where r: "collect_points c s points m = Some m1"
    "m' = (\<lambda>v. Option.bind (m1 v) (init_octo_tree eig c (tree_fuel c)))"
    using assms(1) by (auto simp: BuildVoxelMap_def split: Option.bind_splits if_splits)
  have "vars_ok t'" if "Option.bind (m1 v) (init_octo_tree eig c (tree_fuel c)) = Some t'" for v t'
    using that collect_points_vars [OF r(1) assms(2,3)] init_octo_tree_vars
    by (auto simp: map_vars_def split: Option.bind_splits)
  then show ?thesis by (simp add: r(2) map_vars_def)
qed

lemma mapSliding_vars: "map_vars (the_map s) \<Longrightarrow> map_vars (the_map (mapSliding voxel_size thr half s))"
  by (auto simp: mapSliding_def Let_def map_vars_def clearMemOutOfMap_def)

section \<open>The planes that are matched\<close>

lemma tree_planes_ok: "vars_ok t \<Longrightarrow> (l, pl) \<in> set (tree_planes c t layer) \<Longrightarrow> plane_ok pl"
proof (induction t arbitrary: layer rule: vars_ok.induct)
  case (1 nd ls)
  then show ?case by (fastforce simp: node_ok_def split: if_splits option.splits)
qed

lemma match_all_planes:
  assumes "match_all sigma_num pv pls (ok, prob, single) = (ok', prob', Some r)"
    "\<forall>(l, pl) \<in> set pls. plane_ok pl" "\<And>r. single = Some r \<Longrightarrow> plane_ok (res_plane r)"
  shows "plane_ok (res_plane r)"
  using assms
proof (induction pls arbitrary: ok prob single)
  case (Cons x pls)
  obtain l pl where x: "x = (l, pl)" by (cases x)
  obtain ok1 prob1 single1 where one: "match_plane sigma_num pv l pl (ok, prob, single) = (ok1, prob1, single1)"
    by (metis prod_cases3)
  have "plane_ok pl" using Cons.prems(2) x by simp
  then have "plane_ok (res_plane r)" if "single1 = Some r" for r
    using one Cons.prems(3) that by (auto simp: match_plane_def split: option.splits if_splits)
  moreover have "match_all sigma_num pv pls (ok1, prob1, single1) = (ok', prob', Some r)"
    using Cons.prems(1) x one by (simp add: match_all_def)
  ultimately show ?case using Cons.IH Cons.prems(2) by simp
qed (simp add: match_all_def)

lemma single_residual_planes:
  assumes "build_single_residual sigma_num c pv t 0 (ok, prob, single) = (ok', prob', Some r)" "vars_ok t"
    "\<And>r. single = Some r \<Longrightarrow> plane_ok (res_plane r)"
  shows "plane_ok (res_plane r)"
proof (rule match_all_planes [OF assms(1) [unfolded residual_planes] _ assms(3)])
  show "\<forall>(l, pl) \<in> set (tree_planes c t 0). plane_ok pl" using tree_planes_ok [OF assms(2)] by blast
qed

lemma point_residual_planes:
  assumes "map_vars m" "point_residual sigma_num c s m pv = Some r"
  shows "plane_ok (res_plane r)"
proof -
  obtain t where t: "m (voxel_position s (point_w pv)) = Some t"
    using assms(2) by (cases "m (voxel_position s (point_w pv))") (simp_all add: point_residual_def)
  then have vt: "vars_ok t" using assms(1) by (simp add: map_vars_def)
  obtain ok prob single where one: "build_single_residual sigma_num c pv t 0 (False, 0, None) = (ok, prob, single)"
    by (metis prod_cases3)
  have single: "plane_ok (res_plane r)" if "single = Some r" for r
    by (rule single_residual_planes [of sigma_num c pv t False 0 None ok prob r]) (use one that vt in simp_all)
  let ?near = "m (near_position s (the_node t) (point_w pv))"
  show ?thesis
  proof (cases "ok \<or> ?near = None")
    case True
    then have "single = Some r" using assms(2) t one by (auto simp: point_residual_def split: if_splits)
    then show ?thesis by (rule single)
  next
    case False
    then obtain t' where t': "?near = Some t'" by blast
    obtain ok' prob' single' where two: "build_single_residual sigma_num c pv t' 0 (ok, prob, single) = (ok', prob', single')"
      by (metis prod_cases3)
    have "single' = Some r" using assms(2) t one False t' two by (simp add: point_residual_def split: if_splits)
    with two have two: "build_single_residual sigma_num c pv t' 0 (ok, prob, single) = (ok', prob', Some r)" by simp
    show ?thesis
      by (rule single_residual_planes [OF two]) (use assms(1) t' single in \<open>auto simp: map_vars_def\<close>)
  qed
qed

lemma map_planes_ok: "map_vars m \<Longrightarrow> planes_ok (point_residual sigma_num c s m)"
  using point_residual_planes by (simp add: planes_ok_def plane_ok_def)

end
