(* ===== verification/Camera.thy ===== *)
theory Camera
  imports Ekf "HOL-Library.Signed_Division"
begin

text \<open>
  The camera of the odometry node: \<open>PinholeCamera\<close> of
  \<open>src/src/rpg_vikit/vikit_common/src/pinhole_camera.cpp\<close>, the poses of frames, and the helpers of
  \<open>VIOManager\<close> in \<open>src/src/fast_livo2/src/vio.cpp\<close> that read patches of images, warp them and compare
  them. An image is the list of its pixels, row by row; a read outside it is \<open>None\<close>. Numbers are real
  numbers. The inversion of the distortion (OpenCV) and the inverse of a 2 by 2 matrix (Eigen, \<open>None\<close>
  where it is not a number) are parameters.
\<close>

section \<open>The camera\<close>

type_synonym V2D = "real \<times> real"

text \<open>Lengths in the image, and the coefficients of the distortion.\<close>

type_synonym pixels = real
type_synonym coefficient = real

record PinholeCamera =
  cam_width :: int
  cam_height :: int
  cam_fx :: real
  cam_fy :: real
  cam_cx :: real
  cam_cy :: real
  distortion :: bool
  dist0 :: real
  dist1 :: real
  dist2 :: real
  dist3 :: real
  dist4 :: real

definition new_PinholeCamera :: "pixels \<Rightarrow> pixels \<Rightarrow> real \<Rightarrow> pixels \<Rightarrow> pixels \<Rightarrow> pixels \<Rightarrow> pixels \<Rightarrow>
    coefficient \<Rightarrow> coefficient \<Rightarrow> coefficient \<Rightarrow> coefficient \<Rightarrow> coefficient \<Rightarrow> PinholeCamera" where
  "new_PinholeCamera width height scale fx fy cx cy d0 d1 d2 d3 d4 =
    \<lparr>cam_width = trunc_int (width * scale), cam_height = trunc_int (height * scale),
     cam_fx = fx * scale, cam_fy = fy * scale, cam_cx = cx * scale, cam_cy = cy * scale,
     distortion = (\<bar>d0\<bar> > 1 / 10000000), dist0 = d0, dist1 = d1, dist2 = d2, dist3 = d3, dist4 = d4\<rparr>"

definition project2d :: "V3D \<Rightarrow> V2D" where
  "project2d p = (vx p / vz p, vy p / vz p)"

fun uv2cam :: "PinholeCamera \<Rightarrow> V2D \<Rightarrow> V2D" where
  "uv2cam c (x, y) =
    (if \<not> distortion c then (cam_fx c * x + cam_cx c, cam_fy c * y + cam_cy c)
     else
       let r2 = x * x + y * y; r4 = r2 * r2; r6 = r4 * r2;
         a1 = 2 * x * y; a2 = r2 + 2 * x * x; a3 = r2 + 2 * y * y;
         cdist = 1 + dist0 c * r2 + dist1 c * r4 + dist4 c * r6;
         xd = x * cdist + dist2 c * a1 + dist3 c * a2;
         yd = y * cdist + dist2 c * a3 + dist3 c * a1
       in (xd * cam_fx c + cam_cx c, yd * cam_fy c + cam_cy c))"

definition world2cam :: "PinholeCamera \<Rightarrow> V3D \<Rightarrow> V2D" where
  "world2cam c p = uv2cam c (project2d p)"

fun cam2world :: "(V2D \<Rightarrow> V2D) \<Rightarrow> PinholeCamera \<Rightarrow> V2D \<Rightarrow> V3D" where
  "cam2world undistortPoints c (u, v) = normalized
    (if \<not> distortion c then V3D ((u - cam_cx c) / cam_fx c) ((v - cam_cy c) / cam_fy c) 1
     else case undistortPoints (u, v) of (x, y) \<Rightarrow> V3D x y 1)"

definition isInFrame :: "PinholeCamera \<Rightarrow> V2D \<Rightarrow> int \<Rightarrow> bool" where
  "isInFrame c px boundary \<longleftrightarrow>
    (let u = trunc_int (fst px); v = trunc_int (snd px)
     in boundary \<le> u \<and> u < cam_width c - boundary \<and> boundary \<le> v \<and> v < cam_height c - boundary)"

section \<open>Poses\<close>

record SE3 =
  se3_rot :: M3D
  se3_tra :: V3D

definition se3_act :: "SE3 \<Rightarrow> V3D \<Rightarrow> V3D" where "se3_act T p = mv (se3_rot T) p + se3_tra T"
definition se3_inverse :: "SE3 \<Rightarrow> SE3" where
  "se3_inverse T = \<lparr>se3_rot = trp (se3_rot T), se3_tra = - mv (trp (se3_rot T)) (se3_tra T)\<rparr>"
definition se3_pos :: "SE3 \<Rightarrow> V3D" where "se3_pos T = se3_tra (se3_inverse T)"

section \<open>The manager\<close>

record VIOManager =
  vfx :: real
  vfy :: real
  vwidth :: int
  vheight :: int
  Rli :: M3D
  Pli :: V3D
  Rcl :: M3D
  Pcl :: V3D
  Rci :: M3D
  Pci :: V3D
  Jdphi_dR :: M3D
  Jdp_dR :: M3D
  grid_size :: int
  grid_n_width :: int
  grid_n_height :: int
  grid_length :: int
  patch_pyrimid_level :: nat
  patch_size :: int
  patch_size_half :: int
  vborder :: int
  img_point_cov :: real
  vio_max_iterations :: nat
  inverse_composition_en :: bool
  vio_exposure_en :: bool

text \<open>
  The extrinsics, and what \<open>initializeVIO\<close> computes from them, the camera and the settings; the rays for the ray casting are left
  out. The divisions of integers cut off before \<open>ceil\<close> sees them; \<open>None\<close> is a division by zero.
\<close>

definition grid_of :: "int \<Rightarrow> int \<Rightarrow> int \<Rightarrow> int \<Rightarrow> (int \<times> int \<times> int) option" where
  "grid_of width height gsize n_height =
    (if gsize > 10 then Some (gsize, width sdiv gsize, height sdiv gsize)
     else if n_height = 0 \<or> height sdiv n_height = 0 then None
     else let gsize = height sdiv n_height in Some (gsize, width sdiv gsize, height sdiv gsize))"

definition setImuToLidarExtrinsic :: "V3D \<Rightarrow> M3D \<Rightarrow> VIOManager \<Rightarrow> VIOManager" where
  "setImuToLidarExtrinsic transl rot v = v\<lparr>Pli := mv (- trp rot) transl, Rli := trp rot\<rparr>"

definition setLidarToCameraExtrinsic :: "M3D \<Rightarrow> V3D \<Rightarrow> VIOManager \<Rightarrow> VIOManager" where
  "setLidarToCameraExtrinsic R P v = v\<lparr>Rcl := R, Pcl := P\<rparr>"

definition initializeVIO :: "PinholeCamera \<Rightarrow> VIOManager \<Rightarrow> VIOManager option" where
  "initializeVIO cam v = do {
    let R = Rcl v * Rli v;
    let P = mv (Rcl v) (Pli v) + Pcl v;
    let Pic = mv (- trp R) P;
    (gsize, nw, nh) \<leftarrow> grid_of (cam_width cam) (cam_height cam) (grid_size v) (grid_n_height v);
    let half = patch_size v sdiv 2;
    Some (v\<lparr>vfx := cam_fx cam, vfy := cam_fy cam, vwidth := cam_width cam, vheight := cam_height cam,
      Rci := R, Pci := P, Jdphi_dR := R, Jdp_dR := - R * skew Pic,
      grid_size := gsize, grid_n_width := nw, grid_n_height := nh, grid_length := nw * nh,
      patch_size_half := half, vborder := (half + 1) * 2 ^ patch_pyrimid_level v\<rparr>)
  }"

text \<open>The cell of a pixel in the grid, as it is computed for points of the scan and of the map.\<close>

definition grid_index :: "VIOManager \<Rightarrow> V2D \<Rightarrow> int" where
  "grid_index v pc = trunc_int (snd pc / real_of_int (grid_size v)) * grid_n_width v +
    trunc_int (fst pc / real_of_int (grid_size v))"

definition computeProjectionJacobian :: "VIOManager \<Rightarrow> V3D \<Rightarrow> V3D \<times> V3D" where
  "computeProjectionJacobian v p =
    (let z_inv = 1 / vz p; z_inv_2 = z_inv * z_inv
     in (V3D (vfx v * z_inv) 0 (- vfx v * vx p * z_inv_2), V3D 0 (vfy v * z_inv) (- vfy v * vy p * z_inv_2)))"

section \<open>Patches\<close>

definition pixel :: "nat list \<Rightarrow> int \<Rightarrow> real option" where
  "pixel pic i = map_option real (nth_of pic i)"

record subpix =
  sub_u :: int
  sub_v :: int
  w_tl :: real
  w_tr :: real
  w_bl :: real
  w_br :: real

definition subpix_at :: "int \<Rightarrow> V2D \<Rightarrow> subpix" where
  "subpix_at scale pc =
    (let u = \<lfloor>fst pc / real_of_int scale\<rfloor> * scale; v = \<lfloor>snd pc / real_of_int scale\<rfloor> * scale;
         su = (fst pc - real_of_int u) / real_of_int scale; sv = (snd pc - real_of_int v) / real_of_int scale
     in \<lparr>sub_u = u, sub_v = v, w_tl = (1 - su) * (1 - sv), w_tr = su * (1 - sv), w_bl = (1 - su) * sv, w_br = su * sv\<rparr>)"

text \<open>\<open>img_ptr\<close> for the cell \<open>x\<close>, \<open>y\<close> of a patch, and the mean of the four pixels around it.\<close>

definition patch_ptr :: "int \<Rightarrow> int \<Rightarrow> int \<Rightarrow> subpix \<Rightarrow> int \<Rightarrow> int \<Rightarrow> int" where
  "patch_ptr width half scale s x y =
    (sub_v s + x * scale - half * scale) * width + sub_u s - half * scale + y * scale"

definition bilinear :: "nat list \<Rightarrow> int \<Rightarrow> int \<Rightarrow> subpix \<Rightarrow> int \<Rightarrow> real option" where
  "bilinear pic width scale s ptr = do {
    a \<leftarrow> pixel pic ptr;
    b \<leftarrow> pixel pic (ptr + scale);
    c \<leftarrow> pixel pic (ptr + scale * width);
    d \<leftarrow> pixel pic (ptr + scale * width + scale);
    Some (w_tl s * a + w_tr s * b + w_bl s * c + w_br s * d)
  }"

definition cells :: "int \<Rightarrow> (int \<times> int) list" where
  "cells n = concat (map (\<lambda>x. map (\<lambda>y. (int x, int y)) [0..<nat n]) [0..<nat n])"

definition getImagePatch :: "VIOManager \<Rightarrow> nat list \<Rightarrow> V2D \<Rightarrow> nat \<Rightarrow> real list option" where
  "getImagePatch v pic pc level =
    (let scale = 2 ^ level; s = subpix_at scale pc
     in those (map (\<lambda>(x, y). bilinear pic (vwidth v) scale s (patch_ptr (vwidth v) (patch_size_half v) scale s x y))
       (cells (patch_size v))))"

section \<open>Warping\<close>

type_synonym M2D = "V2D \<times> V2D"

text \<open>\<open>getWarpMatrixAffine\<close>, its result by columns.\<close>

definition getWarpMatrixAffine :: "(V2D \<Rightarrow> V2D) \<Rightarrow> PinholeCamera \<Rightarrow> V2D \<Rightarrow> V3D \<Rightarrow> real \<Rightarrow> SE3 \<Rightarrow> nat \<Rightarrow> nat \<Rightarrow> int \<Rightarrow> M2D" where
  "getWarpMatrixAffine und cam px_ref f_ref depth_ref T level_ref pyramid_level half =
    (let xyz_ref = depth_ref *\<^sub>R f_ref; step = real_of_int half * 2 ^ level_ref * 2 ^ pyramid_level;
         du = cam2world und cam (fst px_ref + step, snd px_ref); dv = cam2world und cam (fst px_ref, snd px_ref + step);
         du = (vz xyz_ref / vz du) *\<^sub>R du; dv = (vz xyz_ref / vz dv) *\<^sub>R dv;
         px_cur = world2cam cam (se3_act T xyz_ref); px_du = world2cam cam (se3_act T du); px_dv = world2cam cam (se3_act T dv)
     in (((fst px_du - fst px_cur) / real_of_int half, (snd px_du - snd px_cur) / real_of_int half),
         ((fst px_dv - fst px_cur) / real_of_int half, (snd px_dv - snd px_cur) / real_of_int half)))"

definition getWarpMatrixAffineHomography :: "(V2D \<Rightarrow> V2D) \<Rightarrow> PinholeCamera \<Rightarrow> V2D \<Rightarrow> V3D \<Rightarrow> V3D \<Rightarrow> SE3 \<Rightarrow> nat \<Rightarrow> M2D" where
  "getWarpMatrixAffineHomography und cam px_ref xyz_ref normal_ref T level_ref =
    (let t = se3_tra (se3_inverse T);
         H = se3_rot T * (dot normal_ref xyz_ref *\<^sub>R 1 - outer t normal_ref);
         half = 4; step = half * 2 ^ level_ref;
         du = cam2world und cam (fst px_ref + step, snd px_ref); dv = cam2world und cam (fst px_ref, snd px_ref + step);
         px_cur = world2cam cam (mv H xyz_ref); px_du = world2cam cam (mv H du); px_dv = world2cam cam (mv H dv)
     in (((fst px_du - fst px_cur) / half, (snd px_du - snd px_cur) / half),
         ((fst px_dv - fst px_cur) / half, (snd px_dv - snd px_cur) / half)))"

definition det2 :: "M2D \<Rightarrow> real" where "det2 A = fst (fst A) * snd (snd A) - fst (snd A) * snd (fst A)"

definition apply2 :: "M2D \<Rightarrow> V2D \<Rightarrow> V2D" where
  "apply2 A p = (fst (fst A) * fst p + fst (snd A) * snd p, snd (fst A) * fst p + snd (snd A) * snd p)"

text \<open>\<open>vk::interpolateMat_8u\<close>, with the stride of the image.\<close>

definition interpolateMat_8u :: "nat list \<Rightarrow> int \<Rightarrow> V2D \<Rightarrow> real option" where
  "interpolateMat_8u pic stride px = do {
    let x = \<lfloor>fst px\<rfloor>; let y = \<lfloor>snd px\<rfloor>;
    let sx = fst px - real_of_int x; let sy = snd px - real_of_int y;
    let w00 = (1 - sx) * (1 - sy); let w01 = (1 - sx) * sy; let w10 = sx * (1 - sy);
    let w11 = 1 - w00 - w01 - w10;
    let ptr = y * stride + x;
    a \<leftarrow> pixel pic ptr;
    b \<leftarrow> pixel pic (ptr + stride);
    c \<leftarrow> pixel pic (ptr + 1);
    d \<leftarrow> pixel pic (ptr + stride + 1);
    Some (w00 * a + w01 * b + w10 * c + w11 * d)
  }"

text \<open>The part of the patch that one level writes; \<open>None\<close> inside is a patch that is left alone.\<close>

definition warpAffine :: "(M2D \<Rightarrow> M2D option) \<Rightarrow> M2D \<Rightarrow> nat list \<Rightarrow> int \<Rightarrow> int \<Rightarrow> V2D \<Rightarrow> nat \<Rightarrow> nat \<Rightarrow> int \<Rightarrow> real list option option" where
  "warpAffine inverse2 A_cur_ref img_ref cols rows px_ref search_level pyramid_level half =
    (case inverse2 A_cur_ref of
       None \<Rightarrow> Some None
     | Some A_ref_cur \<Rightarrow> map_option Some (those (map (\<lambda>(y, x).
         let s = 2 ^ search_level * 2 ^ pyramid_level;
           p = apply2 A_ref_cur (real_of_int (x - half) * s, real_of_int (y - half) * s);
           px = (fst p + fst px_ref, snd p + snd px_ref)
         in if fst px < 0 \<or> snd px < 0 \<or> fst px \<ge> real_of_int (cols - 1) \<or> snd px \<ge> real_of_int (rows - 1) then Some 0
           else interpolateMat_8u img_ref cols px) (cells (half * 2)))))"

function best_level :: "real \<Rightarrow> int \<Rightarrow> int \<Rightarrow> int" where
  "best_level D search_level max_level =
    (if D > 3 \<and> search_level < max_level then best_level (D / 4) (search_level + 1) max_level else search_level)"
  by pat_completeness auto
termination by (relation "measure (\<lambda>(D, l, m). nat (m - l))") auto

declare best_level.simps [simp del]

definition getBestSearchLevel :: "M2D \<Rightarrow> int \<Rightarrow> int" where
  "getBestSearchLevel A max_level = best_level (det2 A) 0 max_level"

section \<open>Comparing patches\<close>

definition calculateNCC :: "real list \<Rightarrow> real list \<Rightarrow> nat \<Rightarrow> real option" where
  "calculateNCC ref_patch cur_patch n =
    (if length ref_patch < n \<or> length cur_patch < n then None
     else
       let r = take n ref_patch; c = take n cur_patch;
         mean_ref = sum_list r / real n; mean_cur = sum_list c / real n;
         numerator = (\<Sum>(a, b) \<leftarrow> zip r c. (a - mean_ref) * (b - mean_cur));
         demoniator1 = (\<Sum>a \<leftarrow> r. (a - mean_ref) * (a - mean_ref));
         demoniator2 = (\<Sum>b \<leftarrow> c. (b - mean_cur) * (b - mean_cur))
       in Some (numerator / sqrt (demoniator1 * demoniator2 + 1 / 10000000000)))"

section \<open>The places of visual points\<close>

text \<open>Voxels of half a metre: where \<open>insertPointIntoVoxelMap\<close> puts a point, and where it is looked for.\<close>

definition insertPointIntoVoxelMap :: "'p \<Rightarrow> vec \<Rightarrow> (VOXEL_LOCATION \<Rightarrow> 'p list option) \<Rightarrow> VOXEL_LOCATION \<Rightarrow> 'p list option" where
  "insertPointIntoVoxelMap pt pos feat_map =
    (let v = voxel_position (1 / 2) pos
     in feat_map(v \<mapsto> (case feat_map v of Some ps \<Rightarrow> ps @ [pt] | None \<Rightarrow> [pt])))"

definition lookup_loc :: "vec \<Rightarrow> nat \<Rightarrow> int" where
  "lookup_loc p j = (let l = \<lfloor>p j / (1 / 2)\<rfloor> in if l < 0 then l - 1 else l)"

definition lookup_position :: "vec \<Rightarrow> VOXEL_LOCATION" where
  "lookup_position p = \<lparr>loc_x = lookup_loc p 0, loc_y = lookup_loc p 1, loc_z = lookup_loc p 2\<rparr>"

end
