(* ===== verification/Vio.thy ===== *)
theory Vio
  imports Camera
begin

text \<open>
  The update of the state by an image, \<open>VIOManager::computeJacobianAndUpdateEKF\<close> with \<open>updateState\<close> and
  \<open>updateStateInverse\<close> in \<open>src/src/fast_livo2/src/vio.cpp\<close>: the pixels around each visual point are
  compared with the patch of its reference, level by level of the image pyramid. The points with their
  patches, \<open>visual_submap\<close>, are given; none of its pointers is null, for each has been read before.
\<close>

section \<open>The submap\<close>

record visual_entry =
  ve_pos :: V3D
  ve_search_level :: nat
  ve_warp_patch :: "real list"
  ve_inv_expo :: real
  ve_ref_img :: "nat list"
  ve_ref_px :: V2D
  ve_ref_f :: V3D
  ve_ref_T :: SE3

text \<open>The camera's pose for a state; going through a quaternion and back is the library's.\<close>

definition Rcw_of :: "VIOManager \<Rightarrow> StatesGroup \<Rightarrow> M3D" where
  "Rcw_of v st = Rci v * trp (rot_end st)"

definition Pcw_of :: "VIOManager \<Rightarrow> StatesGroup \<Rightarrow> V3D" where
  "Pcw_of v st = mv (- Rci v * trp (rot_end st)) (pos_end st) + Pci v"

definition updateFrameState :: "(M3D \<Rightarrow> M3D) \<Rightarrow> VIOManager \<Rightarrow> StatesGroup \<Rightarrow> SE3" where
  "updateFrameState to_rotation v st = \<lparr>se3_rot = to_rotation (Rcw_of v st), se3_tra = Pcw_of v st\<rparr>"

section \<open>One measurement\<close>

text \<open>The gradient of the image at a cell.\<close>

definition gradient :: "nat list \<Rightarrow> int \<Rightarrow> int \<Rightarrow> subpix \<Rightarrow> int \<Rightarrow> V2D option" where
  "gradient pic width scale s ptr = do {
    right \<leftarrow> bilinear pic width scale s (ptr + scale);
    left \<leftarrow> bilinear pic width scale s (ptr - scale);
    below \<leftarrow> bilinear pic width scale s (ptr + scale * width);
    above \<leftarrow> bilinear pic width scale s (ptr - scale * width);
    Some (1 / 2 * (right - left), 1 / 2 * (below - above))
  }"

text \<open>A row vector times a matrix, and the row of the Jacobian from its blocks.\<close>

definition row_times :: "V3D \<Rightarrow> M3D \<Rightarrow> V3D" where "row_times r M = mv (trp M) r"

definition jacobian_row :: "V3D \<Rightarrow> V3D \<Rightarrow> real \<Rightarrow> vec" where
  "jacobian_row JdR Jdt expo k =
    (if k < 3 then vec_entry JdR k else if k < 6 then vec_entry Jdt (k - 3) else if k = 6 then expo else 0)"

text \<open>The blocks of the row for the attitude and the position, from the row for the point in the camera.\<close>

definition pose_row :: "VIOManager \<Rightarrow> StatesGroup \<Rightarrow> V3D \<Rightarrow> V3D \<Rightarrow> V3D \<times> V3D" where
  "pose_row v st pf Jpix =
    (let Jdphi = row_times Jpix (skew pf); Jdp = - Jpix
     in (row_times Jdphi (Jdphi_dR v) + row_times Jdp (Jdp_dR v), row_times Jdp (Rcw_of v st)))"

text \<open>\<open>updateState\<close>: the row and the residual of the cell \<open>x\<close>, \<open>y\<close> of a point.\<close>

definition cell_measurement :: "VIOManager \<Rightarrow> PinholeCamera \<Rightarrow> nat list \<Rightarrow> nat \<Rightarrow> StatesGroup \<Rightarrow> visual_entry \<Rightarrow>
    int \<times> int \<Rightarrow> (vec \<times> real) option" where
  "cell_measurement v cam pic level st q = (\<lambda>(x, y). do {
    let scale = 2 ^ (level + ve_search_level q);
    let pf = mv (Rcw_of v st) (ve_pos q) + Pcw_of v st;
    let s = subpix_at scale (world2cam cam pf);
    let (Jx, Jy) = computeProjectionJacobian v pf;
    let ptr = patch_ptr (vwidth v) (patch_size_half v) scale s x y;
    (du, dv) \<leftarrow> gradient pic (vwidth v) scale s ptr;
    cur_value \<leftarrow> bilinear pic (vwidth v) scale s ptr;
    ref_value \<leftarrow> nth_of (ve_warp_patch q) (patch_size v * patch_size v * int level + x * patch_size v + y);
    let (JdR, Jdt) = pose_row v st pf ((inv_expo_time st / real_of_int scale) *\<^sub>R (du *\<^sub>R Jx + dv *\<^sub>R Jy));
    Some (jacobian_row JdR Jdt (if vio_exposure_en v then cur_value else 0),
      inv_expo_time st * cur_value - ve_inv_expo q * ref_value)
  })"

text \<open>\<open>updateStateInverse\<close>: the row of the reference, computed once, and the cell of the current image.\<close>

definition reference_row :: "VIOManager \<Rightarrow> nat \<Rightarrow> visual_entry \<Rightarrow> int \<times> int \<Rightarrow> (V3D \<times> V3D) option" where
  "reference_row v level q = (\<lambda>(x, y). do {
    let scale = 2 ^ level;
    let depth = norm3 (ve_pos q - se3_pos (ve_ref_T q));
    let (Jx, Jy) = computeProjectionJacobian v (depth *\<^sub>R ve_ref_f q);
    let s = subpix_at scale (ve_ref_px q);
    (du, dv) \<leftarrow> gradient (ve_ref_img q) (vwidth v) scale s (patch_ptr (vwidth v) (patch_size_half v) scale s x y);
    let J = row_times ((1 / real_of_int scale) *\<^sub>R (du *\<^sub>R Jx + dv *\<^sub>R Jy)) (se3_rot (ve_ref_T q));
    Some (row_times J (skew (ve_pos q)), - J)
  })"

definition cell_measurement_inverse :: "VIOManager \<Rightarrow> PinholeCamera \<Rightarrow> nat list \<Rightarrow> nat \<Rightarrow> StatesGroup \<Rightarrow> visual_entry \<Rightarrow>
    int \<times> int \<Rightarrow> (vec \<times> real) option" where
  "cell_measurement_inverse v cam pic level st q = (\<lambda>(x, y). do {
    (J_dR, J_dt) \<leftarrow> reference_row v level q (x, y);
    let scale = 2 ^ level;
    let pf = mv (Rcw_of v st) (ve_pos q) + Pcw_of v st;
    let s = subpix_at scale (world2cam cam pf);
    cur_value \<leftarrow> bilinear pic (vwidth v) scale s (patch_ptr (vwidth v) (patch_size_half v) scale s x y);
    ref_value \<leftarrow> nth_of (ve_warp_patch q) (patch_size v * patch_size v * int level + x * patch_size v + y);
    let JdR = row_times J_dR (rot_end st) + row_times J_dt (skew (pos_end st) * rot_end st);
    Some (jacobian_row JdR (row_times J_dt (rot_end st)) 0, cur_value - ref_value)
  })"

text \<open>All measurements of one pass, point by point and cell by cell.\<close>

definition measurements :: "(visual_entry \<Rightarrow> int \<times> int \<Rightarrow> (vec \<times> real) option) \<Rightarrow> int \<Rightarrow> visual_entry list \<Rightarrow>
    (vec \<times> real) list option" where
  "measurements cell n submap =
    map_option concat (those (map (\<lambda>q. those (map (cell q) (cells n))) submap))"

section \<open>One update\<close>

definition photo_error :: "(vec \<times> real) list \<Rightarrow> real" where
  "photo_error ms = (\<Sum>(h, res) \<leftarrow> ms. res * res) / real (length ms)"

definition visual_H_T_H :: "nat \<Rightarrow> (vec \<times> real) list \<Rightarrow> mat" where
  "visual_H_T_H n ms i j = (if i < n \<and> j < n then (\<Sum>(h, res) \<leftarrow> ms. h i * h j) else 0)"

definition visual_HTz :: "(vec \<times> real) list \<Rightarrow> vec" where
  "visual_HTz ms i = (\<Sum>(h, res) \<leftarrow> ms. h i * res)"

definition mat_scale :: "real \<Rightarrow> mat \<Rightarrow> mat" where "mat_scale c A i j = c * A i j"

definition visual_K_1 :: "(mat \<Rightarrow> mat) \<Rightarrow> real \<Rightarrow> mat \<Rightarrow> mat \<Rightarrow> mat" where
  "visual_K_1 minv point_cov HTH P = K_1 minv HTH (mat_scale (1 / point_cov) P)"

definition visual_G :: "nat \<Rightarrow> mat \<Rightarrow> mat \<Rightarrow> mat" where
  "visual_G n K HTH i j = (if j < n then (\<Sum>k<n. K i k * HTH k j) else 0)"

definition visual_solution :: "nat \<Rightarrow> mat \<Rightarrow> mat \<Rightarrow> vec \<Rightarrow> vec \<Rightarrow> vec" where
  "visual_solution n K HTH z d i = - (\<Sum>k<n. K i k * z k) + d i - (\<Sum>k<n. visual_G n K HTH i k * d k)"

text \<open>
  The loop of one level. \<open>best\<close> is \<open>old_state\<close> with \<open>last_error\<close>, which starts at the greatest number
  there is and so above any error; the gain \<open>G\<close> is a member and keeps its value from pass to pass.
\<close>

primrec level_loop :: "(StatesGroup \<Rightarrow> (vec \<times> real) list option) \<Rightarrow> (mat \<Rightarrow> mat) \<Rightarrow> nat \<Rightarrow> real \<Rightarrow> StatesGroup \<Rightarrow> nat \<Rightarrow>
    StatesGroup \<times> (StatesGroup \<times> real) option \<times> mat \<Rightarrow> (StatesGroup \<times> (StatesGroup \<times> real) option \<times> mat) option" where
  "level_loop meas minv n point_cov pro 0 s = Some s"
| "level_loop meas minv n point_cov pro (Suc k) s = (case s of (st, best, G) \<Rightarrow> do {
    ms \<leftarrow> meas st;
    let error = photo_error ms;
    if (case best of None \<Rightarrow> True | Some (old, last_error) \<Rightarrow> error \<le> last_error)
    then
      let HTH = visual_H_T_H n ms; K = visual_K_1 minv point_cov HTH (cov st);
        solution = visual_solution n K HTH (visual_HTz ms) (state_minus pro st);
        s' = (state_plus st solution, Some (st, error), visual_G n K HTH)
      in if norm3 (block_at solution 0) * (573 / 10) < 1 / 1000 \<and> norm3 (block_at solution 3) * 100 < 1 / 1000 then Some s'
        else level_loop meas minv n point_cov pro k s'
    else Some (fst (the best), best, G)
  })"

definition update_level :: "(StatesGroup \<Rightarrow> (vec \<times> real) list option) \<Rightarrow> (mat \<Rightarrow> mat) \<Rightarrow> nat \<Rightarrow> VIOManager \<Rightarrow> StatesGroup \<Rightarrow>
    StatesGroup \<times> mat \<Rightarrow> (StatesGroup \<times> mat) option" where
  "update_level meas minv n v pro = (\<lambda>(st, G).
    map_option (\<lambda>(st, best, G). (st, G)) (level_loop meas minv n (img_point_cov v) pro (vio_max_iterations v) (st, None, G)))"

definition updateState :: "(mat \<Rightarrow> mat) \<Rightarrow> VIOManager \<Rightarrow> PinholeCamera \<Rightarrow> nat list \<Rightarrow> visual_entry list \<Rightarrow> StatesGroup \<Rightarrow>
    nat \<Rightarrow> StatesGroup \<times> mat \<Rightarrow> (StatesGroup \<times> mat) option" where
  "updateState minv v cam pic submap pro level =
    update_level (\<lambda>st. measurements (cell_measurement v cam pic level st) (patch_size v) submap) minv 7 v pro"

definition updateStateInverse :: "(mat \<Rightarrow> mat) \<Rightarrow> VIOManager \<Rightarrow> PinholeCamera \<Rightarrow> nat list \<Rightarrow> visual_entry list \<Rightarrow> StatesGroup \<Rightarrow>
    nat \<Rightarrow> StatesGroup \<times> mat \<Rightarrow> (StatesGroup \<times> mat) option" where
  "updateStateInverse minv v cam pic submap pro level =
    update_level (\<lambda>st. measurements (cell_measurement_inverse v cam pic level st) (patch_size v) submap) minv 6 v pro"

text \<open>The levels from the coarsest to the finest.\<close>

primrec update_levels :: "(nat \<Rightarrow> StatesGroup \<times> mat \<Rightarrow> (StatesGroup \<times> mat) option) \<Rightarrow> nat \<Rightarrow> StatesGroup \<times> mat \<Rightarrow>
    (StatesGroup \<times> mat) option" where
  "update_levels upd 0 s = Some s"
| "update_levels upd (Suc level) s = Option.bind (upd level s) (update_levels upd level)"

definition computeJacobianAndUpdateEKF :: "(mat \<Rightarrow> mat) \<Rightarrow> (M3D \<Rightarrow> M3D) \<Rightarrow> VIOManager \<Rightarrow> PinholeCamera \<Rightarrow> nat list \<Rightarrow>
    visual_entry list \<Rightarrow> StatesGroup \<Rightarrow> StatesGroup \<times> mat \<times> SE3 \<Rightarrow> (StatesGroup \<times> mat \<times> SE3) option" where
  "computeJacobianAndUpdateEKF minv to_rotation v cam pic submap pro = (\<lambda>(st, G, T).
    if submap = [] then Some (st, G, T)
    else do {
      (st, G) \<leftarrow> update_levels
        (if inverse_composition_en v then updateStateInverse minv v cam pic submap pro
         else updateState minv v cam pic submap pro) (patch_pyrimid_level v) (st, G);
      let st = st\<lparr>cov := mat_minus (cov st) (mat_mult DIM_STATE G (cov st))\<rparr>;
      Some (st, G, updateFrameState to_rotation v st)
    })"

end
