(* ===== verification/Vio_Props.thy ===== *)
theory Vio_Props
  imports Vio Ekf_Props
begin

text \<open>
  What the update by an image computes: the increment of a pass, the state and the covariance that are
  left, and the measurements as instances of the common form in \<open>Kalman\<close>.
\<close>

section \<open>Scaled matrices\<close>

lemma inverse_unique:
  assumes "inverse_of n A B" "inverse_of n A C" "i < n" "j < n"
  shows "B i j = C i j"
proof -
  have "C i j = mat_vec n B (mat_vec n A (\<lambda>k. C k j)) i"
    using inverse_vec [OF inverse_of_sym [OF assms(1)] assms(3)] by simp
  also have "\<dots> = mat_vec n B (\<lambda>k. mat_id k j) i"
    by (rule mat_vec_cong) (use assms(2,4) in \<open>simp_all add: inverse_of_def flip: mat_mult_column\<close>)
  also have "\<dots> = B i j"
    using assms(4) by (simp add: mat_vec_def mat_id_def if_distrib [of "\<lambda>x. _ * x"] cong: if_cong)
  finally show ?thesis by simp
qed

lemma quadratic_scale: "quadratic n v (mat_scale c P) = c * quadratic n v P"
  by (simp add: quadratic_def mat_scale_def sum_distrib_left mult.commute mult.left_commute)

lemma covariance_scale: "covariance n P \<Longrightarrow> 0 \<le> c \<Longrightarrow> covariance n (mat_scale c P)"
  by (simp add: covariance_def quadratic_scale) (simp add: mat_scale_def)

lemma mat_mult_scale: "mat_mult n (mat_scale a A) (mat_scale b B) i j = a * b * mat_mult n A B i j"
  by (simp add: mat_mult_def mat_scale_def sum_distrib_left mult.commute mult.left_commute)

lemma inverse_scale:
  assumes "inverse_of n A B" "c \<noteq> 0"
  shows "inverse_of n (mat_scale c A) (mat_scale (1 / c) B)"
  using assms by (simp add: inverse_of_def mat_mult_scale)

lemma regular_scale: "regular P \<Longrightarrow> 0 < c \<Longrightarrow> regular (mat_scale c P)"
  using inverse_scale [of DIM_STATE P _ c] covariance_scale by (fastforce simp: regular_def)

lemma scaled_inverse:
  assumes "inverts minv" "regular P" "0 < c" "i < DIM_STATE" "j < DIM_STATE"
  shows "minv (mat_scale (1 / c) P) i j = c * minv P i j"
proof -
  have "inverse_of DIM_STATE (mat_scale (1 / c) P) (mat_scale c (minv P))"
    using inverse_scale [OF regular_inverse(1) [OF assms(1,2)], of "1 / c"] assms(3) by simp
  moreover have "inverse_of DIM_STATE (mat_scale (1 / c) P) (minv (mat_scale (1 / c) P))"
    using regular_inverse(1) [OF assms(1) regular_scale [OF assms(2)]] assms(3) by simp
  ultimately have "mat_scale c (minv P) i j = minv (mat_scale (1 / c) P) i j"
    by (rule inverse_unique [OF _ _ assms(4,5)])
  then show ?thesis by (simp only: mat_scale_def [of c])
qed

section \<open>One pass\<close>

definition visual_row :: "nat \<Rightarrow> vec \<times> real \<Rightarrow> vec" where
  "visual_row n q k = (if k < n then fst q k else 0)"

interpretation visual: kalman "\<lambda>_ _. 1" visual_row visual_H_T_H "\<lambda>_. True"
proof unfold_locales
  fix n :: nat and qs :: "(vec \<times> real) list" and i j :: nat
  show "visual_H_T_H n qs i j = (\<Sum>q \<leftarrow> qs. 1 * visual_row n q i * visual_row n q j)"
    by (cases "i < n"; cases "j < n") (simp_all add: visual_H_T_H_def visual_row_def case_prod_unfold)
qed simp_all

lemma sum_within: "n \<le> DIM_STATE \<Longrightarrow> (\<Sum>k<n. f k) = (\<Sum>k<DIM_STATE. if k < n then f k else (0 :: real))"
  by (rule sum.mono_neutral_cong_left) auto

lemma visual_G_eq:
  assumes "n \<le> DIM_STATE"
  shows "visual_G n K (visual_H_T_H n ms) i j = mat_mult DIM_STATE K (visual_H_T_H n ms) i j"
proof -
  have "(\<Sum>k<n. K i k * visual_H_T_H n ms k j) = mat_mult DIM_STATE K (visual_H_T_H n ms) i j"
    unfolding mat_mult_def by (rule sum.mono_neutral_left) (use assms in \<open>auto simp: visual_H_T_H_def\<close>)
  moreover have "mat_mult DIM_STATE K (visual_H_T_H n ms) i j = 0" if "\<not> j < n"
    using that by (simp add: mat_mult_def visual_H_T_H_def)
  ultimately show ?thesis by (simp add: visual_G_def)
qed

lemma visual_solution_eq:
  assumes "n \<le> DIM_STATE" "i < DIM_STATE"
  shows "visual_solution n K (visual_H_T_H n ms) z d i =
    mat_vec DIM_STATE K (\<lambda>k. if k < n then - z k else 0) i + d i - mat_vec DIM_STATE K (mat_vec DIM_STATE (visual_H_T_H n ms) d) i"
proof -
  have "(\<Sum>k<n. visual_G n K (visual_H_T_H n ms) i k * d k) = mat_vec DIM_STATE (visual_G n K (visual_H_T_H n ms)) d i"
    unfolding mat_vec_def by (rule sum.mono_neutral_left) (use assms(1) in \<open>auto simp: visual_G_def\<close>)
  also have "\<dots> = mat_vec DIM_STATE K (mat_vec DIM_STATE (visual_H_T_H n ms) d) i"
    unfolding mat_mult_vec [symmetric] by (rule mat_vec_cong) (simp_all add: visual_G_eq assms(1))
  finally have G: "(\<Sum>k<n. visual_G n K (visual_H_T_H n ms) i k * d k) =
      mat_vec DIM_STATE K (mat_vec DIM_STATE (visual_H_T_H n ms) d) i" .
  have "- (\<Sum>k<n. K i k * z k) = mat_vec DIM_STATE K (\<lambda>k. if k < n then - z k else 0) i"
    unfolding mat_vec_def sum_negf [symmetric]
    by (rule sum.mono_neutral_cong_left) (use assms(1) in auto)
  with G show ?thesis unfolding visual_solution_def by linarith
qed

text \<open>The cost that the increment of a pass makes least.\<close>

definition photo_cost :: "(mat \<Rightarrow> mat) \<Rightarrow> nat \<Rightarrow> real \<Rightarrow> (vec \<times> real) list \<Rightarrow> mat \<Rightarrow> vec \<Rightarrow> vec \<Rightarrow> real" where
  "photo_cost minv n point_cov ms P d x =
    (\<Sum>(h, res) \<leftarrow> ms. (res + (\<Sum>k<n. h k * x k))\<^sup>2) + point_cov * quadratic DIM_STATE (\<lambda>i. x i - d i) (minv P)"

lemma photo_cost_squares:
  assumes "inverts minv" "regular P" "0 < c" "n \<le> DIM_STATE"
  shows "photo_cost minv n c ms P d x =
    squares DIM_STATE (\<lambda>_. 1) (visual_row n) (\<lambda>q. - snd q) ms (minv (mat_scale (1 / c) P)) d x"
proof -
  have "inner_vec DIM_STATE (visual_row n q) x = (\<Sum>k<n. fst q k * x k)" for q
    unfolding inner_vec_def visual_row_def sum_within [OF assms(4)] by (rule sum.cong) simp_all
  then have "(\<Sum>(h, res) \<leftarrow> ms. (res + (\<Sum>k<n. h k * x k))\<^sup>2) =
      (\<Sum>q \<leftarrow> ms. 1 * (- snd q - inner_vec DIM_STATE (visual_row n q) x)\<^sup>2)"
    by (simp add: split_beta power2_eq_square algebra_simps cong: map_cong)
  moreover have "c * quadratic DIM_STATE v (minv P) = quadratic DIM_STATE v (minv (mat_scale (1 / c) P))" for v
    using scaled_inverse [OF assms(1-3)] by (simp add: quadratic_def sum_distrib_left mult.commute mult.left_commute)
  ultimately show ?thesis by (simp add: photo_cost_def squares_def)
qed

text \<open>
  The increment of one pass over the pixels is the least squares solution: no other increment
  makes the sum of the squared linearised differences of the pixels to their references and of the
  distance from the propagated state, weighted with the variance of a pixel times the inverse of the
  covariance, smaller; with the seven columns of \<open>updateState\<close> or the six of \<open>updateStateInverse\<close>.
\<close>

theorem visual_increment_least:
  assumes "inverts minv" "regular P" "0 < c" "n \<le> 7"
  shows "photo_cost minv n c ms P d (visual_solution n (visual_K_1 minv c (visual_H_T_H n ms) P) (visual_H_T_H n ms)
      (visual_HTz ms) d) \<le> photo_cost minv n c ms P d x"
proof -
  have n: "n \<le> DIM_STATE" using assms(4) by (simp add: DIM_STATE_def)
  have reg: "regular (mat_scale (1 / c) P)" by (rule regular_scale [OF assms(2)]) (use assms(3) in simp)
  have "mat_vec DIM_STATE K (\<lambda>k. if k < n then - visual_HTz ms k else 0) i =
      mat_vec DIM_STATE K (\<lambda>i. \<Sum>q \<leftarrow> ms. 1 * visual_row n q i * - snd q) i" for K i
    by (rule mat_vec_cong) (simp_all add: visual_HTz_def visual_row_def split_beta uminus_sum_list_map comp_def)
  then show ?thesis unfolding photo_cost_squares [OF assms(1-3) n]
    by (intro visual.solution_least [OF assms(1) reg]) (simp_all add: visual_solution_eq [OF n] visual_K_1_def)
qed

section \<open>The covariance\<close>

definition visual_cov :: "(mat \<Rightarrow> mat) \<Rightarrow> nat \<Rightarrow> real \<Rightarrow> (vec \<times> real) list \<Rightarrow> mat \<Rightarrow> mat" where
  "visual_cov minv n c ms P = mat_minus P (mat_mult DIM_STATE
    (visual_G n (visual_K_1 minv c (visual_H_T_H n ms) P) (visual_H_T_H n ms)) P)"

lemma visual_posterior:
  assumes "inverts minv" "regular P" "0 < c" "n \<le> DIM_STATE"
  shows "inverse_of DIM_STATE (mat_add (mat_scale (1 / c) (visual_H_T_H n ms)) (minv P)) (visual_cov minv n c ms P)"
    "regular (visual_cov minv n c ms P)"
    "quadratic DIM_STATE v (visual_cov minv n c ms P) \<le> quadratic DIM_STATE v P"
proof -
  let ?P = "mat_scale (1 / c) P" and ?H = "visual_H_T_H n ms" and ?Q = "mat_scale (1 / c) (visual_cov minv n c ms P)"
  have reg: "regular ?P" by (rule regular_scale [OF assms(2)]) (use assms(3) in simp)
  have unscaled: "mat_scale c ?Q = visual_cov minv n c ms P"
    using assms(3) by (simp add: mat_scale_def fun_eq_iff)
  have Q: "?Q i j = mat_mult DIM_STATE (mat_minus mat_id (mat_mult DIM_STATE (K_1 minv ?H ?P) ?H)) ?P i j"
    if "i < DIM_STATE" "j < DIM_STATE" for i j
  proof -
    let ?G = "mat_mult DIM_STATE (K_1 minv ?H ?P) ?H"
    have "mat_mult DIM_STATE (mat_minus mat_id ?G) ?P i j = mat_vec DIM_STATE (mat_minus mat_id ?G) (\<lambda>k. ?P k j) i"
      by (rule mat_mult_column)
    also have "\<dots> = ?P i j - mat_vec DIM_STATE ?G (\<lambda>k. ?P k j) i"
      using that by (simp add: mat_vec_mat_minus mat_vec_id)
    also have "mat_vec DIM_STATE ?G (\<lambda>k. ?P k j) i = (1 / c) * mat_mult DIM_STATE ?G P i j"
      by (simp add: mat_vec_def mat_mult_def [where A = ?G] mat_scale_def sum_distrib_left mult.commute mult.left_commute)
    also have "?P i j - (1 / c) * mat_mult DIM_STATE ?G P i j = ?Q i j"
      by (simp add: visual_cov_def mat_scale_def [of "1 / c"] mat_minus_def visual_K_1_def mat_mult_def [where B = P]
          visual_G_eq [OF assms(4)] right_diff_distrib)
    finally show ?thesis by (rule sym)
  qed
  note post = visual.posterior [OF assms(1) reg _ Q, simplified]
  have "inverse_of DIM_STATE (mat_scale (1 / c) (mat_add ?H (minv ?P))) (mat_scale c ?Q)"
    using inverse_scale [OF post(1), of "1 / c"] assms(3) by simp
  then show "inverse_of DIM_STATE (mat_add (mat_scale (1 / c) ?H) (minv P)) (visual_cov minv n c ms P)"
    unfolding unscaled
    by (rule inverse_cong) (use assms(3) scaled_inverse [OF assms(1-3)] in \<open>simp add: mat_add_def mat_scale_def field_simps\<close>)
  show "regular (visual_cov minv n c ms P)" using regular_scale [OF post(2) assms(3)] by (simp add: unscaled)
  show "quadratic DIM_STATE v (visual_cov minv n c ms P) \<le> quadratic DIM_STATE v P"
    using post(3) [of v] assms(3) by (simp add: quadratic_scale divide_le_cancel)
qed

section \<open>All passes of all levels\<close>

text \<open>What a gain is that a pass leaves, for a covariance.\<close>

definition pass_gain :: "(mat \<Rightarrow> mat) \<Rightarrow> real \<Rightarrow> mat \<Rightarrow> mat \<Rightarrow> bool" where
  "pass_gain minv c P G \<longleftrightarrow>
    (\<exists>n ms. n \<le> DIM_STATE \<and> G = visual_G n (visual_K_1 minv c (visual_H_T_H n ms) P) (visual_H_T_H n ms))"

definition pass_ok :: "StatesGroup \<Rightarrow> StatesGroup \<Rightarrow> bool" where
  "pass_ok st0 st \<longleftrightarrow> rotation (rot_end st) \<and> cov st = cov st0"

lemma state_plus_pass: "pass_ok st0 st \<Longrightarrow> pass_ok st0 (state_plus st x)"
  by (simp add: pass_ok_def state_plus_rotation)

lemma level_loop_kept:
  assumes "n \<le> DIM_STATE" "level_loop meas minv n c pro k (st, best, G) = Some (st', best', G')"
    and "pass_ok st0 st" "pred_option (pass_ok st0 \<circ> fst) best" "best = None \<or> pass_gain minv c (cov st0) G" "best \<noteq> None \<or> 0 < k"
  shows "pass_ok st0 st' \<and> pass_gain minv c (cov st0) G'"
  using assms(2-)
proof (induction k arbitrary: st best G)
  case (Suc k)
  obtain ms where ms: "meas st = Some ms" using Suc.prems(1) by (auto split: Option.bind_splits)
  define H where "H = visual_H_T_H n ms"
  define K where "K = visual_K_1 minv c H (cov st)"
  define x where "x = visual_solution n K H (visual_HTz ms) (state_minus pro st)"
  have step: "pass_ok st0 (state_plus st x)" "pass_gain minv c (cov st0) (visual_G n K H)"
    using state_plus_pass [OF Suc.prems(2)] Suc.prems(2) assms(1) by (auto simp: pass_ok_def pass_gain_def K_def H_def)
  show ?case
  proof (cases "case best of None \<Rightarrow> True | Some (old, last_error) \<Rightarrow> photo_error ms \<le> last_error")
    case True
    let ?s = "(state_plus st x, Some (st, photo_error ms), visual_G n K H)"
    from True Suc.prems(1) have "(st', best', G') = ?s \<or> level_loop meas minv n c pro k ?s = Some (st', best', G')"
      by (auto simp: ms H_def K_def x_def Let_def split: if_splits)
    then show ?thesis
    proof
      assume "level_loop meas minv n c pro k ?s = Some (st', best', G')"
      then show ?thesis by (rule Suc.IH) (use step Suc.prems(2) in simp_all)
    qed (use step in simp)
  next
    case False
    then obtain old e where "best = Some (old, e)" by (cases best) auto
    with False Suc.prems show ?thesis by (simp add: ms)
  qed
qed auto

lemma update_levels_kept:
  assumes "\<And>l st G st' G'. upd l (st, G) = Some (st', G') \<Longrightarrow> pass_ok st0 st \<Longrightarrow> pass_ok st0 st' \<and> pass_gain minv c (cov st0) G'"
    and "update_levels upd l (st, G) = Some (st', G')" "pass_ok st0 st" "0 < l"
  shows "pass_ok st0 st' \<and> pass_gain minv c (cov st0) G'"
  using assms(2-)
proof (induction l arbitrary: st G)
  case (Suc l)
  obtain st1 G1 where one: "upd l (st, G) = Some (st1, G1)" "update_levels upd l (st1, G1) = Some (st', G')"
    using Suc.prems(1) by (auto split: Option.bind_splits)
  note kept = assms(1) [OF one(1) Suc.prems(2)]
  show ?case
  proof (cases l)
    case 0
    with one kept show ?thesis by simp
  next
    case (Suc k)
    then show ?thesis using Suc.IH one(2) kept by simp
  qed
qed simp

definition vio_ok :: "VIOManager \<Rightarrow> bool" where
  "vio_ok v \<longleftrightarrow> 0 < img_point_cov v \<and> 0 < vio_max_iterations v \<and> 0 < patch_pyrimid_level v"

lemma update_level_kept:
  assumes "0 < vio_max_iterations v" "n \<le> DIM_STATE" "update_level meas minv n v pro (st, G) = Some (st', G')" "pass_ok st0 st"
  shows "pass_ok st0 st' \<and> pass_gain minv (img_point_cov v) (cov st0) G'"
proof -
  obtain best where "level_loop meas minv n (img_point_cov v) pro (vio_max_iterations v) (st, None, G) = Some (st', best, G')"
    using assms(3) by (auto simp: update_level_def)
  from level_loop_kept [OF assms(2) this assms(4)] assms(1) show ?thesis by simp
qed

lemma image_update_kept:
  assumes "inverts minv" "vio_ok v" "rotation (rot_end st)" "regular (cov st)"
    and "computeJacobianAndUpdateEKF minv to_rotation v cam pic submap pro (st, G, T) = Some (st', G', T')"
  shows "rotation (rot_end st') \<and> regular (cov st') \<and>
    (\<forall>w. quadratic DIM_STATE w (cov st') \<le> quadratic DIM_STATE w (cov st)) \<and>
    (if submap = [] then (st', G', T') = (st, G, T)
     else pass_gain minv (img_point_cov v) (cov st) G' \<and> T' = updateFrameState to_rotation v st')"
proof (cases "submap = []")
  case True
  with assms(3-5) show ?thesis by (simp add: computeJacobianAndUpdateEKF_def)
next
  case False
  let ?upd = "if inverse_composition_en v then updateStateInverse minv v cam pic submap pro
    else updateState minv v cam pic submap pro"
  obtain st1 where r: "update_levels ?upd (patch_pyrimid_level v) (st, G) = Some (st1, G')"
    "st' = st1\<lparr>cov := mat_minus (cov st1) (mat_mult DIM_STATE G' (cov st1))\<rparr>" "T' = updateFrameState to_rotation v st'"
    using False assms(5) by (auto simp: computeJacobianAndUpdateEKF_def Let_def split: Option.bind_splits)
  have v: "0 < img_point_cov v" "0 < vio_max_iterations v" "0 < patch_pyrimid_level v"
    using assms(2) by (simp_all add: vio_ok_def)
  have "pass_ok st st1 \<and> pass_gain minv (img_point_cov v) (cov st) G'"
  proof (rule update_levels_kept [OF _ r(1) _ v(3)])
    show "pass_ok st st" using assms(3) by (simp add: pass_ok_def)
    show "pass_ok st s' \<and> pass_gain minv (img_point_cov v) (cov st) g'"
      if "?upd l (s, g) = Some (s', g')" "pass_ok st s" for l s g s' g'
      using that(1) by (auto simp: updateState_def updateStateInverse_def DIM_STATE_def split: if_splits
          dest!: update_level_kept [OF v(2) _ _ that(2), rotated])
  qed
  then have st1: "rotation (rot_end st1)" "cov st1 = cov st" "pass_gain minv (img_point_cov v) (cov st) G'"
    by (simp_all add: pass_ok_def)
  then obtain n ms where n: "n \<le> DIM_STATE"
    "G' = visual_G n (visual_K_1 minv (img_point_cov v) (visual_H_T_H n ms) (cov st)) (visual_H_T_H n ms)"
    by (auto simp: pass_gain_def)
  then have "cov st' = visual_cov minv n (img_point_cov v) ms (cov st)" using st1(2) r(2) by (simp add: visual_cov_def)
  with visual_posterior [OF assms(1,4) v(1) n(1)] False st1 r(2,3) show ?thesis by simp
qed

section \<open>The error of the pixels\<close>

definition pass_increment :: "(mat \<Rightarrow> mat) \<Rightarrow> nat \<Rightarrow> real \<Rightarrow> StatesGroup \<Rightarrow> StatesGroup \<Rightarrow> (vec \<times> real) list \<Rightarrow> vec" where
  "pass_increment minv n c pro st ms =
    visual_solution n (visual_K_1 minv c (visual_H_T_H n ms) (cov st)) (visual_H_T_H n ms) (visual_HTz ms) (state_minus pro st)"

lemma level_loop_error:
  assumes "level_loop meas minv n c pro k (st, Some (old, e), G) = Some (st', best', G')" "meas old = Some ms0"
    and "e = photo_error ms0" "st = state_plus old (pass_increment minv n c pro old ms0)"
  shows "\<exists>old ms. meas old = Some ms \<and> photo_error ms \<le> photo_error ms0 \<and>
    (st' = old \<or> st' = state_plus old (pass_increment minv n c pro old ms))"
  using assms
proof (induction k arbitrary: st old e G ms0)
  case 0
  then show ?case by auto
next
  case (Suc k)
  obtain ms where ms: "meas st = Some ms" using Suc.prems(1) by (auto split: Option.bind_splits)
  show ?case
  proof (cases "photo_error ms \<le> e")
    case True
    let ?s = "(state_plus st (pass_increment minv n c pro st ms), Some (st, photo_error ms),
      visual_G n (visual_K_1 minv c (visual_H_T_H n ms) (cov st)) (visual_H_T_H n ms))"
    from True Suc.prems(1) have "(st', best', G') = ?s \<or> level_loop meas minv n c pro k ?s = Some (st', best', G')"
      by (auto simp: ms pass_increment_def Let_def split: if_splits)
    then obtain old' ms' where "meas old' = Some ms'" "photo_error ms' \<le> photo_error ms"
      "st' = old' \<or> st' = state_plus old' (pass_increment minv n c pro old' ms')"
    proof
      assume "level_loop meas minv n c pro k ?s = Some (st', best', G')"
      from Suc.IH [OF this ms refl refl] that show ?thesis by blast
    qed (use ms that in blast)
    moreover from this(2) True Suc.prems(3) have "photo_error ms' \<le> photo_error ms0" by linarith
    ultimately show ?thesis by blast
  next
    case False
    with Suc.prems(1,3) have "st' = old" by (simp add: ms)
    with Suc.prems(2) show ?thesis by blast
  qed
qed

text \<open>
  The passes of a level never go uphill by more than one step: the state that a level leaves is
  one whose mean squared difference of the pixels was measured and is not above the one at the level's
  start, or it is one increment away from such a state and has not been measured.
\<close>

theorem photometric_descent:
  assumes "update_level meas minv n v pro (st, G) = Some (st', G')" "0 < vio_max_iterations v"
  shows "\<exists>ms0 old ms. meas st = Some ms0 \<and> meas old = Some ms \<and> photo_error ms \<le> photo_error ms0 \<and>
    (st' = old \<or> st' = state_plus old (pass_increment minv n (img_point_cov v) pro old ms))"
proof -
  obtain k where k: "vio_max_iterations v = Suc k" using assms(2) by (cases "vio_max_iterations v") auto
  obtain best where r: "level_loop meas minv n (img_point_cov v) pro (Suc k) (st, None, G) = Some (st', best, G')"
    using assms(1) by (auto simp: update_level_def k)
  then obtain ms where ms: "meas st = Some ms" by (auto split: Option.bind_splits)
  let ?s = "(state_plus st (pass_increment minv n (img_point_cov v) pro st ms), Some (st, photo_error ms),
    visual_G n (visual_K_1 minv (img_point_cov v) (visual_H_T_H n ms) (cov st)) (visual_H_T_H n ms))"
  have "(st', best, G') = ?s \<or> level_loop meas minv n (img_point_cov v) pro k ?s = Some (st', best, G')"
    using r by (auto simp: ms pass_increment_def Let_def split: if_splits)
  then show ?thesis
  proof
    assume "level_loop meas minv n (img_point_cov v) pro k ?s = Some (st', best, G')"
    from level_loop_error [OF this ms refl refl] ms show ?thesis by blast
  qed (use ms in blast)
qed

section \<open>At concrete inputs\<close>

text \<open>An image of 32 by 32 pixels, a lidar and a camera in the body's axes.\<close>

definition ex_camera :: PinholeCamera where
  "ex_camera = new_PinholeCamera 32 32 1 4 4 16 16 0 0 0 0 0"

definition ex_manager0 :: VIOManager where
  "ex_manager0 = \<lparr>vfx = 0, vfy = 0, vwidth = 0, vheight = 0, Rli = 1, Pli = 0, Rcl = 1, Pcl = 0, Rci = 1, Pci = 0,
    Jdphi_dR = 1, Jdp_dR = 0, grid_size = 16, grid_n_width = 0, grid_n_height = 0, grid_length = 0,
    patch_pyrimid_level = 1, patch_size = 2, patch_size_half = 0, vborder = 0, img_point_cov = 100,
    vio_max_iterations = 3, inverse_composition_en = False, vio_exposure_en = True\<rparr>"

definition ex_manager :: VIOManager where
  "ex_manager = ex_manager0\<lparr>vfx := 4, vfy := 4, vwidth := 32, vheight := 32, grid_n_width := 2, grid_n_height := 2,
    grid_length := 4, patch_size_half := 1, vborder := 4\<rparr>"

lemma ex_manager: "initializeVIO ex_camera ex_manager0 = Some ex_manager"
  by (simp add: initializeVIO_def ex_camera_def ex_manager_def ex_manager0_def new_PinholeCamera_def grid_of_def trunc_int_def
      signed_divide_int_def skew_def M3D_ops V3D_ops mv_def Let_def)

lemma ex_manager_ok: "vio_ok ex_manager"
  by (simp add: vio_ok_def ex_manager_def ex_manager0_def)

definition ex_row :: "(vec \<times> real) list" where
  "ex_row = [((\<lambda>k. if k = 3 then 1 else 0), 5)]"

theorem visual_increment_least_witness:
  "let minv = border DIM_STATE; P = cov new_StatesGroup; H = visual_H_T_H 7 ex_row
   in photo_cost minv 7 100 ex_row P (\<lambda>_. 0) (visual_solution 7 (visual_K_1 minv 100 H P) H (visual_HTz ex_row) (\<lambda>_. 0)) \<le>
     photo_cost minv 7 100 ex_row P (\<lambda>_. 0) (\<lambda>k. if k = 3 then - 5 else 0)"
  unfolding Let_def by (rule visual_increment_least [OF border_inverts new_StatesGroup_regular]) simp_all

theorem photometric_descent_witness:
  "\<exists>st' G' ms old. update_level (\<lambda>_. Some ex_row) (border DIM_STATE) 7 ex_manager new_StatesGroup (new_StatesGroup, \<lambda>_ _. 0) =
      Some (st', G') \<and> photo_error ms \<le> photo_error ex_row \<and>
    (st' = old \<or> st' = state_plus old (pass_increment (border DIM_STATE) 7 100 new_StatesGroup old ms))"
proof -
  have "\<exists>x. level_loop (\<lambda>_. Some ms) minv n c pro k s = Some x" for ms minv n c pro k s
    by (induction k arbitrary: s) (auto simp: Let_def split_beta)
  then obtain st' G' where r: "update_level (\<lambda>_. Some ex_row) (border DIM_STATE) 7 ex_manager new_StatesGroup
      (new_StatesGroup, \<lambda>_ _. 0) = Some (st', G')"
    by (fastforce simp: update_level_def)
  have "0 < vio_max_iterations ex_manager" "img_point_cov ex_manager = 100" by (simp_all add: ex_manager_def ex_manager0_def)
  with photometric_descent [OF r] r show ?thesis by (auto simp: ex_manager_def)
qed

end
