(* ===== verification/Odometry.thy ===== *)
theory Odometry
  imports Undistort Plane_Var Vio_Props
begin

text \<open>
  The estimation of the odometry node, \<open>src/src/fast_livo2/src/LIVMapper.cpp\<close>, put together: \<open>processImu\<close>
  with the alignment to gravity, \<open>handleLIO\<close> with the update by the scan and the update of the map by
  its points, \<open>handleVIO\<close> with the update by the image, and the propagation of the latest estimate by every inertial message in \<open>imu_prop_callback\<close>. The filter that thins out a scan,
  the rotation between two vectors, the inverse and the eigenvalue solver are those of PCL and Eigen
  and parameters.
\<close>

record estimator =
  state :: StatesGroup
  p_imu :: ImuProcess
  feats_undistort :: "V3D PointType list"
  gravity_align_finished :: bool
  lidar_map_inited :: bool
  vmap :: sliding_map
  imu_propagate :: StatesGroup
  latest_ekf_state :: StatesGroup
  latest_ekf_time :: real
  state_update_flg :: bool
  ekf_finish_once :: bool
  new_imu :: bool
  last_t_from_lidar_end_time :: real
  vio_G :: mat
  vio_pose :: SE3










section \<open>Propagation between the scans\<close>

definition prop_imu_once :: "real \<Rightarrow> real \<Rightarrow> V3D \<Rightarrow> V3D \<Rightarrow> StatesGroup \<Rightarrow> StatesGroup" where
  "prop_imu_once mean_acc_norm dt acc_avr angvel_avr s =
    (let acc_avr = (G_m_s2 / mean_acc_norm) *\<^sub>R acc_avr - bias_a s;
         angvel_avr = angvel_avr - bias_g s;
         s = s\<lparr>rot_end := rot_end s * Exp_vel angvel_avr dt\<rparr>;
         acc_imu = mv (rot_end s) acc_avr + gravity s;
         s = s\<lparr>pos_end := pos_end s + dt *\<^sub>R vel_end s + (1 / 2 * dt * dt) *\<^sub>R acc_imu\<rparr>
     in s\<lparr>vel_end := vel_end s + dt *\<^sub>R acc_imu\<rparr>)"

text \<open>One message, with the time of the last one from the latest estimate on.\<close>

definition prop_message :: "real \<Rightarrow> real \<Rightarrow> imu_msg \<Rightarrow> StatesGroup \<times> real \<Rightarrow> StatesGroup \<times> real" where
  "prop_message mean_acc_norm ekf_time m = (\<lambda>(s, last_t).
    let t_from_lidar_end_time = imu_stamp m - ekf_time
    in (prop_imu_once mean_acc_norm (t_from_lidar_end_time - last_t) (imu_acc m) (imu_gyr m) s, t_from_lidar_end_time))"

text \<open>\<open>None\<close> for the newest message stands for the empty message it starts as.\<close>

definition imu_prop_callback :: "mapper_config \<Rightarrow> (V3D, imu_data, 'g) mapper \<Rightarrow> estimator \<Rightarrow>
    (V3D, imu_data, 'g) mapper \<times> estimator" where
  "imu_prop_callback c s e =
    (if imu_need_init (p_imu e) \<or> \<not> new_imu e \<or> \<not> ekf_finish_once e then (s, e)
     else
       let e = e\<lparr>new_imu := False\<rparr>;
         an = IMU_mean_acc_norm (p_imu e); t = latest_ekf_time e
       in if imu_prop_enable c \<and> prop_imu_buffer s \<noteq> []
          then if state_update_flg e
            then let s = s\<lparr>prop_imu_buffer := dropWhile (\<lambda>m. imu_stamp m < t) (prop_imu_buffer s)\<rparr>;
                (st, last_t) = fold (prop_message an t) (prop_imu_buffer s) (latest_ekf_state e, 0)
              in (s, e\<lparr>imu_propagate := st, last_t_from_lidar_end_time := last_t, state_update_flg := False\<rparr>)
            else let m = (case newest_imu s of None \<Rightarrow> new_Imu | Some m \<Rightarrow> m);
                (st, last_t) = prop_message an t m (imu_propagate e, last_t_from_lidar_end_time e)
              in (s, e\<lparr>imu_propagate := st, last_t_from_lidar_end_time := last_t\<rparr>)
          else (s, e))"

section \<open>The covariance stays regular\<close>











definition estimate_ok :: "StatesGroup \<Rightarrow> bool" where
  "estimate_ok st \<longleftrightarrow> rotation (rot_end st) \<and> pos_def DIM_STATE (cov st)"





section \<open>The whole estimation\<close>




















section \<open>Messages and timer\<close>

text \<open>What \<open>imu_cbk\<close> does for the propagation with a message that it accepts.\<close>

definition imu_arrives :: "mapper_config \<Rightarrow> imu_msg \<Rightarrow> (V3D, imu_data, 'g) mapper \<times> estimator \<Rightarrow>
    (V3D, imu_data, 'g) mapper \<times> estimator" where
  "imu_arrives c m = (\<lambda>(s, e).
    if imu_prop_enable c
    then (s\<lparr>prop_imu_buffer := prop_imu_buffer s @ (if imu_need_init (p_imu e) then [] else [m]), newest_imu := Some m\<rparr>,
      e\<lparr>new_imu := True\<rparr>)
    else (s, e))"

text \<open>Messages arrive and the timer goes off, in any order.\<close>

datatype prop_event = Arrives imu_msg | Timer

fun prop_handle :: "mapper_config \<Rightarrow> prop_event \<Rightarrow> (V3D, imu_data, 'g) mapper \<times> estimator \<Rightarrow>
    (V3D, imu_data, 'g) mapper \<times> estimator" where
  "prop_handle c (Arrives m) n = imu_arrives c m n"
| "prop_handle c Timer (s, e) = imu_prop_callback c s e"

text \<open>The newest message at each timer, if one has arrived since the last; \<open>w\<close> is the one that waits.\<close>

fun newest_at_timers :: "imu_msg option \<Rightarrow> prop_event list \<Rightarrow> imu_msg list" where
  "newest_at_timers w [] = []"
| "newest_at_timers w (Arrives m # es) = newest_at_timers (Some m) es"
| "newest_at_timers None (Timer # es) = newest_at_timers None es"
| "newest_at_timers (Some m) (Timer # es) = m # newest_at_timers None es"

lemma newest_alternating: "newest_at_timers None (concat (map (\<lambda>m. [Arrives m, Timer]) ms)) = ms"
  by (induction ms) simp_all

definition propagated :: "estimator \<Rightarrow> StatesGroup \<times> real" where
  "propagated e = (imu_propagate e, last_t_from_lidar_end_time e)"

lemma prop_events_fold:
  assumes "imu_prop_enable c" "\<not> imu_need_init (p_imu e)" "ekf_finish_once e" "\<not> state_update_flg e"
    and "new_imu e \<longleftrightarrow> w \<noteq> None" "\<forall>m. w = Some m \<longrightarrow> newest_imu s = Some m \<and> prop_imu_buffer s \<noteq> []"
    and "fold (prop_handle c) es (s, e) = (s', e')"
  shows "propagated e' = fold (prop_message (IMU_mean_acc_norm (p_imu e)) (latest_ekf_time e)) (newest_at_timers w es) (propagated e)"
  using assms
proof (induction es arbitrary: s e w)
  case (Cons ev es)
  let ?f = "prop_message (IMU_mean_acc_norm (p_imu e)) (latest_ekf_time e)"
  show ?case
  proof (cases ev)
    case (Arrives m)
    let ?s = "s\<lparr>prop_imu_buffer := prop_imu_buffer s @ [m], newest_imu := Some m\<rparr>" and ?e = "e\<lparr>new_imu := True\<rparr>"
    have "fold (prop_handle c) es (?s, ?e) = (s', e')"
      using Cons.prems(1,2,7) Arrives by (simp add: imu_arrives_def)
    from Cons.IH [OF _ _ _ _ _ _ this, of "Some m"] Cons.prems(1-4) Arrives show ?thesis by (simp add: propagated_def)
  next
    case Timer
    show ?thesis
    proof (cases w)
      case None
      then have "imu_prop_callback c s e = (s, e)" using Cons.prems(5) by (simp add: imu_prop_callback_def)
      with Cons.IH [OF Cons.prems(1-4), of None s] Cons.prems(5,7) None Timer show ?thesis by simp
    next
      case (Some m)
      obtain st t where one: "?f m (propagated e) = (st, t)" by fastforce
      let ?e = "e\<lparr>new_imu := False, imu_propagate := st, last_t_from_lidar_end_time := t\<rparr>"
      have "imu_prop_callback c s e = (s, ?e)"
        using Cons.prems(1-6) Some one by (auto simp: imu_prop_callback_def propagated_def Let_def)
      then have "fold (prop_handle c) es (s, ?e) = (s', e')" using Cons.prems(7) Timer by simp
      from Cons.IH [OF _ _ _ _ _ _ this, of None] Cons.prems(1-4) one Some Timer show ?thesis by (simp add: propagated_def)
    qed
  qed
qed (simp add: propagated_def)

text \<open>
  C13. Between two updates of the filter the pose is carried on timer by timer, however messages and
  timers interleave: with the propagation enabled and the gravity known, from the first timer on that
  finds an update of the filter and a message since, the result is the one of carrying on the latest
  estimate at once over the buffered messages from its time on, and then over the newest message of each
  timer before which one has arrived, each of these once. A message with a later one before the same timer
  is left out, its time covered with the later one's values; when the timer goes off after every message
  none is left out.
\<close>

theorem prop_incremental:
  assumes "imu_prop_enable c" "\<not> imu_need_init (p_imu e)" "ekf_finish_once e" "state_update_flg e" "new_imu e"
    and "prop_imu_buffer s \<noteq> []" "fold (prop_handle c) (Timer # es) (s, e) = (s', e')"
  shows "propagated e' = fold (prop_message (IMU_mean_acc_norm (p_imu e)) (latest_ekf_time e))
      (dropWhile (\<lambda>m. imu_stamp m < latest_ekf_time e) (prop_imu_buffer s) @ newest_at_timers None es) (latest_ekf_state e, 0) \<and>
    (\<forall>ms. newest_at_timers None (concat (map (\<lambda>m. [Arrives m, Timer]) ms)) = ms)"
proof -
  let ?f = "prop_message (IMU_mean_acc_norm (p_imu e)) (latest_ekf_time e)"
  obtain st t where one: "fold ?f (dropWhile (\<lambda>m. imu_stamp m < latest_ekf_time e) (prop_imu_buffer s))
      (latest_ekf_state e, 0) = (st, t)" by fastforce
  obtain s1 e1 where cb: "imu_prop_callback c s e = (s1, e1)" by fastforce
  then have e1: "e1 = e\<lparr>new_imu := False, imu_propagate := st, last_t_from_lidar_end_time := t, state_update_flg := False\<rparr>"
    using assms(1-6) one by (auto simp: imu_prop_callback_def Let_def)
  have "fold (prop_handle c) es (s1, e1) = (s', e')" using assms(7) cb by simp
  from prop_events_fold [OF _ _ _ _ _ _ this, of None] assms(1-3) newest_alternating show ?thesis
    by (simp add: e1 one propagated_def)
qed

section \<open>At concrete inputs\<close>

definition ex_estimator :: estimator where
  "ex_estimator = \<lparr>state = new_StatesGroup, p_imu = ex_process, feats_undistort = [], gravity_align_finished = False,
    lidar_map_inited = False, vmap = \<lparr>the_map = Map.empty, position_last = (\<lambda>_. 0), last_slide_position = (\<lambda>_. 0)\<rparr>,
    imu_propagate = new_StatesGroup, latest_ekf_state = new_StatesGroup, latest_ekf_time = 0,
    state_update_flg = True, ekf_finish_once = True, new_imu = True, last_t_from_lidar_end_time = 0,
    vio_G = (\<lambda>_ _. 0), vio_pose = \<lparr>se3_rot = 1, se3_tra = 0\<rparr>\<rparr>"

definition ex_mapper_config :: mapper_config where
  "ex_mapper_config = \<lparr>lidar_en = True, img_en = False, imu_en = True, exposure_time_init = 0,
    img_time_offset = 0, imu_time_offset = 0, lidar_time_offset = 0, ros_driver_fix_en = False,
    hilti_en = False, imu_prop_enable = True\<rparr>"




text \<open>Two messages come before the second timer: the first of them is left out.\<close>

theorem prop_incremental_witness:
  "let s = (mapper_init :: (V3D, imu_data, unit) mapper)\<lparr>prop_imu_buffer := [ex_msg 1]\<rparr>;
       (s', e') = fold (prop_handle ex_mapper_config) [Timer, Arrives (ex_msg 2), Arrives (ex_msg 3), Timer, Timer] (s, ex_estimator)
   in propagated e' = fold (prop_message 0 0) [ex_msg 1, ex_msg 3] (new_StatesGroup, 0)"
proof -
  let ?s = "(mapper_init :: (V3D, imu_data, unit) mapper)\<lparr>prop_imu_buffer := [ex_msg 1]\<rparr>"
  let ?es = "[Arrives (ex_msg 2), Arrives (ex_msg 3), Timer, Timer]"
  obtain s' e' where r: "fold (prop_handle ex_mapper_config) (Timer # ?es) (?s, ex_estimator) = (s', e')" by fastforce
  have "\<not> imu_need_init (p_imu ex_estimator)" "ekf_finish_once ex_estimator" "state_update_flg ex_estimator"
    "new_imu ex_estimator" "IMU_mean_acc_norm (p_imu ex_estimator) = 0" "latest_ekf_time ex_estimator = 0"
    "latest_ekf_state ex_estimator = new_StatesGroup" "imu_prop_enable ex_mapper_config"
    by (simp_all add: ex_estimator_def ex_process_def new_ImuProcess_def ex_mapper_config_def)
  then have "propagated e' = fold (prop_message 0 0) [ex_msg 1, ex_msg 3] (new_StatesGroup, 0)"
    using prop_incremental [OF _ _ _ _ _ _ r] by (simp add: ex_msg_def)
  then show ?thesis by (simp only: Let_def r split)
qed

end
