(* ===== verification/Jacobians.thy ===== *)
theory Jacobians
  imports Vio Ekf_Props
begin

text \<open>
  The rows of the measurements, of a scan and of an image, are the derivatives of what is measured when
  the state is turned about an axis and moved.
\<close>

section \<open>Turning by a small angle\<close>

definition adjugate :: "M3D \<Rightarrow> M3D" where
  "adjugate R = M3D
    (m11 R * m22 R - m12 R * m21 R) (m02 R * m21 R - m01 R * m22 R) (m01 R * m12 R - m02 R * m11 R)
    (m12 R * m20 R - m10 R * m22 R) (m00 R * m22 R - m02 R * m20 R) (m02 R * m10 R - m00 R * m12 R)
    (m10 R * m21 R - m11 R * m20 R) (m01 R * m20 R - m00 R * m21 R) (m00 R * m11 R - m01 R * m10 R)"

lemma rotation_adjugate:
  assumes "rotation R"
  shows "adjugate R = trp R"
proof -
  have "R * adjugate R = det R *\<^sub>R 1" by (simp add: adjugate_def det_def M3D_ops scaleR_M3D_def algebra_simps)
  with assms have "trp R * (R * adjugate R) = trp R" by (simp add: rotation_def)
  then show ?thesis unfolding mult.assoc [symmetric] using assms by (simp add: rotation_def)
qed

lemma rotation_cross:
  assumes "rotation R"
  shows "mv R (cross v w) = cross (mv R v) (mv R w)"
proof -
  have "mv R (cross v w) = mv (trp (adjugate R)) (cross v w)" using assms by (simp add: rotation_adjugate)
  also have "\<dots> = cross (mv R v) (mv R w)"
    by (simp add: adjugate_def mv_def trp_def cross_def algebra_simps)
  finally show ?thesis .
qed

definition has_deriv3 :: "(real \<Rightarrow> V3D) \<Rightarrow> V3D \<Rightarrow> bool" where
  "has_deriv3 f d \<longleftrightarrow> ((\<lambda>t. vx (f t)) has_real_derivative vx d) (at 0) \<and>
    ((\<lambda>t. vy (f t)) has_real_derivative vy d) (at 0) \<and> ((\<lambda>t. vz (f t)) has_real_derivative vz d) (at 0)"

lemma has_deriv3_mv:
  assumes "has_deriv3 f d"
  shows "has_deriv3 (\<lambda>t. mv A (f t)) (mv A d)"
  using assms unfolding has_deriv3_def mv_def V3D.sel by (auto intro!: derivative_eq_intros)

lemma has_deriv3_add: "has_deriv3 f d \<Longrightarrow> has_deriv3 g e \<Longrightarrow> has_deriv3 (\<lambda>t. f t + g t) (d + e)"
  unfolding has_deriv3_def V3D_ops V3D.sel by (auto intro!: derivative_eq_intros)

lemma has_deriv3_line: "has_deriv3 (\<lambda>t. p + t *\<^sub>R u) u"
  unfolding has_deriv3_def V3D_ops V3D.sel by (auto intro!: derivative_eq_intros)

lemma has_deriv3_const: "has_deriv3 (\<lambda>t. p) 0"
  by (simp add: has_deriv3_def V3D_ops)

lemma has_deriv3_rodrigues: "has_deriv3 (\<lambda>t. mv (rodrigues a t) w) (cross a w)"
  unfolding has_deriv3_def rodrigues_def Let_def skew_def mv_def cross_def V3D_ops M3D_ops scaleR_M3D_def V3D.sel M3D.sel
  by (intro conjI) (auto intro!: derivative_eq_intros)

lemma has_deriv3_turn: "has_deriv3 (\<lambda>t. mv (trp (rodrigues a t)) (w - t *\<^sub>R u)) (cross w a - u)"
  unfolding has_deriv3_def rodrigues_def Let_def skew_def mv_def trp_def cross_def V3D_ops M3D_ops scaleR_M3D_def V3D.sel M3D.sel
  by (intro conjI) (auto intro!: derivative_eq_intros)

text \<open>The state turned about an axis and moved.\<close>

definition moved :: "StatesGroup \<Rightarrow> V3D \<Rightarrow> V3D \<Rightarrow> real \<Rightarrow> StatesGroup" where
  "moved st a u t = st\<lparr>rot_end := rot_end st * rodrigues a t, pos_end := pos_end st + t *\<^sub>R u\<rparr>"

lemma moved_0 [simp]: "moved st a u 0 = st"
  by (simp add: moved_def)

section \<open>The distance to a plane\<close>

text \<open>
  The row of a matched point is the derivative of its distance to the plane along the normal,
  when the state is turned about an axis and moved: the first three entries give the rate for the
  turning, the next three for the moving.
\<close>

theorem plane_rows:
  "((\<lambda>t. dot (ptpl_normal q) (TransformLidar c (rot_end (moved st a u t)) (pos_end (moved st a u t)) (ptpl_point_b q)))
    has_real_derivative (\<Sum>k<6. Hsub_row c st q k * (if k < 3 then vec_entry a k else vec_entry u (k - 3)))) (at 0)"
proof -
  let ?n = "ptpl_normal q" and ?w = "mv (extR c) (ptpl_point_b q) + extT c"
  define f where "f t = TransformLidar c (rot_end (moved st a u t)) (pos_end (moved st a u t)) (ptpl_point_b q)" for t
  have "f = (\<lambda>t. mv (rot_end st) (mv (rodrigues a t) ?w) + (pos_end st + t *\<^sub>R u))"
    by (simp add: fun_eq_iff f_def moved_def TransformLidar_def mv_mult)
  then have "has_deriv3 f (mv (rot_end st) (cross a ?w) + u)"
    by (simp add: has_deriv3_add has_deriv3_mv has_deriv3_rodrigues has_deriv3_line)
  then have "((\<lambda>t. dot ?n (f t)) has_real_derivative dot ?n (mv (rot_end st) (cross a ?w) + u)) (at 0)"
    unfolding has_deriv3_def dot_def by (auto intro!: derivative_eq_intros)
  moreover have "dot ?n (mv (rot_end st) (cross a ?w)) = dot (mv (skew ?w) (mv (trp (rot_end st)) ?n)) a"
    unfolding dot_mv mv_skew by (simp add: dot_def cross_def algebra_simps)
  then have "dot ?n (mv (rot_end st) (cross a ?w) + u) =
      (\<Sum>k<6. Hsub_row c st q k * (if k < 3 then vec_entry a k else vec_entry u (k - 3)))"
    by (simp add: Hsub_row_def Let_def mv_mult vec_entry_def eval_nat_numeral dot_def V3D_ops algebra_simps)
  ultimately show ?thesis by (simp add: f_def)
qed

section \<open>The pixel of a point\<close>

definition camera_point :: "VIOManager \<Rightarrow> StatesGroup \<Rightarrow> V3D \<Rightarrow> V3D" where
  "camera_point v st p = mv (Rcw_of v st) p + Pcw_of v st"

lemma mv_uminus: "mv (- A) v = - mv A v"
  by (simp add: mv_def M3D_ops V3D_ops)

lemma mv_minus: "mv A (- v) = - mv A v"
  by (simp add: mv_def V3D_ops)

lemma camera_point_moved:
  "camera_point v (moved st a u t) p =
    mv (Rci v) (mv (trp (rodrigues a t)) (mv (trp (rot_end st)) (p - pos_end st) - t *\<^sub>R mv (trp (rot_end st)) u)) + Pci v"
  by (simp add: camera_point_def Rcw_of_def Pcw_of_def moved_def trp_mult mv_mult mv_uminus mv_diff mv_add mv_scaleR
      mult.assoc algebra_simps)

lemma camera_point_deriv:
  "has_deriv3 (\<lambda>t. camera_point v (moved st a u t) p)
    (mv (Rci v) (cross (mv (trp (rot_end st)) (p - pos_end st)) a) - mv (Rcw_of v st) u)"
proof -
  have "mv (Rcw_of v st) u = mv (Rci v) (mv (trp (rot_end st)) u)" by (simp add: Rcw_of_def mv_mult)
  then show ?thesis
    unfolding camera_point_moved by (simp only: mv_diff [symmetric])
      (rule has_deriv3_add [OF has_deriv3_mv [OF has_deriv3_turn] has_deriv3_const, simplified])
qed

lemma project_deriv:
  assumes "has_deriv3 f d" "vz (f 0) \<noteq> 0" "\<not> distortion cam" "cam_fx cam = vfx v" "cam_fy cam = vfy v"
    and "computeProjectionJacobian v (f 0) = (Jx, Jy)"
  shows "((\<lambda>t. fst (world2cam cam (f t))) has_real_derivative dot Jx d) (at 0)"
    "((\<lambda>t. snd (world2cam cam (f t))) has_real_derivative dot Jy d) (at 0)"
proof -
  have d: "((\<lambda>t. vx (f t)) has_real_derivative vx d) (at 0)" "((\<lambda>t. vy (f t)) has_real_derivative vy d) (at 0)"
    "((\<lambda>t. vz (f t)) has_real_derivative vz d) (at 0)" using assms(1) by (simp_all add: has_deriv3_def)
  have J: "Jx = V3D (vfx v * (1 / vz (f 0))) 0 (- vfx v * vx (f 0) * (1 / vz (f 0) * (1 / vz (f 0))))"
    "Jy = V3D 0 (vfy v * (1 / vz (f 0))) (- vfy v * vy (f 0) * (1 / vz (f 0) * (1 / vz (f 0))))"
    using assms(6) by (simp_all add: computeProjectionJacobian_def Let_def)
  have w: "world2cam cam (f t) = (vfx v * (vx (f t) / vz (f t)) + cam_cx cam, vfy v * (vy (f t) / vz (f t)) + cam_cy cam)" for t
    using assms(3-5) by (simp add: world2cam_def project2d_def)
  show "((\<lambda>t. fst (world2cam cam (f t))) has_real_derivative dot Jx d) (at 0)"
    unfolding w fst_conv by (rule derivative_eq_intros d refl assms(2))+ (use assms(2) in \<open>simp add: J dot_def field_simps\<close>)
  show "((\<lambda>t. snd (world2cam cam (f t))) has_real_derivative dot Jy d) (at 0)"
    unfolding w snd_conv by (rule derivative_eq_intros d refl assms(2))+ (use assms(2) in \<open>simp add: J dot_def field_simps\<close>)
qed

lemma dot_row_times: "dot (row_times r M) a = dot r (mv M a)"
  by (simp add: row_times_def dot_mv)

lemma pose_row_deriv:
  assumes "rotation (Rci v)" "Jdphi_dR v = Rci v" "Jdp_dR v = - Rci v * skew (mv (- trp (Rci v)) (Pci v))"
    and "pose_row v st (camera_point v st p) J = (JdR, Jdt)"
  shows "dot JdR a + dot Jdt u =
    dot J (mv (Rci v) (cross (mv (trp (rot_end st)) (p - pos_end st)) a) - mv (Rcw_of v st) u)"
proof -
  let ?R = "Rci v" and ?w = "mv (trp (rot_end st)) (p - pos_end st)" and ?c = "Pci v"
  have pf: "camera_point v st p = mv ?R ?w + ?c"
    by (simp add: camera_point_def Rcw_of_def Pcw_of_def mv_mult mv_uminus mv_diff mult.assoc)
  have rows: "JdR = row_times (row_times J (skew (camera_point v st p))) ?R + row_times (- J) (Jdp_dR v)"
    "Jdt = row_times (- J) (Rcw_of v st)"
    using assms(2,4) by (auto simp: pose_row_def Let_def)
  have "mv ?R (cross (mv (trp ?R) ?c) a) = cross ?c (mv ?R a)"
    using assms(1) by (simp add: rotation_cross rotation_back)
  moreover have "cross (- x) y = - cross x y" for x y by (simp add: cross_def V3D_ops)
  ultimately have A: "mv (Jdp_dR v) a = cross ?c (mv ?R a)"
    by (simp add: assms(3) mv_mult mv_skew mv_uminus mv_minus)
  have "dot JdR a + dot Jdt u = dot J (cross (mv ?R ?w + ?c) (mv ?R a)) - dot J (cross ?c (mv ?R a)) - dot J (mv (Rcw_of v st) u)"
    unfolding rows dot_add_left dot_row_times A mv_skew pf by (simp add: dot_def V3D_ops)
  also have "\<dots> = dot J (cross (mv ?R ?w) (mv ?R a) - mv (Rcw_of v st) u)"
    by (simp add: dot_def cross_def V3D_ops algebra_simps)
  finally show ?thesis by (simp add: rotation_cross [OF assms(1)])
qed

text \<open>
  C31. The blocks of a row are the derivative of the pixel: when the state is turned about an axis and
  moved, from the estimate on, the column and the line of a point in the image change at the rates that
  the blocks for the attitude and the position give, with the constants that \<open>initializeVIO\<close> has
  derived from the extrinsics. For extrinsics that are rotations, a camera without distortion and a point that is
  not in the camera's plane.
\<close>

theorem pixel_rows:
  assumes "initializeVIO cam v0 = Some v" "rotation (Rcl v0)" "rotation (Rli v0)" "\<not> distortion cam"
    and "vz (camera_point v st p) \<noteq> 0" "computeProjectionJacobian v (camera_point v st p) = (Jx, Jy)"
  shows "((\<lambda>t. fst (world2cam cam (camera_point v (moved st a u t) p))) has_real_derivative
      (case pose_row v st (camera_point v st p) Jx of (JdR, Jdt) \<Rightarrow> dot JdR a + dot Jdt u)) (at 0) \<and>
    ((\<lambda>t. snd (world2cam cam (camera_point v (moved st a u t) p))) has_real_derivative
      (case pose_row v st (camera_point v st p) Jy of (JdR, Jdt) \<Rightarrow> dot JdR a + dot Jdt u)) (at 0)"
proof -
  have v: "rotation (Rci v)" "Jdphi_dR v = Rci v" "Jdp_dR v = - Rci v * skew (mv (- trp (Rci v)) (Pci v))"
    "cam_fx cam = vfx v" "cam_fy cam = vfy v"
    using assms(1-3) by (auto simp: initializeVIO_def Let_def rotation_mult split: Option.bind_splits)
  obtain JdRx Jdtx JdRy Jdty where r: "pose_row v st (camera_point v st p) Jx = (JdRx, Jdtx)"
    "pose_row v st (camera_point v st p) Jy = (JdRy, Jdty)" by fastforce
  show ?thesis
    using project_deriv [OF camera_point_deriv _ assms(4) v(4,5), of v st a u p Jx Jy] assms(5,6)
    by (simp add: r pose_row_deriv [OF v(1-3) r(1)] pose_row_deriv [OF v(1-3) r(2)])
qed

end
