(* ===== verification/Patches.thy ===== *)
theory Patches
  imports Jacobians Vio_Props
begin

text \<open>
  What the camera and the patches guarantee: projecting takes back the ray of a pixel, the reads of an
  update stay inside the image for points away from its border, the values stay in the range of the
  pixels, and the loops over levels and places behave.
\<close>

section \<open>Pixels and rays\<close>

lemma project2d_scale: "c \<noteq> 0 \<Longrightarrow> project2d (c *\<^sub>R v) = project2d v"
  by (simp add: project2d_def V3D_ops)

text \<open>
  Without distortion, the ray of a pixel is a unit vector, and projecting any point on it, before
  or behind the camera, gives the pixel back.
\<close>

theorem pixel_roundtrip:
  assumes "\<not> distortion cam" "cam_fx cam \<noteq> 0" "cam_fy cam \<noteq> 0" "s \<noteq> 0"
  shows "norm3 (cam2world und cam px) = 1 \<and> world2cam cam (s *\<^sub>R cam2world und cam px) = px"
proof (cases px)
  case (Pair u v)
  let ?f = "V3D ((u - cam_cx cam) / cam_fx cam) ((v - cam_cy cam) / cam_fy cam) 1"
  have f: "cam2world und cam px = normalized ?f" using assms(1) Pair by simp
  have "?f \<noteq> 0" by (simp add: zero_V3D_def)
  then have n: "norm3 (normalized ?f) = 1" by (rule normalized_unit)
  then have "\<exists>c. c \<noteq> 0 \<and> normalized ?f = c *\<^sub>R ?f"
    using \<open>?f \<noteq> 0\<close> by (intro exI [of _ "inverse (norm3 ?f)"]) (auto simp: normalized_def norm3_def)
  then obtain c where "c \<noteq> 0" "normalized ?f = c *\<^sub>R ?f" by blast
  with assms Pair n show ?thesis
    unfolding f by (simp add: world2cam_def project2d_scale) (simp add: project2d_def)
qed

section \<open>The reads of an update\<close>

lemma pixel_in: "0 \<le> i \<Longrightarrow> i < int (length pic) \<Longrightarrow> \<exists>p \<in> set pic. pixel pic i = Some (real p)"
  by (force simp: pixel_def nth_of_def)

lemma cells_iff: "(x, y) \<in> set (cells n) \<longleftrightarrow> 0 \<le> x \<and> x < n \<and> 0 \<le> y \<and> y < n"
proof -
  have "(x, y) \<in> set (cells n) \<longleftrightarrow> (\<exists>a < nat n. x = int a) \<and> (\<exists>b < nat n. y = int b)"
    by (simp add: cells_def image_iff Bex_def) auto
  moreover have "(\<exists>a < nat n. z = int a) \<longleftrightarrow> 0 \<le> z \<and> z < n" for z
    by (auto intro!: exI [of _ "nat z"])
  ultimately show ?thesis by auto
qed

text \<open>The image, and the rows and columns a pointer stands for.\<close>

definition image_ok :: "VIOManager \<Rightarrow> nat list \<Rightarrow> bool" where
  "image_ok v pic \<longleftrightarrow> int (length pic) = vwidth v * vheight v \<and> (\<forall>p \<in> set pic. p \<le> 255)"

lemma place_in:
  fixes W H r c :: int
  assumes "0 \<le> r" "r < H" "0 \<le> c" "c < W"
  shows "0 \<le> r * W + c \<and> r * W + c < W * H"
proof -
  have "r * W + c < (r + 1) * W" using assms by (simp add: algebra_simps)
  also have "\<dots> \<le> H * W" using assms by (intro mult_right_mono) simp_all
  finally show ?thesis using assms by (simp add: mult.commute)
qed

lemma pixel_place:
  assumes "image_ok v pic" "0 \<le> r" "r < vheight v" "0 \<le> c" "c < vwidth v"
  shows "\<exists>p \<le> 255. pixel pic (r * vwidth v + c) = Some (real p)"
  using pixel_in [of "r * vwidth v + c" pic] place_in [OF assms(2-5)] assms(1) by (auto simp: image_ok_def)

definition weights_ok :: "subpix \<Rightarrow> bool" where
  "weights_ok s \<longleftrightarrow> 0 \<le> w_tl s \<and> 0 \<le> w_tr s \<and> 0 \<le> w_bl s \<and> 0 \<le> w_br s \<and> w_tl s + w_tr s + w_bl s + w_br s = 1"

lemma fraction_bounds:
  assumes "0 < k"
  shows "0 \<le> (x - real_of_int (\<lfloor>x / real_of_int k\<rfloor> * k)) / real_of_int k"
    "(x - real_of_int (\<lfloor>x / real_of_int k\<rfloor> * k)) / real_of_int k \<le> 1"
proof -
  have "(x - real_of_int (\<lfloor>x / real_of_int k\<rfloor> * k)) / real_of_int k =
      x / real_of_int k - real_of_int \<lfloor>x / real_of_int k\<rfloor>"
    using assms by (simp add: diff_divide_distrib)
  then show "0 \<le> (x - real_of_int (\<lfloor>x / real_of_int k\<rfloor> * k)) / real_of_int k"
    "(x - real_of_int (\<lfloor>x / real_of_int k\<rfloor> * k)) / real_of_int k \<le> 1" by linarith+
qed

lemma product_weights:
  fixes a b :: real
  assumes "0 \<le> a" "a \<le> 1" "0 \<le> b" "b \<le> 1"
  shows "weights_ok \<lparr>sub_u = u, sub_v = v, w_tl = (1 - a) * (1 - b), w_tr = a * (1 - b), w_bl = (1 - a) * b, w_br = a * b\<rparr>"
proof -
  have "(1 - a) * (1 - b) + a * (1 - b) + (1 - a) * b + a * b = 1" by algebra
  with assms show ?thesis by (simp add: weights_ok_def)
qed

lemma subpix_weights: "0 < scale \<Longrightarrow> weights_ok (subpix_at scale pc)"
  unfolding subpix_at_def Let_def by (rule product_weights) (rule fraction_bounds, assumption)+

lemma weighted_mean:
  assumes "weights_ok s" "0 \<le> a" "a \<le> m" "0 \<le> b" "b \<le> m" "0 \<le> c" "c \<le> m" "0 \<le> d" "d \<le> (m :: real)"
  shows "0 \<le> w_tl s * a + w_tr s * b + w_bl s * c + w_br s * d \<and> w_tl s * a + w_tr s * b + w_bl s * c + w_br s * d \<le> m"
proof -
  have w: "0 \<le> w_tl s" "0 \<le> w_tr s" "0 \<le> w_bl s" "0 \<le> w_br s" "w_tl s + w_tr s + w_bl s + w_br s = 1"
    using assms(1) by (simp_all add: weights_ok_def)
  have "w_tl s * a + w_tr s * b + w_bl s * c + w_br s * d \<le> w_tl s * m + w_tr s * m + w_bl s * m + w_br s * m"
    using assms w by (intro add_mono mult_left_mono) simp_all
  also have "\<dots> = m" using w(5) by (simp flip: distrib_right)
  finally show ?thesis using assms w by simp
qed

lemma bilinear_place:
  assumes "image_ok v pic" "weights_ok s" "0 < k" "ptr = r * vwidth v + c" "0 \<le> r" "r + k < vheight v" "0 \<le> c" "c + k < vwidth v"
  shows "\<exists>x. bilinear pic (vwidth v) k s ptr = Some x \<and> 0 \<le> x \<and> x \<le> 255"
proof -
  obtain a b d e :: nat where p: "pixel pic (r * vwidth v + c) = Some (real a)" "pixel pic (r * vwidth v + (c + k)) = Some (real b)"
    "pixel pic ((r + k) * vwidth v + c) = Some (real d)" "pixel pic ((r + k) * vwidth v + (c + k)) = Some (real e)"
    "a \<le> 255" "b \<le> 255" "d \<le> 255" "e \<le> 255"
    using pixel_place [OF assms(1), of r c] pixel_place [OF assms(1), of r "c + k"] pixel_place [OF assms(1), of "r + k" c]
      pixel_place [OF assms(1), of "r + k" "c + k"] assms(3,5-8) by fastforce
  have "bilinear pic (vwidth v) k s ptr = Some (w_tl s * a + w_tr s * b + w_bl s * d + w_br s * e)"
    using p(1-4) by (simp add: bilinear_def assms(4) algebra_simps)
  with weighted_mean [OF assms(2), of a 255 b d e] p(5-8) show ?thesis by simp
qed

text \<open>How far a point in the frame is away from the border of the image.\<close>

lemma grid_floor:
  assumes "1 \<le> h" "l \<le> n" "h * 2 ^ n \<le> trunc_int p" "trunc_int p < W - h * 2 ^ n"
  shows "h * 2 ^ l \<le> \<lfloor>p / real_of_int (2 ^ l)\<rfloor> * 2 ^ l" "\<lfloor>p / real_of_int (2 ^ l)\<rfloor> * 2 ^ l + h * 2 ^ l < (W :: int)"
proof -
  have pow: "(2 :: int) ^ n = 2 ^ (n - l) * 2 ^ l" using assms(2) by (simp flip: power_add)
  have le: "h * 2 ^ l \<le> h * 2 ^ n" using assms(1,2) by (intro mult_left_mono power_increasing) simp_all
  have "0 < h * (2 :: int) ^ n" using assms(1) by simp
  with assms(3) have "0 < trunc_int p" by linarith
  moreover have "trunc_int p \<le> 0" if "p < 0" using that by (simp add: trunc_int_def ceiling_le_iff)
  ultimately have t: "trunc_int p = \<lfloor>p\<rfloor>" "0 \<le> p" by (fastforce simp: trunc_int_def)+
  with assms(3) have "real_of_int (h * 2 ^ (n - l)) * real_of_int (2 ^ l) \<le> p"
    by (simp add: pow le_floor_iff mult.assoc)
  then have "real_of_int (h * 2 ^ (n - l)) \<le> p / real_of_int (2 ^ l)" by (subst pos_le_divide_eq) simp_all
  then have "h * 2 ^ (n - l) \<le> \<lfloor>p / real_of_int (2 ^ l)\<rfloor>" unfolding le_floor_iff .
  moreover have "h * 1 \<le> h * 2 ^ (n - l)" using assms(1) by (intro mult_left_mono) simp_all
  ultimately have "h \<le> \<lfloor>p / real_of_int (2 ^ l)\<rfloor>" by linarith
  then show "h * 2 ^ l \<le> \<lfloor>p / real_of_int (2 ^ l)\<rfloor> * 2 ^ l" by (rule mult_right_mono) simp
  have "real_of_int \<lfloor>p / real_of_int (2 ^ l)\<rfloor> * real_of_int (2 ^ l) \<le> p"
    by (subst pos_le_divide_eq [symmetric]) simp_all
  then have "\<lfloor>p / real_of_int (2 ^ l)\<rfloor> * 2 ^ l \<le> \<lfloor>p\<rfloor>" unfolding le_floor_iff by simp
  with le t assms(4) show "\<lfloor>p / real_of_int (2 ^ l)\<rfloor> * 2 ^ l + h * 2 ^ l < W" by linarith
qed

text \<open>The settings after \<open>initializeVIO\<close>, for a patch of an even size.\<close>

definition patch_ok :: "PinholeCamera \<Rightarrow> VIOManager \<Rightarrow> bool" where
  "patch_ok cam v \<longleftrightarrow> vwidth v = cam_width cam \<and> vheight v = cam_height cam \<and> patch_size v = 2 * patch_size_half v \<and>
    0 < patch_size_half v \<and> vborder v = (patch_size_half v + 1) * 2 ^ patch_pyrimid_level v"

lemma initializeVIO_patch:
  assumes "initializeVIO cam v0 = Some v" "even (patch_size v0)" "0 < patch_size v0"
  shows "patch_ok cam v"
proof -
  have "patch_size v0 sdiv 2 = patch_size v0 div 2" using assms(3) by (simp add: signed_divide_int_def)
  then show ?thesis
    using assms by (auto simp: initializeVIO_def patch_ok_def Let_def split: Option.bind_splits)
qed

lemma patch_ptr_place:
  "patch_ptr W half k s x y = (sub_v s + (x - half) * k) * W + (sub_u s + (y - half) * k)"
  by (simp add: patch_ptr_def algebra_simps)

lemma cell_reads:
  assumes "patch_ok cam v" "image_ok v pic" "isInFrame cam pc (vborder v)" "l \<le> patch_pyrimid_level v"
    and "(x, y) \<in> set (cells (patch_size v))" "a \<in> {- 1, 0, 1}" "b \<in> {- 1, 0, 1}" "a = 0 \<or> b = 0"
  shows "\<exists>z. bilinear pic (vwidth v) (2 ^ l) (subpix_at (2 ^ l) pc)
      (patch_ptr (vwidth v) (patch_size_half v) (2 ^ l) (subpix_at (2 ^ l) pc) x y + a * (2 ^ l * vwidth v) + b * 2 ^ l) = Some z \<and>
    0 \<le> z \<and> z \<le> 255"
proof -
  let ?k = "2 ^ l :: int" and ?h = "patch_size_half v" and ?s = "subpix_at (2 ^ l) pc"
  have h: "1 \<le> ?h + 1" "patch_size v = 2 * ?h" "vborder v = (?h + 1) * 2 ^ patch_pyrimid_level v"
    "vwidth v = cam_width cam" "vheight v = cam_height cam" using assms(1) by (simp_all add: patch_ok_def)
  have f: "(?h + 1) * 2 ^ patch_pyrimid_level v \<le> trunc_int (fst pc)"
    "trunc_int (fst pc) < vwidth v - (?h + 1) * 2 ^ patch_pyrimid_level v"
    "(?h + 1) * 2 ^ patch_pyrimid_level v \<le> trunc_int (snd pc)"
    "trunc_int (snd pc) < vheight v - (?h + 1) * 2 ^ patch_pyrimid_level v"
    using assms(3) by (simp_all add: isInFrame_def Let_def h)
  have u: "(?h + 1) * ?k \<le> sub_u ?s" "sub_u ?s + (?h + 1) * ?k < vwidth v"
    using grid_floor [OF h(1) assms(4) f(1,2)] by (simp_all add: subpix_at_def Let_def)
  have w: "(?h + 1) * ?k \<le> sub_v ?s" "sub_v ?s + (?h + 1) * ?k < vheight v"
    using grid_floor [OF h(1) assms(4) f(3,4)] by (simp_all add: subpix_at_def Let_def)
  have xy: "0 \<le> x" "x \<le> 2 * ?h - 1" "0 \<le> y" "y \<le> 2 * ?h - 1" using assms(5) h(2) by (simp_all add: cells_iff)
  have span: "- ((?h + 1) * ?k) \<le> (z - ?h + d) * ?k" "(z - ?h + d) * ?k + ?k \<le> (?h + 1) * ?k"
    if "0 \<le> z" "z \<le> 2 * ?h - 1" "d \<in> {- 1, 0, 1}" for z d :: int
  proof -
    have "(- (?h + 1)) * ?k \<le> (z - ?h + d) * ?k" using that by (intro mult_right_mono) auto
    then show "- ((?h + 1) * ?k) \<le> (z - ?h + d) * ?k" by (simp add: algebra_simps)
    have "(z - ?h + d + 1) * ?k \<le> (?h + 1) * ?k" using that by (intro mult_right_mono) auto
    then show "(z - ?h + d) * ?k + ?k \<le> (?h + 1) * ?k" by (simp add: algebra_simps)
  qed
  show ?thesis
  proof (rule bilinear_place [OF assms(2) subpix_weights])
    show "patch_ptr (vwidth v) ?h ?k ?s x y + a * (?k * vwidth v) + b * ?k =
        (sub_v ?s + (x - ?h + a) * ?k) * vwidth v + (sub_u ?s + (y - ?h + b) * ?k)"
      unfolding patch_ptr_place by (simp add: algebra_simps)
    show "0 \<le> sub_v ?s + (x - ?h + a) * ?k" "sub_v ?s + (x - ?h + a) * ?k + ?k < vheight v"
      using span [OF xy(1,2) assms(6)] w by linarith+
    show "0 \<le> sub_u ?s + (y - ?h + b) * ?k" "sub_u ?s + (y - ?h + b) * ?k + ?k < vwidth v"
      using span [OF xy(3,4) assms(7)] u by linarith+
  qed simp_all
qed

lemma those_map_Some:
  assumes "\<And>x. x \<in> set xs \<Longrightarrow> \<exists>y. f x = Some y \<and> P y"
  shows "\<exists>ys. those (map f xs) = Some ys \<and> length ys = length xs \<and> (\<forall>y \<in> set ys. P y)"
  using assms
proof (induction xs)
  case (Cons x xs)
  obtain y where "f x = Some y" "P y" using Cons.prems [of x] by auto
  moreover obtain ys where "those (map f xs) = Some ys" "length ys = length xs" "\<forall>y \<in> set ys. P y"
    using Cons.IH Cons.prems by auto
  ultimately show ?case by simp
qed simp

lemma those_map_None: "x \<in> set xs \<Longrightarrow> f x = None \<Longrightarrow> those (map f xs) = None"
  by (induction xs) (auto split: option.splits)

lemma length_cells: "length (cells n) = nat n * nat n"
proof -
  have "length (concat (map (\<lambda>x. map (\<lambda>y. (int x, int y)) [0..<m]) [0..<k])) = k * m" for k m
    by (induction k) simp_all
  then show ?thesis by (simp add: cells_def)
qed

text \<open>
  The patch of a point in the frame, at any level of the pyramid, is read inside the image: it
  has all its cells, and each is a value between those of the pixels, from 0 to 255.
\<close>

theorem patch_values:
  assumes "initializeVIO cam v0 = Some v" "even (patch_size v0)" "0 < patch_size v0" "image_ok v pic"
    and "isInFrame cam pc (vborder v)" "level \<le> patch_pyrimid_level v"
  shows "\<exists>ps. getImagePatch v pic pc level = Some ps \<and> length ps = nat (patch_size v) * nat (patch_size v) \<and>
    (\<forall>p \<in> set ps. 0 \<le> p \<and> p \<le> 255)"
proof -
  note ok = initializeVIO_patch [OF assms(1-3)]
  have "\<exists>z. bilinear pic (vwidth v) (2 ^ level) (subpix_at (2 ^ level) pc)
      (patch_ptr (vwidth v) (patch_size_half v) (2 ^ level) (subpix_at (2 ^ level) pc) x y) = Some z \<and> 0 \<le> z \<and> z \<le> 255"
    if "(x, y) \<in> set (cells (patch_size v))" for x y
    using cell_reads [OF ok assms(4-6) that, of 0 0] by simp
  then have "\<exists>ps. those (map (\<lambda>(x, y). bilinear pic (vwidth v) (2 ^ level) (subpix_at (2 ^ level) pc)
      (patch_ptr (vwidth v) (patch_size_half v) (2 ^ level) (subpix_at (2 ^ level) pc) x y)) (cells (patch_size v))) = Some ps \<and>
      length ps = length (cells (patch_size v)) \<and> (\<forall>p \<in> set ps. 0 \<le> p \<and> p \<le> 255)"
    by (intro those_map_Some) auto
  then show ?thesis by (simp add: getImagePatch_def Let_def length_cells)
qed

definition pixel_of :: "VIOManager \<Rightarrow> PinholeCamera \<Rightarrow> StatesGroup \<Rightarrow> visual_entry \<Rightarrow> V2D" where
  "pixel_of v cam st q = world2cam cam (camera_point v st (ve_pos q))"

text \<open>An entry that a pass at \<open>level\<close> can read: in the frame, at a level of the pyramid, with all its patches.\<close>

definition entry_ok :: "VIOManager \<Rightarrow> PinholeCamera \<Rightarrow> StatesGroup \<Rightarrow> nat \<Rightarrow> visual_entry \<Rightarrow> bool" where
  "entry_ok v cam st level q \<longleftrightarrow> isInFrame cam (pixel_of v cam st q) (vborder v) \<and>
    level + ve_search_level q \<le> patch_pyrimid_level v \<and>
    int (length (ve_warp_patch q)) = patch_size v * patch_size v * int (patch_pyrimid_level v)"

lemma cell_measurement_Some:
  assumes "patch_ok cam v" "image_ok v pic" "entry_ok v cam st level q" "level < patch_pyrimid_level v"
    and "(x, y) \<in> set (cells (patch_size v))"
  shows "cell_measurement v cam pic level st q (x, y) \<noteq> None"
proof -
  let ?l = "level + ve_search_level q" and ?W = "vwidth v" and ?pc = "pixel_of v cam st q"
  let ?ptr = "patch_ptr ?W (patch_size_half v) (2 ^ ?l) (subpix_at (2 ^ ?l) ?pc) x y"
  have q: "isInFrame cam ?pc (vborder v)" "?l \<le> patch_pyrimid_level v"
    "int (length (ve_warp_patch q)) = patch_size v * patch_size v * int (patch_pyrimid_level v)"
    using assms(3) by (simp_all add: entry_ok_def)
  note r = cell_reads [OF assms(1,2) q(1,2) assms(5)]
  obtain c0 c1 c2 c3 c4 where "bilinear pic ?W (2 ^ ?l) (subpix_at (2 ^ ?l) ?pc) ?ptr = Some c0"
    "bilinear pic ?W (2 ^ ?l) (subpix_at (2 ^ ?l) ?pc) (?ptr + 2 ^ ?l) = Some c1"
    "bilinear pic ?W (2 ^ ?l) (subpix_at (2 ^ ?l) ?pc) (?ptr - 2 ^ ?l) = Some c2"
    "bilinear pic ?W (2 ^ ?l) (subpix_at (2 ^ ?l) ?pc) (?ptr + 2 ^ ?l * ?W) = Some c3"
    "bilinear pic ?W (2 ^ ?l) (subpix_at (2 ^ ?l) ?pc) (?ptr - 2 ^ ?l * ?W) = Some c4"
    using r [of 0 0] r [of 0 1] r [of 0 "- 1"] r [of 1 0] r [of "- 1" 0] by auto
  moreover have "0 \<le> patch_size v * patch_size v * int level + x * patch_size v + y"
    "patch_size v * patch_size v * int level + x * patch_size v + y < patch_size v * patch_size v * int (patch_pyrimid_level v)"
  proof -
    have xy: "0 \<le> x" "x < patch_size v" "0 \<le> y" "y < patch_size v" using assms(5) by (simp_all add: cells_iff)
    then show "0 \<le> patch_size v * patch_size v * int level + x * patch_size v + y" by simp
    have "patch_size v * patch_size v * int level + x * patch_size v + y < patch_size v * patch_size v * (int level + 1)"
      using place_in [OF xy] by (simp add: algebra_simps)
    also have "\<dots> \<le> patch_size v * patch_size v * int (patch_pyrimid_level v)"
      using assms(4) by (intro mult_left_mono) simp_all
    finally show "patch_size v * patch_size v * int level + x * patch_size v + y <
      patch_size v * patch_size v * int (patch_pyrimid_level v)" .
  qed
  then obtain ref where "nth_of (ve_warp_patch q) (patch_size v * patch_size v * int level + x * patch_size v + y) = Some ref"
    using q(3) by (auto simp: nth_of_def nat_less_iff)
  ultimately show ?thesis
    by (simp add: cell_measurement_def gradient_def Let_def split_beta flip: camera_point_def pixel_of_def)
qed

text \<open>
  C26. A pass at a level reads only inside the image and the stored patches, and gives a row and a
  residual for every cell of every point, when each point is in the frame and its level in the image,
  the level of the pass plus its search level, is at most the number of levels the border is made for; the side of the patches is even and the image has the camera's size.
\<close>

theorem pass_reads_inside:
  assumes "initializeVIO cam v0 = Some v" "even (patch_size v0)" "0 < patch_size v0" "image_ok v pic"
    and "\<forall>q \<in> set submap. entry_ok v cam st level q" "level < patch_pyrimid_level v"
  shows "\<exists>ms. measurements (cell_measurement v cam pic level st) (patch_size v) submap = Some ms \<and>
    length ms = length submap * (nat (patch_size v) * nat (patch_size v))"
proof -
  note ok = initializeVIO_patch [OF assms(1-3)]
  define f where "f q = those (map (cell_measurement v cam pic level st q) (cells (patch_size v)))" for q
  have "\<exists>m. f q = Some m \<and> length m = nat (patch_size v) * nat (patch_size v)" if "q \<in> set submap" for q
  proof -
    have "\<exists>m. cell_measurement v cam pic level st q c = Some m \<and> True" if "c \<in> set (cells (patch_size v))" for c
      using cell_measurement_Some [OF ok assms(4) _ assms(6)] assms(5) \<open>q \<in> set submap\<close> that by (cases c) auto
    from those_map_Some [of "cells (patch_size v)", OF this] show ?thesis by (simp add: length_cells f_def)
  qed
  then obtain mss where mss: "length mss = length submap" "those (map f submap) = Some mss"
    "\<forall>m \<in> set mss. length m = nat (patch_size v) * nat (patch_size v)"
    using those_map_Some [of submap f "\<lambda>m. length m = nat (patch_size v) * nat (patch_size v)"] by blast
  then have "length (concat mss) = length mss * (nat (patch_size v) * nat (patch_size v))"
    by (simp add: length_concat cong: map_cong) (simp add: sum_list_triv)
  with mss(1,2) show ?thesis by (simp add: measurements_def f_def cong: map_cong)
qed

text \<open>
  A search level of two, which \<open>getBestSearchLevel\<close> may return, makes the coarsest pass read
  outside the image: for a point that is in the frame but within twice the border of its upper edge,
  a pass whose level in the image is one more than the levels of the border reads before the first pixel.
\<close>

theorem coarse_reads_outside:
  assumes "initializeVIO cam v0 = Some v" "even (patch_size v0)" "0 < patch_size v0"
    and "isInFrame cam (pixel_of v cam st q) (vborder v)" "snd (pixel_of v cam st q) < real_of_int (2 * vborder v)"
    and "level + ve_search_level q = Suc (patch_pyrimid_level v)" "q \<in> set submap"
  shows "measurements (cell_measurement v cam pic level st) (patch_size v) submap = None"
proof -
  let ?k = "2 ^ Suc (patch_pyrimid_level v) :: int" and ?pc = "pixel_of v cam st q" and ?h = "patch_size_half v" and ?W = "vwidth v"
  let ?s = "subpix_at ?k ?pc"
  have ok: "?W = cam_width cam" "patch_size v = 2 * ?h" "0 < ?h" "vborder v = (?h + 1) * 2 ^ patch_pyrimid_level v"
    using initializeVIO_patch [OF assms(1-3)] by (simp_all add: patch_ok_def)
  have k: "1 \<le> ?k" by (rule one_le_power) simp
  have k2: "2 * vborder v = (?h + 1) * ?k" by (simp add: ok)
  have b: "0 \<le> vborder v" using ok(3) by (simp add: ok(4))
  have inside: "trunc_int (fst ?pc) < ?W - vborder v" "vborder v \<le> trunc_int (fst ?pc)"
    using assms(4) by (simp_all add: isInFrame_def Let_def ok(1))
  have "\<lfloor>fst ?pc\<rfloor> \<le> trunc_int (fst ?pc)" by (simp add: trunc_int_def)
  moreover have "\<lfloor>p / real_of_int ?k\<rfloor> * ?k \<le> \<lfloor>p\<rfloor>" for p
  proof -
    have "real_of_int \<lfloor>p / real_of_int ?k\<rfloor> * real_of_int ?k \<le> p"
      by (subst pos_le_divide_eq [symmetric]) simp_all
    then show ?thesis unfolding le_floor_iff by simp
  qed
  from this [of "fst ?pc"] have "sub_u ?s \<le> \<lfloor>fst ?pc\<rfloor>" by (simp only: subpix_at_def Let_def subpix.simps)
  ultimately have u: "sub_u ?s < ?W" using inside(1) b by linarith
  have "snd ?pc / real_of_int ?k < real_of_int (?h + 1)"
    using assms(5) unfolding k2 by (subst pos_divide_less_eq) simp_all
  then have "\<lfloor>snd ?pc / real_of_int ?k\<rfloor> - ?h - 1 \<le> - 1" by linarith
  then have w: "(\<lfloor>snd ?pc / real_of_int ?k\<rfloor> - ?h - 1) * ?k \<le> - 1 * ?k" using k by (intro mult_right_mono) simp_all
  have W: "0 < ?W" using inside b by linarith
  let ?i = "patch_ptr ?W ?h ?k ?s 0 0 - ?k * ?W"
  have "?i = (\<lfloor>snd ?pc / real_of_int ?k\<rfloor> - ?h - 1) * ?k * ?W + sub_u ?s - ?h * ?k"
    by (simp add: patch_ptr_def subpix_at_def Let_def algebra_simps)
  also have "\<dots> \<le> (- 1 * ?k) * ?W + sub_u ?s - ?h * ?k" using mult_right_mono [OF w, of ?W] W by linarith
  also have "\<dots> < 0"
  proof -
    have "1 * ?W \<le> ?k * ?W" using k W by (intro mult_right_mono) simp_all
    moreover have "0 \<le> ?h * ?k" using k ok(3) by simp
    ultimately show ?thesis using u by linarith
  qed
  finally have "bilinear pic ?W ?k ?s ?i = None" by (simp add: bilinear_def pixel_def nth_of_def)
  then have "gradient pic ?W ?k ?s (patch_ptr ?W ?h ?k ?s 0 0) = None"
    by (auto simp: gradient_def split: Option.bind_splits)
  then have "cell_measurement v cam pic level st q (0, 0) = None"
    unfolding cell_measurement_def camera_point_def [symmetric] pixel_of_def [symmetric] split assms(6) Let_def by (simp add: split_beta)
  moreover have "(0, 0) \<in> set (cells (patch_size v))" using ok(2,3) by (simp add: cells_iff)
  ultimately have "those (map (cell_measurement v cam pic level st q) (cells (patch_size v))) = None"
    by (rule those_map_None [rotated])
  from those_map_None [of q submap "\<lambda>q. those (map (cell_measurement v cam pic level st q) (cells (patch_size v)))", OF assms(7) this]
  show ?thesis by (simp add: measurements_def)
qed

section \<open>Comparing patches\<close>

lemma cauchy_schwarz_step:
  fixes S A B a b :: real
  assumes "S\<^sup>2 \<le> A * B" "0 \<le> A" "0 \<le> B"
  shows "(a * b + S)\<^sup>2 \<le> (a * a + A) * (b * b + B)"
proof -
  have "sqrt (S\<^sup>2) \<le> sqrt (A * B)" by (rule real_sqrt_le_mono) (rule assms(1))
  then have S: "\<bar>S\<bar> \<le> sqrt A * sqrt B" by (simp add: real_sqrt_mult)
  have "a * b * S \<le> \<bar>a * b * S\<bar>" by (rule abs_ge_self)
  also have "\<dots> = \<bar>a * b\<bar> * \<bar>S\<bar>" by (rule abs_mult)
  also have "\<dots> \<le> \<bar>a * b\<bar> * (sqrt A * sqrt B)" by (rule mult_left_mono [OF S]) simp
  also have "\<dots> = (\<bar>a\<bar> * sqrt B) * (\<bar>b\<bar> * sqrt A)" by (simp only: abs_mult mult.assoc mult.commute mult.left_commute)
  finally have "2 * (a * b * S) \<le> 2 * (\<bar>a\<bar> * sqrt B) * (\<bar>b\<bar> * sqrt A)" by simp
  also have "\<dots> \<le> (\<bar>a\<bar> * sqrt B)\<^sup>2 + (\<bar>b\<bar> * sqrt A)\<^sup>2" by (rule sum_squares_bound)
  also have "\<dots> = a * a * B + b * b * A"
    by (simp only: power_mult_distrib real_sqrt_pow2 [OF assms(2)] real_sqrt_pow2 [OF assms(3)] power2_abs) (simp only: power2_eq_square)
  finally have *: "2 * (a * b * S) \<le> a * a * B + b * b * A" .
  have "(a * b + S)\<^sup>2 = a * a * (b * b) + 2 * (a * b * S) + S\<^sup>2" unfolding power2_eq_square by (simp add: field_simps)
  also have "\<dots> \<le> a * a * (b * b) + (a * a * B + b * b * A) + A * B" using * assms(1) by linarith
  also have "\<dots> = (a * a + A) * (b * b + B)" by (simp add: field_simps)
  finally show ?thesis .
qed

lemma cauchy_schwarz_list:
  fixes f g :: "'a \<Rightarrow> real"
  shows "(\<Sum>p \<leftarrow> ps. f p * g p)\<^sup>2 \<le> (\<Sum>p \<leftarrow> ps. f p * f p) * (\<Sum>p \<leftarrow> ps. g p * g p)"
proof (induction ps)
  case (Cons p ps)
  have "0 \<le> (\<Sum>p \<leftarrow> ps. f p * f p)" "0 \<le> (\<Sum>p \<leftarrow> ps. g p * g p)" by (auto intro!: sum_list_nonneg)
  from cauchy_schwarz_step [OF Cons.IH this] show ?case by simp
qed simp

text \<open>
  The correlation of two patches is a number from minus one to one, also for patches without
  contrast, whose variances are zero.
\<close>

theorem ncc_bounds:
  assumes "calculateNCC ref cur n = Some x"
  shows "\<bar>x\<bar> \<le> 1"
proof -
  define r where "r = take n ref"
  define c where "c = take n cur"
  define f where "f p = fst p - sum_list r / real n" for p :: "real \<times> real"
  define g where "g p = snd p - sum_list c / real n" for p :: "real \<times> real"
  have len: "length r = n" "length c = n" using assms by (auto simp: calculateNCC_def r_def c_def split: if_splits)
  let ?S = "\<Sum>p \<leftarrow> zip r c. f p * g p" and ?A = "\<Sum>p \<leftarrow> zip r c. f p * f p" and ?B = "\<Sum>p \<leftarrow> zip r c. g p * g p"
  have "(\<Sum>a \<leftarrow> map fst (zip r c). h a) = (\<Sum>p \<leftarrow> zip r c. h (fst p))"
    "(\<Sum>b \<leftarrow> map snd (zip r c). h b) = (\<Sum>p \<leftarrow> zip r c. h (snd p))" for h :: "real \<Rightarrow> real"
    by (simp_all add: comp_def del: map_fst_zip map_snd_zip)
  then have "(\<Sum>a \<leftarrow> r. h a) = (\<Sum>p \<leftarrow> zip r c. h (fst p))" "(\<Sum>b \<leftarrow> c. h b) = (\<Sum>p \<leftarrow> zip r c. h (snd p))" for h :: "real \<Rightarrow> real"
    by (simp_all add: len)
  then have x: "x = ?S / sqrt (?A * ?B + 1 / 10000000000)"
    using assms by (simp add: calculateNCC_def Let_def case_prod_unfold f_def g_def split: if_splits flip: r_def c_def)
  have pos: "0 \<le> ?A" "0 \<le> ?B" by (auto intro!: sum_list_nonneg)
  have "\<bar>?S\<bar> = sqrt (?S\<^sup>2)" by simp
  also have "\<dots> \<le> sqrt (?A * ?B + 1 / 10000000000)"
    using cauchy_schwarz_list [of f g "zip r c"] by (intro real_sqrt_le_mono) linarith
  finally show ?thesis using pos unfolding x abs_divide
    by (simp add: divide_le_eq add_nonneg_pos)
qed

section \<open>The search level\<close>

lemma best_level_result:
  "l \<le> best_level D l m \<and> best_level D l m \<le> max l m \<and>
    (m \<le> best_level D l m \<or> D / 4 ^ nat (best_level D l m - l) \<le> 3) \<and>
    (\<forall>k. l \<le> k \<and> k < best_level D l m \<longrightarrow> 3 < D / 4 ^ nat (k - l))"
proof (induction D l m rule: best_level.induct)
  case (1 D l m)
  show ?case
  proof (cases "D > 3 \<and> l < m")
    case True
    let ?r = "best_level (D / 4) (l + 1) m"
    from True 1 have IH: "l + 1 \<le> ?r" "?r \<le> max (l + 1) m" "m \<le> ?r \<or> D / 4 / 4 ^ nat (?r - (l + 1)) \<le> 3"
      "\<And>k. l + 1 \<le> k \<Longrightarrow> k < ?r \<Longrightarrow> 3 < D / 4 / 4 ^ nat (k - (l + 1))" by blast+
    have step: "D / 4 / 4 ^ nat (k - (l + 1)) = D / 4 ^ nat (k - l)" if "l + 1 \<le> k" for k
    proof -
      have "nat (k - l) = Suc (nat (k - (l + 1)))" using that by simp
      then show ?thesis by simp
    qed
    have "3 < D / 4 ^ nat (k - l)" if "l \<le> k" "k < ?r" for k
      using IH(4) [of k] step [of k] that True by (cases "k = l") auto
    with True IH(1-3) step [OF IH(1)] show ?thesis by (simp add: best_level.simps [of D])
  next
    case False
    then have "best_level D l m = l" by (simp add: best_level.simps)
    with False show ?thesis by auto
  qed
qed

section \<open>The voxels of visual points\<close>

lemma lookup_loc_iff:
  "lookup_loc p j = trunc_int (loc_xyz (1 / 2) p j) \<longleftrightarrow> 0 \<le> p j \<or> 2 * p j \<in> \<int>"
proof (cases "0 \<le> p j")
  case True
  then show ?thesis by (simp add: lookup_loc_def loc_xyz_def trunc_int_def Let_def)
next
  case False
  then have "lookup_loc p j = \<lfloor>2 * p j\<rfloor> - 1" "trunc_int (loc_xyz (1 / 2) p j) = \<lceil>2 * p j\<rceil> - 1"
    by (auto simp: lookup_loc_def loc_xyz_def trunc_int_def Let_def floor_less_iff mult.commute)
  moreover have "\<lfloor>x\<rfloor> = \<lceil>x\<rceil> \<longleftrightarrow> x \<in> \<int>" for x :: real
    by (metis Ints_of_int ceiling_of_int floor_of_int floor_correct le_of_int_ceiling of_int_floor_le antisym Ints_cases)
  ultimately show ?thesis using False by simp
qed

text \<open>
  A visual point is not always found where it was put: the voxel that is looked up for a position is the one that
  \<open>insertPointIntoVoxelMap\<close> puts a point at this position in exactly when every coordinate is not
  negative or a multiple of half a metre; on the negative side of an axis all others are looked up one
  voxel further out, as \<open>floor\<close> and the correction for the cut-off are both applied.
\<close>

theorem lookup_one_off:
  "insertPointIntoVoxelMap pt p Map.empty (lookup_position p) = Some [pt] \<longleftrightarrow> (\<forall>j \<in> {0, 1, 2}. 0 \<le> p j \<or> 2 * p j \<in> \<int>)"
proof -
  have "lookup_position p = voxel_position (1 / 2) p \<longleftrightarrow> (\<forall>j \<in> {0, 1, 2}. 0 \<le> p j \<or> 2 * p j \<in> \<int>)"
    unfolding lookup_position_def voxel_position_def by (simp add: lookup_loc_iff)
  then show ?thesis by (simp add: insertPointIntoVoxelMap_def Let_def)
qed

section \<open>At concrete inputs\<close>

definition ex_entry :: "V3D \<Rightarrow> nat \<Rightarrow> visual_entry" where
  "ex_entry p l = \<lparr>ve_pos = p, ve_search_level = l, ve_warp_patch = replicate 4 0, ve_inv_expo = 1, ve_ref_img = [],
    ve_ref_px = (0, 0), ve_ref_f = 0, ve_ref_T = \<lparr>se3_rot = 1, se3_tra = 0\<rparr>\<rparr>"

lemma ex_pixel: "camera_point ex_manager new_StatesGroup p = p"
    "pixel_of ex_manager ex_camera new_StatesGroup (ex_entry p l) = (4 * (vx p / vz p) + 16, 4 * (vy p / vz p) + 16)"
proof -
  show point: "camera_point ex_manager new_StatesGroup p = p" for p
    by (simp add: camera_point_def Rcw_of_def Pcw_of_def ex_manager_def ex_manager0_def new_StatesGroup_def)
  show "pixel_of ex_manager ex_camera new_StatesGroup (ex_entry p l) = (4 * (vx p / vz p) + 16, 4 * (vy p / vz p) + 16)"
    by (simp add: pixel_of_def point ex_entry_def world2cam_def project2d_def ex_camera_def new_PinholeCamera_def)
qed

lemma ex_frame: "vborder ex_manager = 4" "patch_size ex_manager = 2" "patch_pyrimid_level ex_manager = 1"
    "patch_size ex_manager0 = 2" "isInFrame ex_camera px 4 \<longleftrightarrow> 4 \<le> trunc_int (fst px) \<and> trunc_int (fst px) < 28 \<and>
      4 \<le> trunc_int (snd px) \<and> trunc_int (snd px) < 28"
  by (simp_all add: ex_manager_def ex_manager0_def isInFrame_def ex_camera_def new_PinholeCamera_def trunc_int_def Let_def)

theorem pass_reads_inside_witness:
  "\<exists>ms. measurements (cell_measurement ex_manager ex_camera (replicate 1024 7) 0 new_StatesGroup) 2 [ex_entry (V3D 0 0 1) 0] =
    Some ms \<and> length ms = 4"
proof -
  have "even (patch_size ex_manager0)" "0 < patch_size ex_manager0" "0 < patch_pyrimid_level ex_manager"
    by (simp_all add: ex_frame)
  moreover have "image_ok ex_manager (replicate 1024 7)" by (simp add: image_ok_def ex_manager_def)
  moreover have "\<forall>q \<in> set [ex_entry (V3D 0 0 1) 0]. entry_ok ex_manager ex_camera new_StatesGroup 0 q"
    by (simp add: entry_ok_def ex_pixel ex_frame trunc_int_def) (simp add: ex_entry_def)
  ultimately show ?thesis
    using pass_reads_inside [OF ex_manager, where pic = "replicate 1024 7" and submap = "[ex_entry (V3D 0 0 1) 0]" and st = new_StatesGroup and level = 0]
    by (simp add: ex_frame)
qed

theorem coarse_reads_outside_witness:
  "measurements (cell_measurement ex_manager ex_camera (replicate 1024 7) 0 new_StatesGroup) 2 [ex_entry (V3D 0 (- 3) 1) 2] = None"
proof -
  let ?q = "ex_entry (V3D 0 (- 3) 1) 2"
  have "even (patch_size ex_manager0)" "0 < patch_size ex_manager0" by (simp_all add: ex_frame)
  moreover have "isInFrame ex_camera (pixel_of ex_manager ex_camera new_StatesGroup ?q) (vborder ex_manager)"
    "snd (pixel_of ex_manager ex_camera new_StatesGroup ?q) < real_of_int (2 * vborder ex_manager)"
    by (simp_all add: ex_pixel ex_frame trunc_int_def)
  moreover have "0 + ve_search_level ?q = Suc (patch_pyrimid_level ex_manager)" by (simp add: ex_frame ex_entry_def)
  ultimately show ?thesis
    using coarse_reads_outside [OF ex_manager, where q = ?q and submap = "[?q]" and pic = "replicate 1024 7"] by (simp add: ex_frame)
qed

text \<open>The body moves to the right, and the point in front of it to the left, by the focal length.\<close>

theorem pixel_rows_witness:
  "((\<lambda>t. fst (world2cam ex_camera (camera_point ex_manager (moved new_StatesGroup 0 (V3D 1 0 0) t) (V3D 0 0 1))))
    has_real_derivative - 4) (at 0)"
proof -
  have cam: "\<not> distortion ex_camera" "rotation (Rcl ex_manager0)" "rotation (Rli ex_manager0)"
    by (simp_all add: ex_camera_def new_PinholeCamera_def ex_manager0_def)
  let ?J = "computeProjectionJacobian ex_manager (V3D 0 0 1)"
  have J: "?J = (V3D 4 0 0, V3D 0 4 0)"
    by (simp add: computeProjectionJacobian_def ex_manager_def Let_def)
  have z: "vz (camera_point ex_manager new_StatesGroup (V3D 0 0 1)) \<noteq> 0" by (simp add: ex_pixel)
  obtain r where r: "pose_row ex_manager new_StatesGroup (V3D 0 0 1) (V3D 4 0 0) = (r, V3D (- 4) 0 0)"
    by (simp add: pose_row_def Let_def row_times_def Rcw_of_def V3D_ops mv_def trp_def M3D_ops
        ex_manager_def ex_manager0_def new_StatesGroup_def)
  from J have "computeProjectionJacobian ex_manager (camera_point ex_manager new_StatesGroup (V3D 0 0 1)) = (V3D 4 0 0, V3D 0 4 0)"
    by (simp add: ex_pixel)
  from pixel_rows [OF ex_manager cam(2,3,1) z this, of 0 "V3D 1 0 0"] show ?thesis
    by (simp only: ex_pixel r split) (simp add: dot_def V3D_ops)
qed

end
