(* ===== verification/Spec2Isabelle.thy ===== *)
theory Spec2Isabelle
  imports Prelude Stm32f10x Interfaces Stm32_Constants Cstring Globals Rcc Misc Gpio Sys Tim_Base Tim_Output Tim_Input Usart_Driver System_Clock Delay Led_Key Uart Timer Firmware Synchro Rmc_Time Gprmc_Feeder Time_Sync Fifo Ldq Cache_Index Lds Lddc Xor_Linear Slicing Crc_Tables Fast_Crc Crc_Spec Sdk_Protocol Sync_Buffers Sync_Packages Sync_Node Sync_Times Octree Octree_Update Voxel_Map Voxel_Props So3 Covariance Imu_Process Imu_Props Undistort Ekf Least_Squares Bordering Kalman Ekf_Props Plane_Var Camera Vio Vio_Props Odometry Jacobians Patches
begin

text \<open>
  The repository drives a rig of camera, lidar and inertial sensor. Eight of its parts carry logic of
  their own that can be stated without the libraries they are built on, and these are modelled:
  \<^item> the firmware of the timing board, \<open>src/stm32_timersync-open\<close> (C, STM32F103, no operating
    system): it triggers the camera, emits one pulse per second and prints a GPRMC sentence with
    the time of each pulse;
  \<^item> the time feeder of the lidar driver, \<open>src/src/livox_ros_driver2\<close>, with the time command of the
    Livox SDK, \<open>src/src/Livox-SDK2\<close>: they read that sentence on the host and give the lidar its time;
  \<^item> the point path of the lidar driver: from the SDK's frames through one queue for each lidar to the
    published messages;
  \<^item> the frames of the SDK's protocol, with the two checksums they carry;
  \<^item> the measurement synchronisation of the odometry node, \<open>src/src/fast_livo2\<close>: it buffers clouds,
    inertial messages and images and cuts them into the packages one step of the filter processes;
  \<^item> the voxel map of that node: octrees of points with the planes fitted to them;
  \<^item> the state estimation of that node: initial gravity, propagation by the inertial messages,
    undistortion of the scan, the iterated Kalman update by its points, and the update of the map;
  \<^item> the visual update of that node: the same state corrected by the pixels around points whose
    reference patches are known.

  \<^bold>\<open>How the parts interact.\<close> On the board \<open>main\<close> sets up delays, interrupt groups, the console (USART1),
  LED, buttons and two timers, and then sleeps; everything else happens in interrupts. TIM2 makes the
  camera trigger. TIM3 makes the pulse per second, and its update interrupt restarts TIM2 (so that the
  trigger is aligned to the pulse), advances the clock and prints the sentence through \<open>printf\<close>, whose
  low level is \<open>_write\<close>. The USART1 interrupt collects a line of received bytes. On the host a thread of
  \<open>Synchro\<close> reads the serial port byte by byte; a sentence whose checksum is right goes to the callback
  of \<open>GprmcFeeder\<close>, and from there, with the handle of the lidar that reported in last, to
  \<open>SetLivoxLidarRmcSyncTime\<close>. The lidar's packets come back as frames: \<open>Lds\<close> sorts them into ring buffers
  by the place of their lidar and wakes \<open>Lddc\<close> by a semaphore, which empties the rings into messages.
  The odometry node subscribes to these messages, to the inertial messages and to the images that the
  trigger of the board has stamped with the same clock; \<open>sync_packages\<close> cuts the points and inertial
  messages at the capture time of each image. A lidar package goes to \<open>processImu\<close>, which carries the
  state and its covariance over the inertial messages and the points to the end of the scan, and then
  to \<open>handleLIO\<close>: the points are matched with the planes of the map, the state is updated, and the
  points enter the map with the variance that the new state gives them. An image package goes to
  \<open>handleVIO\<close>, which corrects the same state by the difference between the image and the reference patches
  of the points in view. Between the scans a timer carries the latest estimate over the inertial messages.

  \<^bold>\<open>Theories of the firmware\<close> (paths below \<open>src/stm32_timersync-open\<close>):
  \<^item> \<open>Stm32f10x\<close>, \<open>Stm32_Constants\<close>: the registers of \<open>USER/stm32f10x.h\<close> and \<open>CORE/core_cm3.h\<close> as the
    record \<open>mcu\<close>, and the constants of the headers. A C function that works on registers is a function
    on \<open>mcu\<close>; the base pointers (\<open>TIM2\<close>, \<open>GPIOA\<close>) are enumerations. Write-only triggers are logs.
  \<^item> \<open>Globals\<close>: the record \<open>firmware\<close> extends \<open>mcu\<close> by the variables of the program, with the bytes
    that lie behind the two arrays the code uses past their end, and the state at reset.
  \<^item> \<open>Cstring\<close>: byte strings, \<open>%s\<close>, \<open>%02d\<close>, \<open>%02X\<close>, the NMEA checksum.
  \<^item> \<open>Rcc\<close>, \<open>Misc\<close>, \<open>Gpio\<close>, \<open>Tim_Base\<close>, \<open>Tim_Output\<close>, \<open>Tim_Input\<close>, \<open>Usart_Driver\<close>: the vendor
    drivers below \<open>STM32F10x_FWLib/src\<close> that are compiled in, function by function in the order of the
    source. \<open>System_Clock\<close>: \<open>USER/system_stm32f10x.c\<close>. \<open>Sys\<close>: the bit-band macros of \<open>SYSTEM/sys/sys.h\<close>.
  \<^item> \<open>Delay\<close> (\<open>SYSTEM/delay\<close>), \<open>Led_Key\<close> (\<open>HARDWARE/LED\<close>, \<open>HARDWARE/KEY\<close>), \<open>Uart\<close> (\<open>SYSTEM/usart\<close>),
    \<open>Timer\<close> (\<open>HARDWARE/TIMER\<close>): the program above the drivers.
  \<^item> \<open>Firmware\<close>: \<open>USER/main.c\<close>, \<open>USER/stm32f10x_it.c\<close>, and the running board as the step relation
    \<open>fw_step\<close>, whose events are a timer update and a received byte.

  \<^bold>\<open>Theories of the host\<close> (paths below \<open>src/src\<close>; LR is \<open>livox_ros_driver2/src\<close>):
  \<^item> \<open>Synchro\<close> (LR \<open>synchro.cpp\<close>): \<open>ParseGps\<close>, \<open>Decode\<close>, \<open>Clear\<close> on the record \<open>synchro\<close>.
  \<^item> \<open>Rmc_Time\<close> (\<open>Livox-SDK2/sdk_core/command_handler/command_impl.cpp\<close>): \<open>Split\<close>, \<open>StringToTimestamp\<close>,
    \<open>ParseGPRMC\<close>, the body of \<open>SetLivoxLidarRmcSyncTime\<close>.
  \<^item> \<open>Gprmc_Feeder\<close> (LR \<open>gprmc_feeder.cpp\<close>, and start, stop and loop of \<open>synchro.cpp\<close>).
  \<^item> \<open>Time_Sync\<close>: the composition of \<open>Firmware\<close>, \<open>Synchro\<close>, \<open>Gprmc_Feeder\<close> and \<open>Rmc_Time\<close>.
  \<^item> \<open>Ldq\<close> (LR \<open>comm/ldq.cpp\<close>), \<open>Cache_Index\<close> (LR \<open>comm/cache_index.cpp\<close>), \<open>Lds\<close> (LR \<open>lds.cpp\<close>, with
    \<open>comm/semaphore.cpp\<close> and \<open>CalculatePacketQueueSize\<close>), \<open>Lddc\<close> (LR \<open>lddc.cpp\<close>, as built for ROS 2).
  \<^item> \<open>Crc_Tables\<close> and \<open>Fast_Crc\<close> (\<open>Livox-SDK2/3rdparty/FastCRC\<close>): the tables and the word-wise loops of
    CCITT and CRC-32. \<open>Xor_Linear\<close> and \<open>Slicing\<close> are the theory of such loops; \<open>Crc_Spec\<close> has the
    bit-by-bit checksums and the proof that the code computes them.
  \<^item> \<open>Sdk_Protocol\<close> (\<open>Livox-SDK2/sdk_core/comm\<close>: \<open>sdk_protocol.cpp\<close>, \<open>comm_port.cpp\<close>,
    \<open>generate_seq.cpp\<close>): \<open>Pack\<close>, \<open>ParsePacket\<close>, \<open>CheckPreamble\<close>, \<open>ParseCommStream\<close>, \<open>GetSeq\<close>.
  \<^item> \<open>Sync_Buffers\<close> (\<open>fast_livo2/src/LIVMapper.cpp\<close>, \<open>include/common_lib.h\<close>, \<open>include/utils/utils.h\<close>):
    the queues and the callbacks that fill them; \<open>Sync_Packages\<close>: \<open>sync_packages\<close> in its three modes,
    and the control flow of \<open>ImuProcess::Process2\<close> (\<open>IMU_Processing.cpp\<close>) with what it does to the
    clock; \<open>Sync_Node\<close>: callbacks and steps in any interleaving; \<open>Sync_Times\<close>: what packages contain.
  \<^item> \<open>Octree\<close> (\<open>fast_livo2/src/voxel_map.cpp\<close>, class \<open>VoxelOctoTree\<close>): \<open>init_plane\<close>, \<open>init_octo_tree\<close>,
    \<open>cut_octo_tree\<close>, \<open>UpdateOctoTree\<close>, \<open>find_correspond\<close>, and well-formed trees; \<open>Octree_Update\<close>: what the
    operations do; \<open>Voxel_Map\<close> (class \<open>VoxelMapManager\<close>): \<open>BuildVoxelMap\<close>, \<open>UpdateVoxelMap\<close>,
    \<open>BuildResidualListOMP\<close>, \<open>build_single_residual\<close>, \<open>mapSliding\<close>; \<open>Voxel_Props\<close>: the properties.
  \<^item> \<open>So3\<close> (\<open>fast_livo2/include/utils/so3_math.h\<close>): the types \<open>V3D\<close> and \<open>M3D\<close> as instances of the
    library's algebra, \<open>Exp\<close> and \<open>Log\<close>; \<open>Covariance\<close>: matrices as functions of two indices.
  \<^item> \<open>Imu_Process\<close> (\<open>IMU_Processing.cpp\<close>, \<open>StatesGroup\<close> of \<open>include/common_lib.h\<close>): every operation of
    \<open>ImuProcess\<close>; \<open>Imu_Props\<close>: its invariant, and that it refines the skeleton in \<open>Sync_Packages\<close>;
    \<open>Undistort\<close>: what the points, the intervals and the mean acceleration become.
  \<^item> \<open>Ekf\<close> (\<open>voxel_map.cpp\<close>: \<open>calcBodyCov\<close>, \<open>StateEstimation\<close>); \<open>Least_Squares\<close> and \<open>Bordering\<close>: the theory
    of weighted least squares, and a computed inverse for the witnesses; \<open>Kalman\<close>: what any update
    by rows with weights does to estimate and covariance; \<open>Ekf_Props\<close>: the properties;
    \<open>Plane_Var\<close>: the variances in the map stay covariance matrices.
  \<^item> \<open>Camera\<close> (\<open>vio.cpp\<close>, and \<open>rpg_vikit/vikit_common\<close>: \<open>pinhole_camera.cpp\<close>, \<open>vision.h\<close>): the pinhole camera, \<open>initializeVIO\<close>,
    and the helpers that read, warp and compare patches; \<open>Vio\<close> (\<open>vio.cpp\<close>): \<open>updateState\<close>,
    \<open>updateStateInverse\<close>, \<open>computeJacobianAndUpdateEKF\<close>, \<open>updateFrameState\<close>; \<open>Vio_Props\<close>: what an update does;
    \<open>Jacobians\<close>: its rows are derivatives; \<open>Patches\<close>: its reads, and the values of patches.
  \<^item> \<open>Odometry\<close> (\<open>LIVMapper.cpp\<close>: \<open>gravityAlignment\<close>, \<open>processImu\<close>, \<open>handleLIO\<close>, \<open>handleVIO\<close>,
    \<open>prop_imu_once\<close>, \<open>imu_prop_callback\<close>, and \<open>imu_arrives\<close> for the buffering in \<open>imu_cbk\<close>): the record \<open>estimator\<close>, its step relation \<open>est_step\<close> and its invariant.

  \<^bold>\<open>Conventions.\<close> Machine integers are words of their width. What is undefined in C or C++ (an access
  outside an array, a shift too far, a division by zero, freed memory) is \<open>None\<close>. A variable that the code
  leaves uninitialised is an argument (\<open>stack\<close>, \<open>heap\<close>). Hardware enters as parameters: \<open>tick\<close> is what the
  device does between two reads of a status register, \<open>sr_store\<close> what a store to a status register
  leaves there; theorems say what they need of them (\<open>console_port\<close>, \<open>prompt_clock\<close>, \<open>board_hardware\<close>).
  What \<open>open\<close> returns, what a port delivers and when an exit is requested are arguments of the events.

  \<^bold>\<open>Interfaces.\<close> \<open>Interfaces\<close> has the contracts of the drivers: \<open>reg_field\<close>, \<open>field_pair\<close> and
  \<open>enable_switch\<close> for configuration fields and switches, \<open>register\<close> from which they follow, and
  \<open>simulation\<close> for a system that implements an abstract machine. They are interpreted on the drivers'
  setters, on \<open>fw_step\<close> (qualifier \<open>fw\<close>) and on the feeder (qualifier \<open>link\<close>). \<open>Fifo\<close> has \<open>bounded_fifo\<close>,
  interpreted on the ring of \<open>Ldq\<close> (qualifier \<open>ring\<close>). \<open>Slicing\<close> has \<open>slicing\<close>, a linear step with the
  tables of its powers, interpreted on both checksums (qualifiers \<open>ccitt\<close> and \<open>crc32\<close>). \<open>Kalman\<close> has
  \<open>kalman\<close>, a gain computed from rows, weights and a prior, interpreted on the update by a scan
  (qualifier \<open>lio\<close>) and on that by an image (qualifier \<open>visual\<close>).

  \<^bold>\<open>What is shown.\<close>
  \<^item> The whole chain: every pulse of the board reaches the lidar as one command with the time of that
    pulse, in order, for every interleaving on the board and every cut of the serial stream into reads.
  \<^item> The board: reset leads to the running state; a run never gets stuck and prints exactly the
    sentences of its seconds; the receiver implements a line buffer; the clock tree, the timers, the
    console and the pins are set up as intended; delays end after the right number of cycles.
  \<^item> The reader stays inside its buffer, passes on every sentence with a right checksum and nothing
    with a wrong one, and recovers within three sentences. The feeder never starts two readers.
  \<^item> The point path: the ring is a queue, also over the wrap-around of its 32-bit indices; two lidars
    never share a place; a frame is sorted into its lidars' queues; under every interleaving of receiver,
    publisher and the lidars' answers the publisher is left asleep on data at most when a lidar is
    made sampling after its data has come, which does happen; a poll publishes all packets in order.
  \<^item> The frames: what \<open>Pack\<close> writes, \<open>ParseCommStream\<close> reads back; damage within four bytes of the payload
    is refused; both checksums equal their bit-by-bit references; sequence numbers do not repeat early.
  \<^item> The odometry's packages: no callback and no step reads an empty queue, however they interleave;
    a package holds what was measured before the capture time, the rest is carried over with its time,
    and no point is lost whatever the rounding; a package is made exactly when the data are there and the
    image is not older than the clock.
  \<^item> The voxel map: taking in a point returns, keeps the tree well-formed and leaves the point in the node
    that is found for it; a plane is accepted by the mean squared distance of its points; voxels are
    independent, and the map has exactly those of the points; the match found for a point is the best;
    sliding keeps the points in reach and removes those out of it.
  \<^item> The estimation: after any number of packages of scans and images, messages and timers the attitudes are rotations, the
    covariance is positive definite, the map well-formed with covariance matrices in it, and the next
    package can be handled; one pass of the update solves the least squares problem it stands for,
    and the stored covariance is the inverse of the summed information, nowhere greater than before;
    points are carried to the end of the scan along the recorded poses; the initial gravity is the
    mean of all messages; \<open>Exp\<close> and \<open>Log\<close> are inverse up to an error that is bounded.
  \<^item> The visual update: one pass solves its least squares problem, a level ends at most one
    increment away from a state whose error is not above the first one's, the rows are the derivatives of the pixels, and the reads stay inside the
    image for points in the frame at levels the border is made for.
  \<^item> Where the code does not do this, the theorems say so: arrays used past their end, a clock start
    without crystal, rounding of the baud rate, the ninth field of a sentence, midnight, a race in
    \<open>GetFreeIndex\<close>, the use of a queue after its release, the endless poll in the PCL format, a length
    field that is not checked, an image replaced between its two packages, inertial messages locked out
    after a gap, clouds paired with times of others, points carried over past the next capture, a neighbouring
    voxel chosen by comparing voxels with metres, a node that lost its plane and is not cut, a package
    with one inertial message that moves the clock but not the state, rates of the wrong interval in
    the undistortion, a first point that is compensated more than once, messages that a timer passes over,
    a wake-up that is lost, visual points looked up in the wrong voxel, pixels read before the image.

  \<^bold>\<open>Loops and bounds.\<close> Polling loops without bound (status flags, \<open>SysTick\<close>, publishing) are
  \<open>partial_function (option)\<close>; that they return is a theorem under the parameter's hypothesis, not
  part of the definition. The wait for the crystal is bounded by its counter, \<open>0x500\<close>. The receive buffer
  has 200 bytes, the reader's 128, SysTick 24 bits, the place table 32 entries; a ring at most \<open>2\<^sup>31\<close>.
  The recursions over an octree take fuel for the layers below the node (\<open>tree_fuel\<close>): two more than there
  are layers are shown to be enough.

  \<^bold>\<open>Simplifications.\<close> \<open>printf\<close> is taken as a direct write: the line buffering of the C library is left
  out. The pulse on a peripheral's reset register is logged, without its effect on the peripheral.
  \<open>BSRR\<close> and \<open>ODR\<close> are separate. The update interrupt may preempt the receive interrupt (preemption
  priorities 0 and 3); the model runs each handler to its end, which loses nothing that the program can
  see: the receive handler writes only its line buffer (\<open>rx_frame\<close>), which the other neither reads nor
  writes. The feeder's events are atomic; time zones have no daylight saving time. In the \<open>Sync\<close> theories
  a \<open>double\<close> is a real number, and the rounding of a point's offset to a \<open>float\<close> is the parameter \<open>fl\<close>;
  statements about times take it as the identity, those about points hold for any. The contents of
  points, inertial messages and images are type parameters, for the code here only moves them. The voxel
  map too is over real numbers, so that the place of a point computed in single precision for the map
  and in double precision for the matching is the same; the eigenvalue solver of Eigen is a parameter. The
  bounds of the sliding map are narrowed to an \<open>int\<close> as in the code (\<open>int32\<close>). In \<open>init_plane\<close> a division
  by the difference of equal eigenvalues gives zero, where the code gets no number, and the middle
  eigenvector, which is only published, is left out; its index is out of range when the three eigenvalues are
  equal (\<open>evalsMid_equal\<close>). So is the estimation over real numbers: a division by zero
  gives zero there, where the code gets an infinity or no number; the sorting of a scan is stable;
  the inverse of a matrix, the rotation between two vectors (Eigen) and the thinning of a scan (PCL)
  are parameters, asked only to invert, and to be a rotation; so are the inversion of the lens distortion
  (OpenCV) and the way of a rotation through a quaternion and back. The values of patches, \<open>float\<close> in the
  code, are real numbers too, and an image is a list of pixels.

  \<^bold>\<open>Not modelled.\<close> Of the firmware: the start-up assembly, the intrinsics of \<open>core_cm3\<close> and the inline
  assembly of \<open>sys.c\<close>; the vendor drivers that are not compiled in; \<open>GetKey\<close>, which nothing calls. Of the
  driver: \<open>Synchro::Setup\<close> (terminal settings), the IMU path, the ROS nodes and publishers, the byte layout
  of PointCloud2, the JSON configuration, the SDK's callbacks and the conversion of raw points. Of the
  SDK: the other commands, the device manager and the threads. Of FAST-LIVO2 the
  choice of the points for an image and the upkeep of the visual map (the rest of \<open>vio.cpp\<close>, \<open>frame.cpp\<close>,
  \<open>visual_point.cpp\<close>), the rays of \<open>initializeVIO\<close>, the preprocessing of the scans (\<open>preprocess.cpp\<close>), publishing,
  saving and parameters; the camera driver, Sophus and the rest of rpg\_vikit. They
  are glue over OpenCV, PCL and ROS, which are not in the repository, or libraries of their own.
\<close>

end
